(* ===== verification/Prelude.thy ===== *)
theory Prelude
  imports Main "HOL-Library.AList" "HOL-Library.Char_ord" "HOL-Library.List_Lexorder"
    "HOL-Library.Product_Lexorder"
begin

text \<open>
  Shared ground of the development: Python exceptions as values, the result type and its
  sequencing, loops that may raise, Python dictionaries as association lists, and the sorted
  key/value tuples the world state is made of. The collections
  \<open>outcome_simps\<close> and \<open>outcome_intros\<close> carry the proofs of the component theories: a
  property of a computation is stated with \<open>outcome E P\<close> (its result satisfies \<open>P\<close>, or it
  raised an exception in \<open>E\<close>) and is computed through the program text by the simplifier.

  A Python \<open>str\<close> is a \<open>string\<close> that holds its UTF-8 bytes: equality, concatenation and the
  code-point order that \<open>sorted\<close> uses are the same on both. Python's \<open>int\<close> is \<open>int\<close>.
\<close>

section \<open>Exceptions and results\<close>

datatype exn =
    KeyError string
  | IndexError
  | TypeError string
  | AttributeError string
  | ValueError string
  | StopIteration
  | RecursionError
  | ZeroDivisionError
  | Diverges
  | WorldPackError string
  | PersistenceError string
  | GameLogicError string string
  | GameAnalysisError string string
  | AssertionError
  | IllTyped string

type_synonym 'a res = "exn + 'a"

definition rbind :: "'a res \<Rightarrow> ('a \<Rightarrow> 'b res) \<Rightarrow> 'b res" where
  "rbind m f = (case m of Inl e \<Rightarrow> Inl e | Inr x \<Rightarrow> f x)"

lemma rbind_Inl [simp]: "rbind (Inl e) f = Inl e"
  by (simp add: rbind_def)

lemma rbind_Inr [simp]: "rbind (Inr x) f = f x"
  by (simp add: rbind_def)

lemma rbind_assoc: "rbind (rbind m f) g = rbind m (\<lambda>x. rbind (f x) g)"
  by (cases m) simp_all

lemma rbind_InrD: "rbind m f = Inr y \<Longrightarrow> \<exists>x. m = Inr x \<and> f x = Inr y"
  by (cases m) simp_all

lemma rbind_InrE [elim!]:
  assumes "rbind m f = Inr y"
  obtains x where "m = Inr x" and "f x = Inr y"
  using rbind_InrD [OF assms] by blast

lemma rbind_cong [fundef_cong]:
  assumes "m = m'" and "\<And>x. m' = Inr x \<Longrightarrow> f x = f' x"
  shows "rbind m f = rbind m' f'"
  using assms by (cases m') simp_all

text \<open>\<open>raise_if c e\<close> is \<open>if c: raise e\<close>.\<close>

definition raise_if :: "bool \<Rightarrow> exn \<Rightarrow> unit res" where
  "raise_if c e = (if c then Inl e else Inr ())"

definition of_option :: "exn \<Rightarrow> 'a option \<Rightarrow> 'a res" where
  "of_option e v = (case v of None \<Rightarrow> Inl e | Some x \<Rightarrow> Inr x)"

lemma of_option_simps [simp]:
  "of_option e None = Inl e" "of_option e (Some x) = Inr x"
  by (simp_all add: of_option_def)

lemma of_option_Inr [simp]: "of_option e v = Inr x \<longleftrightarrow> v = Some x"
  by (cases v) simp_all

subsection \<open>What a computation may do\<close>

named_theorems outcome_simps "computing the outcome predicate through a program text"
named_theorems outcome_intros "outcome rules for loops and called operations"

definition outcome :: "(exn \<Rightarrow> bool) \<Rightarrow> ('a \<Rightarrow> bool) \<Rightarrow> 'a res \<Rightarrow> bool" where
  "outcome E P r = (case r of Inl e \<Rightarrow> E e | Inr x \<Rightarrow> P x)"

abbreviation no_exn :: "exn \<Rightarrow> bool" where
  "no_exn \<equiv> (\<lambda>_. False)"

abbreviation any_exn :: "exn \<Rightarrow> bool" where
  "any_exn \<equiv> (\<lambda>_. True)"

lemma outcome_Inl [simp, outcome_simps]: "outcome E P (Inl e) = E e"
  by (simp add: outcome_def)

lemma outcome_Inr [simp, outcome_simps]: "outcome E P (Inr x) = P x"
  by (simp add: outcome_def)

lemma outcome_rbind [outcome_simps]:
  "outcome E P (rbind m f) = outcome E (\<lambda>x. outcome E P (f x)) m"
  by (cases m) simp_all

lemma outcome_raise_if [outcome_simps]:
  "outcome E P (raise_if c e) = (if c then E e else P ())"
  by (simp add: raise_if_def)

lemma outcome_of_option [outcome_simps]:
  "outcome E P (of_option e v) = (case v of None \<Rightarrow> E e | Some x \<Rightarrow> P x)"
  by (cases v) simp_all

lemma outcome_if [outcome_simps]:
  "outcome E P (if c then a else b) = (if c then outcome E P a else outcome E P b)"
  by simp

lemma outcome_case_option [outcome_simps]:
  "outcome E P (case v of None \<Rightarrow> a | Some x \<Rightarrow> b x) =
     (case v of None \<Rightarrow> outcome E P a | Some x \<Rightarrow> outcome E P (b x))"
  by (cases v) simp_all

lemma outcome_case_prod [outcome_simps]:
  "outcome E P (case v of (x, y) \<Rightarrow> b x y) = (case v of (x, y) \<Rightarrow> outcome E P (b x y))"
  by (cases v) simp

lemma outcome_Let [outcome_simps]: "outcome E P (Let v b) = outcome E P (b v)"
  by simp

lemma outcome_mono:
  assumes "outcome E Q r" and "\<And>x. Q x \<Longrightarrow> P x"
  shows "outcome E P r"
  using assms by (cases r) simp_all

lemma outcome_weaken:
  assumes "outcome E Q r" and "\<And>e. E e \<Longrightarrow> F e" and "\<And>x. Q x \<Longrightarrow> P x"
  shows "outcome F P r"
  using assms by (cases r) simp_all

lemma outcome_conj: "outcome E (\<lambda>x. P x \<and> Q x) r \<longleftrightarrow> outcome E P r \<and> outcome E Q r"
  by (cases r) simp_all

lemma outcome_no_exnD: "outcome no_exn P r \<Longrightarrow> \<exists>x. r = Inr x \<and> P x"
  by (cases r) simp_all

lemma outcome_InrD: "outcome E P r \<Longrightarrow> r = Inr x \<Longrightarrow> P x"
  by simp

lemma outcome_any_iff: "outcome any_exn P r \<longleftrightarrow> (\<forall>x. r = Inr x \<longrightarrow> P x)"
  by (cases r) simp_all

subsection \<open>Loops that may raise\<close>

fun foldR :: "('s \<Rightarrow> 'a \<Rightarrow> 's res) \<Rightarrow> 's \<Rightarrow> 'a list \<Rightarrow> 's res" where
  "foldR f s [] = Inr s"
| "foldR f s (x # xs) = rbind (f s x) (\<lambda>s'. foldR f s' xs)"

text \<open>\<open>all(p(x) for x in xs)\<close> and \<open>any(p(x) for x in xs)\<close> stop at the first decision.\<close>

fun allR :: "('a \<Rightarrow> bool res) \<Rightarrow> 'a list \<Rightarrow> bool res" where
  "allR p [] = Inr True"
| "allR p (x # xs) = rbind (p x) (\<lambda>b. if b then allR p xs else Inr False)"

fun anyR :: "('a \<Rightarrow> bool res) \<Rightarrow> 'a list \<Rightarrow> bool res" where
  "anyR p [] = Inr False"
| "anyR p (x # xs) = rbind (p x) (\<lambda>b. if b then Inr True else anyR p xs)"

fun filterR :: "('a \<Rightarrow> bool res) \<Rightarrow> 'a list \<Rightarrow> 'a list res" where
  "filterR p [] = Inr []"
| "filterR p (x # xs) =
     rbind (p x) (\<lambda>b. rbind (filterR p xs) (\<lambda>ys. Inr (if b then x # ys else ys)))"

fun mapR :: "('a \<Rightarrow> 'b res) \<Rightarrow> 'a list \<Rightarrow> 'b list res" where
  "mapR f [] = Inr []"
| "mapR f (x # xs) = rbind (f x) (\<lambda>y. rbind (mapR f xs) (\<lambda>ys. Inr (y # ys)))"

lemma foldR_append: "foldR f s (xs @ ys) = rbind (foldR f s xs) (\<lambda>s'. foldR f s' ys)"
  by (induction xs arbitrary: s) (simp_all add: rbind_assoc)

lemma foldR_cong [fundef_cong]:
  assumes "s = s'" and "xs = xs'" and "\<And>s x. x \<in> set xs' \<Longrightarrow> f s x = f' s x"
  shows "foldR f s xs = foldR f' s' xs'"
  unfolding assms(1,2) using assms(3)
  by (induction xs' arbitrary: s') (auto intro!: rbind_cong)

lemma mapR_cong [fundef_cong]:
  assumes "xs = xs'" and "\<And>x. x \<in> set xs' \<Longrightarrow> f x = f' x"
  shows "mapR f xs = mapR f' xs'"
  unfolding assms(1) using assms(2) by (induction xs') (auto intro!: rbind_cong)

lemma allR_cong [fundef_cong]:
  assumes "xs = xs'" and "\<And>x. x \<in> set xs' \<Longrightarrow> p x = p' x"
  shows "allR p xs = allR p' xs'"
  unfolding assms(1) using assms(2) by (induction xs') (auto intro!: rbind_cong)

lemma outcome_foldR [outcome_intros]:
  assumes "I s" and "\<And>s x. x \<in> set xs \<Longrightarrow> I s \<Longrightarrow> outcome E I (f s x)"
  shows "outcome E I (foldR f s xs)"
  using assms
proof (induction xs arbitrary: s)
  case (Cons x xs)
  have "outcome E I (f s x)" using Cons.prems by simp
  then show ?case
    by (auto simp: outcome_simps elim!: outcome_mono intro!: Cons.IH Cons.prems(2))
qed simp

lemma outcome_allR [outcome_intros]:
  assumes "\<And>x. x \<in> set xs \<Longrightarrow> outcome E (\<lambda>_. True) (p x)"
  shows "outcome E (\<lambda>_. True) (allR p xs)"
  using assms
  by (induction xs) (auto simp: outcome_simps elim!: outcome_mono)

lemma outcome_anyR [outcome_intros]:
  assumes "\<And>x. x \<in> set xs \<Longrightarrow> outcome E (\<lambda>_. True) (p x)"
  shows "outcome E (\<lambda>_. True) (anyR p xs)"
  using assms
  by (induction xs) (auto simp: outcome_simps elim!: outcome_mono)

lemma outcome_filterR [outcome_intros]:
  assumes "\<And>x. x \<in> set xs \<Longrightarrow> outcome E (\<lambda>_. True) (p x)"
  shows "outcome E (\<lambda>ys. set ys \<subseteq> set xs) (filterR p xs)"
  using assms
proof (induction xs)
  case (Cons x xs)
  have *: "outcome E (\<lambda>ys. set ys \<subseteq> set xs) (filterR p xs)" using Cons by simp
  have "outcome E (\<lambda>_. True) (p x)" using Cons.prems by simp
  then show ?case
    by (auto simp: outcome_simps elim!: outcome_mono intro!: outcome_mono [OF *])
qed simp

lemma allR_pure: "(\<And>x. x \<in> set xs \<Longrightarrow> p x = Inr (q x)) \<Longrightarrow> allR p xs = Inr (list_all q xs)"
  by (induction xs) auto

lemma anyR_pure: "(\<And>x. x \<in> set xs \<Longrightarrow> p x = Inr (q x)) \<Longrightarrow> anyR p xs = Inr (list_ex q xs)"
  by (induction xs) auto

lemma allR_True_iff: "allR p xs = Inr True \<longleftrightarrow> (\<forall>x \<in> set xs. p x = Inr True)"
proof (induction xs)
  case (Cons x xs)
  then show ?case by (cases "p x") auto
qed simp

subsection \<open>Runs\<close>

text \<open>A step that keeps an invariant on the inputs it is meant for, folded over a list of inputs.\<close>

locale transition_system =
  fixes step :: "'s \<Rightarrow> 'a \<Rightarrow> 's res" and inv :: "'s \<Rightarrow> bool" and allowed :: "'a \<Rightarrow> bool"
  assumes step_ok: "inv s \<Longrightarrow> allowed a \<Longrightarrow> outcome no_exn inv (step s a)"
begin

lemma run_ok: "inv s \<Longrightarrow> list_all allowed as \<Longrightarrow> outcome no_exn inv (foldR step s as)"
  by (rule outcome_foldR) (auto simp: list_all_iff step_ok)

lemma run_total:
  assumes "inv s" and "list_all allowed as"
  obtains s' where "foldR step s as = Inr s'" "inv s'"
  using outcome_no_exnD [OF run_ok [OF assms]] by blast

lemma run_prefix:
  assumes "inv s" and "list_all allowed (as @ bs)"
  obtains m where "foldR step s as = Inr m" "inv m" "foldR step s (as @ bs) = foldR step m bs"
proof -
  have "list_all allowed as" using assms(2) by simp
  from run_total [OF assms(1) this] obtain m where "foldR step s as = Inr m" "inv m" by blast
  then show ?thesis using that by (simp add: foldR_append)
qed

end

section \<open>Dictionaries\<close>

text \<open>
  A Python \<open>dict\<close> is an association list in insertion order: lookup is \<^const>\<open>map_of\<close>,
  assignment \<^const>\<open>AList.update\<close> (in place for a known key, at the end for a new one),
  \<open>pop\<close> is \<^const>\<open>AList.delete\<close>.
\<close>

type_synonym 'v dict = "(string \<times> 'v) list"

definition dict_mem :: "'k \<Rightarrow> ('k \<times> 'v) list \<Rightarrow> bool" where
  "dict_mem k d = (map_of d k \<noteq> None)"

definition dict_at :: "'v dict \<Rightarrow> string \<Rightarrow> 'v res" where
  "dict_at d k = of_option (KeyError k) (map_of d k)"

definition dict_values :: "('k \<times> 'v) list \<Rightarrow> 'v list" where
  "dict_values d = map snd d"

definition dict_keys :: "('k \<times> 'v) list \<Rightarrow> 'k list" where
  "dict_keys d = map fst d"

definition dict_of :: "('k \<times> 'v) list \<Rightarrow> ('k \<times> 'v) list" where
  "dict_of xs = foldl (\<lambda>d (k, v). AList.update k v d) [] xs"

lemma dict_mem_iff: "dict_mem k d \<longleftrightarrow> k \<in> fst ` set d"
  by (simp add: dict_mem_def map_of_eq_None_iff)

lemma dict_mem_keys: "dict_mem k d \<longleftrightarrow> k \<in> set (dict_keys d)"
  by (simp add: dict_mem_iff dict_keys_def)

lemma dict_mem_Some: "dict_mem k d \<Longrightarrow> \<exists>v. map_of d k = Some v"
  by (auto simp: dict_mem_def)

lemma dict_at_Inr [simp]: "dict_at d k = Inr v \<longleftrightarrow> map_of d k = Some v"
  by (simp add: dict_at_def)

lemma outcome_dict_at [outcome_simps]:
  "outcome E P (dict_at d k) = (case map_of d k of None \<Rightarrow> E (KeyError k) | Some v \<Rightarrow> P v)"
  by (simp add: dict_at_def outcome_simps)

lemma dict_values_mem: "map_of d k = Some v \<Longrightarrow> v \<in> set (dict_values d)"
  by (auto simp: dict_values_def dest: map_of_SomeD intro: rev_image_eqI)

lemma dict_valuesE:
  assumes "v \<in> set (dict_values d)" and "distinct (dict_keys d)"
  obtains k where "map_of d k = Some v"
  using assms by (auto simp: dict_values_def dict_keys_def)

subsection \<open>Sorted key/value tuples\<close>

text \<open>
  The state keeps its resources, cooldowns, knowledge, reputation and needs as tuples of
  key/value records in key order. A read takes the first record of a key, a write rebuilds
  the tuple through a dictionary and \<open>sorted\<close>.
\<close>

definition kv_sorted :: "('k::linorder \<times> 'v) list \<Rightarrow> ('k \<times> 'v) list" where
  "kv_sorted d = map (\<lambda>k. (k, the (map_of d k))) (sort (dict_keys d))"

definition kv_put :: "'k::linorder \<Rightarrow> 'v \<Rightarrow> ('k \<times> 'v) list \<Rightarrow> ('k \<times> 'v) list" where
  "kv_put k v xs = kv_sorted (AList.update k v (dict_of xs))"

definition kv_drop :: "'k::linorder \<Rightarrow> ('k \<times> 'v) list \<Rightarrow> ('k \<times> 'v) list" where
  "kv_drop k xs = kv_sorted (AList.delete k (dict_of xs))"

text \<open>\<open>kv_ok\<close>: the tuple is in strictly increasing key order.\<close>

definition kv_ok :: "('k::linorder \<times> 'v) list \<Rightarrow> bool" where
  "kv_ok xs \<longleftrightarrow> sorted (dict_keys xs) \<and> distinct (dict_keys xs)"

lemma dict_of_foldl_distinct:
  "distinct (map fst d) \<Longrightarrow>
     distinct (map fst (foldl (\<lambda>d (k, v). AList.update k v d) d xs))"
  by (induction xs arbitrary: d) (auto simp: distinct_update split: prod.split)

lemma distinct_dict_of [simp]: "distinct (map fst (dict_of xs))"
  unfolding dict_of_def by (rule dict_of_foldl_distinct) simp

lemma keys_dict_of_foldl:
  "fst ` set (foldl (\<lambda>d (k, v). AList.update k v d) d xs) = fst ` set d \<union> fst ` set xs"
proof (induction xs arbitrary: d)
  case (Cons x xs)
  obtain k v where x: "x = (k, v)" by (cases x)
  show ?case using Cons.IH [of "AList.update k v d"] by (simp add: x AList.dom_update)
qed simp

lemma keys_dict_of [simp]: "fst ` set (dict_of xs) = fst ` set xs"
  unfolding dict_of_def by (simp add: keys_dict_of_foldl)

lemma update_new: "k \<notin> fst ` set d \<Longrightarrow> AList.update k v d = d @ [(k, v)]"
  by (induction d) auto

lemma dict_of_id_foldl:
  "distinct (map fst (d @ xs)) \<Longrightarrow> foldl (\<lambda>d (k, v). AList.update k v d) d xs = d @ xs"
proof (induction xs arbitrary: d)
  case (Cons x xs)
  obtain k v where x: "x = (k, v)" by (cases x)
  have "k \<notin> fst ` set d" using Cons.prems x by auto
  with Cons.IH [of "d @ [(k, v)]"] Cons.prems x show ?case
    by (simp add: update_new)
qed simp

lemma dict_of_id: "distinct (map fst xs) \<Longrightarrow> dict_of xs = xs"
  unfolding dict_of_def using dict_of_id_foldl [of "[]" xs] by simp

lemma keys_kv_sorted [simp]: "dict_keys (kv_sorted d) = sort (dict_keys d)"
  by (simp add: kv_sorted_def dict_keys_def comp_def)

lemma kv_ok_kv_sorted: "distinct (map fst d) \<Longrightarrow> kv_ok (kv_sorted d)"
  by (simp add: kv_ok_def) (simp add: dict_keys_def)

lemma map_of_graph: "map_of (map (\<lambda>k. (k, f k)) ks) k = (if k \<in> set ks then Some (f k) else None)"
  by (induction ks) auto

lemma map_of_kv_sorted [simp]: "map_of (kv_sorted d) = map_of d"
proof
  fix k
  show "map_of (kv_sorted d) k = map_of d k"
  proof (cases "map_of d k")
    case None
    then have "k \<notin> set (dict_keys d)" by (simp add: dict_keys_def map_of_eq_None_iff)
    with None show ?thesis by (simp add: kv_sorted_def map_of_graph)
  next
    case (Some v)
    then have "k \<in> set (dict_keys d)" by (auto simp: dict_keys_def dest: map_of_SomeD intro: rev_image_eqI)
    with Some show ?thesis by (simp add: kv_sorted_def map_of_graph)
  qed
qed

lemma kv_ok_put [simp, intro]: "kv_ok (kv_put k v xs)"
  by (simp add: kv_put_def kv_ok_kv_sorted distinct_update)

lemma kv_ok_drop [simp, intro]: "kv_ok (kv_drop k xs)"
  by (simp add: kv_drop_def kv_ok_kv_sorted distinct_delete)

lemma kv_ok_distinct: "kv_ok xs \<Longrightarrow> distinct (map fst xs)"
  by (simp add: kv_ok_def dict_keys_def)

lemma map_of_kv_put: "kv_ok xs \<Longrightarrow> map_of (kv_put k v xs) = (map_of xs)(k \<mapsto> v)"
  by (simp add: kv_put_def dict_of_id kv_ok_distinct update_conv')

lemma map_of_kv_drop: "kv_ok xs \<Longrightarrow> map_of (kv_drop k xs) = (map_of xs)(k := None)"
  by (simp add: kv_drop_def dict_of_id kv_ok_distinct delete_conv')

lemma kv_ok_Nil [simp]: "kv_ok []"
  by (simp add: kv_ok_def dict_keys_def)

lemma keys_kv_put: "fst ` set (kv_put k v xs) = insert k (fst ` set xs)"
proof -
  have "fst ` set (kv_put k v xs) = set (dict_keys (kv_put k v xs))"
    by (simp add: dict_keys_def)
  also have "\<dots> = fst ` set (AList.update k v (dict_of xs))"
    unfolding kv_put_def keys_kv_sorted set_sort by (simp add: dict_keys_def)
  also have "\<dots> = insert k (fst ` set xs)"
    by (simp add: AList.dom_update)
  finally show ?thesis .
qed

end
