(* ===== verification/Content.thy ===== *)
theory Content
  imports Prelude
begin

text \<open>
  The immutable content a world is run against: \<open>src/isoworld/content/models.py\<close>. Every
  dataclass the simulation reads is a record with the fields of the source (prefixed by the
  class, because Isabelle's field names are global); the collections of a \<open>WorldPack\<close> are
  dictionaries in file order. Optional fields are \<^typ>\<open>string option\<close>, so that the
  truth tests of the code (\<open>effect.flag\<close>: neither \<open>None\<close> nor empty) can be written as they
  are. Colours, texts and UI labels that no operation reads are left out.

  The second half models the operations of the same file: terrain lookup, schedules, and
  the check of a pack's runtime requirements against a runtime's version and features.
\<close>

section \<open>Records\<close>

type_synonym cell = "int \<times> int"
type_synonym symbol = string \<comment> \<open>one character of a map row\<close>

record clock_definition =
  start_day :: int
  start_minute :: int
  ticks_per_minute :: int
  movement_interval_ticks :: int

record tile_type =
  tt_id :: string
  tt_walkable :: bool
  tt_arable :: bool
  tt_height :: int

record map_definition =
  md_id :: string
  md_width :: int
  md_height :: int
  md_rows :: "symbol list list"
  md_legend :: "string dict"

record location =
  loc_map_id :: string
  loc_x :: int
  loc_y :: int

record effect_definition =
  eff_kind :: string
  eff_target :: string
  eff_resource :: "string option"
  eff_amount :: int
  eff_flag :: "string option"
  eff_fact_id :: "string option"
  eff_knowledge_status :: "string option"
  eff_target_actor_id :: "string option"
  eff_dimension :: "string option"
  eff_faction_id :: "string option"
  eff_stockpile_id :: "string option"
  eff_need_id :: "string option"

record condition_definition =
  cond_kind :: string
  cond_negate :: bool
  cond_flag :: "string option"
  cond_fact_id :: "string option"
  cond_knowledge_status :: "string option"
  cond_actor_id :: "string option"
  cond_target_actor_id :: "string option"
  cond_dimension :: "string option"
  cond_faction_id :: "string option"
  cond_value :: int
  cond_quest_id :: "string option"
  cond_quest_status :: "string option"
  cond_event_kind :: "string option"
  cond_subject_id :: "string option"
  cond_map_id :: "string option"
  cond_x :: "int option"
  cond_y :: "int option"
  cond_start_minute :: "int option"
  cond_end_minute :: "int option"
  cond_need_id :: "string option"
  cond_resource_id :: "string option"
  cond_stockpile_id :: "string option"
  cond_construction_id :: "string option"
  cond_construction_status :: "string option"

record resource_definition =
  rd_id :: string
  rd_display_name :: string
  rd_base_value :: int
  rd_scarcity_target :: int

record need_definition =
  nd_id :: string
  nd_display_name :: string
  nd_decay_interval_minutes :: int
  nd_decay_amount :: int
  nd_critical_below :: int
  nd_resource_id :: string
  nd_consume_amount :: int
  nd_restore_amount :: int

record goal_action_definition =
  gad_kind :: string
  gad_need_id :: "string option"
  gad_stockpile_id :: "string option"
  gad_blueprint_id :: "string option"
  gad_recipe_id :: "string option"
  gad_location :: "location option"

record goal_definition =
  gd_id :: string
  gd_display_name :: string
  gd_parent_id :: "string option"
  gd_priority :: int
  gd_conditions :: "condition_definition list"
  gd_action :: "goal_action_definition option"

record stockpile_definition =
  sd_id :: string
  sd_display_name :: string
  sd_location :: location
  sd_capacity :: int
  sd_resources :: "(string \<times> int) list"

record construction_definition =
  cd_id :: string
  cd_display_name :: string
  cd_footprint :: "cell list"
  cd_costs :: "(string \<times> int) list"
  cd_build_minutes :: int
  cd_blocks_movement :: bool
  cd_stockpile_id :: "string option"

record production_recipe_definition =
  prd_id :: string
  prd_display_name :: string
  prd_required_construction_id :: string
  prd_inputs :: "(string \<times> int) list"
  prd_outputs :: "(string \<times> int) list"
  prd_duration_minutes :: int

record consequence_definition =
  csd_id :: string
  csd_delay_minutes :: int
  csd_trigger_event :: string
  csd_subject_id :: "string option"
  csd_conditions :: "condition_definition list"
  csd_effects :: "effect_definition list"
  csd_once :: bool

record fact_definition =
  fd_id :: string
  fd_statement :: string
  fd_kind :: string
  fd_truth :: string

record faction_definition =
  fcd_id :: string
  fcd_display_name :: string

record ability_definition =
  abd_id :: string
  abd_display_name :: string
  abd_target :: string
  abd_range :: int
  abd_costs :: "int dict"
  abd_cooldown_minutes :: int
  abd_effects :: "effect_definition list"

record schedule_entry =
  se_start_minute :: int
  se_end_minute :: int
  se_activity :: string
  se_destinations :: "location list"

record schedule_definition =
  scd_id :: string
  scd_entries :: "schedule_entry list"

record interaction_definition =
  ind_id :: string
  ind_display_name :: string
  ind_prompt :: string
  ind_location :: location
  ind_range :: int
  ind_required_flags :: "string set"
  ind_forbidden_flags :: "string set"
  ind_repeatable :: bool
  ind_effects :: "effect_definition list"

record dialogue_choice_definition =
  dcd_id :: string
  dcd_text :: string
  dcd_next_node_id :: "string option"
  dcd_conditions :: "condition_definition list"
  dcd_effects :: "effect_definition list"

record dialogue_node_definition =
  dnd_id :: string
  dnd_speaker_id :: string
  dnd_text :: string
  dnd_fact_refs :: "string list"
  dnd_choices :: "dialogue_choice_definition list"
  dnd_on_enter :: "effect_definition list"
  dnd_allow_exit :: bool

record dialogue_definition =
  dd_id :: string
  dd_display_name :: string
  dd_actor_id :: string
  dd_range :: int
  dd_start_node_id :: string
  dd_conditions :: "condition_definition list"
  dd_nodes :: "dialogue_node_definition dict"

record quest_stage_definition =
  qsd_id :: string
  qsd_description :: string
  qsd_completion_conditions :: "condition_definition list"
  qsd_failure_conditions :: "condition_definition list"
  qsd_on_complete :: "effect_definition list"
  qsd_on_fail :: "effect_definition list"
  qsd_next_stage_id :: "string option"

record quest_definition =
  qd_id :: string
  qd_title :: string
  qd_start_stage_id :: string
  qd_auto_start_conditions :: "condition_definition list"
  qd_stages :: "quest_stage_definition dict"

record scene_definition =
  snd_id :: string
  snd_title :: string
  snd_text :: string
  snd_start_minute :: int
  snd_end_minute :: int
  snd_conditions :: "condition_definition list"
  snd_effects :: "effect_definition list"
  snd_once :: bool
  snd_priority :: int

record personal_campaign_act_definition =
  pca_id :: string
  pca_quest_ids :: "string list"
  pca_scene_ids :: "string list"
  pca_next_act_ids :: "string list"

record personal_campaign_definition =
  pcd_id :: string
  pcd_actor_id :: string
  pcd_start_act_id :: string
  pcd_acts :: "personal_campaign_act_definition dict"

record runtime_api_range =
  rar_minimum :: string
  rar_maximum_exclusive :: string

record runtime_requirements =
  rr_runtime_api :: runtime_api_range
  rr_required_features :: "string list"
  rr_optional_features :: "string list"

record runtime_compatibility_report =
  rcr_compatible :: bool
  rcr_api_compatible :: bool
  rcr_runtime_version :: string
  rcr_missing_required_features :: "string list"
  rcr_missing_optional_features :: "string list"

record actor_definition =
  ad_id :: string
  ad_display_name :: string
  ad_playable :: bool
  ad_spawn :: location
  ad_personal_arc_id :: "string option"
  ad_schedule_id :: "string option"
  ad_schedule_mode :: string
  ad_ability_ids :: "string list"
  ad_resources :: "(string \<times> int) list"
  ad_knowledge :: "(string \<times> string) list"
  ad_forbidden_fact_ids :: "string list"
  ad_relationships :: "(string \<times> (string \<times> int) list) list"
  ad_faction_reputation :: "(string \<times> int) list"
  ad_needs :: "(string \<times> int) list"
  ad_goal_ids :: "string list"

record world_pack =
  wp_format_version :: int
  wp_world_id :: string
  wp_content_hash :: string
  wp_runtime_requirements :: runtime_requirements
  wp_clock :: clock_definition
  wp_tile_types :: "tile_type dict"
  wp_maps :: "map_definition dict"
  wp_actors :: "actor_definition dict"
  wp_abilities :: "ability_definition dict"
  wp_schedules :: "schedule_definition dict"
  wp_interactions :: "interaction_definition dict"
  wp_facts :: "fact_definition dict"
  wp_factions :: "faction_definition dict"
  wp_dialogues :: "dialogue_definition dict"
  wp_quests :: "quest_definition dict"
  wp_scenes :: "scene_definition dict"
  wp_personal_arcs :: "personal_campaign_definition dict"
  wp_resources :: "resource_definition dict"
  wp_needs :: "need_definition dict"
  wp_goals :: "goal_definition dict"
  wp_stockpiles :: "stockpile_definition dict"
  wp_constructions :: "construction_definition dict"
  wp_production_recipes :: "production_recipe_definition dict"
  wp_consequences :: "consequence_definition dict"

section \<open>Terrain\<close>

text \<open>Python indexing of a sequence: a negative index counts from the end.\<close>

definition seq_at :: "'a list \<Rightarrow> int \<Rightarrow> 'a res" where
  "seq_at row k =
     (if 0 \<le> k then (if nat k < length row then Inr (row ! nat k) else Inl IndexError)
      else if nat (- k) \<le> length row then Inr (row ! (length row - nat (- k)))
      else Inl IndexError)"

definition tile_id_at :: "map_definition \<Rightarrow> int \<Rightarrow> int \<Rightarrow> string res" where
  "tile_id_at m x y =
     (if x < 0 \<or> y < 0 \<or> md_width m \<le> x \<or> md_height m \<le> y then Inl IndexError
      else rbind (seq_at (md_rows m) y) (\<lambda>row.
           rbind (seq_at row x) (\<lambda>s. dict_at (md_legend m) s)))"

definition pack_is_walkable :: "world_pack \<Rightarrow> string \<Rightarrow> int \<Rightarrow> int \<Rightarrow> bool res" where
  "pack_is_walkable pack mid x y =
     rbind (dict_at (wp_maps pack) mid) (\<lambda>m.
       if x < 0 \<or> y < 0 \<or> md_width m \<le> x \<or> md_height m \<le> y then Inr False
       else rbind (tile_id_at m x y) (\<lambda>t.
            rbind (dict_at (wp_tile_types pack) t) (\<lambda>tile. Inr (tt_walkable tile))))"

text \<open>
  What the loader checks of a map: the rows have the announced size and every symbol has a
  known tile. On such a map every cell inside the rectangle has a tile.
\<close>

definition map_ok :: "world_pack \<Rightarrow> map_definition \<Rightarrow> bool" where
  "map_ok pack m \<longleftrightarrow>
     1 \<le> md_width m \<and> 1 \<le> md_height m \<and> int (length (md_rows m)) = md_height m \<and>
     (\<forall>row \<in> set (md_rows m). int (length row) = md_width m \<and>
        (\<forall>s \<in> set row. case map_of (md_legend m) s of None \<Rightarrow> False
                       | Some t \<Rightarrow> dict_mem t (wp_tile_types pack)))"

definition maps_ok :: "world_pack \<Rightarrow> bool" where
  "maps_ok pack \<longleftrightarrow> (\<forall>m \<in> set (dict_values (wp_maps pack)). map_ok pack m)"

lemma seq_at_nth: "0 \<le> i \<Longrightarrow> i < int (length xs) \<Longrightarrow> seq_at xs i = Inr (xs ! nat i)"
  by (simp add: seq_at_def)

lemma pack_is_walkable_total:
  assumes "maps_ok pack" and "dict_mem mid (wp_maps pack)"
  shows "\<exists>b. pack_is_walkable pack mid x y = Inr b"
proof -
  obtain m where m: "map_of (wp_maps pack) mid = Some m"
    using assms(2) by (auto simp: dict_mem_def)
  then have ok: "map_ok pack m"
    using assms(1) by (auto simp: maps_ok_def intro: dict_values_mem)
  show ?thesis
  proof (cases "x < 0 \<or> y < 0 \<or> md_width m \<le> x \<or> md_height m \<le> y")
    case True
    then have "pack_is_walkable pack mid x y = Inr False" by (simp add: pack_is_walkable_def dict_at_def m)
    then show ?thesis by blast
  next
    case False
    then have y: "0 \<le> y" "y < int (length (md_rows m))" and x: "0 \<le> x" "x < md_width m"
      using ok by (auto simp: map_ok_def)
    let ?row = "md_rows m ! nat y"
    have row: "?row \<in> set (md_rows m)" using y by simp
    then have len: "int (length ?row) = md_width m" using ok by (simp add: map_ok_def)
    have "?row ! nat x \<in> set ?row" using x len by simp
    then obtain t where "map_of (md_legend m) (?row ! nat x) = Some t"
      and "dict_mem t (wp_tile_types pack)"
      using ok row by (force simp: map_ok_def split: option.splits)
    then show ?thesis
      using False x y len
      by (auto simp: pack_is_walkable_def tile_id_at_def dict_at_def m seq_at_nth dict_mem_def)
  qed
qed

lemma pack_is_walkable_inside:
  assumes "pack_is_walkable pack mid x y = Inr True"
  shows "\<exists>m. map_of (wp_maps pack) mid = Some m \<and> 0 \<le> x \<and> x < md_width m \<and> 0 \<le> y \<and> y < md_height m"
  using assms by (auto simp: pack_is_walkable_def split: if_splits)

section \<open>Playable actors and schedules\<close>

definition playable_actor_ids :: "world_pack \<Rightarrow> string list" where
  "playable_actor_ids pack = map ad_id (filter ad_playable (dict_values (wp_actors pack)))"

definition personal_campaign_for_actor ::
  "world_pack \<Rightarrow> string \<Rightarrow> personal_campaign_definition option" where
  "personal_campaign_for_actor pack aid =
     find (\<lambda>c. pcd_actor_id c = aid) (dict_values (wp_personal_arcs pack))"

definition entry_contains :: "schedule_entry \<Rightarrow> int \<Rightarrow> bool" where
  "entry_contains e minute =
     (if se_start_minute e < se_end_minute e
      then se_start_minute e \<le> minute \<and> minute < se_end_minute e
      else se_start_minute e \<le> minute \<or> minute < se_end_minute e)"

definition entry_at :: "schedule_definition \<Rightarrow> int \<Rightarrow> schedule_entry option" where
  "entry_at s minute = find (\<lambda>e. entry_contains e minute) (scd_entries s)"

lemma find_Some_mem: "find p xs = Some x \<Longrightarrow> x \<in> set xs \<and> p x"
  by (induction xs) (auto split: if_splits)

lemma find_None_iff_none: "find p xs = None \<longleftrightarrow> (\<forall>x \<in> set xs. \<not> p x)"
  by (induction xs) auto

section \<open>Runtime requirements\<close>

text \<open>
  \<open>_RUNTIME_VERSION_PATTERN\<close>: three dot-separated numbers without leading zeros. Digits are
  ASCII. \<open>_runtime_version_key\<close> raises \<open>ValueError\<close> for anything else.
\<close>

definition digit_value :: "char \<Rightarrow> nat option" where
  "digit_value c = (let n = (of_char c :: nat) in if 48 \<le> n \<and> n \<le> 57 then Some (n - 48) else None)"

fun digits_value :: "nat \<Rightarrow> string \<Rightarrow> nat option" where
  "digits_value acc [] = Some acc"
| "digits_value acc (c # cs) =
     (case digit_value c of None \<Rightarrow> None | Some d \<Rightarrow> digits_value (10 * acc + d) cs)"

definition version_component :: "string \<Rightarrow> nat option" where
  "version_component s =
     (case s of [] \<Rightarrow> None
      | c # cs \<Rightarrow> if c = CHR ''0'' \<and> cs \<noteq> [] then None else digits_value 0 s)"

fun split_dots :: "string \<Rightarrow> string list" where
  "split_dots [] = [[]]"
| "split_dots (c # cs) =
     (if c = CHR ''.'' then [] # split_dots cs
      else case split_dots cs of [] \<Rightarrow> [[c]] | p # ps \<Rightarrow> (c # p) # ps)"

definition runtime_version_key :: "string \<Rightarrow> (nat \<times> nat \<times> nat) res" where
  "runtime_version_key v =
     of_option (ValueError ''runtime API versions must use major.minor.patch'')
       (case map version_component (split_dots v) of
          [Some a, Some b, Some c] \<Rightarrow> Some (a, b, c) | _ \<Rightarrow> None)"

definition api_range_contains :: "runtime_api_range \<Rightarrow> string \<Rightarrow> bool res" where
  "api_range_contains r version =
     rbind (runtime_version_key version) (\<lambda>value.
     rbind (runtime_version_key (rar_minimum r)) (\<lambda>lo.
       if lo \<le> value
       then rbind (runtime_version_key (rar_maximum_exclusive r)) (\<lambda>hi. Inr (value < hi))
       else Inr False))"

definition check_runtime_compatibility ::
  "runtime_requirements \<Rightarrow> string \<Rightarrow> string list \<Rightarrow> runtime_compatibility_report res" where
  "check_runtime_compatibility req version features =
     (let available = set features;
          missing_required = filter (\<lambda>f. f \<notin> available) (rr_required_features req);
          missing_optional = filter (\<lambda>f. f \<notin> available) (rr_optional_features req)
      in rbind (api_range_contains (rr_runtime_api req) version) (\<lambda>api_compatible.
         Inr \<lparr>rcr_compatible = (api_compatible \<and> missing_required = []),
              rcr_api_compatible = api_compatible,
              rcr_runtime_version = version,
              rcr_missing_required_features = missing_required,
              rcr_missing_optional_features = missing_optional\<rparr>))"

definition compatibility_with ::
  "world_pack \<Rightarrow> string \<Rightarrow> string list \<Rightarrow> runtime_compatibility_report res" where
  "compatibility_with pack = check_runtime_compatibility (wp_runtime_requirements pack)"

lemma check_runtime_compatibility_ok:
  assumes "check_runtime_compatibility req version features = Inr r"
  shows "rcr_compatible r \<longleftrightarrow>
    (\<exists>v lo hi. runtime_version_key version = Inr v \<and>
       runtime_version_key (rar_minimum (rr_runtime_api req)) = Inr lo \<and>
       runtime_version_key (rar_maximum_exclusive (rr_runtime_api req)) = Inr hi \<and>
       lo \<le> v \<and> v < hi) \<and> set (rr_required_features req) \<subseteq> set features"
  using assms
  by (auto simp: check_runtime_compatibility_def api_range_contains_def Let_def
      filter_empty_conv split: if_splits)

end
