(* ===== verification/Navigation.thy ===== *)
theory Navigation
  imports Content "HOL-Library.Multiset"
begin

text \<open>
  Route search: \<open>src/isoworld/world/navigation.py\<close>. The A* loop works on a record of the
  code's local variables (frontier, sequence counter, parents, costs); \<open>heapq\<close> is the
  sorted list of its entries, reached only through the \<open>min_heap\<close> interface below. The
  loop always stops: a turn either shortens the frontier or lowers the cost of a cell of the
  finite map. The last section shows that the path is free of obstacles and shortest.
\<close>

section \<open>The heap interface\<close>

locale min_heap =
  fixes heappush :: "'a::linorder \<Rightarrow> 'h \<Rightarrow> 'h"
    and heappop :: "'h \<Rightarrow> ('a \<times> 'h) option"
    and heap_ok :: "'h \<Rightarrow> bool"
    and heap_mset :: "'h \<Rightarrow> 'a multiset"
  assumes push_ok: "heap_ok h \<Longrightarrow> heap_ok (heappush x h)"
    and push_mset: "heap_ok h \<Longrightarrow> heap_mset (heappush x h) = add_mset x (heap_mset h)"
    and pop_None: "heap_ok h \<Longrightarrow> heappop h = None \<longleftrightarrow> heap_mset h = {#}"
    and pop_Some: "heap_ok h \<Longrightarrow> heappop h = Some (x, h') \<Longrightarrow>
          heap_ok h' \<and> heap_mset h = add_mset x (heap_mset h') \<and> (\<forall>y \<in># heap_mset h'. x \<le> y)"
begin

lemma pop_least: "heap_ok h \<Longrightarrow> heappop h = Some (x, h') \<Longrightarrow> y \<in># heap_mset h \<Longrightarrow> x \<le> y"
  using pop_Some by fastforce

lemma pop_elem: "heap_ok h \<Longrightarrow> heappop h = Some (x, h') \<Longrightarrow> x \<in># heap_mset h"
  using pop_Some by fastforce

lemma pop_rest: "heap_ok h \<Longrightarrow> heappop h = Some (x, h') \<Longrightarrow> y \<in># heap_mset h \<Longrightarrow> y = x \<or> y \<in># heap_mset h'"
  using pop_Some by fastforce

lemma pop_size: "heap_ok h \<Longrightarrow> heappop h = Some (x, h') \<Longrightarrow> size (heap_mset h) = Suc (size (heap_mset h'))"
  using pop_Some by fastforce

end

text \<open>The heap of the standard library, as the sorted list of its entries.\<close>

definition heappush :: "'a::linorder \<Rightarrow> 'a list \<Rightarrow> 'a list" where
  "heappush x h = insort x h"

definition heappop :: "'a::linorder list \<Rightarrow> ('a \<times> 'a list) option" where
  "heappop h = (case h of [] \<Rightarrow> None | x # xs \<Rightarrow> Some (x, xs))"

interpretation hq: min_heap heappush heappop sorted mset
  by unfold_locales
    (auto simp: heappush_def heappop_def sorted_insort split: list.splits)

section \<open>The search\<close>

type_synonym entry = "int \<times> int \<times> cell"

record search =
  frontier :: "entry list"
  sequence :: int
  came_from :: "cell \<Rightarrow> cell option option"
  cost :: "cell \<Rightarrow> nat option"

definition neighbors :: "cell \<Rightarrow> cell list" where
  "neighbors c = (case c of (x, y) \<Rightarrow> [(x, y - 1), (x + 1, y), (x, y + 1), (x - 1, y)])"

definition heuristic :: "cell \<Rightarrow> cell \<Rightarrow> int" where
  "heuristic goal c = \<bar>fst c - fst goal\<bar> + \<bar>snd c - snd goal\<bar>"

definition cost_limit :: nat where
  "cost_limit = 2 ^ 31"

definition cost_get :: "search \<Rightarrow> cell \<Rightarrow> nat" where
  "cost_get s c = (case cost s c of None \<Rightarrow> cost_limit | Some n \<Rightarrow> n)"

text \<open>\<open>candidate_cost >= cost.get(candidate, 2**31)\<close>; evaluated on integers, where the limit is short.\<close>

definition too_costly :: "search \<Rightarrow> cell \<Rightarrow> nat \<Rightarrow> bool" where
  "too_costly s c n \<longleftrightarrow> cost_get s c \<le> n"

lemma too_costly_code [code]:
  "too_costly s c n = (case cost s c of None \<Rightarrow> 2147483648 \<le> int n | Some k \<Rightarrow> k \<le> n)"
proof -
  have "(2 :: nat) ^ 31 \<le> n \<longleftrightarrow> int (2 ^ 31) \<le> int n" by (simp only: of_nat_le_iff)
  then show ?thesis by (simp add: too_costly_def cost_get_def cost_limit_def split: option.split)
qed

text \<open>One turn of the inner \<open>for candidate in neighbors(current)\<close> loop.\<close>

definition record_cost :: "cell \<Rightarrow> cell \<Rightarrow> cell \<Rightarrow> nat \<Rightarrow> search \<Rightarrow> search" where
  "record_cost goal current candidate candidate_cost s =
     s\<lparr>cost := (cost s)(candidate \<mapsto> candidate_cost),
       came_from := (came_from s)(candidate \<mapsto> Some current),
       sequence := sequence s + 1,
       frontier := heappush (int candidate_cost + heuristic goal candidate,
                             sequence s + 1, candidate) (frontier s)\<rparr>"

definition relax ::
  "world_pack \<Rightarrow> string \<Rightarrow> cell set \<Rightarrow> cell \<Rightarrow> cell \<Rightarrow> search \<Rightarrow> cell \<Rightarrow> search res" where
  "relax pack mid blocked goal current s candidate =
     (if candidate \<in> blocked then Inr s
      else rbind (pack_is_walkable pack mid (fst candidate) (snd candidate)) (\<lambda>walkable.
        if \<not> walkable then Inr s
        else rbind (of_option (KeyError ''cost'') (cost s current)) (\<lambda>n.
          if too_costly s candidate (n + 1) then Inr s
          else Inr (record_cost goal current candidate (n + 1) s))))"

lemma relax_eq:
  "relax pack mid blocked goal current s candidate =
     (if candidate \<in> blocked then Inr s
      else rbind (pack_is_walkable pack mid (fst candidate) (snd candidate)) (\<lambda>walkable.
        if \<not> walkable then Inr s
        else rbind (of_option (KeyError ''cost'') (cost s current)) (\<lambda>n.
          if cost_get s candidate \<le> n + 1 then Inr s
          else Inr (record_cost goal current candidate (n + 1) s))))"
  unfolding relax_def too_costly_def ..

definition expand ::
  "world_pack \<Rightarrow> string \<Rightarrow> cell set \<Rightarrow> cell \<Rightarrow> cell \<Rightarrow> search \<Rightarrow> search res" where
  "expand pack mid blocked goal current s =
     foldR (relax pack mid blocked goal current) s (neighbors current)"

subsection \<open>The loop stops\<close>

definition free_cells :: "world_pack \<Rightarrow> string \<Rightarrow> cell set" where
  "free_cells pack mid = {(x, y). pack_is_walkable pack mid x y = Inr True}"

definition cost_total :: "world_pack \<Rightarrow> string \<Rightarrow> search \<Rightarrow> nat" where
  "cost_total pack mid s = (\<Sum>c \<in> free_cells pack mid. cost_get s c)"

lemma finite_free_cells [simp]: "finite (free_cells pack mid)"
proof (cases "map_of (wp_maps pack) mid")
  case None
  then have "free_cells pack mid = {}"
    by (auto simp: free_cells_def dest: pack_is_walkable_inside)
  then show ?thesis by simp
next
  case (Some m)
  then have "free_cells pack mid \<subseteq> {0..<md_width m} \<times> {0..<md_height m}"
    by (auto simp: free_cells_def dest!: pack_is_walkable_inside)
  then show ?thesis by (rule finite_subset) simp
qed

lemma relax_cases:
  assumes "relax pack mid blocked goal current s c = Inr s'"
  obtains "s' = s"
  | n where "c \<notin> blocked" and "c \<in> free_cells pack mid" and "cost s current = Some n"
      and "n + 1 < cost_get s c" and "s' = record_cost goal current c (n + 1) s"
proof (cases "c \<in> blocked")
  case False
  then have "rbind (pack_is_walkable pack mid (fst c) (snd c)) (\<lambda>walkable.
        if \<not> walkable then Inr s
        else rbind (of_option (KeyError ''cost'') (cost s current)) (\<lambda>n.
          if cost_get s c \<le> n + 1 then Inr s
          else Inr (record_cost goal current c (n + 1) s))) = Inr s'"
    using assms by (simp add: relax_eq)
  then obtain w where w: "pack_is_walkable pack mid (fst c) (snd c) = Inr w"
    and body: "(if \<not> w then Inr s
        else rbind (of_option (KeyError ''cost'') (cost s current)) (\<lambda>n.
          if cost_get s c \<le> n + 1 then Inr s
          else Inr (record_cost goal current c (n + 1) s))) = Inr s'" ..
  show thesis
  proof (cases w)
    case True
    show thesis
    proof (cases "cost s current")
      case (Some n)
      show thesis
      proof (cases "cost_get s c \<le> n + 1")
        case False
        have "s' = record_cost goal current c (n + 1) s"
          using body True Some False by simp
        then show thesis
          using \<open>c \<notin> blocked\<close> w True Some False
          by (intro that(2) [of n]) (simp_all add: free_cells_def prod.case_eq_if)
      next
        case le: True
        have "s' = s" using body \<open>w\<close> Some le by simp
        then show thesis by (rule that(1))
      qed
    qed (use body True in simp)
  next
    case False
    then have "s' = s" using body by simp
    then show thesis by (rule that(1))
  qed
next
  case True
  then have "s' = s" using assms by (simp add: relax_eq)
  then show thesis by (rule that(1))
qed

lemma relax_progress:
  assumes "relax pack mid blocked goal current s c = Inr s'"
  shows "s' = s \<or> cost_total pack mid s' < cost_total pack mid s"
  using assms
proof (cases rule: relax_cases)
  case (2 n)
  have "cost_total pack mid s' < cost_total pack mid s"
    unfolding cost_total_def
  proof (rule sum_strict_mono_ex1)
    show "\<forall>d \<in> free_cells pack mid. cost_get s' d \<le> cost_get s d"
      using 2 by (auto simp: cost_get_def record_cost_def)
    show "\<exists>d \<in> free_cells pack mid. cost_get s' d < cost_get s d"
      using 2 by (intro bexI [of _ c]) (auto simp: cost_get_def record_cost_def)
  qed simp
  then show ?thesis ..
qed simp

lemma foldR_relax_progress:
  "foldR (relax pack mid blocked goal current) s cs = Inr s' \<Longrightarrow>
     s' = s \<or> cost_total pack mid s' < cost_total pack mid s"
proof (induction cs arbitrary: s)
  case (Cons c cs)
  then obtain s1 where s1: "relax pack mid blocked goal current s c = Inr s1"
    and s': "foldR (relax pack mid blocked goal current) s1 cs = Inr s'" by auto
  from relax_progress [OF s1] Cons.IH [OF s'] show ?case by auto
qed simp

lemma search_turn_progress:
  assumes "heappop (frontier s) = Some (e, rest)"
    and "expand pack mid blocked goal current (s\<lparr>frontier := rest\<rparr>) = Inr s'"
  shows "cost_total pack mid s' < cost_total pack mid s \<or>
    cost_total pack mid s' = cost_total pack mid s \<and> length (frontier s') < length (frontier s)"
proof -
  let ?s0 = "s\<lparr>frontier := rest\<rparr>"
  have pop: "frontier s = e # rest"
    using assms(1) by (simp add: heappop_def split: list.splits)
  have "cost_total pack mid ?s0 = cost_total pack mid s"
    by (simp add: cost_total_def cost_get_def)
  moreover have "s' = ?s0 \<or> cost_total pack mid s' < cost_total pack mid ?s0"
    using assms(2) by (simp add: expand_def foldR_relax_progress)
  ultimately show ?thesis using pop by auto
qed

function search_loop ::
  "world_pack \<Rightarrow> string \<Rightarrow> cell set \<Rightarrow> cell \<Rightarrow> search \<Rightarrow> search res" where
  "search_loop pack mid blocked goal s =
     (case heappop (frontier s) of
        None \<Rightarrow> Inr s
      | Some ((_, _, current), rest) \<Rightarrow>
          if current = goal then Inr (s\<lparr>frontier := rest\<rparr>)
          else rbind (expand pack mid blocked goal current (s\<lparr>frontier := rest\<rparr>))
                 (\<lambda>s'. search_loop pack mid blocked goal s'))"
  by pat_completeness auto
termination
  by (relation "inv_image (less_than <*lex*> less_than)
      (\<lambda>(pack, mid, blocked, goal, s). (cost_total pack mid s, length (frontier s)))")
    (auto dest: search_turn_progress)

declare search_loop.simps [simp del]

text \<open>
  Following the parents back from the goal. The code's \<open>while\<close> loop has no bound of its own;
  the fuel is the cost of the goal plus one, and \<open>find_path_total\<close> shows that it is never used up.
\<close>

fun backtrack :: "nat \<Rightarrow> search \<Rightarrow> cell \<Rightarrow> cell \<Rightarrow> cell list \<Rightarrow> cell list res" where
  "backtrack 0 s start current path = (if current = start then Inr (rev path) else Inl Diverges)"
| "backtrack (Suc fuel) s start current path =
     (if current = start then Inr (rev path)
      else rbind (of_option (KeyError ''came_from'') (came_from s current)) (\<lambda>parent.
        case parent of None \<Rightarrow> Inr []
        | Some p \<Rightarrow> backtrack fuel s start p (path @ [current])))"

definition init_search :: "cell \<Rightarrow> search" where
  "init_search start =
     \<lparr>frontier = heappush (0, 0, start) [], sequence = 0,
      came_from = [start \<mapsto> None], cost = [start \<mapsto> 0]\<rparr>"

definition find_path ::
  "world_pack \<Rightarrow> string \<Rightarrow> cell \<Rightarrow> cell \<Rightarrow> cell set \<Rightarrow> cell list res" where
  "find_path pack mid start goal blocked =
     (if \<not> dict_mem mid (wp_maps pack) then Inr []
      else rbind (pack_is_walkable pack mid (fst goal) (snd goal)) (\<lambda>walkable.
        if \<not> walkable then Inr []
        else if start = goal then Inr []
        else let blocked_cells = blocked - {start} in
          if goal \<in> blocked_cells then Inr []
          else rbind (search_loop pack mid blocked_cells goal (init_search start)) (\<lambda>s.
            case came_from s goal of None \<Rightarrow> Inr []
            | Some _ \<Rightarrow> backtrack (Suc (cost_get s goal)) s start goal [])))"

section \<open>Correctness of the search\<close>

text \<open>
  A route is a list of cells, each a neighbor of the one before, each walkable and not blocked.
\<close>

fun route_from :: "(cell \<Rightarrow> bool) \<Rightarrow> cell \<Rightarrow> cell list \<Rightarrow> bool" where
  "route_from F c [] \<longleftrightarrow> True"
| "route_from F c (d # ds) \<longleftrightarrow> d \<in> set (neighbors c) \<and> F d \<and> route_from F d ds"

definition free_cell :: "world_pack \<Rightarrow> string \<Rightarrow> cell set \<Rightarrow> cell \<Rightarrow> bool" where
  "free_cell pack mid blocked c \<longleftrightarrow>
     c \<notin> blocked \<and> pack_is_walkable pack mid (fst c) (snd c) = Inr True"

definition is_route :: "world_pack \<Rightarrow> string \<Rightarrow> cell set \<Rightarrow> cell \<Rightarrow> cell \<Rightarrow> cell list \<Rightarrow> bool" where
  "is_route pack mid blocked start goal p \<longleftrightarrow>
     p \<noteq> [] \<and> route_from (free_cell pack mid (blocked - {start})) start p \<and> last p = goal"

lemma route_from_append:
  "route_from F c (ps @ qs) \<longleftrightarrow> route_from F c ps \<and> route_from F (last (c # ps)) qs"
  by (induction ps arbitrary: c) auto

lemma neighbors_sym: "d \<in> set (neighbors c) \<Longrightarrow> c \<in> set (neighbors d)"
  by (cases c; cases d) (auto simp: neighbors_def)

lemma not_self_neighbor: "c \<notin> set (neighbors c)"
  by (cases c) (auto simp: neighbors_def)

lemma heuristic_step: "d \<in> set (neighbors c) \<Longrightarrow> heuristic goal c \<le> heuristic goal d + 1"
  by (cases c; cases d) (auto simp: neighbors_def heuristic_def)

lemma heuristic_nonneg: "0 \<le> heuristic goal c"
  by (simp add: heuristic_def)

lemma heuristic_goal [simp]: "heuristic goal goal = 0"
  by (simp add: heuristic_def)

lemma heuristic_route:
  "route_from F c p \<Longrightarrow> heuristic (last (c # p)) c \<le> int (length p)"
proof (induction p arbitrary: c)
  case (Cons d p)
  then have "heuristic (last (d # p)) d \<le> int (length p)" by simp
  moreover have "heuristic (last (d # p)) c \<le> heuristic (last (d # p)) d + 1"
    using Cons.prems by (intro heuristic_step) simp
  ultimately show ?case by simp
qed simp

subsection \<open>The invariant of the loop\<close>

text \<open>
  Costs and parents describe one tree: the start costs 0, every other known cell is free and
  has a known neighbor as parent, at a cost that is strictly lower. A frontier entry never
  promises less than the cost of its cell plus the heuristic.
\<close>

definition tree_ok :: "(cell \<Rightarrow> bool) \<Rightarrow> cell \<Rightarrow> search \<Rightarrow> bool" where
  "tree_ok F start s \<longleftrightarrow>
     cost s start = Some 0 \<and> came_from s start = Some None \<and>
     (\<forall>c. cost s c = None \<longrightarrow> came_from s c = None) \<and>
     (\<forall>c n. cost s c = Some n \<longrightarrow> c \<noteq> start \<longrightarrow>
        F c \<and> (\<exists>p m. came_from s c = Some (Some p) \<and> cost s p = Some m \<and> m < n \<and>
                    c \<in> set (neighbors p)))"

lemma tree_start: "tree_ok F start s \<Longrightarrow> cost s start = Some 0 \<and> came_from s start = Some None"
  unfolding tree_ok_def by blast

lemma tree_parent:
  "tree_ok F start s \<Longrightarrow> cost s c = Some n \<Longrightarrow> c \<noteq> start \<Longrightarrow>
     F c \<and> (\<exists>p m. came_from s c = Some (Some p) \<and> cost s p = Some m \<and> m < n \<and>
            c \<in> set (neighbors p))"
  unfolding tree_ok_def by blast

lemma tree_known: "tree_ok F start s \<Longrightarrow> came_from s c = None \<longleftrightarrow> cost s c = None"
  unfolding tree_ok_def by (metis not_Some_eq)

definition entries_ok :: "cell \<Rightarrow> cell \<Rightarrow> search \<Rightarrow> bool" where
  "entries_ok start goal s \<longleftrightarrow> sorted (frontier s) \<and>
     (\<forall>f q c. (f, q, c) \<in> set (frontier s) \<longrightarrow>
        (\<exists>n. cost s c = Some n \<and> (c \<noteq> start \<longrightarrow> int n + heuristic goal c \<le> f)))"

lemma entriesD:
  "entries_ok start goal s \<Longrightarrow> (f, q, c) \<in> set (frontier s) \<Longrightarrow>
     \<exists>n. cost s c = Some n \<and> (c \<noteq> start \<longrightarrow> int n + heuristic goal c \<le> f)"
  unfolding entries_ok_def by blast

text \<open>
  A known cell is open (an entry for it is still queued) or closed (its free neighbors are
  known at one more). \<open>covered X\<close> says so of all known cells outside \<open>X\<close>.
\<close>

definition open_cell :: "cell \<Rightarrow> search \<Rightarrow> cell \<Rightarrow> nat \<Rightarrow> bool" where
  "open_cell goal s c n \<longleftrightarrow> (\<exists>f q. (f, q, c) \<in> set (frontier s) \<and> f \<le> int n + heuristic goal c)"

definition reached :: "search \<Rightarrow> cell \<Rightarrow> nat \<Rightarrow> bool" where
  "reached s c n \<longleftrightarrow> (\<exists>m. cost s c = Some m \<and> m \<le> n)"

definition closed_cell :: "(cell \<Rightarrow> bool) \<Rightarrow> search \<Rightarrow> cell \<Rightarrow> nat \<Rightarrow> bool" where
  "closed_cell F s c n \<longleftrightarrow>
     (\<forall>d \<in> set (neighbors c). F d \<longrightarrow> n + 1 < cost_limit \<longrightarrow> reached s d (n + 1))"

definition covered :: "(cell \<Rightarrow> bool) \<Rightarrow> cell \<Rightarrow> search \<Rightarrow> cell set \<Rightarrow> bool" where
  "covered F goal s X \<longleftrightarrow>
     (\<forall>c n. cost s c = Some n \<longrightarrow> c \<notin> X \<longrightarrow> open_cell goal s c n \<or> closed_cell F s c n)"

lemma coveredD:
  "covered F goal s X \<Longrightarrow> cost s c = Some n \<Longrightarrow> c \<notin> X \<Longrightarrow> open_cell goal s c n \<or> closed_cell F s c n"
  unfolding covered_def by blast

definition search_ok :: "(cell \<Rightarrow> bool) \<Rightarrow> cell \<Rightarrow> cell \<Rightarrow> cell set \<Rightarrow> search \<Rightarrow> bool" where
  "search_ok F start goal X s \<longleftrightarrow>
     tree_ok F start s \<and> entries_ok start goal s \<and> covered F goal s X"

lemma search_ok_init:
  "search_ok F start goal {} (init_search start)"
  by (auto simp: search_ok_def tree_ok_def entries_ok_def covered_def open_cell_def
      init_search_def heappush_def heuristic_nonneg)

text \<open>Costs only go down, so what is reached stays reached.\<close>

definition cheaper :: "search \<Rightarrow> search \<Rightarrow> bool" where
  "cheaper s s' \<longleftrightarrow> (\<forall>c n. cost s c = Some n \<longrightarrow> reached s' c n)"

lemma cheaper_refl: "cheaper s s"
  by (simp add: cheaper_def reached_def)

lemma cheaper_reached: "cheaper s s' \<Longrightarrow> reached s c n \<Longrightarrow> reached s' c n"
  unfolding cheaper_def reached_def using le_trans by blast

lemma cheaper_trans: "cheaper s s' \<Longrightarrow> cheaper s' s'' \<Longrightarrow> cheaper s s''"
  unfolding cheaper_def reached_def using le_trans by blast

lemma closed_cheaper: "cheaper s s' \<Longrightarrow> closed_cell F s c n \<Longrightarrow> closed_cell F s' c n"
  by (auto simp: closed_cell_def cheaper_reached)

lemma record_cost_sel [simp]:
  "cost (record_cost goal cur c k s) = (cost s)(c \<mapsto> k)"
  "came_from (record_cost goal cur c k s) = (came_from s)(c \<mapsto> Some cur)"
  "frontier (record_cost goal cur c k s) =
     heappush (int k + heuristic goal c, sequence s + 1, c) (frontier s)"
  by (simp_all add: record_cost_def)

lemma set_heappush [simp]: "set (heappush x h) = insert x (set h)"
  by (simp add: heappush_def set_insort_key)

lemma record_cost_cheaper: "k < cost_get s c \<Longrightarrow> cheaper s (record_cost goal cur c k s)"
  by (auto simp: cheaper_def reached_def cost_get_def)

lemma record_cost_ok:
  assumes ok: "search_ok F start goal {cur} s" and cur: "cost s cur = Some n"
    and c: "F c" "c \<in> set (neighbors cur)" and less: "n + 1 < cost_get s c"
  shows "search_ok F start goal {cur} (record_cost goal cur c (n + 1) s)"
proof -
  let ?s = "record_cost goal cur c (n + 1) s"
  have "c \<noteq> cur" using c(2) not_self_neighbor by blast
  have "c \<noteq> start" using ok less by (auto simp: search_ok_def tree_ok_def cost_get_def)
  have tree: "tree_ok F start ?s"
    unfolding tree_ok_def
  proof (intro conjI allI impI, goal_cases)
    case (4 d m) show ?case
      using 4 c(1) tree_parent [of F start s d m] ok by (cases "d = c") (simp_all add: search_ok_def)
  next
    case (5 d m)
    show ?case
    proof (cases "d = c")
      case True
      then show ?thesis using 5 cur c \<open>c \<noteq> cur\<close> by auto
    next
      case False
      then obtain p k where pk: "came_from s d = Some (Some p)" "cost s p = Some k" "k < m"
        "d \<in> set (neighbors p)" using 5 ok tree_parent [of F start s d m] by (auto simp: search_ok_def)
      show ?thesis
      proof (cases "p = c")
        case True
        then have "n + 1 < m" using pk less by (simp add: cost_get_def)
        then show ?thesis using pk True False by auto
      qed (use pk False in auto)
    qed
  qed (use ok \<open>c \<noteq> start\<close> in \<open>auto simp: search_ok_def tree_ok_def\<close>)
  moreover have "entries_ok start goal ?s"
  proof -
    have "sorted (frontier ?s)"
      using ok by (auto simp: search_ok_def entries_ok_def heappush_def sorted_insort)
    moreover have "\<exists>k. cost ?s d = Some k \<and> (d \<noteq> start \<longrightarrow> int k + heuristic goal d \<le> f)"
      if in_frontier: "(f, q, d) \<in> set (frontier ?s)" for f q d
    proof (cases "(f, q, d) \<in> set (frontier s)")
      case True
      then obtain k where "cost s d = Some k" "d \<noteq> start \<longrightarrow> int k + heuristic goal d \<le> f"
        using ok entriesD [of start goal s, OF _ True] by (auto simp: search_ok_def)
      then show ?thesis using less \<open>c \<noteq> start\<close> by (auto simp: cost_get_def)
    qed (use in_frontier in auto)
    ultimately show ?thesis unfolding entries_ok_def by blast
  qed
  moreover have "covered F goal ?s {cur}"
    unfolding covered_def
  proof (intro allI impI)
    fix d m assume d: "cost ?s d = Some m" "d \<notin> {cur}"
    show "open_cell goal ?s d m \<or> closed_cell F ?s d m"
    proof (cases "d = c")
      case True
      then show ?thesis using d by (auto simp: open_cell_def)
    next
      case False
      then have "open_cell goal s d m \<or> closed_cell F s d m"
        using d ok coveredD [of F goal s "{cur}" d m] by (auto simp: search_ok_def)
      then show ?thesis
        using closed_cheaper [OF record_cost_cheaper [OF less, of goal cur], of F d m]
        by (auto simp: open_cell_def)
    qed
  qed
  ultimately show ?thesis by (simp add: search_ok_def)
qed

subsection \<open>One turn\<close>

lemma relax_ok:
  assumes maps: "maps_ok pack" "dict_mem mid (wp_maps pack)"
    and ok: "search_ok (free_cell pack mid blocked) start goal {cur} s"
    and cur: "cost s cur = Some n" and c: "c \<in> set (neighbors cur)"
  shows "\<exists>s'. relax pack mid blocked goal cur s c = Inr s' \<and>
    search_ok (free_cell pack mid blocked) start goal {cur} s' \<and> cost s' cur = Some n \<and> cheaper s s' \<and>
    (free_cell pack mid blocked c \<longrightarrow> n + 1 < cost_limit \<longrightarrow> reached s' c (n + 1))"
proof -
  let ?F = "free_cell pack mid blocked"
  obtain w where w: "pack_is_walkable pack mid (fst c) (snd c) = Inr w"
    using pack_is_walkable_total [OF maps] by blast
  have "c \<noteq> cur" using c not_self_neighbor by blast
  show ?thesis
  proof (cases "?F c \<and> n + 1 < cost_get s c")
    case True
    then have "relax pack mid blocked goal cur s c = Inr (record_cost goal cur c (n + 1) s)"
      using cur by (simp add: relax_eq free_cell_def)
    moreover have "search_ok ?F start goal {cur} (record_cost goal cur c (n + 1) s)"
      using ok cur True c by (intro record_cost_ok) auto
    ultimately show ?thesis
      using True cur \<open>c \<noteq> cur\<close> by (auto intro: record_cost_cheaper simp: reached_def)
  next
    case False
    then have "relax pack mid blocked goal cur s c = Inr s"
      using cur w by (auto simp: relax_eq free_cell_def)
    moreover have "reached s c (n + 1)" if "?F c" "n + 1 < cost_limit"
      using that False by (auto simp: reached_def cost_get_def split: option.splits)
    ultimately show ?thesis using ok cur by (auto simp: cheaper_refl)
  qed
qed

lemma relax_all_ok:
  assumes maps: "maps_ok pack" "dict_mem mid (wp_maps pack)"
    and "search_ok (free_cell pack mid blocked) start goal {cur} s"
    and "cost s cur = Some n" and "set cs \<subseteq> set (neighbors cur)"
  shows "\<exists>s'. foldR (relax pack mid blocked goal cur) s cs = Inr s' \<and>
    search_ok (free_cell pack mid blocked) start goal {cur} s' \<and> cost s' cur = Some n \<and> cheaper s s' \<and>
    (\<forall>c \<in> set cs. free_cell pack mid blocked c \<longrightarrow> n + 1 < cost_limit \<longrightarrow> reached s' c (n + 1))"
  using assms(3-5)
proof (induction cs arbitrary: s)
  case Nil
  then show ?case by (simp add: cheaper_refl)
next
  case (Cons c cs)
  obtain s1 where s1: "relax pack mid blocked goal cur s c = Inr s1"
    "search_ok (free_cell pack mid blocked) start goal {cur} s1" "cost s1 cur = Some n" "cheaper s s1"
    "free_cell pack mid blocked c \<longrightarrow> n + 1 < cost_limit \<longrightarrow> reached s1 c (n + 1)"
    using relax_ok [OF maps Cons.prems(1,2)] Cons.prems(3) by (metis list.set_intros(1) subsetD)
  obtain s2 where s2: "foldR (relax pack mid blocked goal cur) s1 cs = Inr s2"
    "search_ok (free_cell pack mid blocked) start goal {cur} s2" "cost s2 cur = Some n" "cheaper s1 s2"
    "\<forall>c \<in> set cs. free_cell pack mid blocked c \<longrightarrow> n + 1 < cost_limit \<longrightarrow> reached s2 c (n + 1)"
    using Cons.IH [OF s1(2,3)] Cons.prems(3) by auto
  have "reached s2 c (n + 1)" if "free_cell pack mid blocked c" "n + 1 < cost_limit"
    using that s1(5) s2(4) cheaper_reached by blast
  with s1 s2 show ?case by (auto intro: cheaper_trans)
qed

text \<open>Taking an entry off the frontier uncovers only its own cell.\<close>

lemma pop_ok:
  assumes ok: "search_ok F start goal {} s" and fr: "frontier s = (f, q, cur) # rest"
  shows "search_ok F start goal {cur} (s\<lparr>frontier := rest\<rparr>)"
proof -
  let ?s = "s\<lparr>frontier := rest\<rparr>"
  have "tree_ok F start ?s" using ok by (simp add: search_ok_def tree_ok_def)
  moreover have "entries_ok start goal ?s"
    using ok fr unfolding search_ok_def entries_ok_def by simp
  moreover have "covered F goal ?s {cur}"
    unfolding covered_def
  proof (intro allI impI)
    fix c n assume c: "cost ?s c = Some n" "c \<notin> {cur}"
    then have "open_cell goal s c n \<or> closed_cell F s c n"
      using ok coveredD [of F goal s "{}" c n] by (simp add: search_ok_def)
    then show "open_cell goal ?s c n \<or> closed_cell F ?s c n"
      using c(2) fr by (auto simp: open_cell_def closed_cell_def reached_def)
  qed
  ultimately show ?thesis by (simp add: search_ok_def)
qed

lemma expand_ok:
  assumes maps: "maps_ok pack" "dict_mem mid (wp_maps pack)"
    and ok: "search_ok (free_cell pack mid blocked) start goal {} s"
    and pop: "heappop (frontier s) = Some ((f, q, cur), rest)"
  shows "\<exists>s'. expand pack mid blocked goal cur (s\<lparr>frontier := rest\<rparr>) = Inr s' \<and>
    search_ok (free_cell pack mid blocked) start goal {} s'"
proof -
  let ?F = "free_cell pack mid blocked" and ?s = "s\<lparr>frontier := rest\<rparr>"
  have fr: "frontier s = (f, q, cur) # rest"
    using pop by (simp add: heappop_def split: list.splits)
  obtain n where n: "cost s cur = Some n"
    using ok fr entriesD [of start goal s f q cur] by (auto simp: search_ok_def)
  have "search_ok ?F start goal {cur} ?s" using ok fr by (rule pop_ok)
  from relax_all_ok [OF maps this, of n "neighbors cur"] n obtain s' where s':
    "foldR (relax pack mid blocked goal cur) ?s (neighbors cur) = Inr s'"
    "search_ok ?F start goal {cur} s'" "cost s' cur = Some n"
    "\<forall>c \<in> set (neighbors cur). ?F c \<longrightarrow> n + 1 < cost_limit \<longrightarrow> reached s' c (n + 1)" by auto
  moreover have "covered ?F goal s' {}"
    unfolding covered_def
  proof (intro allI impI)
    fix c k assume c: "cost s' c = Some k"
    show "open_cell goal s' c k \<or> closed_cell ?F s' c k"
      using s'(2-4) c coveredD [of ?F goal s' "{cur}" c k]
      by (cases "c = cur") (auto simp: search_ok_def closed_cell_def)
  qed
  ultimately have "search_ok ?F start goal {} s'" by (simp add: search_ok_def)
  with s'(1) show ?thesis by (auto simp: expand_def)
qed

subsection \<open>What the loop leaves behind\<close>

lemma walk_to_open:
  assumes "covered F goal s {}" and "reached s c i" and "route_from F c p"
    and "i + length p < cost_limit" and "\<not> reached s (last (c # p)) (i + length p)"
    and "last (c # p) = goal"
  shows "\<exists>f q d. (f, q, d) \<in> set (frontier s) \<and> f \<le> int (i + length p)"
  using assms(2-)
proof (induction p arbitrary: c i)
  case (Cons d p)
  obtain n where n: "cost s c = Some n" "n \<le> i" using Cons.prems(1) by (auto simp: reached_def)
  show ?case
  proof (cases "open_cell goal s c n")
    case True
    then obtain f q where fq: "(f, q, c) \<in> set (frontier s)" "f \<le> int n + heuristic goal c"
      unfolding open_cell_def by blast
    moreover have "heuristic goal c \<le> int (length (d # p))"
      using heuristic_route [OF Cons.prems(2)] Cons.prems(5) by simp
    ultimately have "f \<le> int (i + length (d # p))" using n(2) by simp
    with fq(1) show ?thesis by blast
  next
    case False
    then have "closed_cell F s c n" using coveredD [OF assms(1) n(1)] by simp
    then have "reached s d (n + 1)" using Cons.prems n by (simp add: closed_cell_def)
    then have "reached s d (i + 1)" using n(2) by (auto simp: reached_def)
    from Cons.IH [OF this] Cons.prems show ?thesis by simp
  qed
qed simp

text \<open>The loop ends, and then the goal is known at the cost of a shortest route.\<close>

definition search_done :: "(cell \<Rightarrow> bool) \<Rightarrow> cell \<Rightarrow> cell \<Rightarrow> search \<Rightarrow> bool" where
  "search_done F start goal s \<longleftrightarrow> tree_ok F start s \<and>
     (\<forall>p. route_from F start p \<longrightarrow> last (start # p) = goal \<longrightarrow> length p < cost_limit \<longrightarrow>
        reached s goal (length p))"

lemma search_done_pop:
  assumes ok: "search_ok F start goal {} s" and "start \<noteq> goal"
    and pop: "heappop (frontier s) = Some ((f, q, goal), rest)"
  shows "search_done F start goal (s\<lparr>frontier := rest\<rparr>)"
proof -
  have srt: "sorted (frontier s)" using ok by (simp add: search_ok_def entries_ok_def)
  have elem: "(f, q, goal) \<in> set (frontier s)"
    using hq.pop_elem [OF srt pop] by simp
  obtain n where n: "cost s goal = Some n" "int n \<le> f"
    using ok entriesD [of start goal s, OF _ elem] assms(2) by (auto simp: search_ok_def)
  have "reached s goal (length p)"
    if p: "route_from F start p" "last (start # p) = goal" "length p < cost_limit" for p
  proof (rule ccontr)
    assume far: "\<not> reached s goal (length p)"
    have "reached s start 0" using ok by (simp add: search_ok_def tree_ok_def reached_def)
    with walk_to_open [of F goal s start 0 p] ok p far
    obtain f' q' d where e: "(f', q', d) \<in> set (frontier s)" "f' \<le> int (length p)"
      by (auto simp: search_ok_def)
    then have "(f, q, goal) \<le> (f', q', d)"
      using hq.pop_least [OF srt pop, of "(f', q', d)"] by (simp only: set_mset_mset)
    then have "f \<le> f'" by auto
    then have "n \<le> length p" using e(2) n(2) by simp
    with far n(1) show False by (simp add: reached_def)
  qed
  with ok show ?thesis by (auto simp: search_done_def search_ok_def tree_ok_def reached_def)
qed

lemma search_done_empty:
  assumes ok: "search_ok F start goal {} s" and pop: "heappop (frontier s) = None"
  shows "search_done F start goal s"
proof -
  have "frontier s = []" using pop by (simp add: heappop_def split: list.splits)
  moreover have "reached s start 0" using ok by (simp add: search_ok_def tree_ok_def reached_def)
  ultimately have "reached s goal (length p)"
    if "route_from F start p" "last (start # p) = goal" "length p < cost_limit" for p
    using walk_to_open [of F goal s start 0 p] ok that by (auto simp: search_ok_def)
  with ok show ?thesis by (auto simp: search_done_def search_ok_def)
qed

lemma search_loop_ok:
  assumes "maps_ok pack" and "dict_mem mid (wp_maps pack)" and "start \<noteq> goal"
    and "search_ok (free_cell pack mid blocked) start goal {} s"
  shows "\<exists>s'. search_loop pack mid blocked goal s = Inr s' \<and>
    search_done (free_cell pack mid blocked) start goal s'"
  using assms
proof (induction pack mid blocked goal s rule: search_loop.induct)
  case (1 pack mid blocked goal s)
  note maps = 1(2,3) and ne = 1(4) and ok = 1(5)
  show ?case
  proof (cases "heappop (frontier s)")
    case None
    then show ?thesis
      using search_done_empty [OF ok] by (auto simp: search_loop.simps [of pack mid blocked goal s])
  next
    case (Some a)
    then obtain f q cur rest where pop: "heappop (frontier s) = Some ((f, q, cur), rest)"
      by (cases a) auto
    show ?thesis
    proof (cases "cur = goal")
      case True
      then show ?thesis
        using search_done_pop [OF ok ne] pop
        by (auto simp: search_loop.simps [of pack mid blocked goal s])
    next
      case False
      obtain s' where s': "expand pack mid blocked goal cur (s\<lparr>frontier := rest\<rparr>) = Inr s'"
        "search_ok (free_cell pack mid blocked) start goal {} s'"
        using expand_ok [OF maps ok pop] by blast
      from "1.IH" [OF pop refl refl refl False s'(1) maps ne s'(2)]
      show ?thesis using False pop s'(1)
        by (auto simp: search_loop.simps [of pack mid blocked goal s])
    qed
  qed
qed

text \<open>Following the parents costs at least one per step, so the fuel suffices.\<close>

lemma backtrack_ok:
  assumes "tree_ok F start s" and "cost s c = Some n" and "n \<le> fuel"
    and "route_from F c path" and "last (c # path) = goal"
  shows "\<exists>p. backtrack fuel s start c (rev path) = Inr p \<and> route_from F start p \<and>
    last (start # p) = goal \<and> length p \<le> n + length path \<and> (c \<noteq> start \<longrightarrow> p \<noteq> []) \<and> (path \<noteq> [] \<longrightarrow> p \<noteq> [])"
  using assms
proof (induction fuel arbitrary: c n path)
  case 0
  then have "c = start" using tree_parent [of F start s c n] by auto
  with 0 show ?case by auto
next
  case (Suc fuel)
  show ?case
  proof (cases "c = start")
    case True
    with Suc show ?thesis by auto
  next
    case False
    then obtain p m where pm: "F c" "came_from s c = Some (Some p)" "cost s p = Some m" "m < n"
      "c \<in> set (neighbors p)" using Suc.prems(1,2) tree_parent [of F start s c n] by blast
    have "route_from F p (c # path)" using pm Suc.prems(4) by simp
    moreover have "last (p # c # path) = goal" using Suc.prems(5) by simp
    moreover have "m \<le> fuel" using Suc.prems(3) pm(4) by simp
    ultimately obtain r where "backtrack fuel s start p (rev (c # path)) = Inr r"
      "route_from F start r" "last (start # r) = goal" "length r \<le> m + length (c # path)" "r \<noteq> []"
      using Suc.IH [OF Suc.prems(1) pm(3), of "c # path"] by blast
    moreover have "backtrack (Suc fuel) s start c (rev path) = backtrack fuel s start p (rev (c # path))"
      using False pm(2) by simp
    ultimately show ?thesis using pm(4) by auto
  qed
qed

lemma find_path_spec:
  assumes maps: "maps_ok pack"
  shows "\<exists>p. find_path pack mid start goal blocked = Inr p \<and>
    (p \<noteq> [] \<longrightarrow> is_route pack mid blocked start goal p) \<and>
    (\<forall>r. start \<noteq> goal \<longrightarrow> is_route pack mid blocked start goal r \<longrightarrow> length r < cost_limit \<longrightarrow>
        p \<noteq> [] \<and> length p \<le> length r)"
proof (cases "dict_mem mid (wp_maps pack)")
  case False
  then have "\<not> is_route pack mid blocked start goal r" for r
    by (cases r) (auto simp: is_route_def free_cell_def pack_is_walkable_def dict_at_def dict_mem_def)
  with False show ?thesis by (simp add: find_path_def)
next
  case known: True
  let ?F = "free_cell pack mid (blocked - {start})"
  obtain w where w: "pack_is_walkable pack mid (fst goal) (snd goal) = Inr w"
    using pack_is_walkable_total [OF maps known] by blast
  have goal_free: "?F goal" if "is_route pack mid blocked start goal r" for r
  proof -
    have *: "p \<noteq> [] \<Longrightarrow> route_from ?F c p \<Longrightarrow> ?F (last p)" for c p
      by (induction p arbitrary: c) (auto split: if_splits)
    show ?thesis using that by (auto simp: is_route_def dest: *)
  qed
  show ?thesis
  proof (cases "w \<and> start \<noteq> goal \<and> goal \<notin> blocked - {start}")
    case False
    then have "find_path pack mid start goal blocked = Inr []"
      using known w by (auto simp: find_path_def)
    moreover have "start = goal \<or> \<not> is_route pack mid blocked start goal r" for r
      using False w goal_free by (auto simp: free_cell_def)
    ultimately show ?thesis by auto
  next
    case True
    then have ne: "start \<noteq> goal" by simp
    obtain s where s: "search_loop pack mid (blocked - {start}) goal (init_search start) = Inr s"
      "search_done ?F start goal s"
      using search_loop_ok [OF maps known ne search_ok_init] by blast
    have tree: "tree_ok ?F start s" using s(2) by (simp add: search_done_def)
    show ?thesis
    proof (cases "cost s goal")
      case None
      then have "came_from s goal = None" using tree_known [OF tree] by simp
      then have "find_path pack mid start goal blocked = Inr []"
        using known w True s(1) by (simp add: find_path_def)
      moreover have "\<not> is_route pack mid blocked start goal r" if "length r < cost_limit" for r
        using s(2) None that by (auto simp: search_done_def is_route_def reached_def)
      ultimately show ?thesis by auto
    next
      case (Some n)
      then obtain parent where "came_from s goal = Some parent" using tree_known [OF tree, of goal] by auto
      moreover obtain p where p: "backtrack (Suc n) s start goal [] = Inr p" "route_from ?F start p"
        "last (start # p) = goal" "length p \<le> n" "p \<noteq> []"
        using backtrack_ok [OF tree Some, of "Suc n" "[]" goal] ne by (auto simp del: backtrack.simps)
      ultimately have "find_path pack mid start goal blocked = Inr p"
        using known w True s(1) Some by (simp add: find_path_def cost_get_def)
      moreover have "n \<le> length r" if "is_route pack mid blocked start goal r" "length r < cost_limit" for r
        using s(2) Some that by (auto simp: search_done_def is_route_def reached_def)
      ultimately show ?thesis using p le_trans by (fastforce simp: is_route_def)
    qed
  qed
qed

end
