(* ===== verification/WorldState.thy ===== *)
theory WorldState
  imports Navigation
begin

text \<open>
  The state of a running world: the frozen dataclasses of \<open>src/isoworld/world/state.py\<close>
  and their accessors. The small key/value dataclasses (\<open>ResourceValue\<close>, \<open>Cooldown\<close>,
  \<open>KnowledgeValue\<close>, \<open>ReputationValue\<close>, \<open>NeedValue\<close>, and \<open>RelationshipValue\<close> keyed by
  target and dimension) are pairs of key and value; everything else is a record with the
  fields of the source. An update returns a new value, as \<open>dataclasses.replace\<close> does.

  The clamped attributes share one contract, the locale \<open>clamped_store\<close>: reading what was
  written returns the clamped value, other keys are untouched, and stored values stay in range.
\<close>

section \<open>Records\<close>

record stockpile_state =
  ss_stockpile_id :: string
  ss_resources :: "(string \<times> int) list"

record construction_state =
  cs_instance_id :: string
  cs_blueprint_id :: string
  cs_map_id :: string
  cs_x :: int
  cs_y :: int
  cs_builder_actor_id :: string
  cs_status :: string
  cs_complete_at_minute :: int

record production_job =
  pj_construction_instance_id :: string
  pj_recipe_id :: string
  pj_actor_id :: string
  pj_complete_at_minute :: int

record pending_consequence =
  pc_consequence_id :: string
  pc_due_at_minute :: int
  pc_source_actor_id :: string

record quest_state =
  qs_quest_id :: string
  qs_status :: string
  qs_stage_id :: "string option"

record dialogue_state =
  ds_dialogue_id :: string
  ds_node_id :: string
  ds_initiator_actor_id :: string
  ds_partner_actor_id :: string

record domain_event =
  ev_kind :: string
  ev_actor_id :: "string option"
  ev_subject_id :: "string option"

record actor_state =
  as_actor_id :: string
  as_map_id :: string
  as_x :: int
  as_y :: int
  as_resources :: "(string \<times> int) list"
  as_cooldowns :: "(string \<times> int) list"
  as_route :: "cell list"
  as_blocked_ticks :: int
  as_knowledge :: "(string \<times> string) list"
  as_relationships :: "((string \<times> string) \<times> int) list"
  as_faction_reputation :: "(string \<times> int) list"
  as_needs :: "(string \<times> int) list"
  as_active_goal_id :: "string option"

record world_state =
  ws_tick :: int
  ws_day :: int
  ws_minute_of_day :: int
  ws_minute_tick :: int
  ws_active_actor_id :: string
  ws_actors :: "actor_state list"
  ws_flags :: "string set"
  ws_completed_interactions :: "string set"
  ws_quests :: "quest_state list"
  ws_dialogue :: "dialogue_state option"
  ws_active_scene_id :: "string option"
  ws_triggered_scenes :: "string set"
  ws_recent_events :: "domain_event list"
  ws_stockpiles :: "stockpile_state list"
  ws_constructions :: "construction_state list"
  ws_production_jobs :: "production_job list"
  ws_pending_consequences :: "pending_consequence list"
  ws_triggered_consequences :: "string set"
  ws_last_message :: string

record game_action =
  ga_kind :: string
  ga_actor_id :: "string option"
  ga_dx :: int
  ga_dy :: int
  ga_map_id :: "string option"
  ga_x :: "int option"
  ga_y :: "int option"
  ga_ability_id :: "string option"
  ga_target_actor_id :: "string option"
  ga_interaction_id :: "string option"
  ga_dialogue_id :: "string option"
  ga_choice_id :: "string option"
  ga_blueprint_id :: "string option"
  ga_construction_instance_id :: "string option"
  ga_recipe_id :: "string option"
  ga_stockpile_id :: "string option"
  ga_resource_id :: "string option"
  ga_amount :: int
  ga_direction :: "string option"

text \<open>\<open>GameAction(kind)\<close>, every other field at its default.\<close>

definition game_action_of :: "string \<Rightarrow> game_action" where
  "game_action_of kind =
     \<lparr>ga_kind = kind, ga_actor_id = None, ga_dx = 0, ga_dy = 0, ga_map_id = None,
      ga_x = None, ga_y = None, ga_ability_id = None, ga_target_actor_id = None,
      ga_interaction_id = None, ga_dialogue_id = None, ga_choice_id = None,
      ga_blueprint_id = None, ga_construction_instance_id = None, ga_recipe_id = None,
      ga_stockpile_id = None, ga_resource_id = None, ga_amount = 0, ga_direction = None\<rparr>"

definition domain_event_of :: "string \<Rightarrow> string \<Rightarrow> string \<Rightarrow> domain_event" where
  "domain_event_of kind aid sid = \<lparr>ev_kind = kind, ev_actor_id = Some aid, ev_subject_id = Some sid\<rparr>"

text \<open>Python's truth value of an optional string, and \<open>a or b\<close>.\<close>

definition truthy :: "string option \<Rightarrow> bool" where
  "truthy v = (case v of None \<Rightarrow> False | Some s \<Rightarrow> s \<noteq> [])"

definition or_else :: "string option \<Rightarrow> string \<Rightarrow> string" where
  "or_else v d = (if truthy v then the v else d)"

lemma truthyD: "truthy v \<Longrightarrow> \<exists>s. v = Some s \<and> s \<noteq> []"
  by (cases v) (simp_all add: truthy_def)

section \<open>Accessors\<close>

definition kv_get :: "'v \<Rightarrow> ('k \<times> 'v) list \<Rightarrow> 'k \<Rightarrow> 'v" where
  "kv_get d xs k = (case map_of xs k of None \<Rightarrow> d | Some v \<Rightarrow> v)"

definition clamp :: "int \<Rightarrow> int \<Rightarrow> int \<Rightarrow> int" where
  "clamp lo hi v = max lo (min hi v)"

definition stockpile_resource :: "stockpile_state \<Rightarrow> string \<Rightarrow> int" where
  "stockpile_resource s r = kv_get 0 (ss_resources s) r"

definition stockpile_with_resource :: "stockpile_state \<Rightarrow> string \<Rightarrow> int \<Rightarrow> stockpile_state" where
  "stockpile_with_resource s r v = s\<lparr>ss_resources := kv_put r (max 0 v) (ss_resources s)\<rparr>"

definition stockpile_total :: "stockpile_state \<Rightarrow> int" where
  "stockpile_total s = sum_list (map snd (ss_resources s))"

definition actor_resource :: "actor_state \<Rightarrow> string \<Rightarrow> int" where
  "actor_resource a r = kv_get 0 (as_resources a) r"

definition actor_with_resource :: "actor_state \<Rightarrow> string \<Rightarrow> int \<Rightarrow> actor_state" where
  "actor_with_resource a r v = a\<lparr>as_resources := kv_put r (max 0 v) (as_resources a)\<rparr>"

definition cooldown_until :: "actor_state \<Rightarrow> string \<Rightarrow> int" where
  "cooldown_until a ability = kv_get 0 (as_cooldowns a) ability"

definition with_cooldown :: "actor_state \<Rightarrow> string \<Rightarrow> int \<Rightarrow> actor_state" where
  "with_cooldown a ability ready_at = a\<lparr>as_cooldowns := kv_put ability ready_at (as_cooldowns a)\<rparr>"

definition knowledge_status :: "actor_state \<Rightarrow> string \<Rightarrow> string" where
  "knowledge_status a fid = kv_get ''unknown'' (as_knowledge a) fid"

definition with_knowledge :: "actor_state \<Rightarrow> string \<Rightarrow> string \<Rightarrow> actor_state" where
  "with_knowledge a fid status =
     a\<lparr>as_knowledge := (if status = ''unknown'' then kv_drop fid (as_knowledge a)
                        else kv_put fid status (as_knowledge a))\<rparr>"

definition relationship :: "actor_state \<Rightarrow> string \<Rightarrow> string \<Rightarrow> int" where
  "relationship a target dim = kv_get 0 (as_relationships a) (target, dim)"

definition with_relationship :: "actor_state \<Rightarrow> string \<Rightarrow> string \<Rightarrow> int \<Rightarrow> actor_state" where
  "with_relationship a target dim v =
     a\<lparr>as_relationships := kv_put (target, dim) (clamp (-100) 100 v) (as_relationships a)\<rparr>"

definition reputation :: "actor_state \<Rightarrow> string \<Rightarrow> int" where
  "reputation a faction = kv_get 0 (as_faction_reputation a) faction"

definition with_reputation :: "actor_state \<Rightarrow> string \<Rightarrow> int \<Rightarrow> actor_state" where
  "with_reputation a faction v =
     a\<lparr>as_faction_reputation := kv_put faction (clamp (-100) 100 v) (as_faction_reputation a)\<rparr>"

definition actor_need :: "actor_state \<Rightarrow> string \<Rightarrow> int" where
  "actor_need a n = kv_get 100 (as_needs a) n"

definition with_need :: "actor_state \<Rightarrow> string \<Rightarrow> int \<Rightarrow> actor_state" where
  "with_need a n v = a\<lparr>as_needs := kv_put n (clamp 0 100 v) (as_needs a)\<rparr>"

definition absolute_minute :: "world_state \<Rightarrow> int" where
  "absolute_minute st = (ws_day st - 1) * 1440 + ws_minute_of_day st"

definition get_actor :: "world_state \<Rightarrow> string \<Rightarrow> actor_state res" where
  "get_actor st aid = of_option (KeyError aid) (find (\<lambda>a. as_actor_id a = aid) (ws_actors st))"

definition get_quest :: "world_state \<Rightarrow> string \<Rightarrow> quest_state" where
  "get_quest st qid =
     (case find (\<lambda>q. qs_quest_id q = qid) (ws_quests st) of
        None \<Rightarrow> \<lparr>qs_quest_id = qid, qs_status = ''inactive'', qs_stage_id = None\<rparr>
      | Some q \<Rightarrow> q)"

definition get_stockpile :: "world_state \<Rightarrow> string \<Rightarrow> stockpile_state res" where
  "get_stockpile st sid =
     of_option (KeyError sid) (find (\<lambda>s. ss_stockpile_id s = sid) (ws_stockpiles st))"

definition replace_actor :: "world_state \<Rightarrow> actor_state \<Rightarrow> world_state" where
  "replace_actor st updated =
     st\<lparr>ws_actors := map (\<lambda>a. if as_actor_id a = as_actor_id updated then updated else a) (ws_actors st)\<rparr>"

definition replace_stockpile :: "world_state \<Rightarrow> stockpile_state \<Rightarrow> world_state" where
  "replace_stockpile st updated =
     st\<lparr>ws_stockpiles :=
       map (\<lambda>s. if ss_stockpile_id s = ss_stockpile_id updated then updated else s) (ws_stockpiles st)\<rparr>"

definition occupied :: "world_state \<Rightarrow> string \<Rightarrow> string \<Rightarrow> cell set" where
  "occupied st mid except_actor =
     (\<lambda>a. (as_x a, as_y a)) `
       set (filter (\<lambda>a. as_map_id a = mid \<and> as_actor_id a \<noteq> except_actor) (ws_actors st))"

section \<open>The contract of a clamped attribute\<close>

text \<open>
  Needs, reputation, relationships and resources are written through a clamp and read with a
  default. The clamp is idempotent on values that came out of it.
\<close>

locale clamped_store =
  fixes get :: "'s \<Rightarrow> 'k \<Rightarrow> int"
    and put :: "'s \<Rightarrow> 'k \<Rightarrow> int \<Rightarrow> 's"
    and bounds :: "int \<Rightarrow> int"
    and store_ok :: "'s \<Rightarrow> bool"
  assumes get_put: "store_ok s \<Longrightarrow> get (put s k v) j = (if j = k then bounds v else get s j)"
    and put_ok: "store_ok s \<Longrightarrow> store_ok (put s k v)"
    and get_bounds: "store_ok s \<Longrightarrow> bounds (get s k) = get s k"
begin

text \<open>Adding to an attribute, as every \<open>change_*\<close> effect does.\<close>

lemma change_value: "store_ok s \<Longrightarrow> get (put s k (get s k + d)) k = bounds (get s k + d)"
  by (simp add: get_put)

lemma change_other: "store_ok s \<Longrightarrow> j \<noteq> k \<Longrightarrow> get (put s k (get s k + d)) j = get s j"
  by (simp add: get_put)

lemma put_get_same: "store_ok s \<Longrightarrow> get (put s k (get s k)) j = get s j"
  by (simp add: get_put get_bounds)

lemma last_put_wins: "store_ok s \<Longrightarrow> get (put (put s k v) k w) j = get (put s k w) j"
  by (simp add: get_put put_ok)

lemma puts_commute:
  "store_ok s \<Longrightarrow> k \<noteq> l \<Longrightarrow> get (put (put s k v) l w) j = get (put (put s l w) k v) j"
  by (simp add: get_put put_ok)

lemma put_all_ok: "store_ok s \<Longrightarrow> store_ok (foldl (\<lambda>s (k, v). put s k v) s kvs)"
  by (induction kvs arbitrary: s) (auto simp: put_ok split: prod.split)

end

lemma kv_get_put: "kv_ok xs \<Longrightarrow> kv_get d (kv_put k v xs) j = (if j = k then v else kv_get d xs j)"
  by (simp add: kv_get_def map_of_kv_put)

lemma kv_get_drop: "kv_ok xs \<Longrightarrow> kv_get d (kv_drop k xs) j = (if j = k then d else kv_get d xs j)"
  by (simp add: kv_get_def map_of_kv_drop)

definition kv_values_in :: "int set \<Rightarrow> ('k \<times> int) list \<Rightarrow> bool" where
  "kv_values_in V xs \<longleftrightarrow> (\<forall>(k, v) \<in> set xs. v \<in> V)"

lemma set_kv_put: "kv_ok xs \<Longrightarrow> set (kv_put k v xs) \<subseteq> insert (k, v) (set xs)"
proof
  fix p assume ok: "kv_ok xs" and p: "p \<in> set (kv_put k v xs)"
  obtain j w where jw: "p = (j, w)" by (cases p)
  have "kv_ok (kv_put k v xs)" by simp
  then have "map_of (kv_put k v xs) j = Some w"
    using p jw kv_ok_distinct map_of_is_SomeI by fastforce
  then show "p \<in> insert (k, v) (set xs)"
    using ok jw by (auto simp: map_of_kv_put dest: map_of_SomeD split: if_splits)
qed

lemma set_kv_drop: "kv_ok xs \<Longrightarrow> set (kv_drop k xs) \<subseteq> set xs"
proof
  fix p assume ok: "kv_ok xs" and p: "p \<in> set (kv_drop k xs)"
  obtain j w where jw: "p = (j, w)" by (cases p)
  have "kv_ok (kv_drop k xs)" by simp
  then have "map_of (kv_drop k xs) j = Some w"
    using p jw kv_ok_distinct map_of_is_SomeI by fastforce
  then show "p \<in> set xs"
    using ok jw by (auto simp: map_of_kv_drop dest: map_of_SomeD split: if_splits)
qed

lemma kv_values_in_put [intro]:
  "kv_ok xs \<Longrightarrow> kv_values_in V xs \<Longrightarrow> v \<in> V \<Longrightarrow> kv_values_in V (kv_put k v xs)"
  unfolding kv_values_in_def using set_kv_put by fastforce

lemma kv_values_in_get: "kv_values_in V xs \<Longrightarrow> d \<in> V \<Longrightarrow> kv_get d xs k \<in> V"
  by (auto simp: kv_values_in_def kv_get_def dest: map_of_SomeD split: option.split)

lemma clamp_in: "lo \<le> hi \<Longrightarrow> clamp lo hi v \<in> {lo..hi}"
  by (simp add: clamp_def)

lemma clamp_id: "v \<in> {lo..hi} \<Longrightarrow> clamp lo hi v = v"
  by (simp add: clamp_def)

lemma kv_values_in_clamp [intro]:
  "kv_ok xs \<Longrightarrow> kv_values_in {lo..hi} xs \<Longrightarrow> lo \<le> hi \<Longrightarrow>
     kv_values_in {lo..hi} (kv_put k (clamp lo hi v) xs)"
  by (auto intro: clamp_in)

lemma kv_get_nonneg: "kv_values_in {0..} xs \<Longrightarrow> max 0 (kv_get 0 xs k) = kv_get (0::int) xs k"
  using kv_values_in_get [of "{0..}" xs 0 k] by simp

interpretation need_store: clamped_store actor_need with_need "clamp 0 100"
    "\<lambda>a. kv_ok (as_needs a) \<and> kv_values_in {0..100} (as_needs a)"
  by unfold_locales
    (auto simp: actor_need_def with_need_def kv_get_put intro!: clamp_id kv_values_in_get)

interpretation reputation_store: clamped_store reputation with_reputation "clamp (-100) 100"
    "\<lambda>a. kv_ok (as_faction_reputation a) \<and> kv_values_in {-100..100} (as_faction_reputation a)"
  by unfold_locales
    (auto simp: reputation_def with_reputation_def kv_get_put intro!: clamp_id kv_values_in_get)

interpretation relationship_store: clamped_store
    "\<lambda>a (t, d). relationship a t d" "\<lambda>a (t, d) v. with_relationship a t d v" "clamp (-100) 100"
    "\<lambda>a. kv_ok (as_relationships a) \<and> kv_values_in {-100..100} (as_relationships a)"
  by unfold_locales
    (auto simp: relationship_def with_relationship_def kv_get_put
      intro!: clamp_id kv_values_in_get)

interpretation resource_store: clamped_store actor_resource actor_with_resource "max 0"
    "\<lambda>a. kv_ok (as_resources a) \<and> kv_values_in {0..} (as_resources a)"
  by unfold_locales
    (auto simp: actor_resource_def actor_with_resource_def kv_get_put
      kv_get_nonneg intro!: kv_values_in_put)

interpretation stock_store: clamped_store stockpile_resource stockpile_with_resource "max 0"
    "\<lambda>s. kv_ok (ss_resources s) \<and> kv_values_in {0..} (ss_resources s)"
  by unfold_locales
    (auto simp: stockpile_resource_def stockpile_with_resource_def kv_get_put
      kv_get_nonneg intro!: kv_values_in_put)

end
