(* ===== verification/Rules.thy ===== *)
theory Rules
  imports WorldState
begin

text \<open>
  Authored conditions and effects, which every other component evaluates: the construction
  and scarcity queries of \<open>living_world.py\<close>, \<open>condition_met\<close> and \<open>conditions_met\<close> of
  \<open>narrative.py\<close>, and \<open>_apply_effects\<close> of \<open>state.py\<close>. An unknown kind, or a kind whose
  operands are missing, is false for a condition and nothing for an effect; an unknown actor,
  stockpile, blueprint or resource raises \<open>KeyError\<close>. Every caller in the package passes a
  pack and, for effects, a list of events, so these are not optional here; the list that the
  code mutates is returned with the state.
\<close>

section \<open>Constructions and scarcity\<close>

definition footprint_cells :: "int \<Rightarrow> int \<Rightarrow> cell list \<Rightarrow> cell set" where
  "footprint_cells x y fp = (\<lambda>(dx, dy). (x + dx, y + dy)) ` set fp"

definition construction_cells ::
  "world_state \<Rightarrow> world_pack \<Rightarrow> string \<Rightarrow> bool \<Rightarrow> cell set res" where
  "construction_cells st pack mid blocking_only =
     foldR (\<lambda>cells c.
       if cs_map_id c \<noteq> mid \<or> cs_status c \<notin> {''building'', ''completed''} then Inr cells
       else rbind (dict_at (wp_constructions pack) (cs_blueprint_id c)) (\<lambda>blueprint.
         if blocking_only \<and> \<not> cd_blocks_movement blueprint then Inr cells
         else Inr (cells \<union> footprint_cells (cs_x c) (cs_y c) (cd_footprint blueprint))))
       {} (ws_constructions st)"

definition is_walkable :: "world_state \<Rightarrow> world_pack \<Rightarrow> string \<Rightarrow> int \<Rightarrow> int \<Rightarrow> bool res" where
  "is_walkable st pack mid x y =
     rbind (pack_is_walkable pack mid x y) (\<lambda>b.
       if b then rbind (construction_cells st pack mid True) (\<lambda>cells. Inr ((x, y) \<notin> cells))
       else Inr False)"

definition dynamic_blocked_cells :: "world_state \<Rightarrow> world_pack \<Rightarrow> string \<Rightarrow> cell set res" where
  "dynamic_blocked_cells st pack mid = construction_cells st pack mid True"

definition scarcity_percent :: "world_state \<Rightarrow> world_pack \<Rightarrow> string \<Rightarrow> int res" where
  "scarcity_percent st pack rid =
     rbind (dict_at (wp_resources pack) rid) (\<lambda>r.
       let target = rd_scarcity_target r in
       if target \<le> 0 then Inr 0
       else let available = sum_list (map (\<lambda>a. actor_resource a rid) (ws_actors st))
                          + sum_list (map (\<lambda>s. stockpile_resource s rid) (ws_stockpiles st))
            in Inr (max 0 (min 100 (100 - available * 100 div target))))"

section \<open>Conditions\<close>

definition window_contains :: "int \<Rightarrow> int \<Rightarrow> int \<Rightarrow> bool" where
  "window_contains minute s e =
     (if s < e then s \<le> minute \<and> minute < e else s \<le> minute \<or> minute < e)"

definition event_matches :: "condition_definition \<Rightarrow> domain_event \<Rightarrow> bool" where
  "event_matches c ev \<longleftrightarrow>
     Some (ev_kind ev) = cond_event_kind c \<and>
     (cond_subject_id c = None \<or> ev_subject_id ev = cond_subject_id c) \<and>
     (cond_actor_id c = None \<or> ev_actor_id ev = cond_actor_id c)"

definition condition_result ::
  "world_state \<Rightarrow> condition_definition \<Rightarrow> string \<Rightarrow> domain_event list \<Rightarrow> world_pack \<Rightarrow> bool res" where
  "condition_result st c source events pack =
     (let aid = or_else (cond_actor_id c) source in
      if cond_kind c = ''flag_set'' then
        Inr (case cond_flag c of None \<Rightarrow> False | Some f \<Rightarrow> f \<in> ws_flags st)
      else if cond_kind c = ''flag_unset'' then
        Inr (case cond_flag c of None \<Rightarrow> True | Some f \<Rightarrow> f \<notin> ws_flags st)
      else if cond_kind c = ''fact_status'' \<and> truthy (cond_fact_id c) then
        rbind (get_actor st aid) (\<lambda>a.
          Inr (knowledge_status a (the (cond_fact_id c)) =
               or_else (cond_knowledge_status c) ''unknown''))
      else if cond_kind c = ''relationship_at_least'' \<and> truthy (cond_target_actor_id c)
              \<and> truthy (cond_dimension c) then
        rbind (get_actor st aid) (\<lambda>a.
          Inr (cond_value c \<le> relationship a (the (cond_target_actor_id c)) (the (cond_dimension c))))
      else if cond_kind c = ''reputation_at_least'' \<and> truthy (cond_faction_id c) then
        rbind (get_actor st aid) (\<lambda>a. Inr (cond_value c \<le> reputation a (the (cond_faction_id c))))
      else if cond_kind c = ''quest_status'' \<and> truthy (cond_quest_id c) then
        Inr (Some (qs_status (get_quest st (the (cond_quest_id c)))) = cond_quest_status c)
      else if cond_kind c = ''event'' \<and> truthy (cond_event_kind c) then
        Inr (list_ex (event_matches c) events)
      else if cond_kind c = ''time_window'' \<and> cond_start_minute c \<noteq> None \<and> cond_end_minute c \<noteq> None then
        Inr (window_contains (ws_minute_of_day st) (the (cond_start_minute c)) (the (cond_end_minute c)))
      else if cond_kind c = ''actor_at'' \<and> truthy (cond_map_id c) then
        rbind (get_actor st aid) (\<lambda>a.
          Inr (Some (as_map_id a) = cond_map_id c \<and> Some (as_x a) = cond_x c \<and> Some (as_y a) = cond_y c))
      else if cond_kind c = ''need_at_most'' \<and> truthy (cond_need_id c) then
        rbind (get_actor st aid) (\<lambda>a. Inr (actor_need a (the (cond_need_id c)) \<le> cond_value c))
      else if cond_kind c = ''stockpile_resource_at_least'' \<and> truthy (cond_stockpile_id c)
              \<and> truthy (cond_resource_id c) then
        rbind (get_stockpile st (the (cond_stockpile_id c))) (\<lambda>s.
          Inr (cond_value c \<le> stockpile_resource s (the (cond_resource_id c))))
      else if cond_kind c = ''construction_status'' \<and> truthy (cond_construction_id c) then
        (let statuses = cs_status ` set (filter (\<lambda>k. Some (cs_blueprint_id k) = cond_construction_id c)
                                          (ws_constructions st));
             requested = or_else (cond_construction_status c) ''absent''
         in Inr (requested = ''absent'' \<and> statuses = {} \<or> requested \<in> statuses))
      else if cond_kind c = ''scarcity_at_least'' \<and> truthy (cond_resource_id c) then
        rbind (scarcity_percent st pack (the (cond_resource_id c))) (\<lambda>p. Inr (cond_value c \<le> p))
      else Inr False)"

definition condition_met ::
  "world_state \<Rightarrow> condition_definition \<Rightarrow> string \<Rightarrow> domain_event list \<Rightarrow> world_pack \<Rightarrow> bool res" where
  "condition_met st c source events pack =
     rbind (condition_result st c source events pack) (\<lambda>result.
       Inr (if cond_negate c then \<not> result else result))"

definition conditions_met ::
  "world_state \<Rightarrow> condition_definition list \<Rightarrow> string \<Rightarrow> domain_event list \<Rightarrow> world_pack \<Rightarrow> bool res" where
  "conditions_met st conditions source events pack =
     allR (\<lambda>c. condition_met st c source events pack) conditions"

section \<open>Effects\<close>

text \<open>One turn of the loop in \<open>_apply_effects\<close>, on the state and the event list.\<close>

definition apply_effect ::
  "string \<Rightarrow> string \<Rightarrow> world_pack \<Rightarrow> world_state \<times> domain_event list \<Rightarrow> effect_definition \<Rightarrow>
   (world_state \<times> domain_event list) res" where
  "apply_effect source target pack se e =
     (case se of (st, events) \<Rightarrow>
      let aid = (if eff_target e = ''self'' then source else target) in
      if eff_kind e = ''set_flag'' \<and> truthy (eff_flag e) then
        (let f = the (eff_flag e) in
         Inr (st\<lparr>ws_flags := ws_flags st \<union> {f}\<rparr>, events @ [domain_event_of ''flag_changed'' source f]))
      else if eff_kind e = ''clear_flag'' \<and> truthy (eff_flag e) then
        (let f = the (eff_flag e) in
         Inr (st\<lparr>ws_flags := ws_flags st - {f}\<rparr>, events @ [domain_event_of ''flag_changed'' source f]))
      else if eff_kind e = ''change_resource'' \<and> truthy (eff_resource e) then
        (let r = the (eff_resource e) in
         rbind (get_actor st aid) (\<lambda>a.
           Inr (replace_actor st (actor_with_resource a r (actor_resource a r + eff_amount e)), events)))
      else if eff_kind e = ''learn_fact'' \<and> truthy (eff_fact_id e) \<and> truthy (eff_knowledge_status e) then
        (let f = the (eff_fact_id e) in
         rbind (dict_at (wp_actors pack) aid) (\<lambda>definition.
           if f \<in> set (ad_forbidden_fact_ids definition) then Inr (st, events)
           else rbind (get_actor st aid) (\<lambda>a.
             Inr (replace_actor st (with_knowledge a f (the (eff_knowledge_status e))),
                  events @ [domain_event_of ''fact_learned'' aid f]))))
      else if eff_kind e = ''change_relationship'' \<and> truthy (eff_target_actor_id e)
              \<and> truthy (eff_dimension e) then
        (let t = the (eff_target_actor_id e); d = the (eff_dimension e) in
         rbind (get_actor st aid) (\<lambda>a.
           Inr (replace_actor st (with_relationship a t d (relationship a t d + eff_amount e)),
                events @ [domain_event_of ''relationship_changed'' aid t])))
      else if eff_kind e = ''change_reputation'' \<and> truthy (eff_faction_id e) then
        (let f = the (eff_faction_id e) in
         rbind (get_actor st aid) (\<lambda>a.
           Inr (replace_actor st (with_reputation a f (reputation a f + eff_amount e)),
                events @ [domain_event_of ''reputation_changed'' aid f])))
      else if eff_kind e = ''change_stockpile_resource'' \<and> truthy (eff_stockpile_id e)
              \<and> truthy (eff_resource e) then
        (let sid = the (eff_stockpile_id e); r = the (eff_resource e) in
         rbind (get_stockpile st sid) (\<lambda>s.
         rbind (dict_at (wp_stockpiles pack) sid) (\<lambda>definition.
           let available = sd_capacity definition - (stockpile_total s - stockpile_resource s r);
               value = min (stockpile_resource s r + eff_amount e) available
           in Inr (replace_stockpile st (stockpile_with_resource s r value),
                   events @ [domain_event_of ''stockpile_changed'' source r]))))
      else if eff_kind e = ''change_need'' \<and> truthy (eff_need_id e) then
        (let n = the (eff_need_id e) in
         rbind (get_actor st aid) (\<lambda>a.
           Inr (replace_actor st (with_need a n (actor_need a n + eff_amount e)),
                events @ [domain_event_of ''need_changed'' aid n])))
      else Inr (st, events))"

definition apply_effects ::
  "world_state \<Rightarrow> effect_definition list \<Rightarrow> string \<Rightarrow> string \<Rightarrow> domain_event list \<Rightarrow> world_pack \<Rightarrow>
   (world_state \<times> domain_event list) res" where
  "apply_effects st effects source target events pack =
     foldR (apply_effect source target pack) (st, events) effects"

end
