(* ===== verification/Consequences.thy ===== *)
theory Consequences
  imports Rules
begin

text \<open>
  Delayed consequences: \<open>process_consequences\<close> of \<open>living_world.py\<close>. The function runs in
  three stages. (1) Every event, in order and including the events this stage itself appends,
  may schedule the consequences it triggers; (2) the pending list is sorted by due minute and
  ID; (3) each consequence that was due when the list was sorted is applied, removed, recorded
  as triggered when it fires once only, and announced through a recursive call on the
  announcement alone.

  The recursion is bounded by Python's stack; \<open>depth\<close> stands for the frames that are left,
  and running out is \<open>RecursionError\<close>. For packs that the loader accepts a depth above the
  number of due items is enough (\<open>process_consequences_enough_depth\<close>).
\<close>

section \<open>Scheduling\<close>

definition consequences_by_id :: "world_pack \<Rightarrow> consequence_definition list" where
  "consequences_by_id pack = sort_key csd_id (dict_values (wp_consequences pack))"

text \<open>
  One turn of the inner loop: \<open>event\<close> against \<open>definition\<close>, on the pending list and the
  events. A new consequence is appended to both.
\<close>

definition schedule_one ::
  "world_state \<Rightarrow> world_pack \<Rightarrow> string \<Rightarrow> domain_event \<Rightarrow>
   pending_consequence list \<times> domain_event list \<Rightarrow> consequence_definition \<Rightarrow>
   (pending_consequence list \<times> domain_event list) res" where
  "schedule_one st pack source event acc d =
     (case acc of (pending, events) \<Rightarrow>
      if csd_once d \<and> csd_id d \<in> ws_triggered_consequences st then Inr (pending, events)
      else if list_ex (\<lambda>p. pc_consequence_id p = csd_id d) pending then Inr (pending, events)
      else if ev_kind event \<noteq> csd_trigger_event d \<or>
              csd_subject_id d \<noteq> None \<and> ev_subject_id event \<noteq> csd_subject_id d
        then Inr (pending, events)
      else let aid = or_else (ev_actor_id event) source in
        rbind (conditions_met st (csd_conditions d) aid events pack) (\<lambda>met.
          if \<not> met then Inr (pending, events)
          else Inr (pending @ [\<lparr>pc_consequence_id = csd_id d,
                                pc_due_at_minute = absolute_minute st + csd_delay_minutes d,
                                pc_source_actor_id = aid\<rparr>],
                    events @ [domain_event_of ''consequence_scheduled'' aid (csd_id d)])))"

definition schedule_event ::
  "world_state \<Rightarrow> world_pack \<Rightarrow> string \<Rightarrow> pending_consequence list \<Rightarrow> domain_event list \<Rightarrow>
   domain_event \<Rightarrow> (pending_consequence list \<times> domain_event list) res" where
  "schedule_event st pack source pending events event =
     foldR (schedule_one st pack source event) (pending, events) (consequences_by_id pack)"

text \<open>
  The outer \<open>for event in mutable_events\<close> reads the list while it grows: \<open>i\<close> is the position
  of the iterator. Each appended event stands for a consequence that was not pending, so the
  loop stops; the measure counts the consequences that are not pending yet.
\<close>

definition unscheduled :: "world_pack \<Rightarrow> pending_consequence list \<Rightarrow> nat" where
  "unscheduled pack pending =
     card (csd_id ` set (consequences_by_id pack) - pc_consequence_id ` set pending)"

lemma schedule_one_grows:
  assumes "schedule_one st pack source event (pending, events) d = Inr (pending', events')"
  shows "pending' = pending \<and> events' = events \<or>
    csd_id d \<notin> pc_consequence_id ` set pending \<and>
    (\<exists>p ev. pending' = pending @ [p] \<and> pc_consequence_id p = csd_id d \<and> events' = events @ [ev])"
  using assms
  by (fastforce simp: schedule_one_def Let_def list_ex_iff split: if_splits)

lemma foldR_schedule_grows:
  assumes "foldR (schedule_one st pack source event) (pending, events) ds = Inr (pending', events')"
    and "set ds \<subseteq> D" and "finite D"
  shows "pending' = pending \<and> events' = events \<or>
    card (csd_id ` D - pc_consequence_id ` set pending') < card (csd_id ` D - pc_consequence_id ` set pending)"
  using assms
proof (induction ds arbitrary: pending events)
  case (Cons d ds)
  then obtain p1 e1 where one: "schedule_one st pack source event (pending, events) d = Inr (p1, e1)"
    and rest: "foldR (schedule_one st pack source event) (p1, e1) ds = Inr (pending', events')" by auto
  have later: "pending' = p1 \<and> events' = e1 \<or>
    card (csd_id ` D - pc_consequence_id ` set pending') < card (csd_id ` D - pc_consequence_id ` set p1)"
    using Cons.IH [OF rest] Cons.prems by simp
  from schedule_one_grows [OF one] show ?case
  proof
    assume "p1 = pending \<and> e1 = events"
    with later show ?thesis by simp
  next
    assume new: "csd_id d \<notin> pc_consequence_id ` set pending \<and>
      (\<exists>p ev. p1 = pending @ [p] \<and> pc_consequence_id p = csd_id d \<and> e1 = events @ [ev])"
    then have "csd_id ` D - pc_consequence_id ` set p1 =
        (csd_id ` D - pc_consequence_id ` set pending) - {csd_id d}" by auto
    moreover have "csd_id d \<in> csd_id ` D - pc_consequence_id ` set pending"
      using new Cons.prems(2) by auto
    ultimately have "card (csd_id ` D - pc_consequence_id ` set p1) <
        card (csd_id ` D - pc_consequence_id ` set pending)"
      using Cons.prems(3) by (metis card_Diff1_less finite_Diff finite_imageI)
    with later show ?thesis by auto
  qed
qed simp

lemma schedule_event_progress:
  assumes "schedule_event st pack source pending events event = Inr (pending', events')"
  shows "pending' = pending \<and> events' = events \<or> unscheduled pack pending' < unscheduled pack pending"
  using foldR_schedule_grows [of st pack source event pending events "consequences_by_id pack"]
    assms by (auto simp: schedule_event_def unscheduled_def)

function schedule_loop ::
  "world_state \<Rightarrow> world_pack \<Rightarrow> string \<Rightarrow> nat \<Rightarrow> pending_consequence list \<Rightarrow> domain_event list \<Rightarrow>
   (pending_consequence list \<times> domain_event list) res" where
  "schedule_loop st pack source i pending events =
     (if i < length events
      then rbind (schedule_event st pack source pending events (events ! i))
             (\<lambda>(pending', events'). schedule_loop st pack source (Suc i) pending' events')
      else Inr (pending, events))"
  by pat_completeness auto
termination
  by (relation "inv_image (less_than <*lex*> less_than)
      (\<lambda>(st, pack, source, i, pending, events). (unscheduled pack pending, length events - i))")
    (auto dest!: schedule_event_progress)

declare schedule_loop.simps [simp del]

section \<open>Applying what is due\<close>

definition pending_before :: "pending_consequence \<Rightarrow> int \<times> string" where
  "pending_before p = (pc_due_at_minute p, pc_consequence_id p)"

text \<open>
  The body of \<open>for pending_item in due\<close>, up to the recursive call: effects, removal of the
  item, the \<open>once\<close> record, and the announcement.
\<close>

definition resolve_item ::
  "world_pack \<Rightarrow> world_state \<times> domain_event list \<Rightarrow> pending_consequence \<Rightarrow>
   (world_state \<times> domain_event list \<times> domain_event) res" where
  "resolve_item pack acc item =
     (case acc of (st, events) \<Rightarrow>
      rbind (dict_at (wp_consequences pack) (pc_consequence_id item)) (\<lambda>d.
      rbind (apply_effects st (csd_effects d) (pc_source_actor_id item) (pc_source_actor_id item)
               events pack) (\<lambda>(st', events').
        let st'' = st'\<lparr>ws_pending_consequences :=
                         filter (\<lambda>p. p \<noteq> item) (ws_pending_consequences st'),
                       ws_triggered_consequences :=
                         (if csd_once d then ws_triggered_consequences st' \<union> {csd_id d}
                          else ws_triggered_consequences st')\<rparr>;
            resolved = domain_event_of ''consequence_resolved'' (pc_source_actor_id item) (csd_id d)
        in Inr (st'', events' @ [resolved], resolved))))"

definition extend_new :: "domain_event list \<Rightarrow> domain_event list \<Rightarrow> domain_event list" where
  "extend_new events new = foldl (\<lambda>acc e. if e \<in> set acc then acc else acc @ [e]) events new"

text \<open>
  \<open>mutable_events.extend(event for event in new if event not in mutable_events)\<close>: the
  generator tests against the list as it grows, so a repeated new event is added once.
\<close>

fun process_consequences ::
  "nat \<Rightarrow> world_state \<Rightarrow> world_pack \<Rightarrow> domain_event list \<Rightarrow> string \<Rightarrow> world_state res" where
  "process_consequences 0 st pack events source = Inl RecursionError"
| "process_consequences (Suc depth) st pack events source =
     rbind (schedule_loop st pack source 0 (ws_pending_consequences st) events)
       (\<lambda>(pending, mutable_events).
     let st1 = st\<lparr>ws_pending_consequences := sort_key pending_before pending\<rparr>;
         due = filter (\<lambda>p. pc_due_at_minute p \<le> absolute_minute st1) (ws_pending_consequences st1)
     in rbind (foldR (\<lambda>acc item.
            rbind (resolve_item pack acc item) (\<lambda>(st', events', resolved).
            rbind (process_consequences depth st' pack [resolved] (pc_source_actor_id item)) (\<lambda>st''.
              Inr (st'', extend_new events' (ws_recent_events st'')))))
          (st1, mutable_events) due)
       (\<lambda>(st2, events2). Inr (st2\<lparr>ws_recent_events := events2\<rparr>)))"

end
