(* ===== verification/Movement.thy ===== *)
theory Movement
  imports Consequences
begin

text \<open>
  The clock, schedules, route following and the direct actions of an actor: the operations of
  \<open>src/isoworld/world/state.py\<close> between \<open>_advance_clock\<close> and \<open>_use_ability\<close>. The key
  \<open>(distance, id)\<close> of Python's \<open>min\<close> is compared lexicographically, and \<open>min\<close> returns
  the first least element, as \<^const>\<open>arg_min_list\<close> does.
\<close>

section \<open>Clock\<close>

definition advance_clock :: "world_state \<Rightarrow> world_pack \<Rightarrow> world_state" where
  "advance_clock st pack =
     (let minute_tick = ws_minute_tick st + 1 in
      if ticks_per_minute (wp_clock pack) \<le> minute_tick then
        (let minute = ws_minute_of_day st + 1 in
         if 1440 \<le> minute
         then st\<lparr>ws_tick := ws_tick st + 1, ws_day := ws_day st + 1, ws_minute_of_day := 0,
                 ws_minute_tick := 0, ws_last_message := []\<rparr>
         else st\<lparr>ws_tick := ws_tick st + 1, ws_minute_of_day := minute,
                 ws_minute_tick := 0, ws_last_message := []\<rparr>)
      else st\<lparr>ws_tick := ws_tick st + 1, ws_minute_tick := minute_tick, ws_last_message := []\<rparr>)"

section \<open>Schedules\<close>

definition schedule_enabled :: "world_state \<Rightarrow> actor_state \<Rightarrow> world_pack \<Rightarrow> bool res" where
  "schedule_enabled st a pack =
     rbind (dict_at (wp_actors pack) (as_actor_id a)) (\<lambda>d.
       Inr (if as_active_goal_id a \<noteq> None then False
            else if ad_schedule_id d = None \<or> ad_schedule_mode d = ''never'' then False
            else if ad_schedule_mode d = ''when_inactive'' \<and> as_actor_id a = ws_active_actor_id st then False
            else True))"

definition actor_cell :: "actor_state \<Rightarrow> cell" where
  "actor_cell a = (as_x a, as_y a)"

definition loc_cell :: "location \<Rightarrow> cell" where
  "loc_cell l = (loc_x l, loc_y l)"

text \<open>The first destination with a route; \<open>break\<close> leaves the others untried.\<close>

fun first_route :: "world_pack \<Rightarrow> actor_state \<Rightarrow> cell set \<Rightarrow> location list \<Rightarrow> cell list res" where
  "first_route pack a blocked [] = Inr []"
| "first_route pack a blocked (l # ls) =
     rbind (find_path pack (as_map_id a) (actor_cell a) (loc_cell l) blocked) (\<lambda>route.
       if route \<noteq> [] then Inr route else first_route pack a blocked ls)"

definition plan_schedule :: "world_pack \<Rightarrow> world_state \<Rightarrow> string \<Rightarrow> world_state res" where
  "plan_schedule pack st aid =
     rbind (get_actor st aid) (\<lambda>a.
     if as_route a \<noteq> [] then Inr st
     else rbind (schedule_enabled st a pack) (\<lambda>enabled.
       if \<not> enabled then Inr st
       else rbind (dict_at (wp_actors pack) (as_actor_id a)) (\<lambda>d.
         case ad_schedule_id d of None \<Rightarrow> Inr st
         | Some schedule_id \<Rightarrow>
           rbind (dict_at (wp_schedules pack) schedule_id) (\<lambda>schedule.
             case entry_at schedule (ws_minute_of_day st) of None \<Rightarrow> Inr st
             | Some entry \<Rightarrow>
               let candidates = filter (\<lambda>l. loc_map_id l = as_map_id a) (se_destinations entry) in
               if list_ex (\<lambda>l. actor_cell a = loc_cell l) candidates then Inr st
               else rbind (dynamic_blocked_cells st pack (as_map_id a)) (\<lambda>dynamic.
                 rbind (first_route pack a (occupied st (as_map_id a) (as_actor_id a) \<union> dynamic) candidates)
                   (\<lambda>route. Inr (if route \<noteq> []
                     then replace_actor st (a\<lparr>as_route := route, as_blocked_ticks := 0\<rparr>)
                     else st)))))))"

definition plan_schedules :: "world_state \<Rightarrow> world_pack \<Rightarrow> world_state res" where
  "plan_schedules st pack =
     foldR (plan_schedule pack) st (map as_actor_id (sort_key as_actor_id (ws_actors st)))"

section \<open>Following routes\<close>

text \<open>
  \<open>current_occupancy\<close> is a dictionary comprehension: of two actors on a cell the later one
  owns it.
\<close>

definition occupancy :: "world_state \<Rightarrow> (string \<times> int \<times> int) \<Rightarrow> string option" where
  "occupancy st = map_of (rev (map (\<lambda>a. ((as_map_id a, as_x a, as_y a), as_actor_id a)) (ws_actors st)))"

definition route_step ::
  "world_state \<Rightarrow> world_pack \<Rightarrow> (string \<times> int \<times> int) set \<times> actor_state dict \<Rightarrow> actor_state \<Rightarrow>
   ((string \<times> int \<times> int) set \<times> actor_state dict) res" where
  "route_step st pack acc a =
     (case acc of (reservations, updates) \<Rightarrow>
      case as_route a of [] \<Rightarrow> Inr (reservations, updates)
      | (x, y) # rest \<Rightarrow>
        let key = (as_map_id a, x, y) in
        rbind (is_walkable st pack (as_map_id a) x y) (\<lambda>walkable.
          if walkable \<and> key \<notin> reservations \<and>
             (occupancy st key = None \<or> occupancy st key = Some (as_actor_id a))
          then Inr (insert key reservations,
                    AList.update (as_actor_id a)
                      (a\<lparr>as_x := x, as_y := y, as_route := rest, as_blocked_ticks := 0\<rparr>) updates)
          else let blocked_ticks = as_blocked_ticks a + 1 in
               Inr (reservations,
                    AList.update (as_actor_id a)
                      (a\<lparr>as_route := (if 3 \<le> blocked_ticks then [] else as_route a),
                         as_blocked_ticks := blocked_ticks\<rparr>) updates)))"

definition advance_routes :: "world_state \<Rightarrow> world_pack \<Rightarrow> world_state res" where
  "advance_routes st pack =
     (if movement_interval_ticks (wp_clock pack) = 0 then Inl ZeroDivisionError
      else if ws_tick st mod movement_interval_ticks (wp_clock pack) \<noteq> 0 then Inr st
      else rbind (foldR (route_step st pack) ({}, []) (sort_key as_actor_id (ws_actors st)))
        (\<lambda>(_, updates).
          if updates = [] then Inr st
          else Inr (st\<lparr>ws_actors :=
            map (\<lambda>a. case map_of updates (as_actor_id a) of None \<Rightarrow> a | Some u \<Rightarrow> u) (ws_actors st)\<rparr>)))"

section \<open>Direct actions\<close>

definition with_message :: "string \<Rightarrow> world_state \<Rightarrow> world_state" where
  "with_message m st = st\<lparr>ws_last_message := m\<rparr>"

definition action_actor :: "world_state \<Rightarrow> game_action \<Rightarrow> string" where
  "action_actor st act = or_else (ga_actor_id act) (ws_active_actor_id st)"

definition move :: "world_state \<Rightarrow> game_action \<Rightarrow> world_pack \<Rightarrow> world_state res" where
  "move st act pack =
     (let aid = action_actor st act in
      rbind (get_actor st aid) (\<lambda>a.
      let x = as_x a + ga_dx act; y = as_y a + ga_dy act in
      rbind (is_walkable st pack (as_map_id a) x y) (\<lambda>walkable.
      if \<not> walkable then Inr (with_message ''Movement blocked'' st)
      else if (x, y) \<in> occupied st (as_map_id a) aid then Inr (with_message ''Cell occupied'' st)
      else Inr ((replace_actor (with_message [] st)
                  (a\<lparr>as_x := x, as_y := y, as_route := [], as_blocked_ticks := 0\<rparr>))
                \<lparr>ws_recent_events := [domain_event_of ''location_entered'' aid (as_map_id a)]\<rparr>))))"

definition navigate :: "world_state \<Rightarrow> game_action \<Rightarrow> world_pack \<Rightarrow> world_state res" where
  "navigate st act pack =
     (let aid = action_actor st act in
      rbind (get_actor st aid) (\<lambda>a.
      case (ga_x act, ga_y act) of
        (Some x, Some y) \<Rightarrow>
          if ga_map_id act \<noteq> None \<and> ga_map_id act \<noteq> Some (as_map_id a)
          then Inr (with_message ''Invalid navigation target'' st)
          else rbind (dynamic_blocked_cells st pack (as_map_id a)) (\<lambda>dynamic.
            rbind (find_path pack (as_map_id a) (actor_cell a) (x, y)
                     (occupied st (as_map_id a) aid \<union> dynamic)) (\<lambda>route.
              if route = [] \<and> actor_cell a \<noteq> (x, y) then Inr (with_message ''No route'' st)
              else Inr (replace_actor
                     (with_message (if route \<noteq> [] then ''Route planned'' else ''Already there'') st)
                     (a\<lparr>as_route := route, as_blocked_ticks := 0\<rparr>))))
      | _ \<Rightarrow> Inr (with_message ''Invalid navigation target'' st)))"

definition manhattan :: "int \<Rightarrow> int \<Rightarrow> int \<Rightarrow> int \<Rightarrow> int" where
  "manhattan x1 y1 x2 y2 = \<bar>x1 - x2\<bar> + \<bar>y1 - y2\<bar>"

definition interaction_distance :: "actor_state \<Rightarrow> interaction_definition \<Rightarrow> int" where
  "interaction_distance a i =
     manhattan (loc_x (ind_location i)) (loc_y (ind_location i)) (as_x a) (as_y a)"

definition interaction_available :: "world_state \<Rightarrow> actor_state \<Rightarrow> interaction_definition \<Rightarrow> bool" where
  "interaction_available st a i \<longleftrightarrow>
     loc_map_id (ind_location i) = as_map_id a \<and>
     interaction_distance a i \<le> ind_range i \<and>
     ind_required_flags i \<subseteq> ws_flags st \<and>
     ind_forbidden_flags i \<inter> ws_flags st = {} \<and>
     (ind_repeatable i \<or> ind_id i \<notin> ws_completed_interactions st)"

definition interact :: "world_state \<Rightarrow> game_action \<Rightarrow> world_pack \<Rightarrow> world_state res" where
  "interact st act pack =
     (let aid = action_actor st act in
      rbind (get_actor st aid) (\<lambda>a.
      let available = filter (interaction_available st a) (dict_values (wp_interactions pack));
          candidates = (case ga_interaction_id act of None \<Rightarrow> available
                        | Some iid \<Rightarrow> filter (\<lambda>i. ind_id i = iid) available)
      in if candidates = [] then Inr (with_message ''Nothing to interact with'' st)
         else let i = arg_min_list (\<lambda>i. (interaction_distance a i, ind_id i)) candidates in
           rbind (apply_effects st (ind_effects i) aid aid
                    [domain_event_of ''interaction_completed'' aid (ind_id i)] pack)
             (\<lambda>(st', events).
               let st'' = (if ind_repeatable i then st'
                           else st'\<lparr>ws_completed_interactions :=
                                      ws_completed_interactions st' \<union> {ind_id i}\<rparr>)
               in Inr (st''\<lparr>ws_last_message := ind_prompt i, ws_recent_events := events\<rparr>))))"

definition pay_costs :: "actor_state \<Rightarrow> (string \<times> int) list \<Rightarrow> actor_state" where
  "pay_costs a costs =
     foldl (\<lambda>a (r, c). actor_with_resource a r (actor_resource a r - c)) a costs"

definition lacks_costs :: "actor_state \<Rightarrow> (string \<times> int) list \<Rightarrow> bool" where
  "lacks_costs a costs = list_ex (\<lambda>(r, c). actor_resource a r < c) costs"

definition chosen_ability :: "game_action \<Rightarrow> actor_definition \<Rightarrow> string option" where
  "chosen_ability act d =
     (if truthy (ga_ability_id act) then ga_ability_id act
      else case ad_ability_ids d of [] \<Rightarrow> None | x # _ \<Rightarrow> Some x)"

text \<open>
  The target of an ability: the actor itself, or for target \<open>actor\<close> the named one
  (\<open>Inl\<close> the message the code returns with).
\<close>

definition ability_target ::
  "world_state \<Rightarrow> game_action \<Rightarrow> actor_state \<Rightarrow> string \<Rightarrow> ability_definition \<Rightarrow> string + string" where
  "ability_target st act a aid ability =
     (if abd_target ability \<noteq> ''actor'' then Inr aid
      else let target_id = or_else (ga_target_actor_id act) [] in
        case get_actor st target_id of
          Inl _ \<Rightarrow> Inl ''Invalid ability target''
        | Inr target \<Rightarrow>
            if as_map_id target \<noteq> as_map_id a \<or>
               abd_range ability < manhattan (as_x target) (as_y target) (as_x a) (as_y a)
            then Inl ''Ability target is out of range''
            else Inr target_id)"

definition use_ability :: "world_state \<Rightarrow> game_action \<Rightarrow> world_pack \<Rightarrow> world_state res" where
  "use_ability st act pack =
     (let aid = action_actor st act in
      rbind (get_actor st aid) (\<lambda>a.
      rbind (dict_at (wp_actors pack) aid) (\<lambda>d.
      case chosen_ability act d of None \<Rightarrow> Inr (with_message ''Ability unavailable'' st)
      | Some ability_id \<Rightarrow>
        if ability_id \<notin> set (ad_ability_ids d) then Inr (with_message ''Ability unavailable'' st)
        else rbind (dict_at (wp_abilities pack) ability_id) (\<lambda>ability.
          if absolute_minute st < cooldown_until a ability_id
          then Inr (with_message ''Ability is cooling down'' st)
          else if lacks_costs a (abd_costs ability)
          then Inr (with_message ''Not enough resources'' st)
          else case ability_target st act a aid ability of
            Inl msg \<Rightarrow> Inr (with_message msg st)
          | Inr target_id \<Rightarrow>
            let updated = with_cooldown (pay_costs a (abd_costs ability)) ability_id
                            (absolute_minute st + abd_cooldown_minutes ability)
            in rbind (apply_effects (replace_actor st updated) (abd_effects ability) aid target_id
                        [domain_event_of ''ability_used'' aid ability_id] pack)
                 (\<lambda>(st', events).
                   Inr (st'\<lparr>ws_last_message := abd_display_name ability, ws_recent_events := events\<rparr>))))))"

end
