(* ===== verification/Decimal.thy ===== *)
theory Decimal
  imports Prelude
begin

text \<open>
  Decimal text of integers, as Python's \<open>str\<close> and f-strings write it, with a reader that
  inverts it. Instance IDs and daily scene occurrences are built from it.
\<close>

definition digit :: "nat \<Rightarrow> char" where
  "digit d = char_of (48 + d)"

fun nat_digits :: "nat \<Rightarrow> string" where
  "nat_digits n = (if n < 10 then [digit n] else nat_digits (n div 10) @ [digit (n mod 10)])"

declare nat_digits.simps [simp del]

definition dec :: "int \<Rightarrow> string" where
  "dec i = (if i < 0 then CHR ''-'' # nat_digits (nat (- i)) else nat_digits (nat i))"

text \<open>The same text computed on integers, for evaluation.\<close>

function int_digits :: "int \<Rightarrow> string" where
  "int_digits n = (if n < 10 then [char_of (48 + n)] else int_digits (n div 10) @ [char_of (48 + n mod 10)])"
  by pat_completeness auto
termination by (relation "measure nat") auto

declare int_digits.simps [simp del]

lemma digit_int: "0 \<le> n \<Longrightarrow> digit (nat n) = char_of (48 + n)"
  using char_of_nat [of "48 + nat n", where ?'a = int] by (simp add: digit_def)

lemma int_digits_eq: "0 \<le> n \<Longrightarrow> int_digits n = nat_digits (nat n)"
proof (induction n rule: int_digits.induct)
  case (1 n)
  then show ?case
    by (simp add: int_digits.simps [of n] nat_digits.simps [of "nat n"] nat_div_distrib nat_less_iff
        digit_int [symmetric] nat_mod_distrib)
qed

lemma dec_code [code]: "dec i = (if i < 0 then CHR ''-'' # int_digits (- i) else int_digits i)"
  by (simp add: dec_def int_digits_eq)

definition digit_value :: "char \<Rightarrow> nat" where
  "digit_value c = of_char c - 48"

definition read_nat :: "string \<Rightarrow> nat" where
  "read_nat s = foldl (\<lambda>n c. 10 * n + digit_value c) 0 s"

definition read_dec :: "string \<Rightarrow> int" where
  "read_dec s =
     (case s of [] \<Rightarrow> 0
      | c # cs \<Rightarrow> if c = CHR ''-'' then - int (read_nat cs) else int (read_nat s))"

definition is_digit :: "char \<Rightarrow> bool" where
  "is_digit c \<longleftrightarrow> (48::nat) \<le> of_char c \<and> of_char c < (58::nat)"

lemma of_char_digit: "d < 10 \<Longrightarrow> of_char (digit d) = 48 + d"
  by (simp add: digit_def)

lemma digit_value_digit [simp]: "d < 10 \<Longrightarrow> digit_value (digit d) = d"
  by (simp add: digit_value_def of_char_digit)

lemma is_digit_digit [simp]: "d < 10 \<Longrightarrow> is_digit (digit d)"
  by (simp add: is_digit_def of_char_digit)

lemma read_nat_digits: "read_nat (nat_digits n) = n"
proof (induction n rule: nat_digits.induct)
  case (1 n)
  show ?case
  proof (cases "n < 10")
    case True
    then show ?thesis by (simp add: nat_digits.simps [of n] read_nat_def)
  next
    case False
    with 1 have "read_nat (nat_digits (n div 10)) = n div 10" by simp
    with False show ?thesis by (subst nat_digits.simps) (simp add: read_nat_def)
  qed
qed

lemma nat_digits_are_digits: "list_all is_digit (nat_digits n)"
proof (induction n rule: nat_digits.induct)
  case (1 n)
  then show ?case by (subst nat_digits.simps) simp
qed

lemma nat_digits_not_Nil [simp]: "nat_digits n \<noteq> []"
  by (subst nat_digits.simps) simp

lemma hd_nat_digits: "hd (nat_digits n) \<noteq> CHR ''-''"
proof -
  have "is_digit (hd (nat_digits n))"
    using nat_digits_are_digits [of n] by (cases "nat_digits n") auto
  then show ?thesis by (auto simp: is_digit_def)
qed

lemma read_dec_dec [simp]: "read_dec (dec i) = i"
proof (cases "i < 0")
  case True
  then show ?thesis by (simp add: dec_def read_dec_def read_nat_digits)
next
  case False
  obtain c cs where s: "nat_digits (nat i) = c # cs"
    by (cases "nat_digits (nat i)") auto
  have "c \<noteq> CHR ''-''" using hd_nat_digits [of "nat i"] s by simp
  then have "read_dec (c # cs) = int (read_nat (c # cs))" by (simp add: read_dec_def)
  then show ?thesis using False s read_nat_digits [of "nat i"] by (simp add: dec_def)
qed

lemma dec_inject [simp]: "dec i = dec j \<longleftrightarrow> i = j"
  by (metis read_dec_dec)

lemma dec_chars: "c \<in> set (dec i) \<Longrightarrow> is_digit c \<or> c = CHR ''-''"
  using nat_digits_are_digits by (auto simp: dec_def list_all_iff split: if_splits)

end
