(* ===== verification/Economy.thy ===== *)
theory Economy
  imports Movement Decimal
begin

text \<open>
  Construction, production and resource transfer: the operations of
  \<open>src/isoworld/world/living_world.py\<close> from \<open>_adjacent\<close> to \<open>transfer_resource\<close>. \<open>depth\<close> is the
  number of stack frames left to \<open>process_consequences\<close>. A Python set of cells is walked in the
  order of the blueprint's footprint here; the order only decides which lookup raises first.
\<close>

section \<open>Sites and reservations\<close>

definition adjacent :: "actor_state \<Rightarrow> location \<Rightarrow> bool" where
  "adjacent a l \<longleftrightarrow> as_map_id a = loc_map_id l \<and> manhattan (as_x a) (as_y a) (loc_x l) (loc_y l) \<le> 1"

definition instance_id :: "string \<Rightarrow> string \<Rightarrow> int \<Rightarrow> int \<Rightarrow> string" where
  "instance_id bid mid x y = bid @ ''__'' @ mid @ ''__'' @ dec x @ ''_'' @ dec y"

definition total_units :: "(string \<times> int) list \<Rightarrow> int" where
  "total_units rs = sum_list (map snd rs)"

definition reserved_output_units :: "world_state \<Rightarrow> world_pack \<Rightarrow> string \<Rightarrow> int res" where
  "reserved_output_units st pack sid =
     (let constructions = dict_of (map (\<lambda>c. (cs_instance_id c, c)) (ws_constructions st)) in
      foldR (\<lambda>total job.
        case map_of constructions (pj_construction_instance_id job) of None \<Rightarrow> Inr total
        | Some c \<Rightarrow>
          rbind (dict_at (wp_constructions pack) (cs_blueprint_id c)) (\<lambda>blueprint.
            if cd_stockpile_id blueprint = Some sid
            then rbind (dict_at (wp_production_recipes pack) (pj_recipe_id job)) (\<lambda>recipe.
                   Inr (total + total_units (prd_outputs recipe)))
            else Inr total))
        0 (ws_production_jobs st))"

section \<open>Construction\<close>

definition build :: "nat \<Rightarrow> world_state \<Rightarrow> game_action \<Rightarrow> world_pack \<Rightarrow> world_state res" where
  "build depth st act pack =
     (let aid = action_actor st act in
      rbind (get_actor st aid) (\<lambda>a.
      let mid = or_else (ga_map_id act) (as_map_id a) in
      case (map_of (wp_constructions pack) (or_else (ga_blueprint_id act) []), ga_x act, ga_y act) of
        (Some blueprint, Some x, Some y) \<Rightarrow>
          if mid \<noteq> as_map_id a then Inr (with_message ''Invalid construction request'' st)
          else if \<not> adjacent a \<lparr>loc_map_id = mid, loc_x = x, loc_y = y\<rparr>
          then Inr (with_message ''Construction site is out of range'' st)
          else
            let cells = map (\<lambda>(dx, dy). (x + dx, y + dy)) (cd_footprint blueprint) in
            rbind (anyR (\<lambda>(cx, cy). rbind (pack_is_walkable pack mid cx cy) (\<lambda>b. Inr (\<not> b))) cells)
              (\<lambda>unwalkable.
            rbind (if unwalkable then Inr True
                   else rbind (construction_cells st pack mid False) (\<lambda>built.
                     Inr (set cells \<inter> built \<noteq> {} \<or>
                          list_ex (\<lambda>other. as_map_id other = mid \<and> actor_cell other \<in> set cells)
                            (ws_actors st)))) (\<lambda>blocked.
            if blocked then Inr (with_message ''Construction site is blocked'' st)
            else if lacks_costs a (cd_costs blueprint)
            then Inr (with_message ''Not enough construction resources'' st)
            else
              let result = replace_actor st (pay_costs a (cd_costs blueprint));
                  inst = \<lparr>cs_instance_id = instance_id (cd_id blueprint) mid x y,
                              cs_blueprint_id = cd_id blueprint, cs_map_id = mid,
                              cs_x = x, cs_y = y, cs_builder_actor_id = aid,
                              cs_status = ''building'',
                              cs_complete_at_minute = absolute_minute st + cd_build_minutes blueprint\<rparr>;
                  events = [domain_event_of ''construction_started'' aid (cd_id blueprint)]
              in process_consequences depth
                   (result\<lparr>ws_constructions := sort_key cs_instance_id (ws_constructions result @ [inst]),
                           ws_recent_events := events,
                           ws_last_message := ''Construction started: '' @ cd_display_name blueprint\<rparr>)
                   pack events aid))
      | _ \<Rightarrow> Inr (with_message ''Invalid construction request'' st)))"

section \<open>Production\<close>

definition production_unavailable ::
  "world_state \<Rightarrow> production_recipe_definition option \<Rightarrow> construction_state option \<Rightarrow> bool" where
  "production_unavailable st recipe construction =
     (case (recipe, construction) of
        (Some r, Some c) \<Rightarrow>
          cs_status c \<noteq> ''completed'' \<or>
          prd_required_construction_id r \<noteq> cs_blueprint_id c \<or>
          list_ex (\<lambda>job. pj_construction_instance_id job = cs_instance_id c) (ws_production_jobs st)
      | _ \<Rightarrow> True)"

definition lacks_stock :: "stockpile_state \<Rightarrow> (string \<times> int) list \<Rightarrow> bool" where
  "lacks_stock s rs = list_ex (\<lambda>(r, n). stockpile_resource s r < n) rs"

definition take_stock :: "stockpile_state \<Rightarrow> (string \<times> int) list \<Rightarrow> stockpile_state" where
  "take_stock s rs = foldl (\<lambda>s (r, n). stockpile_with_resource s r (stockpile_resource s r - n)) s rs"

definition start_production ::
  "nat \<Rightarrow> world_state \<Rightarrow> game_action \<Rightarrow> world_pack \<Rightarrow> world_state res" where
  "start_production depth st act pack =
     (let aid = action_actor st act in
      rbind (get_actor st aid) (\<lambda>a.
      let recipe_opt = map_of (wp_production_recipes pack) (or_else (ga_recipe_id act) []);
          construction_opt =
            find (\<lambda>c. Some (cs_instance_id c) = ga_construction_instance_id act) (ws_constructions st)
      in if production_unavailable st recipe_opt construction_opt
         then Inr (with_message ''Production unavailable'' st)
         else
           let recipe = the recipe_opt; construction = the construction_opt in
           if as_map_id a \<noteq> cs_map_id construction \<or>
              1 < manhattan (as_x a) (as_y a) (cs_x construction) (cs_y construction)
           then Inr (with_message ''Production site is out of range'' st)
           else rbind (dict_at (wp_constructions pack) (cs_blueprint_id construction)) (\<lambda>blueprint.
             case cd_stockpile_id blueprint of
               None \<Rightarrow> Inr (with_message ''Production has no stockpile'' st)
             | Some sid \<Rightarrow>
               rbind (get_stockpile st sid) (\<lambda>s.
               if lacks_stock s (prd_inputs recipe)
               then Inr (with_message ''Production inputs are missing'' st)
               else rbind (reserved_output_units st pack sid) (\<lambda>reserved.
                 let future_total = stockpile_total s - total_units (prd_inputs recipe) + reserved
                                    + total_units (prd_outputs recipe)
                 in rbind (dict_at (wp_stockpiles pack) sid) (\<lambda>definition.
                 if sd_capacity definition < future_total
                 then Inr (with_message ''Stockpile lacks output capacity'' st)
                 else
                   let result = replace_stockpile st (take_stock s (prd_inputs recipe));
                       job = \<lparr>pj_construction_instance_id = cs_instance_id construction,
                              pj_recipe_id = prd_id recipe, pj_actor_id = aid,
                              pj_complete_at_minute = absolute_minute st + prd_duration_minutes recipe\<rparr>;
                       events = [domain_event_of ''production_started'' aid (prd_id recipe)]
                   in process_consequences depth
                        (result\<lparr>ws_production_jobs :=
                                  sort_key pj_construction_instance_id (ws_production_jobs result @ [job]),
                                ws_recent_events := events,
                                ws_last_message := ''Production started: '' @ prd_display_name recipe\<rparr>)
                        pack events aid))))))"

section \<open>Transfer\<close>

text \<open>The request the code rejects at once, and otherwise the stockpile it names.\<close>

definition transfer_stockpile ::
  "actor_state \<Rightarrow> game_action \<Rightarrow> world_pack \<Rightarrow> stockpile_definition option" where
  "transfer_stockpile a act pack =
     (case map_of (wp_stockpiles pack) (or_else (ga_stockpile_id act) []) of
        None \<Rightarrow> None
      | Some d \<Rightarrow>
          if (case ga_resource_id act of None \<Rightarrow> True | Some r \<Rightarrow> \<not> dict_mem r (wp_resources pack)) \<or>
             ga_amount act \<le> 0 \<or>
             ga_direction act \<notin> {Some ''deposit'', Some ''withdraw''} \<or>
             \<not> adjacent a (sd_location d)
          then None else Some d)"

definition transfer_resource ::
  "nat \<Rightarrow> world_state \<Rightarrow> game_action \<Rightarrow> world_pack \<Rightarrow> world_state res" where
  "transfer_resource depth st act pack =
     (let aid = action_actor st act in
      rbind (get_actor st aid) (\<lambda>a.
      case transfer_stockpile a act pack of
        None \<Rightarrow> Inr (with_message ''Invalid resource transfer'' st)
      | Some d \<Rightarrow>
        let r = the (ga_resource_id act); amount = ga_amount act;
            finish = (\<lambda>a' s'.
              let events = [domain_event_of ''resource_transferred'' aid r] in
              process_consequences depth
                ((replace_actor (replace_stockpile st s') a')
                   \<lparr>ws_recent_events := events, ws_last_message := ''Resource transferred''\<rparr>)
                pack events aid)
        in rbind (get_stockpile st (sd_id d)) (\<lambda>s.
        if ga_direction act = Some ''deposit'' then
          if actor_resource a r < amount then Inr (with_message ''Actor lacks that resource'' st)
          else rbind (reserved_output_units st pack (sd_id d)) (\<lambda>reserved.
            if sd_capacity d < stockpile_total s + reserved + amount
            then Inr (with_message ''Stockpile is full'' st)
            else finish (actor_with_resource a r (actor_resource a r - amount))
                        (stockpile_with_resource s r (stockpile_resource s r + amount)))
        else if stockpile_resource s r < amount
        then Inr (with_message ''Stockpile lacks that resource'' st)
        else finish (actor_with_resource a r (actor_resource a r + amount))
                    (stockpile_with_resource s r (stockpile_resource s r - amount)))))"

end
