(* ===== verification/LivingWorld.thy ===== *)
theory LivingWorld
  imports Economy
begin

text \<open>
  The minute pulse of \<open>src/isoworld/world/living_world.py\<close>: need decay, completion of
  constructions and of production jobs, delayed consequences, and the goal planner.
  \<open>events\<close> is the list the code mutates; \<open>plan_goals\<close> leaves it in \<open>recent_events\<close>.

  The goal planner walks a stack whose top is the head of the list, and follows parent links;
  both loops run forever on a cyclic goal table, so they take fuel and return \<open>Diverges\<close>
  without it. The fuel of \<open>goal_chain\<close> and \<open>goal_candidates\<close> is enough for the goal tables
  that the loader accepts.
\<close>

section \<open>Needs, constructions and jobs over time\<close>

definition decay_need ::
  "world_state \<Rightarrow> world_pack \<Rightarrow> actor_state \<times> domain_event list \<Rightarrow> string \<Rightarrow>
   (actor_state \<times> domain_event list) res" where
  "decay_need st pack ae nid =
     (case ae of (a, events) \<Rightarrow>
      rbind (dict_at (wp_needs pack) nid) (\<lambda>need.
        if nd_decay_interval_minutes need = 0 then Inl ZeroDivisionError
        else if absolute_minute st mod nd_decay_interval_minutes need = 0
        then Inr (with_need a nid (actor_need a nid - nd_decay_amount need),
                  events @ [domain_event_of ''need_changed'' (as_actor_id a) nid])
        else Inr (a, events)))"

definition decay_actor ::
  "world_state \<Rightarrow> world_pack \<Rightarrow> actor_state list \<times> domain_event list \<Rightarrow> actor_state \<Rightarrow>
   (actor_state list \<times> domain_event list) res" where
  "decay_actor st pack acc a =
     (case acc of (actors, events) \<Rightarrow>
      rbind (dict_at (wp_actors pack) (as_actor_id a)) (\<lambda>d.
      rbind (foldR (decay_need st pack) (a, events) (map fst (ad_needs d))) (\<lambda>(a', events').
        Inr (actors @ [a'], events'))))"

definition finished :: "world_state \<Rightarrow> construction_state \<Rightarrow> bool" where
  "finished st c \<longleftrightarrow> cs_status c = ''building'' \<and> cs_complete_at_minute c \<le> absolute_minute st"

definition complete_constructions ::
  "world_state \<Rightarrow> domain_event list \<Rightarrow> world_state \<times> domain_event list" where
  "complete_constructions st events =
     (st\<lparr>ws_constructions :=
           map (\<lambda>c. if finished st c then c\<lparr>cs_status := ''completed''\<rparr> else c) (ws_constructions st)\<rparr>,
      events @ map (\<lambda>c. domain_event_of ''construction_completed'' (cs_builder_actor_id c)
                          (cs_blueprint_id c))
                 (filter (finished st) (ws_constructions st)))"

definition store_output ::
  "world_pack \<Rightarrow> string \<Rightarrow> stockpile_state \<Rightarrow> string \<times> int \<Rightarrow> stockpile_state res" where
  "store_output pack sid s out =
     (case out of (r, amount) \<Rightarrow>
      rbind (dict_at (wp_stockpiles pack) sid) (\<lambda>d.
        Inr (stockpile_with_resource s r
               (stockpile_resource s r + min amount (sd_capacity d - stockpile_total s)))))"

text \<open>The loop over \<open>result.production_jobs\<close>: state, jobs that remain, events.\<close>

definition finish_job ::
  "world_pack \<Rightarrow> world_state \<times> production_job list \<times> domain_event list \<Rightarrow> production_job \<Rightarrow>
   (world_state \<times> production_job list \<times> domain_event list) res" where
  "finish_job pack acc job =
     (case acc of (st, remaining, events) \<Rightarrow>
      if absolute_minute st < pj_complete_at_minute job then Inr (st, remaining @ [job], events)
      else
        rbind (dict_at (wp_production_recipes pack) (pj_recipe_id job)) (\<lambda>recipe.
        rbind (of_option StopIteration
                 (find (\<lambda>c. cs_instance_id c = pj_construction_instance_id job) (ws_constructions st)))
          (\<lambda>construction.
        rbind (dict_at (wp_constructions pack) (cs_blueprint_id construction)) (\<lambda>blueprint.
        case cd_stockpile_id blueprint of None \<Rightarrow> Inr (st, remaining, events)
        | Some sid \<Rightarrow>
          rbind (get_stockpile st sid) (\<lambda>s.
          rbind (foldR (store_output pack sid) s (prd_outputs recipe)) (\<lambda>s'.
            Inr (replace_stockpile st s', remaining,
                 events @ [domain_event_of ''production_completed'' (pj_actor_id job) (prd_id recipe)])))))))"

section \<open>Goals\<close>

text \<open>\<open>goal_chain\<close>: the goal and its ancestors, root first.\<close>

fun ancestors :: "nat \<Rightarrow> goal_definition \<Rightarrow> world_pack \<Rightarrow> goal_definition list res" where
  "ancestors 0 g pack = Inl Diverges"
| "ancestors (Suc n) g pack =
     (case gd_parent_id g of None \<Rightarrow> Inr [g]
      | Some p \<Rightarrow> rbind (dict_at (wp_goals pack) p) (\<lambda>parent.
          rbind (ancestors n parent pack) (\<lambda>gs. Inr (g # gs))))"

definition goal_chain :: "goal_definition \<Rightarrow> world_pack \<Rightarrow> goal_definition list res" where
  "goal_chain g pack =
     rbind (ancestors (Suc (length (wp_goals pack))) g pack) (\<lambda>gs. Inr (rev gs))"

definition adjacent_candidates :: "actor_state \<Rightarrow> location \<Rightarrow> cell list" where
  "adjacent_candidates a l =
     sort_key (\<lambda>(x, y). (manhattan x y (as_x a) (as_y a), y, x))
       (map (\<lambda>(dx, dy). (loc_x l + dx, loc_y l + dy)) [(0, -1), (-1, 0), (1, 0), (0, 1)])"

fun first_adjacent_route ::
  "world_pack \<Rightarrow> actor_state \<Rightarrow> cell set \<Rightarrow> cell list \<Rightarrow> cell list res" where
  "first_adjacent_route pack a blocked [] = Inr []"
| "first_adjacent_route pack a blocked (c # cs) =
     rbind (if c \<in> blocked then Inr False else pack_is_walkable pack (as_map_id a) (fst c) (snd c))
       (\<lambda>open.
       if \<not> open then first_adjacent_route pack a blocked cs
       else rbind (find_path pack (as_map_id a) (actor_cell a) c blocked) (\<lambda>route.
         if route \<noteq> [] \<or> c = actor_cell a then Inr route
         else first_adjacent_route pack a blocked cs))"

definition route_to_adjacent ::
  "world_state \<Rightarrow> world_pack \<Rightarrow> actor_state \<Rightarrow> location \<Rightarrow> cell list res" where
  "route_to_adjacent st pack a l =
     (if as_map_id a \<noteq> loc_map_id l then Inr []
      else rbind (dynamic_blocked_cells st pack (as_map_id a)) (\<lambda>dynamic.
        first_adjacent_route pack a (occupied st (as_map_id a) (as_actor_id a) \<union> dynamic)
          (adjacent_candidates a l)))"

definition follow_route :: "world_state \<Rightarrow> actor_state \<Rightarrow> cell list \<Rightarrow> world_state" where
  "follow_route st a route = replace_actor st (a\<lparr>as_route := route, as_blocked_ticks := 0\<rparr>)"

definition go_adjacent :: "world_state \<Rightarrow> world_pack \<Rightarrow> actor_state \<Rightarrow> location \<Rightarrow> world_state res" where
  "go_adjacent st pack a l =
     rbind (route_to_adjacent st pack a l) (\<lambda>route. Inr (follow_route st a route))"

definition goal_reached :: "actor_state \<Rightarrow> actor_state" where
  "goal_reached a = a\<lparr>as_active_goal_id := None, as_route := []\<rparr>"

definition append_event :: "world_state \<Rightarrow> domain_event \<Rightarrow> world_state" where
  "append_event st ev = st\<lparr>ws_recent_events := ws_recent_events st @ [ev]\<rparr>"

text \<open>The four kinds of goal action, as the branches of \<open>_execute_goal\<close>.\<close>

definition satisfy_need ::
  "world_state \<Rightarrow> actor_state \<Rightarrow> string \<Rightarrow> goal_action_definition \<Rightarrow> world_pack \<Rightarrow> world_state res" where
  "satisfy_need st a nid g pack =
     rbind (dict_at (wp_needs pack) nid) (\<lambda>need.
     let r = nd_resource_id need; satisfied = domain_event_of ''need_satisfied'' (as_actor_id a) nid in
     if nd_consume_amount need \<le> actor_resource a r then
       (let a' = with_need (actor_with_resource a r (actor_resource a r - nd_consume_amount need))
                   nid (actor_need a nid + nd_restore_amount need)
        in Inr (append_event (replace_actor st (goal_reached a')) satisfied))
     else case map_of (wp_stockpiles pack) (or_else (gad_stockpile_id g) []) of None \<Rightarrow> Inr st
     | Some d \<Rightarrow>
       if adjacent a (sd_location d) then
         rbind (get_stockpile st (sd_id d)) (\<lambda>s.
         if stockpile_resource s r < nd_consume_amount need then Inr st
         else
           let s' = stockpile_with_resource s r (stockpile_resource s r - nd_consume_amount need);
               a' = with_need a nid (actor_need a nid + nd_restore_amount need)
           in Inr (append_event (replace_actor (replace_stockpile st s') (goal_reached a')) satisfied))
       else go_adjacent st pack a (sd_location d))"

definition produce ::
  "nat \<Rightarrow> world_state \<Rightarrow> actor_state \<Rightarrow> string \<Rightarrow> world_pack \<Rightarrow> world_state res" where
  "produce depth st a rid pack =
     rbind (dict_at (wp_production_recipes pack) rid) (\<lambda>recipe.
     case sort_key cs_instance_id
            (filter (\<lambda>c. cs_blueprint_id c = prd_required_construction_id recipe \<and>
                         cs_status c = ''completed'') (ws_constructions st)) of
       [] \<Rightarrow> Inr st
     | site # _ \<Rightarrow>
       if as_map_id a = cs_map_id site \<and> manhattan (as_x a) (as_y a) (cs_x site) (cs_y site) \<le> 1
       then start_production depth st
              ((game_action_of ''start_production'')
                 \<lparr>ga_actor_id := Some (as_actor_id a),
                  ga_construction_instance_id := Some (cs_instance_id site),
                  ga_recipe_id := Some (prd_id recipe)\<rparr>) pack
       else go_adjacent st pack a \<lparr>loc_map_id = cs_map_id site, loc_x = cs_x site, loc_y = cs_y site\<rparr>)"

definition build_at ::
  "nat \<Rightarrow> world_state \<Rightarrow> actor_state \<Rightarrow> string \<Rightarrow> location \<Rightarrow> world_pack \<Rightarrow> world_state res" where
  "build_at depth st a bid l pack =
     (if list_ex (\<lambda>c. cs_blueprint_id c = bid \<and> cs_map_id c = loc_map_id l \<and>
                      cs_x c = loc_x l \<and> cs_y c = loc_y l) (ws_constructions st)
      then Inr (replace_actor st (goal_reached a))
      else if adjacent a l
      then build depth st
             ((game_action_of ''build'')
                \<lparr>ga_actor_id := Some (as_actor_id a), ga_blueprint_id := Some bid,
                 ga_map_id := Some (loc_map_id l), ga_x := Some (loc_x l), ga_y := Some (loc_y l)\<rparr>) pack
      else go_adjacent st pack a l)"

definition travel :: "world_state \<Rightarrow> actor_state \<Rightarrow> location \<Rightarrow> world_pack \<Rightarrow> world_state res" where
  "travel st a l pack =
     (if as_map_id a \<noteq> loc_map_id l then Inr st
      else rbind (dynamic_blocked_cells st pack (as_map_id a)) (\<lambda>dynamic.
        rbind (find_path pack (as_map_id a) (actor_cell a) (loc_cell l)
                 (dynamic \<union> occupied st (as_map_id a) (as_actor_id a))) (\<lambda>route.
          Inr (follow_route st a route))))"

definition execute_goal ::
  "nat \<Rightarrow> world_state \<Rightarrow> actor_state \<Rightarrow> goal_definition \<Rightarrow> world_pack \<Rightarrow> world_state res" where
  "execute_goal depth st a goal pack =
     (case gd_action goal of None \<Rightarrow> Inr st
      | Some g \<Rightarrow>
        if gad_kind g = ''satisfy_need'' \<and> truthy (gad_need_id g)
        then satisfy_need st a (the (gad_need_id g)) g pack
        else if gad_kind g = ''produce'' \<and> truthy (gad_recipe_id g)
        then produce depth st a (the (gad_recipe_id g)) pack
        else if gad_kind g = ''build'' \<and> truthy (gad_blueprint_id g) \<and> gad_location g \<noteq> None
        then build_at depth st a (the (gad_blueprint_id g)) (the (gad_location g)) pack
        else if gad_kind g = ''travel'' \<and> gad_location g \<noteq> None
        then travel st a (the (gad_location g)) pack
        else Inr st)"

section \<open>The planner\<close>

text \<open>
  \<open>children.get(id)\<close> in the order in which they are popped: the code pushes them sorted by ID
  in reverse (\<open>sorted(reverse=True)\<close> keeps the order of equal keys).
\<close>

definition goal_children :: "world_pack \<Rightarrow> string \<Rightarrow> goal_definition list" where
  "goal_children pack gid =
     sort_key gd_id (rev (filter (\<lambda>g. gd_parent_id g = Some gid) (dict_values (wp_goals pack))))"

type_synonym goal_candidate = "nat \<times> goal_definition"

fun collect_goals ::
  "nat \<Rightarrow> world_state \<Rightarrow> world_pack \<Rightarrow> string \<Rightarrow> domain_event list \<Rightarrow> (string \<times> nat) list \<Rightarrow>
   goal_candidate list \<Rightarrow> goal_candidate list res" where
  "collect_goals fuel st pack aid events [] found = Inr found"
| "collect_goals 0 st pack aid events (s # stack) found = Inl Diverges"
| "collect_goals (Suc fuel) st pack aid events ((gid, level) # stack) found =
     rbind (dict_at (wp_goals pack) gid) (\<lambda>goal.
     rbind (goal_chain goal pack) (\<lambda>chain.
     rbind (allR (\<lambda>g. conditions_met st (gd_conditions g) aid events pack) chain) (\<lambda>met.
       if met then
         collect_goals fuel st pack aid events
           (map (\<lambda>c. (gd_id c, Suc level)) (goal_children pack (gd_id goal)) @ stack)
           (if gd_action goal \<noteq> None then found @ [(level, goal)] else found)
       else collect_goals fuel st pack aid events stack found)))"

definition goal_candidates ::
  "world_state \<Rightarrow> world_pack \<Rightarrow> actor_definition \<Rightarrow> domain_event list \<Rightarrow> goal_candidate list res" where
  "goal_candidates st pack d events =
     collect_goals (length (ad_goal_ids d) * Suc (length (wp_goals pack))) st pack (ad_id d) events
       (map (\<lambda>gid. (gid, 0)) (ad_goal_ids d)) []"

definition goal_rank :: "goal_candidate \<Rightarrow> int \<times> int \<times> string" where
  "goal_rank c = (- gd_priority (snd c), - int (fst c), gd_id (snd c))"

definition plan_actor_goal ::
  "nat \<Rightarrow> world_pack \<Rightarrow> world_state \<times> domain_event list \<Rightarrow> actor_definition \<Rightarrow>
   (world_state \<times> domain_event list) res" where
  "plan_actor_goal depth pack acc d =
     (case acc of (st, events) \<Rightarrow>
      rbind (get_actor st (ad_id d)) (\<lambda>a.
      rbind (goal_candidates st pack d events) (\<lambda>candidates.
        if candidates = [] then
          Inr (if as_active_goal_id a \<noteq> None then replace_actor st (goal_reached a) else st, events)
        else
          let goal = snd (arg_min_list goal_rank candidates);
              a' = a\<lparr>as_active_goal_id := Some (gd_id goal)\<rparr>
          in rbind (execute_goal depth (replace_actor st a') a' goal pack) (\<lambda>st'.
               Inr (st', extend_new events (ws_recent_events st'))))))"

definition plan_goals ::
  "nat \<Rightarrow> world_state \<Rightarrow> world_pack \<Rightarrow> domain_event list \<Rightarrow> world_state res" where
  "plan_goals depth st pack events =
     rbind (foldR (plan_actor_goal depth pack) (st, events)
              (sort_key ad_id (dict_values (wp_actors pack))))
       (\<lambda>(st', events'). Inr (st'\<lparr>ws_recent_events := events'\<rparr>))"

section \<open>The pulse\<close>

definition advance_living_world ::
  "nat \<Rightarrow> world_state \<Rightarrow> world_pack \<Rightarrow> domain_event list \<Rightarrow> world_state res" where
  "advance_living_world depth st pack events =
     rbind (foldR (decay_actor st pack) ([], events) (ws_actors st)) (\<lambda>(actors, events1).
     let (st1, events2) = complete_constructions (st\<lparr>ws_actors := actors\<rparr>) events1 in
     rbind (foldR (finish_job pack) (st1, [], events2) (ws_production_jobs st1))
       (\<lambda>(st2, remaining, events3).
     rbind (process_consequences depth (st2\<lparr>ws_production_jobs := remaining\<rparr>) pack events3
              (ws_active_actor_id st)) (\<lambda>st3.
       plan_goals depth st3 pack (ws_recent_events st3))))"

end
