(* ===== verification/Narrative.thy ===== *)
theory Narrative
  imports LivingWorld
begin

text \<open>
  Quests, scenes and dialogues: \<open>src/isoworld/world/narrative.py\<close> after \<open>conditions_met\<close>.
  The event list that \<open>_process_quests\<close> and \<open>_trigger_scene\<close> mutate is passed in and returned
  with the state. The loop over the stages of a quest stops by its \<open>visited\<close> set, which is its
  termination measure here; the settling loops are bounded by \<open>transition_limit\<close>.
\<close>

section \<open>Dialogue choices\<close>

definition replace_quest :: "world_state \<Rightarrow> quest_state \<Rightarrow> world_state" where
  "replace_quest st q =
     st\<lparr>ws_quests := map (\<lambda>i. if qs_quest_id i = qs_quest_id q then q else i) (ws_quests st)\<rparr>"

definition node_accessible :: "world_state \<Rightarrow> world_pack \<Rightarrow> dialogue_node_definition \<Rightarrow> bool res" where
  "node_accessible st pack node =
     rbind (get_actor st (dnd_speaker_id node)) (\<lambda>speaker.
     rbind (dict_at (wp_actors pack) (dnd_speaker_id node)) (\<lambda>d.
       Inr (list_all (\<lambda>f. f \<notin> set (ad_forbidden_fact_ids d) \<and> knowledge_status speaker f \<noteq> ''unknown'')
              (dnd_fact_refs node))))"

definition choice_available ::
  "world_state \<Rightarrow> world_pack \<Rightarrow> dialogue_state \<Rightarrow> dialogue_definition \<Rightarrow> dialogue_choice_definition \<Rightarrow>
   bool res" where
  "choice_available st pack ds dialogue choice =
     rbind (conditions_met st (dcd_conditions choice) (ds_initiator_actor_id ds) (ws_recent_events st) pack)
       (\<lambda>met. if \<not> met then Inr False
         else case dcd_next_node_id choice of None \<Rightarrow> Inr True
         | Some n \<Rightarrow> rbind (dict_at (dd_nodes dialogue) n) (node_accessible st pack))"

definition available_dialogue_choices ::
  "world_state \<Rightarrow> world_pack \<Rightarrow> dialogue_choice_definition list res" where
  "available_dialogue_choices st pack =
     (case ws_dialogue st of None \<Rightarrow> Inr []
      | Some ds \<Rightarrow>
        rbind (dict_at (wp_dialogues pack) (ds_dialogue_id ds)) (\<lambda>dialogue.
        rbind (dict_at (dd_nodes dialogue) (ds_node_id ds)) (\<lambda>node.
          filterR (choice_available st pack ds dialogue) (dnd_choices node))))"

section \<open>Quests\<close>

text \<open>\<open>conditions and conditions_met(...)\<close>: an empty tuple of conditions is not met here.\<close>

definition some_conditions_met ::
  "world_state \<Rightarrow> condition_definition list \<Rightarrow> string \<Rightarrow> domain_event list \<Rightarrow> world_pack \<Rightarrow> bool res" where
  "some_conditions_met st conditions source events pack =
     (if conditions = [] then Inr False else conditions_met st conditions source events pack)"

definition quest_progress :: "string \<Rightarrow> string \<Rightarrow> string option \<Rightarrow> quest_state" where
  "quest_progress qid status stage = \<lparr>qs_quest_id = qid, qs_status = status, qs_stage_id = stage\<rparr>"

text \<open>
  One turn of the stage loop: the state and events after it, and the progress the loop goes on
  with, or \<open>None\<close> at a \<open>break\<close>.
\<close>

definition stage_step ::
  "world_pack \<Rightarrow> string \<Rightarrow> string \<Rightarrow> string \<Rightarrow> quest_stage_definition \<Rightarrow>
   world_state \<times> domain_event list \<Rightarrow> (quest_state option \<times> world_state \<times> domain_event list) res" where
  "stage_step pack source qid sid stage se =
     (case se of (st, events) \<Rightarrow>
      rbind (some_conditions_met st (qsd_failure_conditions stage) source events pack) (\<lambda>fails.
      if fails then
        rbind (apply_effects st (qsd_on_fail stage) source source events pack) (\<lambda>(st', events').
          Inr (None, replace_quest st' (quest_progress qid ''failed'' (Some sid)),
               events' @ [domain_event_of ''quest_failed'' source qid]))
      else rbind (some_conditions_met st (qsd_completion_conditions stage) source events pack) (\<lambda>done.
        if \<not> done then Inr (None, st, events)
        else rbind (apply_effects st (qsd_on_complete stage) source source events pack)
          (\<lambda>(st', events').
            case qsd_next_stage_id stage of
              None \<Rightarrow>
                Inr (None, replace_quest st' (quest_progress qid ''completed'' (Some sid)),
                     events' @ [domain_event_of ''quest_completed'' source qid])
            | Some next_stage \<Rightarrow>
                let progress = quest_progress qid ''active'' (Some next_stage) in
                Inr (Some progress, replace_quest st' progress,
                     events' @ [domain_event_of ''quest_advanced'' source qid])))))"

lemma new_stage_decreases:
  assumes "sid \<notin> visited" and "dict_at stages sid = Inr stage"
  shows "card (fst ` set stages - insert sid visited) < card (fst ` set stages - visited)"
proof -
  have "sid \<in> fst ` set stages - visited"
    using assms by (auto dest: map_of_SomeD intro: rev_image_eqI)
  then have "card (fst ` set stages - visited - {sid}) < card (fst ` set stages - visited)"
    by (rule card_Diff1_less [rotated]) simp
  then show ?thesis by (subst Diff_insert)
qed

function quest_loop ::
  "world_pack \<Rightarrow> string \<Rightarrow> quest_definition \<Rightarrow> string \<Rightarrow> string set \<Rightarrow> quest_state \<Rightarrow>
   world_state \<times> domain_event list \<Rightarrow> (world_state \<times> domain_event list) res" where
  "quest_loop pack source d qid visited progress se =
     (if qs_status progress \<noteq> ''active'' then Inr se
      else case qs_stage_id progress of None \<Rightarrow> Inr se
      | Some sid \<Rightarrow>
        if sid \<in> visited then Inr se
        else rbind (dict_at (qd_stages d) sid) (\<lambda>stage.
          rbind (stage_step pack source qid sid stage se) (\<lambda>(progress', se').
            case progress' of None \<Rightarrow> Inr se'
            | Some p \<Rightarrow> quest_loop pack source d qid (insert sid visited) p se')))"
  by pat_completeness auto
termination
proof (relation "measure (\<lambda>(pack, source, d, qid, visited, progress, se).
    card (fst ` set (qd_stages d) - visited))", goal_cases)
  case 1
  show ?case by (rule wf_measure)
next
  case (2 pack source d qid visited progress se sid stage)
  note new_stage_decreases [OF 2(3,4)]
  then show ?case by simp
qed

declare quest_loop.simps [simp del]

definition process_quest ::
  "world_pack \<Rightarrow> string \<Rightarrow> world_state \<times> domain_event list \<Rightarrow> string \<Rightarrow>
   (world_state \<times> domain_event list) res" where
  "process_quest pack source se qid =
     (case se of (st, events) \<Rightarrow>
      rbind (dict_at (wp_quests pack) qid) (\<lambda>d.
      let progress = get_quest st qid in
      rbind (if qs_status progress \<noteq> ''inactive'' then Inr False
             else conditions_met st (qd_auto_start_conditions d) source events pack) (\<lambda>starts.
        if starts then
          let progress' = quest_progress qid ''active'' (Some (qd_start_stage_id d)) in
          quest_loop pack source d qid {} progress'
            (replace_quest st progress', events @ [domain_event_of ''quest_started'' source qid])
        else quest_loop pack source d qid {} progress (st, events))))"

definition process_quests ::
  "world_pack \<Rightarrow> string \<Rightarrow> world_state \<times> domain_event list \<Rightarrow> (world_state \<times> domain_event list) res" where
  "process_quests pack source se = foldR (process_quest pack source) se (sort (dict_keys (wp_quests pack)))"

section \<open>Scenes\<close>

definition occurrence :: "scene_definition \<Rightarrow> int \<Rightarrow> string" where
  "occurrence scene day = (if snd_once scene then snd_id scene else snd_id scene @ '':'' @ dec day)"

definition scene_ready ::
  "world_state \<Rightarrow> world_pack \<Rightarrow> string \<Rightarrow> domain_event list \<Rightarrow> scene_definition \<Rightarrow> bool res" where
  "scene_ready st pack source events scene =
     (if occurrence scene (ws_day st) \<in> ws_triggered_scenes st then Inr False
      else if \<not> window_contains (ws_minute_of_day st) (snd_start_minute scene) (snd_end_minute scene)
      then Inr False
      else conditions_met st (snd_conditions scene) source events pack)"

definition trigger_scene ::
  "world_pack \<Rightarrow> string \<Rightarrow> world_state \<times> domain_event list \<Rightarrow> (world_state \<times> domain_event list) res" where
  "trigger_scene pack source se =
     (case se of (st, events) \<Rightarrow>
      if ws_dialogue st \<noteq> None \<or> ws_active_scene_id st \<noteq> None then Inr (st, events)
      else rbind (filterR (scene_ready st pack source events) (dict_values (wp_scenes pack)))
        (\<lambda>candidates.
          if candidates = [] then Inr (st, events)
          else
            let scene = arg_min_list (\<lambda>s. (- snd_priority s, snd_id s)) candidates
            in apply_effects
                 (st\<lparr>ws_active_scene_id := Some (snd_id scene),
                     ws_triggered_scenes := ws_triggered_scenes st \<union> {occurrence scene (ws_day st)}\<rparr>)
                 (snd_effects scene) source source
                 (events @ [domain_event_of ''scene_triggered'' source (snd_id scene)]) pack))"

section \<open>After every action\<close>

text \<open>\<open>for _ in range(n)\<close>, leaving at the first pass that changes no state.\<close>

fun settle_quests ::
  "nat \<Rightarrow> world_pack \<Rightarrow> string \<Rightarrow> world_state \<times> domain_event list \<Rightarrow>
   (world_state \<times> domain_event list) res" where
  "settle_quests 0 pack source se = Inr se"
| "settle_quests (Suc n) pack source se =
     rbind (process_quests pack source se) (\<lambda>(advanced, events).
       if advanced = fst se then Inr (fst se, events)
       else settle_quests n pack source (advanced, events))"

definition transition_limit :: "world_pack \<Rightarrow> nat" where
  "transition_limit pack =
     max 1 (length (wp_quests pack) +
            sum_list (map (\<lambda>q. length (qd_stages q)) (dict_values (wp_quests pack))))"

definition postprocess_narrative ::
  "nat \<Rightarrow> world_state \<Rightarrow> world_pack \<Rightarrow> domain_event list \<Rightarrow> string \<Rightarrow> world_state res" where
  "postprocess_narrative depth st pack events source =
     rbind (process_consequences depth st pack events source) (\<lambda>st1.
     rbind (settle_quests (transition_limit pack) pack source (st1, ws_recent_events st1)) (\<lambda>se2.
     rbind (trigger_scene pack source se2) (\<lambda>se3.
     rbind (settle_quests (transition_limit pack) pack source se3) (\<lambda>(st4, events4).
       Inr (st4\<lparr>ws_recent_events := events4\<rparr>)))))"

definition initialize_narrative :: "nat \<Rightarrow> world_state \<Rightarrow> world_pack \<Rightarrow> world_state res" where
  "initialize_narrative depth st pack = postprocess_narrative depth st pack [] (ws_active_actor_id st)"

section \<open>Dialogue actions\<close>

definition dialogue_distance :: "world_state \<Rightarrow> actor_state \<Rightarrow> dialogue_definition \<Rightarrow> int res" where
  "dialogue_distance st a d =
     rbind (get_actor st (dd_actor_id d)) (\<lambda>partner.
       Inr (manhattan (as_x a) (as_y a) (as_x partner) (as_y partner)))"

definition dialogue_candidate ::
  "world_state \<Rightarrow> world_pack \<Rightarrow> actor_state \<Rightarrow> string \<Rightarrow> dialogue_definition \<Rightarrow> bool res" where
  "dialogue_candidate st pack a aid d =
     rbind (get_actor st (dd_actor_id d)) (\<lambda>partner.
     rbind (dialogue_distance st a d) (\<lambda>distance.
       if as_map_id partner = as_map_id a \<and> distance \<le> dd_range d then
         rbind (conditions_met st (dd_conditions d) aid [] pack) (\<lambda>met.
           if \<not> met then Inr False
           else rbind (dict_at (dd_nodes d) (dd_start_node_id d)) (node_accessible st pack))
       else Inr False))"

definition start_dialogue :: "nat \<Rightarrow> world_state \<Rightarrow> game_action \<Rightarrow> world_pack \<Rightarrow> world_state res" where
  "start_dialogue depth st act pack =
     (let aid = action_actor st act in
      rbind (get_actor st aid) (\<lambda>a.
      rbind (filterR (dialogue_candidate st pack a aid) (dict_values (wp_dialogues pack))) (\<lambda>all_found.
      rbind (mapR (\<lambda>d. rbind (dialogue_distance st a d) (\<lambda>n. Inr (n, d))) all_found) (\<lambda>measured.
      let candidates = (case ga_dialogue_id act of None \<Rightarrow> measured
                        | Some did \<Rightarrow> filter (\<lambda>(n, d). dd_id d = did) measured)
      in if candidates = [] then Inr (with_message ''No conversation available'' st)
         else
           let dialogue = snd (arg_min_list (\<lambda>(n, d). (n, dd_id d)) candidates);
               st1 = st\<lparr>ws_dialogue := Some \<lparr>ds_dialogue_id = dd_id dialogue,
                                             ds_node_id = dd_start_node_id dialogue,
                                             ds_initiator_actor_id = aid,
                                             ds_partner_actor_id = dd_actor_id dialogue\<rparr>,
                        ws_last_message := dd_display_name dialogue\<rparr>
           in rbind (dict_at (dd_nodes dialogue) (dd_start_node_id dialogue)) (\<lambda>node.
              rbind (apply_effects st1 (dnd_on_enter node) aid (dd_actor_id dialogue)
                       [domain_event_of ''dialogue_started'' aid (dd_id dialogue)] pack)
                (\<lambda>(st2, events). postprocess_narrative depth st2 pack events aid))))))"

definition choose_dialogue :: "nat \<Rightarrow> world_state \<Rightarrow> game_action \<Rightarrow> world_pack \<Rightarrow> world_state res" where
  "choose_dialogue depth st act pack =
     (case ws_dialogue st of None \<Rightarrow> Inr (with_message ''Invalid dialogue choice'' st)
      | Some ds \<Rightarrow>
        if \<not> truthy (ga_choice_id act) then Inr (with_message ''Invalid dialogue choice'' st)
        else rbind (available_dialogue_choices st pack) (\<lambda>choices.
          case find (\<lambda>c. Some (dcd_id c) = ga_choice_id act) choices of
            None \<Rightarrow> Inr (with_message ''Dialogue choice unavailable'' st)
          | Some choice \<Rightarrow>
            let initiator = ds_initiator_actor_id ds; partner = ds_partner_actor_id ds in
            rbind (apply_effects st (dcd_effects choice) initiator partner
                     [domain_event_of ''dialogue_choice'' initiator (dcd_id choice)] pack)
              (\<lambda>(st1, events1).
              rbind
                (case dcd_next_node_id choice of
                   None \<Rightarrow>
                     Inr (st1\<lparr>ws_dialogue := None, ws_last_message := []\<rparr>,
                          events1 @ [domain_event_of ''dialogue_ended'' initiator (ds_dialogue_id ds)])
                 | Some n \<Rightarrow>
                     rbind (dict_at (wp_dialogues pack) (ds_dialogue_id ds)) (\<lambda>dialogue.
                     rbind (dict_at (dd_nodes dialogue) n) (\<lambda>node.
                       apply_effects (st1\<lparr>ws_dialogue := Some (ds\<lparr>ds_node_id := n\<rparr>)\<rparr>)
                         (dnd_on_enter node) initiator partner events1 pack)))
                (\<lambda>(st2, events2). postprocess_narrative depth st2 pack events2 initiator))))"

definition end_dialogue :: "nat \<Rightarrow> world_state \<Rightarrow> dialogue_state \<Rightarrow> world_pack \<Rightarrow> world_state res" where
  "end_dialogue depth st ds pack =
     rbind (dict_at (wp_dialogues pack) (ds_dialogue_id ds)) (\<lambda>dialogue.
     rbind (dict_at (dd_nodes dialogue) (ds_node_id ds)) (\<lambda>node.
       if dnd_allow_exit node then
         postprocess_narrative depth (st\<lparr>ws_dialogue := None, ws_last_message := []\<rparr>) pack
           [domain_event_of ''dialogue_ended'' (ds_initiator_actor_id ds) (ds_dialogue_id ds)]
           (ds_initiator_actor_id ds)
       else Inr (with_message ''This conversation cannot end yet'' st)))"

definition handle_narrative_action ::
  "nat \<Rightarrow> world_state \<Rightarrow> game_action \<Rightarrow> world_pack \<Rightarrow> world_state res" where
  "handle_narrative_action depth st act pack =
     (if ws_active_scene_id st \<noteq> None then
        Inr (if ga_kind act = ''dismiss_scene''
             then st\<lparr>ws_active_scene_id := None, ws_recent_events := [], ws_last_message := []\<rparr>
             else st)
      else case ws_dialogue st of
        Some ds \<Rightarrow>
          if ga_kind act = ''choose_dialogue'' then choose_dialogue depth st act pack
          else if ga_kind act = ''end_dialogue'' then end_dialogue depth st ds pack
          else Inr st
      | None \<Rightarrow>
          if ga_kind act = ''start_dialogue'' then start_dialogue depth st act pack else Inr st)"

end
