(* ===== verification/PackContract.thy ===== *)
theory PackContract
  imports Narrative
begin

text \<open>
  The contract a worldpack must meet before it is played: \<open>_validate_effect_contract\<close>,
  \<open>_validate_condition_contract\<close> and \<open>_validate_runtime_pack\<close> of
  \<open>src/isoworld/content/loader.py\<close>, as a computation that returns or raises
  \<open>WorldPackError\<close> with the message of the source. The checks come in the order of the code;
  \<open>isinstance\<close> checks that the types of the model already give are left out, and so is the
  locale block (its fields are not part of the model: no world operation reads them).

  \<open>pack_wf\<close> adds what the parser of the loader guarantees by construction: every table is
  keyed by the ID of its entries, without duplicates, and key/value tuples are in key order.
\<close>

section \<open>Checks\<close>

definition check :: "bool \<Rightarrow> string \<Rightarrow> unit res" where
  "check bad message = raise_if bad (WorldPackError message)"

definition each :: "('a \<Rightarrow> unit res) \<Rightarrow> 'a list \<Rightarrow> unit res" where
  "each f xs = foldR (\<lambda>_ x. f x) () xs"

abbreviation andthen :: "unit res \<Rightarrow> unit res \<Rightarrow> unit res" where
  "andthen m n \<equiv> rbind m (\<lambda>_. n)"

fun in_order :: "unit res list \<Rightarrow> unit res" where
  "in_order [] = Inr ()"
| "in_order (m # ms) = andthen m (in_order ms)"

lemma check_ok [simp]: "check bad message = Inr () \<longleftrightarrow> \<not> bad"
  by (simp add: check_def raise_if_def)

lemma each_ok [simp]: "each f xs = Inr () \<longleftrightarrow> (\<forall>x \<in> set xs. f x = Inr ())"
proof (induction xs)
  case (Cons x xs)
  then show ?case by (cases "f x") (auto simp: each_def)
qed (simp add: each_def)

lemma in_order_ok [simp]: "in_order ms = Inr () \<longleftrightarrow> (\<forall>m \<in> set ms. m = Inr ())"
proof (induction ms)
  case (Cons m ms)
  then show ?case by (cases m) auto
qed simp

declare in_order.simps [simp del]

lemma rbind_unit_ok [simp]: "rbind m (\<lambda>_. Inr ()) = Inr () \<longleftrightarrow> (\<exists>x. m = Inr x)"
  by (cases m) auto

lemma andthen_ok [simp]: "andthen m n = Inr () \<longleftrightarrow> m = Inr () \<and> n = Inr ()"
  by (cases m) auto

definition opt_in :: "string option \<Rightarrow> 'v dict \<Rightarrow> bool" where
  "opt_in k d = (case k of None \<Rightarrow> False | Some s \<Rightarrow> dict_mem s d)"

definition opt_among :: "string option \<Rightarrow> string set \<Rightarrow> bool" where
  "opt_among k s = (case k of None \<Rightarrow> False | Some x \<Rightarrow> x \<in> s)"

definition supported_effects :: "string set" where
  "supported_effects =
     {''set_flag'', ''clear_flag'', ''change_resource'', ''learn_fact'', ''change_relationship'',
      ''change_reputation'', ''change_stockpile_resource'', ''change_need''}"

definition supported_conditions :: "string set" where
  "supported_conditions =
     {''flag_set'', ''flag_unset'', ''fact_status'', ''relationship_at_least'', ''reputation_at_least'',
      ''quest_status'', ''event'', ''time_window'', ''actor_at'', ''need_at_most'',
      ''stockpile_resource_at_least'', ''construction_status'', ''scarcity_at_least''}"

definition knowledge_statuses :: "string set" where
  "knowledge_statuses = {''unknown'', ''suspected'', ''known'', ''secret''}"

definition resource_declared :: "world_pack \<Rightarrow> string \<Rightarrow> bool" where
  "resource_declared pack r \<longleftrightarrow> wp_resources pack = [] \<or> dict_mem r (wp_resources pack)"

section \<open>Effects and conditions\<close>

definition validate_effect_contract :: "effect_definition \<Rightarrow> world_pack \<Rightarrow> string \<Rightarrow> unit res" where
  "validate_effect_contract e pack context = in_order
     [check (eff_kind e \<notin> supported_effects \<or> eff_target e \<notin> {''self'', ''target''})
        (context @ '' has an unsupported effect''),
      check (eff_kind e \<in> {''set_flag'', ''clear_flag''} \<and> \<not> truthy (eff_flag e))
        (context @ '' has an invalid flag effect''),
      check (eff_kind e = ''change_resource'' \<and>
             (\<not> truthy (eff_resource e) \<or> eff_amount e = 0 \<or>
              wp_resources pack \<noteq> [] \<and> \<not> opt_in (eff_resource e) (wp_resources pack)))
        (context @ '' has an invalid resource effect''),
      check (eff_kind e = ''learn_fact'' \<and>
             (\<not> opt_in (eff_fact_id e) (wp_facts pack) \<or>
              \<not> opt_among (eff_knowledge_status e) (knowledge_statuses - {''unknown''})))
        (context @ '' has an invalid knowledge effect''),
      check (eff_kind e = ''change_relationship'' \<and>
             (\<not> opt_in (eff_target_actor_id e) (wp_actors pack) \<or> \<not> truthy (eff_dimension e) \<or>
              eff_amount e = 0))
        (context @ '' has an invalid relationship effect''),
      check (eff_kind e = ''change_reputation'' \<and>
             (\<not> opt_in (eff_faction_id e) (wp_factions pack) \<or> eff_amount e = 0))
        (context @ '' has an invalid reputation effect''),
      check (eff_kind e = ''change_stockpile_resource'' \<and>
             (\<not> opt_in (eff_stockpile_id e) (wp_stockpiles pack) \<or>
              \<not> opt_in (eff_resource e) (wp_resources pack) \<or> eff_amount e = 0))
        (context @ '' has an invalid stockpile effect''),
      check (eff_kind e = ''change_need'' \<and>
             (\<not> opt_in (eff_need_id e) (wp_needs pack) \<or> eff_amount e = 0))
        (context @ '' has an invalid need effect'')]"

definition invalid_window :: "condition_definition \<Rightarrow> bool" where
  "invalid_window c =
     (case (cond_start_minute c, cond_end_minute c) of
        (Some s, Some e) \<Rightarrow> \<not> (0 \<le> s \<and> s \<le> 1439) \<or> \<not> (0 \<le> e \<and> e \<le> 1440) \<or> s = e
      | _ \<Rightarrow> True)"

definition outside_map :: "map_definition \<Rightarrow> int \<Rightarrow> int \<Rightarrow> bool" where
  "outside_map m x y \<longleftrightarrow> x < 0 \<or> y < 0 \<or> md_width m \<le> x \<or> md_height m \<le> y"

definition invalid_place :: "condition_definition \<Rightarrow> world_pack \<Rightarrow> bool" where
  "invalid_place c pack =
     (case (map_of (wp_maps pack) (or_else (cond_map_id c) []), cond_x c, cond_y c) of
        (Some m, Some x, Some y) \<Rightarrow> outside_map m x y
      | _ \<Rightarrow> True)"

definition validate_condition_contract ::
  "condition_definition \<Rightarrow> world_pack \<Rightarrow> string \<Rightarrow> unit res" where
  "validate_condition_contract c pack context = in_order
     [check (cond_kind c \<notin> supported_conditions) (context @ '' has an unsupported condition''),
      check (cond_actor_id c \<noteq> None \<and> \<not> opt_in (cond_actor_id c) (wp_actors pack))
        (context @ '' references an unknown actor''),
      check (cond_kind c \<in> {''flag_set'', ''flag_unset''} \<and> \<not> truthy (cond_flag c))
        (context @ '' has an invalid flag condition''),
      check (cond_kind c = ''fact_status'' \<and>
             (\<not> opt_in (cond_fact_id c) (wp_facts pack) \<or>
              \<not> opt_among (cond_knowledge_status c) knowledge_statuses))
        (context @ '' has an invalid knowledge condition''),
      check (cond_kind c = ''relationship_at_least'' \<and>
             (\<not> opt_in (cond_target_actor_id c) (wp_actors pack) \<or> \<not> truthy (cond_dimension c)))
        (context @ '' has an invalid relationship condition''),
      check (cond_kind c = ''reputation_at_least'' \<and> \<not> opt_in (cond_faction_id c) (wp_factions pack))
        (context @ '' has an invalid reputation condition''),
      check (cond_kind c = ''quest_status'' \<and>
             (\<not> opt_in (cond_quest_id c) (wp_quests pack) \<or>
              \<not> opt_among (cond_quest_status c) {''inactive'', ''active'', ''completed'', ''failed''}))
        (context @ '' has an invalid quest condition''),
      check (cond_kind c = ''event'' \<and> \<not> truthy (cond_event_kind c))
        (context @ '' has an invalid event condition''),
      check (cond_kind c = ''time_window'' \<and> invalid_window c)
        (context @ '' has an invalid time window''),
      check (cond_kind c = ''actor_at'' \<and> invalid_place c pack)
        (context @ '' has an invalid location condition''),
      check (cond_kind c = ''need_at_most'' \<and> \<not> opt_in (cond_need_id c) (wp_needs pack))
        (context @ '' has an invalid need condition''),
      check (cond_kind c = ''stockpile_resource_at_least'' \<and>
             (\<not> opt_in (cond_stockpile_id c) (wp_stockpiles pack) \<or>
              \<not> opt_in (cond_resource_id c) (wp_resources pack)))
        (context @ '' has an invalid stockpile condition''),
      check (cond_kind c = ''construction_status'' \<and>
             (\<not> opt_in (cond_construction_id c) (wp_constructions pack) \<or>
              \<not> opt_among (cond_construction_status c) {''absent'', ''building'', ''completed''}))
        (context @ '' has an invalid construction condition''),
      check (cond_kind c = ''scarcity_at_least'' \<and> \<not> opt_in (cond_resource_id c) (wp_resources pack))
        (context @ '' has an invalid scarcity condition'')]"

definition validate_effects :: "effect_definition list \<Rightarrow> world_pack \<Rightarrow> string \<Rightarrow> unit res" where
  "validate_effects es pack context = each (\<lambda>e. validate_effect_contract e pack context) es"

definition validate_conditions :: "condition_definition list \<Rightarrow> world_pack \<Rightarrow> string \<Rightarrow> unit res" where
  "validate_conditions cs pack context = each (\<lambda>c. validate_condition_contract c pack context) cs"

section \<open>Clock, maps and actors\<close>

definition validate_clock :: "world_pack \<Rightarrow> unit res" where
  "validate_clock pack =
     (let c = wp_clock pack in
      check (start_day c < 1 \<or> \<not> (0 \<le> start_minute c \<and> start_minute c < 1440) \<or>
             ticks_per_minute c < 1 \<or> movement_interval_ticks c < 1)
        ''The world clock configuration is invalid'')"

definition validate_map :: "world_pack \<Rightarrow> map_definition \<Rightarrow> unit res" where
  "validate_map pack m =
     andthen
       (check (md_width m < 1 \<or> md_height m < 1 \<or> int (length (md_rows m)) \<noteq> md_height m \<or>
               list_ex (\<lambda>row. int (length row) \<noteq> md_width m) (md_rows m))
         (''Map '' @ md_id m @ '' has invalid dimensions''))
       (each (each (\<lambda>symbol.
          check (case map_of (md_legend m) symbol of None \<Rightarrow> True
                 | Some t \<Rightarrow> \<not> dict_mem t (wp_tile_types pack))
            (''Map '' @ md_id m @ '' references an unknown tile''))) (md_rows m))"

text \<open>\<open>map_id not in pack.maps or not pack.is_walkable(map_id, x, y)\<close>, negated.\<close>

definition open_location :: "world_pack \<Rightarrow> location \<Rightarrow> bool res" where
  "open_location pack l =
     (if \<not> dict_mem (loc_map_id l) (wp_maps pack) then Inr False
      else pack_is_walkable pack (loc_map_id l) (loc_x l) (loc_y l))"

definition check_open :: "world_pack \<Rightarrow> location \<Rightarrow> string \<Rightarrow> unit res" where
  "check_open pack l message = rbind (open_location pack l) (\<lambda>b. check (\<not> b) message)"

definition validate_actor ::
  "world_pack \<Rightarrow> (string \<times> int \<times> int) set \<Rightarrow> actor_definition \<Rightarrow> (string \<times> int \<times> int) set res" where
  "validate_actor pack taken a =
     (let name = ''Actor '' @ ad_id a; spawn = ad_spawn a;
          key = (loc_map_id spawn, loc_x spawn, loc_y spawn); knowledge = dict_of (ad_knowledge a) in
      rbind (in_order
        [check (ad_display_name a = []) (name @ '' has an invalid display name''),
         check_open pack spawn (name @ '' has an invalid spawn''),
         check (key \<in> taken) ''Two actors share a spawn cell'',
         check (list_ex (\<lambda>(r, v). v < 0 \<or> \<not> resource_declared pack r) (ad_resources a))
           (name @ '' has an invalid resource''),
         check (ad_schedule_id a \<noteq> None \<and> \<not> opt_in (ad_schedule_id a) (wp_schedules pack))
           (name @ '' references an unknown schedule''),
         check (5 \<le> wp_format_version pack \<and> ad_personal_arc_id a \<noteq> None \<and>
                \<not> opt_in (ad_personal_arc_id a) (wp_personal_arcs pack))
           (name @ '' references an unknown personal campaign''),
         check (ad_schedule_mode a \<notin> {''always'', ''when_inactive'', ''never''})
           (name @ '' has an invalid schedule mode''),
         check (list_ex (\<lambda>i. \<not> dict_mem i (wp_abilities pack)) (ad_ability_ids a))
           (name @ '' references an unknown ability''),
         check (list_ex (\<lambda>f. \<not> dict_mem f (wp_facts pack)) (dict_keys knowledge @ ad_forbidden_fact_ids a))
           (name @ '' references an unknown fact''),
         check (set (dict_keys knowledge) \<inter> set (ad_forbidden_fact_ids a) \<noteq> {})
           (name @ '' knows a forbidden fact''),
         check (list_ex (\<lambda>s. s \<notin> knowledge_statuses - {''unknown''}) (dict_values knowledge))
           (name @ '' has an invalid knowledge status''),
         check (list_ex (\<lambda>(t, dims). \<not> dict_mem t (wp_actors pack) \<or>
                  list_ex (\<lambda>(d, v). d = [] \<or> v < -100 \<or> 100 < v) dims) (ad_relationships a))
           (name @ '' has an invalid relationship''),
         check (list_ex (\<lambda>(f, v). \<not> dict_mem f (wp_factions pack) \<or> v < -100 \<or> 100 < v)
                  (ad_faction_reputation a))
           (name @ '' has an invalid faction reputation''),
         check (list_ex (\<lambda>(n, v). \<not> dict_mem n (wp_needs pack) \<or> \<not> (0 \<le> v \<and> v \<le> 100)) (ad_needs a))
           (name @ '' has invalid needs''),
         check (list_ex (\<lambda>g. case map_of (wp_goals pack) g of None \<Rightarrow> True
                           | Some d \<Rightarrow> gd_parent_id d \<noteq> None) (ad_goal_ids a))
           (name @ '' references an unknown goal'')])
      (\<lambda>_. Inr (insert key taken)))"

section \<open>Abilities, schedules and interactions\<close>

definition validate_ability :: "world_pack \<Rightarrow> ability_definition \<Rightarrow> unit res" where
  "validate_ability pack a =
     check (abd_target a \<notin> {''self'', ''actor''} \<or> abd_range a < 0 \<or> abd_cooldown_minutes a < 0 \<or>
            abd_costs a = [] \<or>
            list_ex (\<lambda>(r, c). c \<le> 0 \<or> \<not> resource_declared pack r) (abd_costs a))
       (''Ability '' @ abd_id a @ '' has an invalid contract'')"

definition validate_schedule :: "world_pack \<Rightarrow> schedule_definition \<Rightarrow> unit res" where
  "validate_schedule pack s =
     (let name = ''Schedule '' @ scd_id s in
      andthen (check (scd_entries s = []) (name @ '' has no entries''))
        (each (\<lambda>e. in_order
           [check (se_destinations e = [] \<or> \<not> (0 \<le> se_start_minute e \<and> se_start_minute e \<le> 1439))
              (name @ '' has an invalid segment''),
            check (\<not> (0 \<le> se_end_minute e \<and> se_end_minute e \<le> 1440) \<or>
                   se_start_minute e = se_end_minute e)
              (name @ '' has an invalid segment''),
            each (\<lambda>l. check_open pack l (name @ '' has an invalid destination'')) (se_destinations e)])
          (scd_entries s)))"

definition validate_interaction :: "world_pack \<Rightarrow> interaction_definition \<Rightarrow> unit res" where
  "validate_interaction pack i =
     check ((case map_of (wp_maps pack) (loc_map_id (ind_location i)) of None \<Rightarrow> True
             | Some m \<Rightarrow> outside_map m (loc_x (ind_location i)) (loc_y (ind_location i))) \<or>
            ind_range i < 0 \<or> ind_effects i = [])
       (''Interaction '' @ ind_id i @ '' has an invalid contract'')"

section \<open>Facts, dialogues, quests and scenes\<close>

definition validate_fact :: "fact_definition \<Rightarrow> unit res" where
  "validate_fact f =
     check (fd_statement f = [] \<or> fd_kind f \<notin> {''truth'', ''secret'', ''rumor''} \<or>
            fd_truth f \<notin> {''true'', ''false'', ''unknown''})
       (''Fact '' @ fd_id f @ '' has an invalid contract'')"

definition validate_faction :: "faction_definition \<Rightarrow> unit res" where
  "validate_faction f =
     check (fcd_display_name f = []) (''Faction '' @ fcd_id f @ '' has an invalid contract'')"

definition validate_choice ::
  "world_pack \<Rightarrow> dialogue_definition \<Rightarrow> string set \<Rightarrow> dialogue_choice_definition \<Rightarrow> string set res" where
  "validate_choice pack d choice_ids c =
     (let name = ''Dialogue '' @ dd_id d in
      rbind (in_order
        [check (dcd_text c = [] \<or> dcd_id c \<in> choice_ids \<or>
                dcd_next_node_id c \<noteq> None \<and> \<not> opt_in (dcd_next_node_id c) (dd_nodes d))
           (name @ '' has an invalid choice''),
         validate_conditions (dcd_conditions c) pack name,
         validate_effects (dcd_effects c) pack name])
      (\<lambda>_. Inr (insert (dcd_id c) choice_ids)))"

definition validate_node ::
  "world_pack \<Rightarrow> dialogue_definition \<Rightarrow> dialogue_node_definition \<Rightarrow> unit res" where
  "validate_node pack d n =
     (let name = ''Dialogue '' @ dd_id d in in_order
        [check (\<not> dict_mem (dnd_speaker_id n) (wp_actors pack) \<or> dnd_text n = [] \<or>
                list_ex (\<lambda>f. \<not> dict_mem f (wp_facts pack)) (dnd_fact_refs n))
           (name @ '' has an invalid node''),
         validate_effects (dnd_on_enter n) pack name,
         rbind (foldR (validate_choice pack d) {} (dnd_choices n)) (\<lambda>_. Inr ())])"

definition validate_dialogue :: "world_pack \<Rightarrow> dialogue_definition \<Rightarrow> unit res" where
  "validate_dialogue pack d =
     (let name = ''Dialogue '' @ dd_id d in in_order
        [check (dd_display_name d = [] \<or> \<not> dict_mem (dd_actor_id d) (wp_actors pack) \<or> dd_range d < 0 \<or>
                \<not> dict_mem (dd_start_node_id d) (dd_nodes d) \<or> dd_nodes d = [])
           (name @ '' has an invalid contract''),
         validate_conditions (dd_conditions d) pack name,
         each (validate_node pack d) (dict_values (dd_nodes d))])"

definition validate_stage ::
  "world_pack \<Rightarrow> quest_definition \<Rightarrow> quest_stage_definition \<Rightarrow> unit res" where
  "validate_stage pack q s =
     (let name = ''Quest '' @ qd_id q in in_order
        [check (qsd_description s = [] \<or>
                qsd_next_stage_id s \<noteq> None \<and> \<not> opt_in (qsd_next_stage_id s) (qd_stages q))
           (name @ '' has an invalid next stage''),
         validate_conditions (qsd_completion_conditions s @ qsd_failure_conditions s) pack name,
         validate_effects (qsd_on_complete s @ qsd_on_fail s) pack name])"

definition validate_quest :: "world_pack \<Rightarrow> quest_definition \<Rightarrow> unit res" where
  "validate_quest pack q =
     (let name = ''Quest '' @ qd_id q in in_order
        [check (qd_title q = [] \<or> qd_stages q = [] \<or> \<not> dict_mem (qd_start_stage_id q) (qd_stages q))
           (name @ '' has an invalid contract''),
         validate_conditions (qd_auto_start_conditions q) pack name,
         each (validate_stage pack q) (dict_values (qd_stages q))])"

definition validate_scene :: "world_pack \<Rightarrow> scene_definition \<Rightarrow> unit res" where
  "validate_scene pack s =
     (let name = ''Scene '' @ snd_id s in in_order
        [check (snd_title s = [] \<or> snd_text s = [] \<or>
                \<not> (0 \<le> snd_start_minute s \<and> snd_start_minute s \<le> 1439) \<or>
                \<not> (0 \<le> snd_end_minute s \<and> snd_end_minute s \<le> 1440) \<or>
                snd_start_minute s = snd_end_minute s)
           (name @ '' has an invalid time window''),
         validate_conditions (snd_conditions s) pack name,
         validate_effects (snd_effects s) pack name])"

section \<open>Personal campaigns\<close>

text \<open>
  The acts reached from a work list whose top is the head here: the loop pops the last entry
  and pushes at the end. An act that is not in the table raises \<open>KeyError\<close>.
\<close>

function reachable_acts ::
  "personal_campaign_act_definition dict \<Rightarrow> string set \<Rightarrow> string list \<Rightarrow> string set res" where
  "reachable_acts acts visited pending =
     (case pending of [] \<Rightarrow> Inr visited
      | current # rest \<Rightarrow>
        if current \<in> visited then reachable_acts acts visited rest
        else rbind (dict_at acts current) (\<lambda>act.
          let visited' = insert current visited in
          reachable_acts acts visited'
            (rev (filter (\<lambda>n. n \<notin> visited') (pca_next_act_ids act)) @ rest)))"
  by pat_completeness auto
termination
proof (relation "inv_image (less_than <*lex*> less_than)
    (\<lambda>(acts, visited, pending). (card (fst ` set acts - visited), length pending))", goal_cases)
  case 1
  show ?case by (rule wf_inv_image) (rule wf_lex_prod; rule wf_less_than)
next
  case (2 acts visited pending current rest)
  then show ?case by simp
next
  case (3 acts visited pending current rest act visited')
  note new_stage_decreases [OF 3(2,3)]
  with 3(4) show ?case by simp
qed

declare reachable_acts.simps [simp del]

definition validate_act ::
  "world_pack \<Rightarrow> personal_campaign_definition \<Rightarrow> personal_campaign_act_definition \<Rightarrow> unit res" where
  "validate_act pack c act =
     (let name = ''Personal campaign '' @ pcd_id c @ '' act '' @ pca_id act in in_order
        [check (list_ex (\<lambda>i. \<not> dict_mem i (pcd_acts c)) (pca_next_act_ids act))
           (name @ '' has an unknown next act''),
         check (list_ex (\<lambda>i. \<not> dict_mem i (wp_quests pack)) (pca_quest_ids act))
           (name @ '' has an unknown quest''),
         check (list_ex (\<lambda>i. \<not> dict_mem i (wp_scenes pack)) (pca_scene_ids act))
           (name @ '' has an unknown scene'')])"

fun comma_separated :: "string list \<Rightarrow> string" where
  "comma_separated [] = []"
| "comma_separated [x] = x"
| "comma_separated (x # xs) = x @ '', '' @ comma_separated xs"

definition validate_campaign ::
  "world_pack \<Rightarrow> string set \<Rightarrow> personal_campaign_definition \<Rightarrow> string set res" where
  "validate_campaign pack owners c =
     (let name = ''Personal campaign '' @ pcd_id c;
          actor = map_of (wp_actors pack) (pcd_actor_id c);
          owners' = insert (pcd_actor_id c) owners in
      rbind (in_order
        [check (case actor of None \<Rightarrow> True | Some a \<Rightarrow> \<not> ad_playable a)
           (name @ '' must belong to a playable actor''),
         check (pcd_actor_id c \<in> owners)
           (''Actor '' @ pcd_actor_id c @ '' owns multiple personal campaigns''),
         check (case actor of None \<Rightarrow> True | Some a \<Rightarrow> ad_personal_arc_id a \<noteq> Some (pcd_id c))
           (name @ '' is not referenced by its owning actor''),
         check (\<not> dict_mem (pcd_start_act_id c) (pcd_acts c)) (name @ '' has an unknown start act''),
         each (validate_act pack c) (dict_values (pcd_acts c))]) (\<lambda>_.
      rbind (reachable_acts (pcd_acts c) {} [pcd_start_act_id c]) (\<lambda>visited.
        let unreachable = sort (filter (\<lambda>i. i \<notin> visited) (dict_keys (pcd_acts c))) in
        rbind (check (unreachable \<noteq> [])
                 (name @ '' has acts unreachable from start act '' @ pcd_start_act_id c @ '': '' @
                  comma_separated unreachable))
          (\<lambda>_. Inr owners'))))"

section \<open>Resources, needs, stockpiles, constructions and recipes\<close>

definition validate_resource :: "resource_definition \<Rightarrow> unit res" where
  "validate_resource r =
     check (rd_base_value r < 0 \<or> rd_scarcity_target r < 0 \<or> rd_display_name r = [])
       (''Resource '' @ rd_id r @ '' has an invalid contract'')"

definition validate_need :: "world_pack \<Rightarrow> need_definition \<Rightarrow> unit res" where
  "validate_need pack n =
     check (nd_display_name n = [] \<or> nd_decay_interval_minutes n < 1 \<or> nd_decay_amount n < 1 \<or>
            \<not> (0 \<le> nd_critical_below n \<and> nd_critical_below n \<le> 100) \<or>
            \<not> dict_mem (nd_resource_id n) (wp_resources pack) \<or>
            nd_consume_amount n < 1 \<or> nd_restore_amount n < 1)
       (''Need '' @ nd_id n @ '' has an invalid contract'')"

definition validate_stockpile :: "world_pack \<Rightarrow> stockpile_definition \<Rightarrow> unit res" where
  "validate_stockpile pack s =
     (let message = ''Stockpile '' @ sd_id s @ '' has an invalid contract'' in in_order
        [check (sd_display_name s = []) message,
         check_open pack (sd_location s) message,
         check (sd_capacity s < 1 \<or>
                list_ex (\<lambda>(r, v). \<not> dict_mem r (wp_resources pack) \<or> v < 0) (sd_resources s) \<or>
                sd_capacity s < total_units (sd_resources s)) message])"

definition validate_construction :: "world_pack \<Rightarrow> construction_definition \<Rightarrow> unit res" where
  "validate_construction pack c =
     check (cd_display_name c = [] \<or> cd_footprint c = [] \<or>
            card (set (cd_footprint c)) \<noteq> length (cd_footprint c) \<or>
            (0, 0) \<notin> set (cd_footprint c) \<or> cd_costs c = [] \<or>
            list_ex (\<lambda>(r, v). \<not> dict_mem r (wp_resources pack) \<or> v < 1) (cd_costs c) \<or>
            cd_build_minutes c < 1 \<or>
            cd_stockpile_id c \<noteq> None \<and> \<not> opt_in (cd_stockpile_id c) (wp_stockpiles pack))
       (''Construction '' @ cd_id c @ '' has an invalid contract'')"

definition validate_recipe :: "world_pack \<Rightarrow> production_recipe_definition \<Rightarrow> unit res" where
  "validate_recipe pack r =
     check (prd_display_name r = [] \<or> \<not> dict_mem (prd_required_construction_id r) (wp_constructions pack) \<or>
            prd_inputs r = [] \<or> prd_outputs r = [] \<or> prd_duration_minutes r < 1 \<or>
            list_ex (\<lambda>(k, v). \<not> dict_mem k (wp_resources pack) \<or> v < 1) (prd_inputs r) \<or>
            list_ex (\<lambda>(k, v). \<not> dict_mem k (wp_resources pack) \<or> v < 1) (prd_outputs r))
       (''Production recipe '' @ prd_id r @ '' has an invalid contract'')"

section \<open>Goals and consequences\<close>

definition validate_goal :: "world_pack \<Rightarrow> goal_definition \<Rightarrow> unit res" where
  "validate_goal pack g =
     (let name = ''Goal '' @ gd_id g in in_order
        [check (gd_display_name g = []) (name @ '' has an invalid display name''),
         check (gd_parent_id g \<noteq> None \<and> \<not> opt_in (gd_parent_id g) (wp_goals pack))
           (name @ '' has an unknown parent''),
         validate_conditions (gd_conditions g) pack name,
         case gd_action g of None \<Rightarrow> Inr ()
         | Some a \<Rightarrow> in_order
           [check (gad_kind a \<notin> {''satisfy_need'', ''produce'', ''build'', ''travel''})
              (name @ '' has an unsupported action''),
            check (gad_kind a = ''satisfy_need'' \<and> \<not> opt_in (gad_need_id a) (wp_needs pack))
              (name @ '' has an invalid need action''),
            check (gad_kind a = ''produce'' \<and> \<not> opt_in (gad_recipe_id a) (wp_production_recipes pack))
              (name @ '' has an invalid production action''),
            check (gad_kind a = ''build'' \<and>
                   (\<not> opt_in (gad_blueprint_id a) (wp_constructions pack) \<or> gad_location a = None))
              (name @ '' has an invalid construction action''),
            check (gad_kind a = ''travel'' \<and> gad_location a = None)
              (name @ '' has an invalid travel action''),
            check (gad_stockpile_id a \<noteq> None \<and> \<not> opt_in (gad_stockpile_id a) (wp_stockpiles pack))
              (name @ '' has an invalid stockpile''),
            case gad_location a of None \<Rightarrow> Inr ()
            | Some l \<Rightarrow> check_open pack l (name @ '' has an invalid location'')]])"

text \<open>The walk up the parents of a goal, with the set of goals seen.\<close>

function climb :: "goal_definition dict \<Rightarrow> string set \<Rightarrow> string option \<Rightarrow> unit res" where
  "climb goals seen cursor =
     (case cursor of None \<Rightarrow> Inr ()
      | Some gid \<Rightarrow>
        if gid \<in> seen then Inl (WorldPackError ''Goal hierarchy contains a cycle'')
        else rbind (dict_at goals gid) (\<lambda>g. climb goals (insert gid seen) (gd_parent_id g)))"
  by pat_completeness auto
termination
proof (relation "measure (\<lambda>(goals, seen, cursor). card (fst ` set goals - seen))", goal_cases)
  case 1
  show ?case by (rule wf_measure)
next
  case (2 goals seen cursor gid g)
  note new_stage_decreases [OF 2(2,3)]
  then show ?case by simp
qed

declare climb.simps [simp del]

definition validate_consequence :: "world_pack \<Rightarrow> consequence_definition \<Rightarrow> unit res" where
  "validate_consequence pack c =
     (let name = ''Consequence '' @ csd_id c in in_order
        [check (csd_delay_minutes c < 1 \<or> csd_trigger_event c = [] \<or> csd_effects c = [])
           (name @ '' has an invalid contract''),
         validate_conditions (csd_conditions c) pack name,
         validate_effects (csd_effects c) pack name])"

section \<open>The whole contract\<close>

definition validate_runtime_pack :: "world_pack \<Rightarrow> unit res" where
  "validate_runtime_pack pack = in_order
     [validate_clock pack,
      each (validate_map pack) (dict_values (wp_maps pack)),
      rbind (foldR (validate_actor pack) {} (dict_values (wp_actors pack))) (\<lambda>_. Inr ()),
      each (validate_ability pack) (dict_values (wp_abilities pack)),
      each (validate_schedule pack) (dict_values (wp_schedules pack)),
      each (validate_interaction pack) (dict_values (wp_interactions pack)),
      each (\<lambda>a. validate_effects (abd_effects a) pack (''Ability '' @ abd_id a))
        (dict_values (wp_abilities pack)),
      each (\<lambda>i. validate_effects (ind_effects i) pack (''Interaction '' @ ind_id i))
        (dict_values (wp_interactions pack)),
      each validate_fact (dict_values (wp_facts pack)),
      each validate_faction (dict_values (wp_factions pack)),
      each (validate_dialogue pack) (dict_values (wp_dialogues pack)),
      each (validate_quest pack) (dict_values (wp_quests pack)),
      each (validate_scene pack) (dict_values (wp_scenes pack)),
      rbind (foldR (validate_campaign pack) {} (dict_values (wp_personal_arcs pack))) (\<lambda>_. Inr ()),
      each validate_resource (dict_values (wp_resources pack)),
      each (validate_need pack) (dict_values (wp_needs pack)),
      each (validate_stockpile pack) (dict_values (wp_stockpiles pack)),
      each (validate_construction pack) (dict_values (wp_constructions pack)),
      each (validate_recipe pack) (dict_values (wp_production_recipes pack)),
      each (validate_goal pack) (dict_values (wp_goals pack)),
      each (\<lambda>gid. climb (wp_goals pack) {} (Some gid)) (dict_keys (wp_goals pack)),
      each (validate_consequence pack) (dict_values (wp_consequences pack))]"

definition keyed_by :: "('v \<Rightarrow> string) \<Rightarrow> 'v dict \<Rightarrow> bool" where
  "keyed_by id_of d \<longleftrightarrow> distinct (dict_keys d) \<and> list_all (\<lambda>(k, v). id_of v = k) d"

text \<open>The tuples of an actor, a stockpile or a recipe are built from sorted dictionaries.\<close>

definition flat_relationships ::
  "(string \<times> (string \<times> int) list) list \<Rightarrow> ((string \<times> string) \<times> int) list" where
  "flat_relationships rs = concat (map (\<lambda>(t, dims). map (\<lambda>(dim, v). ((t, dim), v)) dims) rs)"

definition actor_tuples_sorted :: "actor_definition \<Rightarrow> bool" where
  "actor_tuples_sorted a \<longleftrightarrow>
     kv_ok (ad_resources a) \<and> kv_ok (ad_knowledge a) \<and> kv_ok (flat_relationships (ad_relationships a)) \<and>
     kv_ok (ad_faction_reputation a) \<and> kv_ok (ad_needs a)"

definition pack_wf :: "world_pack \<Rightarrow> bool" where
  "pack_wf pack \<longleftrightarrow>
     keyed_by md_id (wp_maps pack) \<and> keyed_by ad_id (wp_actors pack) \<and>
     keyed_by abd_id (wp_abilities pack) \<and> keyed_by scd_id (wp_schedules pack) \<and>
     keyed_by ind_id (wp_interactions pack) \<and> keyed_by dd_id (wp_dialogues pack) \<and>
     keyed_by qd_id (wp_quests pack) \<and> keyed_by snd_id (wp_scenes pack) \<and>
     keyed_by rd_id (wp_resources pack) \<and> keyed_by nd_id (wp_needs pack) \<and>
     keyed_by gd_id (wp_goals pack) \<and> keyed_by sd_id (wp_stockpiles pack) \<and>
     keyed_by cd_id (wp_constructions pack) \<and> keyed_by prd_id (wp_production_recipes pack) \<and>
     keyed_by csd_id (wp_consequences pack) \<and>
     list_all actor_tuples_sorted (dict_values (wp_actors pack)) \<and>
     list_all (\<lambda>s. kv_ok (sd_resources s)) (dict_values (wp_stockpiles pack)) \<and>
     list_all (\<lambda>r. kv_ok (prd_inputs r) \<and> kv_ok (prd_outputs r))
       (dict_values (wp_production_recipes pack))"

end
