(* ===== verification/PackFacts.thy ===== *)
theory PackFacts
  imports PackContract
begin

text \<open>
  What an accepted pack gives the rest of the development: the pure form of every check of
  \<open>validate_runtime_pack\<close>, as one predicate per definition, and the fact that the navigator's
  maps are well formed. \<open>pack_ok\<close> is the assumption of the invariant theorems: the loader
  accepted the pack, and its IDs are plain. The loader itself accepts any string as an ID; the
  code builds compound names from IDs, and these are unambiguous only if no scene ID has a
  colon (a daily scene is recorded as \<open>id:day\<close>, and a save is checked by the text before the
  colon) and if no two pairs of a blueprint and a map share their joined name.
\<close>

definition ids_plain :: "world_pack \<Rightarrow> bool" where
  "ids_plain pack \<longleftrightarrow>
     (\<forall>sid \<in> set (dict_keys (wp_scenes pack)). CHR '':'' \<notin> set sid) \<and>
     (\<forall>b \<in> set (dict_keys (wp_constructions pack)). \<forall>c \<in> set (dict_keys (wp_constructions pack)).
        \<forall>m \<in> set (dict_keys (wp_maps pack)). \<forall>n \<in> set (dict_keys (wp_maps pack)).
          b @ ''__'' @ m = c @ ''__'' @ n \<longrightarrow> b = c \<and> m = n)"

definition pack_ok :: "world_pack \<Rightarrow> bool" where
  "pack_ok pack \<longleftrightarrow> pack_wf pack \<and> validate_runtime_pack pack = Inr () \<and> ids_plain pack"

definition effect_ok :: "world_pack \<Rightarrow> effect_definition \<Rightarrow> bool" where
  "effect_ok pack e \<longleftrightarrow> validate_effect_contract e pack [] = Inr ()"

definition condition_ok :: "world_pack \<Rightarrow> condition_definition \<Rightarrow> bool" where
  "condition_ok pack c \<longleftrightarrow> validate_condition_contract c pack [] = Inr ()"

abbreviation effects_ok :: "world_pack \<Rightarrow> effect_definition list \<Rightarrow> bool" where
  "effects_ok pack es \<equiv> (\<forall>e \<in> set es. effect_ok pack e)"

abbreviation conditions_ok :: "world_pack \<Rightarrow> condition_definition list \<Rightarrow> bool" where
  "conditions_ok pack cs \<equiv> (\<forall>c \<in> set cs. condition_ok pack c)"

lemma validate_effect_contract_iff [simp]:
  "validate_effect_contract e pack context = Inr () \<longleftrightarrow> effect_ok pack e"
  by (simp add: effect_ok_def validate_effect_contract_def)

lemma validate_condition_contract_iff [simp]:
  "validate_condition_contract c pack context = Inr () \<longleftrightarrow> condition_ok pack c"
  by (simp add: condition_ok_def validate_condition_contract_def)

lemma validate_effects_iff [simp]: "validate_effects es pack context = Inr () \<longleftrightarrow> effects_ok pack es"
  by (simp add: validate_effects_def)

lemma validate_conditions_iff [simp]:
  "validate_conditions cs pack context = Inr () \<longleftrightarrow> conditions_ok pack cs"
  by (simp add: validate_conditions_def)

section \<open>Tables\<close>

lemma keyed_by_at: "keyed_by f d \<Longrightarrow> map_of d k = Some v \<Longrightarrow> f v = k"
  by (auto simp: keyed_by_def list_all_iff dest!: map_of_SomeD)

lemma keyed_by_mem: "keyed_by f d \<Longrightarrow> v \<in> set (dict_values d) \<Longrightarrow> map_of d (f v) = Some v"
  by (fastforce simp: keyed_by_def dict_values_def dict_keys_def list_all_iff)

lemma keyed_by_ids: "keyed_by f d \<Longrightarrow> map f (dict_values d) = dict_keys d"
  by (auto simp: keyed_by_def dict_values_def dict_keys_def list_all_iff)

lemma keyed_by_ids_mem: "keyed_by f d \<Longrightarrow> v \<in> set (dict_values d) \<Longrightarrow> dict_mem (f v) d"
  by (auto dest!: keyed_by_mem simp: dict_mem_def)

lemma opt_in_iff: "opt_in k d \<longleftrightarrow> (\<exists>s. k = Some s \<and> dict_mem s d)"
  by (auto simp: opt_in_def split: option.split)

lemma opt_among_iff: "opt_among k s \<longleftrightarrow> (\<exists>x. k = Some x \<and> x \<in> s)"
  by (auto simp: opt_among_def split: option.split)

lemma dict_mem_iff_at: "dict_mem k d \<longleftrightarrow> (\<exists>v. map_of d k = Some v)"
  by (auto simp: dict_mem_def)

lemma dict_mem_values: "dict_mem k d \<Longrightarrow> \<exists>v \<in> set (dict_values d). map_of d k = Some v"
  by (auto simp: dict_mem_def dest: dict_values_mem)

section \<open>Maps\<close>

lemma validate_map_iff: "validate_map pack m = Inr () \<longleftrightarrow> map_ok pack m"
  by (auto simp: validate_map_def map_ok_def list_ex_iff not_less split: option.splits)

lemma pack_ok_maps: "pack_ok pack \<Longrightarrow> maps_ok pack"
  by (simp add: pack_ok_def validate_runtime_pack_def maps_ok_def validate_map_iff)

definition open_place :: "world_pack \<Rightarrow> string \<Rightarrow> int \<Rightarrow> int \<Rightarrow> bool" where
  "open_place pack mid x y \<longleftrightarrow> dict_mem mid (wp_maps pack) \<and> pack_is_walkable pack mid x y = Inr True"

lemma check_open_iff: "check_open pack l message = Inr () \<longleftrightarrow>
    open_place pack (loc_map_id l) (loc_x l) (loc_y l)"
  by (cases "pack_is_walkable pack (loc_map_id l) (loc_x l) (loc_y l)")
    (auto simp: check_open_def open_location_def open_place_def check_def raise_if_def)

lemma walkable_total:
  assumes "pack_ok pack" and "dict_mem mid (wp_maps pack)"
  obtains b where "pack_is_walkable pack mid x y = Inr b"
  using pack_is_walkable_total [OF pack_ok_maps [OF assms(1)] assms(2)] by blast

section \<open>Actors\<close>

definition actor_def_ok :: "world_pack \<Rightarrow> actor_definition \<Rightarrow> bool" where
  "actor_def_ok pack a \<longleftrightarrow>
     open_place pack (loc_map_id (ad_spawn a)) (loc_x (ad_spawn a)) (loc_y (ad_spawn a)) \<and>
     (\<forall>(r, v) \<in> set (ad_resources a). 0 \<le> v \<and> resource_declared pack r) \<and>
     (ad_schedule_id a \<noteq> None \<longrightarrow> opt_in (ad_schedule_id a) (wp_schedules pack)) \<and>
     (\<forall>i \<in> set (ad_ability_ids a). dict_mem i (wp_abilities pack)) \<and>
     (\<forall>(f, s) \<in> set (ad_knowledge a). dict_mem f (wp_facts pack) \<and> f \<notin> set (ad_forbidden_fact_ids a) \<and>
        s \<in> {''suspected'', ''known'', ''secret''}) \<and>
     (\<forall>(t, dims) \<in> set (ad_relationships a). dict_mem t (wp_actors pack) \<and>
        (\<forall>(d, v) \<in> set dims. d \<noteq> [] \<and> -100 \<le> v \<and> v \<le> 100)) \<and>
     (\<forall>(f, v) \<in> set (ad_faction_reputation a). dict_mem f (wp_factions pack) \<and> -100 \<le> v \<and> v \<le> 100) \<and>
     (\<forall>(n, v) \<in> set (ad_needs a). dict_mem n (wp_needs pack) \<and> 0 \<le> v \<and> v \<le> 100) \<and>
     (\<forall>g \<in> set (ad_goal_ids a). \<exists>d. map_of (wp_goals pack) g = Some d \<and> gd_parent_id d = None)"

definition spawn_key :: "actor_definition \<Rightarrow> string \<times> int \<times> int" where
  "spawn_key a = (loc_map_id (ad_spawn a), loc_x (ad_spawn a), loc_y (ad_spawn a))"

lemma pairs_ok: "\<not> list_ex (\<lambda>(k, v). bad k v) xs \<longleftrightarrow> (\<forall>(k, v) \<in> set xs. \<not> bad k v)"
  by (auto simp: list_ex_iff)

lemma keys_all: "\<not> list_ex (\<lambda>k. bad k) (dict_keys xs) \<longleftrightarrow> (\<forall>(k, v) \<in> set xs. \<not> bad k)"
  by (auto simp: list_ex_iff dict_keys_def)

lemma values_all: "\<not> list_ex (\<lambda>v. bad v) (dict_values xs) \<longleftrightarrow> (\<forall>(k, v) \<in> set xs. \<not> bad v)"
  by (auto simp: list_ex_iff dict_values_def)

lemma validate_actor_Inr:
  assumes "validate_actor pack taken a = Inr taken'" and "kv_ok (ad_knowledge a)"
  shows "actor_def_ok pack a \<and> spawn_key a \<notin> taken \<and> taken' = insert (spawn_key a) taken"
proof -
  have k: "dict_of (ad_knowledge a) = ad_knowledge a"
    using assms(2) by (simp add: dict_of_id kv_ok_distinct)
  have checks: "taken' = insert (spawn_key a) taken \<and> spawn_key a \<notin> taken \<and>
      open_place pack (loc_map_id (ad_spawn a)) (loc_x (ad_spawn a)) (loc_y (ad_spawn a)) \<and>
      \<not> list_ex (\<lambda>(r, v). v < 0 \<or> \<not> resource_declared pack r) (ad_resources a) \<and>
      \<not> (ad_schedule_id a \<noteq> None \<and> \<not> opt_in (ad_schedule_id a) (wp_schedules pack)) \<and>
      \<not> list_ex (\<lambda>i. \<not> dict_mem i (wp_abilities pack)) (ad_ability_ids a) \<and>
      \<not> list_ex (\<lambda>f. \<not> dict_mem f (wp_facts pack)) (dict_keys (ad_knowledge a)) \<and>
      set (dict_keys (ad_knowledge a)) \<inter> set (ad_forbidden_fact_ids a) = {} \<and>
      \<not> list_ex (\<lambda>s. s \<notin> knowledge_statuses - {''unknown''}) (dict_values (ad_knowledge a)) \<and>
      \<not> list_ex (\<lambda>(t, dims). \<not> dict_mem t (wp_actors pack) \<or>
                  list_ex (\<lambda>(d, v). d = [] \<or> v < -100 \<or> 100 < v) dims) (ad_relationships a) \<and>
      \<not> list_ex (\<lambda>(f, v). \<not> dict_mem f (wp_factions pack) \<or> v < -100 \<or> 100 < v)
                  (ad_faction_reputation a) \<and>
      \<not> list_ex (\<lambda>(n, v). \<not> dict_mem n (wp_needs pack) \<or> \<not> (0 \<le> v \<and> v \<le> 100)) (ad_needs a) \<and>
      \<not> list_ex (\<lambda>g. case map_of (wp_goals pack) g of None \<Rightarrow> True
                           | Some d \<Rightarrow> gd_parent_id d \<noteq> None) (ad_goal_ids a)"
    using assms(1) unfolding validate_actor_def Let_def k spawn_key_def [symmetric]
    by (elim rbind_InrE) (simp add: check_open_iff)
  have know: "dict_mem f (wp_facts pack) \<and> f \<notin> set (ad_forbidden_fact_ids a) \<and>
      s \<in> {''suspected'', ''known'', ''secret''}"
    if "(f, s) \<in> set (ad_knowledge a)" for f s
  proof -
    have "f \<in> set (dict_keys (ad_knowledge a))" "s \<in> set (dict_values (ad_knowledge a))"
      using that by (force simp: dict_keys_def dict_values_def)+
    then have "dict_mem f (wp_facts pack)" "f \<notin> set (ad_forbidden_fact_ids a)"
      "s \<in> knowledge_statuses - {''unknown''}"
      using checks by (simp add: list_ex_iff, blast, simp add: list_ex_iff)
    then show ?thesis by (simp add: knowledge_statuses_def)
  qed
  have goals: "\<exists>d. map_of (wp_goals pack) g = Some d \<and> gd_parent_id d = None"
    if "g \<in> set (ad_goal_ids a)" for g
    using checks that by (auto simp: list_ex_iff split: option.splits)
  have know': "\<forall>(f, s) \<in> set (ad_knowledge a). dict_mem f (wp_facts pack) \<and>
      f \<notin> set (ad_forbidden_fact_ids a) \<and> s \<in> {''suspected'', ''known'', ''secret''}"
    using know by blast
  have schedule: "ad_schedule_id a \<noteq> None \<longrightarrow> opt_in (ad_schedule_id a) (wp_schedules pack)"
    using checks by blast
  have abilities: "\<forall>i \<in> set (ad_ability_ids a). dict_mem i (wp_abilities pack)"
    using checks by (simp add: list_ex_iff)
  from checks goals have pairs: "(\<forall>(r, v) \<in> set (ad_resources a). 0 \<le> v \<and> resource_declared pack r) \<and>
     (\<forall>(t, dims) \<in> set (ad_relationships a). dict_mem t (wp_actors pack) \<and>
        (\<forall>(d, v) \<in> set dims. d \<noteq> [] \<and> -100 \<le> v \<and> v \<le> 100)) \<and>
     (\<forall>(f, v) \<in> set (ad_faction_reputation a). dict_mem f (wp_factions pack) \<and> -100 \<le> v \<and> v \<le> 100) \<and>
     (\<forall>(n, v) \<in> set (ad_needs a). dict_mem n (wp_needs pack) \<and> 0 \<le> v \<and> v \<le> 100) \<and>
     (\<forall>g \<in> set (ad_goal_ids a). \<exists>d. map_of (wp_goals pack) g = Some d \<and> gd_parent_id d = None)"
    by (simp add: pairs_ok case_prod_unfold list_ex_iff not_less)
  show ?thesis
    unfolding actor_def_ok_def using checks know' schedule abilities pairs by blast
qed

lemma validate_actors_Inr:
  assumes "foldR (validate_actor pack) taken as = Inr taken'" and "\<forall>a \<in> set as. kv_ok (ad_knowledge a)"
  shows "(\<forall>a \<in> set as. actor_def_ok pack a) \<and> distinct (map spawn_key as) \<and>
    spawn_key ` set as \<inter> taken = {}"
  using assms
proof (induction as arbitrary: taken)
  case (Cons a as)
  then obtain t where one: "validate_actor pack taken a = Inr t"
    and rest: "foldR (validate_actor pack) t as = Inr taken'" by auto
  note head = validate_actor_Inr [OF one] and tail = Cons.IH [OF rest]
  show ?case using head tail Cons.prems(2) by auto
qed simp

section \<open>The entries of an accepted pack\<close>

lemma pack_ok_wf: "pack_ok pack \<Longrightarrow> pack_wf pack"
  by (simp add: pack_ok_def)

lemma pack_ok_validates: "pack_ok pack \<Longrightarrow> validate_runtime_pack pack = Inr ()"
  by (simp add: pack_ok_def)

lemma pack_clock:
  "pack_ok pack \<Longrightarrow> 1 \<le> start_day (wp_clock pack) \<and> 0 \<le> start_minute (wp_clock pack) \<and>
     start_minute (wp_clock pack) < 1440 \<and> 1 \<le> ticks_per_minute (wp_clock pack) \<and>
     1 \<le> movement_interval_ticks (wp_clock pack)"
  by (simp add: pack_ok_def validate_runtime_pack_def validate_clock_def Let_def)

lemma pack_actors:
  assumes "pack_ok pack"
  shows "(\<forall>a \<in> set (dict_values (wp_actors pack)). actor_def_ok pack a \<and> actor_tuples_sorted a) \<and>
    distinct (map spawn_key (dict_values (wp_actors pack)))"
proof -
  have sorted: "\<forall>a \<in> set (dict_values (wp_actors pack)). actor_tuples_sorted a"
    using pack_ok_wf [OF assms] by (simp add: pack_wf_def list_all_iff)
  obtain t where "foldR (validate_actor pack) {} (dict_values (wp_actors pack)) = Inr t"
    using pack_ok_validates [OF assms] by (auto simp: validate_runtime_pack_def)
  from validate_actors_Inr [OF this] sorted show ?thesis
    by (simp add: actor_tuples_sorted_def)
qed

lemma pack_actor:
  assumes "pack_ok pack" and "map_of (wp_actors pack) k = Some a"
  shows "ad_id a = k" "actor_def_ok pack a" "actor_tuples_sorted a"
  using pack_actors [OF assms(1)] pack_ok_wf [OF assms(1)] assms(2)
  by (auto simp: pack_wf_def dest: dict_values_mem keyed_by_at)

lemma pack_ability:
  assumes "pack_ok pack" and "map_of (wp_abilities pack) k = Some a"
  shows "0 \<le> abd_cooldown_minutes a" "effects_ok pack (abd_effects a)"
    "\<forall>(r, c) \<in> set (abd_costs a). 0 < c \<and> resource_declared pack r"
proof -
  have mem: "a \<in> set (dict_values (wp_abilities pack))" using assms(2) by (rule dict_values_mem)
  then have one: "validate_ability pack a = Inr ()"
    and two: "validate_effects (abd_effects a) pack (''Ability '' @ abd_id a) = Inr ()"
    using pack_ok_validates [OF assms(1)] by (auto simp: validate_runtime_pack_def)
  from one show "0 \<le> abd_cooldown_minutes a"
    and "\<forall>(r, c) \<in> set (abd_costs a). 0 < c \<and> resource_declared pack r"
    by (auto simp: validate_ability_def list_ex_iff)
  from two show "effects_ok pack (abd_effects a)" by simp
qed

lemma pack_interaction:
  assumes "pack_ok pack" and "i \<in> set (dict_values (wp_interactions pack))"
  shows "effects_ok pack (ind_effects i)" "dict_mem (ind_id i) (wp_interactions pack)"
proof -
  have "validate_effects (ind_effects i) pack (''Interaction '' @ ind_id i) = Inr ()"
    using pack_ok_validates [OF assms(1)] assms(2) by (simp add: validate_runtime_pack_def)
  then show "effects_ok pack (ind_effects i)" by simp
  show "dict_mem (ind_id i) (wp_interactions pack)"
    using pack_ok_wf [OF assms(1)] assms(2) by (auto simp: pack_wf_def intro: keyed_by_ids_mem)
qed

definition choice_ok :: "world_pack \<Rightarrow> dialogue_definition \<Rightarrow> dialogue_choice_definition \<Rightarrow> bool" where
  "choice_ok pack d c \<longleftrightarrow>
     (dcd_next_node_id c = None \<or> opt_in (dcd_next_node_id c) (dd_nodes d)) \<and>
     conditions_ok pack (dcd_conditions c) \<and> effects_ok pack (dcd_effects c)"

definition node_ok :: "world_pack \<Rightarrow> dialogue_definition \<Rightarrow> dialogue_node_definition \<Rightarrow> bool" where
  "node_ok pack d n \<longleftrightarrow>
     dict_mem (dnd_speaker_id n) (wp_actors pack) \<and> effects_ok pack (dnd_on_enter n) \<and>
     (\<forall>c \<in> set (dnd_choices n). choice_ok pack d c)"

lemma validate_choices_Inr:
  "foldR (validate_choice pack d) ids cs = Inr ids' \<Longrightarrow> \<forall>c \<in> set cs. choice_ok pack d c"
proof (induction cs arbitrary: ids)
  case (Cons c cs)
  then obtain t where one: "validate_choice pack d ids c = Inr t"
    and rest: "foldR (validate_choice pack d) t cs = Inr ids'" by auto
  from one have "choice_ok pack d c"
    unfolding validate_choice_def Let_def choice_ok_def by (elim rbind_InrE) simp
  with Cons.IH [OF rest] show ?case by simp
qed simp

lemma pack_dialogue:
  assumes "pack_ok pack" and "map_of (wp_dialogues pack) k = Some d"
  shows "dd_id d = k" "dict_mem (dd_actor_id d) (wp_actors pack)" "dict_mem (dd_start_node_id d) (dd_nodes d)"
    "conditions_ok pack (dd_conditions d)"
    "\<And>n node. map_of (dd_nodes d) n = Some node \<Longrightarrow> node_ok pack d node"
proof -
  show "dd_id d = k" using pack_ok_wf [OF assms(1)] assms(2) by (auto simp: pack_wf_def dest: keyed_by_at)
  have "d \<in> set (dict_values (wp_dialogues pack))" using assms(2) by (rule dict_values_mem)
  then have v: "validate_dialogue pack d = Inr ()"
    using pack_ok_validates [OF assms(1)] by (simp add: validate_runtime_pack_def)
  then show "dict_mem (dd_actor_id d) (wp_actors pack)" "dict_mem (dd_start_node_id d) (dd_nodes d)"
    "conditions_ok pack (dd_conditions d)"
    by (simp_all add: validate_dialogue_def Let_def)
  fix n node assume "map_of (dd_nodes d) n = Some node"
  then have "node \<in> set (dict_values (dd_nodes d))" by (rule dict_values_mem)
  then have "validate_node pack d node = Inr ()" using v by (simp add: validate_dialogue_def Let_def)
  then show "node_ok pack d node"
    by (auto simp: validate_node_def Let_def node_ok_def dest: validate_choices_Inr)
qed

definition stage_ok :: "world_pack \<Rightarrow> quest_definition \<Rightarrow> quest_stage_definition \<Rightarrow> bool" where
  "stage_ok pack q s \<longleftrightarrow>
     (qsd_next_stage_id s = None \<or> opt_in (qsd_next_stage_id s) (qd_stages q)) \<and>
     conditions_ok pack (qsd_completion_conditions s) \<and> conditions_ok pack (qsd_failure_conditions s) \<and>
     effects_ok pack (qsd_on_complete s) \<and> effects_ok pack (qsd_on_fail s)"

lemma pack_quest:
  assumes "pack_ok pack" and "map_of (wp_quests pack) k = Some q"
  shows "qd_id q = k" "dict_mem (qd_start_stage_id q) (qd_stages q)"
    "conditions_ok pack (qd_auto_start_conditions q)"
    "\<And>s stage. map_of (qd_stages q) s = Some stage \<Longrightarrow> stage_ok pack q stage"
proof -
  show "qd_id q = k" using pack_ok_wf [OF assms(1)] assms(2) by (auto simp: pack_wf_def dest: keyed_by_at)
  have "q \<in> set (dict_values (wp_quests pack))" using assms(2) by (rule dict_values_mem)
  then have v: "validate_quest pack q = Inr ()"
    using pack_ok_validates [OF assms(1)] by (simp add: validate_runtime_pack_def)
  then show "dict_mem (qd_start_stage_id q) (qd_stages q)"
    "conditions_ok pack (qd_auto_start_conditions q)"
    by (simp_all add: validate_quest_def Let_def)
  fix s stage assume "map_of (qd_stages q) s = Some stage"
  then have "stage \<in> set (dict_values (qd_stages q))" by (rule dict_values_mem)
  then have "validate_stage pack q stage = Inr ()" using v by (simp add: validate_quest_def Let_def)
  then show "stage_ok pack q stage"
    by (simp add: validate_stage_def Let_def stage_ok_def ball_Un)
qed

lemma pack_scene:
  assumes "pack_ok pack" and "s \<in> set (dict_values (wp_scenes pack))"
  shows "dict_mem (snd_id s) (wp_scenes pack)" "CHR '':'' \<notin> set (snd_id s)"
    "conditions_ok pack (snd_conditions s)" "effects_ok pack (snd_effects s)"
proof -
  show mem: "dict_mem (snd_id s) (wp_scenes pack)"
    using pack_ok_wf [OF assms(1)] assms(2) by (auto simp: pack_wf_def intro: keyed_by_ids_mem)
  then show "CHR '':'' \<notin> set (snd_id s)"
    using assms(1) by (auto simp: pack_ok_def ids_plain_def dict_mem_keys)
  have "validate_scene pack s = Inr ()"
    using pack_ok_validates [OF assms(1)] assms(2) by (simp add: validate_runtime_pack_def)
  then show "conditions_ok pack (snd_conditions s)" "effects_ok pack (snd_effects s)"
    by (simp_all add: validate_scene_def Let_def)
qed

lemma pack_need:
  assumes "pack_ok pack" and "map_of (wp_needs pack) k = Some n"
  shows "1 \<le> nd_decay_interval_minutes n" "dict_mem (nd_resource_id n) (wp_resources pack)"
    "1 \<le> nd_consume_amount n" "1 \<le> nd_restore_amount n" "1 \<le> nd_decay_amount n"
proof -
  have "n \<in> set (dict_values (wp_needs pack))" using assms(2) by (rule dict_values_mem)
  then have "validate_need pack n = Inr ()"
    using pack_ok_validates [OF assms(1)] by (simp add: validate_runtime_pack_def)
  then show "1 \<le> nd_decay_interval_minutes n" "dict_mem (nd_resource_id n) (wp_resources pack)"
    "1 \<le> nd_consume_amount n" "1 \<le> nd_restore_amount n" "1 \<le> nd_decay_amount n"
    by (simp_all add: validate_need_def)
qed

lemma pack_stockpile:
  assumes "pack_ok pack" and "map_of (wp_stockpiles pack) k = Some s"
  shows "sd_id s = k" "kv_ok (sd_resources s)"
    "\<forall>(r, v) \<in> set (sd_resources s). dict_mem r (wp_resources pack) \<and> 0 \<le> v"
    "total_units (sd_resources s) \<le> sd_capacity s"
proof -
  have mem: "s \<in> set (dict_values (wp_stockpiles pack))" using assms(2) by (rule dict_values_mem)
  then show "sd_id s = k" "kv_ok (sd_resources s)"
    using pack_ok_wf [OF assms(1)] assms(2) by (auto simp: pack_wf_def list_all_iff dest: keyed_by_at)
  have "validate_stockpile pack s = Inr ()"
    using pack_ok_validates [OF assms(1)] mem by (simp add: validate_runtime_pack_def)
  then show "\<forall>(r, v) \<in> set (sd_resources s). dict_mem r (wp_resources pack) \<and> 0 \<le> v"
    "total_units (sd_resources s) \<le> sd_capacity s"
    by (auto simp: validate_stockpile_def Let_def list_ex_iff not_less)
qed

lemma pack_construction:
  assumes "pack_ok pack" and "map_of (wp_constructions pack) k = Some c"
  shows "cd_id c = k" "distinct (cd_footprint c)" "(0, 0) \<in> set (cd_footprint c)"
    "\<forall>(r, v) \<in> set (cd_costs c). dict_mem r (wp_resources pack) \<and> 1 \<le> v"
    "1 \<le> cd_build_minutes c" "cd_stockpile_id c \<noteq> None \<Longrightarrow> opt_in (cd_stockpile_id c) (wp_stockpiles pack)"
proof -
  have mem: "c \<in> set (dict_values (wp_constructions pack))" using assms(2) by (rule dict_values_mem)
  show "cd_id c = k" using pack_ok_wf [OF assms(1)] assms(2) by (auto simp: pack_wf_def dest: keyed_by_at)
  have "validate_construction pack c = Inr ()"
    using pack_ok_validates [OF assms(1)] mem by (simp add: validate_runtime_pack_def)
  then show "distinct (cd_footprint c)" "(0, 0) \<in> set (cd_footprint c)"
    "\<forall>(r, v) \<in> set (cd_costs c). dict_mem r (wp_resources pack) \<and> 1 \<le> v"
    "1 \<le> cd_build_minutes c" "cd_stockpile_id c \<noteq> None \<Longrightarrow> opt_in (cd_stockpile_id c) (wp_stockpiles pack)"
    by (auto simp: validate_construction_def list_ex_iff not_less card_distinct)
qed

lemma pack_recipe:
  assumes "pack_ok pack" and "map_of (wp_production_recipes pack) k = Some r"
  shows "prd_id r = k" "dict_mem (prd_required_construction_id r) (wp_constructions pack)"
    "1 \<le> prd_duration_minutes r"
    "kv_ok (prd_inputs r)" "kv_ok (prd_outputs r)"
    "\<forall>(k, v) \<in> set (prd_inputs r). dict_mem k (wp_resources pack) \<and> 1 \<le> v"
    "\<forall>(k, v) \<in> set (prd_outputs r). dict_mem k (wp_resources pack) \<and> 1 \<le> v"
proof -
  have mem: "r \<in> set (dict_values (wp_production_recipes pack))" using assms(2) by (rule dict_values_mem)
  then show "prd_id r = k" "kv_ok (prd_inputs r)" "kv_ok (prd_outputs r)"
    using pack_ok_wf [OF assms(1)] assms(2) by (auto simp: pack_wf_def list_all_iff dest: keyed_by_at)
  have "validate_recipe pack r = Inr ()"
    using pack_ok_validates [OF assms(1)] mem by (simp add: validate_runtime_pack_def)
  then show "dict_mem (prd_required_construction_id r) (wp_constructions pack)"
    "1 \<le> prd_duration_minutes r"
    "\<forall>(k, v) \<in> set (prd_inputs r). dict_mem k (wp_resources pack) \<and> 1 \<le> v"
    "\<forall>(k, v) \<in> set (prd_outputs r). dict_mem k (wp_resources pack) \<and> 1 \<le> v"
    by (auto simp: validate_recipe_def list_ex_iff not_less)
qed

lemma pack_consequence:
  assumes "pack_ok pack" and "map_of (wp_consequences pack) k = Some c"
  shows "csd_id c = k" "1 \<le> csd_delay_minutes c" "conditions_ok pack (csd_conditions c)"
    "effects_ok pack (csd_effects c)"
proof -
  have mem: "c \<in> set (dict_values (wp_consequences pack))" using assms(2) by (rule dict_values_mem)
  show "csd_id c = k" using pack_ok_wf [OF assms(1)] assms(2) by (auto simp: pack_wf_def dest: keyed_by_at)
  have "validate_consequence pack c = Inr ()"
    using pack_ok_validates [OF assms(1)] mem by (simp add: validate_runtime_pack_def)
  then show "1 \<le> csd_delay_minutes c" "conditions_ok pack (csd_conditions c)"
    "effects_ok pack (csd_effects c)"
    by (simp_all add: validate_consequence_def Let_def)
qed

definition goal_action_ok :: "world_pack \<Rightarrow> goal_action_definition \<Rightarrow> bool" where
  "goal_action_ok pack a \<longleftrightarrow>
     (gad_kind a = ''satisfy_need'' \<longrightarrow> opt_in (gad_need_id a) (wp_needs pack)) \<and>
     (gad_kind a = ''produce'' \<longrightarrow> opt_in (gad_recipe_id a) (wp_production_recipes pack)) \<and>
     (gad_kind a = ''build'' \<longrightarrow> opt_in (gad_blueprint_id a) (wp_constructions pack)) \<and>
     (gad_stockpile_id a \<noteq> None \<longrightarrow> opt_in (gad_stockpile_id a) (wp_stockpiles pack))"

lemma pack_goal:
  assumes "pack_ok pack" and "map_of (wp_goals pack) k = Some g"
  shows "gd_id g = k" "gd_parent_id g \<noteq> None \<Longrightarrow> opt_in (gd_parent_id g) (wp_goals pack)"
    "conditions_ok pack (gd_conditions g)" "gd_action g = Some a \<Longrightarrow> goal_action_ok pack a"
    "climb (wp_goals pack) {} (Some k) = Inr ()"
proof -
  have mem: "g \<in> set (dict_values (wp_goals pack))" using assms(2) by (rule dict_values_mem)
  show "gd_id g = k" using pack_ok_wf [OF assms(1)] assms(2) by (auto simp: pack_wf_def dest: keyed_by_at)
  have "k \<in> set (dict_keys (wp_goals pack))" using assms(2) by (simp add: dict_mem_keys [symmetric] dict_mem_def)
  then show "climb (wp_goals pack) {} (Some k) = Inr ()"
    using pack_ok_validates [OF assms(1)] by (simp add: validate_runtime_pack_def)
  have "validate_goal pack g = Inr ()"
    using pack_ok_validates [OF assms(1)] mem by (simp add: validate_runtime_pack_def)
  then show "gd_parent_id g \<noteq> None \<Longrightarrow> opt_in (gd_parent_id g) (wp_goals pack)"
    "conditions_ok pack (gd_conditions g)" "gd_action g = Some a \<Longrightarrow> goal_action_ok pack a"
    by (auto simp: validate_goal_def Let_def goal_action_ok_def)
qed

end
