(* ===== verification/Reducer.thy ===== *)
theory Reducer
  imports PackContract
begin

text \<open>
  The reducer and its owners: \<open>initial_world_state\<close> and \<open>reduce_world\<close> of
  \<open>src/isoworld/world/state.py\<close>, the \<open>Simulation\<close> class of \<open>simulation.py\<close>, and
  \<open>replay_actions\<close> of \<open>persistence.py\<close>. A run of actions is a fold of the reducer.
\<close>

section \<open>The initial state\<close>

definition initial_actor :: "actor_definition \<Rightarrow> actor_state" where
  "initial_actor d =
     \<lparr>as_actor_id = ad_id d, as_map_id = loc_map_id (ad_spawn d), as_x = loc_x (ad_spawn d),
      as_y = loc_y (ad_spawn d), as_resources = ad_resources d, as_cooldowns = [], as_route = [],
      as_blocked_ticks = 0, as_knowledge = ad_knowledge d,
      as_relationships = flat_relationships (ad_relationships d),
      as_faction_reputation = ad_faction_reputation d, as_needs = ad_needs d,
      as_active_goal_id = None\<rparr>"

definition bare_initial_state :: "world_pack \<Rightarrow> string \<Rightarrow> world_state" where
  "bare_initial_state pack first_actor =
     \<lparr>ws_tick = 0, ws_day = start_day (wp_clock pack), ws_minute_of_day = start_minute (wp_clock pack),
      ws_minute_tick = 0, ws_active_actor_id = first_actor,
      ws_actors = map initial_actor (dict_values (wp_actors pack)), ws_flags = {},
      ws_completed_interactions = {},
      ws_quests = map (\<lambda>qid. quest_progress qid ''inactive'' None) (sort (dict_keys (wp_quests pack))),
      ws_dialogue = None, ws_active_scene_id = None, ws_triggered_scenes = {}, ws_recent_events = [],
      ws_stockpiles = map (\<lambda>d. \<lparr>ss_stockpile_id = sd_id d, ss_resources = sd_resources d\<rparr>)
                        (dict_values (wp_stockpiles pack)),
      ws_constructions = [], ws_production_jobs = [], ws_pending_consequences = [],
      ws_triggered_consequences = {}, ws_last_message = []\<rparr>"

definition initial_world_state :: "nat \<Rightarrow> world_pack \<Rightarrow> world_state res" where
  "initial_world_state depth pack =
     (case playable_actor_ids pack of [] \<Rightarrow> Inl IndexError
      | first_actor # _ \<Rightarrow> initialize_narrative depth (bare_initial_state pack first_actor) pack)"

section \<open>The reducer\<close>

definition narrative_kinds :: "string set" where
  "narrative_kinds = {''start_dialogue'', ''choose_dialogue'', ''end_dialogue'', ''dismiss_scene''}"

text \<open>The loop that announces who has moved since the action began.\<close>

definition note_arrival ::
  "world_state \<Rightarrow> domain_event list \<Rightarrow> actor_state \<Rightarrow> domain_event list res" where
  "note_arrival before events a =
     rbind (get_actor before (as_actor_id a)) (\<lambda>previous.
       Inr (if (as_map_id previous, as_x previous, as_y previous) \<noteq> (as_map_id a, as_x a, as_y a)
            then events @ [domain_event_of ''location_entered'' (as_actor_id a) (as_map_id a)]
            else events))"

definition minute_changed_event :: domain_event where
  "minute_changed_event = \<lparr>ev_kind = ''minute_changed'', ev_actor_id = None, ev_subject_id = None\<rparr>"

definition tick :: "nat \<Rightarrow> world_state \<Rightarrow> world_pack \<Rightarrow> world_state res" where
  "tick depth st pack =
     (let advanced = advance_clock st pack in
      rbind (if (ws_day st, ws_minute_of_day st) \<noteq> (ws_day advanced, ws_minute_of_day advanced)
             then rbind (advance_living_world depth advanced pack [minute_changed_event])
                    (\<lambda>w. Inr (w, ws_recent_events w))
             else Inr (advanced, [])) (\<lambda>(world, events).
      rbind (plan_schedules world pack) (\<lambda>planned.
      rbind (advance_routes planned pack) (\<lambda>moved.
      rbind (foldR (note_arrival st) events (ws_actors moved)) (\<lambda>events'.
        postprocess_narrative depth (moved\<lparr>ws_recent_events := events'\<rparr>) pack events'
          (ws_active_actor_id st))))))"

definition then_postprocess ::
  "nat \<Rightarrow> world_pack \<Rightarrow> string \<Rightarrow> world_state res \<Rightarrow> world_state res" where
  "then_postprocess depth pack source r =
     rbind r (\<lambda>st. postprocess_narrative depth st pack (ws_recent_events st) source)"

definition reduce_world :: "nat \<Rightarrow> world_state \<Rightarrow> game_action \<Rightarrow> world_pack \<Rightarrow> world_state res" where
  "reduce_world depth before act pack =
     (let st = before\<lparr>ws_recent_events := []\<rparr>; finish = then_postprocess depth pack (action_actor st act) in
      if ws_active_scene_id st \<noteq> None \<or> ws_dialogue st \<noteq> None
      then handle_narrative_action depth st act pack
      else if ga_kind act \<in> narrative_kinds then handle_narrative_action depth st act pack
      else if ga_kind act = ''tick'' then tick depth st pack
      else if ga_kind act = ''select_actor'' \<and> ga_actor_id act \<in> Some ` set (playable_actor_ids pack)
      then Inr (st\<lparr>ws_active_actor_id := the (ga_actor_id act), ws_recent_events := [],
                   ws_last_message := []\<rparr>)
      else if ga_kind act = ''move'' then finish (move st act pack)
      else if ga_kind act = ''navigate''
      then rbind (navigate st act pack) (\<lambda>st'. Inr (st'\<lparr>ws_recent_events := []\<rparr>))
      else if ga_kind act = ''interact'' then finish (interact st act pack)
      else if ga_kind act = ''use_ability'' then finish (use_ability st act pack)
      else if ga_kind act = ''build'' then finish (build depth st act pack)
      else if ga_kind act = ''start_production'' then finish (start_production depth st act pack)
      else if ga_kind act = ''transfer_resource'' then finish (transfer_resource depth st act pack)
      else Inr (st\<lparr>ws_recent_events := []\<rparr>))"

section \<open>Simulation and replay\<close>

record simulation =
  sim_pack :: world_pack
  sim_state :: world_state
  sim_action_log :: "game_action list"

definition new_simulation :: "nat \<Rightarrow> world_pack \<Rightarrow> world_state option \<Rightarrow> simulation res" where
  "new_simulation depth pack given =
     rbind (case given of Some st \<Rightarrow> Inr st | None \<Rightarrow> initial_world_state depth pack) (\<lambda>st.
       Inr \<lparr>sim_pack = pack, sim_state = st, sim_action_log = []\<rparr>)"

definition dispatch :: "nat \<Rightarrow> simulation \<Rightarrow> game_action \<Rightarrow> bool \<Rightarrow> simulation res" where
  "dispatch depth sim act recording =
     rbind (reduce_world depth (sim_state sim) act (sim_pack sim)) (\<lambda>st.
       Inr (sim\<lparr>sim_state := st,
                sim_action_log := (if recording then sim_action_log sim @ [act] else sim_action_log sim)\<rparr>))"

definition sim_tick :: "nat \<Rightarrow> simulation \<Rightarrow> simulation res" where
  "sim_tick depth sim = dispatch depth sim (game_action_of ''tick'') True"

definition restore :: "simulation \<Rightarrow> world_state \<Rightarrow> simulation" where
  "restore sim st = sim\<lparr>sim_state := st, sim_action_log := []\<rparr>"

text \<open>
  \<open>replay_actions\<close>: the errors of the reducer that the code catches become a
  \<open>PersistenceError\<close> with the position of the action; others escape as they are.
\<close>

definition caught_by_replay :: "exn \<Rightarrow> bool" where
  "caught_by_replay e =
     (case e of KeyError _ \<Rightarrow> True | TypeError _ \<Rightarrow> True | ValueError _ \<Rightarrow> True
      | WorldPackError _ \<Rightarrow> True | PersistenceError _ \<Rightarrow> True | GameLogicError _ _ \<Rightarrow> True
      | _ \<Rightarrow> False)"

fun replay_from ::
  "nat \<Rightarrow> world_pack \<Rightarrow> nat \<Rightarrow> world_state \<Rightarrow> game_action list \<Rightarrow> world_state res" where
  "replay_from depth pack i st [] = Inr st"
| "replay_from depth pack i st (act # acts) =
     (case reduce_world depth st act pack of
        Inr st' \<Rightarrow> replay_from depth pack (Suc i) st' acts
      | Inl e \<Rightarrow>
          if caught_by_replay e
          then Inl (PersistenceError (''Replay action '' @ dec (int i) @ '' is invalid''))
          else Inl e)"

definition replay_actions :: "nat \<Rightarrow> world_pack \<Rightarrow> game_action list \<Rightarrow> world_state res" where
  "replay_actions depth pack acts =
     rbind (initial_world_state depth pack) (\<lambda>st. replay_from depth pack 0 st acts)"

end
