(* ===== verification/SaveValidation.thy ===== *)
theory SaveValidation
  imports Reducer
begin

text \<open>
  \<open>_validate_state\<close> of \<open>src/isoworld/persistence.py\<close>: what a world state must satisfy to be
  written to a save or accepted from one. The checks come in the order of the code and raise
  \<open>PersistenceError\<close> with its messages; lookups that the code leaves unguarded raise
  \<open>KeyError\<close> as they do there. \<open>isinstance\<close> checks that the types give are left out.
\<close>

definition deny :: "bool \<Rightarrow> string \<Rightarrow> unit res" where
  "deny bad message = raise_if bad (PersistenceError message)"

lemma deny_ok [simp]: "deny bad message = Inr () \<longleftrightarrow> \<not> bad"
  by (simp add: deny_def raise_if_def)

definition denyR :: "bool res \<Rightarrow> string \<Rightarrow> unit res" where
  "denyR bad message = rbind bad (\<lambda>b. deny b message)"

lemma denyR_ok [simp]: "denyR bad message = Inr () \<longleftrightarrow> bad = Inr False"
  by (cases bad) (auto simp: denyR_def)

section \<open>Identity and time\<close>

definition same_ids :: "string list \<Rightarrow> 'v dict \<Rightarrow> bool" where
  "same_ids ids d \<longleftrightarrow> set ids = set (dict_keys d) \<and> length ids = length d"

definition validate_header :: "world_state \<Rightarrow> world_pack \<Rightarrow> unit res" where
  "validate_header st pack =
     (let ids = map as_actor_id (ws_actors st) in in_order
      [deny (set ids \<noteq> set (dict_keys (wp_actors pack)) \<or> card (set ids) \<noteq> length (ws_actors st))
         ''Saved actors do not match the worldpack'',
       deny (ws_active_actor_id st \<notin> set (playable_actor_ids pack)) ''The active actor is not playable'',
       deny (ws_tick st < 0 \<or> ws_day st < 1) ''Saved time cannot be negative'',
       deny (\<not> (0 \<le> ws_minute_of_day st \<and> ws_minute_of_day st < 1440))
         ''minute_of_day is outside 0..1439'',
       deny (\<not> (0 \<le> ws_minute_tick st \<and> ws_minute_tick st < ticks_per_minute (wp_clock pack)))
         ''minute_tick is outside the clock range''])"

section \<open>Actors\<close>

definition bad_position :: "world_state \<Rightarrow> world_pack \<Rightarrow> actor_state \<Rightarrow> bool res" where
  "bad_position st pack a =
     (if \<not> dict_mem (as_map_id a) (wp_maps pack) then Inr True
      else rbind (pack_is_walkable pack (as_map_id a) (as_x a) (as_y a)) (\<lambda>w.
        if \<not> w then Inr True
        else rbind (dynamic_blocked_cells st pack (as_map_id a)) (\<lambda>blocked.
          Inr (actor_cell a \<in> blocked))))"

definition bad_route_cell :: "world_state \<Rightarrow> world_pack \<Rightarrow> actor_state \<Rightarrow> cell \<Rightarrow> bool res" where
  "bad_route_cell st pack a c =
     rbind (pack_is_walkable pack (as_map_id a) (fst c) (snd c)) (\<lambda>w.
       if \<not> w then Inr True
       else rbind (dynamic_blocked_cells st pack (as_map_id a)) (\<lambda>blocked. Inr (c \<in> blocked)))"

definition validate_actor_state ::
  "world_state \<Rightarrow> world_pack \<Rightarrow> (string \<times> int \<times> int) set \<Rightarrow> actor_state \<Rightarrow>
   (string \<times> int \<times> int) set res" where
  "validate_actor_state st pack taken a =
     (let name = ''Actor '' @ as_actor_id a; key = (as_map_id a, as_x a, as_y a) in
      rbind (denyR (bad_position st pack a) (name @ '' has an invalid position'')) (\<lambda>_.
      rbind (deny (key \<in> taken) ''Two actors occupy the same cell'') (\<lambda>_.
      rbind (deny (list_ex (\<lambda>(r, v). v < 0 \<or> \<not> resource_declared pack r) (as_resources a))
               (name @ '' has an invalid resource'')) (\<lambda>_.
      rbind (deny (list_ex (\<lambda>(i, v). \<not> dict_mem i (wp_abilities pack) \<or> v < 0) (as_cooldowns a))
               (name @ '' has an invalid cooldown'')) (\<lambda>_.
      rbind (denyR (anyR (bad_route_cell st pack a) (as_route a)) (name @ '' has an invalid route'')) (\<lambda>_.
      rbind (dict_at (wp_actors pack) (as_actor_id a)) (\<lambda>d.
      rbind (in_order
        [deny (list_ex (\<lambda>(f, s). \<not> dict_mem f (wp_facts pack) \<or>
                  s \<notin> {''suspected'', ''known'', ''secret''} \<or> f \<in> set (ad_forbidden_fact_ids d))
                (as_knowledge a))
           (name @ '' has invalid knowledge''),
         deny (list_ex (\<lambda>((t, dim), v). \<not> dict_mem t (wp_actors pack) \<or> dim = [] \<or>
                  \<not> (-100 \<le> v \<and> v \<le> 100)) (as_relationships a))
           (name @ '' has an invalid relationship''),
         deny (list_ex (\<lambda>(f, v). \<not> dict_mem f (wp_factions pack) \<or> \<not> (-100 \<le> v \<and> v \<le> 100))
                (as_faction_reputation a))
           (name @ '' has an invalid reputation''),
         deny (list_ex (\<lambda>(n, v). \<not> dict_mem n (wp_needs pack) \<or> \<not> (0 \<le> v \<and> v \<le> 100)) (as_needs a))
           (name @ '' has invalid needs''),
         deny (fst ` set (as_needs a) \<noteq> fst ` set (ad_needs d)) (name @ '' has incomplete needs''),
         deny (as_active_goal_id a \<noteq> None \<and> \<not> opt_in (as_active_goal_id a) (wp_goals pack))
           (name @ '' has an invalid active goal'')])
      (\<lambda>_. Inr (insert key taken)))))))))"

section \<open>Quests, dialogue, scenes and events\<close>

definition validate_quest_state :: "world_pack \<Rightarrow> quest_state \<Rightarrow> unit res" where
  "validate_quest_state pack q =
     rbind (dict_at (wp_quests pack) (qs_quest_id q)) (\<lambda>d.
     let name = ''Quest '' @ qs_quest_id q in in_order
       [deny (qs_status q \<notin> {''inactive'', ''active'', ''completed'', ''failed''})
          (name @ '' has an invalid status''),
        deny (qs_stage_id q \<noteq> None \<and> \<not> opt_in (qs_stage_id q) (qd_stages d))
          (name @ '' has an invalid stage''),
        deny (qs_status q = ''active'' \<and> qs_stage_id q = None) (name @ '' has no active stage'')])"

definition bad_dialogue :: "world_pack \<Rightarrow> dialogue_state \<Rightarrow> bool" where
  "bad_dialogue pack ds =
     (case map_of (wp_dialogues pack) (ds_dialogue_id ds) of None \<Rightarrow> True
      | Some d \<Rightarrow> \<not> dict_mem (ds_node_id ds) (dd_nodes d) \<or>
                  \<not> dict_mem (ds_initiator_actor_id ds) (wp_actors pack) \<or>
                  ds_partner_actor_id ds \<noteq> dd_actor_id d)"

definition before_colon :: "string \<Rightarrow> string" where
  "before_colon s = takeWhile (\<lambda>c. c \<noteq> CHR '':'') s"

definition bad_event :: "world_pack \<Rightarrow> domain_event \<Rightarrow> bool" where
  "bad_event pack ev \<longleftrightarrow>
     ev_kind ev = [] \<or> ev_actor_id ev \<noteq> None \<and> \<not> opt_in (ev_actor_id ev) (wp_actors pack)"

definition validate_story :: "world_state \<Rightarrow> world_pack \<Rightarrow> unit res" where
  "validate_story st pack = in_order
     [deny (\<not> ws_completed_interactions st \<subseteq> set (dict_keys (wp_interactions pack)))
        ''Saved interactions do not match the worldpack'',
      deny (\<not> same_ids (map qs_quest_id (ws_quests st)) (wp_quests pack))
        ''Saved quests do not match the worldpack'',
      each (validate_quest_state pack) (ws_quests st),
      deny (case ws_dialogue st of None \<Rightarrow> False | Some ds \<Rightarrow> bad_dialogue pack ds)
        ''Saved dialogue is invalid'',
      deny (ws_active_scene_id st \<noteq> None \<and> \<not> opt_in (ws_active_scene_id st) (wp_scenes pack))
        ''Saved scene is invalid'',
      deny (\<not> before_colon ` ws_triggered_scenes st \<subseteq> set (dict_keys (wp_scenes pack)))
        ''Saved scene history is invalid'',
      deny (list_ex (bad_event pack) (ws_recent_events st)) ''Saved events are invalid'']"

section \<open>Stockpiles, constructions, jobs and consequences\<close>

definition validate_stock_state :: "world_pack \<Rightarrow> stockpile_state \<Rightarrow> unit res" where
  "validate_stock_state pack s =
     rbind (dict_at (wp_stockpiles pack) (ss_stockpile_id s)) (\<lambda>d.
       deny (list_ex (\<lambda>(r, v). \<not> dict_mem r (wp_resources pack) \<or> v < 0) (ss_resources s) \<or>
             sd_capacity d < stockpile_total s)
         (''Stockpile '' @ ss_stockpile_id s @ '' is invalid''))"

definition claim_cell ::
  "world_pack \<Rightarrow> construction_state \<Rightarrow> (string \<times> int \<times> int) set \<Rightarrow> cell \<Rightarrow>
   (string \<times> int \<times> int) set res" where
  "claim_cell pack c taken offset =
     (let x = cs_x c + fst offset; y = cs_y c + snd offset; key = (cs_map_id c, x, y) in
      rbind (denyR (if key \<in> taken then Inr True
                    else rbind (pack_is_walkable pack (cs_map_id c) x y) (\<lambda>w. Inr (\<not> w)))
               (''Construction '' @ cs_instance_id c @ '' has invalid cells''))
        (\<lambda>_. Inr (insert key taken)))"

definition validate_site ::
  "world_state \<Rightarrow> world_pack \<Rightarrow> (string \<times> int \<times> int) set \<Rightarrow> construction_state \<Rightarrow>
   (string \<times> int \<times> int) set res" where
  "validate_site st pack taken c =
     (let name = ''Construction '' @ cs_instance_id c; now = absolute_minute st in
      rbind (in_order
        [deny (\<not> dict_mem (cs_blueprint_id c) (wp_constructions pack) \<or>
               \<not> dict_mem (cs_map_id c) (wp_maps pack) \<or>
               cs_status c \<notin> {''building'', ''completed''} \<or>
               \<not> dict_mem (cs_builder_actor_id c) (wp_actors pack) \<or> cs_complete_at_minute c < 0)
           (name @ '' is invalid''),
         deny (cs_instance_id c \<noteq> instance_id (cs_blueprint_id c) (cs_map_id c) (cs_x c) (cs_y c) \<or>
               cs_status c = ''building'' \<and> cs_complete_at_minute c \<le> now \<or>
               cs_status c = ''completed'' \<and> now < cs_complete_at_minute c)
           (name @ '' has invalid timing'')]) (\<lambda>_.
      rbind (dict_at (wp_constructions pack) (cs_blueprint_id c)) (\<lambda>blueprint.
        foldR (claim_cell pack c) taken (cd_footprint blueprint))))"

definition bad_job :: "world_state \<Rightarrow> world_pack \<Rightarrow> production_job \<Rightarrow> bool" where
  "bad_job st pack j \<longleftrightarrow>
     pj_construction_instance_id j \<notin> cs_instance_id ` set (ws_constructions st) \<or>
     \<not> dict_mem (pj_recipe_id j) (wp_production_recipes pack) \<or>
     \<not> dict_mem (pj_actor_id j) (wp_actors pack) \<or>
     pj_complete_at_minute j \<le> absolute_minute st"

definition wrong_site :: "world_state \<Rightarrow> world_pack \<Rightarrow> production_job \<Rightarrow> bool res" where
  "wrong_site st pack j =
     rbind (dict_at (wp_production_recipes pack) (pj_recipe_id j)) (\<lambda>r.
     rbind (dict_at (dict_of (map (\<lambda>c. (cs_instance_id c, c)) (ws_constructions st)))
              (pj_construction_instance_id j)) (\<lambda>c.
       Inr (prd_required_construction_id r \<noteq> cs_blueprint_id c)))"

definition bad_pending :: "world_state \<Rightarrow> world_pack \<Rightarrow> pending_consequence \<Rightarrow> bool" where
  "bad_pending st pack p \<longleftrightarrow>
     \<not> dict_mem (pc_consequence_id p) (wp_consequences pack) \<or>
     \<not> dict_mem (pc_source_actor_id p) (wp_actors pack) \<or>
     pc_due_at_minute p \<le> absolute_minute st"

definition validate_economy :: "world_state \<Rightarrow> world_pack \<Rightarrow> unit res" where
  "validate_economy st pack = in_order
     [deny (\<not> same_ids (map ss_stockpile_id (ws_stockpiles st)) (wp_stockpiles pack))
        ''Saved stockpiles do not match the worldpack'',
      each (validate_stock_state pack) (ws_stockpiles st),
      deny (card (cs_instance_id ` set (ws_constructions st)) \<noteq> length (ws_constructions st))
        ''Saved construction IDs are not unique'',
      rbind (foldR (validate_site st pack) {} (ws_constructions st)) (\<lambda>_. Inr ()),
      deny (list_ex (bad_job st pack) (ws_production_jobs st)) ''Saved production jobs are invalid'',
      denyR (anyR (wrong_site st pack) (ws_production_jobs st))
        ''Saved production job uses the wrong construction'',
      deny (card (pj_construction_instance_id ` set (ws_production_jobs st)) \<noteq>
              length (ws_production_jobs st))
        ''A construction has multiple production jobs'',
      deny (list_ex (bad_pending st pack) (ws_pending_consequences st))
        ''Saved pending consequences are invalid'',
      deny (card (pc_consequence_id ` set (ws_pending_consequences st)) \<noteq>
              length (ws_pending_consequences st))
        ''Saved pending consequences are duplicated'',
      deny (\<not> ws_triggered_consequences st \<subseteq> set (dict_keys (wp_consequences pack)))
        ''Saved consequence history is invalid'']"

definition validate_state :: "world_state \<Rightarrow> world_pack \<Rightarrow> unit res" where
  "validate_state st pack = in_order
     [validate_header st pack,
      rbind (foldR (validate_actor_state st pack) {} (ws_actors st)) (\<lambda>_. Inr ()),
      validate_story st pack,
      validate_economy st pack]"

end
