(* ===== verification/WorldInvariant.thy ===== *)
theory WorldInvariant
  imports PackFacts SaveValidation
begin

text \<open>
  The invariant of a running world, over an accepted pack. It is made of one predicate per
  part of the state, each on the field it is about, so that an operation has to deal only with
  the fields it writes: the cast (identity, attributes, standing), the quests, the open
  dialogue and scene, the events, the stockpiles, the construction sites, the jobs and the
  pending consequences. The three \<open>*_timed\<close> predicates relate deadlines to the clock; they
  are apart because a tick breaks them before it restores them.
\<close>

section \<open>Key/value tuples\<close>

definition kv_valid :: "('k::linorder \<Rightarrow> 'v \<Rightarrow> bool) \<Rightarrow> ('k \<times> 'v) list \<Rightarrow> bool" where
  "kv_valid P xs \<longleftrightarrow> kv_ok xs \<and> (\<forall>(k, v) \<in> set xs. P k v)"

lemma kv_valid_put [intro]: "kv_valid P xs \<Longrightarrow> P k v \<Longrightarrow> kv_valid P (kv_put k v xs)"
  unfolding kv_valid_def using set_kv_put by fastforce

lemma kv_valid_drop [intro]: "kv_valid P xs \<Longrightarrow> kv_valid P (kv_drop k xs)"
  unfolding kv_valid_def using set_kv_drop by fastforce

lemma kv_valid_Nil [simp]: "kv_valid P []"
  by (simp add: kv_valid_def)

definition has_keys :: "('k \<times> 'v) list \<Rightarrow> ('k \<times> 'w) list \<Rightarrow> bool" where
  "has_keys wanted xs \<longleftrightarrow> fst ` set wanted \<subseteq> fst ` set xs"

lemma has_keys_put [intro]: "has_keys wanted xs \<Longrightarrow> has_keys wanted (kv_put k v xs)"
  unfolding has_keys_def keys_kv_put by blast

section \<open>Construction sites\<close>

definition cells_of :: "world_pack \<Rightarrow> construction_state \<Rightarrow> cell set" where
  "cells_of pack c =
     (case map_of (wp_constructions pack) (cs_blueprint_id c) of None \<Rightarrow> {}
      | Some b \<Rightarrow> footprint_cells (cs_x c) (cs_y c) (cd_footprint b))"

definition blocks :: "world_pack \<Rightarrow> construction_state \<Rightarrow> bool" where
  "blocks pack c =
     (case map_of (wp_constructions pack) (cs_blueprint_id c) of None \<Rightarrow> False
      | Some b \<Rightarrow> cd_blocks_movement b)"

definition site_cells :: "world_pack \<Rightarrow> construction_state list \<Rightarrow> string \<Rightarrow> bool \<Rightarrow> cell set" where
  "site_cells pack sites mid blocking_only =
     (\<Union>c \<in> {c \<in> set sites. cs_map_id c = mid \<and> cs_status c \<in> {''building'', ''completed''} \<and>
               (blocking_only \<longrightarrow> blocks pack c)}. cells_of pack c)"

definition site_ok :: "world_pack \<Rightarrow> construction_state \<Rightarrow> bool" where
  "site_ok pack c \<longleftrightarrow>
     dict_mem (cs_blueprint_id c) (wp_constructions pack) \<and> dict_mem (cs_map_id c) (wp_maps pack) \<and>
     cs_status c \<in> {''building'', ''completed''} \<and>
     dict_mem (cs_builder_actor_id c) (wp_actors pack) \<and> 0 \<le> cs_complete_at_minute c \<and>
     cs_instance_id c = instance_id (cs_blueprint_id c) (cs_map_id c) (cs_x c) (cs_y c) \<and>
     (\<forall>(x, y) \<in> cells_of pack c. pack_is_walkable pack (cs_map_id c) x y = Inr True)"

definition sites_ok :: "world_pack \<Rightarrow> construction_state list \<Rightarrow> bool" where
  "sites_ok pack sites \<longleftrightarrow>
     (\<forall>c \<in> set sites. site_ok pack c) \<and> distinct (map cs_instance_id sites) \<and>
     (\<forall>c \<in> set sites. \<forall>d \<in> set sites. cs_instance_id c \<noteq> cs_instance_id d \<longrightarrow>
        cs_map_id c = cs_map_id d \<longrightarrow> cells_of pack c \<inter> cells_of pack d = {})"

definition sites_timed :: "int \<Rightarrow> construction_state list \<Rightarrow> bool" where
  "sites_timed now sites \<longleftrightarrow>
     (\<forall>c \<in> set sites. if cs_status c = ''building'' then now < cs_complete_at_minute c
                     else cs_complete_at_minute c \<le> now)"

section \<open>The cast\<close>

definition actor_key :: "actor_state \<Rightarrow> string \<times> int \<times> int" where
  "actor_key a = (as_map_id a, as_x a, as_y a)"

definition attrs_ok :: "world_pack \<Rightarrow> actor_state \<Rightarrow> bool" where
  "attrs_ok pack a \<longleftrightarrow>
     kv_valid (\<lambda>r v. 0 \<le> v \<and> resource_declared pack r) (as_resources a) \<and>
     kv_valid (\<lambda>i v. dict_mem i (wp_abilities pack) \<and> 0 \<le> v) (as_cooldowns a) \<and>
     kv_valid (\<lambda>(t, dim) v. dict_mem t (wp_actors pack) \<and> dim \<noteq> [] \<and> -100 \<le> v \<and> v \<le> 100)
       (as_relationships a) \<and>
     kv_valid (\<lambda>f v. dict_mem f (wp_factions pack) \<and> -100 \<le> v \<and> v \<le> 100) (as_faction_reputation a) \<and>
     kv_valid (\<lambda>n v. dict_mem n (wp_needs pack) \<and> 0 \<le> v \<and> v \<le> 100) (as_needs a) \<and>
     (as_active_goal_id a = None \<or> opt_in (as_active_goal_id a) (wp_goals pack)) \<and>
     (\<forall>(x, y) \<in> set (as_route a). open_place pack (as_map_id a) x y) \<and>
     (\<exists>d. map_of (wp_actors pack) (as_actor_id a) = Some d \<and>
        kv_valid (\<lambda>f s. dict_mem f (wp_facts pack) \<and> s \<in> {''suspected'', ''known'', ''secret''} \<and>
                        f \<notin> set (ad_forbidden_fact_ids d)) (as_knowledge a) \<and>
        has_keys (ad_needs d) (as_needs a))"

definition standing_ok :: "world_pack \<Rightarrow> construction_state list \<Rightarrow> actor_state \<Rightarrow> bool" where
  "standing_ok pack sites a \<longleftrightarrow>
     open_place pack (as_map_id a) (as_x a) (as_y a) \<and>
     actor_cell a \<notin> site_cells pack sites (as_map_id a) True"

definition cast_ok :: "world_pack \<Rightarrow> construction_state list \<Rightarrow> actor_state list \<Rightarrow> bool" where
  "cast_ok pack sites actors \<longleftrightarrow>
     as_actor_id ` set actors = set (dict_keys (wp_actors pack)) \<and>
     distinct (map as_actor_id actors) \<and> distinct (map actor_key actors) \<and>
     (\<forall>a \<in> set actors. attrs_ok pack a \<and> standing_ok pack sites a)"

section \<open>The other parts\<close>

definition time_ok :: "world_pack \<Rightarrow> world_state \<Rightarrow> bool" where
  "time_ok pack st \<longleftrightarrow>
     0 \<le> ws_tick st \<and> 1 \<le> ws_day st \<and> 0 \<le> ws_minute_of_day st \<and> ws_minute_of_day st < 1440 \<and>
     0 \<le> ws_minute_tick st \<and> ws_minute_tick st < ticks_per_minute (wp_clock pack)"

definition quest_ok :: "world_pack \<Rightarrow> quest_state \<Rightarrow> bool" where
  "quest_ok pack q \<longleftrightarrow>
     qs_status q \<in> {''inactive'', ''active'', ''completed'', ''failed''} \<and>
     (\<exists>d. map_of (wp_quests pack) (qs_quest_id q) = Some d \<and>
        (case qs_stage_id q of None \<Rightarrow> qs_status q \<noteq> ''active''
         | Some s \<Rightarrow> dict_mem s (qd_stages d)))"

definition quests_ok :: "world_pack \<Rightarrow> quest_state list \<Rightarrow> bool" where
  "quests_ok pack qs \<longleftrightarrow> same_ids (map qs_quest_id qs) (wp_quests pack) \<and> (\<forall>q \<in> set qs. quest_ok pack q)"

definition dialogue_ok :: "world_pack \<Rightarrow> dialogue_state option \<Rightarrow> bool" where
  "dialogue_ok pack v = (case v of None \<Rightarrow> True | Some ds \<Rightarrow> \<not> bad_dialogue pack ds)"

definition scene_ok :: "world_pack \<Rightarrow> string option \<Rightarrow> bool" where
  "scene_ok pack v \<longleftrightarrow> v = None \<or> opt_in v (wp_scenes pack)"

definition scenes_ok :: "world_pack \<Rightarrow> string set \<Rightarrow> bool" where
  "scenes_ok pack s \<longleftrightarrow> before_colon ` s \<subseteq> set (dict_keys (wp_scenes pack))"

definition events_ok :: "world_pack \<Rightarrow> domain_event list \<Rightarrow> bool" where
  "events_ok pack evs \<longleftrightarrow> (\<forall>ev \<in> set evs. \<not> bad_event pack ev)"

definition stockpile_ok :: "world_pack \<Rightarrow> stockpile_state \<Rightarrow> bool" where
  "stockpile_ok pack s \<longleftrightarrow>
     kv_valid (\<lambda>r v. dict_mem r (wp_resources pack) \<and> 0 \<le> v) (ss_resources s) \<and>
     (\<exists>d. map_of (wp_stockpiles pack) (ss_stockpile_id s) = Some d \<and> stockpile_total s \<le> sd_capacity d)"

definition stock_ok :: "world_pack \<Rightarrow> stockpile_state list \<Rightarrow> bool" where
  "stock_ok pack ss \<longleftrightarrow> same_ids (map ss_stockpile_id ss) (wp_stockpiles pack) \<and> (\<forall>s \<in> set ss. stockpile_ok pack s)"

definition job_ok :: "world_pack \<Rightarrow> construction_state list \<Rightarrow> production_job \<Rightarrow> bool" where
  "job_ok pack sites j \<longleftrightarrow>
     dict_mem (pj_actor_id j) (wp_actors pack) \<and>
     (\<exists>r. map_of (wp_production_recipes pack) (pj_recipe_id j) = Some r \<and>
        (\<exists>c \<in> set sites. cs_instance_id c = pj_construction_instance_id j \<and>
           cs_blueprint_id c = prd_required_construction_id r))"

definition jobs_ok :: "world_pack \<Rightarrow> construction_state list \<Rightarrow> production_job list \<Rightarrow> bool" where
  "jobs_ok pack sites jobs \<longleftrightarrow>
     (\<forall>j \<in> set jobs. job_ok pack sites j) \<and> distinct (map pj_construction_instance_id jobs)"

definition jobs_timed :: "int \<Rightarrow> production_job list \<Rightarrow> bool" where
  "jobs_timed now jobs \<longleftrightarrow> (\<forall>j \<in> set jobs. now < pj_complete_at_minute j)"

definition pending_ok :: "world_pack \<Rightarrow> pending_consequence list \<Rightarrow> bool" where
  "pending_ok pack ps \<longleftrightarrow>
     (\<forall>p \<in> set ps. dict_mem (pc_consequence_id p) (wp_consequences pack) \<and>
        dict_mem (pc_source_actor_id p) (wp_actors pack)) \<and>
     distinct (map pc_consequence_id ps)"

definition pending_timed :: "int \<Rightarrow> pending_consequence list \<Rightarrow> bool" where
  "pending_timed now ps \<longleftrightarrow> (\<forall>p \<in> set ps. now < pc_due_at_minute p)"

section \<open>The invariant\<close>

definition world_typed :: "world_pack \<Rightarrow> world_state \<Rightarrow> bool" where
  "world_typed pack st \<longleftrightarrow>
     cast_ok pack (ws_constructions st) (ws_actors st) \<and>
     ws_active_actor_id st \<in> set (playable_actor_ids pack) \<and> time_ok pack st \<and>
     quests_ok pack (ws_quests st) \<and> dialogue_ok pack (ws_dialogue st) \<and>
     scene_ok pack (ws_active_scene_id st) \<and> scenes_ok pack (ws_triggered_scenes st) \<and>
     ws_completed_interactions st \<subseteq> set (dict_keys (wp_interactions pack)) \<and>
     events_ok pack (ws_recent_events st) \<and> stock_ok pack (ws_stockpiles st) \<and>
     sites_ok pack (ws_constructions st) \<and>
     jobs_ok pack (ws_constructions st) (ws_production_jobs st) \<and>
     pending_ok pack (ws_pending_consequences st) \<and>
     ws_triggered_consequences st \<subseteq> set (dict_keys (wp_consequences pack))"

definition world_ok :: "world_pack \<Rightarrow> world_state \<Rightarrow> bool" where
  "world_ok pack st \<longleftrightarrow>
     world_typed pack st \<and> sites_timed (absolute_minute st) (ws_constructions st) \<and>
     jobs_timed (absolute_minute st) (ws_production_jobs st) \<and>
     pending_timed (absolute_minute st) (ws_pending_consequences st)"

section \<open>Reading the cast\<close>

lemma cast_find:
  assumes "cast_ok pack sites (ws_actors st)" and "dict_mem aid (wp_actors pack)"
  obtains a where "get_actor st aid = Inr a" "a \<in> set (ws_actors st)" "as_actor_id a = aid"
    "attrs_ok pack a" "standing_ok pack sites a"
proof -
  have "aid \<in> as_actor_id ` set (ws_actors st)"
    using assms by (simp add: cast_ok_def dict_mem_keys)
  then have "find (\<lambda>a. as_actor_id a = aid) (ws_actors st) \<noteq> None"
    by (auto simp: find_None_iff)
  then obtain a where f: "find (\<lambda>a. as_actor_id a = aid) (ws_actors st) = Some a" by auto
  then have "a \<in> set (ws_actors st)" "as_actor_id a = aid"
    by (auto simp: find_Some_iff)
  then show ?thesis using that [of a] f assms(1) by (auto simp: get_actor_def cast_ok_def)
qed

lemma get_actorD:
  "get_actor st aid = Inr a \<Longrightarrow> a \<in> set (ws_actors st) \<and> as_actor_id a = aid"
  by (auto simp: get_actor_def find_Some_iff)

lemma cast_update:
  assumes "cast_ok pack sites actors" and "a \<in> set actors" and "as_actor_id a' = as_actor_id a"
    and "actor_key a' = actor_key a" and "attrs_ok pack a'"
  shows "cast_ok pack sites (map (\<lambda>b. if as_actor_id b = as_actor_id a' then a' else b) actors)"
proof -
  let ?f = "\<lambda>b. if as_actor_id b = as_actor_id a' then a' else b"
  have same: "b = a" if "b \<in> set actors" "as_actor_id b = as_actor_id a'" for b
    using assms(1-3) that by (auto simp: cast_ok_def distinct_map inj_on_def)
  have ids: "map as_actor_id (map ?f actors) = map as_actor_id actors"
    by simp
  have keys: "map actor_key (map ?f actors) = map actor_key actors"
    using same assms(4) by (auto intro!: map_cong)
  have "standing_ok pack sites a'"
    using assms by (auto simp: cast_ok_def standing_ok_def actor_key_def actor_cell_def)
  then have each: "\<forall>b \<in> set (map ?f actors). attrs_ok pack b \<and> standing_ok pack sites b"
    using assms(1,5) by (auto simp: cast_ok_def)
  have "as_actor_id ` set (map ?f actors) = as_actor_id ` set actors"
    using ids by (metis list.set_map)
  then show ?thesis
    using assms(1) ids keys each unfolding cast_ok_def by metis
qed

lemma cast_update_same:
  assumes "get_actor st aid = Inr a" and "as_actor_id a' = as_actor_id a"
  shows "map as_actor_id (ws_actors (replace_actor st a')) = map as_actor_id (ws_actors st)"
  using assms by (simp add: replace_actor_def)

section \<open>Writing the attributes\<close>

named_theorems attrs_intros "operations that keep the attributes of an actor valid"

lemma attrs_resource [attrs_intros]:
  "attrs_ok pack a \<Longrightarrow> resource_declared pack r \<Longrightarrow> attrs_ok pack (actor_with_resource a r v)"
  by (auto simp: attrs_ok_def actor_with_resource_def)

lemma attrs_cooldown [attrs_intros]:
  "attrs_ok pack a \<Longrightarrow> dict_mem i (wp_abilities pack) \<Longrightarrow> 0 \<le> v \<Longrightarrow> attrs_ok pack (with_cooldown a i v)"
  by (auto simp: attrs_ok_def with_cooldown_def)

lemma attrs_relationship [attrs_intros]:
  "attrs_ok pack a \<Longrightarrow> dict_mem t (wp_actors pack) \<Longrightarrow> dim \<noteq> [] \<Longrightarrow>
     attrs_ok pack (with_relationship a t dim v)"
  by (auto simp: attrs_ok_def with_relationship_def clamp_def)

lemma attrs_reputation [attrs_intros]:
  "attrs_ok pack a \<Longrightarrow> dict_mem f (wp_factions pack) \<Longrightarrow> attrs_ok pack (with_reputation a f v)"
  by (auto simp: attrs_ok_def with_reputation_def clamp_def)

lemma attrs_need [attrs_intros]:
  "attrs_ok pack a \<Longrightarrow> dict_mem n (wp_needs pack) \<Longrightarrow> attrs_ok pack (with_need a n v)"
  by (auto simp: attrs_ok_def with_need_def clamp_def)

lemma attrs_knowledge [attrs_intros]:
  assumes "attrs_ok pack a" and "map_of (wp_actors pack) (as_actor_id a) = Some d"
    and "dict_mem f (wp_facts pack)" and "f \<notin> set (ad_forbidden_fact_ids d)"
    and "s \<in> {''suspected'', ''known'', ''secret''}"
  shows "attrs_ok pack (with_knowledge a f s)"
  using assms by (auto simp: attrs_ok_def with_knowledge_def)

lemma attrs_route [attrs_intros]:
  "attrs_ok pack a \<Longrightarrow> \<forall>(x, y) \<in> set route. open_place pack (as_map_id a) x y \<Longrightarrow>
     attrs_ok pack (a\<lparr>as_route := route, as_blocked_ticks := n\<rparr>)"
  by (auto simp: attrs_ok_def)

lemma attrs_goal [attrs_intros]:
  "attrs_ok pack a \<Longrightarrow> dict_mem g (wp_goals pack) \<Longrightarrow> attrs_ok pack (a\<lparr>as_active_goal_id := Some g\<rparr>)"
  by (auto simp: attrs_ok_def opt_in_def)

lemma attrs_reached [attrs_intros]: "attrs_ok pack a \<Longrightarrow> attrs_ok pack (goal_reached a)"
  by (auto simp: attrs_ok_def goal_reached_def)

lemma attrs_pay_costs:
  "attrs_ok pack a \<Longrightarrow> \<forall>(r, c) \<in> set costs. resource_declared pack r \<Longrightarrow> attrs_ok pack (pay_costs a costs)"
  unfolding pay_costs_def
  by (induction costs arbitrary: a) (auto intro: attrs_resource)

lemma same_actor [simp]:
  "as_actor_id (actor_with_resource a r v) = as_actor_id a"
  "actor_key (actor_with_resource a r v) = actor_key a"
  "as_actor_id (with_cooldown a r v) = as_actor_id a" "actor_key (with_cooldown a r v) = actor_key a"
  "as_actor_id (with_relationship a t d v) = as_actor_id a"
  "actor_key (with_relationship a t d v) = actor_key a"
  "as_actor_id (with_reputation a f v) = as_actor_id a" "actor_key (with_reputation a f v) = actor_key a"
  "as_actor_id (with_need a n v) = as_actor_id a" "actor_key (with_need a n v) = actor_key a"
  "as_actor_id (with_knowledge a f s) = as_actor_id a" "actor_key (with_knowledge a f s) = actor_key a"
  "as_actor_id (goal_reached a) = as_actor_id a" "actor_key (goal_reached a) = actor_key a"
  by (simp_all add: actor_with_resource_def with_cooldown_def with_relationship_def with_reputation_def
      with_need_def with_knowledge_def goal_reached_def actor_key_def)

lemma same_actor_pay [simp]:
  "as_actor_id (pay_costs a costs) = as_actor_id a" "actor_key (pay_costs a costs) = actor_key a"
  unfolding pay_costs_def by (induction costs arbitrary: a) (auto split: prod.split)

end
