(* ===== verification/RulesSafety.thy ===== *)
theory RulesSafety
  imports WorldInvariant
begin

text \<open>
  Conditions and effects over the invariant: the queries of \<^theory_text>\<open>Rules\<close> never raise, and an
  effect list never raises, keeps the invariant and touches only actors, flags and
  stockpiles. This is where the contract checks of the loader are spent.
\<close>

section \<open>Queries\<close>

lemma construction_cells_foldR:
  assumes known: "\<forall>c \<in> set cs. dict_mem (cs_blueprint_id c) (wp_constructions pack)"
    and step: "step = (\<lambda>cells c.
       if cs_map_id c \<noteq> mid \<or> cs_status c \<notin> {''building'', ''completed''} then Inr cells
       else rbind (dict_at (wp_constructions pack) (cs_blueprint_id c)) (\<lambda>blueprint.
         if blocking_only \<and> \<not> cd_blocks_movement blueprint then Inr cells
         else Inr (cells \<union> footprint_cells (cs_x c) (cs_y c) (cd_footprint blueprint))))"
  shows "foldR step A cs = Inr (A \<union> site_cells pack cs mid blocking_only)"
  using known
proof (induction cs arbitrary: A)
  case Nil
  then show ?case by (simp add: site_cells_def)
next
  case (Cons c cs)
  obtain b where b: "map_of (wp_constructions pack) (cs_blueprint_id c) = Some b"
    using Cons.prems by (auto simp: dict_mem_def)
  define here where "here = (if cs_map_id c = mid \<and> cs_status c \<in> {''building'', ''completed''} \<and>
      (blocking_only \<longrightarrow> blocks pack c) then cells_of pack c else {})"
  have cells: "site_cells pack (c # cs) mid blocking_only = here \<union> site_cells pack cs mid blocking_only"
    by (auto simp: site_cells_def here_def)
  have at: "dict_at (wp_constructions pack) (cs_blueprint_id c) = Inr b" using b by simp
  have "step A c = Inr (A \<union> here)"
    unfolding step at here_def by (auto simp: cells_of_def blocks_def b)
  then show ?case using Cons by (simp add: cells Un_assoc)
qed

lemma construction_cells_eq:
  "sites_ok pack (ws_constructions st) \<Longrightarrow>
     construction_cells st pack mid b = Inr (site_cells pack (ws_constructions st) mid b)"
  unfolding construction_cells_def
  by (subst construction_cells_foldR [OF _ refl]) (auto simp: sites_ok_def site_ok_def)

lemma dynamic_blocked_eq:
  "sites_ok pack (ws_constructions st) \<Longrightarrow>
     dynamic_blocked_cells st pack mid = Inr (site_cells pack (ws_constructions st) mid True)"
  by (simp add: dynamic_blocked_cells_def construction_cells_eq)

lemma is_walkable_eq:
  assumes "pack_ok pack" and "sites_ok pack (ws_constructions st)" and "dict_mem mid (wp_maps pack)"
  shows "is_walkable st pack mid x y =
    Inr (open_place pack mid x y \<and> (x, y) \<notin> site_cells pack (ws_constructions st) mid True)"
proof -
  obtain b where "pack_is_walkable pack mid x y = Inr b" by (rule walkable_total [OF assms(1,3)])
  then show ?thesis
    using assms by (auto simp: is_walkable_def construction_cells_eq open_place_def)
qed

lemma stock_find:
  assumes "stock_ok pack (ws_stockpiles st)" and "dict_mem sid (wp_stockpiles pack)"
  obtains s where "get_stockpile st sid = Inr s" "s \<in> set (ws_stockpiles st)"
    "ss_stockpile_id s = sid" "stockpile_ok pack s"
proof -
  have "sid \<in> ss_stockpile_id ` set (ws_stockpiles st)"
    using assms by (simp add: stock_ok_def same_ids_def dict_mem_keys)
  then have "find (\<lambda>s. ss_stockpile_id s = sid) (ws_stockpiles st) \<noteq> None"
    by (auto simp: find_None_iff)
  then obtain s where f: "find (\<lambda>s. ss_stockpile_id s = sid) (ws_stockpiles st) = Some s" by auto
  then have "s \<in> set (ws_stockpiles st)" "ss_stockpile_id s = sid" by (auto simp: find_Some_iff)
  then show ?thesis using that [of s] f assms(1) by (auto simp: get_stockpile_def stock_ok_def)
qed

section \<open>Conditions\<close>

lemma or_else_actor:
  assumes "condition_ok pack c" and "dict_mem source (wp_actors pack)"
  shows "dict_mem (or_else (cond_actor_id c) source) (wp_actors pack)"
proof (cases "cond_actor_id c")
  case None
  then show ?thesis using assms(2) by (simp add: or_else_def truthy_def)
next
  case (Some aid)
  have "opt_in (cond_actor_id c) (wp_actors pack)"
    using assms(1) Some by (simp add: condition_ok_def validate_condition_contract_def)
  then show ?thesis using assms(2) Some by (simp add: or_else_def opt_in_def)
qed

lemma condition_total:
  assumes pack: "pack_ok pack" and cast: "cast_ok pack sites (ws_actors st)"
    and stock: "stock_ok pack (ws_stockpiles st)"
    and c: "condition_ok pack c" and source: "dict_mem source (wp_actors pack)"
  obtains b where "condition_met st c source events pack = Inr b"
proof -
  obtain a where a: "get_actor st (or_else (cond_actor_id c) source) = Inr a"
    using cast_find [OF cast or_else_actor [OF c source]] by blast
  have s: "outcome no_exn (\<lambda>_. True) (get_stockpile st (the (cond_stockpile_id c)))"
    if "cond_kind c = ''stockpile_resource_at_least''"
  proof -
    have "opt_in (cond_stockpile_id c) (wp_stockpiles pack)"
      using c that by (simp add: condition_ok_def validate_condition_contract_def)
    then obtain sid where sid: "cond_stockpile_id c = Some sid" "dict_mem sid (wp_stockpiles pack)"
      by (auto simp: opt_in_iff)
    obtain t where "get_stockpile st sid = Inr t" using stock_find [OF stock sid(2)] .
    then show ?thesis using sid by simp
  qed
  have p: "outcome no_exn (\<lambda>_. True) (scarcity_percent st pack (the (cond_resource_id c)))"
    if "cond_kind c = ''scarcity_at_least''"
  proof -
    have "opt_in (cond_resource_id c) (wp_resources pack)"
      using c that by (simp add: condition_ok_def validate_condition_contract_def)
    then show ?thesis
      by (auto simp: opt_in_iff scarcity_percent_def outcome_simps dict_mem_def)
  qed
  have "outcome no_exn (\<lambda>_. True) (condition_result st c source events pack)"
    unfolding condition_result_def Let_def
    by (simp only: outcome_if outcome_rbind outcome_Inr a if_True if_False simp_thms if_cancel)
      (use s p in auto)
  then show ?thesis using that by (auto simp: condition_met_def dest: outcome_no_exnD)
qed

lemma conditions_total:
  assumes "pack_ok pack" and "cast_ok pack sites (ws_actors st)" and "stock_ok pack (ws_stockpiles st)"
    and "conditions_ok pack cs" and "dict_mem source (wp_actors pack)"
  shows "outcome no_exn (\<lambda>_. True) (conditions_met st cs source events pack)"
  unfolding conditions_met_def
proof (rule outcome_allR)
  fix c assume "c \<in> set cs"
  then have "condition_ok pack c" using assms(4) by blast
  then obtain b where "condition_met st c source events pack = Inr b"
    using condition_total [OF assms(1-3) _ assms(5)] by blast
  then show "outcome no_exn (\<lambda>_. True) (condition_met st c source events pack)" by simp
qed

section \<open>Effects\<close>

text \<open>What an effect may touch: actors (neither identity nor position), flags, stockpiles.\<close>

definition effect_frame :: "world_state \<Rightarrow> world_state \<Rightarrow> bool" where
  "effect_frame st st' \<longleftrightarrow>
     (\<exists>A F S. st' = st\<lparr>ws_actors := A, ws_flags := F, ws_stockpiles := S\<rparr> \<and>
        map as_actor_id A = map as_actor_id (ws_actors st) \<and>
        map actor_key A = map actor_key (ws_actors st))"

lemma effect_frame_refl [simp]: "effect_frame st st"
  unfolding effect_frame_def
  by (rule exI [of _ "ws_actors st"], rule exI [of _ "ws_flags st"], rule exI [of _ "ws_stockpiles st"]) simp

lemma effect_frame_trans: "effect_frame st st' \<Longrightarrow> effect_frame st' st'' \<Longrightarrow> effect_frame st st''"
  unfolding effect_frame_def by (elim exE conjE) force

lemma effect_frame_flags [simp]: "effect_frame st (st\<lparr>ws_flags := F\<rparr>)"
  unfolding effect_frame_def
  by (rule exI [of _ "ws_actors st"], rule exI [of _ F], rule exI [of _ "ws_stockpiles st"]) simp

lemma effect_frame_actor:
  assumes "cast_ok pack sites (ws_actors st)" and "a \<in> set (ws_actors st)"
    and "as_actor_id a' = as_actor_id a" and "actor_key a' = actor_key a"
  shows "effect_frame st (replace_actor st a')"
proof -
  let ?f = "\<lambda>b. if as_actor_id b = as_actor_id a' then a' else b"
  have same: "b = a" if "b \<in> set (ws_actors st)" "as_actor_id b = as_actor_id a'" for b
    using assms(1-3) that by (auto simp: cast_ok_def distinct_map inj_on_def)
  have "map as_actor_id (map ?f (ws_actors st)) = map as_actor_id (ws_actors st)" by simp
  moreover have "map actor_key (map ?f (ws_actors st)) = map actor_key (ws_actors st)"
    using same assms(4) by (auto intro!: map_cong)
  ultimately show ?thesis
    unfolding effect_frame_def replace_actor_def
    by (intro exI [of _ "map ?f (ws_actors st)"] exI [of _ "ws_flags st"] exI [of _ "ws_stockpiles st"]) simp
qed

lemma effect_frame_stock [simp]: "effect_frame st (replace_stockpile st s)"
  unfolding effect_frame_def replace_stockpile_def
  by (rule exI [of _ "ws_actors st"], rule exI [of _ "ws_flags st"]) auto

lemma effect_frameE:
  assumes "effect_frame st st'"
  shows "ws_tick st' = ws_tick st" "ws_day st' = ws_day st" "ws_minute_of_day st' = ws_minute_of_day st"
    "ws_minute_tick st' = ws_minute_tick st" "ws_active_actor_id st' = ws_active_actor_id st"
    "ws_quests st' = ws_quests st" "ws_dialogue st' = ws_dialogue st"
    "ws_active_scene_id st' = ws_active_scene_id st" "ws_triggered_scenes st' = ws_triggered_scenes st"
    "ws_completed_interactions st' = ws_completed_interactions st"
    "ws_recent_events st' = ws_recent_events st" "ws_constructions st' = ws_constructions st"
    "ws_production_jobs st' = ws_production_jobs st"
    "ws_pending_consequences st' = ws_pending_consequences st"
    "ws_triggered_consequences st' = ws_triggered_consequences st"
    "ws_last_message st' = ws_last_message st" "absolute_minute st' = absolute_minute st"
    "map as_actor_id (ws_actors st') = map as_actor_id (ws_actors st)"
    "map actor_key (ws_actors st') = map actor_key (ws_actors st)"
  using assms by (auto simp: effect_frame_def absolute_minute_def)

text \<open>Totals of a stockpile.\<close>

lemma sum_kv: "distinct (map fst xs) \<Longrightarrow> sum_list (map snd xs) = (\<Sum>k \<in> fst ` set xs. kv_get (0::int) xs k)"
proof (induction xs)
  case (Cons x xs)
  obtain k v where x: "x = (k, v)" by (cases x)
  have "k \<notin> fst ` set xs" using Cons.prems x by auto
  then have "(\<Sum>j \<in> fst ` set xs. kv_get 0 (x # xs) j) = (\<Sum>j \<in> fst ` set xs. kv_get 0 xs j)"
    using x by (intro sum.cong) (auto simp: kv_get_def)
  then show ?case
    using Cons x \<open>k \<notin> fst ` set xs\<close> by (simp add: kv_get_def)
qed simp

lemma kv_get_absent: "k \<notin> fst ` set xs \<Longrightarrow> kv_get d xs k = d"
  by (simp add: kv_get_def map_of_eq_None_iff split: option.split) (metis map_of_eq_None_iff option.distinct(1))

lemma sum_kv_put:
  assumes "kv_ok xs"
  shows "sum_list (map snd (kv_put k v xs)) = sum_list (map snd xs) - kv_get 0 xs k + (v::int)"
proof -
  have fin: "finite (fst ` set xs)" by simp
  have put: "sum_list (map snd (kv_put k v xs)) =
      (\<Sum>j \<in> insert k (fst ` set xs). if j = k then v else kv_get 0 xs j)"
    using sum_kv [of "kv_put k v xs"] kv_ok_distinct [of "kv_put k v xs"] assms
    by (simp add: keys_kv_put kv_get_put)
  have "\<dots> = v + (\<Sum>j \<in> fst ` set xs - {k}. kv_get 0 xs j)"
    by (subst sum.insert_remove [OF fin]) (auto intro!: sum.cong)
  moreover have "sum_list (map snd xs) = kv_get 0 xs k + (\<Sum>j \<in> fst ` set xs - {k}. kv_get 0 xs j)"
  proof (cases "k \<in> fst ` set xs")
    case True
    then show ?thesis
      using sum_kv [of xs] kv_ok_distinct [OF assms] sum.remove [OF fin True] by simp
  next
    case False
    then show ?thesis
      using sum_kv [of xs] kv_ok_distinct [OF assms] by (simp add: kv_get_absent)
  qed
  ultimately show ?thesis using put by simp
qed

lemma stockpile_total_put:
  "kv_ok (ss_resources s) \<Longrightarrow>
     stockpile_total (stockpile_with_resource s r v) = stockpile_total s - stockpile_resource s r + max 0 v"
  by (simp add: stockpile_total_def stockpile_with_resource_def stockpile_resource_def sum_kv_put)

lemma kv_sum_others_nonneg:
  assumes "kv_ok xs" and "\<forall>(k, v) \<in> set xs. 0 \<le> (v::int)"
  shows "kv_get 0 xs k \<le> sum_list (map snd xs)"
proof -
  have "0 \<le> kv_get 0 xs j" for j
    using assms(2) by (auto simp: kv_get_def dest: map_of_SomeD split: option.split)
  then have "kv_get 0 xs k \<le> (\<Sum>j \<in> insert k (fst ` set xs). kv_get 0 xs j)"
    by (intro member_le_sum) auto
  also have "\<dots> = sum_list (map snd xs)"
    using sum_kv [OF kv_ok_distinct [OF assms(1)]]
    by (cases "k \<in> fst ` set xs") (auto simp: insert_absorb kv_get_absent)
  finally show ?thesis .
qed

lemma stockpile_put:
  assumes "stockpile_ok pack s" and "dict_mem r (wp_resources pack)"
    and "\<And>d. map_of (wp_stockpiles pack) (ss_stockpile_id s) = Some d \<Longrightarrow>
       stockpile_total s - stockpile_resource s r + max 0 v \<le> sd_capacity d"
  shows "stockpile_ok pack (stockpile_with_resource s r v)"
proof -
  have kv: "kv_valid (\<lambda>r v. dict_mem r (wp_resources pack) \<and> 0 \<le> v) (ss_resources s)"
    using assms(1) by (simp add: stockpile_ok_def)
  have "kv_valid (\<lambda>r v. dict_mem r (wp_resources pack) \<and> 0 \<le> v)
      (ss_resources (stockpile_with_resource s r v))"
    using kv assms(2) by (auto simp: stockpile_with_resource_def)
  moreover have "stockpile_total (stockpile_with_resource s r v) =
      stockpile_total s - stockpile_resource s r + max 0 v"
    using kv by (simp add: stockpile_total_put kv_valid_def)
  ultimately show ?thesis
    using assms(1,3) by (auto simp: stockpile_ok_def stockpile_with_resource_def)
qed

lemma stockpile_others: "stockpile_ok pack s \<Longrightarrow> stockpile_resource s r \<le> stockpile_total s"
  by (auto simp: stockpile_ok_def kv_valid_def stockpile_resource_def stockpile_total_def
      intro!: kv_sum_others_nonneg)

lemma stockpile_nonneg: "stockpile_ok pack s \<Longrightarrow> 0 \<le> stockpile_resource s r"
  by (auto simp: stockpile_ok_def kv_valid_def stockpile_resource_def kv_get_def
      dest: map_of_SomeD split: option.split)

lemma stock_replace:
  assumes "stock_ok pack (ws_stockpiles st)" and "stockpile_ok pack s'"
  shows "stock_ok pack (ws_stockpiles (replace_stockpile st s'))"
proof -
  have ids: "map ss_stockpile_id (ws_stockpiles (replace_stockpile st s')) = map ss_stockpile_id (ws_stockpiles st)"
    by (simp add: replace_stockpile_def)
  have "\<forall>s \<in> set (ws_stockpiles (replace_stockpile st s')). stockpile_ok pack s"
    using assms by (auto simp: stock_ok_def replace_stockpile_def)
  then show ?thesis
    using assms(1) unfolding stock_ok_def ids by blast
qed

lemma stockpile_id_with [simp]: "ss_stockpile_id (stockpile_with_resource s r v) = ss_stockpile_id s"
  by (simp add: stockpile_with_resource_def)

text \<open>The invariant that effects read and write, and events as they append them.\<close>

definition rules_ok :: "world_pack \<Rightarrow> world_state \<Rightarrow> bool" where
  "rules_ok pack st \<longleftrightarrow>
     cast_ok pack (ws_constructions st) (ws_actors st) \<and> stock_ok pack (ws_stockpiles st)"

lemma events_ok_append [simp]: "events_ok pack (xs @ ys) \<longleftrightarrow> events_ok pack xs \<and> events_ok pack ys"
  by (auto simp: events_ok_def)

lemma events_ok_Nil [simp]: "events_ok pack []"
  by (simp add: events_ok_def)

lemma events_ok_of [simp]:
  "events_ok pack [domain_event_of kind aid sid] \<longleftrightarrow> kind \<noteq> [] \<and> dict_mem aid (wp_actors pack)"
  by (simp add: events_ok_def bad_event_def domain_event_of_def opt_in_def)

lemma bad_event_of [simp]:
  "bad_event pack (domain_event_of kind aid sid) \<longleftrightarrow> kind = [] \<or> \<not> dict_mem aid (wp_actors pack)"
  by (simp add: bad_event_def domain_event_of_def opt_in_def)

lemma rules_update_actor:
  assumes "rules_ok pack st" and "a \<in> set (ws_actors st)" and "as_actor_id a' = as_actor_id a"
    and "actor_key a' = actor_key a" and "attrs_ok pack a'"
  shows "rules_ok pack (replace_actor st a') \<and> effect_frame st (replace_actor st a')"
  using assms cast_update [of pack "ws_constructions st" "ws_actors st" a a']
    effect_frame_actor [of pack "ws_constructions st" st a a']
  by (simp add: rules_ok_def replace_actor_def)

lemma rules_update_stock:
  assumes "rules_ok pack st" and "stockpile_ok pack s"
  shows "rules_ok pack (replace_stockpile st s) \<and> effect_frame st (replace_stockpile st s)"
  using assms stock_replace [of pack st s] by (simp add: rules_ok_def) (simp add: replace_stockpile_def)

definition effect_result :: "world_pack \<Rightarrow> world_state \<Rightarrow> world_state \<times> domain_event list \<Rightarrow> bool" where
  "effect_result pack st se \<longleftrightarrow>
     rules_ok pack (fst se) \<and> effect_frame st (fst se) \<and> events_ok pack (snd se)"

lemma actor_effect:
  assumes rules: "rules_ok pack st" and aid: "dict_mem aid (wp_actors pack)"
    and upd: "\<And>a. get_actor st aid = Inr a \<Longrightarrow> attrs_ok pack a \<Longrightarrow>
      as_actor_id (f a) = as_actor_id a \<and> actor_key (f a) = actor_key a \<and> attrs_ok pack (f a)"
    and evs: "events_ok pack evs"
  shows "outcome no_exn (effect_result pack st) (rbind (get_actor st aid) (\<lambda>a. Inr (replace_actor st (f a), evs)))"
proof -
  have cast: "cast_ok pack (ws_constructions st) (ws_actors st)" using rules by (simp add: rules_ok_def)
  obtain a where a: "get_actor st aid = Inr a" "a \<in> set (ws_actors st)" "attrs_ok pack a"
    using cast_find [OF cast aid] by blast
  note new = upd [OF a(1,3)]
  show ?thesis
    using rules_update_actor [OF rules a(2)] new evs by (simp add: a(1) effect_result_def)
qed

lemma stock_effect:
  assumes rules: "rules_ok pack st" and sid: "dict_mem sid (wp_stockpiles pack)"
    and r: "dict_mem r (wp_resources pack)" and evs: "events_ok pack evs"
  shows "outcome no_exn (effect_result pack st)
    (rbind (get_stockpile st sid) (\<lambda>s. rbind (dict_at (wp_stockpiles pack) sid) (\<lambda>definition.
      let available = sd_capacity definition - (stockpile_total s - stockpile_resource s r);
          value = min (stockpile_resource s r + n) available
      in Inr (replace_stockpile st (stockpile_with_resource s r value), evs))))"
proof -
  have stock: "stock_ok pack (ws_stockpiles st)" using rules by (simp add: rules_ok_def)
  obtain s where s: "get_stockpile st sid = Inr s" "ss_stockpile_id s = sid" "stockpile_ok pack s"
    using stock_find [OF stock sid] by blast
  obtain d where d: "map_of (wp_stockpiles pack) sid = Some d" using sid by (auto simp: dict_mem_def)
  have cap: "stockpile_total s \<le> sd_capacity d" using s(2,3) d by (auto simp: stockpile_ok_def)
  define v where "v = min (stockpile_resource s r + n)
    (sd_capacity d - (stockpile_total s - stockpile_resource s r))"
  have "stockpile_total s - stockpile_resource s r + max 0 v \<le> sd_capacity d"
    using cap stockpile_others [OF s(3), of r] stockpile_nonneg [OF s(3), of r] by (auto simp: v_def)
  then have "stockpile_ok pack (stockpile_with_resource s r v)"
    using stockpile_put [OF s(3) r] s(2) d by auto
  from rules_update_stock [OF rules this] show ?thesis
    using evs by (simp add: s(1) d dict_at_def effect_result_def v_def Let_def)
qed

lemma truthy_opt_in: "opt_in k d \<Longrightarrow> truthy k \<Longrightarrow> dict_mem (the k) d"
  by (auto simp: opt_in_def split: option.splits)

lemma effect_kinds:
  assumes "effect_ok pack e"
  shows "eff_kind e \<in> supported_effects"
    "eff_kind e = ''change_resource'' \<Longrightarrow> truthy (eff_resource e) \<Longrightarrow> resource_declared pack (the (eff_resource e))"
    "eff_kind e = ''learn_fact'' \<Longrightarrow> truthy (eff_fact_id e) \<Longrightarrow> dict_mem (the (eff_fact_id e)) (wp_facts pack)"
    "eff_kind e = ''learn_fact'' \<Longrightarrow> the (eff_knowledge_status e) \<in> {''suspected'', ''known'', ''secret''}"
    "eff_kind e = ''change_relationship'' \<Longrightarrow> truthy (eff_target_actor_id e) \<Longrightarrow>
       dict_mem (the (eff_target_actor_id e)) (wp_actors pack)"
    "eff_kind e = ''change_relationship'' \<Longrightarrow> the (eff_dimension e) \<noteq> []"
    "eff_kind e = ''change_reputation'' \<Longrightarrow> truthy (eff_faction_id e) \<Longrightarrow>
       dict_mem (the (eff_faction_id e)) (wp_factions pack)"
    "eff_kind e = ''change_stockpile_resource'' \<Longrightarrow> truthy (eff_stockpile_id e) \<Longrightarrow>
       dict_mem (the (eff_stockpile_id e)) (wp_stockpiles pack)"
    "eff_kind e = ''change_stockpile_resource'' \<Longrightarrow> truthy (eff_resource e) \<Longrightarrow>
       dict_mem (the (eff_resource e)) (wp_resources pack)"
    "eff_kind e = ''change_need'' \<Longrightarrow> truthy (eff_need_id e) \<Longrightarrow> dict_mem (the (eff_need_id e)) (wp_needs pack)"
proof -
  note c = assms [unfolded effect_ok_def validate_effect_contract_def in_order_ok]
  show "eff_kind e \<in> supported_effects" using c by simp
  show "eff_kind e = ''change_resource'' \<Longrightarrow> truthy (eff_resource e) \<Longrightarrow>
      resource_declared pack (the (eff_resource e))"
    using c by (auto simp: resource_declared_def intro: truthy_opt_in)
  show "eff_kind e = ''learn_fact'' \<Longrightarrow> truthy (eff_fact_id e) \<Longrightarrow> dict_mem (the (eff_fact_id e)) (wp_facts pack)"
    using c by (auto intro: truthy_opt_in)
  show "eff_kind e = ''learn_fact'' \<Longrightarrow> the (eff_knowledge_status e) \<in> {''suspected'', ''known'', ''secret''}"
    using c by (auto simp: knowledge_statuses_def opt_among_iff)
  show "eff_kind e = ''change_relationship'' \<Longrightarrow> truthy (eff_target_actor_id e) \<Longrightarrow>
       dict_mem (the (eff_target_actor_id e)) (wp_actors pack)"
    using c by (auto intro: truthy_opt_in)
  show "eff_kind e = ''change_relationship'' \<Longrightarrow> the (eff_dimension e) \<noteq> []"
    using c by (auto dest: truthyD)
  show "eff_kind e = ''change_reputation'' \<Longrightarrow> truthy (eff_faction_id e) \<Longrightarrow>
       dict_mem (the (eff_faction_id e)) (wp_factions pack)"
    using c by (auto intro: truthy_opt_in)
  show "eff_kind e = ''change_stockpile_resource'' \<Longrightarrow> truthy (eff_stockpile_id e) \<Longrightarrow>
       dict_mem (the (eff_stockpile_id e)) (wp_stockpiles pack)"
    using c by (auto intro: truthy_opt_in)
  show "eff_kind e = ''change_stockpile_resource'' \<Longrightarrow> truthy (eff_resource e) \<Longrightarrow>
       dict_mem (the (eff_resource e)) (wp_resources pack)"
    using c by (auto intro: truthy_opt_in)
  show "eff_kind e = ''change_need'' \<Longrightarrow> truthy (eff_need_id e) \<Longrightarrow> dict_mem (the (eff_need_id e)) (wp_needs pack)"
    using c by (auto intro: truthy_opt_in)
qed

lemma rules_flags [simp]: "rules_ok pack (st\<lparr>ws_flags := F\<rparr>) = rules_ok pack st"
  by (simp add: rules_ok_def)

lemma apply_effect_ok:
  assumes pack: "pack_ok pack" and rules: "rules_ok pack st" and evs: "events_ok pack events"
    and e: "effect_ok pack e" and source: "dict_mem source (wp_actors pack)"
    and target: "dict_mem target (wp_actors pack)"
  shows "outcome no_exn (effect_result pack st) (apply_effect source target pack (st, events) e)"
proof -
  define aid where "aid = (if eff_target e = ''self'' then source else target)"
  have aid: "dict_mem aid (wp_actors pack)" using source target by (simp add: aid_def)
  obtain d where d: "map_of (wp_actors pack) aid = Some d" using aid by (auto simp: dict_mem_def)
  note k = effect_kinds [OF e]
  have skip: "effect_result pack st (st, events)"
    using rules evs by (simp add: effect_result_def)
  note actor = actor_effect [OF rules aid] and stock = stock_effect [OF rules]
  show ?thesis
    unfolding apply_effect_def Let_def prod.case aid_def [symmetric]
  proof (simp only: outcome_if, intro conjI impI if_bool_eq_conj [THEN iffD2], goal_cases)
    case 1 then show ?case using rules evs source by (simp add: effect_result_def)
  next
    case 2 then show ?case using rules evs source by (simp add: effect_result_def)
  next
    case 3
    then show ?case using k(2) evs by (intro actor) (auto intro: attrs_resource)
  next
    case 4
    have "outcome no_exn (effect_result pack st)
        (rbind (get_actor st aid) (\<lambda>a. Inr (replace_actor st
           (with_knowledge a (the (eff_fact_id e)) (the (eff_knowledge_status e))),
           events @ [domain_event_of ''fact_learned'' aid (the (eff_fact_id e))])))"
      if "the (eff_fact_id e) \<notin> set (ad_forbidden_fact_ids d)"
      using 4 that k(3,4) evs aid d
      by (intro actor) (auto intro!: attrs_knowledge dest: get_actorD)
    then show ?case using d skip by (simp add: dict_at_def)
  next
    case 5
    then show ?case using k(5,6) evs aid by (intro actor) (auto intro: attrs_relationship)
  next
    case 6
    then show ?case using k(7) evs aid by (intro actor) (auto intro: attrs_reputation)
  next
    case 7
    then show ?case
      using stock [OF k(8) k(9)] evs source by (simp add: Let_def)
  next
    case 8
    then show ?case using k(10) evs aid by (intro actor) (auto intro: attrs_need)
  next
    case 9
    then show ?case using skip by simp
  qed
qed

lemma effect_result_trans:
  "effect_result pack st (st1, evs1) \<Longrightarrow> effect_result pack st1 se \<Longrightarrow> effect_result pack st se"
  unfolding effect_result_def using effect_frame_trans by auto

lemma apply_effects_ok:
  assumes pack: "pack_ok pack" and rules: "rules_ok pack st" and evs: "events_ok pack events"
    and es: "effects_ok pack es" and source: "dict_mem source (wp_actors pack)"
    and target: "dict_mem target (wp_actors pack)"
  shows "outcome no_exn (effect_result pack st) (apply_effects st es source target events pack)"
  unfolding apply_effects_def
proof (rule outcome_foldR)
  show "effect_result pack st (st, events)" using rules evs by (simp add: effect_result_def)
next
  fix se e assume e: "e \<in> set es" and inv: "effect_result pack st se"
  obtain st1 evs1 where se: "se = (st1, evs1)" by (cases se)
  have "outcome no_exn (effect_result pack st1) (apply_effect source target pack (st1, evs1) e)"
    using inv es e apply_effect_ok [OF pack _ _ _ source target]
    by (simp add: effect_result_def se)
  then show "outcome no_exn (effect_result pack st) (apply_effect source target pack se e)"
    unfolding se by (rule outcome_mono) (use inv se effect_result_trans in blast)
qed

end
