(* ===== verification/ConsequencesSafety.thy ===== *)
theory ConsequencesSafety
  imports RulesSafety
begin

text \<open>
  \<open>process_consequences\<close> over the invariant: with more stack frames than there are due items
  it never raises, keeps the invariant, and leaves nothing due. The bound is met by any depth
  above the number of consequences of the pack, because a consequence is pending at most once.
\<close>

definition csq_inv :: "world_pack \<Rightarrow> world_state \<Rightarrow> bool" where
  "csq_inv pack st \<longleftrightarrow>
     rules_ok pack st \<and> pending_ok pack (ws_pending_consequences st) \<and>
     ws_triggered_consequences st \<subseteq> set (dict_keys (wp_consequences pack))"

definition csq_frame :: "world_state \<Rightarrow> world_state \<Rightarrow> bool" where
  "csq_frame st st' \<longleftrightarrow>
     (\<exists>A F S P T E. st' = st\<lparr>ws_actors := A, ws_flags := F, ws_stockpiles := S,
           ws_pending_consequences := P, ws_triggered_consequences := T, ws_recent_events := E\<rparr> \<and>
        map as_actor_id A = map as_actor_id (ws_actors st) \<and>
        map actor_key A = map actor_key (ws_actors st))"

lemma csq_frameI:
  assumes "st' = st\<lparr>ws_actors := ws_actors st', ws_flags := ws_flags st', ws_stockpiles := ws_stockpiles st',
      ws_pending_consequences := ws_pending_consequences st',
      ws_triggered_consequences := ws_triggered_consequences st', ws_recent_events := ws_recent_events st'\<rparr>"
    and "map as_actor_id (ws_actors st') = map as_actor_id (ws_actors st)"
    and "map actor_key (ws_actors st') = map actor_key (ws_actors st)"
  shows "csq_frame st st'"
  unfolding csq_frame_def using assms by blast

lemma csq_frame_refl [simp]: "csq_frame st st"
  by (rule csq_frameI) simp_all

lemma csq_frame_trans: "csq_frame st st' \<Longrightarrow> csq_frame st' st'' \<Longrightarrow> csq_frame st st''"
  unfolding csq_frame_def by (elim exE conjE) force

lemma csq_frame_effect: "effect_frame st st' \<Longrightarrow> csq_frame st st'"
  unfolding effect_frame_def by (elim exE conjE) (rule csq_frameI; simp)

lemma csq_frame_pending [simp]:
  "csq_frame st (st\<lparr>ws_pending_consequences := P\<rparr>)"
  "csq_frame st (st\<lparr>ws_pending_consequences := P, ws_triggered_consequences := T\<rparr>)"
  "csq_frame st (st\<lparr>ws_recent_events := E\<rparr>)"
  by (rule csq_frameI; simp)+

lemma csq_frameE:
  assumes "csq_frame st st'"
  shows "ws_tick st' = ws_tick st" "ws_day st' = ws_day st" "ws_minute_of_day st' = ws_minute_of_day st"
    "ws_minute_tick st' = ws_minute_tick st" "ws_active_actor_id st' = ws_active_actor_id st"
    "ws_quests st' = ws_quests st" "ws_dialogue st' = ws_dialogue st"
    "ws_active_scene_id st' = ws_active_scene_id st" "ws_triggered_scenes st' = ws_triggered_scenes st"
    "ws_completed_interactions st' = ws_completed_interactions st"
    "ws_constructions st' = ws_constructions st" "ws_production_jobs st' = ws_production_jobs st"
    "ws_last_message st' = ws_last_message st" "absolute_minute st' = absolute_minute st"
    "map as_actor_id (ws_actors st') = map as_actor_id (ws_actors st)"
    "map actor_key (ws_actors st') = map actor_key (ws_actors st)"
  using assms by (auto simp: csq_frame_def absolute_minute_def)

lemma rules_ok_frame [simp]:
  "rules_ok pack (st\<lparr>ws_pending_consequences := P\<rparr>) = rules_ok pack st"
  "rules_ok pack (st\<lparr>ws_triggered_consequences := T\<rparr>) = rules_ok pack st"
  "rules_ok pack (st\<lparr>ws_recent_events := E\<rparr>) = rules_ok pack st"
  by (simp_all add: rules_ok_def)

section \<open>Scheduling\<close>

definition due_items :: "int \<Rightarrow> pending_consequence list \<Rightarrow> pending_consequence list" where
  "due_items now ps = filter (\<lambda>p. pc_due_at_minute p \<le> now) ps"

definition scheduled_ok ::
  "world_pack \<Rightarrow> int \<Rightarrow> pending_consequence list \<Rightarrow> pending_consequence list \<times> domain_event list \<Rightarrow> bool" where
  "scheduled_ok pack now ps pe \<longleftrightarrow>
     pending_ok pack (fst pe) \<and> events_ok pack (snd pe) \<and> due_items now (fst pe) = due_items now ps"

lemma event_actor:
  assumes "\<not> bad_event pack ev" and "dict_mem source (wp_actors pack)"
  shows "dict_mem (or_else (ev_actor_id ev) source) (wp_actors pack)"
  using assms by (auto simp: bad_event_def or_else_def opt_in_def truthy_def split: option.splits)

lemma schedule_one_ok:
  assumes pack: "pack_ok pack" and rules: "rules_ok pack st" and source: "dict_mem source (wp_actors pack)"
    and d: "d \<in> set (dict_values (wp_consequences pack))" and ev: "\<not> bad_event pack ev"
    and acc: "scheduled_ok pack (absolute_minute st) ps acc"
  shows "outcome no_exn (scheduled_ok pack (absolute_minute st) ps) (schedule_one st pack source ev acc d)"
proof -
  obtain pending events where pe: "acc = (pending, events)" by (cases acc)
  let ?aid = "or_else (ev_actor_id ev) source"
  have aid: "dict_mem ?aid (wp_actors pack)" by (rule event_actor [OF ev source])
  have keyed: "keyed_by csd_id (wp_consequences pack)"
    using pack_ok_wf [OF pack] by (simp add: pack_wf_def)
  have at: "map_of (wp_consequences pack) (csd_id d) = Some d" by (rule keyed_by_mem [OF keyed d])
  have conds: "conditions_ok pack (csd_conditions d)" and delay: "1 \<le> csd_delay_minutes d"
    using pack_consequence [OF pack at] by auto
  have total: "outcome no_exn (\<lambda>_. True) (conditions_met st (csd_conditions d) ?aid events pack)"
    using rules conditions_total [OF pack _ _ conds aid] by (auto simp: rules_ok_def)
  have mem: "dict_mem (csd_id d) (wp_consequences pack)" using at by (simp add: dict_mem_def)
  have grow: "scheduled_ok pack (absolute_minute st) ps
      (pending @ [\<lparr>pc_consequence_id = csd_id d,
                    pc_due_at_minute = absolute_minute st + csd_delay_minutes d,
                    pc_source_actor_id = ?aid\<rparr>],
       events @ [domain_event_of ''consequence_scheduled'' ?aid (csd_id d)])"
    if "\<not> list_ex (\<lambda>p. pc_consequence_id p = csd_id d) pending"
    using acc that aid mem delay
    by (auto simp: pe scheduled_ok_def pending_ok_def due_items_def list_ex_iff)
  show ?thesis
    unfolding schedule_one_def pe prod.case Let_def
    using acc grow total pe by (auto simp: outcome_simps elim!: outcome_mono)
qed

lemma schedule_event_ok:
  assumes "pack_ok pack" and "rules_ok pack st" and "dict_mem source (wp_actors pack)"
    and "\<not> bad_event pack ev" and "scheduled_ok pack (absolute_minute st) ps (pending, events)"
  shows "outcome no_exn (scheduled_ok pack (absolute_minute st) ps)
    (schedule_event st pack source pending events ev)"
  unfolding schedule_event_def
  using assms by (auto intro!: outcome_foldR schedule_one_ok simp: consequences_by_id_def)

lemma schedule_loop_ok:
  assumes "pack_ok pack" and "rules_ok pack st" and "dict_mem source (wp_actors pack)"
    and "scheduled_ok pack (absolute_minute st) ps (pending, events)"
  shows "outcome no_exn (scheduled_ok pack (absolute_minute st) ps)
    (schedule_loop st pack source i pending events)"
  using assms
proof (induction st pack source i pending events rule: schedule_loop.induct)
  case (1 st pack source i pending events)
  show ?case
  proof (cases "i < length events")
    case True
    then have ev: "\<not> bad_event pack (events ! i)"
      using 1(5) by (auto simp: scheduled_ok_def events_ok_def)
    note step = schedule_event_ok [OF 1(2,3,4) ev 1(5)]
    obtain p' e' where one: "schedule_event st pack source pending events (events ! i) = Inr (p', e')"
      and ok: "scheduled_ok pack (absolute_minute st) ps (p', e')"
      using outcome_no_exnD [OF step] by auto
    have "outcome no_exn (scheduled_ok pack (absolute_minute st) ps)
        (schedule_loop st pack source (Suc i) p' e')"
      using 1(1) [OF True one refl 1(2,3,4) ok] .
    then show ?thesis using True one by (subst schedule_loop.simps) simp
  next
    case False
    then show ?thesis using 1(5) by (subst schedule_loop.simps) simp
  qed
qed

section \<open>Resolving\<close>

lemma set_extend_new [simp]: "set (extend_new xs ys) = set xs \<union> set ys"
  unfolding extend_new_def by (induction ys arbitrary: xs) auto

lemma events_ok_extend_new [simp]:
  "events_ok pack xs \<Longrightarrow> events_ok pack ys \<Longrightarrow> events_ok pack (extend_new xs ys)"
  by (auto simp: events_ok_def)

lemma pending_ok_sort [simp]: "pending_ok pack (sort_key f ps) = pending_ok pack ps"
proof -
  have "mset (map pc_consequence_id (sort_key f ps)) = mset (map pc_consequence_id ps)" by simp
  then have "distinct (map pc_consequence_id (sort_key f ps)) = distinct (map pc_consequence_id ps)"
    by (rule mset_eq_imp_distinct_iff)
  then show ?thesis by (simp add: pending_ok_def)
qed

lemma pending_ok_filter: "pending_ok pack ps \<Longrightarrow> pending_ok pack (filter P ps)"
  by (auto simp: pending_ok_def distinct_map_filter)

definition resolved_ok ::
  "world_pack \<Rightarrow> world_state \<Rightarrow> world_state \<times> domain_event list \<Rightarrow> bool" where
  "resolved_ok pack st se \<longleftrightarrow>
     csq_inv pack (fst se) \<and> csq_frame st (fst se) \<and> events_ok pack (snd se)"

lemma resolve_item_ok:
  assumes pack: "pack_ok pack" and inv: "csq_inv pack st" and evs: "events_ok pack events"
    and id: "dict_mem (pc_consequence_id item) (wp_consequences pack)"
    and source: "dict_mem (pc_source_actor_id item) (wp_actors pack)"
  shows "outcome no_exn (\<lambda>(st', events', resolved).
      resolved_ok pack st (st', events') \<and> \<not> bad_event pack resolved \<and>
      ws_pending_consequences st' = filter (\<lambda>p. p \<noteq> item) (ws_pending_consequences st))
    (resolve_item pack (st, events) item)"
proof -
  obtain d where d: "map_of (wp_consequences pack) (pc_consequence_id item) = Some d"
    using id by (auto simp: dict_mem_def)
  note dd = pack_consequence [OF pack d]
  have rules: "rules_ok pack st" using inv by (simp add: csq_inv_def)
  have cid: "csd_id d \<in> set (dict_keys (wp_consequences pack))"
    using dd(1) id by (simp add: dict_mem_keys)
  note eff = apply_effects_ok [OF pack rules evs dd(4) source source]
  obtain st1 evs1 where one: "apply_effects st (csd_effects d) (pc_source_actor_id item)
      (pc_source_actor_id item) events pack = Inr (st1, evs1)"
    and res: "effect_result pack st (st1, evs1)"
    using outcome_no_exnD [OF eff] by auto
  have fr: "effect_frame st st1" and r1: "rules_ok pack st1" and e1: "events_ok pack evs1"
    using res by (simp_all add: effect_result_def)
  note fe = effect_frameE [OF fr]
  have "csq_frame st (st1\<lparr>ws_pending_consequences := P, ws_triggered_consequences := T\<rparr>)" for P T
    using csq_frame_trans [OF csq_frame_effect [OF fr] csq_frame_pending(2)] .
  then show ?thesis
    using inv r1 e1 source cid fe
    by (auto simp: resolve_item_def d dict_at_def one resolved_ok_def csq_inv_def pending_ok_filter
        Let_def)
qed

lemma due_after_removal:
  assumes "item \<in> set (due_items now ps)"
  shows "length (due_items now (filter (\<lambda>p. p \<noteq> item) ps)) < length (due_items now ps)"
proof -
  have "due_items now (filter (\<lambda>p. p \<noteq> item) ps) = filter (\<lambda>p. p \<noteq> item) (due_items now ps)"
    by (simp add: due_items_def conj_commute)
  moreover have "length (filter (\<lambda>p. p \<noteq> item) (due_items now ps)) < length (due_items now ps)"
    by (rule length_filter_less [OF assms]) simp
  ultimately show ?thesis by simp
qed

lemma due_items_none: "due_items now ps = [] \<longleftrightarrow> pending_timed now ps"
  by (auto simp: due_items_def pending_timed_def filter_empty_conv not_le)

definition processed_ok :: "world_pack \<Rightarrow> world_state \<Rightarrow> world_state \<Rightarrow> bool" where
  "processed_ok pack st st' \<longleftrightarrow>
     csq_inv pack st' \<and> csq_frame st st' \<and> events_ok pack (ws_recent_events st') \<and>
     pending_timed (absolute_minute st) (ws_pending_consequences st')"

text \<open>One turn of the loop over the due items, given what the recursive call does.\<close>

lemma resolve_and_announce:
  assumes pack: "pack_ok pack" and inv: "resolved_ok pack st0 (st, events)"
    and id: "dict_mem (pc_consequence_id item) (wp_consequences pack)"
    and source: "dict_mem (pc_source_actor_id item) (wp_actors pack)"
    and few: "length (due_items (absolute_minute st0)
        (filter (\<lambda>p. p \<noteq> item) (ws_pending_consequences st))) < depth"
    and rec: "\<And>st' ev. csq_inv pack st' \<Longrightarrow> \<not> bad_event pack ev \<Longrightarrow>
      length (due_items (absolute_minute st') (ws_pending_consequences st')) < depth \<Longrightarrow>
      outcome no_exn (processed_ok pack st')
        (process_consequences depth st' pack [ev] (pc_source_actor_id item))"
  shows "outcome no_exn (\<lambda>se. resolved_ok pack st0 se \<and>
      pending_timed (absolute_minute st0) (ws_pending_consequences (fst se)))
    (rbind (resolve_item pack (st, events) item) (\<lambda>(st', events', resolved).
     rbind (process_consequences depth st' pack [resolved] (pc_source_actor_id item)) (\<lambda>st''.
       Inr (st'', extend_new events' (ws_recent_events st'')))))"
proof -
  have i: "csq_inv pack st" and f: "csq_frame st0 st" and e: "events_ok pack events"
    using inv by (simp_all add: resolved_ok_def)
  note now = csq_frameE(14) [OF f]
  obtain st1 evs1 r where one: "resolve_item pack (st, events) item = Inr (st1, evs1, r)"
    and ok: "resolved_ok pack st (st1, evs1)" "\<not> bad_event pack r"
    and left: "ws_pending_consequences st1 = filter (\<lambda>p. p \<noteq> item) (ws_pending_consequences st)"
    using outcome_no_exnD [OF resolve_item_ok [OF pack i e id source]] by auto
  have f1: "csq_frame st0 st1"
    using ok(1) csq_frame_trans [OF f] by (simp add: resolved_ok_def)
  have now1: "absolute_minute st1 = absolute_minute st0" using csq_frameE(14) [OF f1] .
  have "outcome no_exn (processed_ok pack st1)
      (process_consequences depth st1 pack [r] (pc_source_actor_id item))"
    using rec [of st1 r] ok few left now1 by (simp add: resolved_ok_def)
  then obtain st2 where two: "process_consequences depth st1 pack [r] (pc_source_actor_id item) = Inr st2"
    and p: "processed_ok pack st1 st2"
    using outcome_no_exnD by blast
  have "csq_frame st0 st2" using p csq_frame_trans [OF f1] by (simp add: processed_ok_def)
  then show ?thesis
    using ok(1) p now1 by (simp add: one two resolved_ok_def processed_ok_def)
qed

lemma process_consequences_ok:
  assumes "pack_ok pack" and "csq_inv pack st" and "events_ok pack events"
    and "dict_mem source (wp_actors pack)"
    and "length (due_items (absolute_minute st) (ws_pending_consequences st)) < depth"
  shows "outcome no_exn (processed_ok pack st) (process_consequences depth st pack events source)"
  using assms
proof (induction depth arbitrary: st events source)
  case (Suc depth)
  note pack = Suc.prems(1) and inv = Suc.prems(2)
  have rules: "rules_ok pack st" and pend: "pending_ok pack (ws_pending_consequences st)"
    using inv by (simp_all add: csq_inv_def)
  let ?now = "absolute_minute st"
  have "scheduled_ok pack ?now (ws_pending_consequences st) (ws_pending_consequences st, events)"
    using pend Suc.prems(3) by (simp add: scheduled_ok_def)
  from schedule_loop_ok [OF pack rules Suc.prems(4) this]
  obtain pending evs where sched: "schedule_loop st pack source 0 (ws_pending_consequences st) events = Inr (pending, evs)"
    and ok: "scheduled_ok pack ?now (ws_pending_consequences st) (pending, evs)"
    using outcome_no_exnD by fastforce
  define ps where "ps = sort_key pending_before pending"
  define st1 where "st1 = st\<lparr>ws_pending_consequences := ps\<rparr>"
  have ps: "pending_ok pack ps" using ok by (simp add: ps_def scheduled_ok_def)
  have due_eq: "mset (due_items ?now ps) = mset (due_items ?now (ws_pending_consequences st))"
    using ok by (simp add: ps_def scheduled_ok_def due_items_def) (metis mset_filter)
  then have count: "length (due_items ?now ps) \<le> depth"
    using Suc.prems(5) mset_eq_length by fastforce
  have now1: "absolute_minute st1 = ?now" by (simp add: st1_def absolute_minute_def)
  have start: "resolved_ok pack st (st1, evs)"
    using inv ok ps by (simp add: resolved_ok_def csq_inv_def st1_def scheduled_ok_def)
  define body where "body = (\<lambda>acc item.
      rbind (resolve_item pack acc item) (\<lambda>(st', events', resolved).
      rbind (process_consequences depth st' pack [resolved] (pc_source_actor_id item)) (\<lambda>st''.
        Inr (st'', extend_new events' (ws_recent_events st'')))))"
  let ?P = "\<lambda>se. resolved_ok pack st se \<and> pending_timed ?now (ws_pending_consequences (fst se))"
  have step: "outcome no_exn ?P (body (st', evs') item)"
    if "resolved_ok pack st (st', evs')" and item: "item \<in> set (due_items ?now ps)"
      and "length (due_items ?now (filter (\<lambda>p. p \<noteq> item) (ws_pending_consequences st'))) < depth"
    for st' evs' item
  proof -
    have src: "dict_mem (pc_source_actor_id item) (wp_actors pack)"
      and id: "dict_mem (pc_consequence_id item) (wp_consequences pack)"
      using ps item by (auto simp: pending_ok_def due_items_def)
    have rec: "outcome no_exn (processed_ok pack t)
        (process_consequences depth t pack [ev] (pc_source_actor_id item))"
      if "csq_inv pack t" "\<not> bad_event pack ev"
        "length (due_items (absolute_minute t) (ws_pending_consequences t)) < depth" for t ev
      using Suc.IH [OF pack that(1) _ src that(3)] that(2) by (simp add: events_ok_def)
    show ?thesis
      unfolding body_def using resolve_and_announce [OF pack that(1) id src that(3) rec] by simp
  qed
  have all: "outcome no_exn ?P (foldR body (st1, evs) (due_items ?now ps))"
  proof (cases "due_items ?now ps")
    case Nil
    then have "pending_timed ?now (ws_pending_consequences st1)"
      by (simp add: due_items_none [symmetric] st1_def)
    then show ?thesis using start Nil by simp
  next
    case (Cons item rest)
    have "length (due_items ?now (filter (\<lambda>p. p \<noteq> item) ps)) < length (due_items ?now ps)"
      by (rule due_after_removal) (simp add: Cons)
    then have first: "outcome no_exn ?P (body (st1, evs) item)"
      using step [OF start] count Cons by (simp add: st1_def)
    have later: "outcome no_exn ?P (body se i)" if "i \<in> set rest" "?P se" for se i
    proof -
      have "due_items ?now (filter (\<lambda>p. p \<noteq> i) (ws_pending_consequences (fst se))) = []"
        using that(2) unfolding due_items_none by (simp add: pending_timed_def)
      moreover have "0 < depth" using count Cons by simp
      ultimately show ?thesis
        using step [of "fst se" "snd se" i] that Cons by simp
    qed
    have "outcome no_exn ?P (foldR body se rest)" if "?P se" for se
      using that later by (intro outcome_foldR) auto
    with first show ?thesis unfolding Cons
      by (auto simp: outcome_simps elim!: outcome_mono)
  qed
  have "process_consequences (Suc depth) st pack events source =
      rbind (foldR body (st1, evs) (due_items ?now ps))
        (\<lambda>(st2, events2). Inr (st2\<lparr>ws_recent_events := events2\<rparr>))"
    by (simp add: sched body_def st1_def ps_def due_items_def absolute_minute_def Let_def)
  then show ?case
    using all csq_frame_trans [OF _ csq_frame_pending(3)]
    by (auto simp: outcome_simps processed_ok_def resolved_ok_def csq_inv_def elim!: outcome_mono)
qed simp

text \<open>A depth above the size of the consequence table is always enough.\<close>

lemma process_consequences_enough_depth:
  assumes "pending_ok pack ps" and "length (wp_consequences pack) < depth"
  shows "length (due_items now ps) < depth"
proof -
  have "length (due_items now ps) \<le> length ps" by (simp add: due_items_def)
  also have "length ps = card (pc_consequence_id ` set ps)"
    using assms(1) by (metis pending_ok_def distinct_card length_map list.set_map)
  also have "\<dots> \<le> card (set (dict_keys (wp_consequences pack)))"
    using assms(1) by (intro card_mono) (auto simp: pending_ok_def dict_mem_keys)
  also have "\<dots> \<le> length (wp_consequences pack)"
    by (metis card_length dict_keys_def length_map)
  finally show ?thesis using assms(2) by simp
qed

end
