(* ===== verification/MovementSafety.thy ===== *)
theory MovementSafety
  imports ConsequencesSafety
begin

text \<open>
  The clock, schedules, route following and the direct actions over the invariant. The
  central fact is \<open>advance_routes_ok\<close>: actors step at the same time and still no two share a
  cell, because a target must be unreserved and empty at the start of the step.
\<close>

section \<open>Routes from the navigator\<close>

lemma find_path_ok:
  assumes "pack_ok pack" and "dict_mem mid (wp_maps pack)"
  shows "outcome no_exn (\<lambda>p. \<forall>(x, y) \<in> set p. open_place pack mid x y) (find_path pack mid start goal blocked)"
proof -
  obtain p where p: "find_path pack mid start goal blocked = Inr p"
    and r: "p \<noteq> [] \<Longrightarrow> is_route pack mid blocked start goal p"
    using find_path_spec [OF pack_ok_maps [OF assms(1)]] by blast
  have all: "route_from F c q \<Longrightarrow> \<forall>d \<in> set q. F d" for F c q
    by (induction q arbitrary: c) auto
  have "\<forall>d \<in> set p. free_cell pack mid (blocked - {start}) d"
  proof (cases "p = []")
    case False
    then have "route_from (free_cell pack mid (blocked - {start})) start p"
      using r by (simp add: is_route_def)
    then show ?thesis by (rule all)
  qed simp
  then show ?thesis
    using assms(2) by (auto simp: p free_cell_def open_place_def)
qed

section \<open>Changing actors only\<close>

lemma typed_actors:
  "world_typed pack st \<Longrightarrow> cast_ok pack (ws_constructions st) A \<Longrightarrow> world_typed pack (st\<lparr>ws_actors := A\<rparr>)"
  by (simp add: world_typed_def time_ok_def)

definition walkers :: "world_pack \<Rightarrow> world_state \<Rightarrow> world_state \<Rightarrow> bool" where
  "walkers pack st st' \<longleftrightarrow>
     (\<exists>A. st' = st\<lparr>ws_actors := A\<rparr> \<and> cast_ok pack (ws_constructions st) A)"

lemma walkersI:
  "cast_ok pack (ws_constructions st) A \<Longrightarrow> walkers pack st (st\<lparr>ws_actors := A\<rparr>)"
  by (auto simp: walkers_def)

lemma walkers_refl: "cast_ok pack (ws_constructions st) (ws_actors st) \<Longrightarrow> walkers pack st st"
  using walkersI [of pack st "ws_actors st"] by simp

lemma walkers_trans: "walkers pack st st1 \<Longrightarrow> walkers pack st1 st2 \<Longrightarrow> walkers pack st st2"
  by (auto simp: walkers_def)

lemma walkersE:
  assumes "walkers pack st st'"
  shows "cast_ok pack (ws_constructions st') (ws_actors st')" "ws_constructions st' = ws_constructions st"
    "ws_stockpiles st' = ws_stockpiles st" "ws_flags st' = ws_flags st"
    "ws_production_jobs st' = ws_production_jobs st"
    "ws_pending_consequences st' = ws_pending_consequences st"
    "ws_triggered_consequences st' = ws_triggered_consequences st"
    "ws_minute_of_day st' = ws_minute_of_day st" "ws_active_actor_id st' = ws_active_actor_id st"
    "absolute_minute st' = absolute_minute st" "ws_tick st' = ws_tick st"
    "ws_recent_events st' = ws_recent_events st"
  using assms by (auto simp: walkers_def absolute_minute_def)

lemma walkers_typed: "world_typed pack st \<Longrightarrow> walkers pack st st' \<Longrightarrow> world_typed pack st'"
  by (auto simp: walkers_def typed_actors)

lemma walkers_replace:
  assumes "cast_ok pack (ws_constructions st) (ws_actors st)" and "a \<in> set (ws_actors st)"
    and "as_actor_id a' = as_actor_id a" and "actor_key a' = actor_key a" and "attrs_ok pack a'"
  shows "walkers pack st (replace_actor st a')"
  unfolding replace_actor_def using cast_update [OF assms] by (rule walkersI)

lemma attrs_map: "attrs_ok pack a \<Longrightarrow> standing_ok pack sites a \<Longrightarrow> dict_mem (as_map_id a) (wp_maps pack)"
  by (simp add: standing_ok_def open_place_def)

section \<open>Schedules\<close>

lemma first_route_ok:
  assumes "pack_ok pack" and "dict_mem (as_map_id a) (wp_maps pack)"
  shows "outcome no_exn (\<lambda>p. \<forall>(x, y) \<in> set p. open_place pack (as_map_id a) x y)
    (first_route pack a blocked ls)"
proof (induction ls)
  case (Cons l ls)
  then show ?case
    using find_path_ok [OF assms, of "actor_cell a" "loc_cell l" blocked]
    by (auto simp: outcome_simps elim!: outcome_mono)
qed simp

lemma actor_definition_at:
  assumes "pack_ok pack" and "dict_mem aid (wp_actors pack)"
  obtains d where "map_of (wp_actors pack) aid = Some d" "ad_id d = aid" "actor_def_ok pack d"
  using assms pack_actor [OF assms(1)] by (auto simp: dict_mem_def)

lemma route_update:
  assumes cast: "cast_ok pack (ws_constructions st) (ws_actors st)" and a: "a \<in> set (ws_actors st)"
    and route: "\<forall>(x, y) \<in> set route. open_place pack (as_map_id a) x y"
  shows "walkers pack st (replace_actor st (a\<lparr>as_route := route, as_blocked_ticks := n\<rparr>))"
proof (rule walkers_replace [OF cast a])
  have "attrs_ok pack a" using cast a by (simp add: cast_ok_def)
  then show "attrs_ok pack (a\<lparr>as_route := route, as_blocked_ticks := n\<rparr>)"
    using route by (rule attrs_route)
qed (simp_all add: actor_key_def)

lemma plan_schedule_ok:
  assumes pack: "pack_ok pack" and cast: "cast_ok pack (ws_constructions st) (ws_actors st)"
    and sites: "sites_ok pack (ws_constructions st)" and aid: "dict_mem aid (wp_actors pack)"
  shows "outcome no_exn (walkers pack st) (plan_schedule pack st aid)"
proof -
  obtain a where a: "get_actor st aid = Inr a" "a \<in> set (ws_actors st)" "as_actor_id a = aid"
    "attrs_ok pack a" "standing_ok pack (ws_constructions st) a"
    using cast_find [OF cast aid] .
  obtain d where d: "map_of (wp_actors pack) aid = Some d" "actor_def_ok pack d"
    using actor_definition_at [OF pack aid] .
  have here: "walkers pack st st" by (rule walkers_refl [OF cast])
  have mid: "dict_mem (as_map_id a) (wp_maps pack)" using a(4,5) by (rule attrs_map)
  have sched: "\<exists>v. map_of (wp_schedules pack) s = Some v" if "ad_schedule_id d = Some s" for s
    using d(2) that by (auto simp: actor_def_ok_def opt_in_def dict_mem_def)
  have go: "outcome no_exn (walkers pack st) (rbind (first_route pack a blocked ls) (\<lambda>route.
      Inr (if route \<noteq> [] then replace_actor st (a\<lparr>as_route := route, as_blocked_ticks := 0\<rparr>) else st)))"
    for blocked ls
    using first_route_ok [OF pack mid, of blocked ls] here route_update [OF cast a(2)]
    by (auto simp: outcome_simps elim!: outcome_mono)
  show ?thesis
    using here sched go
    by (auto simp: plan_schedule_def schedule_enabled_def a d dict_at_def dynamic_blocked_eq [OF sites]
        outcome_simps Let_def split: option.split)
qed

lemma plan_schedules_ok:
  assumes pack: "pack_ok pack" and cast: "cast_ok pack (ws_constructions st) (ws_actors st)"
    and sites: "sites_ok pack (ws_constructions st)"
  shows "outcome no_exn (walkers pack st) (plan_schedules st pack)"
  unfolding plan_schedules_def
proof (rule outcome_foldR)
  show "walkers pack st st" by (rule walkers_refl [OF cast])
next
  fix st1 aid assume aid: "aid \<in> set (map as_actor_id (sort_key as_actor_id (ws_actors st)))"
    and w: "walkers pack st st1"
  have mem: "dict_mem aid (wp_actors pack)"
    using aid cast by (auto simp: cast_ok_def dict_mem_keys)
  have "outcome no_exn (walkers pack st1) (plan_schedule pack st1 aid)"
    using plan_schedule_ok [OF pack walkersE(1) [OF w] _ mem] sites walkersE(2) [OF w] by simp
  then show "outcome no_exn (walkers pack st) (plan_schedule pack st1 aid)"
    by (rule outcome_mono) (rule walkers_trans [OF w])
qed

section \<open>Following routes\<close>

lemma occupancy_at:
  assumes "distinct (map actor_key (ws_actors st))" and "b \<in> set (ws_actors st)"
  shows "occupancy st (actor_key b) = Some (as_actor_id b)"
proof -
  let ?xs = "map (\<lambda>a. ((as_map_id a, as_x a, as_y a), as_actor_id a)) (ws_actors st)"
  have "distinct (map fst (rev ?xs))"
    using assms(1) by (simp add: actor_key_def [abs_def] comp_def rev_map [symmetric])
  moreover have "(actor_key b, as_actor_id b) \<in> set (rev ?xs)"
    using assms(2) by (auto simp: actor_key_def)
  ultimately show ?thesis by (simp add: occupancy_def map_of_is_SomeI del: map_map)
qed

text \<open>The updates of a step: where each updated actor stands, and that moved actors differ.\<close>

definition stepped ::
  "world_pack \<Rightarrow> world_state \<Rightarrow> (string \<times> int \<times> int) set \<Rightarrow> actor_state \<Rightarrow> actor_state \<Rightarrow> bool" where
  "stepped pack st R a u \<longleftrightarrow>
     as_actor_id u = as_actor_id a \<and> attrs_ok pack u \<and> standing_ok pack (ws_constructions st) u \<and>
     (actor_key u = actor_key a \<or>
      actor_key u \<in> R \<and> occupancy st (actor_key u) \<in> {None, Some (as_actor_id a)})"

definition step_inv ::
  "world_pack \<Rightarrow> world_state \<Rightarrow> (string \<times> int \<times> int) set \<times> actor_state dict \<Rightarrow> bool" where
  "step_inv pack st RU \<longleftrightarrow>
     (\<forall>a \<in> set (ws_actors st). \<forall>u. map_of (snd RU) (as_actor_id a) = Some u \<longrightarrow> stepped pack st (fst RU) a u) \<and>
     (\<forall>a \<in> set (ws_actors st). \<forall>b \<in> set (ws_actors st). \<forall>u v.
        map_of (snd RU) (as_actor_id a) = Some u \<longrightarrow> map_of (snd RU) (as_actor_id b) = Some v \<longrightarrow>
        actor_key u \<noteq> actor_key a \<longrightarrow> actor_key v \<noteq> actor_key b \<longrightarrow>
        as_actor_id a \<noteq> as_actor_id b \<longrightarrow> actor_key u \<noteq> actor_key v)"

lemma stepped_more: "stepped pack st R a u \<Longrightarrow> R \<subseteq> R' \<Longrightarrow> stepped pack st R' a u"
  by (auto simp: stepped_def)

lemma step_inv_put:
  assumes inv: "step_inv pack st (R, U)" and cast: "cast_ok pack (ws_constructions st) (ws_actors st)"
    and a: "a \<in> set (ws_actors st)" and R: "R \<subseteq> R'"
    and u: "stepped pack st R' a u" and new: "actor_key u \<noteq> actor_key a \<Longrightarrow> actor_key u \<notin> R"
  shows "step_inv pack st (R', AList.update (as_actor_id a) u U)"
proof -
  have same: "b = a" if "b \<in> set (ws_actors st)" "as_actor_id b = as_actor_id a" for b
    using cast a that by (auto simp: cast_ok_def distinct_map inj_on_def)
  have old: "stepped pack st R b v" if "b \<in> set (ws_actors st)" "map_of U (as_actor_id b) = Some v" for b v
    using inv that by (simp add: step_inv_def)
  have diff: "actor_key u \<noteq> actor_key v"
    if "b \<in> set (ws_actors st)" "map_of U (as_actor_id b) = Some v" "actor_key v \<noteq> actor_key b"
      "actor_key u \<noteq> actor_key a" for b v
    using old [OF that(1,2)] that(3) new [OF that(4)] by (auto simp: stepped_def)
  have "stepped pack st R' b v" if "b \<in> set (ws_actors st)"
    "map_of (AList.update (as_actor_id a) u U) (as_actor_id b) = Some v" for b v
    using that u same stepped_more [OF old R] by (auto simp: update_conv' split: if_splits)
  moreover have "actor_key v \<noteq> actor_key w"
    if "b \<in> set (ws_actors st)" "c \<in> set (ws_actors st)"
      "map_of (AList.update (as_actor_id a) u U) (as_actor_id b) = Some v"
      "map_of (AList.update (as_actor_id a) u U) (as_actor_id c) = Some w"
      "actor_key v \<noteq> actor_key b" "actor_key w \<noteq> actor_key c" "as_actor_id b \<noteq> as_actor_id c" for b c v w
  proof (cases "as_actor_id b = as_actor_id a")
    case True
    with same that(1) have "b = a" by blast
    then show ?thesis using that True diff [of c w] by (simp add: update_conv')
  next
    case False
    show ?thesis
    proof (cases "as_actor_id c = as_actor_id a")
      case True
      with same that(2) have "c = a" by blast
      then show ?thesis using that False diff [of b v] by (simp add: update_conv' eq_commute)
    next
      case F: False
      then show ?thesis using that False inv by (simp add: update_conv' step_inv_def)
    qed
  qed
  ultimately show ?thesis unfolding step_inv_def fst_conv snd_conv by blast
qed

lemma route_step_ok:
  assumes pack: "pack_ok pack" and cast: "cast_ok pack (ws_constructions st) (ws_actors st)"
    and sites: "sites_ok pack (ws_constructions st)" and a: "a \<in> set (ws_actors st)"
    and inv: "step_inv pack st RU"
  shows "outcome no_exn (step_inv pack st) (route_step st pack RU a)"
proof -
  obtain R U where RU: "RU = (R, U)" by (cases RU)
  have attrs: "attrs_ok pack a" and stand: "standing_ok pack (ws_constructions st) a"
    using cast a by (simp_all add: cast_ok_def)
  have mid: "dict_mem (as_map_id a) (wp_maps pack)" using attrs stand by (rule attrs_map)
  show ?thesis
  proof (cases "as_route a")
    case Nil
    then show ?thesis using inv RU by (simp add: route_step_def)
  next
    case (Cons c rest)
    obtain x y where c: "c = (x, y)" by (cases c)
    let ?key = "(as_map_id a, x, y)"
    let ?u = "a\<lparr>as_x := x, as_y := y, as_route := rest, as_blocked_ticks := 0\<rparr>"
    let ?n = "as_blocked_ticks a + 1"
    let ?w = "a\<lparr>as_route := (if 3 \<le> ?n then [] else as_route a), as_blocked_ticks := ?n\<rparr>"
    have key: "actor_key ?u = ?key" by (simp add: actor_key_def)
    have routes: "\<forall>(x, y) \<in> set (as_route a). open_place pack (as_map_id a) x y"
      using attrs by (simp add: attrs_ok_def)
    have "attrs_ok pack ?w" by (rule attrs_route [OF attrs]) (use routes in auto)
    moreover have "standing_ok pack (ws_constructions st) ?w" "actor_key ?w = actor_key a"
      using stand by (simp_all add: standing_ok_def actor_cell_def actor_key_def)
    ultimately have wait: "step_inv pack st (R, AList.update (as_actor_id a) ?w U)"
      using step_inv_put [of pack st R U a R ?w] inv cast a RU by (simp add: stepped_def)
    have go: "step_inv pack st (insert ?key R, AList.update (as_actor_id a) ?u U)"
      if "open_place pack (as_map_id a) x y" "(x, y) \<notin> site_cells pack (ws_constructions st) (as_map_id a) True"
        "?key \<notin> R" "occupancy st ?key = None \<or> occupancy st ?key = Some (as_actor_id a)"
    proof (rule step_inv_put [of pack st R U a])
      show "step_inv pack st (R, U)" using inv RU by simp
      have "attrs_ok pack ?u" using attrs routes Cons by (auto simp: attrs_ok_def)
      moreover have "standing_ok pack (ws_constructions st) ?u"
        using that(1,2) by (simp add: standing_ok_def actor_cell_def)
      ultimately show "stepped pack st (insert ?key R) a ?u"
        using that(4) by (simp add: stepped_def key)
      show "actor_key ?u \<notin> R" using that(3) key by simp
    qed (use cast a in auto)
    show ?thesis
      using wait go
      by (simp add: route_step_def RU Cons c is_walkable_eq [OF pack sites mid] Let_def)
  qed
qed

lemma advance_routes_ok:
  assumes pack: "pack_ok pack" and cast: "cast_ok pack (ws_constructions st) (ws_actors st)"
    and sites: "sites_ok pack (ws_constructions st)"
  shows "outcome no_exn (walkers pack st) (advance_routes st pack)"
proof -
  let ?fold = "foldR (route_step st pack) ({}, []) (sort_key as_actor_id (ws_actors st))"
  have "outcome no_exn (step_inv pack st) ?fold"
  proof (rule outcome_foldR)
    show "step_inv pack st ({}, [])" by (simp add: step_inv_def)
  qed (use route_step_ok [OF pack cast sites] in auto)
  then obtain RU where "?fold = Inr RU" "step_inv pack st RU"
    using outcome_no_exnD by blast
  then obtain R U where fold: "?fold = Inr (R, U)" and inv: "step_inv pack st (R, U)"
    by (cases RU) simp
  define new where "new a = (case map_of U (as_actor_id a) of None \<Rightarrow> a | Some u \<Rightarrow> u)" for a
  have old: "attrs_ok pack a \<and> standing_ok pack (ws_constructions st) a" if "a \<in> set (ws_actors st)" for a
    using cast that by (simp add: cast_ok_def)
  have step: "map_of U (as_actor_id a) = Some u \<Longrightarrow> stepped pack st R a u" if "a \<in> set (ws_actors st)" for a u
    using inv that by (simp add: step_inv_def)
  have each: "as_actor_id (new a) = as_actor_id a \<and> attrs_ok pack (new a) \<and>
      standing_ok pack (ws_constructions st) (new a)" if "a \<in> set (ws_actors st)" for a
  proof (cases "map_of U (as_actor_id a)")
    case None
    then show ?thesis using old [OF that] by (simp add: new_def)
  next
    case (Some u)
    then show ?thesis using step [OF that Some] by (simp add: new_def stepped_def)
  qed
  have occ: "occupancy st (actor_key b) = Some (as_actor_id b)" if "b \<in> set (ws_actors st)" for b
    using occupancy_at cast that by (simp add: cast_ok_def)
  have ids: "a = b" if "a \<in> set (ws_actors st)" "b \<in> set (ws_actors st)" "as_actor_id a = as_actor_id b" for a b
    using cast that by (auto simp: cast_ok_def distinct_map inj_on_def)
  have keys: "a = b" if "a \<in> set (ws_actors st)" "b \<in> set (ws_actors st)" "actor_key a = actor_key b" for a b
    using cast that by (auto simp: cast_ok_def distinct_map inj_on_def)
  have target: "occupancy st (actor_key (new a)) \<in> {None, Some (as_actor_id a)}"
    if "a \<in> set (ws_actors st)" "actor_key (new a) \<noteq> actor_key a" for a
  proof (cases "map_of U (as_actor_id a)")
    case None
    then show ?thesis using that by (simp add: new_def)
  next
    case (Some u)
    then show ?thesis using step [OF that(1) Some] that(2) by (simp add: new_def stepped_def)
  qed
  have apart: "a = b" if a: "a \<in> set (ws_actors st)" and b: "b \<in> set (ws_actors st)"
    and eq: "actor_key (new a) = actor_key (new b)" for a b
  proof (rule ccontr)
    assume neq: "a \<noteq> b"
    consider "actor_key (new a) = actor_key a" "actor_key (new b) = actor_key b"
      | "actor_key (new a) \<noteq> actor_key a" "actor_key (new b) = actor_key b"
      | "actor_key (new a) = actor_key a" "actor_key (new b) \<noteq> actor_key b"
      | "actor_key (new a) \<noteq> actor_key a" "actor_key (new b) \<noteq> actor_key b" by blast
    then show False
    proof cases
      case 1
      then show False using keys [OF a b] eq neq by simp
    next
      case 2
      then show False using target [OF a] occ [OF b] eq ids [OF a b] neq by auto
    next
      case 3
      then show False using target [OF b] occ [OF a] eq ids [OF a b] neq by auto
    next
      case 4
      then obtain u v where "map_of U (as_actor_id a) = Some u" "map_of U (as_actor_id b) = Some v"
        "new a = u" "new b = v"
        by (cases "map_of U (as_actor_id a)"; cases "map_of U (as_actor_id b)") (simp_all add: new_def)
      moreover have "as_actor_id a \<noteq> as_actor_id b" using ids [OF a b] neq by blast
      ultimately show False using 4 inv a b eq by (simp add: step_inv_def)
    qed
  qed
  have id: "map as_actor_id (map new (ws_actors st)) = map as_actor_id (ws_actors st)"
    using each by simp
  have "inj_on (actor_key \<circ> new) (set (ws_actors st))"
    by (rule inj_onI) (simp add: apart)
  then have "distinct (map actor_key (map new (ws_actors st)))"
    using cast by (simp add: cast_ok_def distinct_map comp_inj_on_iff [symmetric])
  moreover have "as_actor_id ` set (map new (ws_actors st)) = as_actor_id ` set (ws_actors st)"
    using id by (metis list.set_map)
  moreover have "\<forall>a \<in> set (map new (ws_actors st)). attrs_ok pack a \<and> standing_ok pack (ws_constructions st) a"
    using each by auto
  ultimately have "cast_ok pack (ws_constructions st) (map new (ws_actors st))"
    using cast unfolding cast_ok_def id by blast
  then have moved: "walkers pack st (st\<lparr>ws_actors := map new (ws_actors st)\<rparr>)" by (rule walkersI)
  have "movement_interval_ticks (wp_clock pack) \<noteq> 0" using pack_clock [OF pack] by simp
  then show ?thesis
    using moved walkers_refl [OF cast]
    by (simp add: advance_routes_def fold new_def [abs_def])
qed

section \<open>Direct actions\<close>

text \<open>What a direct action leaves alone; with it the deadlines stay in order.\<close>

definition steady :: "world_state \<Rightarrow> world_state \<Rightarrow> bool" where
  "steady st st' \<longleftrightarrow>
     absolute_minute st' = absolute_minute st \<and> ws_constructions st' = ws_constructions st \<and>
     ws_production_jobs st' = ws_production_jobs st \<and>
     ws_pending_consequences st' = ws_pending_consequences st"

definition acted :: "world_pack \<Rightarrow> world_state \<Rightarrow> world_state \<Rightarrow> bool" where
  "acted pack st st' \<longleftrightarrow> world_typed pack st' \<and> steady st st'"

lemma typed_updates [simp]:
  "world_typed pack (st\<lparr>ws_last_message := m\<rparr>) = world_typed pack st"
  "events_ok pack evs \<Longrightarrow> world_typed pack st \<Longrightarrow> world_typed pack (st\<lparr>ws_recent_events := evs\<rparr>)"
  "set is \<subseteq> set (dict_keys (wp_interactions pack)) \<Longrightarrow> world_typed pack st \<Longrightarrow>
     world_typed pack (st\<lparr>ws_completed_interactions := ws_completed_interactions st \<union> set is\<rparr>)"
  by (simp_all add: world_typed_def time_ok_def)

lemma steady_updates [simp]:
  "steady st (st'\<lparr>ws_last_message := m\<rparr>) = steady st st'"
  "steady st (st'\<lparr>ws_recent_events := evs\<rparr>) = steady st st'"
  "steady st (st'\<lparr>ws_completed_interactions := I\<rparr>) = steady st st'"
  by (simp_all add: steady_def absolute_minute_def)

lemma acted_message [simp]: "acted pack st (with_message m st') = acted pack st st'"
  by (simp add: acted_def with_message_def)

lemma replace_actor_message:
  "replace_actor (with_message m st) a = with_message m (replace_actor st a)"
  by (cases st) (simp add: replace_actor_def with_message_def)

lemma acted_refl: "world_typed pack st \<Longrightarrow> acted pack st st"
  by (simp add: acted_def steady_def)

lemma acted_events:
  "acted pack st st' \<Longrightarrow> events_ok pack evs \<Longrightarrow> acted pack st (st'\<lparr>ws_recent_events := evs\<rparr>)"
  by (simp add: acted_def)

lemma acted_walkers: "world_typed pack st \<Longrightarrow> walkers pack st st' \<Longrightarrow> acted pack st st'"
  using walkers_typed [of pack st st'] walkersE [of pack st st'] by (simp add: acted_def steady_def)

lemma playable_known: "pack_ok pack \<Longrightarrow> aid \<in> set (playable_actor_ids pack) \<Longrightarrow> dict_mem aid (wp_actors pack)"
  using pack_ok_wf [of pack]
  by (auto simp: playable_actor_ids_def pack_wf_def intro: keyed_by_ids_mem)

definition known_actor :: "world_pack \<Rightarrow> game_action \<Rightarrow> bool" where
  "known_actor pack act \<longleftrightarrow> truthy (ga_actor_id act) \<longrightarrow> opt_in (ga_actor_id act) (wp_actors pack)"

lemma action_actor_known:
  "pack_ok pack \<Longrightarrow> ws_active_actor_id st \<in> set (playable_actor_ids pack) \<Longrightarrow> known_actor pack act \<Longrightarrow>
     dict_mem (action_actor st act) (wp_actors pack)"
  using playable_known [of pack "ws_active_actor_id st"]
  by (auto simp: action_actor_def or_else_def known_actor_def opt_in_iff)

lemma typed_parts:
  assumes "world_typed pack st"
  shows "cast_ok pack (ws_constructions st) (ws_actors st)" "sites_ok pack (ws_constructions st)"
    "stock_ok pack (ws_stockpiles st)" "rules_ok pack st" "csq_inv pack st"
    "ws_active_actor_id st \<in> set (playable_actor_ids pack)" "time_ok pack st"
    "events_ok pack (ws_recent_events st)"
    "jobs_ok pack (ws_constructions st) (ws_production_jobs st)"
    "quests_ok pack (ws_quests st)" "dialogue_ok pack (ws_dialogue st)"
  using assms by (simp_all add: world_typed_def rules_ok_def csq_inv_def)

lemma cast_move:
  assumes "cast_ok pack sites actors" and a: "a \<in> set actors" and id: "as_actor_id a' = as_actor_id a"
    and "attrs_ok pack a'" and "standing_ok pack sites a'"
    and free: "\<And>b. b \<in> set actors \<Longrightarrow> as_actor_id b \<noteq> as_actor_id a \<Longrightarrow> actor_key b \<noteq> actor_key a'"
  shows "cast_ok pack sites (map (\<lambda>b. if as_actor_id b = as_actor_id a' then a' else b) actors)"
proof -
  let ?f = "\<lambda>b. if as_actor_id b = as_actor_id a' then a' else b"
  have same: "b = c" if "b \<in> set actors" "c \<in> set actors" "as_actor_id b = as_actor_id c" for b c
    using assms(1) that by (auto simp: cast_ok_def distinct_map inj_on_def)
  have keys: "b = c" if "b \<in> set actors" "c \<in> set actors" "actor_key b = actor_key c" for b c
    using assms(1) that by (auto simp: cast_ok_def distinct_map inj_on_def)
  have "inj_on (actor_key \<circ> ?f) (set actors)"
  proof (rule inj_onI)
    fix b c assume b: "b \<in> set actors" and c: "c \<in> set actors" and eq: "(actor_key \<circ> ?f) b = (actor_key \<circ> ?f) c"
    show "b = c"
      using eq keys [OF b c] same [OF b c] free [OF b] free [OF c] id
      by (auto split: if_splits)
  qed
  then have "distinct (map actor_key (map ?f actors))"
    using assms(1) by (simp add: cast_ok_def distinct_map comp_inj_on_iff [symmetric])
  moreover have ids: "map as_actor_id (map ?f actors) = map as_actor_id actors" by simp
  moreover have "as_actor_id ` set (map ?f actors) = as_actor_id ` set actors"
    using ids by (metis list.set_map)
  moreover have "\<forall>b \<in> set (map ?f actors). attrs_ok pack b \<and> standing_ok pack sites b"
    using assms(1,4,5) by (auto simp: cast_ok_def)
  ultimately show ?thesis using assms(1) unfolding cast_ok_def by metis
qed

lemma move_ok:
  assumes pack: "pack_ok pack" and inv: "world_typed pack st" and act: "known_actor pack act"
  shows "outcome no_exn (acted pack st) (move st act pack)"
proof -
  note parts = typed_parts [OF inv]
  have aid: "dict_mem (action_actor st act) (wp_actors pack)"
    by (rule action_actor_known [OF pack parts(6) act])
  obtain a where a: "get_actor st (action_actor st act) = Inr a" "a \<in> set (ws_actors st)"
    "as_actor_id a = action_actor st act" "attrs_ok pack a" "standing_ok pack (ws_constructions st) a"
    using cast_find [OF parts(1) aid] .
  have mid: "dict_mem (as_map_id a) (wp_maps pack)" using a(4,5) by (rule attrs_map)
  let ?x = "as_x a + ga_dx act" and ?y = "as_y a + ga_dy act"
  let ?a = "a\<lparr>as_x := ?x, as_y := ?y, as_route := [], as_blocked_ticks := 0\<rparr>"
  have go: "acted pack st ((replace_actor (with_message [] st) ?a)
      \<lparr>ws_recent_events := [domain_event_of ''location_entered'' (action_actor st act) (as_map_id a)]\<rparr>)"
    if "open_place pack (as_map_id a) ?x ?y"
      "(?x, ?y) \<notin> site_cells pack (ws_constructions st) (as_map_id a) True"
      "(?x, ?y) \<notin> occupied st (as_map_id a) (action_actor st act)"
  proof (rule acted_events)
    have "attrs_ok pack ?a" using a(4) by (simp add: attrs_ok_def)
    moreover have "standing_ok pack (ws_constructions st) ?a"
      using that by (simp add: standing_ok_def actor_cell_def)
    moreover have "actor_key b \<noteq> actor_key ?a" if "b \<in> set (ws_actors st)" "as_actor_id b \<noteq> as_actor_id a" for b
    proof
      assume eq: "actor_key b = actor_key ?a"
      then have "as_map_id b = as_map_id a" "(as_x b, as_y b) = (?x, ?y)" by (simp_all add: actor_key_def)
      then have "(?x, ?y) \<in> occupied st (as_map_id a) (action_actor st act)"
        using that a(3) unfolding occupied_def by (auto intro!: rev_image_eqI [of b])
      with \<open>(?x, ?y) \<notin> occupied st (as_map_id a) (action_actor st act)\<close> show False ..
    qed
    ultimately have "walkers pack st (replace_actor st ?a)"
      unfolding replace_actor_def using cast_move [OF parts(1) a(2)] by (intro walkersI) simp
    then have "acted pack st (with_message [] (replace_actor st ?a))"
      using acted_walkers [OF inv] by simp
    then show "acted pack st (replace_actor (with_message [] st) ?a)"
      by (simp add: replace_actor_message)
  qed (simp add: aid)
  show ?thesis
    unfolding move_def Let_def a(1) rbind_Inr is_walkable_eq [OF pack parts(2) mid]
    using go acted_refl [OF inv] by simp
qed

lemma navigate_ok:
  assumes pack: "pack_ok pack" and inv: "world_typed pack st" and act: "known_actor pack act"
  shows "outcome no_exn (acted pack st) (navigate st act pack)"
proof -
  note parts = typed_parts [OF inv]
  have aid: "dict_mem (action_actor st act) (wp_actors pack)"
    by (rule action_actor_known [OF pack parts(6) act])
  obtain a where a: "get_actor st (action_actor st act) = Inr a" "a \<in> set (ws_actors st)"
    "as_actor_id a = action_actor st act" "attrs_ok pack a" "standing_ok pack (ws_constructions st) a"
    using cast_find [OF parts(1) aid] .
  have mid: "dict_mem (as_map_id a) (wp_maps pack)" using a(4,5) by (rule attrs_map)
  have planned: "acted pack st (replace_actor (with_message m st) (a\<lparr>as_route := p, as_blocked_ticks := 0\<rparr>))"
    if "\<forall>(x, y) \<in> set p. open_place pack (as_map_id a) x y" for m p
  proof -
    have "acted pack st (with_message m (replace_actor st (a\<lparr>as_route := p, as_blocked_ticks := 0\<rparr>)))"
      using acted_walkers [OF inv route_update [OF parts(1) a(2) that]] by simp
    then show ?thesis by (simp add: replace_actor_message)
  qed
  have *: "outcome no_exn (acted pack st)
      (rbind (find_path pack (as_map_id a) (actor_cell a) g blocked) (\<lambda>route.
         if route = [] \<and> actor_cell a \<noteq> g then Inr (with_message ''No route'' st)
         else Inr (replace_actor (with_message (if route \<noteq> [] then ''Route planned'' else ''Already there'') st)
                (a\<lparr>as_route := route, as_blocked_ticks := 0\<rparr>))))" for g blocked
    using find_path_ok [OF pack mid, of "actor_cell a" g blocked] planned acted_refl [OF inv]
    by (auto simp: outcome_simps elim!: outcome_mono)
  show ?thesis
    unfolding navigate_def Let_def a(1) rbind_Inr dynamic_blocked_eq [OF parts(2)]
    using * acted_refl [OF inv] by (simp split: option.split)
qed

text \<open>An effect list in the middle of an action.\<close>

lemma typed_effect:
  assumes "world_typed pack st" and "effect_result pack st se"
  shows "acted pack st (fst se)" "events_ok pack (snd se)"
proof -
  have fr: "effect_frame st (fst se)" and r: "rules_ok pack (fst se)" and "events_ok pack (snd se)"
    using assms(2) by (simp_all add: effect_result_def)
  then show "events_ok pack (snd se)" by simp
  note f = effect_frameE [OF fr]
  show "acted pack st (fst se)"
    using assms(1) r f(1-17)
    by (simp add: acted_def steady_def world_typed_def rules_ok_def time_ok_def)
qed

lemma interact_ok:
  assumes pack: "pack_ok pack" and inv: "world_typed pack st" and act: "known_actor pack act"
  shows "outcome no_exn (acted pack st) (interact st act pack)"
proof -
  note parts = typed_parts [OF inv]
  have aid: "dict_mem (action_actor st act) (wp_actors pack)"
    by (rule action_actor_known [OF pack parts(6) act])
  obtain a where a: "get_actor st (action_actor st act) = Inr a" using cast_find [OF parts(1) aid] by blast
  define candidates where "candidates =
    (case ga_interaction_id act of None \<Rightarrow> filter (interaction_available st a) (dict_values (wp_interactions pack))
     | Some iid \<Rightarrow> filter (\<lambda>i. ind_id i = iid)
         (filter (interaction_available st a) (dict_values (wp_interactions pack))))"
  define i where "i = arg_min_list (\<lambda>i. (interaction_distance a i, ind_id i)) candidates"
  show ?thesis
  proof (cases "candidates = []")
    case True
    then show ?thesis
      using acted_refl [OF inv] by (simp add: interact_def a candidates_def [symmetric] Let_def)
  next
    case False
    have "i \<in> set candidates" unfolding i_def using False by (rule arg_min_list_in)
    then have mem: "i \<in> set (dict_values (wp_interactions pack))"
      by (auto simp: candidates_def split: option.splits)
    note di = pack_interaction [OF pack mem]
    have "outcome no_exn (effect_result pack st) (apply_effects st (ind_effects i) (action_actor st act)
        (action_actor st act) [domain_event_of ''interaction_completed'' (action_actor st act) (ind_id i)] pack)"
      using apply_effects_ok [OF pack parts(4) _ di(1) aid aid] aid by simp
    then obtain se where eff: "apply_effects st (ind_effects i) (action_actor st act)
        (action_actor st act) [domain_event_of ''interaction_completed'' (action_actor st act) (ind_id i)] pack = Inr se"
      and res: "effect_result pack st se" using outcome_no_exnD by blast
    obtain st1 evs where se: "se = (st1, evs)" by (cases se)
    have "acted pack st st1" "events_ok pack evs" using typed_effect [OF inv res] by (simp_all add: se)
    then have "acted pack st (st1\<lparr>ws_last_message := m, ws_recent_events := evs\<rparr>)"
      "acted pack st (st1\<lparr>ws_completed_interactions := insert (ind_id i) (ws_completed_interactions st1),
          ws_last_message := m, ws_recent_events := evs\<rparr>)" for m
      using di(2) typed_updates(3) [of "[ind_id i]" pack st1] by (simp_all add: acted_def dict_mem_keys)
    then show ?thesis
      using False
      by (simp add: interact_def a candidates_def [symmetric] i_def [symmetric] eff se Let_def)
  qed
qed

lemma use_ability_ok:
  assumes pack: "pack_ok pack" and inv: "world_typed pack st" and act: "known_actor pack act"
  shows "outcome no_exn (acted pack st) (use_ability st act pack)"
proof -
  note parts = typed_parts [OF inv]
  let ?aid = "action_actor st act"
  have aid: "dict_mem ?aid (wp_actors pack)" by (rule action_actor_known [OF pack parts(6) act])
  obtain a where a: "get_actor st ?aid = Inr a" "a \<in> set (ws_actors st)" "as_actor_id a = ?aid" "attrs_ok pack a"
    using cast_find [OF parts(1) aid] by blast
  obtain d where d: "map_of (wp_actors pack) ?aid = Some d" "actor_def_ok pack d"
    using actor_definition_at [OF pack aid] .
  have stay: "acted pack st (with_message m st)" for m using acted_refl [OF inv] by simp
  have target: "dict_mem t (wp_actors pack)" if tt: "ability_target st act a ?aid ability = Inr t" for t ability
  proof (cases "abd_target ability = ''actor''")
    case True
    then obtain b where "get_actor st t = Inr b"
      using tt by (auto simp: ability_target_def Let_def split: sum.splits if_splits)
    then have "t \<in> as_actor_id ` set (ws_actors st)" using get_actorD by fastforce
    then show ?thesis using parts(1) by (simp add: cast_ok_def dict_mem_keys)
  next
    case False
    then show ?thesis using tt aid by (simp add: ability_target_def)
  qed
  have main: "outcome no_exn (acted pack st)
      (rbind (apply_effects (replace_actor st (with_cooldown (pay_costs a (abd_costs ability)) i
                 (absolute_minute st + abd_cooldown_minutes ability))) (abd_effects ability) ?aid t
                 [domain_event_of ''ability_used'' ?aid i] pack)
         (\<lambda>(st', events). Inr (st'\<lparr>ws_last_message := m, ws_recent_events := events\<rparr>)))"
    if ability: "map_of (wp_abilities pack) i = Some ability" and t: "dict_mem t (wp_actors pack)" for ability i t m
  proof -
    note ab = pack_ability [OF pack ability]
    let ?b = "with_cooldown (pay_costs a (abd_costs ability)) i (absolute_minute st + abd_cooldown_minutes ability)"
    have "0 \<le> absolute_minute st" using parts(7) by (simp add: time_ok_def absolute_minute_def)
    then have "attrs_ok pack ?b"
      using ab ability by (intro attrs_cooldown attrs_pay_costs a(4)) (auto simp: dict_mem_def)
    then have w: "walkers pack st (replace_actor st ?b)" by (intro walkers_replace [OF parts(1) a(2)]) simp_all
    then have typed: "world_typed pack (replace_actor st ?b)" by (rule walkers_typed [OF inv])
    have "outcome no_exn (effect_result pack (replace_actor st ?b))
        (apply_effects (replace_actor st ?b) (abd_effects ability) ?aid t [domain_event_of ''ability_used'' ?aid i] pack)"
      using apply_effects_ok [OF pack typed_parts(4) [OF typed] _ ab(2) aid t] aid by simp
    then obtain se where eff: "apply_effects (replace_actor st ?b) (abd_effects ability) ?aid t
        [domain_event_of ''ability_used'' ?aid i] pack = Inr se"
      and res: "effect_result pack (replace_actor st ?b) se" using outcome_no_exnD by blast
    obtain st1 evs where se: "se = (st1, evs)" by (cases se)
    have "acted pack (replace_actor st ?b) st1" "events_ok pack evs"
      using typed_effect [OF typed res] by (simp_all add: se)
    then have "acted pack st (st1\<lparr>ws_last_message := m, ws_recent_events := evs\<rparr>)"
      using walkersE [OF w] by (simp add: acted_def) (simp add: steady_def)
    then show ?thesis by (simp add: eff se)
  qed
  show ?thesis
  proof (cases "chosen_ability act d")
    case None
    then show ?thesis using stay by (simp add: use_ability_def Let_def a(1) d dict_at_def)
  next
    case (Some i)
    show ?thesis
    proof (cases "i \<in> set (ad_ability_ids d)")
      case True
      then obtain ability where ability: "map_of (wp_abilities pack) i = Some ability"
        using d(2) by (auto simp: actor_def_ok_def dict_mem_def)
      show ?thesis
        using stay main [OF ability target]
        by (simp add: use_ability_def Let_def a(1) d dict_at_def Some True ability split: sum.split)
    next
      case False
      then show ?thesis using stay by (simp add: use_ability_def Let_def a(1) d dict_at_def Some)
    qed
  qed
qed

section \<open>What a route step does\<close>

text \<open>
  An actor stays as it was, takes the first step of its route, or waits; after the third wait it
  gives its route up.
\<close>

definition follows :: "actor_state \<Rightarrow> actor_state \<Rightarrow> bool" where
  "follows a b \<longleftrightarrow>
     b = a \<or>
     (\<exists>x y rest. as_route a = (x, y) # rest \<and>
        (b = a\<lparr>as_x := x, as_y := y, as_route := rest, as_blocked_ticks := 0\<rparr> \<or>
         b = a\<lparr>as_route := (if 3 \<le> as_blocked_ticks a + 1 then [] else as_route a),
               as_blocked_ticks := as_blocked_ticks a + 1\<rparr>))"

definition updates_follow :: "world_state \<Rightarrow> (string \<times> int \<times> int) set \<times> actor_state dict \<Rightarrow> bool" where
  "updates_follow st RU \<longleftrightarrow>
     (\<forall>k u. map_of (snd RU) k = Some u \<longrightarrow> (\<exists>a \<in> set (ws_actors st). as_actor_id a = k \<and> follows a u))"

lemma updates_follow_put:
  "updates_follow st (R, U) \<Longrightarrow> a \<in> set (ws_actors st) \<Longrightarrow> follows a u \<Longrightarrow>
     updates_follow st (R', AList.update (as_actor_id a) u U)"
  by (auto simp: updates_follow_def update_conv')

lemma route_step_follows:
  assumes "a \<in> set (ws_actors st)" and "updates_follow st RU"
  shows "outcome any_exn (updates_follow st) (route_step st pack RU a)"
proof (cases "as_route a")
  case Nil
  then show ?thesis using assms(2) by (cases RU) (simp add: route_step_def)
next
  case (Cons c rest)
  obtain R U where RU: "RU = (R, U)" by (cases RU)
  obtain x y where c: "c = (x, y)" by (cases c)
  have "updates_follow st (insert k R, AList.update (as_actor_id a)
        (a\<lparr>as_x := x, as_y := y, as_route := rest, as_blocked_ticks := 0\<rparr>) U)" for k
    by (rule updates_follow_put [OF assms(2) [unfolded RU] assms(1)]) (simp add: follows_def Cons c)
  moreover have "updates_follow st (R, AList.update (as_actor_id a)
        (a\<lparr>as_route := (if 3 \<le> as_blocked_ticks a + 1 then [] else as_route a),
           as_blocked_ticks := as_blocked_ticks a + 1\<rparr>) U)"
    by (rule updates_follow_put [OF assms(2) [unfolded RU] assms(1)]) (simp add: follows_def Cons c)
  ultimately show ?thesis
    by (cases "is_walkable st pack (as_map_id a) x y") (simp_all add: route_step_def RU Cons c Let_def)
qed

lemma advance_routes_follows:
  assumes "distinct (map as_actor_id (ws_actors st))" and "advance_routes st pack = Inr st'"
  shows "list_all2 follows (ws_actors st) (ws_actors st')"
proof -
  have "outcome any_exn (updates_follow st) (foldR (route_step st pack) ({}, []) (sort_key as_actor_id (ws_actors st)))"
    by (rule outcome_foldR) (use route_step_follows in \<open>auto simp: updates_follow_def\<close>)
  then have fold: "updates_follow st RU"
    if "foldR (route_step st pack) ({}, []) (sort_key as_actor_id (ws_actors st)) = Inr RU" for RU
    using that by simp
  have refl: "list_all2 follows xs xs" for xs
    by (simp add: list_all2_same follows_def)
  have new: "follows a (case map_of U (as_actor_id a) of None \<Rightarrow> a | Some u \<Rightarrow> u)"
    if U: "updates_follow st (R, U)" and a: "a \<in> set (ws_actors st)" for R U a
  proof (cases "map_of U (as_actor_id a)")
    case (Some u)
    then obtain b where b: "b \<in> set (ws_actors st)" "as_actor_id b = as_actor_id a" "follows b u"
      using U unfolding updates_follow_def snd_conv by blast
    then have "b = a" using assms(1) a by (auto simp: distinct_map inj_on_def)
    then show ?thesis using Some b by simp
  qed (simp add: follows_def)
  have "list_all2 follows (ws_actors st)
      (map (\<lambda>a. case map_of U (as_actor_id a) of None \<Rightarrow> a | Some u \<Rightarrow> u) (ws_actors st))"
    if "updates_follow st (R, U)" for R U
    using new [OF that] by (simp add: list_all2_map2 list_all2_same)
  then show ?thesis using assms(2) fold refl by (auto simp: advance_routes_def split: if_splits)
qed

end
