(* ===== verification/EconomySafety.thy ===== *)
theory EconomySafety
  imports MovementSafety
begin

text \<open>
  Construction, production and transfer over the invariant. A new site gets a fresh instance
  ID: the decimal coordinates can be read back from the end of the ID, the rest is unambiguous
  by \<open>ids_plain\<close>, and the anchor cell of an equal site would be occupied.
\<close>

section \<open>Instance IDs\<close>

lemma split_first:
  "a @ c # b = a' @ c # b' \<Longrightarrow> c \<notin> set a \<Longrightarrow> c \<notin> set a' \<Longrightarrow> a = a' \<and> b = b'"
proof (induction a arbitrary: a')
  case Nil
  then show ?case by (cases a') auto
next
  case (Cons d a)
  then show ?case by (cases a') auto
qed

lemma split_last:
  assumes "u @ c # d = u' @ c # d'" and "c \<notin> set d" and "c \<notin> set d'"
  shows "u = u' \<and> d = d'"
proof -
  have "rev d @ c # rev u = rev d' @ c # rev u'"
    using arg_cong [OF assms(1), of rev] by simp
  then show ?thesis using split_first [of "rev d" c "rev u" "rev d'" "rev u'"] assms(2,3) by simp
qed

lemma no_underscore_dec: "CHR ''_'' \<notin> set (dec i)"
  using dec_chars [of "CHR ''_''" i] by (auto simp: is_digit_def)

lemma instance_id_inject:
  assumes "instance_id b m x y = instance_id b' m' x' y'"
  shows "b @ ''__'' @ m = b' @ ''__'' @ m' \<and> x = x' \<and> y = y'"
proof -
  have "(b @ ''__'' @ m @ ''__'' @ dec x) @ CHR ''_'' # dec y =
      (b' @ ''__'' @ m' @ ''__'' @ dec x') @ CHR ''_'' # dec y'"
    using assms by (simp add: instance_id_def)
  from split_last [OF this no_underscore_dec no_underscore_dec]
  have y: "y = y'" and "(b @ ''__'' @ m @ ''_'') @ CHR ''_'' # dec x = (b' @ ''__'' @ m' @ ''_'') @ CHR ''_'' # dec x'"
    by simp_all
  from split_last [OF this(2) no_underscore_dec no_underscore_dec]
  have "x = x'" and "(b @ ''__'' @ m) @ ''_'' = (b' @ ''__'' @ m') @ ''_''" by simp_all
  then show ?thesis using y append_same_eq by blast
qed

lemma instance_id_plain:
  assumes "pack_ok pack" and "dict_mem b (wp_constructions pack)" and "dict_mem b' (wp_constructions pack)"
    and "dict_mem m (wp_maps pack)" and "dict_mem m' (wp_maps pack)"
    and "instance_id b m x y = instance_id b' m' x' y'"
  shows "b = b' \<and> m = m' \<and> x = x' \<and> y = y'"
  using instance_id_inject [OF assms(6)] assms(1-5)
  unfolding pack_ok_def ids_plain_def dict_mem_keys by blast

section \<open>Consequences at the end of an action\<close>

definition settled :: "world_pack \<Rightarrow> world_state \<Rightarrow> world_state \<Rightarrow> bool" where
  "settled pack st st' \<longleftrightarrow>
     world_typed pack st' \<and> csq_frame st st' \<and>
     pending_timed (absolute_minute st) (ws_pending_consequences st')"

lemma csq_frame_place:
  assumes "csq_frame st st'"
  shows "as_actor_id ` set (ws_actors st') = as_actor_id ` set (ws_actors st)"
  using csq_frameE(15) [OF assms] by (metis list.set_map)

lemma settle_ok:
  assumes pack: "pack_ok pack" and inv: "world_typed pack st" and evs: "events_ok pack evs"
    and source: "dict_mem source (wp_actors pack)" and depth: "length (wp_consequences pack) < depth"
  shows "outcome no_exn (settled pack st) (process_consequences depth st pack evs source)"
proof -
  note parts = typed_parts [OF inv]
  have few: "length (due_items (absolute_minute st) (ws_pending_consequences st)) < depth"
    using process_consequences_enough_depth depth parts(5) by (auto simp: csq_inv_def)
  have "outcome no_exn (processed_ok pack st) (process_consequences depth st pack evs source)"
    by (rule process_consequences_ok [OF pack parts(5) evs source few])
  moreover have "settled pack st st'" if p: "processed_ok pack st st'" for st'
  proof -
    have fr: "csq_frame st st'" using p by (simp add: processed_ok_def)
    note f = csq_frameE [OF fr]
    have "world_typed pack st'"
      using inv p f(1-14)
      by (simp add: world_typed_def processed_ok_def csq_inv_def rules_ok_def time_ok_def)
    then show ?thesis using p by (simp add: settled_def processed_ok_def)
  qed
  ultimately show ?thesis by (rule outcome_mono)
qed

lemma settled_world_ok:
  assumes "settled pack st st'" and "sites_timed (absolute_minute st) (ws_constructions st)"
    and "jobs_timed (absolute_minute st) (ws_production_jobs st)"
  shows "world_ok pack st'"
  using assms csq_frameE [of st st'] by (simp add: settled_def world_ok_def)

lemma world_okD:
  assumes "world_ok pack st"
  shows "world_typed pack st" "sites_timed (absolute_minute st) (ws_constructions st)"
    "jobs_timed (absolute_minute st) (ws_production_jobs st)"
    "pending_timed (absolute_minute st) (ws_pending_consequences st)"
  using assms by (simp_all add: world_ok_def)

lemma acted_world_ok: "world_ok pack st \<Longrightarrow> acted pack st st' \<Longrightarrow> world_ok pack st'"
  by (simp add: world_ok_def acted_def steady_def)

lemma world_ok_message [simp]: "world_ok pack (with_message m st) = world_ok pack st"
  by (simp add: world_ok_def with_message_def absolute_minute_def)

section \<open>Adding a site\<close>

lemma site_cells_sort [simp]: "site_cells pack (sort_key f sites) mid b = site_cells pack sites mid b"
  by (simp add: site_cells_def)

lemma site_cells_add:
  "site_cells pack (sites @ [c]) mid b \<subseteq>
     site_cells pack sites mid b \<union> (if cs_map_id c = mid then cells_of pack c else {})"
  by (auto simp: site_cells_def)

lemma sites_ok_add:
  assumes pack: "pack_ok pack" and sites: "sites_ok pack sites" and c: "site_ok pack c"
    and blueprint: "map_of (wp_constructions pack) (cs_blueprint_id c) = Some b"
    and free: "cells_of pack c \<inter> site_cells pack sites (cs_map_id c) False = {}"
  shows "sites_ok pack (sort_key f (sites @ [c]))"
proof -
  have inside: "cells_of pack d \<subseteq> site_cells pack sites (cs_map_id d) False" if "d \<in> set sites" for d
    using sites that by (auto simp: sites_ok_def site_ok_def site_cells_def)
  have anchor: "(cs_x c, cs_y c) \<in> cells_of pack c"
    using pack_construction(3) [OF pack blueprint] blueprint
    by (auto simp: cells_of_def footprint_cells_def intro: rev_image_eqI)
  have fresh: "cs_instance_id d \<noteq> cs_instance_id c" if d: "d \<in> set sites" for d
  proof
    assume eq: "cs_instance_id d = cs_instance_id c"
    have "site_ok pack d" using sites d by (simp add: sites_ok_def)
    then have same: "cs_blueprint_id d = cs_blueprint_id c \<and> cs_map_id d = cs_map_id c \<and>
        cs_x d = cs_x c \<and> cs_y d = cs_y c"
      using c eq by (intro instance_id_plain [OF pack]) (simp_all add: site_ok_def)
    then have "cells_of pack d = cells_of pack c"
      unfolding cells_of_def by (auto split: option.split)
    then show False using inside [OF d] anchor free same by auto
  qed
  have "distinct (map cs_instance_id (sort_key f (sites @ [c]))) = distinct (map cs_instance_id (sites @ [c]))"
    by (rule mset_eq_imp_distinct_iff) (simp del: map_append)
  moreover have "distinct (map cs_instance_id (sites @ [c]))"
    using sites fresh by (simp add: sites_ok_def image_iff) metis
  moreover have "cells_of pack d \<inter> cells_of pack c = {} \<and> cells_of pack c \<inter> cells_of pack d = {}"
    if "d \<in> set sites" "cs_map_id d = cs_map_id c \<or> cs_map_id c = cs_map_id d" for d
  proof -
    have "cells_of pack d \<subseteq> site_cells pack sites (cs_map_id c) False"
      using inside [OF that(1)] that(2) by metis
    then show ?thesis using free by blast
  qed
  ultimately show ?thesis
    using sites c unfolding sites_ok_def set_sort set_append by auto
qed

lemma cast_ok_sites:
  assumes "cast_ok pack sites actors"
    and "\<And>a. a \<in> set actors \<Longrightarrow> actor_cell a \<notin> site_cells pack sites' (as_map_id a) True"
  shows "cast_ok pack sites' actors"
  using assms by (simp add: cast_ok_def standing_ok_def)

lemma jobs_ok_mono: "jobs_ok pack sites jobs \<Longrightarrow> set sites \<subseteq> set sites' \<Longrightarrow> jobs_ok pack sites' jobs"
  unfolding jobs_ok_def job_ok_def by blast

lemma anyR_total:
  assumes "\<And>x. x \<in> set xs \<Longrightarrow> \<exists>b. p x = Inr b"
  shows "\<exists>b. anyR p xs = Inr b \<and> (\<not> b \<longrightarrow> (\<forall>x \<in> set xs. p x = Inr False))"
  using assms
proof (induction xs)
  case (Cons x xs)
  then obtain b where "p x = Inr b" by auto
  then show ?case using Cons by (cases b) auto
qed (auto intro: exI [of _ False])

lemma lacks_declared:
  "pack_ok pack \<Longrightarrow> dict_mem r (wp_resources pack) \<Longrightarrow> resource_declared pack r"
  by (simp add: resource_declared_def)

text \<open>Breaking ground, the state \<open>build\<close> hands to the consequences.\<close>

lemma new_site_typed:
  assumes pack: "pack_ok pack" and inv: "world_typed pack st" and a: "a \<in> set (ws_actors st)"
    and id: "as_actor_id a = aid" and blueprint: "map_of (wp_constructions pack) bid = Some b"
    and mid: "mid = as_map_id a" "dict_mem mid (wp_maps pack)"
    and open_cells: "\<forall>(cx, cy) \<in> footprint_cells x y (cd_footprint b). pack_is_walkable pack mid cx cy = Inr True"
    and free: "footprint_cells x y (cd_footprint b) \<inter> site_cells pack (ws_constructions st) mid False = {}"
    and empty: "\<forall>o1 \<in> set (ws_actors st). \<not> (as_map_id o1 = mid \<and> actor_cell o1 \<in> footprint_cells x y (cd_footprint b))"
    and inst: "inst = \<lparr>cs_instance_id = instance_id (cd_id b) mid x y, cs_blueprint_id = cd_id b, cs_map_id = mid,
        cs_x = x, cs_y = y, cs_builder_actor_id = aid, cs_status = ''building'',
        cs_complete_at_minute = absolute_minute st + cd_build_minutes b\<rparr>"
    and evs: "events_ok pack evs"
  defines "result \<equiv> replace_actor st (pay_costs a (cd_costs b))"
  shows "world_typed pack (result\<lparr>ws_constructions := sort_key cs_instance_id (ws_constructions result @ [inst]),
      ws_recent_events := evs, ws_last_message := msg\<rparr>)"
proof -
  note parts = typed_parts [OF inv] and db = pack_construction [OF pack blueprint]
  have aid: "dict_mem aid (wp_actors pack)"
    using parts(1) a id by (auto simp: cast_ok_def dict_mem_keys)
  have attrs: "attrs_ok pack a" using parts(1) a by (simp add: cast_ok_def)
  have w: "walkers pack st result"
    unfolding result_def
    using attrs_pay_costs [OF attrs, of "cd_costs b"] db(4) lacks_declared [OF pack]
    by (intro walkers_replace [OF parts(1) a]) auto
  note we = walkersE [OF w]
  have cells: "cells_of pack inst = footprint_cells x y (cd_footprint b)"
    using blueprint db(1) by (simp add: cells_of_def inst)
  have now: "0 \<le> absolute_minute st" using parts(7) by (simp add: time_ok_def absolute_minute_def)
  have site: "site_ok pack inst"
    using blueprint db(1,5) mid(2) aid now open_cells cells by (simp add: site_ok_def inst dict_mem_def)
  have sites: "sites_ok pack (sort_key cs_instance_id (ws_constructions st @ [inst]))"
    using sites_ok_add [OF pack parts(2) site, of b] blueprint db(1) free cells by (simp add: inst)
  have keys: "map actor_key (ws_actors result) = map actor_key (ws_actors st)"
    using effect_frameE(19) effect_frame_actor [OF parts(1) a] by (simp add: result_def)
  have "actor_cell c \<notin> site_cells pack (sort_key cs_instance_id (ws_constructions st @ [inst])) (as_map_id c) True"
    if c: "c \<in> set (ws_actors result)" for c
  proof -
    have "actor_key c \<in> actor_key ` set (ws_actors st)" using keys c by (metis imageI list.set_map)
    then obtain d where d: "d \<in> set (ws_actors st)" "actor_key d = actor_key c" by auto
    then have "as_map_id d = as_map_id c" "actor_cell d = actor_cell c"
      by (simp_all add: actor_key_def actor_cell_def)
    moreover have "actor_cell d \<notin> site_cells pack (ws_constructions st) (as_map_id d) True"
      using parts(1) d(1) by (simp add: cast_ok_def standing_ok_def)
    moreover have "\<not> (as_map_id d = mid \<and> actor_cell d \<in> cells_of pack inst)"
      using empty d(1) cells by auto
    moreover have "cs_map_id inst = mid" by (simp add: inst)
    ultimately show ?thesis
      using site_cells_add [of pack "ws_constructions st" inst "as_map_id c" True]
      unfolding site_cells_sort by (auto split: if_splits)
  qed
  then have cast: "cast_ok pack (sort_key cs_instance_id (ws_constructions st @ [inst])) (ws_actors result)"
    using cast_ok_sites we(1,2) by simp
  have jobs: "jobs_ok pack (sort_key cs_instance_id (ws_constructions st @ [inst])) (ws_production_jobs st)"
    using parts(9) by (rule jobs_ok_mono) auto
  have "world_typed pack result" by (rule walkers_typed [OF inv w])
  then show ?thesis
    using cast sites jobs we evs by (simp add: world_typed_def time_ok_def)
qed

lemma build_ok:
  assumes pack: "pack_ok pack" and inv: "world_ok pack st" and act: "known_actor pack act"
    and depth: "length (wp_consequences pack) < depth"
  shows "outcome no_exn (world_ok pack) (build depth st act pack)"
proof -
  note typed = world_okD(1) [OF inv]
  note parts = typed_parts [OF typed]
  let ?aid = "action_actor st act"
  have aid: "dict_mem ?aid (wp_actors pack)" by (rule action_actor_known [OF pack parts(6) act])
  obtain a where a: "get_actor st ?aid = Inr a" "a \<in> set (ws_actors st)" "as_actor_id a = ?aid"
    "attrs_ok pack a" "standing_ok pack (ws_constructions st) a" using cast_find [OF parts(1) aid] .
  have stay: "world_ok pack (with_message m st)" for m using inv by simp
  have main: "outcome no_exn (world_ok pack)
      (rbind (anyR (\<lambda>(cx, cy). rbind (pack_is_walkable pack mid cx cy) (\<lambda>b. Inr (\<not> b))) cells) (\<lambda>unwalkable.
       rbind (if unwalkable then Inr True
              else rbind (construction_cells st pack mid False) (\<lambda>built.
                Inr (set cells \<inter> built \<noteq> {} \<or>
                     list_ex (\<lambda>other. as_map_id other = mid \<and> actor_cell other \<in> set cells) (ws_actors st))))
         (\<lambda>blocked.
         if blocked then Inr (with_message ''Construction site is blocked'' st)
         else if lacks_costs a (cd_costs b) then Inr (with_message ''Not enough construction resources'' st)
         else
           let result = replace_actor st (pay_costs a (cd_costs b));
               inst = \<lparr>cs_instance_id = instance_id (cd_id b) mid x y, cs_blueprint_id = cd_id b,
                       cs_map_id = mid, cs_x = x, cs_y = y, cs_builder_actor_id = ?aid,
                       cs_status = ''building'',
                       cs_complete_at_minute = absolute_minute st + cd_build_minutes b\<rparr>;
               events = [domain_event_of ''construction_started'' ?aid (cd_id b)]
           in process_consequences depth
                (result\<lparr>ws_constructions := sort_key cs_instance_id (ws_constructions result @ [inst]),
                        ws_recent_events := events,
                        ws_last_message := ''Construction started: '' @ cd_display_name b\<rparr>)
                pack events ?aid)))"
    if b: "map_of (wp_constructions pack) bid = Some b" and mid: "mid = as_map_id a"
      and cells: "cells = map (\<lambda>(dx, dy). (x + dx, y + dy)) (cd_footprint b)" for b bid mid x y cells
  proof -
    note db = pack_construction [OF pack b]
    have known: "dict_mem mid (wp_maps pack)" using a(4,5) mid attrs_map by blast
    have "\<exists>v. rbind (pack_is_walkable pack mid cx cy) (\<lambda>b. Inr (\<not> b)) = Inr v" for cx cy
      using walkable_total [OF pack known, of cx cy] by (metis rbind_Inr)
    then obtain u where any: "anyR (\<lambda>(cx, cy). rbind (pack_is_walkable pack mid cx cy) (\<lambda>b. Inr (\<not> b))) cells = Inr u"
      and all: "\<not> u \<Longrightarrow> \<forall>c \<in> set cells. rbind (pack_is_walkable pack mid (fst c) (snd c)) (\<lambda>b. Inr (\<not> b)) = Inr False"
      using anyR_total [of cells "\<lambda>(cx, cy). rbind (pack_is_walkable pack mid cx cy) (\<lambda>b. Inr (\<not> b))"]
      by (auto simp: case_prod_unfold)
    have set_cells: "set cells = footprint_cells x y (cd_footprint b)"
      by (simp add: cells footprint_cells_def)
    have walk: "\<forall>(cx, cy) \<in> footprint_cells x y (cd_footprint b). pack_is_walkable pack mid cx cy = Inr True" if "\<not> u"
    proof (clarify)
      fix cx cy assume "(cx, cy) \<in> footprint_cells x y (cd_footprint b)"
      then have "rbind (pack_is_walkable pack mid cx cy) (\<lambda>b. Inr (\<not> b)) = Inr False"
        using all [OF that] set_cells by force
      then show "pack_is_walkable pack mid cx cy = Inr True" by auto
    qed
    define inst where "inst = \<lparr>cs_instance_id = instance_id (cd_id b) mid x y, cs_blueprint_id = cd_id b,
        cs_map_id = mid, cs_x = x, cs_y = y, cs_builder_actor_id = ?aid, cs_status = ''building'',
        cs_complete_at_minute = absolute_minute st + cd_build_minutes b\<rparr>"
    define result where "result = replace_actor st (pay_costs a (cd_costs b))"
    define evs where "evs = [domain_event_of ''construction_started'' ?aid (cd_id b)]"
    define fin where "fin = result\<lparr>ws_constructions := sort_key cs_instance_id (ws_constructions result @ [inst]),
        ws_recent_events := evs, ws_last_message := ''Construction started: '' @ cd_display_name b\<rparr>"
    have go: "outcome no_exn (world_ok pack) (process_consequences depth fin pack evs ?aid)"
      if free: "\<not> u" "set cells \<inter> site_cells pack (ws_constructions st) mid False = {}"
        "\<not> list_ex (\<lambda>other. as_map_id other = mid \<and> actor_cell other \<in> set cells) (ws_actors st)"
    proof -
      have evs: "events_ok pack evs" using aid by (simp add: evs_def)
      have "world_typed pack fin"
        unfolding fin_def result_def
        by (rule new_site_typed [OF pack typed a(2,3) b mid known walk [OF free(1)] _ _ inst_def evs])
          (use free set_cells in \<open>auto simp: list_ex_iff\<close>)
      then have "outcome no_exn (settled pack fin) (process_consequences depth fin pack evs ?aid)"
        by (rule settle_ok [OF pack _ evs aid depth])
      moreover have "sites_timed (absolute_minute fin) (ws_constructions fin)"
        "jobs_timed (absolute_minute fin) (ws_production_jobs fin)"
        using world_okD(2,3) [OF inv] db(5)
        by (auto simp: fin_def result_def replace_actor_def absolute_minute_def sites_timed_def inst_def)
      ultimately show ?thesis by (auto elim!: outcome_mono intro: settled_world_ok)
    qed
    show ?thesis
      unfolding any construction_cells_eq [OF parts(2)] Let_def inst_def [symmetric] result_def [symmetric]
        evs_def [symmetric] fin_def [symmetric] rbind_Inr
      using go stay by simp
  qed
  define mid where "mid = or_else (ga_map_id act) (as_map_id a)"
  show ?thesis
  proof (cases "map_of (wp_constructions pack) (or_else (ga_blueprint_id act) [])")
    case None
    then show ?thesis using stay by (simp add: build_def a(1) Let_def)
  next
    case (Some b)
    show ?thesis
    proof (cases "ga_x act = None \<or> ga_y act = None \<or> mid \<noteq> as_map_id a")
      case True
      then show ?thesis
        using stay by (auto simp: build_def a(1) Let_def Some mid_def [symmetric] split: option.split)
    next
      case False
      then obtain x y where xy: "ga_x act = Some x" "ga_y act = Some y" "mid = as_map_id a" by auto
      show ?thesis
        unfolding build_def Let_def a(1) rbind_Inr Some xy(1,2) option.case prod.case mid_def [symmetric]
        using stay main [OF Some xy(3) refl, unfolded Let_def] xy(3) by (simp only: if_False simp_thms outcome_if outcome_Inr if_cancel)
    qed
  qed
qed

section \<open>Stock\<close>

lemma take_stock_ok:
  assumes "stockpile_ok pack s" and "\<forall>(r, n) \<in> set rs. dict_mem r (wp_resources pack) \<and> 1 \<le> n"
  shows "stockpile_ok pack (take_stock s rs) \<and> ss_stockpile_id (take_stock s rs) = ss_stockpile_id s"
  using assms unfolding take_stock_def
proof (induction rs arbitrary: s)
  case (Cons rn rs)
  obtain r n where rn: "rn = (r, n)" by (cases rn)
  have r: "dict_mem r (wp_resources pack)" and n: "1 \<le> n" using Cons.prems(2) rn by auto
  have "stockpile_total s - stockpile_resource s r + max 0 (stockpile_resource s r - n) \<le> stockpile_total s"
    using stockpile_nonneg [OF Cons.prems(1), of r] n by (simp add: max_def)
  then have "stockpile_ok pack (stockpile_with_resource s r (stockpile_resource s r - n))"
    using Cons.prems(1) by (intro stockpile_put [OF Cons.prems(1) r]) (auto simp: stockpile_ok_def)
  from Cons.IH [OF this] Cons.prems(2) rn show ?case by auto
qed simp

lemma stock_typed:
  "world_typed pack st \<Longrightarrow> stockpile_ok pack s \<Longrightarrow> world_typed pack (replace_stockpile st s)"
  using stock_replace [of pack st s]
  by (simp add: world_typed_def time_ok_def) (simp add: replace_stockpile_def)

lemma units_nonneg: "\<forall>(r, n) \<in> set rs. 1 \<le> n \<Longrightarrow> 0 \<le> total_units rs"
  unfolding total_units_def by (intro sum_list_nonneg) auto

lemma reserved_ok:
  assumes pack: "pack_ok pack" and inv: "world_typed pack st"
  shows "outcome no_exn (\<lambda>n. 0 \<le> n) (reserved_output_units st pack sid)"
proof -
  let ?cs = "dict_of (map (\<lambda>c. (cs_instance_id c, c)) (ws_constructions st))"
  note parts = typed_parts [OF inv]
  have keys: "fst ` set ?cs = cs_instance_id ` set (ws_constructions st)" by force
  have distinct: "distinct (map fst (map (\<lambda>c. (cs_instance_id c, c)) (ws_constructions st)))"
    using parts(2) by (simp add: sites_ok_def comp_def)
  have cs: "c \<in> set (ws_constructions st)" if "map_of ?cs k = Some c" for k c
    using that dict_of_id [OF distinct] by (auto dest: map_of_SomeD)
  have bp: "\<exists>b. map_of (wp_constructions pack) (cs_blueprint_id c) = Some b" if "c \<in> set (ws_constructions st)" for c
    using parts(2) that by (auto simp: sites_ok_def site_ok_def dict_mem_def)
  have recipe: "\<exists>r. map_of (wp_production_recipes pack) (pj_recipe_id j) = Some r \<and> 0 \<le> total_units (prd_outputs r)"
    if j: "j \<in> set (ws_production_jobs st)" for j
  proof -
    obtain r where r: "map_of (wp_production_recipes pack) (pj_recipe_id j) = Some r"
      using parts(9) j by (auto simp: jobs_ok_def job_ok_def)
    have "\<forall>(k, v) \<in> set (prd_outputs r). 1 \<le> v" using pack_recipe(7) [OF pack r] by auto
    then show ?thesis using r units_nonneg by blast
  qed
  show ?thesis
    unfolding reserved_output_units_def Let_def
  proof (rule outcome_foldR)
    fix total j assume j: "j \<in> set (ws_production_jobs st)" and t: "(0::int) \<le> total"
    obtain r where r: "map_of (wp_production_recipes pack) (pj_recipe_id j) = Some r" "0 \<le> total_units (prd_outputs r)"
      using recipe [OF j] by blast
    show "outcome no_exn (\<lambda>n. 0 \<le> n)
        (case map_of ?cs (pj_construction_instance_id j) of None \<Rightarrow> Inr total
         | Some c \<Rightarrow> rbind (dict_at (wp_constructions pack) (cs_blueprint_id c)) (\<lambda>blueprint.
             if cd_stockpile_id blueprint = Some sid
             then rbind (dict_at (wp_production_recipes pack) (pj_recipe_id j)) (\<lambda>recipe.
                    Inr (total + total_units (prd_outputs recipe)))
             else Inr total))"
    proof (cases "map_of ?cs (pj_construction_instance_id j)")
      case None
      then show ?thesis using t by simp
    next
      case (Some c)
      obtain b where "map_of (wp_constructions pack) (cs_blueprint_id c) = Some b" using bp [OF cs [OF Some]] by blast
      then show ?thesis using Some t r by (simp add: dict_at_def)
    qed
  qed simp
qed

section \<open>Production\<close>

lemma start_production_ok:
  assumes pack: "pack_ok pack" and inv: "world_ok pack st" and act: "known_actor pack act"
    and depth: "length (wp_consequences pack) < depth"
  shows "outcome no_exn (world_ok pack) (start_production depth st act pack)"
proof -
  note typed = world_okD(1) [OF inv]
  note parts = typed_parts [OF typed]
  let ?aid = "action_actor st act"
  have aid: "dict_mem ?aid (wp_actors pack)" by (rule action_actor_known [OF pack parts(6) act])
  obtain a where a: "get_actor st ?aid = Inr a" using cast_find [OF parts(1) aid] by blast
  have stay: "world_ok pack (with_message m st)" for m using inv by simp
  define ro where "ro = map_of (wp_production_recipes pack) (or_else (ga_recipe_id act) [])"
  define co where "co = find (\<lambda>c. Some (cs_instance_id c) = ga_construction_instance_id act) (ws_constructions st)"
  show ?thesis
  proof (cases "production_unavailable st ro co")
    case True
    then show ?thesis using stay by (simp add: start_production_def a Let_def ro_def [symmetric] co_def [symmetric])
  next
    case False
    then obtain r c where r: "ro = Some r" and c: "co = Some c"
      by (auto simp: production_unavailable_def split: option.splits)
    have avail: "cs_status c = ''completed''" "prd_required_construction_id r = cs_blueprint_id c"
      "\<forall>j \<in> set (ws_production_jobs st). pj_construction_instance_id j \<noteq> cs_instance_id c"
      using False r c by (auto simp: production_unavailable_def list_ex_iff)
    have cin: "c \<in> set (ws_constructions st)" using c by (auto simp: co_def find_Some_iff)
    have r': "map_of (wp_production_recipes pack) (or_else (ga_recipe_id act) []) = Some r" using r by (simp add: ro_def)
    note dr = pack_recipe [OF pack r']
    obtain b where b: "map_of (wp_constructions pack) (cs_blueprint_id c) = Some b"
      using parts(2) cin by (auto simp: sites_ok_def site_ok_def dict_mem_def)
    define job where "job = \<lparr>pj_construction_instance_id = cs_instance_id c, pj_recipe_id = prd_id r,
        pj_actor_id = ?aid, pj_complete_at_minute = absolute_minute st + prd_duration_minutes r\<rparr>"
    define evs where "evs = [domain_event_of ''production_started'' ?aid (prd_id r)]"
    have go: "outcome no_exn (world_ok pack) (process_consequences depth
        ((replace_stockpile st (take_stock s (prd_inputs r)))
           \<lparr>ws_production_jobs := sort_key pj_construction_instance_id
              (ws_production_jobs (replace_stockpile st (take_stock s (prd_inputs r))) @ [job]),
            ws_recent_events := evs, ws_last_message := m\<rparr>) pack evs ?aid)"
      if s: "stockpile_ok pack s" for s m
    proof -
      let ?fin = "(replace_stockpile st (take_stock s (prd_inputs r)))
           \<lparr>ws_production_jobs := sort_key pj_construction_instance_id
              (ws_production_jobs (replace_stockpile st (take_stock s (prd_inputs r))) @ [job]),
            ws_recent_events := evs, ws_last_message := m\<rparr>"
      have same: "ws_production_jobs (replace_stockpile st t) = ws_production_jobs st"
        "ws_constructions (replace_stockpile st t) = ws_constructions st" for t
        by (simp_all add: replace_stockpile_def)
      have typed1: "world_typed pack (replace_stockpile st (take_stock s (prd_inputs r)))"
        using take_stock_ok [OF s dr(6)] by (intro stock_typed [OF typed]) blast
      have "job_ok pack (ws_constructions st) job"
        using aid r' dr(1) avail(2) cin by (auto simp: job_ok_def job_def)
      moreover have "distinct (map pj_construction_instance_id
          (sort_key pj_construction_instance_id (ws_production_jobs st @ [job]))) =
          distinct (map pj_construction_instance_id (ws_production_jobs st @ [job]))"
        by (rule mset_eq_imp_distinct_iff) (simp del: map_append)
      ultimately have jobs: "jobs_ok pack (ws_constructions st)
          (sort_key pj_construction_instance_id (ws_production_jobs st @ [job]))"
        using parts(9) avail(3) by (auto simp: jobs_ok_def job_def)
      have evs: "events_ok pack evs" using aid by (simp add: evs_def)
      have "world_typed pack ?fin"
        using typed1 jobs evs unfolding same by (simp add: world_typed_def time_ok_def same)
      then have "outcome no_exn (settled pack ?fin) (process_consequences depth ?fin pack evs ?aid)"
        by (rule settle_ok [OF pack _ evs aid depth])
      moreover have "sites_timed (absolute_minute ?fin) (ws_constructions ?fin)"
        "jobs_timed (absolute_minute ?fin) (ws_production_jobs ?fin)"
        using world_okD(2,3) [OF inv] dr(3)
        by (auto simp: same absolute_minute_def jobs_timed_def job_def) (auto simp: replace_stockpile_def)
      ultimately show ?thesis by (auto elim!: outcome_mono intro: settled_world_ok)
    qed
    have stock: "outcome no_exn (world_ok pack)
        (case cd_stockpile_id b of
           None \<Rightarrow> Inr (with_message ''Production has no stockpile'' st)
         | Some sid \<Rightarrow> rbind (get_stockpile st sid) (\<lambda>s.
             if lacks_stock s (prd_inputs r) then Inr (with_message ''Production inputs are missing'' st)
             else rbind (reserved_output_units st pack sid) (\<lambda>reserved.
               rbind (dict_at (wp_stockpiles pack) sid) (\<lambda>definition.
               if sd_capacity definition < stockpile_total s - total_units (prd_inputs r) + reserved
                    + total_units (prd_outputs r)
               then Inr (with_message ''Stockpile lacks output capacity'' st)
               else process_consequences depth
                 ((replace_stockpile st (take_stock s (prd_inputs r)))
                   \<lparr>ws_production_jobs := sort_key pj_construction_instance_id
                      (ws_production_jobs (replace_stockpile st (take_stock s (prd_inputs r))) @ [job]),
                    ws_recent_events := evs, ws_last_message := ''Production started: '' @ prd_display_name r\<rparr>)
                 pack evs ?aid))))"
    proof (cases "cd_stockpile_id b")
      case None
      then show ?thesis using stay by simp
    next
      case (Some sid)
      then have sid: "dict_mem sid (wp_stockpiles pack)"
        using pack_construction(6) [OF pack b] by (simp add: opt_in_def)
      obtain s where s: "get_stockpile st sid = Inr s" "stockpile_ok pack s" using stock_find [OF parts(3) sid] by blast
      obtain d where d: "map_of (wp_stockpiles pack) sid = Some d" using sid by (auto simp: dict_mem_def)
      show ?thesis
        using reserved_ok [OF pack typed, of sid] stay go [OF s(2)]
        by (auto simp: Some s(1) d dict_at_def outcome_simps elim!: outcome_mono)
    qed
    have at: "dict_at (wp_constructions pack) (cs_blueprint_id c) = Inr b" using b by simp
    show ?thesis
      unfolding start_production_def Let_def a rbind_Inr ro_def [symmetric] co_def [symmetric] r c option.sel
        at job_def [symmetric] evs_def [symmetric]
      using stock stay False [unfolded r c] by simp
  qed
qed

section \<open>Transfer\<close>

lemma transfer_ok:
  assumes pack: "pack_ok pack" and inv: "world_ok pack st" and act: "known_actor pack act"
    and depth: "length (wp_consequences pack) < depth"
  shows "outcome no_exn (world_ok pack) (transfer_resource depth st act pack)"
proof -
  note typed = world_okD(1) [OF inv]
  note parts = typed_parts [OF typed]
  let ?aid = "action_actor st act"
  have aid: "dict_mem ?aid (wp_actors pack)" by (rule action_actor_known [OF pack parts(6) act])
  obtain a where a: "get_actor st ?aid = Inr a" "a \<in> set (ws_actors st)" "attrs_ok pack a"
    using cast_find [OF parts(1) aid] by blast
  have stay: "world_ok pack (with_message m st)" for m using inv by simp
  show ?thesis
  proof (cases "transfer_stockpile a act pack")
    case None
    then show ?thesis using stay by (simp add: transfer_resource_def a(1) Let_def)
  next
    case (Some d)
    then have d: "map_of (wp_stockpiles pack) (or_else (ga_stockpile_id act) []) = Some d"
      and r: "\<exists>r. ga_resource_id act = Some r \<and> dict_mem r (wp_resources pack)" and pos: "0 < ga_amount act"
      by (auto simp: transfer_stockpile_def split: option.splits if_splits)
    obtain r where r: "ga_resource_id act = Some r" "dict_mem r (wp_resources pack)" using r by blast
    have sid: "sd_id d = or_else (ga_stockpile_id act) []" using pack_stockpile(1) [OF pack d] .
    have mem: "dict_mem (sd_id d) (wp_stockpiles pack)" using d sid by (simp add: dict_mem_def)
    obtain s where s: "get_stockpile st (sd_id d) = Inr s" "stockpile_ok pack s" "ss_stockpile_id s = sd_id d"
      using stock_find [OF parts(3) mem] by blast
    have total: "stockpile_total s \<le> sd_capacity d" using s(2,3) d sid by (auto simp: stockpile_ok_def)
    define evs where "evs = [domain_event_of ''resource_transferred'' ?aid r]"
    have finish: "outcome no_exn (world_ok pack) (process_consequences depth
        ((replace_actor (replace_stockpile st s') (actor_with_resource a r v))
           \<lparr>ws_recent_events := evs, ws_last_message := ''Resource transferred''\<rparr>) pack evs ?aid)"
      if s': "stockpile_ok pack s'" for s' v
    proof -
      let ?fin = "(replace_actor (replace_stockpile st s') (actor_with_resource a r v))
           \<lparr>ws_recent_events := evs, ws_last_message := ''Resource transferred''\<rparr>"
      have evs: "events_ok pack evs" using aid by (simp add: evs_def)
      have t1: "world_typed pack (replace_stockpile st s')" by (rule stock_typed [OF typed s'])
      have "walkers pack (replace_stockpile st s') (replace_actor (replace_stockpile st s') (actor_with_resource a r v))"
        using a(2,3) attrs_resource [OF a(3) lacks_declared [OF pack r(2)]] typed_parts(1) [OF t1]
        by (intro walkers_replace) (auto simp: replace_stockpile_def)
      then have "world_typed pack ?fin" using walkers_typed [OF t1] evs by simp
      then have "outcome no_exn (settled pack ?fin) (process_consequences depth ?fin pack evs ?aid)"
        by (rule settle_ok [OF pack _ evs aid depth])
      moreover have "sites_timed (absolute_minute ?fin) (ws_constructions ?fin)"
        "jobs_timed (absolute_minute ?fin) (ws_production_jobs ?fin)"
        using world_okD(2,3) [OF inv]
        by (simp_all add: absolute_minute_def replace_actor_def replace_stockpile_def)
      ultimately show ?thesis by (auto elim!: outcome_mono intro: settled_world_ok)
    qed
    have deposit: "stockpile_ok pack (stockpile_with_resource s r (stockpile_resource s r + ga_amount act))"
      if "stockpile_total s + reserved + ga_amount act \<le> sd_capacity d" "0 \<le> reserved" for reserved
      using that pos stockpile_nonneg [OF s(2), of r] s(3) d sid
      by (intro stockpile_put [OF s(2) r(2)]) (auto simp: max_def)
    have withdraw: "stockpile_ok pack (stockpile_with_resource s r (stockpile_resource s r - ga_amount act))"
      using pos total stockpile_nonneg [OF s(2), of r] s(3) d sid
      by (intro stockpile_put [OF s(2) r(2)]) (auto simp: max_def)
    note put = finish [OF deposit] and take = finish [OF withdraw]
    show ?thesis
      using reserved_ok [OF pack typed, of "sd_id d"] stay take
      by (auto simp: transfer_resource_def a(1) Let_def Some s(1) r(1) evs_def [symmetric] outcome_simps
          not_less elim!: outcome_mono intro!: put)
  qed
qed

section \<open>What the actors and the stockpiles hold\<close>

definition held :: "world_state \<Rightarrow> string \<Rightarrow> int" where
  "held st r = sum_list (map (\<lambda>a. actor_resource a r) (ws_actors st)) +
     sum_list (map (\<lambda>s. stockpile_resource s r) (ws_stockpiles st))"

lemma sum_list_replace:
  fixes g :: "'a \<Rightarrow> int"
  assumes "distinct (map f xs)" and "x \<in> set xs" and "f y = f x"
  shows "sum_list (map g (map (\<lambda>z. if f z = f y then y else z) xs)) = sum_list (map g xs) - g x + g y"
  using assms
proof (induction xs)
  case (Cons z xs)
  show ?case
  proof (cases "f z = f x")
    case True
    then have "z = x" and "\<forall>w \<in> set xs. f w \<noteq> f y" using Cons.prems by (auto simp: image_iff)
    then have "map (\<lambda>z. if f z = f y then y else z) xs = xs" by (auto intro: map_idI)
    then show ?thesis using \<open>z = x\<close> Cons.prems(3) by (simp del: map_map)
  next
    case False
    then show ?thesis using Cons by (auto simp del: map_map)
  qed
qed simp

lemma held_replace_actor:
  assumes "cast_ok pack sites (ws_actors st)" and "get_actor st aid = Inr a" and "as_actor_id a' = as_actor_id a"
  shows "held (replace_actor st a') r = held st r - actor_resource a r + actor_resource a' r"
  using assms get_actorD [OF assms(2)] sum_list_replace [of as_actor_id "ws_actors st" a a' "\<lambda>a. actor_resource a r"]
  by (simp add: held_def replace_actor_def cast_ok_def del: map_map)

lemma same_ids_distinct: "same_ids ids d \<Longrightarrow> distinct (dict_keys d) \<Longrightarrow> distinct ids"
  by (metis card_distinct distinct_card dict_keys_def length_map same_ids_def)

lemma held_replace_stockpile:
  assumes "pack_ok pack" and "stock_ok pack (ws_stockpiles st)" and "get_stockpile st sid = Inr s"
    and "ss_stockpile_id s' = ss_stockpile_id s"
  shows "held (replace_stockpile st s') r = held st r - stockpile_resource s r + stockpile_resource s' r"
proof -
  have "distinct (dict_keys (wp_stockpiles pack))"
    using pack_ok_wf [OF assms(1)] by (simp add: pack_wf_def keyed_by_def)
  then have "distinct (map ss_stockpile_id (ws_stockpiles st))"
    using assms(2) by (auto simp: stock_ok_def intro: same_ids_distinct)
  moreover have "s \<in> set (ws_stockpiles st)" using assms(3) by (auto simp: get_stockpile_def find_Some_iff)
  ultimately show ?thesis
    using assms(4) sum_list_replace [of ss_stockpile_id "ws_stockpiles st" s s' "\<lambda>s. stockpile_resource s r"]
    by (simp add: held_def replace_stockpile_def del: map_map)
qed

lemma held_updates [simp]:
  "held (with_message m st) = held st" "held (st\<lparr>ws_recent_events := evs\<rparr>) = held st"
  "held (st\<lparr>ws_last_message := m\<rparr>) = held st"
  by (simp_all add: held_def with_message_def fun_eq_iff)

lemma held_swap:
  assumes pack: "pack_ok pack" and inv: "world_typed pack st"
    and a: "get_actor st aid = Inr a" and s: "get_stockpile st sid = Inr s"
    and enough: "n \<le> actor_resource a r" "- n \<le> stockpile_resource s r"
  shows "held (replace_actor (replace_stockpile st (stockpile_with_resource s r (stockpile_resource s r + n)))
      (actor_with_resource a r (actor_resource a r - n))) q = held st q"
proof -
  note parts = typed_parts [OF inv]
  let ?s = "stockpile_with_resource s r (stockpile_resource s r + n)"
  let ?a = "actor_with_resource a r (actor_resource a r - n)"
  have stock: "stock_ok pack (ws_stockpiles st)" by (rule parts(3))
  then have "kv_ok (ss_resources s)"
    using s by (auto simp: stock_ok_def stockpile_ok_def kv_valid_def get_stockpile_def find_Some_iff)
  then have s_at: "stockpile_resource ?s q = (if q = r then stockpile_resource s r + n else stockpile_resource s q)"
    using enough(2) by (simp add: stockpile_resource_def stockpile_with_resource_def kv_get_put)
  have "attrs_ok pack a" using parts(1) get_actorD [OF a] by (simp add: cast_ok_def)
  then have "kv_ok (as_resources a)" by (simp add: attrs_ok_def kv_valid_def)
  then have a_at: "actor_resource ?a q = (if q = r then actor_resource a r - n else actor_resource a q)"
    using enough(1) by (simp add: actor_resource_def actor_with_resource_def kv_get_put)
  have "held (replace_stockpile st ?s) q = held st q - stockpile_resource s q + stockpile_resource ?s q"
    by (rule held_replace_stockpile [OF pack stock s]) (simp add: stockpile_with_resource_def)
  moreover have "held (replace_actor (replace_stockpile st ?s) ?a) q =
      held (replace_stockpile st ?s) q - actor_resource a q + actor_resource ?a q"
    by (rule held_replace_actor [of pack "ws_constructions st" _ aid])
      (use parts(1) a in \<open>simp_all add: replace_stockpile_def get_actor_def\<close>)
  ultimately show ?thesis using s_at a_at by simp
qed

lemma carried_nonneg: "attrs_ok pack a \<Longrightarrow> 0 \<le> actor_resource a r"
  by (auto simp: attrs_ok_def kv_valid_def actor_resource_def kv_get_def dest!: map_of_SomeD split: option.split)

lemma transfer_conserves:
  assumes "pack_ok pack" and "world_ok pack st" and "known_actor pack act"
  shows "\<exists>moved. held moved = held st \<and>
    (transfer_resource depth st act pack = Inr moved \<or>
     transfer_resource depth st act pack =
       process_consequences depth moved pack (ws_recent_events moved) (action_actor st act))"
proof -
  note typed = world_okD(1) [OF assms(2)]
  note parts = typed_parts [OF typed]
  have aid: "dict_mem (action_actor st act) (wp_actors pack)"
    by (rule action_actor_known [OF assms(1) parts(6) assms(3)])
  obtain a where a: "get_actor st (action_actor st act) = Inr a" using cast_find [OF parts(1) aid] by blast
  show ?thesis
  proof (cases "transfer_stockpile a act pack")
    case None
    then show ?thesis by (intro exI [of _ "with_message ''Invalid resource transfer'' st"]) (simp add: transfer_resource_def a Let_def)
  next
    case (Some d)
    let ?r = "the (ga_resource_id act)"
    have "dict_mem (sd_id d) (wp_stockpiles pack)" and pos: "0 < ga_amount act"
      using Some pack_stockpile(1) [OF assms(1)]
      by (auto simp: transfer_stockpile_def dict_mem_def split: option.splits if_splits)
    then obtain s where s: "get_stockpile st (sd_id d) = Inr s" "stockpile_ok pack s" using stock_find [OF parts(3)] by blast
    obtain n where n: "reserved_output_units st pack (sd_id d) = Inr n"
      using outcome_no_exnD [OF reserved_ok [OF assms(1) typed]] by blast
    have nonneg: "0 \<le> stockpile_resource s ?r" "0 \<le> actor_resource a ?r"
      using stockpile_nonneg [OF s(2)] carried_nonneg [of pack a] parts(1) get_actorD [OF a]
      by (simp_all add: cast_ok_def)
    define m where "m = (if ga_direction act = Some ''deposit'' then ga_amount act else - ga_amount act)"
    define moved where "moved = replace_actor (replace_stockpile st
      (stockpile_with_resource s ?r (stockpile_resource s ?r + m))) (actor_with_resource a ?r (actor_resource a ?r - m))"
    define evs where "evs = [domain_event_of ''resource_transferred'' (action_actor st act) ?r]"
    have "(\<exists>t. transfer_resource depth st act pack = Inr (with_message t st)) \<or>
        m \<le> actor_resource a ?r \<and> - m \<le> stockpile_resource s ?r \<and>
        transfer_resource depth st act pack =
          process_consequences depth (moved\<lparr>ws_recent_events := evs, ws_last_message := ''Resource transferred''\<rparr>)
            pack evs (action_actor st act)"
      using pos nonneg unfolding transfer_resource_def a Let_def Some rbind_Inr s(1) n option.case m_def moved_def evs_def
      by (auto simp: not_less)
    then consider t where "transfer_resource depth st act pack = Inr (with_message t st)"
      | "m \<le> actor_resource a ?r" "- m \<le> stockpile_resource s ?r" "transfer_resource depth st act pack =
          process_consequences depth (moved\<lparr>ws_recent_events := evs, ws_last_message := ''Resource transferred''\<rparr>)
            pack evs (action_actor st act)" by blast
    then show ?thesis
    proof cases
      case 1
      then show ?thesis by (intro exI [of _ "with_message t st"]) simp
    next
      case 2
      then have "held moved = held st" unfolding moved_def by (intro ext held_swap [OF assms(1) typed a s(1)])
      with 2(3) show ?thesis
        by (intro exI [of _ "moved\<lparr>ws_recent_events := evs, ws_last_message := ''Resource transferred''\<rparr>"]) simp
    qed
  qed
qed

end
