(* ===== verification/GoalForest.thy ===== *)
theory GoalForest
  imports EconomySafety
begin

text \<open>
  The goal table of an accepted pack is a forest: \<open>climb\<close> accepts every goal, so the parent
  relation is acyclic. Hence \<open>goal_chain\<close> returns within its fuel, and the depth-first walk of
  \<open>collect_goals\<close> visits every descendant of a start once: its fuel is bounded by the sum of
  the sizes of the subtrees on the stack.
\<close>

definition parent_of :: "world_pack \<Rightarrow> (string \<times> string) set" where
  "parent_of pack = {(j, k). \<exists>g. map_of (wp_goals pack) j = Some g \<and> gd_parent_id g = Some k}"

definition goal_keys :: "world_pack \<Rightarrow> string set" where
  "goal_keys pack = set (dict_keys (wp_goals pack))"

definition ancestors_of :: "world_pack \<Rightarrow> string \<Rightarrow> string set" where
  "ancestors_of pack k = {j. (k, j) \<in> (parent_of pack)\<^sup>*}"

definition subtree :: "world_pack \<Rightarrow> string \<Rightarrow> string set" where
  "subtree pack k = {j \<in> goal_keys pack. (j, k) \<in> (parent_of pack)\<^sup>*}"

lemma goal_key: "dict_mem k (wp_goals pack) \<longleftrightarrow> k \<in> goal_keys pack"
  by (simp add: goal_keys_def dict_mem_keys)

lemma finite_goal_keys [simp]: "finite (goal_keys pack)"
  by (simp add: goal_keys_def)

lemma card_goal_keys: "card (goal_keys pack) \<le> length (wp_goals pack)"
  by (metis card_length dict_keys_def goal_keys_def length_map)

lemma parent_unique: "(j, k) \<in> parent_of pack \<Longrightarrow> (j, l) \<in> parent_of pack \<Longrightarrow> k = l"
  by (auto simp: parent_of_def)

lemma single_valued_parent: "single_valued (parent_of pack)"
  unfolding single_valued_def using parent_unique by blast

lemma climb_avoids:
  assumes "climb (wp_goals pack) seen cursor = Inr ()" and "cursor = Some k" and "(k, j) \<in> (parent_of pack)\<^sup>*"
  shows "j \<notin> seen"
  using assms
proof (induction "wp_goals pack" seen cursor arbitrary: k rule: climb.induct)
  case (1 seen cursor)
  from 1(2,3) have k: "k \<notin> seen" by (subst (asm) climb.simps) (auto split: if_splits)
  with 1(2,3) obtain g where g: "map_of (wp_goals pack) k = Some g"
    and up: "climb (wp_goals pack) (insert k seen) (gd_parent_id g) = Inr ()"
    by (subst (asm) climb.simps) auto
  from 1(4) show ?case
  proof (cases rule: converse_rtranclE)
    case base
    then show ?thesis using k by simp
  next
    case (step p)
    then have "gd_parent_id g = Some p" using g by (auto simp: parent_of_def)
    then have "j \<notin> insert k seen"
      using 1(1) [OF 1(3) k _ up] g step(2) by simp
    then show ?thesis by simp
  qed
qed

lemma goals_acyclic:
  assumes "pack_ok pack"
  shows "(k, k) \<notin> (parent_of pack)\<^sup>+"
proof
  assume "(k, k) \<in> (parent_of pack)\<^sup>+"
  then obtain p where kp: "(k, p) \<in> parent_of pack" and pk: "(p, k) \<in> (parent_of pack)\<^sup>*"
    by (meson tranclD)
  then obtain g where g: "map_of (wp_goals pack) k = Some g" "gd_parent_id g = Some p"
    by (auto simp: parent_of_def)
  have "climb (wp_goals pack) {} (Some k) = Inr ()" using pack_goal(5) [OF assms g(1)] .
  then have "climb (wp_goals pack) {k} (Some p) = Inr ()"
    using g by (subst (asm) climb.simps) (simp add: dict_at_def)
  from climb_avoids [OF this refl pk] show False by simp
qed

lemma parent_key:
  assumes "pack_ok pack" and "(j, k) \<in> parent_of pack"
  shows "k \<in> goal_keys pack"
proof -
  obtain g where g: "map_of (wp_goals pack) j = Some g" "gd_parent_id g = Some k"
    using assms(2) by (auto simp: parent_of_def)
  have "opt_in (gd_parent_id g) (wp_goals pack)" using pack_goal(2) [OF assms(1) g(1)] g(2) by simp
  then show ?thesis using g(2) by (simp add: opt_in_def goal_key)
qed

lemma ancestors_keys:
  assumes "pack_ok pack" and "k \<in> goal_keys pack"
  shows "ancestors_of pack k \<subseteq> goal_keys pack"
proof
  fix j assume "j \<in> ancestors_of pack k"
  then have "(k, j) \<in> (parent_of pack)\<^sup>*" by (simp add: ancestors_of_def)
  then show "j \<in> goal_keys pack"
    using assms(2) by (induction rule: rtrancl_induct) (auto intro: parent_key [OF assms(1)])
qed

section \<open>Chains\<close>

lemma ancestors_total:
  assumes pack: "pack_ok pack" and "map_of (wp_goals pack) k = Some g" and "card (ancestors_of pack k) \<le> n"
  shows "\<exists>gs. ancestors n g pack = Inr gs \<and> set gs \<subseteq> set (dict_values (wp_goals pack))"
  using assms(2,3)
proof (induction n arbitrary: k g)
  case 0
  have "k \<in> goal_keys pack" using 0 by (auto simp: goal_key [symmetric] dict_mem_def)
  then have "finite (ancestors_of pack k)" using ancestors_keys [OF pack] finite_subset by fastforce
  moreover have "k \<in> ancestors_of pack k" by (simp add: ancestors_of_def)
  ultimately have "0 < card (ancestors_of pack k)" by (metis card_gt_0_iff empty_iff)
  then show ?case using 0(2) by simp
next
  case (Suc n)
  have k: "k \<in> goal_keys pack" using Suc.prems(1) by (auto simp: goal_key [symmetric] dict_mem_def)
  have mem: "g \<in> set (dict_values (wp_goals pack))" using Suc.prems(1) by (rule dict_values_mem)
  show ?case
  proof (cases "gd_parent_id g")
    case None
    then show ?thesis using mem by simp
  next
    case (Some p)
    then have "opt_in (Some p) (wp_goals pack)" using pack_goal(2) [OF pack Suc.prems(1)] by simp
    then obtain h where h: "map_of (wp_goals pack) p = Some h" by (auto simp: opt_in_def dict_mem_def)
    have kp: "(k, p) \<in> parent_of pack" using Suc.prems(1) Some by (auto simp: parent_of_def)
    have "ancestors_of pack p \<subseteq> ancestors_of pack k"
      using kp by (auto simp: ancestors_of_def intro: converse_rtrancl_into_rtrancl)
    moreover have "k \<notin> ancestors_of pack p"
      using goals_acyclic [OF pack, of k] kp by (auto simp: ancestors_of_def intro: rtrancl_into_trancl2)
    moreover have "k \<in> ancestors_of pack k" by (simp add: ancestors_of_def)
    moreover have "finite (ancestors_of pack k)" using ancestors_keys [OF pack k] finite_subset by fastforce
    ultimately have "card (ancestors_of pack p) < card (ancestors_of pack k)" by (metis psubsetI psubset_card_mono)
    then have "card (ancestors_of pack p) \<le> n" using Suc.prems(2) by simp
    from Suc.IH [OF h this] show ?thesis using Some h mem by (auto simp: dict_at_def)
  qed
qed

lemma goal_chain_total:
  assumes pack: "pack_ok pack" and g: "map_of (wp_goals pack) k = Some g"
  shows "outcome no_exn (\<lambda>gs. set gs \<subseteq> set (dict_values (wp_goals pack))) (goal_chain g pack)"
proof -
  have "k \<in> goal_keys pack" using g by (auto simp: goal_key [symmetric] dict_mem_def)
  then have "card (ancestors_of pack k) \<le> card (goal_keys pack)"
    using ancestors_keys [OF pack] by (intro card_mono) auto
  then have "card (ancestors_of pack k) \<le> Suc (length (wp_goals pack))"
    using card_goal_keys [of pack] by simp
  from ancestors_total [OF pack g this] show ?thesis
    by (auto simp: goal_chain_def simp del: ancestors.simps)
qed

section \<open>Subtrees\<close>

lemma subtree_disjoint:
  assumes pack: "pack_ok pack" and c: "(c, k) \<in> parent_of pack" and d: "(d, k) \<in> parent_of pack"
    and "c \<noteq> d"
  shows "subtree pack c \<inter> subtree pack d = {}"
proof (rule ccontr)
  assume "subtree pack c \<inter> subtree pack d \<noteq> {}"
  then obtain j where j: "(j, c) \<in> (parent_of pack)\<^sup>*" "(j, d) \<in> (parent_of pack)\<^sup>*"
    by (auto simp: subtree_def)
  have no: "(x, y) \<notin> (parent_of pack)\<^sup>*"
    if ne: "x \<noteq> y" and x: "(x, k) \<in> parent_of pack" and y: "(y, k) \<in> parent_of pack" for x y
  proof
    assume "(x, y) \<in> (parent_of pack)\<^sup>*"
    then obtain p where xp: "(x, p) \<in> parent_of pack" and py: "(p, y) \<in> (parent_of pack)\<^sup>*"
      using ne by (meson converse_rtranclE)
    have "p = k" using parent_unique [OF xp x] .
    then have "(k, k) \<in> (parent_of pack)\<^sup>+" using rtrancl_into_trancl1 [OF py y] by simp
    then show False using goals_acyclic [OF pack] by blast
  qed
  show False
    using single_valued_confluent [OF single_valued_parent j] no [of c d] no [of d c] assms by blast
qed

lemma subtree_child:
  assumes pack: "pack_ok pack" and c: "(c, k) \<in> parent_of pack"
  shows "subtree pack c \<subseteq> subtree pack k - {k}"
proof
  fix j assume j: "j \<in> subtree pack c"
  then have jc: "(j, c) \<in> (parent_of pack)\<^sup>*" and key: "j \<in> goal_keys pack" by (simp_all add: subtree_def)
  have up: "(j, k) \<in> (parent_of pack)\<^sup>+" using rtrancl_into_trancl1 [OF jc c] .
  then have "j \<noteq> k" using goals_acyclic [OF pack] by blast
  then show "j \<in> subtree pack k - {k}" using up key by (simp add: subtree_def trancl_into_rtrancl)
qed

lemma goal_children_ids:
  assumes pack: "pack_ok pack"
  shows "distinct (map gd_id (goal_children pack k))"
    and "c \<in> set (goal_children pack k) \<Longrightarrow>
      map_of (wp_goals pack) (gd_id c) = Some c \<and> (gd_id c, k) \<in> parent_of pack"
proof -
  have keyed: "keyed_by gd_id (wp_goals pack)" using pack_ok_wf [OF pack] by (simp add: pack_wf_def)
  have "distinct (map gd_id (dict_values (wp_goals pack)))"
    using keyed keyed_by_ids [OF keyed] by (simp add: keyed_by_def)
  then have "distinct (map gd_id (filter P (dict_values (wp_goals pack))))" for P
    by (rule distinct_map_filter)
  then have "distinct (map gd_id (rev (filter P (dict_values (wp_goals pack)))))" for P
    by (simp add: rev_map [symmetric])
  moreover have "distinct (map gd_id (sort_key gd_id xs)) = distinct (map gd_id xs)" for xs
    by (rule mset_eq_imp_distinct_iff) simp
  ultimately show "distinct (map gd_id (goal_children pack k))" unfolding goal_children_def by blast
  assume "c \<in> set (goal_children pack k)"
  then have "c \<in> set (dict_values (wp_goals pack))" "gd_parent_id c = Some k"
    by (auto simp: goal_children_def)
  then show "map_of (wp_goals pack) (gd_id c) = Some c \<and> (gd_id c, k) \<in> parent_of pack"
    using keyed_by_mem [OF keyed] by (auto simp: parent_of_def)
qed

definition weight :: "world_pack \<Rightarrow> (string \<times> nat) list \<Rightarrow> nat" where
  "weight pack stack = sum_list (map (\<lambda>(k, level). card (subtree pack k)) stack)"

lemma weight_children:
  assumes pack: "pack_ok pack" and k: "k \<in> goal_keys pack"
  shows "weight pack (map (\<lambda>c. (gd_id c, level)) (goal_children pack k)) < card (subtree pack k)"
proof -
  let ?ids = "map gd_id (goal_children pack k)"
  have fin: "finite (subtree pack j)" for j by (simp add: subtree_def)
  have "weight pack (map (\<lambda>c. (gd_id c, level)) (goal_children pack k)) =
      sum_list (map (\<lambda>j. card (subtree pack j)) ?ids)"
    by (simp add: weight_def comp_def)
  also have "\<dots> = (\<Sum>j \<in> set ?ids. card (subtree pack j))"
    using goal_children_ids(1) [OF pack] by (rule sum_list_distinct_conv_sum_set)
  also have "\<dots> = card (\<Union>j \<in> set ?ids. subtree pack j)"
  proof (rule card_UN_disjoint [symmetric])
    have "(j, k) \<in> parent_of pack" if "j \<in> set ?ids" for j
      using that goal_children_ids(2) [OF pack] by auto
    then show "\<forall>i \<in> set ?ids. \<forall>j \<in> set ?ids. i \<noteq> j \<longrightarrow> subtree pack i \<inter> subtree pack j = {}"
      using subtree_disjoint [OF pack] by blast
  qed (simp_all add: fin)
  also have "\<dots> \<le> card (subtree pack k - {k})"
  proof (rule card_mono)
    have "subtree pack (gd_id c) \<subseteq> subtree pack k - {k}" if "c \<in> set (goal_children pack k)" for c
      using goal_children_ids(2) [OF pack that] subtree_child [OF pack] by blast
    then show "(\<Union>j \<in> set ?ids. subtree pack j) \<subseteq> subtree pack k - {k}" by auto
  qed (simp add: fin)
  also have "\<dots> < card (subtree pack k)"
    using k fin by (intro card_Diff1_less) (auto simp: subtree_def)
  finally show ?thesis .
qed

lemma weight_le:
  "weight pack stack \<le> length stack * length (wp_goals pack)"
proof -
  have "card (subtree pack k) \<le> length (wp_goals pack)" for k
    using card_goal_keys [of pack] card_mono [of "goal_keys pack" "subtree pack k"]
    by (simp add: subtree_def)
  then show ?thesis
    unfolding weight_def by (induction stack) (simp_all add: case_prod_unfold add_mono)
qed

text \<open>The walk returns, and finds goals of the table with an action.\<close>

lemma collect_goals_total:
  assumes pack: "pack_ok pack" and inv: "world_typed pack st" and aid: "dict_mem aid (wp_actors pack)"
    and "\<forall>s \<in> set stack. fst s \<in> goal_keys pack" and "weight pack stack \<le> fuel"
    and "\<forall>c \<in> set found. snd c \<in> set (dict_values (wp_goals pack))"
  shows "outcome no_exn (\<lambda>cs. \<forall>c \<in> set cs. snd c \<in> set (dict_values (wp_goals pack)))
    (collect_goals fuel st pack aid events stack found)"
  using assms(4-6)
proof (induction fuel arbitrary: stack found)
  case 0
  have "stack = []"
  proof (cases stack)
    case (Cons s rest)
    then have "fst s \<in> subtree pack (fst s)" using 0(1) by (simp add: subtree_def)
    then have "0 < card (subtree pack (fst s))" by (auto simp: card_gt_0_iff subtree_def)
    then show ?thesis using 0(2) Cons by (simp add: weight_def case_prod_unfold)
  qed simp
  then show ?case using 0(3) by simp
next
  case (Suc fuel)
  show ?case
  proof (cases stack)
    case Nil
    then show ?thesis using Suc.prems(3) by simp
  next
    case (Cons s rest)
    obtain k level where s: "s = (k, level)" by (cases s)
    have k: "k \<in> goal_keys pack" using Suc.prems(1) Cons s by simp
    then obtain g where g: "map_of (wp_goals pack) k = Some g"
      by (auto simp: goal_key [symmetric] dict_mem_def)
    have gid: "gd_id g = k" using pack_goal(1) [OF pack g] .
    have mem: "g \<in> set (dict_values (wp_goals pack))" using g by (rule dict_values_mem)
    let ?cs = "map (\<lambda>c. (gd_id c, Suc level)) (goal_children pack k)"
    have keys: "\<forall>t \<in> set (?cs @ rest). fst t \<in> goal_keys pack"
      using Suc.prems(1) Cons goal_children_ids(2) [OF pack] by (auto simp: goal_key [symmetric] dict_mem_def)
    have light: "weight pack (?cs @ rest) \<le> fuel" "weight pack rest \<le> fuel"
      using weight_children [OF pack k, of "Suc level"] Suc.prems(2) Cons s by (auto simp: weight_def)
    have conds: "outcome no_exn (\<lambda>_. True)
        (allR (\<lambda>h. conditions_met st (gd_conditions h) aid events pack) chain)"
      if "set chain \<subseteq> set (dict_values (wp_goals pack))" for chain
    proof (rule outcome_allR)
      fix h assume "h \<in> set chain"
      then have h: "h \<in> set (dict_values (wp_goals pack))" using that by (rule subsetD [rotated])
      have "keyed_by gd_id (wp_goals pack)" using pack_ok_wf [OF pack] by (simp add: pack_wf_def)
      from keyed_by_mem [OF this h] have "conditions_ok pack (gd_conditions h)" by (rule pack_goal(3) [OF pack])
      then show "outcome no_exn (\<lambda>_. True) (conditions_met st (gd_conditions h) aid events pack)"
        using typed_parts(1,3) [OF inv] conditions_total [OF pack _ _ _ aid] by blast
    qed
    obtain chain where chain: "goal_chain g pack = Inr chain" "set chain \<subseteq> set (dict_values (wp_goals pack))"
      using outcome_no_exnD [OF goal_chain_total [OF pack g]] by blast
    obtain met where met: "allR (\<lambda>h. conditions_met st (gd_conditions h) aid events pack) chain = Inr met"
      using outcome_no_exnD [OF conds [OF chain(2)]] by blast
    have at: "dict_at (wp_goals pack) k = Inr g" using g by (simp add: dict_at_def)
    have yes: "outcome no_exn (\<lambda>cs. \<forall>c \<in> set cs. snd c \<in> set (dict_values (wp_goals pack)))
        (collect_goals fuel st pack aid events (?cs @ rest)
          (if gd_action g \<noteq> None then found @ [(level, g)] else found))"
      using Suc.prems(3) mem by (intro Suc.IH [OF keys light(1)]) auto
    have no: "outcome no_exn (\<lambda>cs. \<forall>c \<in> set cs. snd c \<in> set (dict_values (wp_goals pack)))
        (collect_goals fuel st pack aid events rest found)"
      using Suc.prems(1,3) Cons by (intro Suc.IH [OF _ light(2)]) auto
    show ?thesis
      using yes no by (simp add: Cons s at gid chain(1) met)
  qed
qed

lemma goal_candidates_total:
  assumes pack: "pack_ok pack" and inv: "world_typed pack st" and d: "map_of (wp_actors pack) k = Some d"
  shows "outcome no_exn (\<lambda>cs. \<forall>c \<in> set cs. snd c \<in> set (dict_values (wp_goals pack)))
    (goal_candidates st pack d events)"
proof -
  have id: "ad_id d = k" and "actor_def_ok pack d" using pack_actor [OF pack d] by auto
  then have ids: "\<forall>g \<in> set (ad_goal_ids d). g \<in> goal_keys pack"
    by (auto simp: actor_def_ok_def goal_key [symmetric] dict_mem_def)
  let ?stack = "map (\<lambda>gid. (gid, 0::nat)) (ad_goal_ids d)"
  have "weight pack ?stack \<le> length (ad_goal_ids d) * Suc (length (wp_goals pack))"
    using weight_le [of pack ?stack] by simp
  moreover have "dict_mem (ad_id d) (wp_actors pack)" using d id by (simp add: dict_mem_def)
  ultimately show ?thesis
    unfolding goal_candidates_def using ids by (intro collect_goals_total [OF pack inv]) auto
qed

end
