(* ===== verification/LivingWorldSafety.thy ===== *)
theory LivingWorldSafety
  imports GoalForest
begin

text \<open>
  The minute pulse keeps the invariant. It starts from a state whose clock has just advanced,
  so that deadlines may have passed: the pulse completes what is due (\<open>sites_behind\<close> is what
  remains of \<open>sites_timed\<close>), ends the jobs that are due, resolves the due consequences, and
  lets the planner act on a state that satisfies the whole invariant again.
\<close>

section \<open>Decay\<close>

definition same_place :: "world_pack \<Rightarrow> actor_state \<Rightarrow> actor_state \<Rightarrow> bool" where
  "same_place pack a b \<longleftrightarrow> as_actor_id b = as_actor_id a \<and> actor_key b = actor_key a \<and> attrs_ok pack b"

lemma cast_ok_pointwise:
  assumes "cast_ok pack sites actors" and rel: "list_all2 (same_place pack) actors A"
  shows "cast_ok pack sites A"
proof -
  have ids: "map as_actor_id A = map as_actor_id actors" and keys: "map actor_key A = map actor_key actors"
    using rel by (induction rule: list_all2_induct) (simp_all add: same_place_def)
  have "as_actor_id ` set A = as_actor_id ` set actors" using ids by (metis list.set_map)
  moreover have "attrs_ok pack b \<and> standing_ok pack sites b" if b: "b \<in> set A" for b
  proof -
    obtain i where i: "i < length A" "b = A ! i" using b by (auto simp: in_set_conv_nth)
    then have same: "same_place pack (actors ! i) b" and mem: "actors ! i \<in> set actors"
      using rel by (auto simp: list_all2_conv_all_nth)
    have "standing_ok pack sites (actors ! i)" using assms(1) mem by (simp add: cast_ok_def)
    then show ?thesis using same by (auto simp: same_place_def actor_key_def standing_ok_def actor_cell_def)
  qed
  ultimately show ?thesis using assms(1) ids keys by (simp add: cast_ok_def)
qed

lemma decay_need_ok:
  assumes pack: "pack_ok pack" and nid: "dict_mem nid (wp_needs pack)" and a: "attrs_ok pack a"
    and aid: "dict_mem (as_actor_id a) (wp_actors pack)" and evs: "events_ok pack events"
  shows "outcome no_exn (\<lambda>(a', events'). same_place pack a a' \<and> events_ok pack events')
    (decay_need st pack (a, events) nid)"
proof -
  obtain n where n: "map_of (wp_needs pack) nid = Some n" using nid by (auto simp: dict_mem_def)
  have "1 \<le> nd_decay_interval_minutes n" using pack_need(1) [OF pack n] .
  then show ?thesis
    using a aid evs attrs_need [OF a nid] by (simp add: decay_need_def n dict_at_def same_place_def)
qed

lemma decay_actor_ok:
  assumes pack: "pack_ok pack" and a: "attrs_ok pack a"
    and aid: "dict_mem (as_actor_id a) (wp_actors pack)" and evs: "events_ok pack events"
  shows "outcome no_exn (\<lambda>(A', events'). (\<exists>b. A' = A @ [b] \<and> same_place pack a b) \<and> events_ok pack events')
    (decay_actor st pack (A, events) a)"
proof -
  obtain d where d: "map_of (wp_actors pack) (as_actor_id a) = Some d" "actor_def_ok pack d"
    using actor_definition_at [OF pack aid] by blast
  have "outcome no_exn (\<lambda>(a', events'). same_place pack a a' \<and> events_ok pack events')
      (foldR (decay_need st pack) (a, events) (map fst (ad_needs d)))"
  proof (rule outcome_foldR)
    fix ae nid
    assume nid: "nid \<in> set (map fst (ad_needs d))"
      and ae: "case ae of (a', events') \<Rightarrow> same_place pack a a' \<and> events_ok pack events'"
    obtain b evs' where b: "ae = (b, evs')" "same_place pack a b" "events_ok pack evs'" using ae by (cases ae) auto
    have need: "dict_mem nid (wp_needs pack)" using nid d(2) by (auto simp: actor_def_ok_def)
    show "outcome no_exn (\<lambda>(a', events'). same_place pack a a' \<and> events_ok pack events')
        (decay_need st pack ae nid)"
      using decay_need_ok [OF pack need, of b evs' st] b aid
      by (auto simp: same_place_def elim!: outcome_mono)
  qed (use a evs in \<open>simp add: same_place_def\<close>)
  then show ?thesis by (auto simp: decay_actor_def d(1) dict_at_def outcome_simps elim!: outcome_mono)
qed

lemma decay_actors_ok:
  assumes pack: "pack_ok pack" and "\<forall>a \<in> set xs. attrs_ok pack a \<and> dict_mem (as_actor_id a) (wp_actors pack)"
    and "events_ok pack events"
  shows "outcome no_exn (\<lambda>(A', events'). (\<exists>B. A' = A @ B \<and> list_all2 (same_place pack) xs B) \<and> events_ok pack events')
    (foldR (decay_actor st pack) (A, events) xs)"
  using assms(2,3)
proof (induction xs arbitrary: A events)
  case (Cons a xs)
  obtain b events' where b: "decay_actor st pack (A, events) a = Inr (A @ [b], events')"
    "same_place pack a b" "events_ok pack events'"
    using outcome_no_exnD [OF decay_actor_ok [OF pack, of a events A st]] Cons.prems by auto
  have "outcome no_exn (\<lambda>(A', events'). (\<exists>B. A' = (A @ [b]) @ B \<and> list_all2 (same_place pack) xs B) \<and>
      events_ok pack events') (foldR (decay_actor st pack) (A @ [b], events') xs)"
    using Cons.prems b(3) by (intro Cons.IH) auto
  then show ?case using b by (force elim!: outcome_mono)
qed simp

section \<open>Completion of constructions\<close>

definition sites_behind :: "int \<Rightarrow> construction_state list \<Rightarrow> bool" where
  "sites_behind now sites \<longleftrightarrow>
     (\<forall>c \<in> set sites. cs_status c \<noteq> ''building'' \<longrightarrow> cs_complete_at_minute c \<le> now)"

definition completed_site :: "world_state \<Rightarrow> construction_state \<Rightarrow> construction_state" where
  "completed_site st c = (if finished st c then c\<lparr>cs_status := ''completed''\<rparr> else c)"

lemma completed_site_fields [simp]:
  "cs_instance_id (completed_site st c) = cs_instance_id c"
  "cs_blueprint_id (completed_site st c) = cs_blueprint_id c" "cs_map_id (completed_site st c) = cs_map_id c"
  "cs_x (completed_site st c) = cs_x c" "cs_y (completed_site st c) = cs_y c"
  "cs_builder_actor_id (completed_site st c) = cs_builder_actor_id c"
  "cs_complete_at_minute (completed_site st c) = cs_complete_at_minute c"
  by (simp_all add: completed_site_def)

lemma completed_site_cells [simp]:
  "cells_of pack (completed_site st c) = cells_of pack c" "blocks pack (completed_site st c) = blocks pack c"
  by (simp_all add: cells_of_def blocks_def cong: option.case_cong)

lemma completed_site_status:
  "cs_status (completed_site st c) \<in> {''building'', ''completed''} \<longleftrightarrow> cs_status c \<in> {''building'', ''completed''}"
  by (auto simp: completed_site_def finished_def)

lemma site_cells_completed [simp]:
  "site_cells pack (map (completed_site st) sites) mid b = site_cells pack sites mid b"
proof -
  let ?P = "\<lambda>c. cs_map_id c = mid \<and> cs_status c \<in> {''building'', ''completed''} \<and> (b \<longrightarrow> blocks pack c)"
  have same: "?P (completed_site st c) = ?P c" for c
    unfolding completed_site_status completed_site_fields completed_site_cells ..
  then have "{c \<in> set (map (completed_site st) sites). ?P c} = completed_site st ` {c \<in> set sites. ?P c}"
    unfolding set_map by blast
  then show ?thesis unfolding site_cells_def by simp
qed

lemma site_ok_completed: "site_ok pack (completed_site st c) = site_ok pack c"
  unfolding site_ok_def completed_site_status completed_site_fields completed_site_cells ..

lemma sites_ok_completed: "sites_ok pack sites \<Longrightarrow> sites_ok pack (map (completed_site st) sites)"
  by (simp add: sites_ok_def site_ok_completed comp_def)

lemma cast_ok_completed: "cast_ok pack (map (completed_site st) sites) = cast_ok pack sites"
  by (intro ext) (simp add: cast_ok_def standing_ok_def)

lemma jobs_ok_completed: "jobs_ok pack sites jobs \<Longrightarrow> jobs_ok pack (map (completed_site st) sites) jobs"
  by (fastforce simp: jobs_ok_def job_ok_def)

lemma sites_timed_completed:
  assumes "sites_ok pack sites" and "sites_behind (absolute_minute st) sites"
  shows "sites_timed (absolute_minute st) (map (completed_site st) sites)"
  using assms by (auto simp: sites_timed_def sites_behind_def completed_site_def finished_def
      sites_ok_def site_ok_def)

lemma complete_constructions_eq:
  "complete_constructions st events =
    (st\<lparr>ws_constructions := map (completed_site st) (ws_constructions st)\<rparr>,
     events @ map (\<lambda>c. domain_event_of ''construction_completed'' (cs_builder_actor_id c) (cs_blueprint_id c))
                (filter (finished st) (ws_constructions st)))"
  by (simp add: complete_constructions_def completed_site_def [abs_def])

lemma complete_constructions_ok:
  assumes inv: "world_typed pack st" and evs: "events_ok pack events"
    and behind: "sites_behind (absolute_minute st) (ws_constructions st)"
  shows "case complete_constructions st events of (st', events') \<Rightarrow>
    world_typed pack st' \<and> events_ok pack events' \<and> absolute_minute st' = absolute_minute st \<and>
    ws_active_actor_id st' = ws_active_actor_id st \<and>
    sites_timed (absolute_minute st') (ws_constructions st')"
proof -
  note parts = typed_parts [OF inv]
  have "events_ok pack (map (\<lambda>c. domain_event_of ''construction_completed'' (cs_builder_actor_id c) (cs_blueprint_id c))
      (filter (finished st) (ws_constructions st)))"
    using parts(2) by (auto simp: events_ok_def sites_ok_def site_ok_def)
  moreover have "world_typed pack (st\<lparr>ws_constructions := map (completed_site st) (ws_constructions st)\<rparr>)"
    using inv sites_ok_completed [OF parts(2)] jobs_ok_completed [OF parts(9)]
    by (simp add: world_typed_def cast_ok_completed time_ok_def)
  moreover have "sites_timed (absolute_minute st) (map (completed_site st) (ws_constructions st))"
    by (rule sites_timed_completed [OF parts(2) behind])
  ultimately show ?thesis using evs by (simp add: complete_constructions_eq absolute_minute_def)
qed

section \<open>Completion of jobs\<close>

lemma store_output_ok:
  assumes pack: "pack_ok pack" and s: "stockpile_ok pack s" "ss_stockpile_id s = sid"
    and r: "dict_mem r (wp_resources pack)" and n: "1 \<le> n"
  shows "outcome no_exn (\<lambda>s'. stockpile_ok pack s' \<and> ss_stockpile_id s' = sid) (store_output pack sid s (r, n))"
proof -
  obtain d where d: "map_of (wp_stockpiles pack) sid = Some d" "stockpile_total s \<le> sd_capacity d"
    using s by (auto simp: stockpile_ok_def)
  let ?v = "stockpile_resource s r + min n (sd_capacity d - stockpile_total s)"
  have "0 \<le> ?v" using stockpile_nonneg [OF s(1), of r] d(2) n by simp
  then have "stockpile_total s - stockpile_resource s r + max 0 ?v \<le> sd_capacity d" by (simp add: max_def)
  then have "stockpile_ok pack (stockpile_with_resource s r ?v)"
    using s d(1) by (intro stockpile_put [OF s(1) r]) auto
  then show ?thesis using s(2) by (simp add: store_output_def d(1) dict_at_def)
qed

lemma store_outputs_ok:
  assumes pack: "pack_ok pack" and "stockpile_ok pack s" "ss_stockpile_id s = sid"
    and "\<forall>(r, n) \<in> set rs. dict_mem r (wp_resources pack) \<and> 1 \<le> n"
  shows "outcome no_exn (\<lambda>s'. stockpile_ok pack s' \<and> ss_stockpile_id s' = sid)
    (foldR (store_output pack sid) s rs)"
proof (rule outcome_foldR)
  fix t rn assume "rn \<in> set rs" and "stockpile_ok pack t \<and> ss_stockpile_id t = sid"
  then show "outcome no_exn (\<lambda>s'. stockpile_ok pack s' \<and> ss_stockpile_id s' = sid) (store_output pack sid t rn)"
    using assms(4) store_output_ok [OF pack] by (cases rn) auto
qed (use assms in simp)

definition stocked :: "world_pack \<Rightarrow> world_state \<Rightarrow> world_state \<Rightarrow> bool" where
  "stocked pack st st' \<longleftrightarrow> (\<exists>S. st' = st\<lparr>ws_stockpiles := S\<rparr> \<and> stock_ok pack S)"

lemma stocked_refl: "stock_ok pack (ws_stockpiles st) \<Longrightarrow> stocked pack st st"
  unfolding stocked_def by (rule exI [of _ "ws_stockpiles st"]) simp

lemma stockedE:
  assumes "stocked pack st st'"
  shows "ws_constructions st' = ws_constructions st" "absolute_minute st' = absolute_minute st"
    "stock_ok pack (ws_stockpiles st')" "ws_production_jobs st' = ws_production_jobs st"
    "ws_active_actor_id st' = ws_active_actor_id st"
  using assms by (auto simp: stocked_def absolute_minute_def)

lemma stocked_typed: "world_typed pack st \<Longrightarrow> stocked pack st st' \<Longrightarrow> world_typed pack st'"
  by (auto simp: stocked_def world_typed_def time_ok_def)

lemma stocked_replace:
  assumes "stocked pack st st'" and "stockpile_ok pack s"
  shows "stocked pack st (replace_stockpile st' s)"
  using assms stock_replace [OF stockedE(3) [OF assms(1)] assms(2)]
  by (auto simp: stocked_def replace_stockpile_def)

definition jobs_left :: "world_pack \<Rightarrow> world_state \<Rightarrow> production_job list \<Rightarrow>
    world_state \<times> production_job list \<times> domain_event list \<Rightarrow> bool" where
  "jobs_left pack st jobs acc \<longleftrightarrow>
     (case acc of (st', remaining, events) \<Rightarrow>
        stocked pack st st' \<and> events_ok pack events \<and>
        remaining = filter (\<lambda>j. absolute_minute st < pj_complete_at_minute j) jobs)"

lemma finish_job_ok:
  assumes pack: "pack_ok pack" and inv: "world_typed pack st" and job: "job \<in> set (ws_production_jobs st)"
    and acc: "jobs_left pack st jobs acc"
  shows "outcome no_exn (jobs_left pack st (jobs @ [job])) (finish_job pack acc job)"
proof -
  obtain st' remaining events where acc_eq: "acc = (st', remaining, events)" by (cases acc) auto
  note left = acc [unfolded acc_eq jobs_left_def prod.case]
  note now = stockedE(2) [OF left [THEN conjunct1]]
  note parts = typed_parts [OF inv]
  show ?thesis
  proof (cases "absolute_minute st < pj_complete_at_minute job")
    case True
    then show ?thesis using left now by (simp add: finish_job_def acc_eq jobs_left_def)
  next
    case False
    have "job_ok pack (ws_constructions st) job" using parts(9) job by (simp add: jobs_ok_def)
    then obtain r c where r: "map_of (wp_production_recipes pack) (pj_recipe_id job) = Some r"
      and actor: "dict_mem (pj_actor_id job) (wp_actors pack)"
      and c: "c \<in> set (ws_constructions st)" "cs_instance_id c = pj_construction_instance_id job"
      by (auto simp: job_ok_def)
    have "find (\<lambda>c. cs_instance_id c = pj_construction_instance_id job) (ws_constructions st) \<noteq> None"
      using c by (auto simp: find_None_iff)
    then obtain e where e: "find (\<lambda>c. cs_instance_id c = pj_construction_instance_id job) (ws_constructions st) = Some e"
      by blast
    then have "e \<in> set (ws_constructions st)" by (auto simp: find_Some_iff)
    then obtain b where b: "map_of (wp_constructions pack) (cs_blueprint_id e) = Some b"
      using parts(2) by (auto simp: sites_ok_def site_ok_def dict_mem_def)
    show ?thesis
    proof (cases "cd_stockpile_id b")
      case None
      then show ?thesis
        using left now False by (simp add: finish_job_def acc_eq jobs_left_def dict_at_def r b e stockedE(1) [OF left [THEN conjunct1]])
    next
      case (Some sid)
      then have sid: "dict_mem sid (wp_stockpiles pack)" using pack_construction(6) [OF pack b] by (simp add: opt_in_def)
      obtain s where s: "get_stockpile st' sid = Inr s" "stockpile_ok pack s" "ss_stockpile_id s = sid"
        using stock_find [OF stockedE(3) [OF left [THEN conjunct1]] sid] by blast
      obtain s' where s': "foldR (store_output pack sid) s (prd_outputs r) = Inr s'" "stockpile_ok pack s'"
        using outcome_no_exnD [OF store_outputs_ok [OF pack s(2,3) pack_recipe(7) [OF pack r]]] by blast
      have "stocked pack st (replace_stockpile st' s')" using stocked_replace left s'(2) by blast
      then show ?thesis
        using left now False actor
        by (simp add: finish_job_def acc_eq jobs_left_def dict_at_def r b e s s' Some
            stockedE(1) [OF left [THEN conjunct1]])
    qed
  qed
qed

lemma finish_jobs_ok:
  assumes pack: "pack_ok pack" and inv: "world_typed pack st" and "set jobs \<subseteq> set (ws_production_jobs st)"
    and "jobs_left pack st before acc"
  shows "outcome no_exn (jobs_left pack st (before @ jobs)) (foldR (finish_job pack) acc jobs)"
  using assms(3,4)
proof (induction jobs arbitrary: before acc)
  case (Cons j jobs)
  have "j \<in> set (ws_production_jobs st)" using Cons.prems(1) by simp
  then obtain acc' where acc': "finish_job pack acc j = Inr acc'" "jobs_left pack st (before @ [j]) acc'"
    using outcome_no_exnD [OF finish_job_ok [OF pack inv _ Cons.prems(2)]] by blast
  have "outcome no_exn (jobs_left pack st ((before @ [j]) @ jobs)) (foldR (finish_job pack) acc' jobs)"
    using Cons.prems(1) by (intro Cons.IH [OF _ acc'(2)]) auto
  then show ?case using acc'(1) by simp
qed simp

lemma jobs_ok_filter: "jobs_ok pack sites jobs \<Longrightarrow> jobs_ok pack sites (filter P jobs)"
  by (simp add: jobs_ok_def distinct_map_filter)

end
