(* ===== verification/PlannerSafety.thy ===== *)
theory PlannerSafety
  imports LivingWorldSafety
begin

text \<open>
  The goal planner and the whole minute pulse. Every action of a goal keeps the invariant,
  the planner folds them over the cast, and the pulse leaves a state in which nothing is due.
\<close>

section \<open>Routes\<close>

lemma first_adjacent_route_ok:
  assumes pack: "pack_ok pack" and m: "dict_mem (as_map_id a) (wp_maps pack)"
  shows "outcome no_exn (\<lambda>p. \<forall>(x, y) \<in> set p. open_place pack (as_map_id a) x y)
    (first_adjacent_route pack a blocked cs)"
proof (induction cs)
  case (Cons c cs)
  obtain b where b: "pack_is_walkable pack (as_map_id a) (fst c) (snd c) = Inr b"
    using walkable_total [OF pack m] by blast
  obtain p where p: "find_path pack (as_map_id a) (actor_cell a) c blocked = Inr p"
    "\<forall>(x, y) \<in> set p. open_place pack (as_map_id a) x y"
    using outcome_no_exnD [OF find_path_ok [OF pack m]] by blast
  show ?case using Cons.IH p(2) by (simp add: b p(1))
qed simp

lemma actor_map_known:
  assumes "cast_ok pack sites actors" and "a \<in> set actors"
  shows "dict_mem (as_map_id a) (wp_maps pack)"
  using assms by (auto simp: cast_ok_def standing_ok_def open_place_def)

lemma route_to_adjacent_ok:
  assumes pack: "pack_ok pack" and inv: "world_typed pack st" and a: "a \<in> set (ws_actors st)"
  shows "outcome no_exn (\<lambda>p. \<forall>(x, y) \<in> set p. open_place pack (as_map_id a) x y)
    (route_to_adjacent st pack a l)"
proof (cases "as_map_id a = loc_map_id l")
  case True
  show ?thesis
    using first_adjacent_route_ok [OF pack actor_map_known [OF typed_parts(1) [OF inv] a]] True
    by (simp add: route_to_adjacent_def dynamic_blocked_eq [OF typed_parts(2) [OF inv]])
qed (simp add: route_to_adjacent_def)

section \<open>Updates of one actor\<close>

lemma world_replace:
  assumes inv: "world_ok pack st" and "a \<in> set (ws_actors st)" and "as_actor_id a' = as_actor_id a"
    and "actor_key a' = actor_key a" and "attrs_ok pack a'"
  shows "world_ok pack (replace_actor st a')"
proof -
  note typed = world_okD(1) [OF inv]
  have "walkers pack st (replace_actor st a')"
    using assms(2-5) typed_parts(1) [OF typed] by (intro walkers_replace)
  then show ?thesis using acted_world_ok [OF inv acted_walkers [OF typed]] by blast
qed

lemma cast_mem:
  assumes "world_ok pack st" and "a \<in> set (ws_actors st)"
  shows "attrs_ok pack a" "dict_mem (as_actor_id a) (wp_actors pack)" "dict_mem (as_map_id a) (wp_maps pack)"
proof -
  note cast = typed_parts(1) [OF world_okD(1) [OF assms(1)]]
  show "attrs_ok pack a" using cast assms(2) by (simp add: cast_ok_def)
  show "dict_mem (as_actor_id a) (wp_actors pack)" using cast assms(2) by (auto simp: cast_ok_def dict_mem_keys)
  show "dict_mem (as_map_id a) (wp_maps pack)" by (rule actor_map_known [OF cast assms(2)])
qed

lemma follow_route_ok:
  assumes inv: "world_ok pack st" and a: "a \<in> set (ws_actors st)"
    and route: "\<forall>(x, y) \<in> set p. open_place pack (as_map_id a) x y"
  shows "world_ok pack (follow_route st a p)"
  unfolding follow_route_def using attrs_route [OF cast_mem(1) [OF inv a] route]
  by (intro world_replace [OF inv a]) (simp_all add: actor_key_def)

lemma go_adjacent_ok:
  assumes pack: "pack_ok pack" and inv: "world_ok pack st" and a: "a \<in> set (ws_actors st)"
  shows "outcome no_exn (world_ok pack) (go_adjacent st pack a l)"
proof -
  obtain p where p: "route_to_adjacent st pack a l = Inr p"
    "\<forall>(x, y) \<in> set p. open_place pack (as_map_id a) x y"
    using outcome_no_exnD [OF route_to_adjacent_ok [OF pack world_okD(1) [OF inv] a]] by blast
  show ?thesis using follow_route_ok [OF inv a p(2)] by (simp add: go_adjacent_def p(1))
qed

lemma world_append_event:
  assumes "world_ok pack st" and "events_ok pack [ev]"
  shows "world_ok pack (append_event st ev)"
proof -
  have "events_ok pack (ws_recent_events st @ [ev])"
    using assms typed_parts(8) [OF world_okD(1) [OF assms(1)]] by simp
  then show ?thesis
    using acted_world_ok [OF assms(1) acted_events [OF acted_refl]] world_okD(1) [OF assms(1)]
    by (simp add: append_event_def)
qed

lemma world_stock:
  assumes inv: "world_ok pack st" and s: "stockpile_ok pack s"
  shows "world_ok pack (replace_stockpile st s)"
  using world_okD [OF inv] stock_typed [OF world_okD(1) [OF inv] s]
  by (simp add: world_ok_def) (simp add: replace_stockpile_def absolute_minute_def)

lemma reached_ok:
  assumes inv: "world_ok pack st" and a: "a \<in> set (ws_actors st)" and "as_actor_id a' = as_actor_id a"
    and "actor_key a' = actor_key a" and "attrs_ok pack a'"
  shows "world_ok pack (replace_actor st (goal_reached a'))"
  using assms(3-5) attrs_reached by (intro world_replace [OF inv a]) simp_all

section \<open>Goal actions\<close>

lemma satisfy_need_ok:
  assumes pack: "pack_ok pack" and inv: "world_ok pack st" and a: "a \<in> set (ws_actors st)"
    and nid: "dict_mem nid (wp_needs pack)"
  shows "outcome no_exn (world_ok pack) (satisfy_need st a nid g pack)"
proof -
  obtain n where n: "map_of (wp_needs pack) nid = Some n" using nid by (auto simp: dict_mem_def)
  note mem = cast_mem [OF inv a]
  let ?r = "nd_resource_id n"
  let ?ev = "domain_event_of ''need_satisfied'' (as_actor_id a) nid"
  have r: "dict_mem ?r (wp_resources pack)" using pack_need(2) [OF pack n] .
  have ev: "events_ok pack [?ev]" using mem(2) by simp
  have own: "world_ok pack (append_event (replace_actor st (goal_reached
      (with_need (actor_with_resource a ?r v) nid w))) ?ev)" for v w
    using attrs_need [OF attrs_resource [OF mem(1) lacks_declared [OF pack r]] nid]
    by (intro world_append_event [OF reached_ok [OF inv a] ev]) simp_all
  have stock: "world_ok pack (append_event (replace_actor (replace_stockpile st
      (stockpile_with_resource s ?r (stockpile_resource s ?r - nd_consume_amount n)))
      (goal_reached (with_need a nid w))) ?ev)"
    if s: "stockpile_ok pack s" and enough: "nd_consume_amount n \<le> stockpile_resource s ?r" for s w
  proof -
    obtain d where d: "map_of (wp_stockpiles pack) (ss_stockpile_id s) = Some d" "stockpile_total s \<le> sd_capacity d"
      using s by (auto simp: stockpile_ok_def)
    have "stockpile_ok pack (stockpile_with_resource s ?r (stockpile_resource s ?r - nd_consume_amount n))"
      using enough d pack_need(3) [OF pack n] by (intro stockpile_put [OF s r]) (auto simp: max_def)
    then have "world_ok pack (replace_stockpile st
        (stockpile_with_resource s ?r (stockpile_resource s ?r - nd_consume_amount n)))"
      by (rule world_stock [OF inv])
    moreover have "a \<in> set (ws_actors (replace_stockpile st t))" for t using a by (simp add: replace_stockpile_def)
    ultimately show ?thesis
      using attrs_need [OF mem(1) nid] by (intro world_append_event [OF reached_ok ev]) simp_all
  qed
  show ?thesis
  proof (cases "map_of (wp_stockpiles pack) (or_else (gad_stockpile_id g) [])")
    case None
    then show ?thesis using own inv by (simp add: satisfy_need_def n dict_at_def Let_def)
  next
    case (Some d)
    then have "dict_mem (sd_id d) (wp_stockpiles pack)"
      using pack_stockpile(1) [OF pack Some] by (simp add: dict_mem_def)
    then obtain s where s: "get_stockpile st (sd_id d) = Inr s" "stockpile_ok pack s"
      using stock_find [OF typed_parts(3) [OF world_okD(1) [OF inv]]] by blast
    show ?thesis
      using own inv stock [OF s(2)] go_adjacent_ok [OF pack inv a]
      by (simp add: satisfy_need_def n dict_at_def Let_def Some s(1) not_less)
  qed
qed

lemma known_of_id: "dict_mem aid (wp_actors pack) \<Longrightarrow> ga_actor_id act = Some aid \<Longrightarrow> known_actor pack act"
  by (simp add: known_actor_def opt_in_def)

lemma produce_ok:
  assumes pack: "pack_ok pack" and inv: "world_ok pack st" and a: "a \<in> set (ws_actors st)"
    and rid: "dict_mem rid (wp_production_recipes pack)" and depth: "length (wp_consequences pack) < depth"
  shows "outcome no_exn (world_ok pack) (produce depth st a rid pack)"
proof -
  obtain r where r: "map_of (wp_production_recipes pack) rid = Some r" using rid by (auto simp: dict_mem_def)
  have act: "known_actor pack ((game_action_of ''start_production'')
      \<lparr>ga_actor_id := Some (as_actor_id a), ga_construction_instance_id := c, ga_recipe_id := i\<rparr>)" for c i
    by (rule known_of_id [OF cast_mem(2) [OF inv a]]) simp
  show ?thesis
    using inv go_adjacent_ok [OF pack inv a] start_production_ok [OF pack inv act depth]
    by (auto simp: produce_def r dict_at_def split: list.split)
qed

lemma build_at_ok:
  assumes pack: "pack_ok pack" and inv: "world_ok pack st" and a: "a \<in> set (ws_actors st)"
    and depth: "length (wp_consequences pack) < depth"
  shows "outcome no_exn (world_ok pack) (build_at depth st a bid l pack)"
proof -
  have act: "known_actor pack ((game_action_of ''build'')
      \<lparr>ga_actor_id := Some (as_actor_id a), ga_blueprint_id := b, ga_map_id := m, ga_x := x, ga_y := y\<rparr>)" for b m x y
    by (rule known_of_id [OF cast_mem(2) [OF inv a]]) simp
  have "world_ok pack (replace_actor st (goal_reached a))"
    by (rule reached_ok [OF inv a refl refl cast_mem(1) [OF inv a]])
  then show ?thesis
    using go_adjacent_ok [OF pack inv a] build_ok [OF pack inv act depth]
    by (simp add: build_at_def)
qed

lemma travel_ok:
  assumes pack: "pack_ok pack" and inv: "world_ok pack st" and a: "a \<in> set (ws_actors st)"
  shows "outcome no_exn (world_ok pack) (travel st a l pack)"
proof -
  obtain p where p: "find_path pack (as_map_id a) (actor_cell a) (loc_cell l)
      (site_cells pack (ws_constructions st) (as_map_id a) True \<union> occupied st (as_map_id a) (as_actor_id a)) = Inr p"
    "\<forall>(x, y) \<in> set p. open_place pack (as_map_id a) x y"
    using outcome_no_exnD [OF find_path_ok [OF pack cast_mem(3) [OF inv a]]] by blast
  show ?thesis
    unfolding travel_def dynamic_blocked_eq [OF typed_parts(2) [OF world_okD(1) [OF inv]]] rbind_Inr p(1)
    using inv follow_route_ok [OF inv a p(2)] by simp
qed

lemma execute_goal_ok:
  assumes pack: "pack_ok pack" and inv: "world_ok pack st" and a: "a \<in> set (ws_actors st)"
    and goal: "map_of (wp_goals pack) k = Some goal" and depth: "length (wp_consequences pack) < depth"
  shows "outcome no_exn (world_ok pack) (execute_goal depth st a goal pack)"
proof (cases "gd_action goal")
  case None
  then show ?thesis using inv by (simp add: execute_goal_def)
next
  case (Some g)
  note ok = pack_goal(4) [OF pack goal Some, unfolded goal_action_ok_def]
  have need: "dict_mem (the (gad_need_id g)) (wp_needs pack)" if "gad_kind g = ''satisfy_need''" "truthy (gad_need_id g)"
    using ok that truthy_opt_in by blast
  have recipe: "dict_mem (the (gad_recipe_id g)) (wp_production_recipes pack)"
    if "gad_kind g = ''produce''" "truthy (gad_recipe_id g)"
    using ok that truthy_opt_in by blast
  show ?thesis
    unfolding execute_goal_def Some option.case outcome_if
    using inv satisfy_need_ok [OF pack inv a need] produce_ok [OF pack inv a recipe depth]
      build_at_ok [OF pack inv a depth] travel_ok [OF pack inv a] by simp
qed

section \<open>The planner\<close>

definition planned_ok :: "world_pack \<Rightarrow> world_state \<times> domain_event list \<Rightarrow> bool" where
  "planned_ok pack acc \<longleftrightarrow> world_ok pack (fst acc) \<and> events_ok pack (snd acc)"

lemma plan_actor_goal_ok:
  assumes pack: "pack_ok pack" and acc: "planned_ok pack acc" and d: "d \<in> set (dict_values (wp_actors pack))"
    and depth: "length (wp_consequences pack) < depth"
  shows "outcome no_exn (planned_ok pack) (plan_actor_goal depth pack acc d)"
proof -
  obtain st events where acc_eq: "acc = (st, events)" by (cases acc)
  have inv: "world_ok pack st" and evs: "events_ok pack events" using acc by (simp_all add: acc_eq planned_ok_def)
  have "keyed_by ad_id (wp_actors pack)" using pack_ok_wf [OF pack] by (simp add: pack_wf_def)
  from keyed_by_mem [OF this d] have d': "map_of (wp_actors pack) (ad_id d) = Some d" .
  then have "dict_mem (ad_id d) (wp_actors pack)" by (simp add: dict_mem_def)
  then obtain a where a: "get_actor st (ad_id d) = Inr a" "a \<in> set (ws_actors st)" "attrs_ok pack a"
    using cast_find [OF typed_parts(1) [OF world_okD(1) [OF inv]]] by blast
  obtain cs where cs: "goal_candidates st pack d events = Inr cs"
    "\<forall>c \<in> set cs. snd c \<in> set (dict_values (wp_goals pack))"
    using outcome_no_exnD [OF goal_candidates_total [OF pack world_okD(1) [OF inv] d']] by blast
  show ?thesis
  proof (cases "cs = []")
    case True
    have "world_ok pack (replace_actor st (goal_reached a))" by (rule reached_ok [OF inv a(2) refl refl a(3)])
    then show ?thesis using inv evs by (simp add: plan_actor_goal_def acc_eq a(1) cs(1) True planned_ok_def)
  next
    case False
    define goal where "goal = snd (arg_min_list goal_rank cs)"
    have "arg_min_list goal_rank cs \<in> set cs" using False by (rule arg_min_list_in)
    then have goal_in: "goal \<in> set (dict_values (wp_goals pack))" using cs(2) by (simp add: goal_def)
    have "keyed_by gd_id (wp_goals pack)" using pack_ok_wf [OF pack] by (simp add: pack_wf_def)
    from keyed_by_mem [OF this goal_in] have goal: "map_of (wp_goals pack) (gd_id goal) = Some goal" .
    define a' where "a' = a\<lparr>as_active_goal_id := Some (gd_id goal)\<rparr>"
    have "attrs_ok pack a'" unfolding a'_def using goal by (intro attrs_goal [OF a(3)]) (simp add: dict_mem_def)
    then have inv': "world_ok pack (replace_actor st a')"
      by (intro world_replace [OF inv a(2)]) (simp_all add: a'_def actor_key_def)
    have mem: "a' \<in> set (ws_actors (replace_actor st a'))"
      unfolding replace_actor_def using a(2) by (auto simp: a'_def intro!: image_eqI [of _ _ a])
    obtain st' where st': "execute_goal depth (replace_actor st a') a' goal pack = Inr st'" "world_ok pack st'"
      using outcome_no_exnD [OF execute_goal_ok [OF pack inv' mem goal depth]] by blast
    then have "events_ok pack (extend_new events (ws_recent_events st'))"
      using evs typed_parts(8) [OF world_okD(1)] by simp
    then show ?thesis
      using st' False
      by (simp add: plan_actor_goal_def acc_eq a(1) cs(1) planned_ok_def Let_def goal_def [symmetric] a'_def [symmetric])
  qed
qed

lemma world_events:
  assumes "world_ok pack st" and "events_ok pack evs"
  shows "world_ok pack (st\<lparr>ws_recent_events := evs\<rparr>)"
  using acted_world_ok [OF assms(1) acted_events [OF acted_refl [OF world_okD(1) [OF assms(1)]] assms(2)]] .

lemma plan_goals_ok:
  assumes pack: "pack_ok pack" and inv: "world_ok pack st" and evs: "events_ok pack events"
    and depth: "length (wp_consequences pack) < depth"
  shows "outcome no_exn (world_ok pack) (plan_goals depth st pack events)"
proof -
  have "outcome no_exn (planned_ok pack)
      (foldR (plan_actor_goal depth pack) (st, events) (sort_key ad_id (dict_values (wp_actors pack))))"
    using inv evs by (intro outcome_foldR plan_actor_goal_ok [OF pack _ _ depth]) (simp_all add: planned_ok_def)
  then show ?thesis
    unfolding plan_goals_def using world_events
    by (auto simp: outcome_simps planned_ok_def elim!: outcome_mono)
qed

section \<open>The pulse\<close>

lemma absolute_minute_updates [simp]:
  "absolute_minute (st\<lparr>ws_production_jobs := js\<rparr>) = absolute_minute st"
  "absolute_minute (st\<lparr>ws_actors := A\<rparr>) = absolute_minute st"
  by (simp_all add: absolute_minute_def)

lemma advance_living_world_ok:
  assumes pack: "pack_ok pack" and inv: "world_typed pack st" and evs: "events_ok pack events"
    and behind: "sites_behind (absolute_minute st) (ws_constructions st)"
    and depth: "length (wp_consequences pack) < depth"
  shows "outcome no_exn (world_ok pack) (advance_living_world depth st pack events)"
proof -
  note parts = typed_parts [OF inv]
  have each: "\<forall>a \<in> set (ws_actors st). attrs_ok pack a \<and> dict_mem (as_actor_id a) (wp_actors pack)"
    using parts(1) by (auto simp: cast_ok_def dict_mem_keys)
  obtain A events1 where A: "foldR (decay_actor st pack) ([], events) (ws_actors st) = Inr (A, events1)"
    and rel: "list_all2 (same_place pack) (ws_actors st) A" and ev1: "events_ok pack events1"
    using outcome_no_exnD [OF decay_actors_ok [OF pack each evs, of "[]" st]] by auto
  let ?st0 = "st\<lparr>ws_actors := A\<rparr>"
  have typed0: "world_typed pack ?st0" by (rule typed_actors [OF inv cast_ok_pointwise [OF parts(1) rel]])
  obtain st1 events2 where c: "complete_constructions ?st0 events1 = (st1, events2)"
    by (cases "complete_constructions ?st0 events1")
  have st1: "world_typed pack st1" "events_ok pack events2" "absolute_minute st1 = absolute_minute st"
    "ws_active_actor_id st1 = ws_active_actor_id st" "sites_timed (absolute_minute st1) (ws_constructions st1)"
    using complete_constructions_ok [OF typed0 ev1] behind c by (simp_all add: absolute_minute_def)
  have "jobs_left pack st1 [] (st1, [], events2)"
    using st1 typed_parts(3) [OF st1(1)] by (simp add: jobs_left_def stocked_refl)
  then have "outcome no_exn (jobs_left pack st1 ([] @ ws_production_jobs st1))
      (foldR (finish_job pack) (st1, [], events2) (ws_production_jobs st1))"
    by (intro finish_jobs_ok [OF pack st1(1)]) simp_all
  then obtain st2 remaining events3
    where f: "foldR (finish_job pack) (st1, [], events2) (ws_production_jobs st1) = Inr (st2, remaining, events3)"
    and left: "stocked pack st1 st2" "events_ok pack events3"
      "remaining = filter (\<lambda>j. absolute_minute st1 < pj_complete_at_minute j) (ws_production_jobs st1)"
    using outcome_no_exnD by (fastforce simp: jobs_left_def)
  let ?st2 = "st2\<lparr>ws_production_jobs := remaining\<rparr>"
  have "world_typed pack st2" by (rule stocked_typed [OF st1(1) left(1)])
  then have typed2: "world_typed pack ?st2"
    using jobs_ok_filter [OF typed_parts(9) [OF st1(1)]] left(3) stockedE(1) [OF left(1)]
    by (simp add: world_typed_def time_ok_def)
  have source: "dict_mem (ws_active_actor_id st) (wp_actors pack)" by (rule playable_known [OF pack parts(6)])
  obtain st3 where st3: "process_consequences depth ?st2 pack events3 (ws_active_actor_id st) = Inr st3"
    "settled pack ?st2 st3"
    using outcome_no_exnD [OF settle_ok [OF pack typed2 left(2) source depth]] by blast
  have "sites_timed (absolute_minute ?st2) (ws_constructions ?st2)"
    "jobs_timed (absolute_minute ?st2) (ws_production_jobs ?st2)"
    using st1(5) stockedE(1,2) [OF left(1)] left(3) by (simp_all add: jobs_timed_def)
  then have inv3: "world_ok pack st3" by (rule settled_world_ok [OF st3(2)])
  show ?thesis
    using plan_goals_ok [OF pack inv3 typed_parts(8) [OF world_okD(1) [OF inv3]] depth]
    by (simp add: advance_living_world_def A c f st3(1) del: foldR.simps)
qed

end
