(* ===== verification/NarrativeSafety.thy ===== *)
theory NarrativeSafety
  imports PlannerSafety
begin

text \<open>
  Quests, scenes and dialogues keep the invariant. What the code passes around is a state and
  the list of events it will store in it, so the lemmas are about \<open>planned_ok\<close>: the state
  satisfies the invariant and the events are valid.
\<close>

lemma planned_okD: "planned_ok pack (st, events) \<Longrightarrow> world_ok pack st \<and> events_ok pack events"
  by (simp add: planned_ok_def)

lemma effects_world:
  assumes pack: "pack_ok pack" and inv: "world_ok pack st" and evs: "events_ok pack events"
    and es: "effects_ok pack es" and source: "dict_mem source (wp_actors pack)"
    and target: "dict_mem target (wp_actors pack)"
  shows "outcome no_exn (planned_ok pack) (apply_effects st es source target events pack)"
proof -
  note typed = world_okD(1) [OF inv]
  obtain se where se: "apply_effects st es source target events pack = Inr se" "effect_result pack st se"
    using outcome_no_exnD [OF apply_effects_ok [OF pack typed_parts(4) [OF typed] evs es source target]] by blast
  have "world_ok pack (fst se)" using acted_world_ok [OF inv typed_effect(1) [OF typed se(2)]] .
  then show ?thesis using typed_effect(2) [OF typed se(2)] by (simp add: se(1) planned_ok_def)
qed

lemma conditions_world:
  assumes "pack_ok pack" and "world_ok pack st" and "conditions_ok pack cs" and "dict_mem source (wp_actors pack)"
  obtains b where "conditions_met st cs source events pack = Inr b"
  using outcome_no_exnD [OF conditions_total [OF assms(1) typed_parts(1) [OF world_okD(1) [OF assms(2)]]
      typed_parts(3) [OF world_okD(1) [OF assms(2)]] assms(3,4)]] by blast

lemma some_conditions_world:
  assumes "pack_ok pack" and "world_ok pack st" and "conditions_ok pack cs" and "dict_mem source (wp_actors pack)"
  obtains b where "some_conditions_met st cs source events pack = Inr b"
proof (cases "cs = []")
  case True
  then show ?thesis using that [of False] by (simp add: some_conditions_met_def)
next
  case False
  obtain b where "conditions_met st cs source events pack = Inr b" by (rule conditions_world [OF assms])
  then show ?thesis using that False by (simp add: some_conditions_met_def)
qed

section \<open>Quests\<close>

lemma world_quest:
  assumes inv: "world_ok pack st" and q: "quest_ok pack q"
  shows "world_ok pack (replace_quest st q)"
proof -
  let ?f = "\<lambda>i. if qs_quest_id i = qs_quest_id q then q else i"
  have ids: "map qs_quest_id (map ?f (ws_quests st)) = map qs_quest_id (ws_quests st)" by simp
  have "quests_ok pack (map ?f (ws_quests st))"
    using typed_parts(10) [OF world_okD(1) [OF inv]] q unfolding quests_ok_def ids by auto
  then show ?thesis
    using inv by (simp add: world_ok_def world_typed_def replace_quest_def absolute_minute_def time_ok_def)
qed

lemma stage_step_ok:
  assumes pack: "pack_ok pack" and inv: "world_ok pack st" and evs: "events_ok pack events"
    and source: "dict_mem source (wp_actors pack)" and d: "map_of (wp_quests pack) qid = Some d"
    and stage: "map_of (qd_stages d) sid = Some stage"
  shows "outcome no_exn (\<lambda>(p, se). planned_ok pack se \<and>
      (\<forall>q. p = Some q \<longrightarrow> quest_ok pack q \<and> qs_quest_id q = qid))
    (stage_step pack source qid sid stage (st, events))"
proof -
  have ok: "stage_ok pack d stage" using pack_quest(4) [OF pack d stage] .
  have sid: "dict_mem sid (qd_stages d)" using stage by (simp add: dict_mem_def)
  have ended: "quest_ok pack (quest_progress qid status (Some sid))" if "status \<in> {''completed'', ''failed''}" for status
    using that d sid by (auto simp: quest_ok_def quest_progress_def)
  have advanced: "quest_ok pack (quest_progress qid ''active'' (Some n))" if "qsd_next_stage_id stage = Some n" for n
    using ok that d by (simp add: quest_ok_def quest_progress_def stage_ok_def opt_in_def)
  obtain f where f: "some_conditions_met st (qsd_failure_conditions stage) source events pack = Inr f"
    using some_conditions_world [OF pack inv _ source] ok by (auto simp: stage_ok_def)
  obtain c where c: "some_conditions_met st (qsd_completion_conditions stage) source events pack = Inr c"
    using some_conditions_world [OF pack inv _ source] ok by (auto simp: stage_ok_def)
  have es: "effects_ok pack (qsd_on_fail stage)" "effects_ok pack (qsd_on_complete stage)"
    using ok by (simp_all add: stage_ok_def)
  obtain st1 ev1 where fail: "apply_effects st (qsd_on_fail stage) source source events pack = Inr (st1, ev1)"
    and ok1: "planned_ok pack (st1, ev1)"
    using outcome_no_exnD [OF effects_world [OF pack inv evs es(1) source source]] by auto
  obtain st2 ev2 where complete: "apply_effects st (qsd_on_complete stage) source source events pack = Inr (st2, ev2)"
    and ok2: "planned_ok pack (st2, ev2)"
    using outcome_no_exnD [OF effects_world [OF pack inv evs es(2) source source]] by auto
  show ?thesis
    using planned_okD [OF ok1] planned_okD [OF ok2] inv evs source world_quest ended advanced
    by (simp add: stage_step_def f c fail complete planned_ok_def Let_def split: option.split)
      (simp add: quest_progress_def)
qed

lemma quest_loop_ok:
  assumes pack: "pack_ok pack" and source: "dict_mem source (wp_actors pack)"
    and d: "map_of (wp_quests pack) qid = Some d"
    and "planned_ok pack se" and "quest_ok pack progress" and "qs_quest_id progress = qid"
  shows "outcome no_exn (planned_ok pack) (quest_loop pack source d qid visited progress se)"
  using assms
proof (induction pack source d qid visited progress se rule: quest_loop.induct)
  case (1 pack source d qid visited progress se)
  note pack = 1(2) and source = 1(3) and d = 1(4) and se = 1(5)
  obtain st events where se_eq: "se = (st, events)" by (cases se)
  show ?case
  proof (cases "qs_status progress = ''active'' \<and> (\<exists>sid. qs_stage_id progress = Some sid \<and> sid \<notin> visited)")
    case False
    then show ?thesis using se by (subst quest_loop.simps) (auto split: option.split)
  next
    case True
    then obtain sid where active: "qs_status progress = ''active''" and sid: "qs_stage_id progress = Some sid" "sid \<notin> visited"
      by blast
    then have "dict_mem sid (qd_stages d)" using 1(6,7) d by (auto simp: quest_ok_def)
    then obtain stage where stage: "map_of (qd_stages d) sid = Some stage" by (auto simp: dict_mem_def)
    then have at: "dict_at (qd_stages d) sid = Inr stage" by simp
    obtain p se' where step: "stage_step pack source qid sid stage se = Inr (p, se')" "planned_ok pack se'"
      "\<forall>q. p = Some q \<longrightarrow> quest_ok pack q \<and> qs_quest_id q = qid"
      using outcome_no_exnD [OF stage_step_ok [OF pack _ _ source d stage]] planned_okD [OF se [unfolded se_eq]] se_eq by blast
    have unfold: "quest_loop pack source d qid visited progress se =
        (case p of None \<Rightarrow> Inr se' | Some q \<Rightarrow> quest_loop pack source d qid (insert sid visited) q se')"
      by (subst quest_loop.simps) (simp add: active sid at step(1))
    show ?thesis
    proof (cases p)
      case None
      then show ?thesis using step(2) by (simp add: unfold)
    next
      case (Some q)
      have "outcome no_exn (planned_ok pack) (quest_loop pack source d qid (insert sid visited) q se')"
        by (rule 1(1) [OF _ sid(1,2) at step(1) refl Some pack source d step(2)]) (use active step(3) Some in auto)
      then show ?thesis by (simp add: unfold Some)
    qed
  qed
qed

lemma get_quest_ok:
  assumes inv: "world_ok pack st" and qid: "dict_mem qid (wp_quests pack)"
  shows "quest_ok pack (get_quest st qid)" "qs_quest_id (get_quest st qid) = qid"
proof -
  note quests = typed_parts(10) [OF world_okD(1) [OF inv], unfolded quests_ok_def same_ids_def]
  have "qid \<in> qs_quest_id ` set (ws_quests st)" using quests qid by (simp add: dict_mem_keys)
  then have "find (\<lambda>q. qs_quest_id q = qid) (ws_quests st) \<noteq> None" by (auto simp: find_None_iff)
  then obtain q where q: "find (\<lambda>q. qs_quest_id q = qid) (ws_quests st) = Some q" by blast
  then have "q \<in> set (ws_quests st)" "qs_quest_id q = qid" by (auto simp: find_Some_iff)
  then show "quest_ok pack (get_quest st qid)" "qs_quest_id (get_quest st qid) = qid"
    using quests q by (simp_all add: get_quest_def)
qed

lemma process_quest_ok:
  assumes pack: "pack_ok pack" and source: "dict_mem source (wp_actors pack)" and se: "planned_ok pack se"
    and qid: "dict_mem qid (wp_quests pack)"
  shows "outcome no_exn (planned_ok pack) (process_quest pack source se qid)"
proof -
  obtain st events where se_eq: "se = (st, events)" by (cases se)
  have inv: "world_ok pack st" and evs: "events_ok pack events" using se by (simp_all add: se_eq planned_ok_def)
  obtain d where d: "map_of (wp_quests pack) qid = Some d" using qid by (auto simp: dict_mem_def)
  obtain b where b: "conditions_met st (qd_auto_start_conditions d) source events pack = Inr b"
    by (rule conditions_world [OF pack inv pack_quest(3) [OF pack d] source])
  let ?p = "quest_progress qid ''active'' (Some (qd_start_stage_id d))"
  have p: "quest_ok pack ?p" "qs_quest_id ?p = qid"
    using pack_quest(2) [OF pack d] d by (simp_all add: quest_ok_def quest_progress_def)
  have "planned_ok pack (replace_quest st ?p, events @ [domain_event_of ''quest_started'' source qid])"
    using world_quest [OF inv p(1)] evs source by (simp add: planned_ok_def)
  note starts = quest_loop_ok [OF pack source d this p, of "{}"]
  note goes = quest_loop_ok [OF pack source d se get_quest_ok [OF inv qid], of "{}", unfolded se_eq]
  have at: "dict_at (wp_quests pack) qid = Inr d" using d by simp
  show ?thesis
    unfolding process_quest_def se_eq prod.case at rbind_Inr Let_def b
    using starts goes by (simp del: dict_at_Inr)
qed

lemma process_quests_ok:
  assumes pack: "pack_ok pack" and source: "dict_mem source (wp_actors pack)" and se: "planned_ok pack se"
  shows "outcome no_exn (planned_ok pack) (process_quests pack source se)"
  unfolding process_quests_def
  using se by (rule outcome_foldR) (auto intro: process_quest_ok [OF pack source] simp: dict_mem_keys)

lemma settle_quests_ok:
  assumes pack: "pack_ok pack" and source: "dict_mem source (wp_actors pack)" and "planned_ok pack se"
  shows "outcome no_exn (planned_ok pack) (settle_quests n pack source se)"
  using assms(3)
proof (induction n arbitrary: se)
  case (Suc n)
  obtain st' events where q: "process_quests pack source se = Inr (st', events)" "planned_ok pack (st', events)"
    using outcome_no_exnD [OF process_quests_ok [OF pack source Suc.prems]] by auto
  show ?case using Suc.IH [OF q(2)] q(2) by (auto simp: q(1) planned_ok_def)
qed simp

section \<open>Scenes\<close>

lemma before_colon_occurrence:
  assumes "CHR '':'' \<notin> set (snd_id scene)"
  shows "before_colon (occurrence scene day) = snd_id scene"
proof -
  have "takeWhile (\<lambda>c. c \<noteq> CHR '':'') (snd_id scene @ rest) =
      snd_id scene @ takeWhile (\<lambda>c. c \<noteq> CHR '':'') rest" for rest
    using assms by (intro takeWhile_append2) auto
  from this [of "CHR '':'' # dec day"] this [of "[]"] show ?thesis
    by (simp add: before_colon_def occurrence_def)
qed

lemma trigger_scene_ok:
  assumes pack: "pack_ok pack" and source: "dict_mem source (wp_actors pack)" and se: "planned_ok pack se"
  shows "outcome no_exn (planned_ok pack) (trigger_scene pack source se)"
proof -
  obtain st events where se_eq: "se = (st, events)" by (cases se)
  have inv: "world_ok pack st" and evs: "events_ok pack events" using se by (simp_all add: se_eq planned_ok_def)
  have ready: "outcome no_exn (\<lambda>_. True) (scene_ready st pack source events s)" if s: "s \<in> set (dict_values (wp_scenes pack))" for s
  proof -
    obtain b where "conditions_met st (snd_conditions s) source events pack = Inr b"
      by (rule conditions_world [OF pack inv pack_scene(3) [OF pack s] source])
    then show ?thesis by (simp add: scene_ready_def)
  qed
  obtain cs where cs: "filterR (scene_ready st pack source events) (dict_values (wp_scenes pack)) = Inr cs"
    "set cs \<subseteq> set (dict_values (wp_scenes pack))"
    using outcome_no_exnD [OF outcome_filterR [of "dict_values (wp_scenes pack)" _ "scene_ready st pack source events"]]
      ready by blast
  show ?thesis
  proof (cases "cs = []")
    case True
    then show ?thesis using se by (simp add: trigger_scene_def se_eq cs(1))
  next
    case False
    define scene where "scene = arg_min_list (\<lambda>s. (- snd_priority s, snd_id s)) cs"
    have scene: "scene \<in> set (dict_values (wp_scenes pack))"
      using arg_min_list_in [OF False] cs(2) unfolding scene_def by blast
    let ?st = "st\<lparr>ws_active_scene_id := Some (snd_id scene),
        ws_triggered_scenes := ws_triggered_scenes st \<union> {occurrence scene (ws_day st)}\<rparr>"
    have inv': "world_ok pack ?st"
      using inv pack_scene(1,2) [OF pack scene] before_colon_occurrence [of scene "ws_day st"]
      by (simp add: world_ok_def world_typed_def absolute_minute_def time_ok_def scene_ok_def opt_in_def
          scenes_ok_def dict_mem_keys)
    have evs': "events_ok pack (events @ [domain_event_of ''scene_triggered'' source (snd_id scene)])"
      using evs source by simp
    show ?thesis
      using effects_world [OF pack inv' evs' pack_scene(4) [OF pack scene] source source] se False
      by (simp add: trigger_scene_def se_eq cs(1) scene_def [symmetric] Let_def)
  qed
qed

section \<open>After every action\<close>

lemma settle_world:
  assumes pack: "pack_ok pack" and inv: "world_ok pack st" and evs: "events_ok pack events"
    and source: "dict_mem source (wp_actors pack)" and depth: "length (wp_consequences pack) < depth"
  shows "outcome no_exn (world_ok pack) (process_consequences depth st pack events source)"
  using outcome_no_exnD [OF settle_ok [OF pack world_okD(1) [OF inv] evs source depth]]
    settled_world_ok world_okD(2,3) [OF inv] by fastforce

lemma postprocess_narrative_ok:
  assumes pack: "pack_ok pack" and inv: "world_ok pack st" and evs: "events_ok pack events"
    and source: "dict_mem source (wp_actors pack)" and depth: "length (wp_consequences pack) < depth"
  shows "outcome no_exn (world_ok pack) (postprocess_narrative depth st pack events source)"
proof -
  obtain st1 where st1: "process_consequences depth st pack events source = Inr st1" "world_ok pack st1"
    using outcome_no_exnD [OF settle_world [OF assms]] by blast
  then have "planned_ok pack (st1, ws_recent_events st1)"
    using typed_parts(8) [OF world_okD(1) [OF st1(2)]] by (simp add: planned_ok_def)
  then obtain se2 where se2: "settle_quests (transition_limit pack) pack source (st1, ws_recent_events st1) = Inr se2"
    "planned_ok pack se2" using outcome_no_exnD [OF settle_quests_ok [OF pack source]] by blast
  obtain se3 where se3: "trigger_scene pack source se2 = Inr se3" "planned_ok pack se3"
    using outcome_no_exnD [OF trigger_scene_ok [OF pack source se2(2)]] by blast
  obtain st4 events4 where se4: "settle_quests (transition_limit pack) pack source se3 = Inr (st4, events4)"
    "planned_ok pack (st4, events4)"
    using outcome_no_exnD [OF settle_quests_ok [OF pack source se3(2), of "transition_limit pack"]] by auto
  show ?thesis
    using world_events planned_okD [OF se4(2)]
    by (simp add: postprocess_narrative_def st1(1) se2(1) se3(1) se4(1))
qed

section \<open>Dialogues\<close>

lemma node_accessible_total:
  assumes pack: "pack_ok pack" and inv: "world_ok pack st" and "dict_mem (dnd_speaker_id node) (wp_actors pack)"
  obtains b where "node_accessible st pack node = Inr b"
proof -
  obtain a where a: "get_actor st (dnd_speaker_id node) = Inr a"
    using cast_find [OF typed_parts(1) [OF world_okD(1) [OF inv]] assms(3)] by blast
  obtain d where d: "map_of (wp_actors pack) (dnd_speaker_id node) = Some d" using assms(3) by (auto simp: dict_mem_def)
  show ?thesis using that a d by (simp add: node_accessible_def dict_at_def)
qed

lemma dialogue_node:
  assumes pack: "pack_ok pack" and d: "map_of (wp_dialogues pack) k = Some d" and n: "dict_mem n (dd_nodes d)"
  obtains node where "dict_at (dd_nodes d) n = Inr node" "node_ok pack d node"
proof -
  obtain node where node: "map_of (dd_nodes d) n = Some node" using n by (auto simp: dict_mem_def)
  show ?thesis using that [of node] node pack_dialogue(5) [OF pack d node] by simp
qed

lemma choice_available_total:
  assumes pack: "pack_ok pack" and inv: "world_ok pack st" and d: "map_of (wp_dialogues pack) k = Some d"
    and c: "choice_ok pack d c" and source: "dict_mem (ds_initiator_actor_id ds) (wp_actors pack)"
  shows "outcome no_exn (\<lambda>_. True) (choice_available st pack ds d c)"
proof -
  have cond: "conditions_ok pack (dcd_conditions c)" using c by (simp add: choice_ok_def)
  obtain b where b: "conditions_met st (dcd_conditions c) (ds_initiator_actor_id ds) (ws_recent_events st) pack = Inr b"
    by (rule conditions_world [OF pack inv cond source])
  show ?thesis
  proof (cases "dcd_next_node_id c")
    case None
    then show ?thesis by (simp add: choice_available_def b)
  next
    case (Some n)
    then have "dict_mem n (dd_nodes d)" using c by (simp add: choice_ok_def opt_in_def)
    then obtain node where node: "dict_at (dd_nodes d) n = Inr node" "node_ok pack d node"
      by (rule dialogue_node [OF pack d])
    then obtain a where "node_accessible st pack node = Inr a"
      using node_accessible_total [OF pack inv, of node] by (auto simp: node_ok_def)
    then show ?thesis using Some by (simp add: choice_available_def b node(1) del: dict_at_Inr)
  qed
qed

lemma dialogue_at:
  assumes pack: "pack_ok pack" and inv: "world_ok pack st" and ds: "ws_dialogue st = Some ds"
  obtains d node where "map_of (wp_dialogues pack) (ds_dialogue_id ds) = Some d"
    "dict_at (dd_nodes d) (ds_node_id ds) = Inr node" "node_ok pack d node"
    "dict_mem (ds_initiator_actor_id ds) (wp_actors pack)" "dict_mem (ds_partner_actor_id ds) (wp_actors pack)"
proof -
  have ok: "\<not> bad_dialogue pack ds"
    using typed_parts(11) [OF world_okD(1) [OF inv]] ds by (simp add: dialogue_ok_def)
  then obtain d where d: "map_of (wp_dialogues pack) (ds_dialogue_id ds) = Some d"
    and rest: "dict_mem (ds_node_id ds) (dd_nodes d)" "dict_mem (ds_initiator_actor_id ds) (wp_actors pack)"
      "ds_partner_actor_id ds = dd_actor_id d"
    by (auto simp: bad_dialogue_def split: option.splits)
  obtain node where "dict_at (dd_nodes d) (ds_node_id ds) = Inr node" "node_ok pack d node"
    by (rule dialogue_node [OF pack d rest(1)])
  then show ?thesis using that d rest pack_dialogue(2) [OF pack d] by simp
qed

lemma world_dialogue:
  assumes "world_ok pack st" and "dialogue_ok pack v"
  shows "world_ok pack (st\<lparr>ws_dialogue := v\<rparr>)"
  using assms by (simp add: world_ok_def world_typed_def absolute_minute_def time_ok_def)

lemma world_message [simp]: "world_ok pack (st\<lparr>ws_last_message := m\<rparr>) = world_ok pack st"
  by (simp add: world_ok_def absolute_minute_def)

lemma world_dialogue_message:
  assumes "world_ok pack st" and "dialogue_ok pack v"
  shows "world_ok pack (st\<lparr>ws_dialogue := v, ws_last_message := m\<rparr>)"
  using world_dialogue [OF assms] by simp

lemma dialogue_ok_None [simp]: "dialogue_ok pack None"
  by (simp add: dialogue_ok_def)

lemma available_choices_ok:
  assumes pack: "pack_ok pack" and inv: "world_ok pack st" and ds: "ws_dialogue st = Some ds"
    and d: "map_of (wp_dialogues pack) (ds_dialogue_id ds) = Some d"
  shows "outcome no_exn (\<lambda>cs. \<forall>c \<in> set cs. choice_ok pack d c) (available_dialogue_choices st pack)"
proof -
  obtain d' node where node: "dict_at (dd_nodes d) (ds_node_id ds) = Inr node" "node_ok pack d node"
    and source: "dict_mem (ds_initiator_actor_id ds) (wp_actors pack)"
    using dialogue_at [OF pack inv ds] d by (metis option.inject)
  have each: "outcome no_exn (\<lambda>_. True) (choice_available st pack ds d c)" if "c \<in> set (dnd_choices node)" for c
    using choice_available_total [OF pack inv d _ source] that node(2) by (simp add: node_ok_def)
  obtain cs where "filterR (choice_available st pack ds d) (dnd_choices node) = Inr cs" "set cs \<subseteq> set (dnd_choices node)"
    using outcome_no_exnD [OF outcome_filterR [of "dnd_choices node" _ "choice_available st pack ds d"]] each by blast
  moreover have at: "dict_at (wp_dialogues pack) (ds_dialogue_id ds) = Inr d" using d by simp
  ultimately show ?thesis
    using node(2) by (auto simp: available_dialogue_choices_def ds at node(1) node_ok_def simp del: dict_at_Inr)
qed

lemma choose_dialogue_ok:
  assumes pack: "pack_ok pack" and inv: "world_ok pack st" and depth: "length (wp_consequences pack) < depth"
  shows "outcome no_exn (world_ok pack) (choose_dialogue depth st act pack)"
proof (cases "ws_dialogue st")
  case None
  then show ?thesis using inv by (simp add: choose_dialogue_def)
next
  case (Some ds)
  obtain d node where d: "map_of (wp_dialogues pack) (ds_dialogue_id ds) = Some d"
    and source: "dict_mem (ds_initiator_actor_id ds) (wp_actors pack)"
    and partner: "dict_mem (ds_partner_actor_id ds) (wp_actors pack)"
    by (rule dialogue_at [OF pack inv Some]) blast
  obtain cs where cs: "available_dialogue_choices st pack = Inr cs" "\<forall>c \<in> set cs. choice_ok pack d c"
    using outcome_no_exnD [OF available_choices_ok [OF pack inv Some d]] by blast
  have at: "dict_at (wp_dialogues pack) (ds_dialogue_id ds) = Inr d" using d by simp
  show ?thesis
  proof (cases "truthy (ga_choice_id act) \<and> find (\<lambda>c. Some (dcd_id c) = ga_choice_id act) cs \<noteq> None")
    case False
    then show ?thesis using inv by (auto simp: choose_dialogue_def Some cs(1))
  next
    case True
    then obtain c where c: "find (\<lambda>c. Some (dcd_id c) = ga_choice_id act) cs = Some c" by blast
    then have ok: "choice_ok pack d c" using cs(2) by (auto simp: find_Some_iff)
    let ?i = "ds_initiator_actor_id ds" and ?p = "ds_partner_actor_id ds"
    have es: "effects_ok pack (dcd_effects c)" using ok by (simp add: choice_ok_def)
    have ev: "events_ok pack [domain_event_of ''dialogue_choice'' ?i (dcd_id c)]" using source by simp
    obtain st1 ev1 where e1: "apply_effects st (dcd_effects c) ?i ?p
        [domain_event_of ''dialogue_choice'' ?i (dcd_id c)] pack = Inr (st1, ev1)" "planned_ok pack (st1, ev1)"
      using outcome_no_exnD [OF effects_world [OF pack inv ev es source partner]] by auto
    note inv1 = planned_okD [OF e1(2)]
    have "outcome no_exn (planned_ok pack)
        (case dcd_next_node_id c of
           None \<Rightarrow> Inr (st1\<lparr>ws_dialogue := None, ws_last_message := []\<rparr>,
             ev1 @ [domain_event_of ''dialogue_ended'' ?i (ds_dialogue_id ds)])
         | Some n \<Rightarrow> rbind (dict_at (dd_nodes d) n) (\<lambda>node.
             apply_effects (st1\<lparr>ws_dialogue := Some (ds\<lparr>ds_node_id := n\<rparr>)\<rparr>)
               (dnd_on_enter node) ?i ?p ev1 pack))"
    proof (cases "dcd_next_node_id c")
      case None
      then show ?thesis using inv1 source world_dialogue_message [of pack st1 None] by (simp add: planned_ok_def)
    next
      case next_node: (Some n)
      then have n: "dict_mem n (dd_nodes d)" using ok by (simp add: choice_ok_def opt_in_def)
      obtain nd where nd: "dict_at (dd_nodes d) n = Inr nd" "node_ok pack d nd" by (rule dialogue_node [OF pack d n])
      have "\<not> bad_dialogue pack ds"
        using typed_parts(11) [OF world_okD(1) [OF inv]] Some by (simp add: dialogue_ok_def)
      then have "dialogue_ok pack (Some (ds\<lparr>ds_node_id := n\<rparr>))"
        using d n by (simp add: dialogue_ok_def bad_dialogue_def)
      then have inv2: "world_ok pack (st1\<lparr>ws_dialogue := Some (ds\<lparr>ds_node_id := n\<rparr>)\<rparr>)"
        using inv1 by (intro world_dialogue) simp_all
      have "effects_ok pack (dnd_on_enter nd)" using nd(2) by (simp add: node_ok_def)
      from effects_world [OF pack inv2 conjunct2 [OF inv1] this source partner]
      show ?thesis by (simp add: next_node nd(1) del: dict_at_Inr)
    qed
    from outcome_no_exnD [OF this] obtain st2 ev2 where e2: "(case dcd_next_node_id c of
           None \<Rightarrow> Inr (st1\<lparr>ws_dialogue := None, ws_last_message := []\<rparr>,
             ev1 @ [domain_event_of ''dialogue_ended'' ?i (ds_dialogue_id ds)])
         | Some n \<Rightarrow> rbind (dict_at (dd_nodes d) n) (\<lambda>node.
             apply_effects (st1\<lparr>ws_dialogue := Some (ds\<lparr>ds_node_id := n\<rparr>)\<rparr>)
               (dnd_on_enter node) ?i ?p ev1 pack)) = Inr (st2, ev2)" "planned_ok pack (st2, ev2)"
      by auto
    note inv2 = planned_okD [OF e2(2)]
    show ?thesis
      unfolding choose_dialogue_def Some option.case cs(1) rbind_Inr c Let_def e1(1) prod.case at e2(1)
      using inv postprocess_narrative_ok [OF pack conjunct1 [OF inv2] conjunct2 [OF inv2] source depth] by simp
  qed
qed

lemma end_dialogue_ok:
  assumes pack: "pack_ok pack" and inv: "world_ok pack st" and ds: "ws_dialogue st = Some ds"
    and depth: "length (wp_consequences pack) < depth"
  shows "outcome no_exn (world_ok pack) (end_dialogue depth st ds pack)"
proof -
  obtain d node where d: "map_of (wp_dialogues pack) (ds_dialogue_id ds) = Some d"
    and node: "dict_at (dd_nodes d) (ds_node_id ds) = Inr node"
    and source: "dict_mem (ds_initiator_actor_id ds) (wp_actors pack)"
    by (rule dialogue_at [OF pack inv ds]) blast
  have at: "dict_at (wp_dialogues pack) (ds_dialogue_id ds) = Inr d" using d by simp
  have closed: "world_ok pack (st\<lparr>ws_dialogue := None, ws_last_message := []\<rparr>)"
    by (rule world_dialogue_message [OF inv]) simp
  have "events_ok pack [domain_event_of ''dialogue_ended'' (ds_initiator_actor_id ds) (ds_dialogue_id ds)]"
    using source by simp
  from postprocess_narrative_ok [OF pack closed this source depth]
  show ?thesis using inv by (simp add: end_dialogue_def at node del: dict_at_Inr)
qed

end
