(* ===== verification/Json.thy ===== *)
theory Json
  imports Decimal "HOL-Library.Multiset"
begin

text \<open>
  JSON values and their canonical text: \<open>json.dumps\<close> with \<open>ensure_ascii=False\<close>,
  \<open>sort_keys=True\<close> and the separators \<open>,\<close> and \<open>:\<close>, which every digest of the repository is
  taken over. An object is a Python dictionary in insertion order. A float is kept as its
  Python text: the code never computes with one.
\<close>

datatype json =
    JNull
  | JBool bool
  | JInt int
  | JFloat string
  | JStr string
  | JArr "json list"
  | JObj "(string \<times> json) list"

section \<open>Access\<close>

definition obj_get :: "json dict \<Rightarrow> string \<Rightarrow> json" where
  "obj_get ob k = (case map_of ob k of None \<Rightarrow> JNull | Some v \<Rightarrow> v)"

definition obj_get_or :: "json dict \<Rightarrow> string \<Rightarrow> json \<Rightarrow> json" where
  "obj_get_or ob k d = (case map_of ob k of None \<Rightarrow> d | Some v \<Rightarrow> v)"

definition is_obj :: "json \<Rightarrow> bool" where
  "is_obj j = (case j of JObj _ \<Rightarrow> True | _ \<Rightarrow> False)"

definition as_obj :: "json \<Rightarrow> json dict res" where
  "as_obj j = (case j of JObj ob \<Rightarrow> Inr ob | _ \<Rightarrow> Inl (TypeError ''an object is required''))"

definition as_arr :: "json \<Rightarrow> json list res" where
  "as_arr j = (case j of JArr xs \<Rightarrow> Inr xs | _ \<Rightarrow> Inl (TypeError ''an array is required''))"

definition as_str :: "json \<Rightarrow> string res" where
  "as_str j = (case j of JStr s \<Rightarrow> Inr s | _ \<Rightarrow> Inl (TypeError ''a string is required''))"

definition as_opt_str :: "json \<Rightarrow> string option res" where
  "as_opt_str j =
     (case j of JNull \<Rightarrow> Inr None | JStr s \<Rightarrow> Inr (Some s)
      | _ \<Rightarrow> Inl (TypeError ''a string or null is required''))"

definition opt_str :: "string option \<Rightarrow> json" where
  "opt_str v = (case v of None \<Rightarrow> JNull | Some s \<Rightarrow> JStr s)"

definition opt_int :: "int option \<Rightarrow> json" where
  "opt_int v = (case v of None \<Rightarrow> JNull | Some i \<Rightarrow> JInt i)"

lemma as_simps [simp]:
  "as_obj (JObj ob) = Inr ob" "as_arr (JArr xs) = Inr xs" "as_str (JStr s) = Inr s"
  "as_opt_str (opt_str v) = Inr v" "as_opt_str (JStr s) = Inr (Some s)" "as_opt_str JNull = Inr None"
  by (simp_all add: as_obj_def as_arr_def as_str_def as_opt_str_def opt_str_def split: option.split)

section \<open>Iteration\<close>

text \<open>
  What a loop over a JSON value visits: the elements of an array, the characters of a string, the
  keys of an object. A continuation byte of UTF-8 belongs to the character before it.
\<close>

definition continues :: "char \<Rightarrow> bool" where
  "continues c \<longleftrightarrow> 128 \<le> (of_char c :: int) \<and> (of_char c :: int) < 192"

function characters :: "string \<Rightarrow> string list" where
  "characters [] = []"
| "characters (c # cs) = (c # takeWhile continues cs) # characters (dropWhile continues cs)"
  by pat_completeness auto
termination by (relation "measure length") (auto simp: less_Suc_eq_le length_dropWhile_le)

definition iterated :: "json \<Rightarrow> json list res" where
  "iterated j =
     (case j of JArr xs \<Rightarrow> Inr xs | JStr s \<Rightarrow> Inr (map JStr (characters s))
      | JObj kvs \<Rightarrow> Inr (map JStr (dict_keys kvs)) | _ \<Rightarrow> Inl (TypeError ''not iterable''))"

section \<open>Canonical text\<close>

definition hex_digit :: "nat \<Rightarrow> char" where
  "hex_digit n = (if n < 10 then digit n else char_of (87 + n))"

text \<open>Quote, backslash and the control characters are escaped; everything else is literal.\<close>

definition escape_char :: "char \<Rightarrow> string" where
  "escape_char c =
     (let n = (of_char c :: nat) in
      if n = 34 then [char_of (92::nat), char_of (34::nat)]
      else if n = 92 then [char_of (92::nat), char_of (92::nat)]
      else if n = 8 then [char_of (92::nat), CHR ''b'']
      else if n = 12 then [char_of (92::nat), CHR ''f'']
      else if n = 10 then [char_of (92::nat), CHR ''n'']
      else if n = 13 then [char_of (92::nat), CHR ''r'']
      else if n = 9 then [char_of (92::nat), CHR ''t'']
      else if n < 32 then [char_of (92::nat), CHR ''u'', CHR ''0'', CHR ''0'', hex_digit (n div 16), hex_digit (n mod 16)]
      else [c])"

lemma hex_digit_int: "0 \<le> n \<Longrightarrow> hex_digit (nat n) = char_of (if n < 10 then 48 + n else 87 + n)"
  using char_of_nat [of "48 + nat n", where ?'a = int] char_of_nat [of "87 + nat n", where ?'a = int]
  by (simp add: hex_digit_def digit_def nat_less_iff)

lemma of_char_int: "int (of_char c) = of_char c"
  by (simp add: of_char_def)

lemma char_of_int_numeral: "char_of (numeral k :: int) = char_of (numeral k :: nat)"
  by (metis char_of_nat of_nat_numeral)

lemma escape_char_code [code]:
  "escape_char c =
     (let n = (of_char c :: int) in
      if n = 34 then [char_of (92::int), char_of (34::int)]
      else if n = 92 then [char_of (92::int), char_of (92::int)]
      else if n = 8 then [char_of (92::int), CHR ''b'']
      else if n = 12 then [char_of (92::int), CHR ''f'']
      else if n = 10 then [char_of (92::int), CHR ''n'']
      else if n = 13 then [char_of (92::int), CHR ''r'']
      else if n = 9 then [char_of (92::int), CHR ''t'']
      else if n < 32 then [char_of (92::int), CHR ''u'', CHR ''0'', CHR ''0'',
        char_of (48 + n div 16), char_of (if n mod 16 < 10 then 48 + n mod 16 else 87 + n mod 16)]
      else [c])"
proof -
  have n: "(of_char c :: int) = int (of_char c)" by (simp add: of_char_int)
  have hex: "hex_digit m = char_of (if int m < 10 then 48 + int m else 87 + int m)" for m
    using hex_digit_int [of "int m"] by simp
  have "int (of_char c) div 16 < 10" if "(of_char c :: nat) < 32"
    using that by linarith
  then show ?thesis
    unfolding escape_char_def Let_def n char_of_int_numeral
    by (simp add: hex zdiv_int zmod_int)
qed

definition quoted :: "string \<Rightarrow> string" where
  "quoted s = char_of (34::nat) # concat (map escape_char s) @ [char_of (34::nat)]"

fun joined :: "string list \<Rightarrow> string" where
  "joined [] = []"
| "joined [x] = x"
| "joined (x # y # xs) = x @ '','' @ joined (y # xs)"

fun json_text :: "json \<Rightarrow> string" where
  "json_text JNull = ''null''"
| "json_text (JBool b) = (if b then ''true'' else ''false'')"
| "json_text (JInt i) = dec i"
| "json_text (JFloat t) = t"
| "json_text (JStr s) = quoted s"
| "json_text (JArr xs) = ''['' @ joined (map json_text xs) @ '']''"
| "json_text (JObj kvs) =
     ''{'' @ joined (map (\<lambda>(k, t). quoted k @ '':'' @ t)
                      (sort_key fst (map (\<lambda>(k, v). (k, json_text v)) kvs))) @ ''}''"

text \<open>The text of an object depends on its entries only, not on their order.\<close>

lemma json_text_permuted:
  assumes "mset kvs = mset kvs'" and "distinct (map fst kvs)"
  shows "json_text (JObj kvs) = json_text (JObj kvs')"
proof -
  let ?t = "map (\<lambda>(k, v). (k, json_text v))"
  have "inj_on fst (set (?t kvs))"
    using assms(2) by (force simp: inj_on_def distinct_map)
  moreover have "mset (?t kvs) = mset (?t kvs')" using assms(1) by simp
  ultimately have "sort_key fst (?t kvs) = sort_key fst (?t kvs')"
    by (intro sort_key_inj_key_eq) simp_all
  then show ?thesis by simp
qed

end
