(* ===== verification/ActionCodec.thy ===== *)
theory ActionCodec
  imports WorldState Json
begin

text \<open>
  \<open>GameAction.to_dict\<close> and \<open>GameAction.from_dict\<close> of \<open>src/isoworld/world/state.py\<close>: what a
  replay file holds of an action, and the checks on reading it back.
\<close>

definition action_kinds :: "string set" where
  "action_kinds =
     {''tick'', ''select_actor'', ''move'', ''navigate'', ''interact'', ''use_ability'',
      ''start_dialogue'', ''choose_dialogue'', ''end_dialogue'', ''dismiss_scene'', ''build'',
      ''start_production'', ''transfer_resource''}"

definition action_to_dict :: "game_action \<Rightarrow> json dict" where
  "action_to_dict a =
     [(''kind'', JStr (ga_kind a)),
      (''actor_id'', opt_str (ga_actor_id a)),
      (''dx'', JInt (ga_dx a)),
      (''dy'', JInt (ga_dy a)),
      (''map_id'', opt_str (ga_map_id a)),
      (''x'', opt_int (ga_x a)),
      (''y'', opt_int (ga_y a)),
      (''ability_id'', opt_str (ga_ability_id a)),
      (''target_actor_id'', opt_str (ga_target_actor_id a)),
      (''interaction_id'', opt_str (ga_interaction_id a)),
      (''dialogue_id'', opt_str (ga_dialogue_id a)),
      (''choice_id'', opt_str (ga_choice_id a)),
      (''blueprint_id'', opt_str (ga_blueprint_id a)),
      (''construction_instance_id'', opt_str (ga_construction_instance_id a)),
      (''recipe_id'', opt_str (ga_recipe_id a)),
      (''stockpile_id'', opt_str (ga_stockpile_id a)),
      (''resource_id'', opt_str (ga_resource_id a)),
      (''amount'', JInt (ga_amount a)),
      (''direction'', opt_str (ga_direction a))]"

text \<open>
  The three loops over fields raise at the first bad one; a bad kind is an unhashable list or
  object, for which \<open>in\<close> raises \<open>TypeError\<close>, or an unknown value.
\<close>

definition read_kind :: "json dict \<Rightarrow> string res" where
  "read_kind raw =
     (case obj_get raw ''kind'' of
        JStr k \<Rightarrow> if k \<in> action_kinds then Inr k else Inl (ValueError ''action kind is unknown'')
      | JArr _ \<Rightarrow> Inl (TypeError ''unhashable type: list'')
      | JObj _ \<Rightarrow> Inl (TypeError ''unhashable type: dict'')
      | _ \<Rightarrow> Inl (ValueError ''action kind is unknown''))"

definition read_opt_str :: "json dict \<Rightarrow> string \<Rightarrow> string option res" where
  "read_opt_str raw field =
     (case obj_get raw field of
        JNull \<Rightarrow> Inr None | JStr s \<Rightarrow> Inr (Some s)
      | _ \<Rightarrow> Inl (ValueError (''action '' @ field @ '' must be a string or null'')))"

definition read_int :: "json dict \<Rightarrow> string \<Rightarrow> int res" where
  "read_int raw field =
     (case obj_get_or raw field (JInt 0) of JInt i \<Rightarrow> Inr i
      | _ \<Rightarrow> Inl (ValueError (''action '' @ field @ '' must be an integer'')))"

definition read_opt_int :: "json dict \<Rightarrow> string \<Rightarrow> int option res" where
  "read_opt_int raw field =
     (case obj_get raw field of JNull \<Rightarrow> Inr None | JInt i \<Rightarrow> Inr (Some i)
      | _ \<Rightarrow> Inl (ValueError (''action '' @ field @ '' must be an integer or null'')))"

definition action_from_dict :: "json dict \<Rightarrow> game_action res" where
  "action_from_dict raw =
     rbind (read_kind raw) (\<lambda>kind.
     rbind (read_opt_str raw ''actor_id'') (\<lambda>actor_id.
     rbind (read_opt_str raw ''map_id'') (\<lambda>map_id.
     rbind (read_opt_str raw ''ability_id'') (\<lambda>ability_id.
     rbind (read_opt_str raw ''target_actor_id'') (\<lambda>target_actor_id.
     rbind (read_opt_str raw ''interaction_id'') (\<lambda>interaction_id.
     rbind (read_opt_str raw ''dialogue_id'') (\<lambda>dialogue_id.
     rbind (read_opt_str raw ''choice_id'') (\<lambda>choice_id.
     rbind (read_opt_str raw ''blueprint_id'') (\<lambda>blueprint_id.
     rbind (read_opt_str raw ''construction_instance_id'') (\<lambda>instance_id.
     rbind (read_opt_str raw ''recipe_id'') (\<lambda>recipe_id.
     rbind (read_opt_str raw ''stockpile_id'') (\<lambda>stockpile_id.
     rbind (read_opt_str raw ''resource_id'') (\<lambda>resource_id.
     rbind (read_opt_str raw ''direction'') (\<lambda>direction.
     rbind (read_int raw ''dx'') (\<lambda>dx.
     rbind (read_int raw ''dy'') (\<lambda>dy.
     rbind (read_int raw ''amount'') (\<lambda>amount.
     rbind (read_opt_int raw ''x'') (\<lambda>x.
     rbind (read_opt_int raw ''y'') (\<lambda>y.
       Inr \<lparr>ga_kind = kind, ga_actor_id = actor_id, ga_dx = dx, ga_dy = dy, ga_map_id = map_id,
            ga_x = x, ga_y = y, ga_ability_id = ability_id, ga_target_actor_id = target_actor_id,
            ga_interaction_id = interaction_id, ga_dialogue_id = dialogue_id,
            ga_choice_id = choice_id, ga_blueprint_id = blueprint_id,
            ga_construction_instance_id = instance_id, ga_recipe_id = recipe_id,
            ga_stockpile_id = stockpile_id, ga_resource_id = resource_id, ga_amount = amount,
            ga_direction = direction\<rparr>)))))))))))))))))))"

lemma read_fields [simp]:
  "obj_get raw f = opt_str v \<Longrightarrow> read_opt_str raw f = Inr v"
  "obj_get raw f = opt_int n \<Longrightarrow> read_opt_int raw f = Inr n"
  "obj_get_or raw f (JInt 0) = JInt i \<Longrightarrow> read_int raw f = Inr i"
  by (auto simp: read_opt_str_def read_opt_int_def read_int_def opt_str_def opt_int_def
      split: option.split)

lemma action_dict_roundtrip:
  "ga_kind a \<in> action_kinds \<Longrightarrow> action_from_dict (action_to_dict a) = Inr a"
  by (simp add: action_from_dict_def action_to_dict_def read_kind_def obj_get_def obj_get_or_def)

lemma action_from_dict_kind: "action_from_dict raw = Inr a \<Longrightarrow> ga_kind a \<in> action_kinds"
  by (auto simp: action_from_dict_def read_kind_def split: json.splits if_splits)

end
