(* ===== verification/Persistence.thy ===== *)
theory Persistence
  imports SaveValidation ActionCodec
begin

text \<open>
  Saves and replays: \<open>src/isoworld/persistence.py\<close>. A document is a JSON object; reading and
  writing its file is left to the caller. The digest is a parameter \<open>sha\<close> of the text that
  the code hashes (SHA-256 of it in the code).

  \<open>state_from_dict\<close> keeps a value of any JSON type where a dataclass has a string. The states of
  the model have strings there, so the model stops at such a value with \<^const>\<open>IllTyped\<close>: it says
  nothing about a document that holds one. (The code goes on. \<open>_validate_state\<close> refuses the
  value, as it compares it with the IDs of the pack, or fails on it with a \<open>TypeError\<close>, as it cannot
  be hashed. Two values pass: the dimension of a relationship, which only has to be true, and a last
  message, of which the code takes the text.) A loop over a value that is not an array visits what it visits in
  Python: the characters of a string, the keys of an object.
\<close>

section \<open>Writing a state\<close>

definition int_obj :: "(string \<times> int) list \<Rightarrow> json" where
  "int_obj xs = JObj (dict_of (map (\<lambda>(k, v). (k, JInt v)) xs))"

definition sorted_strings :: "string set \<Rightarrow> json" where
  "sorted_strings s = JArr (map JStr (sorted_list_of_set s))"

definition relationship_to_json :: "(string \<times> string) \<times> int \<Rightarrow> json" where
  "relationship_to_json r =
     (case r of ((t, dim), v) \<Rightarrow>
       JObj [(''target_actor_id'', JStr t), (''dimension'', JStr dim), (''value'', JInt v)])"

definition actor_to_json :: "actor_state \<Rightarrow> json" where
  "actor_to_json a = JObj
     [(''actor_id'', JStr (as_actor_id a)),
      (''map_id'', JStr (as_map_id a)),
      (''x'', JInt (as_x a)),
      (''y'', JInt (as_y a)),
      (''resources'', int_obj (as_resources a)),
      (''cooldowns'', int_obj (as_cooldowns a)),
      (''route'', JArr (map (\<lambda>(x, y). JArr [JInt x, JInt y]) (as_route a))),
      (''blocked_ticks'', JInt (as_blocked_ticks a)),
      (''knowledge'', JObj (dict_of (map (\<lambda>(k, v). (k, JStr v)) (as_knowledge a)))),
      (''relationships'', JArr (map relationship_to_json (as_relationships a))),
      (''faction_reputation'', int_obj (as_faction_reputation a)),
      (''needs'', int_obj (as_needs a)),
      (''active_goal_id'', opt_str (as_active_goal_id a))]"

definition quest_to_json :: "quest_state \<Rightarrow> json" where
  "quest_to_json q = JObj
     [(''quest_id'', JStr (qs_quest_id q)), (''status'', JStr (qs_status q)),
      (''stage_id'', opt_str (qs_stage_id q))]"

definition dialogue_to_json :: "dialogue_state option \<Rightarrow> json" where
  "dialogue_to_json v =
     (case v of None \<Rightarrow> JNull
      | Some d \<Rightarrow> JObj
          [(''dialogue_id'', JStr (ds_dialogue_id d)), (''node_id'', JStr (ds_node_id d)),
           (''initiator_actor_id'', JStr (ds_initiator_actor_id d)),
           (''partner_actor_id'', JStr (ds_partner_actor_id d))])"

definition event_to_json :: "domain_event \<Rightarrow> json" where
  "event_to_json ev = JObj
     [(''kind'', JStr (ev_kind ev)), (''actor_id'', opt_str (ev_actor_id ev)),
      (''subject_id'', opt_str (ev_subject_id ev))]"

definition stockpile_to_json :: "stockpile_state \<Rightarrow> json" where
  "stockpile_to_json s = JObj
     [(''stockpile_id'', JStr (ss_stockpile_id s)), (''resources'', int_obj (ss_resources s))]"

definition construction_to_json :: "construction_state \<Rightarrow> json" where
  "construction_to_json c = JObj
     [(''instance_id'', JStr (cs_instance_id c)), (''blueprint_id'', JStr (cs_blueprint_id c)),
      (''map_id'', JStr (cs_map_id c)), (''x'', JInt (cs_x c)), (''y'', JInt (cs_y c)),
      (''builder_actor_id'', JStr (cs_builder_actor_id c)), (''status'', JStr (cs_status c)),
      (''complete_at_minute'', JInt (cs_complete_at_minute c))]"

definition job_to_json :: "production_job \<Rightarrow> json" where
  "job_to_json j = JObj
     [(''construction_instance_id'', JStr (pj_construction_instance_id j)),
      (''recipe_id'', JStr (pj_recipe_id j)), (''actor_id'', JStr (pj_actor_id j)),
      (''complete_at_minute'', JInt (pj_complete_at_minute j))]"

definition pending_to_json :: "pending_consequence \<Rightarrow> json" where
  "pending_to_json p = JObj
     [(''consequence_id'', JStr (pc_consequence_id p)),
      (''due_at_minute'', JInt (pc_due_at_minute p)),
      (''source_actor_id'', JStr (pc_source_actor_id p))]"

definition state_to_dict :: "world_state \<Rightarrow> json dict" where
  "state_to_dict st =
     [(''tick'', JInt (ws_tick st)),
      (''day'', JInt (ws_day st)),
      (''minute_of_day'', JInt (ws_minute_of_day st)),
      (''minute_tick'', JInt (ws_minute_tick st)),
      (''active_actor_id'', JStr (ws_active_actor_id st)),
      (''actors'', JArr (map actor_to_json (ws_actors st))),
      (''flags'', sorted_strings (ws_flags st)),
      (''completed_interactions'', sorted_strings (ws_completed_interactions st)),
      (''quests'', JArr (map quest_to_json (ws_quests st))),
      (''dialogue'', dialogue_to_json (ws_dialogue st)),
      (''active_scene_id'', opt_str (ws_active_scene_id st)),
      (''triggered_scenes'', sorted_strings (ws_triggered_scenes st)),
      (''recent_events'', JArr (map event_to_json (ws_recent_events st))),
      (''stockpiles'', JArr (map stockpile_to_json (ws_stockpiles st))),
      (''constructions'', JArr (map construction_to_json (ws_constructions st))),
      (''production_jobs'', JArr (map job_to_json (ws_production_jobs st))),
      (''pending_consequences'', JArr (map pending_to_json (ws_pending_consequences st))),
      (''triggered_consequences'', sorted_strings (ws_triggered_consequences st)),
      (''last_message'', JStr (ws_last_message st))]"

definition state_digest :: "(string \<Rightarrow> string) \<Rightarrow> world_state \<Rightarrow> string" where
  "state_digest sha st = sha (json_text (JObj (state_to_dict st)))"

section \<open>Reading a state\<close>

definition saved_integer :: "json \<Rightarrow> string \<Rightarrow> int res" where
  "saved_integer j context =
     (case j of JInt i \<Rightarrow> Inr i
      | _ \<Rightarrow> Inl (PersistenceError (''Malformed saved state: '' @ context @ '' must be an integer'')))"

lemma saved_integer_JInt [simp]: "saved_integer (JInt i) context = Inr i"
  by (simp add: saved_integer_def)

text \<open>
  \<open>tuple(... for key, value in sorted(object.items()))\<close>; a value without \<open>items\<close> is an
  \<open>AttributeError\<close>.
\<close>

definition items_of :: "json \<Rightarrow> json dict res" where
  "items_of j = (case j of JObj ob \<Rightarrow> Inr ob | _ \<Rightarrow> Inl (AttributeError ''items''))"

lemma items_of_JObj [simp]: "items_of (JObj ob) = Inr ob"
  by (simp add: items_of_def)

definition sorted_items :: "json \<Rightarrow> (json \<Rightarrow> 'v res) \<Rightarrow> (string \<times> 'v) list res" where
  "sorted_items j read =
     rbind (items_of j) (\<lambda>ob.
       mapR (\<lambda>(k, v). rbind (read v) (\<lambda>x. Inr (k, x))) (sort_key fst ob))"

definition int_items :: "json \<Rightarrow> string \<Rightarrow> (string \<times> int) list res" where
  "int_items j context = sorted_items j (\<lambda>v. saved_integer v context)"

text \<open>\<open>str(value)\<close>; the text of a container is outside the model.\<close>

definition py_str :: "json \<Rightarrow> string res" where
  "py_str j =
     (case j of JStr s \<Rightarrow> Inr s | JNull \<Rightarrow> Inr ''None'' | JInt i \<Rightarrow> Inr (dec i) | JFloat t \<Rightarrow> Inr t
      | JBool b \<Rightarrow> Inr (if b then ''True'' else ''False'')
      | _ \<Rightarrow> Inl (IllTyped ''the text of a container''))"

text \<open>A value that the code keeps as it is, and an element of a \<open>frozenset\<close>.\<close>

definition kept_str :: "json \<Rightarrow> string res" where
  "kept_str j = (case j of JStr s \<Rightarrow> Inr s | _ \<Rightarrow> Inl (IllTyped ''a string''))"

definition kept_opt_str :: "json \<Rightarrow> string option res" where
  "kept_opt_str j =
     (case j of JNull \<Rightarrow> Inr None | JStr s \<Rightarrow> Inr (Some s) | _ \<Rightarrow> Inl (IllTyped ''a string or null''))"

definition set_element :: "json \<Rightarrow> string res" where
  "set_element j =
     (case j of JArr _ \<Rightarrow> Inl (TypeError ''unhashable type'') | JObj _ \<Rightarrow> Inl (TypeError ''unhashable type'')
      | _ \<Rightarrow> kept_str j)"

lemma kept_simps [simp]:
  "kept_str (JStr s) = Inr s" "kept_opt_str (opt_str v) = Inr v" "kept_opt_str (JStr s) = Inr (Some s)"
  "kept_opt_str JNull = Inr None" "set_element (JStr s) = Inr s"
  by (simp_all add: kept_str_def kept_opt_str_def set_element_def opt_str_def split: option.split)

text \<open>\<open>cell[0]\<close> and \<open>cell[1]\<close>; an object has no key that is a number.\<close>

definition decode_cell :: "json \<Rightarrow> cell res" where
  "decode_cell j =
     rbind (if is_obj j then Inl (KeyError ''0'') else iterated j) (\<lambda>xs.
       case xs of
         x # y # _ \<Rightarrow>
           rbind (saved_integer x ''route x'') (\<lambda>a. rbind (saved_integer y ''route y'') (\<lambda>b. Inr (a, b)))
       | [x] \<Rightarrow> rbind (saved_integer x ''route x'') (\<lambda>_. Inl IndexError)
       | [] \<Rightarrow> Inl IndexError)"

definition str_at :: "json dict \<Rightarrow> string \<Rightarrow> string res" where
  "str_at ob k = rbind (dict_at ob k) kept_str"

definition int_at :: "json dict \<Rightarrow> string \<Rightarrow> string \<Rightarrow> int res" where
  "int_at ob k context = rbind (dict_at ob k) (\<lambda>j. saved_integer j context)"

definition list_or_empty :: "json dict \<Rightarrow> string \<Rightarrow> json list res" where
  "list_or_empty ob k = iterated (obj_get_or ob k (JArr []))"

definition decode_relationship :: "json \<Rightarrow> ((string \<times> string) \<times> int) res" where
  "decode_relationship j =
     rbind (as_obj j) (\<lambda>ob.
     rbind (str_at ob ''target_actor_id'') (\<lambda>t.
     rbind (str_at ob ''dimension'') (\<lambda>dim.
     rbind (int_at ob ''value'' ''relationship value'') (\<lambda>v. Inr ((t, dim), v)))))"

definition decode_actor :: "json \<Rightarrow> actor_state res" where
  "decode_actor j =
     rbind (as_obj j) (\<lambda>ob.
     rbind (str_at ob ''actor_id'') (\<lambda>aid.
     rbind (str_at ob ''map_id'') (\<lambda>mid.
     rbind (int_at ob ''x'' ''actor x'') (\<lambda>x.
     rbind (int_at ob ''y'' ''actor y'') (\<lambda>y.
     rbind (int_items (obj_get_or ob ''resources'' (JObj [])) ''actor resource'') (\<lambda>resources.
     rbind (int_items (obj_get_or ob ''cooldowns'' (JObj [])) ''actor cooldown'') (\<lambda>cooldowns.
     rbind (rbind (list_or_empty ob ''route'') (mapR decode_cell)) (\<lambda>route.
     rbind (saved_integer (obj_get_or ob ''blocked_ticks'' (JInt 0)) ''blocked ticks'') (\<lambda>ticks.
     rbind (sorted_items (obj_get_or ob ''knowledge'' (JObj [])) py_str) (\<lambda>knowledge.
     rbind (rbind (list_or_empty ob ''relationships'') (mapR decode_relationship)) (\<lambda>relationships.
     rbind (int_items (obj_get_or ob ''faction_reputation'' (JObj [])) ''reputation value'') (\<lambda>reputations.
     rbind (int_items (obj_get_or ob ''needs'' (JObj [])) ''need value'') (\<lambda>needs.
     rbind (kept_opt_str (obj_get ob ''active_goal_id'')) (\<lambda>goal.
       Inr \<lparr>as_actor_id = aid, as_map_id = mid, as_x = x, as_y = y, as_resources = resources,
            as_cooldowns = cooldowns, as_route = route, as_blocked_ticks = ticks,
            as_knowledge = knowledge, as_relationships = relationships,
            as_faction_reputation = reputations, as_needs = needs, as_active_goal_id = goal\<rparr>))))))))))))))"

definition decode_quest :: "json \<Rightarrow> quest_state res" where
  "decode_quest j =
     rbind (as_obj j) (\<lambda>ob.
     rbind (str_at ob ''quest_id'') (\<lambda>qid.
     rbind (str_at ob ''status'') (\<lambda>status.
     rbind (kept_opt_str (obj_get ob ''stage_id'')) (\<lambda>stage. Inr (quest_progress qid status stage)))))"

definition decode_dialogue :: "json \<Rightarrow> dialogue_state option res" where
  "decode_dialogue j =
     (if j = JNull then Inr None
      else rbind (as_obj j) (\<lambda>ob.
        rbind (str_at ob ''dialogue_id'') (\<lambda>d.
        rbind (str_at ob ''node_id'') (\<lambda>n.
        rbind (str_at ob ''initiator_actor_id'') (\<lambda>i.
        rbind (str_at ob ''partner_actor_id'') (\<lambda>p.
          Inr (Some \<lparr>ds_dialogue_id = d, ds_node_id = n, ds_initiator_actor_id = i,
                     ds_partner_actor_id = p\<rparr>)))))))"

definition decode_event :: "json \<Rightarrow> domain_event res" where
  "decode_event j =
     rbind (as_obj j) (\<lambda>ob.
     rbind (str_at ob ''kind'') (\<lambda>kind.
     rbind (kept_opt_str (obj_get ob ''actor_id'')) (\<lambda>aid.
     rbind (kept_opt_str (obj_get ob ''subject_id'')) (\<lambda>sid.
       Inr \<lparr>ev_kind = kind, ev_actor_id = aid, ev_subject_id = sid\<rparr>))))"

definition decode_stockpile :: "json \<Rightarrow> stockpile_state res" where
  "decode_stockpile j =
     rbind (as_obj j) (\<lambda>ob.
     rbind (str_at ob ''stockpile_id'') (\<lambda>sid.
     rbind (int_items (obj_get_or ob ''resources'' (JObj [])) ''stockpile resource'') (\<lambda>resources.
       Inr \<lparr>ss_stockpile_id = sid, ss_resources = resources\<rparr>)))"

definition decode_construction :: "json \<Rightarrow> construction_state res" where
  "decode_construction j =
     rbind (as_obj j) (\<lambda>ob.
     rbind (str_at ob ''instance_id'') (\<lambda>iid.
     rbind (str_at ob ''blueprint_id'') (\<lambda>bid.
     rbind (str_at ob ''map_id'') (\<lambda>mid.
     rbind (int_at ob ''x'' ''construction x'') (\<lambda>x.
     rbind (int_at ob ''y'' ''construction y'') (\<lambda>y.
     rbind (str_at ob ''builder_actor_id'') (\<lambda>builder.
     rbind (str_at ob ''status'') (\<lambda>status.
     rbind (int_at ob ''complete_at_minute'' ''construction completion minute'') (\<lambda>minute.
       Inr \<lparr>cs_instance_id = iid, cs_blueprint_id = bid, cs_map_id = mid, cs_x = x, cs_y = y,
            cs_builder_actor_id = builder, cs_status = status, cs_complete_at_minute = minute\<rparr>)))))))))"

definition decode_job :: "json \<Rightarrow> production_job res" where
  "decode_job j =
     rbind (as_obj j) (\<lambda>ob.
     rbind (str_at ob ''construction_instance_id'') (\<lambda>iid.
     rbind (str_at ob ''recipe_id'') (\<lambda>rid.
     rbind (str_at ob ''actor_id'') (\<lambda>aid.
     rbind (int_at ob ''complete_at_minute'' ''production completion minute'') (\<lambda>minute.
       Inr \<lparr>pj_construction_instance_id = iid, pj_recipe_id = rid, pj_actor_id = aid,
            pj_complete_at_minute = minute\<rparr>)))))"

definition decode_pending :: "json \<Rightarrow> pending_consequence res" where
  "decode_pending j =
     rbind (as_obj j) (\<lambda>ob.
     rbind (str_at ob ''consequence_id'') (\<lambda>cid.
     rbind (int_at ob ''due_at_minute'' ''consequence due minute'') (\<lambda>due.
     rbind (str_at ob ''source_actor_id'') (\<lambda>aid.
       Inr \<lparr>pc_consequence_id = cid, pc_due_at_minute = due, pc_source_actor_id = aid\<rparr>))))"

definition decode_list :: "json dict \<Rightarrow> string \<Rightarrow> (json \<Rightarrow> 'a res) \<Rightarrow> 'a list res" where
  "decode_list ob k f = rbind (list_or_empty ob k) (mapR f)"

definition decode_state :: "json dict \<Rightarrow> world_state res" where
  "decode_state raw =
     rbind (rbind (rbind (dict_at raw ''actors'') iterated) (mapR decode_actor)) (\<lambda>actors.
     rbind (decode_dialogue (obj_get raw ''dialogue'')) (\<lambda>dialogue.
     rbind (int_at raw ''tick'' ''tick'') (\<lambda>tick_value.
     rbind (int_at raw ''day'' ''day'') (\<lambda>day.
     rbind (int_at raw ''minute_of_day'' ''minute_of_day'') (\<lambda>minute.
     rbind (int_at raw ''minute_tick'' ''minute_tick'') (\<lambda>minute_tick.
     rbind (str_at raw ''active_actor_id'') (\<lambda>active.
     rbind (decode_list raw ''flags'' set_element) (\<lambda>flags.
     rbind (decode_list raw ''completed_interactions'' set_element) (\<lambda>interactions.
     rbind (decode_list raw ''quests'' decode_quest) (\<lambda>quests.
     rbind (kept_opt_str (obj_get raw ''active_scene_id'')) (\<lambda>scene.
     rbind (decode_list raw ''triggered_scenes'' set_element) (\<lambda>scenes.
     rbind (decode_list raw ''recent_events'' decode_event) (\<lambda>events.
     rbind (decode_list raw ''stockpiles'' decode_stockpile) (\<lambda>stockpiles.
     rbind (decode_list raw ''constructions'' decode_construction) (\<lambda>constructions.
     rbind (decode_list raw ''production_jobs'' decode_job) (\<lambda>jobs.
     rbind (decode_list raw ''pending_consequences'' decode_pending) (\<lambda>pending.
     rbind (decode_list raw ''triggered_consequences'' set_element) (\<lambda>triggered.
     rbind (py_str (obj_get_or raw ''last_message'' (JStr []))) (\<lambda>message.
       Inr \<lparr>ws_tick = tick_value, ws_day = day, ws_minute_of_day = minute, ws_minute_tick = minute_tick,
            ws_active_actor_id = active, ws_actors = actors, ws_flags = set flags,
            ws_completed_interactions = set interactions, ws_quests = quests, ws_dialogue = dialogue,
            ws_active_scene_id = scene, ws_triggered_scenes = set scenes, ws_recent_events = events,
            ws_stockpiles = stockpiles, ws_constructions = constructions, ws_production_jobs = jobs,
            ws_pending_consequences = pending, ws_triggered_consequences = set triggered,
            ws_last_message = message\<rparr>)))))))))))))))))))"

definition caught_by_decoder :: "exn \<Rightarrow> bool" where
  "caught_by_decoder e = (caught_by_replay e \<or> e = IndexError)"

definition exn_text :: "exn \<Rightarrow> string" where
  "exn_text e =
     (case e of KeyError k \<Rightarrow> k | TypeError m \<Rightarrow> m | ValueError m \<Rightarrow> m | WorldPackError m \<Rightarrow> m
      | PersistenceError m \<Rightarrow> m | GameLogicError _ m \<Rightarrow> m | IndexError \<Rightarrow> ''index out of range'' | _ \<Rightarrow> [])"

definition state_from_dict :: "json dict \<Rightarrow> world_pack \<Rightarrow> world_state res" where
  "state_from_dict raw pack =
     rbind (case decode_state raw of Inr st \<Rightarrow> Inr st
            | Inl e \<Rightarrow> Inl (if caught_by_decoder e
                           then PersistenceError (''Malformed saved state: '' @ exn_text e) else e))
       (\<lambda>st. rbind (validate_state st pack) (\<lambda>_. Inr st))"

section \<open>Documents\<close>

definition save_format :: string where "save_format = ''isoworld.save''"
definition replay_format :: string where "replay_format = ''isoworld.replay''"

definition max_replay_actions :: nat where "max_replay_actions = 1000000"

text \<open>Python's \<open>==\<close> between a JSON number and an \<open>int\<close>: \<open>3.0 == 3\<close> and \<open>True == 1\<close>.\<close>

definition equals_int :: "json \<Rightarrow> int \<Rightarrow> bool" where
  "equals_int j n =
     (case j of JInt i \<Rightarrow> i = n | JFloat t \<Rightarrow> t = dec n @ ''.0'' | JBool b \<Rightarrow> n = of_bool b | _ \<Rightarrow> False)"

definition compatible :: "json dict \<Rightarrow> world_pack \<Rightarrow> string \<Rightarrow> int \<Rightarrow> unit res" where
  "compatible raw pack expected_format version = in_order
     [deny (obj_get raw ''format'' \<noteq> JStr expected_format \<or> \<not> equals_int (obj_get raw ''format_version'') version)
        (''Unsupported '' @ expected_format @ '' format or version''),
      deny (obj_get raw ''world_id'' \<noteq> JStr (wp_world_id pack))
        ''The persistence document belongs to a different world'',
      deny (obj_get raw ''world_content_hash'' \<noteq> JStr (wp_content_hash pack))
        ''The worldpack changed; migrate or restart this state'']"

definition document :: "string \<Rightarrow> world_pack \<Rightarrow> json dict \<Rightarrow> json dict" where
  "document fmt pack entries =
     [(''format'', JStr fmt), (''format_version'', JInt 3), (''world_id'', JStr (wp_world_id pack)),
      (''world_content_hash'', JStr (wp_content_hash pack))] @ entries"

definition save_game :: "(string \<Rightarrow> string) \<Rightarrow> world_state \<Rightarrow> world_pack \<Rightarrow> json dict res" where
  "save_game sha st pack =
     rbind (validate_state st pack) (\<lambda>_.
       Inr (document save_format pack
              [(''state'', JObj (state_to_dict st)), (''state_digest'', JStr (state_digest sha st))]))"

definition load_game :: "(string \<Rightarrow> string) \<Rightarrow> json dict \<Rightarrow> world_pack \<Rightarrow> world_state res" where
  "load_game sha raw pack =
     rbind (compatible raw pack save_format 3) (\<lambda>_.
     case obj_get raw ''state'' of
       JObj state_raw \<Rightarrow>
         rbind (state_from_dict state_raw pack) (\<lambda>st.
         rbind (deny (obj_get raw ''state_digest'' \<noteq> JStr (state_digest sha st))
                  ''The saved state digest does not match'') (\<lambda>_. Inr st))
     | _ \<Rightarrow> Inl (PersistenceError ''The save has no state object''))"

definition write_replay ::
  "(string \<Rightarrow> string) \<Rightarrow> game_action list \<Rightarrow> world_state \<Rightarrow> world_pack \<Rightarrow> json dict" where
  "write_replay sha acts final pack =
     document replay_format pack
       [(''actions'', JArr (map (\<lambda>a. JObj (action_to_dict a)) acts)),
        (''final_state_digest'', JStr (state_digest sha final))]"

definition read_actions :: "json dict \<Rightarrow> game_action list res" where
  "read_actions raw =
     (case obj_get raw ''actions'' of
        JArr items \<Rightarrow>
          if \<not> list_all is_obj items
          then Inl (PersistenceError ''Replay actions must be a list of objects'')
          else if max_replay_actions < length items
          then Inl (PersistenceError ''Replay exceeds the one-million-action limit'')
          else (case mapR (\<lambda>j. rbind (as_obj j) action_from_dict) items of
                  Inr acts \<Rightarrow> Inr acts
                | Inl e \<Rightarrow> Inl (PersistenceError (''Malformed replay action: '' @ exn_text e)))
      | _ \<Rightarrow> Inl (PersistenceError ''Replay actions must be a list of objects''))"

definition load_replay ::
  "nat \<Rightarrow> (string \<Rightarrow> string) \<Rightarrow> json dict \<Rightarrow> world_pack \<Rightarrow> (game_action list \<times> world_state) res" where
  "load_replay depth sha raw pack =
     rbind (compatible raw pack replay_format 3) (\<lambda>_.
     rbind (read_actions raw) (\<lambda>acts.
     rbind (replay_actions depth pack acts) (\<lambda>st.
     rbind (deny (obj_get raw ''final_state_digest'' \<noteq> JStr (state_digest sha st))
              ''Replay result differs from its recorded final state'') (\<lambda>_. Inr (acts, st)))))"

end
