(* ===== verification/Village.thy ===== *)
theory Village
  imports PackFacts
begin

text \<open>
  A small village, on which the theorems of the development are applied: one map with a wall,
  a playable actor and a scheduled one, and one entry of every table that a world operation
  reads. The loader's contract accepts it.
\<close>

definition condition_of :: "string \<Rightarrow> condition_definition" where
  "condition_of kind =
     \<lparr>cond_kind = kind, cond_negate = False, cond_flag = None, cond_fact_id = None,
      cond_knowledge_status = None, cond_actor_id = None, cond_target_actor_id = None,
      cond_dimension = None, cond_faction_id = None, cond_value = 0, cond_quest_id = None,
      cond_quest_status = None, cond_event_kind = None, cond_subject_id = None, cond_map_id = None,
      cond_x = None, cond_y = None, cond_start_minute = None, cond_end_minute = None,
      cond_need_id = None, cond_resource_id = None, cond_stockpile_id = None,
      cond_construction_id = None, cond_construction_status = None\<rparr>"

definition effect_of :: "string \<Rightarrow> effect_definition" where
  "effect_of kind =
     \<lparr>eff_kind = kind, eff_target = ''self'', eff_resource = None, eff_amount = 0, eff_flag = None,
      eff_fact_id = None, eff_knowledge_status = None, eff_target_actor_id = None,
      eff_dimension = None, eff_faction_id = None, eff_stockpile_id = None, eff_need_id = None\<rparr>"

definition place :: "int \<Rightarrow> int \<Rightarrow> location" where
  "place x y = \<lparr>loc_map_id = ''dale'', loc_x = x, loc_y = y\<rparr>"

definition dale :: map_definition where
  "dale =
     \<lparr>md_id = ''dale'', md_width = 4, md_height = 3,
      md_rows = [[''.'', ''.'', ''.'', ''.''], [''.'', ''#'', ''.'', ''.''], [''.'', ''.'', ''.'', ''.'']],
      md_legend = [(''.'', ''grass''), (''#'', ''wall'')]\<rparr>"

definition ana :: actor_definition where
  "ana =
     \<lparr>ad_id = ''ana'', ad_display_name = ''Ana'', ad_playable = True, ad_spawn = place 0 0,
      ad_personal_arc_id = None, ad_schedule_id = None, ad_schedule_mode = ''never'',
      ad_ability_ids = [''rest''], ad_resources = [(''food'', 3), (''wood'', 5)],
      ad_knowledge = [], ad_forbidden_fact_ids = [], ad_relationships = [],
      ad_faction_reputation = [], ad_needs = [(''food_need'', 60)], ad_goal_ids = []\<rparr>"

definition bo :: actor_definition where
  "bo =
     \<lparr>ad_id = ''bo'', ad_display_name = ''Bo'', ad_playable = False, ad_spawn = place 3 0,
      ad_personal_arc_id = None, ad_schedule_id = Some ''day'', ad_schedule_mode = ''always'',
      ad_ability_ids = [], ad_resources = [], ad_knowledge = [(''rumor'', ''suspected'')],
      ad_forbidden_fact_ids = [], ad_relationships = [(''ana'', [(''trust'', 10)])],
      ad_faction_reputation = [], ad_needs = [], ad_goal_ids = [''live'']\<rparr>"

definition village :: world_pack where
  "village =
     \<lparr>wp_format_version = 6, wp_world_id = ''village'', wp_content_hash = ''v1'',
      wp_runtime_requirements =
        \<lparr>rr_runtime_api = \<lparr>rar_minimum = ''1.0.0'', rar_maximum_exclusive = ''2.0.0''\<rparr>,
         rr_required_features = [], rr_optional_features = []\<rparr>,
      wp_clock = \<lparr>start_day = 1, start_minute = 480, ticks_per_minute = 2, movement_interval_ticks = 1\<rparr>,
      wp_tile_types =
        [(''grass'', \<lparr>tt_id = ''grass'', tt_walkable = True, tt_arable = True, tt_height = 0\<rparr>),
         (''wall'', \<lparr>tt_id = ''wall'', tt_walkable = False, tt_arable = False, tt_height = 1\<rparr>)],
      wp_maps = [(''dale'', dale)],
      wp_actors = [(''ana'', ana), (''bo'', bo)],
      wp_abilities =
        [(''rest'', \<lparr>abd_id = ''rest'', abd_display_name = ''Rest'', abd_target = ''self'', abd_range = 0,
            abd_costs = [(''food'', 1)], abd_cooldown_minutes = 10,
            abd_effects = [(effect_of ''set_flag'')\<lparr>eff_flag := Some ''rested''\<rparr>]\<rparr>)],
      wp_schedules =
        [(''day'', \<lparr>scd_id = ''day'', scd_entries =
            [\<lparr>se_start_minute = 480, se_end_minute = 600, se_activity = ''walk'',
              se_destinations = [place 3 2]\<rparr>]\<rparr>)],
      wp_interactions =
        [(''well'', \<lparr>ind_id = ''well'', ind_display_name = ''Well'', ind_prompt = ''Look'',
            ind_location = place 0 2, ind_range = 2, ind_required_flags = {}, ind_forbidden_flags = {},
            ind_repeatable = False,
            ind_effects = [(effect_of ''learn_fact'')\<lparr>eff_fact_id := Some ''rumor'',
                             eff_knowledge_status := Some ''known''\<rparr>]\<rparr>)],
      wp_facts = [(''rumor'', \<lparr>fd_id = ''rumor'', fd_statement = ''A fox'', fd_kind = ''rumor'', fd_truth = ''true''\<rparr>)],
      wp_factions = [],
      wp_dialogues =
        [(''greet'', \<lparr>dd_id = ''greet'', dd_display_name = ''Greet'', dd_actor_id = ''bo'', dd_range = 9,
            dd_start_node_id = ''hello'', dd_conditions = [],
            dd_nodes = [(''hello'', \<lparr>dnd_id = ''hello'', dnd_speaker_id = ''bo'', dnd_text = ''Hello'',
              dnd_fact_refs = [], dnd_choices =
                [\<lparr>dcd_id = ''bye'', dcd_text = ''Bye'', dcd_next_node_id = None, dcd_conditions = [],
                  dcd_effects = [(effect_of ''set_flag'')\<lparr>eff_flag := Some ''met''\<rparr>]\<rparr>],
              dnd_on_enter = [], dnd_allow_exit = True\<rparr>)]\<rparr>)],
      wp_quests =
        [(''meet'', \<lparr>qd_id = ''meet'', qd_title = ''Meet'', qd_start_stage_id = ''talk'',
            qd_auto_start_conditions = [(condition_of ''flag_unset'')\<lparr>cond_flag := Some ''met''\<rparr>],
            qd_stages = [(''talk'', \<lparr>qsd_id = ''talk'', qsd_description = ''Talk'',
              qsd_completion_conditions = [(condition_of ''flag_set'')\<lparr>cond_flag := Some ''met''\<rparr>],
              qsd_failure_conditions = [], qsd_on_complete = [], qsd_on_fail = [],
              qsd_next_stage_id = None\<rparr>)]\<rparr>)],
      wp_scenes =
        [(''night'', \<lparr>snd_id = ''night'', snd_title = ''Night'', snd_text = ''Dark'', snd_start_minute = 1200,
            snd_end_minute = 300, snd_conditions = [], snd_effects = [], snd_once = False,
            snd_priority = 1\<rparr>)],
      wp_personal_arcs = [],
      wp_resources =
        [(''food'', \<lparr>rd_id = ''food'', rd_display_name = ''Food'', rd_base_value = 1, rd_scarcity_target = 10\<rparr>),
         (''wood'', \<lparr>rd_id = ''wood'', rd_display_name = ''Wood'', rd_base_value = 1, rd_scarcity_target = 0\<rparr>)],
      wp_needs =
        [(''food_need'', \<lparr>nd_id = ''food_need'', nd_display_name = ''Food'', nd_decay_interval_minutes = 1,
            nd_decay_amount = 1, nd_critical_below = 20, nd_resource_id = ''food'',
            nd_consume_amount = 1, nd_restore_amount = 20\<rparr>)],
      wp_goals =
        [(''live'', \<lparr>gd_id = ''live'', gd_display_name = ''Live'', gd_parent_id = None, gd_priority = 1,
            gd_conditions = [], gd_action = None\<rparr>),
         (''roam'', \<lparr>gd_id = ''roam'', gd_display_name = ''Roam'', gd_parent_id = Some ''live'', gd_priority = 2,
            gd_conditions = [], gd_action = Some \<lparr>gad_kind = ''travel'', gad_need_id = None,
              gad_stockpile_id = None, gad_blueprint_id = None, gad_recipe_id = None,
              gad_location = Some (place 2 2)\<rparr>\<rparr>)],
      wp_stockpiles =
        [(''barn'', \<lparr>sd_id = ''barn'', sd_display_name = ''Barn'', sd_location = place 0 1, sd_capacity = 12,
            sd_resources = [(''wood'', 4)]\<rparr>)],
      wp_constructions =
        [(''hut'', \<lparr>cd_id = ''hut'', cd_display_name = ''Hut'', cd_footprint = [(0, 0)],
            cd_costs = [(''wood'', 2)], cd_build_minutes = 1, cd_blocks_movement = True,
            cd_stockpile_id = Some ''barn''\<rparr>)],
      wp_production_recipes =
        [(''bake'', \<lparr>prd_id = ''bake'', prd_display_name = ''Bake'', prd_required_construction_id = ''hut'',
            prd_inputs = [(''wood'', 1)], prd_outputs = [(''food'', 2)], prd_duration_minutes = 5\<rparr>)],
      wp_consequences =
        [(''smoke'', \<lparr>csd_id = ''smoke'', csd_delay_minutes = 2, csd_trigger_event = ''minute_changed'',
            csd_subject_id = None, csd_conditions = [],
            csd_effects = [(effect_of ''set_flag'')\<lparr>eff_flag := Some ''smoke''\<rparr>], csd_once = True\<rparr>)]\<rparr>"

lemma village_validates: "validate_runtime_pack village = Inr ()"
  by code_simp

lemma village_wf: "pack_wf village"
  by code_simp

lemma village_plain: "ids_plain village"
  by code_simp

lemma village_ok: "pack_ok village"
  using village_validates village_wf village_plain by (simp add: pack_ok_def)

end
