(* ===== verification/ReducerSafety.thy ===== *)
theory ReducerSafety
  imports NarrativeSafety Reducer Persistence Village
begin

text \<open>
  The reducer keeps the invariant and never raises, for every action whose actor is in the
  pack; the initial state of an accepted pack satisfies it. The locale \<open>transition_system\<close>
  lifts a step property to runs of any length, and is interpreted on \<open>reduce_world\<close>.
\<close>

section \<open>Starting a dialogue\<close>

lemma dialogue_distance_total:
  assumes "world_ok pack st" and "dict_mem (dd_actor_id d) (wp_actors pack)"
  obtains n where "dialogue_distance st a d = Inr n"
  using cast_find [OF typed_parts(1) [OF world_okD(1) [OF assms(1)]] assms(2)]
  by (metis dialogue_distance_def rbind_Inr)

lemma dialogue_values:
  assumes pack: "pack_ok pack" and d: "d \<in> set (dict_values (wp_dialogues pack))"
  shows "map_of (wp_dialogues pack) (dd_id d) = Some d"
proof -
  have "keyed_by dd_id (wp_dialogues pack)" using pack_ok_wf [OF pack] by (simp add: pack_wf_def)
  from keyed_by_mem [OF this d] show ?thesis .
qed

lemma dialogue_candidate_total:
  assumes pack: "pack_ok pack" and inv: "world_ok pack st" and d: "d \<in> set (dict_values (wp_dialogues pack))"
    and aid: "dict_mem aid (wp_actors pack)"
  shows "outcome no_exn (\<lambda>_. True) (dialogue_candidate st pack a aid d)"
proof -
  note facts = pack_dialogue [OF pack dialogue_values [OF pack d]]
  obtain p where p: "get_actor st (dd_actor_id d) = Inr p"
    using cast_find [OF typed_parts(1) [OF world_okD(1) [OF inv]] facts(2)] by blast
  obtain n where n: "dialogue_distance st a d = Inr n" by (rule dialogue_distance_total [OF inv facts(2)])
  obtain b where b: "conditions_met st (dd_conditions d) aid [] pack = Inr b"
    by (rule conditions_world [OF pack inv facts(4) aid])
  obtain node where node: "dict_at (dd_nodes d) (dd_start_node_id d) = Inr node" "node_ok pack d node"
    by (rule dialogue_node [OF pack dialogue_values [OF pack d] facts(3)])
  obtain c where c: "node_accessible st pack node = Inr c"
    using node_accessible_total [OF pack inv, of node] node(2) by (auto simp: node_ok_def)
  show ?thesis by (simp add: dialogue_candidate_def p n b node(1) c del: dict_at_Inr)
qed

lemma measured_dialogues:
  assumes "\<And>d. d \<in> set ds \<Longrightarrow> \<exists>n. f d = Inr n"
  shows "\<exists>ms. mapR (\<lambda>d. rbind (f d) (\<lambda>n. Inr (n, d))) ds = Inr ms \<and> snd ` set ms \<subseteq> set ds"
  using assms
proof (induction ds)
  case (Cons d ds)
  then obtain ms where ms: "mapR (\<lambda>d. rbind (f d) (\<lambda>n. Inr (n, d))) ds = Inr ms" "snd ` set ms \<subseteq> set ds"
    by auto
  obtain n where "f d = Inr n" using Cons.prems by auto
  then show ?case using ms by auto
qed simp

lemma start_dialogue_ok:
  assumes pack: "pack_ok pack" and inv: "world_ok pack st" and act: "known_actor pack act"
    and depth: "length (wp_consequences pack) < depth"
  shows "outcome no_exn (world_ok pack) (start_dialogue depth st act pack)"
proof -
  let ?aid = "action_actor st act"
  have aid: "dict_mem ?aid (wp_actors pack)"
    by (rule action_actor_known [OF pack typed_parts(6) [OF world_okD(1) [OF inv]] act])
  obtain a where a: "get_actor st ?aid = Inr a"
    using cast_find [OF typed_parts(1) [OF world_okD(1) [OF inv]] aid] by blast
  obtain found where found: "filterR (dialogue_candidate st pack a ?aid) (dict_values (wp_dialogues pack)) = Inr found"
    "set found \<subseteq> set (dict_values (wp_dialogues pack))"
    using outcome_no_exnD [OF outcome_filterR [of "dict_values (wp_dialogues pack)" _ "dialogue_candidate st pack a ?aid"]]
      dialogue_candidate_total [OF pack inv _ aid] by blast
  have "\<exists>n. dialogue_distance st a d = Inr n" if "d \<in> set found" for d
  proof -
    have "d \<in> set (dict_values (wp_dialogues pack))" using that found(2) by blast
    from dialogue_distance_total [OF inv pack_dialogue(2) [OF pack dialogue_values [OF pack this]]] show ?thesis by blast
  qed
  then obtain measured where m: "mapR (\<lambda>d. rbind (dialogue_distance st a d) (\<lambda>n. Inr (n, d))) found = Inr measured"
    "snd ` set measured \<subseteq> set found"
    using measured_dialogues [of found "dialogue_distance st a"] by blast
  define cands where "cands = (case ga_dialogue_id act of None \<Rightarrow> measured
      | Some did \<Rightarrow> filter (\<lambda>(n, d). dd_id d = did) measured)"
  have cands: "snd ` set cands \<subseteq> set (dict_values (wp_dialogues pack))"
    using m(2) found(2) by (auto simp: cands_def split: option.splits)
  show ?thesis
  proof (cases "cands = []")
    case True
    then show ?thesis
      using inv by (simp add: start_dialogue_def a found(1) m(1) cands_def [symmetric] Let_def)
  next
    case False
    define d where "d = snd (arg_min_list (\<lambda>(n, d). (n, dd_id d)) cands)"
    have "d \<in> set (dict_values (wp_dialogues pack))"
      using arg_min_list_in [OF False] cands unfolding d_def by blast
    note d_at = dialogue_values [OF pack this]
    note facts = pack_dialogue [OF pack d_at]
    obtain node where node: "dict_at (dd_nodes d) (dd_start_node_id d) = Inr node" "node_ok pack d node"
      by (rule dialogue_node [OF pack d_at facts(3)])
    let ?st1 = "st\<lparr>ws_dialogue := Some \<lparr>ds_dialogue_id = dd_id d, ds_node_id = dd_start_node_id d,
        ds_initiator_actor_id = ?aid, ds_partner_actor_id = dd_actor_id d\<rparr>, ws_last_message := dd_display_name d\<rparr>"
    have inv1: "world_ok pack ?st1"
      using d_at facts(3) aid
      by (intro world_dialogue_message [OF inv]) (simp add: dialogue_ok_def bad_dialogue_def)
    have es: "effects_ok pack (dnd_on_enter node)" using node(2) by (simp add: node_ok_def)
    have ev: "events_ok pack [domain_event_of ''dialogue_started'' ?aid (dd_id d)]" using aid by simp
    obtain st2 ev2 where e2: "apply_effects ?st1 (dnd_on_enter node) ?aid (dd_actor_id d)
        [domain_event_of ''dialogue_started'' ?aid (dd_id d)] pack = Inr (st2, ev2)" "planned_ok pack (st2, ev2)"
      using outcome_no_exnD [OF effects_world [OF pack inv1 ev es aid facts(2)]] by auto
    note inv2 = planned_okD [OF e2(2)]
    show ?thesis
      unfolding start_dialogue_def Let_def a rbind_Inr found(1) m(1) cands_def [symmetric] d_def [symmetric]
        node(1) e2(1) prod.case
      using False postprocess_narrative_ok [OF pack conjunct1 [OF inv2] conjunct2 [OF inv2] aid depth] by simp
  qed
qed

lemma world_scene_dismissed:
  assumes "world_ok pack st"
  shows "world_ok pack (st\<lparr>ws_active_scene_id := None, ws_recent_events := [], ws_last_message := []\<rparr>)"
  using assms by (simp add: world_ok_def world_typed_def absolute_minute_def time_ok_def scene_ok_def)

lemma handle_narrative_action_ok:
  assumes pack: "pack_ok pack" and inv: "world_ok pack st" and act: "known_actor pack act"
    and depth: "length (wp_consequences pack) < depth"
  shows "outcome no_exn (world_ok pack) (handle_narrative_action depth st act pack)"
  using inv world_scene_dismissed [OF inv] choose_dialogue_ok [OF pack inv depth]
    end_dialogue_ok [OF pack inv _ depth] start_dialogue_ok [OF pack inv act depth]
  by (simp add: handle_narrative_action_def split: option.split)

section \<open>A tick\<close>

lemma advance_clock_ok:
  assumes pack: "pack_ok pack" and inv: "world_typed pack st"
  shows "world_typed pack (advance_clock st pack)"
    "absolute_minute (advance_clock st pack) =
       absolute_minute st + (if ticks_per_minute (wp_clock pack) \<le> ws_minute_tick st + 1 then 1 else 0)"
    "ws_constructions (advance_clock st pack) = ws_constructions st"
    "ws_production_jobs (advance_clock st pack) = ws_production_jobs st"
    "ws_pending_consequences (advance_clock st pack) = ws_pending_consequences st"
  using inv typed_parts(7) [OF inv]
  by (simp_all add: world_typed_def advance_clock_def Let_def absolute_minute_def time_ok_def)

lemma same_minute:
  assumes "time_ok pack st" and "time_ok pack st'"
  shows "(ws_day st, ws_minute_of_day st) = (ws_day st', ws_minute_of_day st') \<longleftrightarrow>
    absolute_minute st = absolute_minute st'"
proof
  assume "absolute_minute st = absolute_minute st'"
  then have eq: "(ws_day st - ws_day st') * 1440 = ws_minute_of_day st' - ws_minute_of_day st"
    by (simp add: absolute_minute_def algebra_simps)
  have "ws_day st = ws_day st'"
  proof (rule linorder_cases [of "ws_day st" "ws_day st'"])
    assume "ws_day st < ws_day st'"
    then have "(ws_day st - ws_day st') * 1440 \<le> - 1440" by simp
    then show ?thesis using eq assms by (simp add: time_ok_def)
  next
    assume "ws_day st' < ws_day st"
    then have "1440 \<le> (ws_day st - ws_day st') * 1440" by simp
    then show ?thesis using eq assms by (simp add: time_ok_def)
  qed
  then show "(ws_day st, ws_minute_of_day st) = (ws_day st', ws_minute_of_day st')" using eq by simp
qed (simp add: absolute_minute_def)

lemma note_arrivals_ok:
  assumes inv: "world_ok pack before" and evs: "events_ok pack events"
    and "\<forall>a \<in> set as. dict_mem (as_actor_id a) (wp_actors pack)"
  shows "outcome no_exn (events_ok pack) (foldR (note_arrival before) events as)"
proof (rule outcome_foldR)
  fix evs a assume a: "a \<in> set as" and evs: "events_ok pack evs"
  have known: "dict_mem (as_actor_id a) (wp_actors pack)" using assms(3) a by blast
  then obtain b where "get_actor before (as_actor_id a) = Inr b"
    using cast_find [OF typed_parts(1) [OF world_okD(1) [OF inv]]] by blast
  then show "outcome no_exn (events_ok pack) (note_arrival before evs a)"
    using evs known by (simp add: note_arrival_def)
qed (rule evs)

lemma minute_event_ok [simp]: "events_ok pack [minute_changed_event]"
  by (simp add: events_ok_def bad_event_def minute_changed_event_def)

lemma clock_step_ok:
  assumes pack: "pack_ok pack" and inv: "world_ok pack st" and depth: "length (wp_consequences pack) < depth"
  shows "outcome no_exn (\<lambda>(w, events). world_ok pack w \<and> events_ok pack events)
    (let advanced = advance_clock st pack in
     if (ws_day st, ws_minute_of_day st) \<noteq> (ws_day advanced, ws_minute_of_day advanced)
     then rbind (advance_living_world depth advanced pack [minute_changed_event]) (\<lambda>w. Inr (w, ws_recent_events w))
     else Inr (advanced, []))"
proof -
  let ?a = "advance_clock st pack"
  note parts = world_okD [OF inv]
  note adv = advance_clock_ok [OF pack parts(1)]
  have later: "absolute_minute st \<le> absolute_minute ?a" by (simp add: adv(2))
  have "sites_behind (absolute_minute ?a) (ws_constructions ?a)"
    using parts(2) later unfolding adv(3) sites_behind_def sites_timed_def by fastforce
  from advance_living_world_ok [OF pack adv(1) minute_event_ok this depth]
  obtain w where w: "advance_living_world depth ?a pack [minute_changed_event] = Inr w" "world_ok pack w"
    using outcome_no_exnD by blast
  have "world_ok pack ?a" if "(ws_day st, ws_minute_of_day st) = (ws_day ?a, ws_minute_of_day ?a)"
    using that parts adv same_minute [OF typed_parts(7) [OF parts(1)] typed_parts(7) [OF adv(1)]]
    by (simp add: world_ok_def)
  then show ?thesis
    using w typed_parts(8) [OF world_okD(1) [OF w(2)]] by (simp add: Let_def)
qed

lemma tick_ok:
  assumes pack: "pack_ok pack" and inv: "world_ok pack st" and depth: "length (wp_consequences pack) < depth"
  shows "outcome no_exn (world_ok pack) (tick depth st pack)"
proof -
  let ?a = "advance_clock st pack"
  obtain w events where w: "(if (ws_day st, ws_minute_of_day st) \<noteq> (ws_day ?a, ws_minute_of_day ?a)
     then rbind (advance_living_world depth ?a pack [minute_changed_event]) (\<lambda>w. Inr (w, ws_recent_events w))
     else Inr (?a, [])) = Inr (w, events)" "world_ok pack w" "events_ok pack events"
    using outcome_no_exnD [OF clock_step_ok [OF assms]] by (auto simp: Let_def)
  note typed = world_okD(1) [OF w(2)]
  obtain planned where planned: "plan_schedules w pack = Inr planned" "walkers pack w planned"
    using outcome_no_exnD [OF plan_schedules_ok [OF pack typed_parts(1,2) [OF typed]]] by blast
  have inv1: "world_ok pack planned" using acted_world_ok [OF w(2) acted_walkers [OF typed planned(2)]] .
  note typed1 = world_okD(1) [OF inv1]
  obtain moved where moved: "advance_routes planned pack = Inr moved" "walkers pack planned moved"
    using outcome_no_exnD [OF advance_routes_ok [OF pack typed_parts(1,2) [OF typed1]]] by blast
  have inv2: "world_ok pack moved" using acted_world_ok [OF inv1 acted_walkers [OF typed1 moved(2)]] .
  have "\<forall>a \<in> set (ws_actors moved). dict_mem (as_actor_id a) (wp_actors pack)" using cast_mem(2) [OF inv2] by blast
  then obtain events' where e: "foldR (note_arrival st) events (ws_actors moved) = Inr events'" "events_ok pack events'"
    using outcome_no_exnD [OF note_arrivals_ok [OF inv w(3)]] by blast
  have source: "dict_mem (ws_active_actor_id st) (wp_actors pack)"
    by (rule playable_known [OF pack typed_parts(6) [OF world_okD(1) [OF inv]]])
  show ?thesis
    unfolding tick_def Let_def w(1) rbind_Inr prod.case planned(1) moved(1) e(1)
    by (rule postprocess_narrative_ok [OF pack world_events [OF inv2 e(2)] e(2) source depth])
qed

section \<open>The reducer\<close>

lemma then_postprocess_ok:
  assumes pack: "pack_ok pack" and source: "dict_mem source (wp_actors pack)"
    and depth: "length (wp_consequences pack) < depth" and r: "outcome no_exn (world_ok pack) r"
  shows "outcome no_exn (world_ok pack) (then_postprocess depth pack source r)"
proof -
  obtain st where st: "r = Inr st" "world_ok pack st" using outcome_no_exnD [OF r] by blast
  show ?thesis
    using postprocess_narrative_ok [OF pack st(2) typed_parts(8) [OF world_okD(1) [OF st(2)]] source depth]
    by (simp add: then_postprocess_def st(1))
qed

lemma acted_outcome:
  "world_ok pack st \<Longrightarrow> outcome no_exn (acted pack st) r \<Longrightarrow> outcome no_exn (world_ok pack) r"
  by (erule outcome_mono) (rule acted_world_ok)

lemma reduce_ok:
  assumes pack: "pack_ok pack" and inv0: "world_ok pack before" and act: "known_actor pack act"
    and depth: "length (wp_consequences pack) < depth"
  shows "outcome no_exn (world_ok pack) (reduce_world depth before act pack)"
proof -
  define st where "st = before\<lparr>ws_recent_events := []\<rparr>"
  have inv: "world_ok pack st" unfolding st_def by (rule world_events [OF inv0]) simp
  note typed = world_okD(1) [OF inv]
  have source: "dict_mem (action_actor st act) (wp_actors pack)"
    by (rule action_actor_known [OF pack typed_parts(6) [OF typed] act])
  note finish = then_postprocess_ok [OF pack source depth]
  have cleared: "world_ok pack (s\<lparr>ws_recent_events := []\<rparr>)" if "world_ok pack s" for s
    by (rule world_events [OF that]) simp
  have select: "world_ok pack (st\<lparr>ws_active_actor_id := aid, ws_recent_events := [], ws_last_message := []\<rparr>)"
    if "aid \<in> set (playable_actor_ids pack)" for aid
    using inv that by (simp add: world_ok_def world_typed_def absolute_minute_def time_ok_def)
  have nav: "outcome no_exn (world_ok pack) (rbind (navigate st act pack) (\<lambda>st'. Inr (st'\<lparr>ws_recent_events := []\<rparr>)))"
    using outcome_no_exnD [OF acted_outcome [OF inv navigate_ok [OF pack typed act]]] cleared by fastforce
  show ?thesis
    unfolding reduce_world_def Let_def st_def [symmetric] outcome_if
    using handle_narrative_action_ok [OF pack inv act depth] tick_ok [OF pack inv depth] nav cleared [OF inv]
      finish [OF acted_outcome [OF inv move_ok [OF pack typed act]]]
      finish [OF acted_outcome [OF inv interact_ok [OF pack typed act]]]
      finish [OF acted_outcome [OF inv use_ability_ok [OF pack typed act]]]
      finish [OF build_ok [OF pack inv act depth]]
      finish [OF start_production_ok [OF pack inv act depth]]
      finish [OF transfer_ok [OF pack inv act depth]] select
    by (auto simp del: outcome_rbind)
qed

section \<open>The initial state\<close>

lemma kv_valid_flat:
  assumes "kv_ok (flat_relationships rs)"
    and "\<forall>(t, dims) \<in> set rs. P t \<and> (\<forall>(d, v) \<in> set dims. Q d v)"
  shows "kv_valid (\<lambda>(t, d) v. P t \<and> Q d v) (flat_relationships rs)"
  using assms by (fastforce simp: kv_valid_def flat_relationships_def)

lemma initial_actor_ok:
  assumes pack: "pack_ok pack" and d: "map_of (wp_actors pack) k = Some d"
  shows "attrs_ok pack (initial_actor d)" "standing_ok pack [] (initial_actor d)"
    "actor_key (initial_actor d) = spawn_key d" "as_actor_id (initial_actor d) = k"
proof -
  note facts = pack_actor [OF pack d]
  note ok = facts(2) [unfolded actor_def_ok_def] and sorted = facts(3) [unfolded actor_tuples_sorted_def]
  have rel: "kv_valid (\<lambda>(t, dim) v. dict_mem t (wp_actors pack) \<and> (dim \<noteq> [] \<and> -100 \<le> v \<and> v \<le> 100))
      (flat_relationships (ad_relationships d))"
    using ok sorted by (intro kv_valid_flat) auto
  show "attrs_ok pack (initial_actor d)"
    using ok sorted rel d facts(1)
    by (simp add: attrs_ok_def initial_actor_def has_keys_def) (auto simp: kv_valid_def)
  show "standing_ok pack [] (initial_actor d)"
    using ok by (simp add: standing_ok_def initial_actor_def site_cells_def)
  show "actor_key (initial_actor d) = spawn_key d" "as_actor_id (initial_actor d) = k"
    using facts(1) by (simp_all add: actor_key_def spawn_key_def initial_actor_def)
qed

lemma initial_cast_ok:
  assumes pack: "pack_ok pack"
  shows "cast_ok pack [] (map initial_actor (dict_values (wp_actors pack)))"
proof -
  have keyed: "keyed_by ad_id (wp_actors pack)" using pack_ok_wf [OF pack] by (simp add: pack_wf_def)
  have at: "map_of (wp_actors pack) (ad_id d) = Some d" if "d \<in> set (dict_values (wp_actors pack))" for d
    by (rule keyed_by_mem [OF keyed that])
  have ids: "map as_actor_id (map initial_actor (dict_values (wp_actors pack))) = dict_keys (wp_actors pack)"
    using keyed_by_ids [OF keyed] by (simp add: comp_def initial_actor_def)
  have "map actor_key (map initial_actor (dict_values (wp_actors pack))) = map spawn_key (dict_values (wp_actors pack))"
    by (simp add: actor_key_def spawn_key_def initial_actor_def)
  then have keys: "distinct (map actor_key (map initial_actor (dict_values (wp_actors pack))))"
    using pack_actors [OF pack] by (simp only:)
  have "attrs_ok pack a \<and> standing_ok pack [] a"
    if "a \<in> set (map initial_actor (dict_values (wp_actors pack)))" for a
    using that initial_actor_ok(1,2) [OF pack at] by auto
  moreover have "distinct (dict_keys (wp_actors pack))" using keyed by (simp add: keyed_by_def)
  moreover have "as_actor_id ` set (map initial_actor (dict_values (wp_actors pack))) = set (dict_keys (wp_actors pack))"
    by (metis ids set_map)
  ultimately show ?thesis using ids keys unfolding cast_ok_def by metis
qed

lemma initial_stock_ok:
  assumes pack: "pack_ok pack"
  shows "stock_ok pack (map (\<lambda>d. \<lparr>ss_stockpile_id = sd_id d, ss_resources = sd_resources d\<rparr>)
    (dict_values (wp_stockpiles pack)))"
proof -
  have keyed: "keyed_by sd_id (wp_stockpiles pack)" using pack_ok_wf [OF pack] by (simp add: pack_wf_def)
  have "stockpile_ok pack \<lparr>ss_stockpile_id = sd_id d, ss_resources = sd_resources d\<rparr>"
    if d: "d \<in> set (dict_values (wp_stockpiles pack))" for d
    using pack_stockpile [OF pack keyed_by_mem [OF keyed d]] keyed_by_mem [OF keyed d]
    by (simp add: stockpile_ok_def kv_valid_def stockpile_total_def total_units_def)
  then show ?thesis
    using keyed_by_ids [OF keyed]
    by (simp add: stock_ok_def same_ids_def comp_def) (simp add: dict_values_def dict_keys_def)
qed

lemma bare_initial_state_ok:
  assumes pack: "pack_ok pack" and first: "first_actor \<in> set (playable_actor_ids pack)"
  shows "world_ok pack (bare_initial_state pack first_actor)"
proof -
  have quests: "quests_ok pack (map (\<lambda>qid. quest_progress qid ''inactive'' None) (sort (dict_keys (wp_quests pack))))"
    by (auto simp: quests_ok_def same_ids_def quest_ok_def quest_progress_def comp_def dict_keys_def
        dict_mem_iff [symmetric] dict_mem_iff_at)
  show ?thesis
    using initial_cast_ok [OF pack] initial_stock_ok [OF pack] quests first pack_clock [OF pack]
    by (simp add: world_ok_def world_typed_def bare_initial_state_def time_ok_def sites_timed_def jobs_timed_def
        pending_timed_def sites_ok_def jobs_ok_def pending_ok_def scene_ok_def scenes_ok_def)
qed

lemma initial_world_ok:
  assumes pack: "pack_ok pack" and "playable_actor_ids pack \<noteq> []" and depth: "length (wp_consequences pack) < depth"
  shows "outcome no_exn (world_ok pack) (initial_world_state depth pack)"
proof -
  obtain f rest where f: "playable_actor_ids pack = f # rest" using assms(2) by (meson neq_Nil_conv)
  then have "f \<in> set (playable_actor_ids pack)" by simp
  then have inv: "world_ok pack (bare_initial_state pack f)" and known: "dict_mem f (wp_actors pack)"
    using bare_initial_state_ok [OF pack] playable_known [OF pack] by simp_all
  have "ws_active_actor_id (bare_initial_state pack f) = f" by (simp add: bare_initial_state_def)
  then show ?thesis
    using postprocess_narrative_ok [OF pack inv _ known depth, of "[]"]
    by (simp add: initial_world_state_def f initialize_narrative_def)
qed

section \<open>Runs\<close>

definition reduce_step :: "nat \<Rightarrow> world_pack \<Rightarrow> world_state \<Rightarrow> game_action \<Rightarrow> world_state res" where
  "reduce_step depth pack st act = reduce_world depth st act pack"

definition depth_of :: "world_pack \<Rightarrow> nat" where
  "depth_of pack = Suc (length (wp_consequences pack))"

text \<open>
  The runs of a pack: any pack, any depth. Where the loader did not accept the pack, or the
  depth is too small, the invariant is false.
\<close>

definition running :: "nat \<Rightarrow> world_pack \<Rightarrow> world_state \<Rightarrow> bool" where
  "running depth pack st \<longleftrightarrow> pack_ok pack \<and> length (wp_consequences pack) < depth \<and> world_ok pack st"

interpretation reducer: transition_system "reduce_step depth pack" "running depth pack" "known_actor pack"
  for depth pack
proof
  fix st act assume "running depth pack st" and act: "known_actor pack act"
  then show "outcome no_exn (running depth pack) (reduce_step depth pack st act)"
    using reduce_ok [of pack st act depth]
    by (auto simp: running_def reduce_step_def elim: outcome_mono)
qed

lemma replay_from_run:
  "replay_from depth pack i st acts = Inr st' \<longleftrightarrow> foldR (reduce_step depth pack) st acts = Inr st'"
proof (induction acts arbitrary: i st)
  case (Cons act acts)
  then show ?case by (cases "reduce_world depth st act pack") (simp_all add: reduce_step_def)
qed simp

lemma replay_ok:
  assumes pack: "pack_ok pack" and playable: "playable_actor_ids pack \<noteq> []"
    and depth: "length (wp_consequences pack) < depth" and acts: "list_all (known_actor pack) acts"
  shows "outcome no_exn (world_ok pack) (replay_actions depth pack acts)"
proof -
  obtain st where st: "initial_world_state depth pack = Inr st" "world_ok pack st"
    using outcome_no_exnD [OF initial_world_ok [OF pack playable depth]] by blast
  then have "running depth pack st" using pack depth by (simp add: running_def)
  from reducer.run_total [OF this acts] obtain st'
    where "foldR (reduce_step depth pack) st acts = Inr st'" "running depth pack st'" by blast
  then show ?thesis by (simp add: replay_actions_def st(1) iffD2 [OF replay_from_run] running_def)
qed

section \<open>Simulations\<close>

definition replayable :: "nat \<Rightarrow> simulation \<Rightarrow> bool" where
  "replayable depth sim \<longleftrightarrow>
     running depth (sim_pack sim) (sim_state sim) \<and>
     replay_actions depth (sim_pack sim) (sim_action_log sim) = Inr (sim_state sim)"

lemma dispatch_replayable:
  assumes sim: "replayable depth sim" and act: "known_actor (sim_pack sim) act"
  shows "outcome no_exn (\<lambda>sim'. replayable depth sim' \<and> sim_pack sim' = sim_pack sim \<and>
    sim_action_log sim' = sim_action_log sim @ [act]) (dispatch depth sim act True)"
proof -
  let ?pack = "sim_pack sim"
  note run = sim [unfolded replayable_def]
  obtain st' where st': "reduce_step depth ?pack (sim_state sim) act = Inr st'" "running depth ?pack st'"
    using outcome_no_exnD [OF reducer.step_ok [OF conjunct1 [OF run] act]] by blast
  obtain st0 where st0: "initial_world_state depth ?pack = Inr st0"
    and log: "foldR (reduce_step depth ?pack) st0 (sim_action_log sim) = Inr (sim_state sim)"
    using conjunct2 [OF run] by (auto simp: replay_actions_def replay_from_run)
  have "foldR (reduce_step depth ?pack) st0 (sim_action_log sim @ [act]) = Inr st'"
    using log st'(1) by (simp add: foldR_append)
  then have "replay_actions depth ?pack (sim_action_log sim @ [act]) = Inr st'"
    by (simp add: replay_actions_def st0 replay_from_run)
  then show ?thesis using st' by (simp add: dispatch_def replayable_def reduce_step_def)
qed

definition dispatch_step :: "nat \<Rightarrow> simulation \<Rightarrow> game_action \<Rightarrow> simulation res" where
  "dispatch_step depth sim act = dispatch depth sim act True"

interpretation simulation: transition_system "dispatch_step depth"
    "\<lambda>sim. replayable depth sim \<and> sim_pack sim = pack" "known_actor pack"
  for depth pack
proof
  fix sim act assume "replayable depth sim \<and> sim_pack sim = pack" and "known_actor pack act"
  then show "outcome no_exn (\<lambda>sim. replayable depth sim \<and> sim_pack sim = pack) (dispatch_step depth sim act)"
    using dispatch_replayable [of depth sim act] by (auto simp: dispatch_step_def elim: outcome_mono)
qed

lemma new_simulation_replayable:
  assumes pack: "pack_ok pack" and playable: "playable_actor_ids pack \<noteq> []"
    and depth: "length (wp_consequences pack) < depth"
  shows "outcome no_exn (\<lambda>sim. replayable depth sim \<and> sim_pack sim = pack) (new_simulation depth pack None)"
proof -
  obtain st where st: "initial_world_state depth pack = Inr st" "world_ok pack st"
    using outcome_no_exnD [OF initial_world_ok [OF pack playable depth]] by blast
  then show ?thesis using pack depth by (simp add: new_simulation_def replayable_def running_def replay_actions_def)
qed

section \<open>The start of the village\<close>

definition village_start :: world_state where
  "village_start = bare_initial_state village ''ana''"

lemma village_start_ok: "world_ok village village_start"
  unfolding village_start_def by (rule bare_initial_state_ok [OF village_ok]) code_simp

lemmas village_start_typed = world_okD(1) [OF village_start_ok]

end
