(* ===== verification/PersistenceFacts.thy ===== *)
theory PersistenceFacts
  imports ReducerSafety
begin

text \<open>
  Decoding undoes encoding, on states whose key/value tuples are in key order and whose sets
  are finite (as Python's are).
\<close>

section \<open>Decoding undoes encoding\<close>

lemma iterated_array [simp]: "iterated (JArr xs) = Inr xs"
  by (simp add: iterated_def)

lemma mapR_inverse:
  "(\<And>x. x \<in> set xs \<Longrightarrow> f (g x) = Inr x) \<Longrightarrow> mapR f (map g xs) = Inr xs"
  by (induction xs) auto

lemma sort_key_sorted: "sorted (map f xs) \<Longrightarrow> sort_key f xs = xs"
  by (induction xs) (auto simp: insort_is_Cons)

lemma sorted_items_kv:
  assumes "kv_ok xs" and "\<And>v. read (w v) = Inr v"
  shows "sorted_items (JObj (dict_of (map (\<lambda>(k, v). (k, w v)) xs))) read = Inr xs"
proof -
  have fst_map: "map fst (map (\<lambda>(k, v). (k, w v)) xs) = dict_keys xs"
    by (simp add: dict_keys_def comp_def case_prod_unfold)
  then have "dict_of (map (\<lambda>(k, v). (k, w v)) xs) = map (\<lambda>(k, v). (k, w v)) xs"
    using assms(1) by (intro dict_of_id) (simp add: kv_ok_def del: map_map)
  moreover have "sort_key fst (map (\<lambda>(k, v). (k, w v)) xs) = map (\<lambda>(k, v). (k, w v)) xs"
    using assms(1) fst_map by (intro sort_key_sorted) (simp add: kv_ok_def del: map_map)
  ultimately show ?thesis
    using assms(2) by (simp add: sorted_items_def) (auto intro!: mapR_inverse)
qed

lemma int_items_kv: "kv_ok xs \<Longrightarrow> int_items (int_obj xs) context = Inr xs"
  by (simp add: int_items_def int_obj_def sorted_items_kv)

definition tuples_sorted :: "actor_state \<Rightarrow> bool" where
  "tuples_sorted a \<longleftrightarrow> kv_ok (as_resources a) \<and> kv_ok (as_cooldowns a) \<and> kv_ok (as_knowledge a) \<and>
     kv_ok (as_relationships a) \<and> kv_ok (as_faction_reputation a) \<and> kv_ok (as_needs a)"

lemma attrs_sorted: "attrs_ok pack a \<Longrightarrow> tuples_sorted a"
  by (auto simp: attrs_ok_def tuples_sorted_def kv_valid_def)

lemma decode_actor_json: "tuples_sorted a \<Longrightarrow> decode_actor (actor_to_json a) = Inr a"
proof -
  assume a: "tuples_sorted a"
  have k: "sorted_items (JObj (dict_of (map (\<lambda>(k, v). (k, JStr v)) (as_knowledge a)))) py_str = Inr (as_knowledge a)"
    using a by (intro sorted_items_kv) (simp_all add: tuples_sorted_def py_str_def)
  have r: "mapR decode_cell (map (\<lambda>(x, y). JArr [JInt x, JInt y]) (as_route a)) = Inr (as_route a)"
    by (rule mapR_inverse) (auto simp: decode_cell_def is_obj_def)
  have l: "mapR decode_relationship (map relationship_to_json (as_relationships a)) = Inr (as_relationships a)"
    by (rule mapR_inverse)
      (auto simp: decode_relationship_def relationship_to_json_def str_at_def int_at_def dict_at_def)
  show ?thesis
    using a by (simp add: decode_actor_def actor_to_json_def str_at_def int_at_def dict_at_def obj_get_or_def
        obj_get_def list_or_empty_def int_items_kv tuples_sorted_def k r l)
qed

lemma decode_dialogue_json: "decode_dialogue (dialogue_to_json v) = Inr v"
  by (cases v) (simp_all add: decode_dialogue_def dialogue_to_json_def str_at_def dict_at_def)

lemma decode_records:
  "decode_quest (quest_to_json q) = Inr q" "decode_event (event_to_json ev) = Inr ev"
  "decode_construction (construction_to_json c) = Inr c" "decode_job (job_to_json j) = Inr j"
  "decode_pending (pending_to_json p) = Inr p"
  "kv_ok (ss_resources s) \<Longrightarrow> decode_stockpile (stockpile_to_json s) = Inr s"
  by (simp_all add: decode_quest_def quest_to_json_def decode_event_def event_to_json_def
      decode_construction_def construction_to_json_def decode_job_def job_to_json_def
      decode_pending_def pending_to_json_def decode_stockpile_def stockpile_to_json_def
      str_at_def int_at_def dict_at_def obj_get_def obj_get_or_def quest_progress_def int_items_kv)

lemma decode_strings: "finite s \<Longrightarrow> \<exists>xs. mapR set_element (map JStr (sorted_list_of_set s)) = Inr xs \<and> set xs = s"
  by (rule exI [of _ "sorted_list_of_set s"]) (auto intro: mapR_inverse)

text \<open>Every key/value tuple is in key order without repetition; the code relies on it and does not check it.\<close>

definition tables_in_order :: "world_state \<Rightarrow> bool" where
  "tables_in_order st \<longleftrightarrow>
     (\<forall>a \<in> set (ws_actors st). tuples_sorted a) \<and> (\<forall>s \<in> set (ws_stockpiles st). kv_ok (ss_resources s))"

definition encodable :: "world_state \<Rightarrow> bool" where
  "encodable st \<longleftrightarrow>
     tables_in_order st \<and>
     finite (ws_flags st) \<and> finite (ws_completed_interactions st) \<and>
     finite (ws_triggered_scenes st) \<and> finite (ws_triggered_consequences st)"

lemma decode_state_json:
  assumes "encodable st"
  shows "decode_state (state_to_dict st) = Inr st"
proof -
  note enc = assms [unfolded encodable_def tables_in_order_def]
  have lists: "mapR decode_actor (map actor_to_json (ws_actors st)) = Inr (ws_actors st)"
    "mapR decode_stockpile (map stockpile_to_json (ws_stockpiles st)) = Inr (ws_stockpiles st)"
    "mapR decode_quest (map quest_to_json (ws_quests st)) = Inr (ws_quests st)"
    "mapR decode_event (map event_to_json (ws_recent_events st)) = Inr (ws_recent_events st)"
    "mapR decode_construction (map construction_to_json (ws_constructions st)) = Inr (ws_constructions st)"
    "mapR decode_job (map job_to_json (ws_production_jobs st)) = Inr (ws_production_jobs st)"
    "mapR decode_pending (map pending_to_json (ws_pending_consequences st)) = Inr (ws_pending_consequences st)"
    using enc by (auto intro!: mapR_inverse simp: decode_actor_json decode_records)
  obtain fs where fs: "mapR set_element (map JStr (sorted_list_of_set (ws_flags st))) = Inr fs" "set fs = ws_flags st"
    using decode_strings enc by blast
  obtain js where js: "mapR set_element (map JStr (sorted_list_of_set (ws_completed_interactions st))) = Inr js"
    "set js = ws_completed_interactions st" using decode_strings enc by blast
  obtain ss where ss: "mapR set_element (map JStr (sorted_list_of_set (ws_triggered_scenes st))) = Inr ss"
    "set ss = ws_triggered_scenes st" using decode_strings enc by blast
  obtain cs where cs: "mapR set_element (map JStr (sorted_list_of_set (ws_triggered_consequences st))) = Inr cs"
    "set cs = ws_triggered_consequences st" using decode_strings enc by blast
  show ?thesis
    by (simp add: decode_state_def state_to_dict_def str_at_def int_at_def dict_at_def obj_get_def obj_get_or_def
        decode_list_def list_or_empty_def sorted_strings_def lists decode_dialogue_json fs js ss cs py_str_def)
qed

end
