(* ===== verification/SaveFacts.thy ===== *)
theory SaveFacts
  imports PersistenceFacts
begin

text \<open>
  \<open>_validate_state\<close> against the invariant: it accepts exactly the states that satisfy the
  invariant and are \<open>save_ready\<close>, which asks in addition that no route crosses a blocking
  construction and that no actor has a need beyond its own. From it, what loading a save, and
  saving and loading again, give.
\<close>

section \<open>What a save accepts\<close>

lemma rbind_Inr_iff: "rbind m f = Inr t \<longleftrightarrow> (\<exists>x. m = Inr x \<and> f x = Inr t)"
  by (cases m) simp_all

lemma rbind_deny [simp]: "rbind (deny bad m) f = Inr t \<longleftrightarrow> \<not> bad \<and> f () = Inr t"
  by (simp add: deny_def raise_if_def)

lemma rbind_denyR [simp]: "rbind (denyR r m) f = Inr t \<longleftrightarrow> r = Inr False \<and> f () = Inr t"
  by (cases r) (auto simp: denyR_def)

lemma rbind_in_order: "rbind (in_order ms) f = Inr t \<longleftrightarrow> (\<forall>m \<in> set ms. m = Inr ()) \<and> f () = Inr t"
proof (cases "in_order ms")
  case (Inr u)
  have "u = ()" by simp
  then have "\<forall>m \<in> set ms. m = Inr ()" using Inr in_order_ok by blast
  then show ?thesis unfolding Inr rbind_Inr by simp
next
  case (Inl e)
  then have "in_order ms \<noteq> Inr ()" by simp
  then show ?thesis unfolding in_order_ok using Inl by simp
qed

lemma anyR_False: "anyR p xs = Inr False \<longleftrightarrow> (\<forall>x \<in> set xs. p x = Inr False)"
proof (induction xs)
  case (Cons x xs)
  then show ?case by (cases "p x") auto
qed simp

subsection \<open>Actors\<close>

definition known_sites :: "world_pack \<Rightarrow> construction_state list \<Rightarrow> bool" where
  "known_sites pack sites \<longleftrightarrow> (\<forall>c \<in> set sites. dict_mem (cs_blueprint_id c) (wp_constructions pack))"

lemma known_sites_blocked:
  "known_sites pack (ws_constructions st) \<Longrightarrow>
     dynamic_blocked_cells st pack mid = Inr (site_cells pack (ws_constructions st) mid True)"
  unfolding dynamic_blocked_cells_def construction_cells_def
  using construction_cells_foldR [OF _ refl, of "ws_constructions st" pack mid True "{}"]
  by (simp add: known_sites_def)

definition actor_ready :: "world_pack \<Rightarrow> construction_state list \<Rightarrow> actor_state \<Rightarrow> bool" where
  "actor_ready pack sites a \<longleftrightarrow>
     (\<forall>c \<in> set (as_route a). c \<notin> site_cells pack sites (as_map_id a) True) \<and>
     (\<forall>d. map_of (wp_actors pack) (as_actor_id a) = Some d \<longrightarrow> fst ` set (as_needs a) = fst ` set (ad_needs d))"

lemma bad_position_False:
  assumes "pack_ok pack" and "known_sites pack (ws_constructions st)"
  shows "bad_position st pack a = Inr False \<longleftrightarrow> standing_ok pack (ws_constructions st) a"
proof (cases "dict_mem (as_map_id a) (wp_maps pack)")
  case True
  obtain w where w: "pack_is_walkable pack (as_map_id a) (as_x a) (as_y a) = Inr w"
    using walkable_total [OF assms(1) True] by blast
  then show ?thesis
    using True by (simp add: bad_position_def standing_ok_def open_place_def known_sites_blocked [OF assms(2)])
qed (simp add: bad_position_def standing_ok_def open_place_def)

lemma bad_route_False:
  assumes "pack_ok pack" and "known_sites pack (ws_constructions st)" and "dict_mem (as_map_id a) (wp_maps pack)"
  shows "bad_route_cell st pack a c = Inr False \<longleftrightarrow>
    open_place pack (as_map_id a) (fst c) (snd c) \<and> c \<notin> site_cells pack (ws_constructions st) (as_map_id a) True"
proof -
  obtain w where "pack_is_walkable pack (as_map_id a) (fst c) (snd c) = Inr w"
    using walkable_total [OF assms(1,3)] by blast
  then show ?thesis
    using assms(3) by (simp add: bad_route_cell_def open_place_def known_sites_blocked [OF assms(2)])
qed

lemma kv_check:
  assumes "kv_ok xs" and "\<And>k v. bad (k, v) \<longleftrightarrow> \<not> P k v"
  shows "list_ex bad xs \<longleftrightarrow> \<not> kv_valid P xs"
  using assms by (fastforce simp: kv_valid_def list_ex_iff)

lemma attrs_checks:
  assumes "tuples_sorted a"
  shows
    "list_ex (\<lambda>(r, v). v < 0 \<or> \<not> resource_declared pack r) (as_resources a) \<longleftrightarrow>
       \<not> kv_valid (\<lambda>r v. 0 \<le> v \<and> resource_declared pack r) (as_resources a)"
    "list_ex (\<lambda>(i, v). \<not> dict_mem i (wp_abilities pack) \<or> v < 0) (as_cooldowns a) \<longleftrightarrow>
       \<not> kv_valid (\<lambda>i v. dict_mem i (wp_abilities pack) \<and> 0 \<le> v) (as_cooldowns a)"
    "list_ex (\<lambda>(f, s). \<not> dict_mem f (wp_facts pack) \<or> s \<notin> {''suspected'', ''known'', ''secret''} \<or>
         f \<in> set (ad_forbidden_fact_ids d)) (as_knowledge a) \<longleftrightarrow>
       \<not> kv_valid (\<lambda>f s. dict_mem f (wp_facts pack) \<and> s \<in> {''suspected'', ''known'', ''secret''} \<and>
         f \<notin> set (ad_forbidden_fact_ids d)) (as_knowledge a)"
    "list_ex (\<lambda>((t, dim), v). \<not> dict_mem t (wp_actors pack) \<or> dim = [] \<or> \<not> (-100 \<le> v \<and> v \<le> 100))
         (as_relationships a) \<longleftrightarrow>
       \<not> kv_valid (\<lambda>(t, dim) v. dict_mem t (wp_actors pack) \<and> dim \<noteq> [] \<and> -100 \<le> v \<and> v \<le> 100)
         (as_relationships a)"
    "list_ex (\<lambda>(f, v). \<not> dict_mem f (wp_factions pack) \<or> \<not> (-100 \<le> v \<and> v \<le> 100))
         (as_faction_reputation a) \<longleftrightarrow>
       \<not> kv_valid (\<lambda>f v. dict_mem f (wp_factions pack) \<and> -100 \<le> v \<and> v \<le> 100)
         (as_faction_reputation a)"
    "list_ex (\<lambda>(n, v). \<not> dict_mem n (wp_needs pack) \<or> \<not> (0 \<le> v \<and> v \<le> 100)) (as_needs a) \<longleftrightarrow>
       \<not> kv_valid (\<lambda>n v. dict_mem n (wp_needs pack) \<and> 0 \<le> v \<and> v \<le> 100) (as_needs a)"
  using assms unfolding tuples_sorted_def by (auto intro!: kv_check)

lemma route_checks:
  assumes "pack_ok pack" and "known_sites pack (ws_constructions st)" and "dict_mem (as_map_id a) (wp_maps pack)"
  shows "anyR (bad_route_cell st pack a) (as_route a) = Inr False \<longleftrightarrow>
    (\<forall>(x, y) \<in> set (as_route a). open_place pack (as_map_id a) x y) \<and>
    (\<forall>c \<in> set (as_route a). c \<notin> site_cells pack (ws_constructions st) (as_map_id a) True)"
  unfolding anyR_False bad_route_False [OF assms] case_prod_unfold by blast

lemma validate_actor_state_iff:
  assumes pack: "pack_ok pack" and sites: "known_sites pack (ws_constructions st)"
    and d: "map_of (wp_actors pack) (as_actor_id a) = Some d" and sorted: "tuples_sorted a"
  shows "validate_actor_state st pack taken a = Inr t \<longleftrightarrow>
    t = insert (actor_key a) taken \<and> actor_key a \<notin> taken \<and> attrs_ok pack a \<and>
    standing_ok pack (ws_constructions st) a \<and> actor_ready pack (ws_constructions st) a"
proof (cases "standing_ok pack (ws_constructions st) a")
  case True
  then have m: "dict_mem (as_map_id a) (wp_maps pack)" by (simp add: standing_ok_def open_place_def)
  have attrs: "attrs_ok pack a \<and> actor_ready pack (ws_constructions st) a \<longleftrightarrow>
     kv_valid (\<lambda>r v. 0 \<le> v \<and> resource_declared pack r) (as_resources a) \<and>
     kv_valid (\<lambda>i v. dict_mem i (wp_abilities pack) \<and> 0 \<le> v) (as_cooldowns a) \<and>
     anyR (bad_route_cell st pack a) (as_route a) = Inr False \<and>
     kv_valid (\<lambda>f s. dict_mem f (wp_facts pack) \<and> s \<in> {''suspected'', ''known'', ''secret''} \<and>
         f \<notin> set (ad_forbidden_fact_ids d)) (as_knowledge a) \<and>
     kv_valid (\<lambda>(t, dim) v. dict_mem t (wp_actors pack) \<and> dim \<noteq> [] \<and> -100 \<le> v \<and> v \<le> 100)
         (as_relationships a) \<and>
     kv_valid (\<lambda>f v. dict_mem f (wp_factions pack) \<and> -100 \<le> v \<and> v \<le> 100) (as_faction_reputation a) \<and>
     kv_valid (\<lambda>n v. dict_mem n (wp_needs pack) \<and> 0 \<le> v \<and> v \<le> 100) (as_needs a) \<and>
     fst ` set (as_needs a) = fst ` set (ad_needs d) \<and>
     (as_active_goal_id a = None \<or> opt_in (as_active_goal_id a) (wp_goals pack))"
    unfolding attrs_ok_def actor_ready_def route_checks [OF pack sites m] d option.inject simp_thms has_keys_def
      set_eq_subset [of "fst ` set (as_needs a)"] by argo
  have "validate_actor_state st pack taken a = Inr t \<longleftrightarrow>
    t = insert (actor_key a) taken \<and> actor_key a \<notin> taken \<and>
     kv_valid (\<lambda>r v. 0 \<le> v \<and> resource_declared pack r) (as_resources a) \<and>
     kv_valid (\<lambda>i v. dict_mem i (wp_abilities pack) \<and> 0 \<le> v) (as_cooldowns a) \<and>
     anyR (bad_route_cell st pack a) (as_route a) = Inr False \<and>
     kv_valid (\<lambda>f s. dict_mem f (wp_facts pack) \<and> s \<in> {''suspected'', ''known'', ''secret''} \<and>
         f \<notin> set (ad_forbidden_fact_ids d)) (as_knowledge a) \<and>
     kv_valid (\<lambda>(t, dim) v. dict_mem t (wp_actors pack) \<and> dim \<noteq> [] \<and> -100 \<le> v \<and> v \<le> 100)
         (as_relationships a) \<and>
     kv_valid (\<lambda>f v. dict_mem f (wp_factions pack) \<and> -100 \<le> v \<and> v \<le> 100) (as_faction_reputation a) \<and>
     kv_valid (\<lambda>n v. dict_mem n (wp_needs pack) \<and> 0 \<le> v \<and> v \<le> 100) (as_needs a) \<and>
     fst ` set (as_needs a) = fst ` set (ad_needs d) \<and>
     (as_active_goal_id a = None \<or> opt_in (as_active_goal_id a) (wp_goals pack))"
    by (simp only: validate_actor_state_def Let_def rbind_denyR rbind_deny bad_position_False [OF pack sites]
        dict_at_def d of_option_def option.case rbind_Inr rbind_in_order attrs_checks [OF sorted] True list.set
        ball_simps deny_ok actor_key_def sum.inject simp_thms eq_commute [of "insert _ _" t]; argo)
  then show ?thesis using attrs True by blast
next
  case False
  then show ?thesis by (simp add: validate_actor_state_def Let_def bad_position_False [OF pack sites])
qed

lemma validate_actors_iff:
  assumes pack: "pack_ok pack" and sites: "known_sites pack (ws_constructions st)"
    and "\<forall>a \<in> set as. dict_mem (as_actor_id a) (wp_actors pack) \<and> tuples_sorted a"
  shows "(\<exists>t. foldR (validate_actor_state st pack) taken as = Inr t) \<longleftrightarrow>
    distinct (map actor_key as) \<and> actor_key ` set as \<inter> taken = {} \<and>
    (\<forall>a \<in> set as. attrs_ok pack a \<and> standing_ok pack (ws_constructions st) a \<and> actor_ready pack (ws_constructions st) a)"
  using assms(3)
proof (induction as arbitrary: taken)
  case (Cons a as)
  obtain d where d: "map_of (wp_actors pack) (as_actor_id a) = Some d" using Cons.prems by (auto simp: dict_mem_def)
  have one: "validate_actor_state st pack taken a = Inr t \<longleftrightarrow>
      t = insert (actor_key a) taken \<and> actor_key a \<notin> taken \<and> attrs_ok pack a \<and>
      standing_ok pack (ws_constructions st) a \<and> actor_ready pack (ws_constructions st) a" for t
    using Cons.prems by (intro validate_actor_state_iff [OF pack sites d]) simp
  have rest: "(\<exists>t. foldR (validate_actor_state st pack) (insert (actor_key a) taken) as = Inr t) \<longleftrightarrow>
      distinct (map actor_key as) \<and> actor_key ` set as \<inter> insert (actor_key a) taken = {} \<and>
      (\<forall>a \<in> set as. attrs_ok pack a \<and> standing_ok pack (ws_constructions st) a \<and> actor_ready pack (ws_constructions st) a)"
    using Cons.prems by (intro Cons.IH) simp
  have "(\<exists>t. foldR (validate_actor_state st pack) taken (a # as) = Inr t) \<longleftrightarrow>
      (\<exists>u. validate_actor_state st pack taken a = Inr u \<and> (\<exists>t. foldR (validate_actor_state st pack) u as = Inr t))"
    by auto
  then show ?case unfolding one using rest by auto
qed simp

subsection \<open>Construction sites\<close>

definition cell_keys :: "construction_state \<Rightarrow> cell list \<Rightarrow> (string \<times> int \<times> int) set" where
  "cell_keys c offsets = Pair (cs_map_id c) ` footprint_cells (cs_x c) (cs_y c) offsets"

lemma cell_keys_simps [simp]:
  "cell_keys c [] = {}"
  "cell_keys c ((dx, dy) # offsets) = insert (cs_map_id c, cs_x c + dx, cs_y c + dy) (cell_keys c offsets)"
  by (simp_all add: cell_keys_def footprint_cells_def)

lemma in_cell_keys:
  "(m, x, y) \<in> cell_keys c offsets \<longleftrightarrow> m = cs_map_id c \<and> (x - cs_x c, y - cs_y c) \<in> set offsets"
  by (force simp: cell_keys_def footprint_cells_def image_iff)

lemma claim_cell_iff:
  assumes "pack_ok pack" and "dict_mem (cs_map_id c) (wp_maps pack)"
  shows "claim_cell pack c taken (dx, dy) = Inr t \<longleftrightarrow>
    t = insert (cs_map_id c, cs_x c + dx, cs_y c + dy) taken \<and>
    (cs_map_id c, cs_x c + dx, cs_y c + dy) \<notin> taken \<and>
    pack_is_walkable pack (cs_map_id c) (cs_x c + dx) (cs_y c + dy) = Inr True"
proof -
  obtain w where "pack_is_walkable pack (cs_map_id c) (cs_x c + dx) (cs_y c + dy) = Inr w"
    using walkable_total [OF assms] by blast
  then show ?thesis by (cases w) (auto simp: claim_cell_def Let_def)
qed

lemma claim_cells_iff:
  assumes "pack_ok pack" and "dict_mem (cs_map_id c) (wp_maps pack)" and "distinct offsets"
  shows "foldR (claim_cell pack c) taken offsets = Inr t \<longleftrightarrow>
    t = cell_keys c offsets \<union> taken \<and> cell_keys c offsets \<inter> taken = {} \<and>
    (\<forall>(x, y) \<in> footprint_cells (cs_x c) (cs_y c) offsets. pack_is_walkable pack (cs_map_id c) x y = Inr True)"
  using assms(3)
proof (induction offsets arbitrary: taken)
  case Nil
  then show ?case by (auto simp: footprint_cells_def)
next
  case (Cons d offsets)
  obtain dx dy where d: "d = (dx, dy)" by (cases d)
  let ?k = "(cs_map_id c, cs_x c + dx, cs_y c + dy)"
  have fresh: "?k \<notin> cell_keys c offsets" using Cons.prems d by (auto simp: in_cell_keys)
  have cells: "footprint_cells (cs_x c) (cs_y c) (d # offsets) =
      insert (cs_x c + dx, cs_y c + dy) (footprint_cells (cs_x c) (cs_y c) offsets)"
    by (simp add: footprint_cells_def d)
  have "foldR (claim_cell pack c) taken (d # offsets) = Inr t \<longleftrightarrow>
      ?k \<notin> taken \<and> pack_is_walkable pack (cs_map_id c) (cs_x c + dx) (cs_y c + dy) = Inr True \<and>
      foldR (claim_cell pack c) (insert ?k taken) offsets = Inr t"
    by (simp add: d rbind_Inr_iff claim_cell_iff [OF assms(1,2)])
  also have "foldR (claim_cell pack c) (insert ?k taken) offsets = Inr t \<longleftrightarrow>
      t = cell_keys c offsets \<union> insert ?k taken \<and> cell_keys c offsets \<inter> insert ?k taken = {} \<and>
      (\<forall>(x, y) \<in> footprint_cells (cs_x c) (cs_y c) offsets. pack_is_walkable pack (cs_map_id c) x y = Inr True)"
    using Cons.prems by (intro Cons.IH) simp
  finally show ?case unfolding cells using fresh by (auto simp: d)
qed

definition site_timed :: "int \<Rightarrow> construction_state \<Rightarrow> bool" where
  "site_timed now c \<longleftrightarrow>
     (if cs_status c = ''building'' then now < cs_complete_at_minute c else cs_complete_at_minute c \<le> now)"

lemma sites_timed_each: "sites_timed now sites \<longleftrightarrow> (\<forall>c \<in> set sites. site_timed now c)"
  by (simp add: sites_timed_def site_timed_def)

definition site_keys :: "world_pack \<Rightarrow> construction_state \<Rightarrow> (string \<times> int \<times> int) set" where
  "site_keys pack c = Pair (cs_map_id c) ` cells_of pack c"

lemma validate_site_iff:
  assumes pack: "pack_ok pack"
  shows "validate_site st pack taken c = Inr t \<longleftrightarrow>
    t = site_keys pack c \<union> taken \<and> site_keys pack c \<inter> taken = {} \<and>
    site_ok pack c \<and> site_timed (absolute_minute st) c"
proof (cases "dict_mem (cs_blueprint_id c) (wp_constructions pack) \<and> dict_mem (cs_map_id c) (wp_maps pack)")
  case True
  then obtain b where b: "map_of (wp_constructions pack) (cs_blueprint_id c) = Some b" by (auto simp: dict_mem_def)
  have cells: "cells_of pack c = footprint_cells (cs_x c) (cs_y c) (cd_footprint b)"
    by (simp add: cells_of_def b)
  have keys: "site_keys pack c = cell_keys c (cd_footprint b)"
    by (simp add: site_keys_def cell_keys_def cells)
  have timing: "\<not> (cs_status c = ''building'' \<and> cs_complete_at_minute c \<le> now \<or>
      cs_status c = ''completed'' \<and> now < cs_complete_at_minute c) \<longleftrightarrow> site_timed now c"
    if "cs_status c \<in> {''building'', ''completed''}" for now
    using that by (auto simp: site_timed_def)
  note claim = claim_cells_iff [OF pack conjunct2 [OF True] pack_construction(2) [OF pack b]]
  show ?thesis
    unfolding keys site_ok_def cells
    using True timing by (auto simp: validate_site_def Let_def dict_at_def b claim rbind_in_order)
next
  case False
  then show ?thesis by (auto simp: validate_site_def Let_def site_ok_def rbind_in_order)
qed

fun disjoint_in_turn :: "'a set list \<Rightarrow> bool" where
  "disjoint_in_turn [] = True"
| "disjoint_in_turn (s # ss) \<longleftrightarrow> (\<forall>u \<in> set ss. s \<inter> u = {}) \<and> disjoint_in_turn ss"

lemma validate_sites_fold:
  assumes pack: "pack_ok pack"
  shows "(\<exists>t. foldR (validate_site st pack) taken sites = Inr t) \<longleftrightarrow>
    (\<forall>c \<in> set sites. site_ok pack c \<and> site_timed (absolute_minute st) c \<and> site_keys pack c \<inter> taken = {}) \<and>
    disjoint_in_turn (map (site_keys pack) sites)"
proof (induction sites arbitrary: taken)
  case (Cons c sites)
  have "(\<exists>t. foldR (validate_site st pack) taken (c # sites) = Inr t) \<longleftrightarrow>
      (\<exists>u. validate_site st pack taken c = Inr u \<and> (\<exists>t. foldR (validate_site st pack) u sites = Inr t))"
    by auto
  then show ?case unfolding validate_site_iff [OF pack] using Cons.IH [of "site_keys pack c \<union> taken"] by auto
qed simp

lemma disjoint_in_turn_iff:
  assumes "distinct (map f xs)"
  shows "disjoint_in_turn (map g xs) \<longleftrightarrow> (\<forall>c \<in> set xs. \<forall>d \<in> set xs. f c \<noteq> f d \<longrightarrow> g c \<inter> g d = {})"
  using assms
proof (induction xs)
  case (Cons c xs)
  have "\<And>d. d \<in> set xs \<Longrightarrow> f c \<noteq> f d" using Cons.prems by auto
  then show ?case using Cons by (simp add: Int_commute) blast
qed simp

lemma validate_sites_iff:
  assumes pack: "pack_ok pack" and ids: "distinct (map cs_instance_id sites)"
  shows "(\<exists>t. foldR (validate_site st pack) {} sites = Inr t) \<longleftrightarrow>
    sites_ok pack sites \<and> sites_timed (absolute_minute st) sites"
proof -
  have "site_keys pack c \<inter> site_keys pack d = {} \<longleftrightarrow>
      (cs_map_id c = cs_map_id d \<longrightarrow> cells_of pack c \<inter> cells_of pack d = {})" for c d
    by (auto simp: site_keys_def)
  then show ?thesis
    using ids by (auto simp: validate_sites_fold [OF pack] disjoint_in_turn_iff [OF ids] sites_ok_def sites_timed_each)
qed

subsection \<open>The other parts\<close>

lemma card_distinct_map: "card (f ` set xs) = length xs \<longleftrightarrow> distinct (map f xs)"
  by (metis card_distinct distinct_card length_map set_map)

lemma validate_header_iff:
  "validate_header st pack = Inr () \<longleftrightarrow>
     as_actor_id ` set (ws_actors st) = set (dict_keys (wp_actors pack)) \<and>
     distinct (map as_actor_id (ws_actors st)) \<and>
     ws_active_actor_id st \<in> set (playable_actor_ids pack) \<and> time_ok pack st"
  unfolding validate_header_def Let_def in_order_ok list.set ball_simps simp_thms deny_ok set_map
    card_distinct_map time_ok_def by auto

lemma validate_quest_iff: "validate_quest_state pack q = Inr () \<longleftrightarrow> quest_ok pack q"
proof (cases "map_of (wp_quests pack) (qs_quest_id q)")
  case (Some d)
  then show ?thesis
    by (cases "qs_stage_id q") (auto simp: validate_quest_state_def quest_ok_def dict_at_def Let_def opt_in_def)
qed (simp add: validate_quest_state_def quest_ok_def dict_at_def)

lemma validate_story_iff:
  "validate_story st pack = Inr () \<longleftrightarrow>
     ws_completed_interactions st \<subseteq> set (dict_keys (wp_interactions pack)) \<and>
     quests_ok pack (ws_quests st) \<and> dialogue_ok pack (ws_dialogue st) \<and>
     scene_ok pack (ws_active_scene_id st) \<and> scenes_ok pack (ws_triggered_scenes st) \<and>
     events_ok pack (ws_recent_events st)"
  by (cases "ws_dialogue st")
    (auto simp: validate_story_def each_ok validate_quest_iff quests_ok_def dialogue_ok_def scene_ok_def
      scenes_ok_def events_ok_def list_ex_iff)

lemma validate_stock_iff:
  assumes "kv_ok (ss_resources s)"
  shows "validate_stock_state pack s = Inr () \<longleftrightarrow> stockpile_ok pack s"
proof (cases "map_of (wp_stockpiles pack) (ss_stockpile_id s)")
  case (Some d)
  have "list_ex (\<lambda>(r, v). \<not> dict_mem r (wp_resources pack) \<or> v < 0) (ss_resources s) \<longleftrightarrow>
      \<not> kv_valid (\<lambda>r v. dict_mem r (wp_resources pack) \<and> 0 \<le> v) (ss_resources s)"
    by (rule kv_check [OF assms]) auto
  then show ?thesis using Some by (auto simp: validate_stock_state_def stockpile_ok_def dict_at_def)
qed (simp add: validate_stock_state_def stockpile_ok_def dict_at_def)

lemma site_by_id:
  assumes "distinct (map cs_instance_id sites)" and "c \<in> set sites"
  shows "dict_at (dict_of (map (\<lambda>c. (cs_instance_id c, c)) sites)) (cs_instance_id c) = Inr c"
proof -
  have "dict_of (map (\<lambda>c. (cs_instance_id c, c)) sites) = map (\<lambda>c. (cs_instance_id c, c)) sites"
    using assms(1) by (intro dict_of_id) (simp add: comp_def)
  then show ?thesis using assms by (auto simp: dict_at_def comp_def intro!: map_of_is_SomeI)
qed

lemma validate_jobs_iff:
  assumes ids: "distinct (map cs_instance_id (ws_constructions st))"
  shows "\<not> list_ex (bad_job st pack) jobs \<and> anyR (wrong_site st pack) jobs = Inr False \<longleftrightarrow>
    (\<forall>j \<in> set jobs. job_ok pack (ws_constructions st) j) \<and> jobs_timed (absolute_minute st) jobs"
proof -
  have "\<not> bad_job st pack j \<and> wrong_site st pack j = Inr False \<longleftrightarrow>
      job_ok pack (ws_constructions st) j \<and> absolute_minute st < pj_complete_at_minute j" for j
  proof (cases "pj_construction_instance_id j \<in> cs_instance_id ` set (ws_constructions st)")
    case True
    then obtain c where c: "c \<in> set (ws_constructions st)" "cs_instance_id c = pj_construction_instance_id j" by auto
    have one: "c' = c" if "c' \<in> set (ws_constructions st)" "cs_instance_id c' = pj_construction_instance_id j" for c'
      using ids c that by (auto simp: distinct_map inj_on_def)
    show ?thesis
    proof (cases "map_of (wp_production_recipes pack) (pj_recipe_id j)")
      case (Some r)
      have "wrong_site st pack j = Inr False \<longleftrightarrow> prd_required_construction_id r = cs_blueprint_id c"
        using site_by_id [OF ids c(1)] c(2) Some by (simp add: wrong_site_def dict_at_def)
      moreover have "job_ok pack (ws_constructions st) j \<longleftrightarrow>
          dict_mem (pj_actor_id j) (wp_actors pack) \<and> prd_required_construction_id r = cs_blueprint_id c"
        unfolding job_ok_def Some option.inject using c one by metis
      moreover have "dict_mem (pj_recipe_id j) (wp_production_recipes pack)" using Some by (simp add: dict_mem_def)
      ultimately show ?thesis using True unfolding bad_job_def not_le [symmetric] by blast
    qed (auto simp: bad_job_def job_ok_def dict_mem_def)
  qed (force simp: bad_job_def job_ok_def)
  then show ?thesis unfolding list_ex_iff anyR_False jobs_timed_def by blast
qed

lemma validate_pending_iff:
  "\<not> list_ex (bad_pending st pack) ps \<and> distinct (map pc_consequence_id ps) \<longleftrightarrow>
     pending_ok pack ps \<and> pending_timed (absolute_minute st) ps"
  by (auto simp: list_ex_iff bad_pending_def pending_ok_def pending_timed_def)

lemma rbind_unit: "rbind m (\<lambda>_. Inr ()) = Inr () \<longleftrightarrow> (\<exists>t. m = Inr t)"
  by (simp add: rbind_Inr_iff)

lemma validate_economy_iff:
  assumes pack: "pack_ok pack" and "\<forall>s \<in> set (ws_stockpiles st). kv_ok (ss_resources s)"
  shows "validate_economy st pack = Inr () \<longleftrightarrow>
    stock_ok pack (ws_stockpiles st) \<and> sites_ok pack (ws_constructions st) \<and>
    sites_timed (absolute_minute st) (ws_constructions st) \<and>
    jobs_ok pack (ws_constructions st) (ws_production_jobs st) \<and>
    jobs_timed (absolute_minute st) (ws_production_jobs st) \<and>
    pending_ok pack (ws_pending_consequences st) \<and>
    pending_timed (absolute_minute st) (ws_pending_consequences st) \<and>
    ws_triggered_consequences st \<subseteq> set (dict_keys (wp_consequences pack))"
proof (cases "distinct (map cs_instance_id (ws_constructions st))")
  case True
  have stock: "each (validate_stock_state pack) (ws_stockpiles st) = Inr () \<longleftrightarrow>
      (\<forall>s \<in> set (ws_stockpiles st). stockpile_ok pack s)"
    using assms(2) by (auto simp: each_ok validate_stock_iff)
  show ?thesis
    unfolding validate_economy_def in_order_ok list.set ball_simps simp_thms deny_ok denyR_ok stock rbind_unit
      validate_sites_iff [OF pack True] card_distinct_map not_not stock_ok_def jobs_ok_def
    using True validate_jobs_iff [OF True, of pack "ws_production_jobs st"]
      validate_pending_iff [of st pack "ws_pending_consequences st"] by argo
next
  case False
  then show ?thesis by (simp add: validate_economy_def sites_ok_def card_distinct_map)
qed

definition save_ready :: "world_pack \<Rightarrow> world_state \<Rightarrow> bool" where
  "save_ready pack st \<longleftrightarrow> (\<forall>a \<in> set (ws_actors st). actor_ready pack (ws_constructions st) a)"

theorem validate_state_accepts:
  assumes pack: "pack_ok pack" and enc: "tables_in_order st"
  shows "validate_state st pack = Inr () \<longleftrightarrow> world_ok pack st \<and> save_ready pack st"
proof (cases "known_sites pack (ws_constructions st) \<and>
    as_actor_id ` set (ws_actors st) = set (dict_keys (wp_actors pack))")
  case True
  have actors: "(\<exists>t. foldR (validate_actor_state st pack) {} (ws_actors st) = Inr t) \<longleftrightarrow>
      distinct (map actor_key (ws_actors st)) \<and>
      (\<forall>a \<in> set (ws_actors st). attrs_ok pack a \<and> standing_ok pack (ws_constructions st) a \<and>
         actor_ready pack (ws_constructions st) a)"
    using validate_actors_iff [OF pack, of st "ws_actors st" "{}"] True enc
    by (auto simp: tables_in_order_def dict_mem_keys)
  show ?thesis
    unfolding validate_state_def in_order_ok list.set ball_simps simp_thms rbind_unit actors validate_header_iff
      validate_story_iff world_ok_def world_typed_def cast_ok_def save_ready_def
      validate_economy_iff [OF pack, of st]
    using enc validate_economy_iff [OF pack, of st] by (auto simp: tables_in_order_def)
next
  case False
  have econ: "validate_economy st pack = Inr () \<Longrightarrow> known_sites pack (ws_constructions st)"
    using validate_economy_iff [OF pack, of st] enc by (auto simp: tables_in_order_def sites_ok_def site_ok_def known_sites_def)
  have "validate_state st pack \<noteq> Inr ()"
    using False econ by (auto simp: validate_state_def validate_header_iff)
  moreover have "\<not> world_ok pack st"
    using False by (auto simp: world_ok_def world_typed_def cast_ok_def sites_ok_def site_ok_def known_sites_def)
  ultimately show ?thesis by blast
qed

section \<open>Loading\<close>

fun wf_json :: "json \<Rightarrow> bool" where
  "wf_json (JArr xs) = list_all wf_json xs"
| "wf_json (JObj kvs) = (distinct (map fst kvs) \<and> list_all (\<lambda>(k, v). wf_json v) kvs)"
| "wf_json _ = True"

lemma wf_obj_get_or: "wf_json (JObj ob) \<Longrightarrow> wf_json d \<Longrightarrow> wf_json (obj_get_or ob k d)"
  by (auto simp: obj_get_or_def list_all_iff split: option.split dest!: map_of_SomeD)

lemma wf_as_obj: "wf_json j \<Longrightarrow> as_obj j = Inr ob \<Longrightarrow> wf_json (JObj ob)"
  by (cases j) (simp_all add: as_obj_def)

lemma wf_iterated: "wf_json j \<Longrightarrow> iterated j = Inr xs \<Longrightarrow> list_all wf_json xs"
  by (cases j) (auto simp: iterated_def list_all_iff)

lemma mapR_fst:
  "mapR (\<lambda>(k, v). rbind (read v) (\<lambda>x. Inr (k, x))) ob = Inr xs \<Longrightarrow> map fst xs = map fst ob"
  by (induction ob arbitrary: xs) auto

lemma sorted_items_ok:
  assumes "wf_json j" and "sorted_items j read = Inr xs"
  shows "kv_ok xs"
proof -
  obtain ob where ob: "j = JObj ob" and m: "mapR (\<lambda>(k, v). rbind (read v) (\<lambda>x. Inr (k, x))) (sort_key fst ob) = Inr xs"
    using assms(2) by (cases j) (auto simp: sorted_items_def items_of_def)
  have "map fst xs = map fst (sort_key fst ob)" by (rule mapR_fst [OF m])
  moreover have "distinct (map fst (sort_key fst ob))"
    using assms(1) ob by (simp add: distinct_map inj_on_def)
  ultimately show ?thesis by (simp add: kv_ok_def dict_keys_def)
qed

lemma decode_actor_sorted:
  assumes "wf_json j" and "decode_actor j = Inr a" and "kv_ok (as_relationships a)"
  shows "tuples_sorted a"
proof -
  obtain ob where ob: "as_obj j = Inr ob" using assms(2) by (auto simp: decode_actor_def)
  have wf: "wf_json (obj_get_or ob k (JObj []))" for k
    using wf_obj_get_or [OF wf_as_obj [OF assms(1) ob]] by simp
  show ?thesis
    using assms(2,3) ob
    by (auto simp: decode_actor_def tuples_sorted_def int_items_def intro: sorted_items_ok [OF wf])
qed

lemma mapR_set: "mapR f xs = Inr ys \<Longrightarrow> y \<in> set ys \<Longrightarrow> \<exists>x \<in> set xs. f x = Inr y"
  by (induction xs arbitrary: ys) auto

lemma decode_stockpile_sorted:
  assumes "wf_json j" and "decode_stockpile j = Inr s"
  shows "kv_ok (ss_resources s)"
proof -
  obtain ob where ob: "as_obj j = Inr ob" using assms(2) by (auto simp: decode_stockpile_def)
  have wf: "wf_json (obj_get_or ob k (JObj []))" for k
    using wf_obj_get_or [OF wf_as_obj [OF assms(1) ob]] by simp
  show ?thesis
    using assms(2) ob sorted_items_ok [OF wf] by (auto simp: decode_stockpile_def int_items_def)
qed

text \<open>Relationships keep the order of the document; all other tables come sorted from an object.\<close>

definition relationships_in_order :: "world_state \<Rightarrow> bool" where
  "relationships_in_order st \<longleftrightarrow> (\<forall>a \<in> set (ws_actors st). kv_ok (as_relationships a))"

lemma decode_state_ordered:
  assumes wf: "wf_json (JObj raw)" and st: "decode_state raw = Inr st" and rel: "relationships_in_order st"
  shows "tables_in_order st"
proof -
  obtain xs where xs: "rbind (dict_at raw ''actors'') iterated = Inr xs" "mapR decode_actor xs = Inr (ws_actors st)"
    using st by (auto simp: decode_state_def)
  obtain ys where ys: "list_or_empty raw ''stockpiles'' = Inr ys" "mapR decode_stockpile ys = Inr (ws_stockpiles st)"
    using st by (auto simp: decode_state_def decode_list_def)
  have "list_all wf_json xs"
    using xs(1) wf by (fastforce simp: dict_at_def list_all_iff [of _ raw] dest!: map_of_SomeD intro: wf_iterated)
  then have actors: "\<forall>a \<in> set (ws_actors st). tuples_sorted a"
    using mapR_set [OF xs(2)] rel decode_actor_sorted by (fastforce simp: list_all_iff relationships_in_order_def)
  have "list_all wf_json ys"
    using ys(1) wf_obj_get_or [OF wf, of "JArr []"] wf_iterated by (auto simp: list_or_empty_def)
  then have stock: "\<forall>s \<in> set (ws_stockpiles st). kv_ok (ss_resources s)"
    using mapR_set [OF ys(2)] decode_stockpile_sorted by (fastforce simp: list_all_iff)
  with actors show ?thesis by (simp add: tables_in_order_def)
qed

lemma state_from_dict_parts: "state_from_dict raw pack = Inr st \<Longrightarrow> decode_state raw = Inr st \<and> validate_state st pack = Inr ()"
  by (auto simp: state_from_dict_def split: sum.splits if_splits)

lemma world_ok_ordered:
  assumes "world_ok pack st"
  shows "tables_in_order st" and "relationships_in_order st"
proof -
  have "attrs_ok pack a" if "a \<in> set (ws_actors st)" for a
    using assms that by (simp add: world_ok_def world_typed_def cast_ok_def)
  then show "relationships_in_order st" and "tables_in_order st"
    using assms attrs_sorted
    by (auto simp: relationships_in_order_def tables_in_order_def tuples_sorted_def world_ok_def world_typed_def
        stock_ok_def stockpile_ok_def kv_valid_def)
qed

text \<open>What is loaded satisfies the invariant up to the order of its relationships.\<close>

lemma state_from_dict_iff:
  assumes "pack_ok pack" and "wf_json (JObj raw)" and "state_from_dict raw pack = Inr st"
  shows "world_ok pack st \<longleftrightarrow> relationships_in_order st"
  using state_from_dict_parts [OF assms(3)] decode_state_ordered [OF assms(2)] world_ok_ordered
    validate_state_accepts [OF assms(1)] by blast

lemma load_game_parts:
  assumes "load_game sha raw pack = Inr st"
  obtains state_raw where "map_of raw ''state'' = Some (JObj state_raw)" "state_from_dict state_raw pack = Inr st"
    "obj_get raw ''world_content_hash'' = JStr (wp_content_hash pack)"
    "obj_get raw ''state_digest'' = JStr (state_digest sha st)"
  using assms by (auto simp: load_game_def compatible_def obj_get_def rbind_in_order split: json.splits option.splits)

lemma save_load:
  assumes "encodable st" and "save_game sha st pack = Inr doc"
  shows "load_game sha doc pack = Inr st"
proof -
  have v: "validate_state st pack = Inr ()"
    and doc: "doc = document save_format pack
        [(''state'', JObj (state_to_dict st)), (''state_digest'', JStr (state_digest sha st))]"
    using assms(2) by (auto simp: save_game_def)
  have "state_from_dict (state_to_dict st) pack = Inr st"
    using decode_state_json [OF assms(1)] v by (simp add: state_from_dict_def)
  then show ?thesis
    by (simp add: doc load_game_def document_def compatible_def rbind_in_order obj_get_def equals_int_def rbind_Inr_iff)
qed

section \<open>Replays\<close>

lemma read_written_actions:
  assumes "list_all (\<lambda>a. ga_kind a \<in> action_kinds) acts" and "length acts \<le> max_replay_actions"
    and "obj_get raw ''actions'' = JArr (map (\<lambda>a. JObj (action_to_dict a)) acts)"
  shows "read_actions raw = Inr acts"
proof -
  have "mapR (\<lambda>j. rbind (as_obj j) action_from_dict) (map (\<lambda>a. JObj (action_to_dict a)) acts) = Inr acts"
    using assms(1) by (auto simp: list_all_iff intro!: mapR_inverse action_dict_roundtrip)
  then show ?thesis
    using assms(2,3) by (simp add: read_actions_def list_all_iff is_obj_def not_less)
qed

lemma replay_roundtrip:
  assumes "list_all (\<lambda>a. ga_kind a \<in> action_kinds) acts" and "length acts \<le> max_replay_actions"
    and "replay_actions depth pack acts = Inr final"
  shows "load_replay depth sha (write_replay sha acts final pack) pack = Inr (acts, final)"
proof -
  have "read_actions (write_replay sha acts final pack) = Inr acts"
    using assms(1,2) by (rule read_written_actions) (simp add: write_replay_def document_def obj_get_def)
  then show ?thesis
    using assms(3)
    by (simp add: load_replay_def write_replay_def document_def compatible_def rbind_in_order obj_get_def equals_int_def rbind_Inr_iff)
qed

end
