(* ===== verification/TimePasses.thy ===== *)
theory TimePasses
  imports ReducerSafety
begin

text \<open>
  Time in the world runtime. Only a tick moves the clock, and only while no scene and no dialogue
  is open; every other operation leaves the clock alone, whatever the state. With the invariant,
  which keeps every deadline in the future, it follows that work gets done: a construction, a
  production job or a delayed consequence is settled once enough ticks have passed.
\<close>

section \<open>What leaves the clock alone\<close>

definition clock_of :: "world_state \<Rightarrow> int \<times> int \<times> int \<times> int" where
  "clock_of st = (ws_tick st, ws_day st, ws_minute_of_day st, ws_minute_tick st)"

lemma clock_of_updates [simp]:
  "clock_of (st\<lparr>ws_actors := actors\<rparr>) = clock_of st"
  "clock_of (st\<lparr>ws_flags := flags\<rparr>) = clock_of st"
  "clock_of (st\<lparr>ws_active_actor_id := i\<rparr>) = clock_of st"
  "clock_of (st\<lparr>ws_completed_interactions := done\<rparr>) = clock_of st"
  "clock_of (st\<lparr>ws_last_message := message\<rparr>) = clock_of st"
  "clock_of (st\<lparr>ws_recent_events := events\<rparr>) = clock_of st"
  "clock_of (st\<lparr>ws_quests := quests\<rparr>) = clock_of st"
  "clock_of (st\<lparr>ws_dialogue := d\<rparr>) = clock_of st"
  "clock_of (st\<lparr>ws_active_scene_id := scene\<rparr>) = clock_of st"
  "clock_of (st\<lparr>ws_triggered_scenes := scenes\<rparr>) = clock_of st"
  "clock_of (st\<lparr>ws_stockpiles := stock\<rparr>) = clock_of st"
  "clock_of (st\<lparr>ws_constructions := sites\<rparr>) = clock_of st"
  "clock_of (st\<lparr>ws_production_jobs := jobs\<rparr>) = clock_of st"
  "clock_of (st\<lparr>ws_pending_consequences := pending\<rparr>) = clock_of st"
  "clock_of (st\<lparr>ws_triggered_consequences := triggered\<rparr>) = clock_of st"
  by (simp_all add: clock_of_def)

lemma clock_of_replace [simp]:
  "clock_of (replace_actor st a) = clock_of st"
  "clock_of (replace_stockpile st s) = clock_of st"
  "clock_of (replace_quest st q) = clock_of st"
  "clock_of (with_message m st) = clock_of st"
  "clock_of (append_event st ev) = clock_of st"
  "clock_of (follow_route st a route) = clock_of st"
  by (simp_all add: replace_actor_def replace_stockpile_def replace_quest_def with_message_def
      append_event_def follow_route_def)

lemma foldR_unchanged:
  assumes "foldR f s xs = Inr s'" and "\<And>x s t. x \<in> set xs \<Longrightarrow> f s x = Inr t \<Longrightarrow> g t = g s"
  shows "g s' = g s"
  using assms by (induction xs arbitrary: s) (simp, fastforce)

named_theorems timeless "operations that leave the clock alone"

lemma outcome_any_True [simp]: "outcome any_exn (\<lambda>_. True) r"
  by (simp add: outcome_any_iff)

lemma apply_effect_timeless:
  "outcome any_exn (\<lambda>se. clock_of (fst se) = clock_of st) (apply_effect source target pack (st, events) e)"
  unfolding apply_effect_def Let_def by (simp add: outcome_simps split: option.split)

lemma apply_effects_timeless [timeless]:
  "apply_effects st effects source target events pack = Inr se \<Longrightarrow> clock_of (fst se) = clock_of st"
  unfolding apply_effects_def
  by (drule foldR_unchanged [where g = "\<lambda>se. clock_of (fst se)"])
    (auto dest: outcome_InrD [OF apply_effect_timeless])

lemma resolve_item_timeless:
  "resolve_item pack acc item = Inr y \<Longrightarrow> clock_of (fst y) = clock_of (fst acc)"
  by (auto simp: resolve_item_def Let_def dest: timeless split: prod.splits)

lemma process_consequences_timeless [timeless]:
  "process_consequences depth st pack events source = Inr st' \<Longrightarrow> clock_of st' = clock_of st"
proof (induction depth arbitrary: st events source st')
  case (Suc depth)
  have item: "clock_of (fst y) = clock_of (fst acc)"
    if "rbind (resolve_item pack acc item) (\<lambda>(st', events', resolved).
          rbind (process_consequences depth st' pack [resolved] (pc_source_actor_id item)) (\<lambda>st''.
            Inr (st'', extend_new events' (ws_recent_events st'')))) = Inr y" for acc item y
    using that by (auto dest!: Suc.IH resolve_item_timeless)
  obtain pending ev st2 ev2 where
    "schedule_loop st pack source 0 (ws_pending_consequences st) events = Inr (pending, ev)"
    and loop: "foldR (\<lambda>acc item. rbind (resolve_item pack acc item) (\<lambda>(st', events', resolved).
          rbind (process_consequences depth st' pack [resolved] (pc_source_actor_id item)) (\<lambda>st''.
            Inr (st'', extend_new events' (ws_recent_events st'')))))
        (st\<lparr>ws_pending_consequences := sort_key pending_before pending\<rparr>, ev)
        (filter (\<lambda>p. pc_due_at_minute p \<le> absolute_minute (st\<lparr>ws_pending_consequences := sort_key pending_before pending\<rparr>))
          (sort_key pending_before pending)) = Inr (st2, ev2)"
    and "st' = st2\<lparr>ws_recent_events := ev2\<rparr>"
    using Suc.prems by (auto simp: Let_def)
  then show ?case using foldR_unchanged [where g = "\<lambda>acc. clock_of (fst acc)", OF loop item] by simp
qed simp

section \<open>Movement and economy\<close>

lemma movement_timeless [timeless]:
  "move st act pack = Inr st' \<Longrightarrow> clock_of st' = clock_of st"
  "navigate st act pack = Inr st' \<Longrightarrow> clock_of st' = clock_of st"
  "interact st act pack = Inr st' \<Longrightarrow> clock_of st' = clock_of st"
  "use_ability st act pack = Inr st' \<Longrightarrow> clock_of st' = clock_of st"
  by (auto simp: move_def navigate_def interact_def use_ability_def Let_def dest!: timeless
      split: if_splits option.splits sum.splits)

lemma plan_schedules_timeless [timeless]:
  "plan_schedules st pack = Inr st' \<Longrightarrow> clock_of st' = clock_of st"
  unfolding plan_schedules_def
  by (drule foldR_unchanged [where g = clock_of])
    (auto simp: plan_schedule_def Let_def split: if_splits option.splits)

lemma advance_routes_timeless [timeless]:
  "advance_routes st pack = Inr st' \<Longrightarrow> clock_of st' = clock_of st"
  by (auto simp: advance_routes_def split: if_splits)

lemma build_timeless [timeless]:
  "build depth st act pack = Inr st' \<Longrightarrow> clock_of st' = clock_of st"
  by (auto simp: build_def Let_def dest!: timeless split: if_splits option.splits)

lemma start_production_timeless [timeless]:
  "start_production depth st act pack = Inr st' \<Longrightarrow> clock_of st' = clock_of st"
  by (auto simp: start_production_def Let_def dest!: timeless split: if_splits option.splits)

lemma transfer_resource_timeless [timeless]:
  "transfer_resource depth st act pack = Inr st' \<Longrightarrow> clock_of st' = clock_of st"
  by (auto simp: transfer_resource_def Let_def dest!: timeless split: if_splits option.splits)

section \<open>The pulse of the living world\<close>

lemma go_adjacent_timeless [timeless]:
  "go_adjacent st pack a l = Inr st' \<Longrightarrow> clock_of st' = clock_of st"
  by (auto simp: go_adjacent_def)

lemma satisfy_need_timeless [timeless]:
  "satisfy_need st a nid g pack = Inr st' \<Longrightarrow> clock_of st' = clock_of st"
  by (auto simp: satisfy_need_def Let_def dest!: timeless split: if_splits option.splits)

lemma goal_action_timeless [timeless]:
  "produce depth st a rid pack = Inr st' \<Longrightarrow> clock_of st' = clock_of st"
  "build_at depth st a bid l pack = Inr st' \<Longrightarrow> clock_of st' = clock_of st"
  "travel st a l pack = Inr st' \<Longrightarrow> clock_of st' = clock_of st"
  by (auto simp: produce_def build_at_def travel_def dest!: timeless split: if_splits list.splits)

lemma execute_goal_timeless [timeless]:
  "execute_goal depth st a goal pack = Inr st' \<Longrightarrow> clock_of st' = clock_of st"
  by (auto simp: execute_goal_def dest!: timeless split: if_splits option.splits)

lemma plan_goals_timeless [timeless]:
  "plan_goals depth st pack events = Inr st' \<Longrightarrow> clock_of st' = clock_of st"
proof -
  have actor: "clock_of (fst t) = clock_of (fst acc)" if "plan_actor_goal depth pack acc d = Inr t" for acc d t
    using that by (auto simp: plan_actor_goal_def Let_def dest!: timeless split: if_splits prod.splits)
  show "plan_goals depth st pack events = Inr st' \<Longrightarrow> clock_of st' = clock_of st"
    by (auto simp: plan_goals_def dest!: foldR_unchanged [where g = "\<lambda>acc. clock_of (fst acc)", OF _ actor])
qed

lemma advance_living_world_timeless [timeless]:
  "advance_living_world depth st pack events = Inr st' \<Longrightarrow> clock_of st' = clock_of st"
proof -
  have job: "clock_of (fst t) = clock_of (fst acc)" if "finish_job pack acc j = Inr t" for acc j t
    using that by (auto simp: finish_job_def split: if_splits option.splits prod.splits)
  show "advance_living_world depth st pack events = Inr st' \<Longrightarrow> clock_of st' = clock_of st"
    by (auto simp: advance_living_world_def complete_constructions_def
        dest!: timeless foldR_unchanged [where g = "\<lambda>acc. clock_of (fst acc)", OF _ job])
qed

section \<open>Narrative\<close>

lemma stage_step_timeless:
  "stage_step pack source qid sid stage se = Inr y \<Longrightarrow> clock_of (fst (snd y)) = clock_of (fst se)"
  by (auto simp: stage_step_def Let_def dest!: timeless split: if_splits option.splits prod.splits)

lemma quest_loop_timeless:
  "quest_loop pack source d qid visited progress se = Inr se' \<Longrightarrow> clock_of (fst se') = clock_of (fst se)"
proof (induction pack source d qid visited progress se rule: quest_loop.induct)
  case (1 pack source d qid visited progress se)
  show ?case
  proof (cases "qs_stage_id progress")
    case None
    then show ?thesis using 1(2) by (simp add: quest_loop.simps split: if_splits)
  next
    case sid: (Some sid)
    show ?thesis
    proof (cases "qs_status progress = ''active'' \<and> sid \<notin> visited")
      case True
      then obtain stage p st1 ev1 where stage: "dict_at (qd_stages d) sid = Inr stage"
        and step: "stage_step pack source qid sid stage se = Inr (p, st1, ev1)"
        and rest: "(case p of None \<Rightarrow> Inr (st1, ev1)
          | Some p \<Rightarrow> quest_loop pack source d qid (insert sid visited) p (st1, ev1)) = Inr se'"
        using 1(2) sid by (subst (asm) quest_loop.simps) (auto split: prod.splits)
      have first: "clock_of st1 = clock_of (fst se)" using stage_step_timeless [OF step] by simp
      show ?thesis
      proof (cases p)
        case (Some q)
        with rest have "quest_loop pack source d qid (insert sid visited) q (st1, ev1) = Inr se'" by simp
        from 1(1) [OF _ sid _ stage step refl Some this] True first show ?thesis by simp
      qed (use rest first in auto)
    qed (use 1(2) sid in \<open>auto simp: quest_loop.simps split: if_splits\<close>)
  qed
qed

lemma process_quests_timeless:
  "process_quests pack source se = Inr se' \<Longrightarrow> clock_of (fst se') = clock_of (fst se)"
  unfolding process_quests_def
  by (drule foldR_unchanged [where g = "\<lambda>se. clock_of (fst se)"])
    (auto simp: process_quest_def Let_def dest!: quest_loop_timeless split: if_splits prod.splits)

lemma settle_quests_timeless:
  "settle_quests n pack source se = Inr se' \<Longrightarrow> clock_of (fst se') = clock_of (fst se)"
  by (induction n arbitrary: se) (auto dest!: process_quests_timeless split: if_splits)

lemma trigger_scene_timeless:
  "trigger_scene pack source se = Inr se' \<Longrightarrow> clock_of (fst se') = clock_of (fst se)"
  by (auto simp: trigger_scene_def Let_def dest!: timeless split: if_splits prod.splits)

lemma postprocess_narrative_timeless [timeless]:
  "postprocess_narrative depth st pack events source = Inr st' \<Longrightarrow> clock_of st' = clock_of st"
  by (auto simp: postprocess_narrative_def dest!: timeless settle_quests_timeless trigger_scene_timeless)

lemma dialogue_timeless [timeless]:
  "start_dialogue depth st act pack = Inr st' \<Longrightarrow> clock_of st' = clock_of st"
  "choose_dialogue depth st act pack = Inr st' \<Longrightarrow> clock_of st' = clock_of st"
  "end_dialogue depth st ds pack = Inr st' \<Longrightarrow> clock_of st' = clock_of st"
  by (auto simp: start_dialogue_def choose_dialogue_def end_dialogue_def Let_def dest!: timeless
      split: if_splits option.splits)

lemma handle_narrative_action_timeless [timeless]:
  "handle_narrative_action depth st act pack = Inr st' \<Longrightarrow> clock_of st' = clock_of st"
  by (auto simp: handle_narrative_action_def dest!: timeless split: if_splits option.splits)

section \<open>How much time an action takes\<close>

text \<open>A tick takes time unless a scene or a dialogue is open.\<close>

definition ticks :: "world_state \<Rightarrow> game_action \<Rightarrow> bool" where
  "ticks st act \<longleftrightarrow> ga_kind act = ''tick'' \<and> ws_active_scene_id st = None \<and> ws_dialogue st = None"

text \<open>The time since the first minute of the first day, in ticks.\<close>

definition elapsed :: "world_pack \<Rightarrow> world_state \<Rightarrow> int" where
  "elapsed pack st = absolute_minute st * ticks_per_minute (wp_clock pack) + ws_minute_tick st"

definition due_at :: "world_pack \<Rightarrow> int \<Rightarrow> int" where
  "due_at pack minute = minute * ticks_per_minute (wp_clock pack)"

lemma elapsed_cong: "clock_of st' = clock_of st \<Longrightarrow> elapsed pack st' = elapsed pack st"
  by (simp add: elapsed_def clock_of_def absolute_minute_def)

lemma clock_advances:
  assumes "time_ok pack st"
  shows "elapsed pack (advance_clock st pack) = elapsed pack st + 1"
proof (cases "ws_minute_tick st + 1 < ticks_per_minute (wp_clock pack)")
  case True
  then show ?thesis by (simp add: advance_clock_def Let_def elapsed_def absolute_minute_def)
next
  case False
  then have last: "ticks_per_minute (wp_clock pack) = ws_minute_tick st + 1" using assms by (simp add: time_ok_def)
  show ?thesis
    using assms
    by (cases "ws_minute_of_day st = 1439")
      (simp_all add: advance_clock_def Let_def time_ok_def elapsed_def absolute_minute_def last algebra_simps)
qed

lemma tick_clock:
  "tick depth st pack = Inr st' \<Longrightarrow> clock_of st' = clock_of (advance_clock st pack)"
  by (auto simp: tick_def Let_def dest!: timeless split: if_splits)

lemma then_postprocess_timeless:
  "outcome any_exn (\<lambda>s. clock_of s = c) r \<Longrightarrow>
     outcome any_exn (\<lambda>s. clock_of s = c) (then_postprocess depth pack source r)"
  by (auto simp: outcome_any_iff then_postprocess_def dest!: timeless)

lemma reduce_world_timeless:
  assumes "\<not> ticks st act"
  shows "outcome any_exn (\<lambda>s. clock_of s = clock_of st) (reduce_world depth st act pack)"
proof -
  let ?st = "st\<lparr>ws_recent_events := []\<rparr>" and ?keeps = "outcome any_exn (\<lambda>s. clock_of s = clock_of st)"
  have parts: "?keeps (handle_narrative_action depth ?st act pack)" "?keeps (move ?st act pack)"
    "?keeps (rbind (navigate ?st act pack) (\<lambda>st'. Inr (st'\<lparr>ws_recent_events := []\<rparr>)))" "?keeps (interact ?st act pack)"
    "?keeps (use_ability ?st act pack)" "?keeps (build depth ?st act pack)"
    "?keeps (start_production depth ?st act pack)" "?keeps (transfer_resource depth ?st act pack)"
    by (auto simp: outcome_any_iff dest!: timeless)
  note parts = parts(1,3) parts(2,4-) [THEN then_postprocess_timeless]
  show ?thesis
  proof (cases "ws_active_scene_id st \<noteq> None \<or> ws_dialogue st \<noteq> None")
    case True
    then show ?thesis unfolding reduce_world_def Let_def using parts(1) by auto
  next
    case False
    then have "ga_kind act \<noteq> ''tick''" using assms by (simp add: ticks_def)
    then show ?thesis unfolding reduce_world_def Let_def outcome_if using False by (simp add: parts)
  qed
qed

lemma reduce_world_clock:
  assumes "time_ok pack st" and "reduce_world depth st act pack = Inr st'"
  shows "elapsed pack st' = elapsed pack st + (if ticks st act then 1 else 0)"
proof (cases "ticks st act")
  case True
  let ?st = "st\<lparr>ws_recent_events := []\<rparr>"
  have "tick depth ?st pack = Inr st'"
    using assms(2) True by (simp add: reduce_world_def ticks_def narrative_kinds_def Let_def)
  from elapsed_cong [OF tick_clock [OF this]] have "elapsed pack st' = elapsed pack (advance_clock ?st pack)" .
  moreover have "time_ok pack ?st" using assms(1) by (simp add: time_ok_def)
  ultimately show ?thesis using True clock_advances [of pack ?st] by (simp add: elapsed_def absolute_minute_def)
next
  case False
  from elapsed_cong [OF outcome_InrD [OF reduce_world_timeless [OF this] assms(2)]] False show ?thesis by simp
qed

text \<open>The number of ticks that take time in a run.\<close>

fun time_spent :: "nat \<Rightarrow> world_pack \<Rightarrow> world_state \<Rightarrow> game_action list \<Rightarrow> nat" where
  "time_spent depth pack st [] = 0"
| "time_spent depth pack st (act # acts) =
     (if ticks st act then 1 else 0) +
     (case reduce_world depth st act pack of Inl _ \<Rightarrow> 0 | Inr st' \<Rightarrow> time_spent depth pack st' acts)"

lemma run_clock:
  assumes "running depth pack st" and "list_all (known_actor pack) acts"
    and "foldR (reduce_step depth pack) st acts = Inr st'"
  shows "elapsed pack st' = elapsed pack st + int (time_spent depth pack st acts)"
  using assms
proof (induction acts arbitrary: st)
  case (Cons act acts)
  then obtain st1 where st1: "reduce_world depth st act pack = Inr st1" "foldR (reduce_step depth pack) st1 acts = Inr st'"
    by (fastforce simp: reduce_step_def [of depth pack st])
  have "running depth pack st1"
    using reducer.step_ok [OF Cons.prems(1), of act] Cons.prems(2) st1(1) by (simp add: reduce_step_def)
  moreover have "time_ok pack st"
    using Cons.prems(1) by (simp add: running_def world_ok_def world_typed_def)
  ultimately show ?case
    using Cons.IH [of st1] Cons.prems(2) st1 reduce_world_clock [of pack st depth act st1] by simp
qed simp

lemma before_due:
  assumes "time_ok pack st" and "absolute_minute st < minute"
  shows "elapsed pack st < due_at pack minute"
proof -
  have "(absolute_minute st + 1) * ticks_per_minute (wp_clock pack) \<le> minute * ticks_per_minute (wp_clock pack)"
    using assms by (intro mult_right_mono) (auto simp: time_ok_def)
  then show ?thesis using assms(1) by (simp add: elapsed_def due_at_def time_ok_def algebra_simps)
qed

section \<open>Work gets done\<close>

text \<open>C3. Work gets done. From a valid state every run of known actions goes through, and its time is
  the number of its ticks outside of scenes and dialogues, exactly. Whatever was due by then is
  settled: no construction is still being built, no production job is running and no consequence is
  pending whose deadline has been reached.\<close>

theorem due_work_gets_done:
  assumes "pack_ok pack" and "world_ok pack st" and "length (wp_consequences pack) < depth"
    and "list_all (known_actor pack) acts"
  shows "\<exists>st'. replay_from depth pack i st acts = Inr st' \<and>
    elapsed pack st' = elapsed pack st + int (time_spent depth pack st acts) \<and>
    (\<forall>c \<in> set (ws_constructions st'). due_at pack (cs_complete_at_minute c) \<le> elapsed pack st' \<longrightarrow> cs_status c \<noteq> ''building'') \<and>
    (\<forall>j \<in> set (ws_production_jobs st'). elapsed pack st' < due_at pack (pj_complete_at_minute j)) \<and>
    (\<forall>p \<in> set (ws_pending_consequences st'). elapsed pack st' < due_at pack (pc_due_at_minute p))"
proof -
  have start: "running depth pack st" using assms(1-3) by (simp add: running_def)
  obtain st' where run: "foldR (reduce_step depth pack) st acts = Inr st'" and "running depth pack st'"
    by (rule reducer.run_total [OF start assms(4)])
  then have ok: "world_ok pack st'" and time: "time_ok pack st'"
    by (simp_all add: running_def world_ok_def world_typed_def)
  have "replay_from depth pack i st acts = Inr st'" using run by (simp add: replay_from_run)
  moreover have "cs_status c \<noteq> ''building''"
    if "c \<in> set (ws_constructions st')" "due_at pack (cs_complete_at_minute c) \<le> elapsed pack st'" for c
    using ok that before_due [OF time, of "cs_complete_at_minute c"] by (fastforce simp: world_ok_def sites_timed_def)
  ultimately show ?thesis
    using run_clock [OF start assms(4) run] ok before_due [OF time]
    by (auto simp: world_ok_def jobs_timed_def pending_timed_def)
qed

theorem due_work_gets_done_witness:
  "\<exists>st'. replay_from 2 village 0 (village_start\<lparr>ws_pending_consequences :=
         [\<lparr>pc_consequence_id = ''smoke'', pc_due_at_minute = 481, pc_source_actor_id = ''ana''\<rparr>]\<rparr>)
       [game_action_of ''tick'', game_action_of ''interact'', game_action_of ''tick''] = Inr st' \<and>
     elapsed village st' = due_at village 481 \<and> ws_pending_consequences st' = []"
proof -
  let ?smoke = "\<lparr>pc_consequence_id = ''smoke'', pc_due_at_minute = 481, pc_source_actor_id = ''ana''\<rparr>"
  let ?st = "village_start\<lparr>ws_pending_consequences := [?smoke]\<rparr>"
  let ?acts = "[game_action_of ''tick'', game_action_of ''interact'', game_action_of ''tick'']"
  have "absolute_minute village_start = 480" by code_simp
  with village_start_ok have ok: "world_ok village ?st"
    by (simp add: world_ok_def world_typed_def pending_ok_def pending_timed_def absolute_minute_def time_ok_def
        village_def dict_mem_def)
  have facts: "length (wp_consequences village) < 2" "list_all (known_actor village) ?acts"
    "time_spent 2 village ?st ?acts = 2" "elapsed village ?st + 2 = due_at village 481"
    "case replay_from 2 village 0 ?st ?acts of Inr s \<Rightarrow> ws_pending_consequences s = [] | Inl _ \<Rightarrow> False"
    by code_simp+
  from due_work_gets_done [OF village_ok ok facts(1,2)] facts(3-5) show ?thesis by fastforce
qed

end
