(* ===== verification/Findings.thy ===== *)
theory Findings
  imports SaveFacts
begin

text \<open>
  Behaviour of the code that its authors may not intend, shown by evaluating the model on small
  accepted packs. None of it contradicts the properties of the development: those either hold in
  these cases too or name the assumption that excludes them.
\<close>

section \<open>Two consequences due in the same minute\<close>

definition twin_village :: world_pack where
  "twin_village = village\<lparr>wp_consequences :=
     [(''ash'', \<lparr>csd_id = ''ash'', csd_delay_minutes = 2, csd_trigger_event = ''minute_changed'',
         csd_subject_id = None, csd_conditions = [],
         csd_effects = [(effect_of ''set_flag'')\<lparr>eff_flag := Some ''ash''\<rparr>], csd_once = True\<rparr>),
      (''gift'', \<lparr>csd_id = ''gift'', csd_delay_minutes = 2, csd_trigger_event = ''minute_changed'',
         csd_subject_id = None, csd_conditions = [],
         csd_effects = [(effect_of ''change_resource'')\<lparr>eff_resource := Some ''wood'', eff_amount := 1\<rparr>],
         csd_once = True\<rparr>)]\<rparr>"

lemma twin_village_accepted: "validate_runtime_pack twin_village = Inr ()"
  by code_simp

text \<open>Two consequences due in the same minute: \<open>process_consequences\<close> walks a list of due
  items taken before the walk; the nested call for the first item resolves the second one too, and
  the walk then applies the second one's effects again, so that a gift of one unit gives two.\<close>

theorem due_together_applied_twice:
  "case (replay_actions 3 twin_village (replicate 5 (game_action_of ''tick'')),
         replay_actions 3 twin_village (replicate 6 (game_action_of ''tick''))) of
     (Inr before, Inr after) \<Rightarrow>
       rbind (get_actor before ''ana'') (\<lambda>a. Inr (actor_resource a ''wood'')) = Inr 5 \<and>
       rbind (get_actor after ''ana'') (\<lambda>a. Inr (actor_resource a ''wood'')) = Inr 7
   | _ \<Rightarrow> False"
  by code_simp

section \<open>States that cannot be saved\<close>

text \<open>A blocking construction can be built on a planned route, here the builder's own; the game goes
  on, but it cannot be saved.\<close>

theorem building_on_a_route_blocks_saving:
  "rbind (replay_actions 2 village
      [(game_action_of ''navigate'')\<lparr>ga_x := Some 2, ga_y := Some 0\<rparr>,
       (game_action_of ''build'')\<lparr>ga_blueprint_id := Some ''hut'', ga_x := Some 1, ga_y := Some 0\<rparr>])
     (\<lambda>st. save_game sha st village) = Inl (PersistenceError ''Actor ana has an invalid route'')"
proof -
  have "rbind (replay_actions 2 village
      [(game_action_of ''navigate'')\<lparr>ga_x := Some 2, ga_y := Some 0\<rparr>,
       (game_action_of ''build'')\<lparr>ga_blueprint_id := Some ''hut'', ga_x := Some 1, ga_y := Some 0\<rparr>])
     (\<lambda>st. validate_state st village) = Inl (PersistenceError ''Actor ana has an invalid route'')"
    by code_simp
  then show ?thesis by (auto simp: save_game_def rbind_def split: sum.splits)
qed

text \<open>\<open>change_need\<close> adds the need to an actor that has none; the loader accepts such an effect, and
  the resulting state cannot be saved.\<close>

theorem new_need_blocks_saving:
  "effect_ok village ((effect_of ''change_need'')\<lparr>eff_need_id := Some ''food_need'', eff_amount := 5\<rparr>) \<and>
   rbind (apply_effects village_start
       [(effect_of ''change_need'')\<lparr>eff_need_id := Some ''food_need'', eff_amount := 5\<rparr>] ''bo'' ''bo'' [] village)
     (\<lambda>(st, events). validate_state st village) = Inl (PersistenceError ''Actor bo has incomplete needs'')"
  by code_simp

definition colon_village :: world_pack where
  "colon_village = village\<lparr>wp_scenes :=
     [(''act:1'', \<lparr>snd_id = ''act:1'', snd_title = ''Act'', snd_text = ''One'', snd_start_minute = 0,
         snd_end_minute = 1440, snd_conditions = [], snd_effects = [], snd_once = False, snd_priority = 1\<rparr>)]\<rparr>"

text \<open>A daily scene is recorded as \<open>id:day\<close> and read back up to the first colon: a world with a
  colon in a scene ID is accepted, and cannot be saved once the scene has run.\<close>

theorem colon_in_a_scene_id_blocks_saving:
  "validate_runtime_pack colon_village = Inr () \<and>
   rbind (replay_actions 2 colon_village [game_action_of ''tick'']) (\<lambda>st. validate_state st colon_village) =
     Inl (PersistenceError ''Saved scene history is invalid'')"
  by code_simp

text \<open>Instance IDs join the IDs of blueprint and map, which may contain the separator.\<close>

theorem instance_ids_clash:
  "instance_id ''a'' ''b__c'' x y = instance_id ''a__b'' ''c'' x y"
  by (simp add: instance_id_def)

section \<open>Exceptions that loading lets through\<close>

text \<open>Malformed saves raise exceptions other than \<open>PersistenceError\<close>: the actors are checked before
  the blueprints of the constructions that their check looks up (\<open>KeyError\<close>), and an array in place of
  a table has no \<open>items\<close> (\<open>AttributeError\<close>).\<close>

theorem loading_lets_exceptions_through:
  "validate_state (village_start\<lparr>ws_constructions :=
      [\<lparr>cs_instance_id = ''x'', cs_blueprint_id = ''gone'', cs_map_id = ''dale'', cs_x = 1, cs_y = 0,
        cs_builder_actor_id = ''ana'', cs_status = ''completed'', cs_complete_at_minute = 0\<rparr>]\<rparr>) village =
     Inl (KeyError ''gone'') \<and>
   state_from_dict
     [(''actors'', JArr [JObj [(''actor_id'', JStr ''ana''), (''map_id'', JStr ''dale''), (''x'', JInt 0),
         (''y'', JInt 0), (''resources'', JArr [])]])] village = Inl (AttributeError ''items'')"
  by code_simp

section \<open>Choices that cannot be taken\<close>

definition shy_village :: world_pack where
  "shy_village = village\<lparr>wp_dialogues :=
     [(''greet'', \<lparr>dd_id = ''greet'', dd_display_name = ''Greet'', dd_actor_id = ''bo'', dd_range = 9,
         dd_start_node_id = ''hello'', dd_conditions = [],
         dd_nodes = [(''hello'', \<lparr>dnd_id = ''hello'', dnd_speaker_id = ''bo'', dnd_text = ''Hello'',
           dnd_fact_refs = [], dnd_choices =
             [\<lparr>dcd_id = ''bye'', dcd_text = ''Bye'', dcd_next_node_id = None,
               dcd_conditions = [(condition_of ''event'')\<lparr>cond_event_kind := Some ''dialogue_started''\<rparr>],
               dcd_effects = []\<rparr>],
           dnd_on_enter = [], dnd_allow_exit = True\<rparr>)]\<rparr>)]\<rparr>"

text \<open>A choice with an event condition is offered on the events of the last action, but the reducer
  clears them before it looks for the chosen one: the choice is never available.\<close>

theorem offered_choice_is_unavailable:
  "validate_runtime_pack shy_village = Inr () \<and>
   (case replay_actions 2 shy_village [(game_action_of ''start_dialogue'')\<lparr>ga_dialogue_id := Some ''greet''\<rparr>] of
      Inr st \<Rightarrow>
        rbind (available_dialogue_choices st shy_village) (\<lambda>cs. Inr (map dcd_id cs)) = Inr [''bye''] \<and>
        rbind (reduce_world 2 st ((game_action_of ''choose_dialogue'')\<lparr>ga_choice_id := Some ''bye''\<rparr>) shy_village)
          (\<lambda>st'. Inr (ws_last_message st', ws_dialogue st' = ws_dialogue st)) =
            Inr (''Dialogue choice unavailable'', True)
    | Inl _ \<Rightarrow> False)"
  by code_simp

end
