(* ===== verification/JsonSnapshot.thy ===== *)
theory JsonSnapshot
  imports Json
begin

text \<open>
  Owned JSON values of the gamepack runtime (\<open>src/gamepack_runtime/contracts.py\<close>): the bounded
  snapshot that every input goes through, the comparison of Python values, and the canonical
  text that states and actions are hashed by. \<open>_snapshot_json_graph\<close> walks the value in preorder
  with a stack; here it is a recursion over the value with the same counters. A model value is a
  tree, so the checks for cycles and shared containers never fire; strings are Unicode scalar
  strings, and a byte that does not continue a UTF-8 sequence starts a code point.
\<close>

section \<open>Failing\<close>

definition fail :: "string \<Rightarrow> string \<Rightarrow> 'a res" where
  "fail reason detail = Inl (GameLogicError reason detail)"

definition reject :: "bool \<Rightarrow> string \<Rightarrow> string \<Rightarrow> unit res" where
  "reject bad reason detail = raise_if bad (GameLogicError reason detail)"

lemma reject_simps [simp]:
  "reject True reason detail = fail reason detail" "reject False reason detail = Inr ()"
  by (simp_all add: reject_def fail_def raise_if_def)

lemma reject_ok [simp]: "reject bad reason detail = Inr t \<longleftrightarrow> \<not> bad"
  by (simp add: reject_def raise_if_def)

lemma fail_not_Inr [simp]: "fail reason detail \<noteq> Inr x" "Inr x \<noteq> fail reason detail"
  by (simp_all add: fail_def)

lemma rbind_fail [simp]: "rbind (fail reason detail) f = fail reason detail"
  by (simp add: fail_def)

lemma outcome_fail [outcome_simps, simp]: "outcome E P (fail reason detail) = E (GameLogicError reason detail)"
  by (simp add: fail_def)

section \<open>Limits\<close>

definition max_safe_integer :: int where "max_safe_integer = 9007199254740991"
definition max_gamepack_bytes :: int where "max_gamepack_bytes = 4194304"
definition max_json_depth :: int where "max_json_depth = 64"
definition max_json_nodes :: int where "max_json_nodes = 100000"

text \<open>\<open>ANALYSIS_LIMITS["state_bytes"]\<close>.\<close>

definition state_bytes :: int where "state_bytes = 65536"

definition safe_integer :: "int \<Rightarrow> bool" where
  "safe_integer i \<longleftrightarrow> - max_safe_integer \<le> i \<and> i \<le> max_safe_integer"

section \<open>Sizes\<close>

definition codepoints :: "string \<Rightarrow> int" where
  "codepoints s = int (length (filter (\<lambda>c. \<not> (128 \<le> (of_char c :: nat) \<and> (of_char c :: nat) < 192)) s))"

definition char_size :: "char \<Rightarrow> int" where
  "char_size c =
     (let n = (of_char c :: nat) in
      if n \<in> {34, 92, 8, 12, 10, 13, 9} then 2 else if n < 32 then 6 else 1)"

text \<open>The same classes of characters by their bits, for evaluation.\<close>

fun control :: "char \<Rightarrow> bool" where
  "control (Char b0 b1 b2 b3 b4 b5 b6 b7) \<longleftrightarrow> \<not> b5 \<and> \<not> b6 \<and> \<not> b7"

fun trailing :: "char \<Rightarrow> bool" where
  "trailing (Char b0 b1 b2 b3 b4 b5 b6 b7) \<longleftrightarrow> b7 \<and> \<not> b6"

lemma control_iff: "(of_char c :: nat) < 32 \<longleftrightarrow> control c"
  by (cases c) (simp add: of_char_def; auto)

lemma trailing_iff: "128 \<le> (of_char c :: nat) \<and> (of_char c :: nat) < 192 \<longleftrightarrow> trailing c"
  by (cases c) (simp add: of_char_def; auto)

lemma char_is: "(of_char c :: nat) = of_char d \<longleftrightarrow> c = d"
  by (metis char_of_char)

lemmas char_codes =
  char_is [of _ "CHR 0x22", simplified] char_is [of _ "CHR 0x5C", simplified] char_is [of _ "CHR 0x08", simplified]
  char_is [of _ "CHR 0x0C", simplified] char_is [of _ "CHR 0x0A", simplified] char_is [of _ "CHR 0x0D", simplified]
  char_is [of _ "CHR 0x09", simplified]

lemma codepoints_code [code]: "codepoints s = int (length (filter (\<lambda>c. \<not> trailing c) s))"
  by (simp only: codepoints_def trailing_iff)

lemma char_size_code [code]:
  "char_size c =
     (if control c
      then if c = CHR 0x08 \<or> c = CHR 0x0C \<or> c = CHR 0x0A \<or> c = CHR 0x0D \<or> c = CHR 0x09 then 2 else 6
      else if c = CHR 0x22 \<or> c = CHR 0x5C then 2 else 1)"
  by (auto simp: char_size_def Let_def char_codes control_iff)

definition text_size :: "string \<Rightarrow> int" where
  "text_size s = 2 + sum_list (map char_size s)"

text \<open>
  \<open>_json_string_size\<close> with a byte budget: the loop stops as soon as the size passes the budget,
  which it does exactly if the whole size passes it.
\<close>

definition json_string_size :: "string \<Rightarrow> int \<Rightarrow> int res" where
  "json_string_size s maximum =
     (if maximum < 2 \<or> maximum - 2 < codepoints s \<or> maximum < text_size s
      then fail ''gamepack_bytes_exceeded'' ''JSON string exceeds the remaining canonical byte budget''
      else Inr (text_size s))"

definition add_bytes :: "int \<Rightarrow> int \<Rightarrow> int \<Rightarrow> int res" where
  "add_bytes maximum amount used =
     (if maximum < used + amount
      then fail ''gamepack_bytes_exceeded'' (''canonical JSON exceeds '' @ dec maximum @ '' bytes'')
      else Inr (used + amount))"

definition add_string :: "int \<Rightarrow> int \<Rightarrow> string \<Rightarrow> int res" where
  "add_string maximum used s =
     (let remaining = maximum - used in
      if remaining < 2 \<or> remaining - 2 < codepoints s
      then fail ''gamepack_bytes_exceeded'' (''canonical JSON exceeds '' @ dec maximum @ '' bytes'')
      else rbind (json_string_size s remaining) (\<lambda>n. add_bytes maximum n used))"

definition impossible_batch :: "int \<Rightarrow> int \<Rightarrow> string list \<Rightarrow> bool" where
  "impossible_batch maximum used values \<longleftrightarrow>
     maximum - used < sum_list (map (\<lambda>s. codepoints s + 2) values)"

definition reject_impossible_string_batch :: "int \<Rightarrow> int \<Rightarrow> string list \<Rightarrow> unit res" where
  "reject_impossible_string_batch maximum used values =
     reject (impossible_batch maximum used values) ''gamepack_bytes_exceeded''
       (''canonical JSON exceeds '' @ dec maximum @ '' bytes'')"

definition strings_in :: "json list \<Rightarrow> string list" where
  "strings_in xs = concat (map (\<lambda>j. case j of JStr s \<Rightarrow> [s] | _ \<Rightarrow> []) xs)"

section \<open>Snapshots\<close>

text \<open>
  \<open>max\<close> and the number of commas: \<open>2 + max(0, child_count - 1)\<close>, and a colon for every entry of
  an object. The state of the walk is the pair of counters \<open>nodes\<close> and \<open>encoded_bytes\<close>.
\<close>

definition brackets :: "nat \<Rightarrow> int" where
  "brackets n = 2 + max 0 (int n - 1)"

definition too_many_nodes :: "int \<Rightarrow> unit res" where
  "too_many_nodes nodes = reject (max_json_nodes < nodes) ''json_nodes_exceeded'' ''JSON exceeds 100000 nodes''"

lemma size_snd: "(k, x) \<in> set kvs \<Longrightarrow> size x < Suc (size_list (size_prod (\<lambda>_. 0) size) kvs)"
  by (induction kvs) auto

function snapshot_json_graph :: "bool \<Rightarrow> int \<Rightarrow> int \<Rightarrow> int \<times> int \<Rightarrow> json \<Rightarrow> (int \<times> int) res" where
  "snapshot_json_graph allow_float maximum depth (nodes, used) v =
     rbind (too_many_nodes (nodes + 1)) (\<lambda>_.
     rbind (reject (max_json_depth < depth) ''json_depth_exceeded'' ''JSON exceeds 64 levels'') (\<lambda>_.
     let nodes = nodes + 1; count = (\<lambda>n. rbind (add_bytes maximum n used) (\<lambda>used. Inr (nodes, used))) in
     case v of
       JObj kvs \<Rightarrow>
         rbind (too_many_nodes (nodes + int (length kvs))) (\<lambda>_.
         rbind (add_bytes maximum (brackets (length kvs) + int (length kvs)) used) (\<lambda>used.
         rbind (reject (list_ex (\<lambda>(k, _). k = []) kvs) ''json_key_invalid''
                  ''JSON object keys must be non-empty strings'') (\<lambda>_.
         rbind (reject_impossible_string_batch maximum used (map fst kvs @ strings_in (map snd kvs))) (\<lambda>_.
         rbind (foldR (add_string maximum) used (map fst kvs)) (\<lambda>used.
           foldR (snapshot_json_graph allow_float maximum (depth + 1)) (nodes, used) (map snd kvs))))))
     | JArr xs \<Rightarrow>
         rbind (too_many_nodes (nodes + int (length xs))) (\<lambda>_.
         rbind (add_bytes maximum (brackets (length xs)) used) (\<lambda>used.
         rbind (reject_impossible_string_batch maximum used (strings_in xs)) (\<lambda>_.
           foldR (snapshot_json_graph allow_float maximum (depth + 1)) (nodes, used) xs)))
     | JNull \<Rightarrow> count 4
     | JBool b \<Rightarrow> count (if b then 4 else 5)
     | JInt i \<Rightarrow>
         if safe_integer i then count (int (length (dec i)))
         else fail ''json_integer_unsupported'' ''JSON integer is outside the JavaScript-safe range''
     | JStr s \<Rightarrow> rbind (add_string maximum used s) (\<lambda>used. Inr (nodes, used))
     | JFloat t \<Rightarrow>
         if allow_float then count (int (length t))
         else fail ''json_float_unsupported'' ''decimal and exponent numbers are unsupported''))"
  by pat_completeness auto
termination
  by (relation "measure (\<lambda>(_, _, _, _, v). size v)")
    (auto dest: size_snd simp: less_Suc_eq_le size_list_estimation')

declare snapshot_json_graph.simps [simp del]

definition snapshot_plain_json :: "int \<Rightarrow> json \<Rightarrow> json res" where
  "snapshot_plain_json maximum v =
     rbind (snapshot_json_graph False maximum 1 (0, 0) v) (\<lambda>_. Inr v)"

record candidate_action =
  ca_action_id :: string
  ca_parameters :: "json dict"

definition action_object :: "candidate_action \<Rightarrow> json" where
  "action_object c = JObj [(''action_id'', JStr (ca_action_id c)), (''parameters'', JObj (ca_parameters c))]"

definition snapshot_strict_candidate :: "candidate_action \<Rightarrow> candidate_action res" where
  "snapshot_strict_candidate c =
     rbind (reject (ca_action_id c = []) ''action_invalid'' ''action must be a CandidateAction with an ID'') (\<lambda>_.
     rbind (snapshot_plain_json state_bytes (action_object c)) (\<lambda>_. Inr c))"

definition snapshot_strict_state :: "json dict \<Rightarrow> json dict res" where
  "snapshot_strict_state st = rbind (snapshot_plain_json state_bytes (JObj st)) (\<lambda>_. Inr st)"

section \<open>Canonical bytes and hashes\<close>

definition canonical_bytes_owned :: "json \<Rightarrow> string res" where
  "canonical_bytes_owned v =
     rbind (reject (max_gamepack_bytes < int (length (json_text v))) ''gamepack_bytes_exceeded''
              ''canonical JSON exceeds 4194304 bytes'') (\<lambda>_. Inr (json_text v))"

definition is_str :: "json \<Rightarrow> bool" where
  "is_str j = (case j of JStr _ \<Rightarrow> True | _ \<Rightarrow> False)"

definition state_value :: "json \<Rightarrow> bool" where
  "state_value j =
     (case j of JBool _ \<Rightarrow> True | JInt _ \<Rightarrow> True | JStr _ \<Rightarrow> True | JArr xs \<Rightarrow> list_all is_str xs | _ \<Rightarrow> False)"

definition check_state_value :: "string \<times> json \<Rightarrow> unit res" where
  "check_state_value kv =
     (case kv of (k, v) \<Rightarrow>
      case v of JInt i \<Rightarrow>
          reject (\<not> safe_integer i) ''state_domain_invalid'' (''state '' @ k @ '' is outside the safe integer range'')
      | _ \<Rightarrow>
          reject (\<not> state_value v) ''state_domain_invalid''
            (''state '' @ k @ '' uses an unsupported JSON value type''))"

definition canonical_state_bytes :: "json dict \<Rightarrow> string res" where
  "canonical_state_bytes st =
     rbind (snapshot_plain_json state_bytes (JObj st)) (\<lambda>_.
     rbind (foldR (\<lambda>_. check_state_value) () st) (\<lambda>_. canonical_bytes_owned (JObj st)))"

definition canonical_state_hash :: "(string \<Rightarrow> string) \<Rightarrow> json dict \<Rightarrow> string res" where
  "canonical_state_hash sha st = rbind (canonical_state_bytes st) (\<lambda>text. Inr (sha text))"

definition canonical_action_hash :: "(string \<Rightarrow> string) \<Rightarrow> candidate_action \<Rightarrow> string res" where
  "canonical_action_hash sha c =
     rbind (snapshot_strict_candidate c) (\<lambda>owned.
     rbind (canonical_bytes_owned (action_object owned)) (\<lambda>text. Inr (sha text)))"

text \<open>Event sequences; that a string is in normal form NFC is the parameter \<open>nfc\<close>.\<close>

definition snapshot_event_sequence :: "(string \<Rightarrow> bool) \<Rightarrow> string \<Rightarrow> string list \<Rightarrow> string list res" where
  "snapshot_event_sequence nfc reason events =
     (let detail = ''events must be an exact bounded sequence of NFC event IDs'' in
      rbind (reject (max_json_nodes - 1 < int (length events)) reason
               ''events exceed the bounded sequence limit'') (\<lambda>_.
      case snapshot_plain_json state_bytes (JArr (map JStr events)) of
        Inl _ \<Rightarrow> fail reason detail
      | Inr _ \<Rightarrow> rbind (reject (\<not> list_all (\<lambda>e. e \<noteq> [] \<and> nfc e) events) reason detail) (\<lambda>_. Inr events)))"

definition canonical_events_hash :: "(string \<Rightarrow> bool) \<Rightarrow> (string \<Rightarrow> string) \<Rightarrow> string list \<Rightarrow> string res" where
  "canonical_events_hash nfc sha events =
     rbind (snapshot_event_sequence nfc ''events_invalid'' events) (\<lambda>owned.
     rbind (canonical_bytes_owned (JArr (map JStr owned))) (\<lambda>text. Inr (sha text)))"

definition canonical_gamepack_hash :: "(string \<Rightarrow> string) \<Rightarrow> json dict \<Rightarrow> string res" where
  "canonical_gamepack_hash sha pack =
     rbind (snapshot_plain_json max_gamepack_bytes (JObj pack)) (\<lambda>_.
     rbind (canonical_bytes_owned (JObj (AList.delete ''content_hash'' pack))) (\<lambda>text. Inr (sha text)))"

section \<open>Counted bytes are written bytes\<close>

lemma quoted_size: "int (length (quoted s)) = text_size s"
proof -
  have "int (length (escape_char c)) = char_size c" for c
    by (simp add: escape_char_def char_size_def Let_def)
  then have "int (length (concat (map escape_char s))) = sum_list (map char_size s)"
    by (induction s) simp_all
  then show ?thesis by (simp add: quoted_def text_size_def)
qed

lemma joined_size: "int (length (joined xs)) + 2 = brackets (length xs) + sum_list (map (\<lambda>x. int (length x)) xs)"
  by (induction xs rule: joined.induct) (simp_all add: brackets_def)

lemma sum_list_sort_key: "sum_list (map (g :: _ \<Rightarrow> int) (sort_key f xs)) = sum_list (map g xs)"
  by (metis mset_map mset_sort sum_mset_sum_list)

abbreviation written :: "json \<Rightarrow> int" where
  "written v \<equiv> int (length (json_text v))"

lemma written_array: "written (JArr xs) = brackets (length xs) + sum_list (map written xs)"
  using joined_size [of "map json_text xs"] by (simp add: comp_def)

lemma written_object:
  "written (JObj kvs) =
     brackets (length kvs) + int (length kvs) + sum_list (map (\<lambda>k. text_size k) (map fst kvs)) + sum_list (map written (map snd kvs))"
proof -
  let ?entries = "sort_key fst (map (\<lambda>(k, v). (k, json_text v)) kvs)"
  let ?line = "\<lambda>(k, t). quoted k @ '':'' @ t"
  have "written (JObj kvs) = brackets (length kvs) + sum_list (map (\<lambda>e. int (length (?line e))) ?entries)"
    using joined_size [of "map ?line ?entries"] by (simp add: comp_def)
  also have "sum_list (map (\<lambda>e. int (length (?line e))) ?entries) =
      sum_list (map (\<lambda>(k, v). text_size k + 1 + written v) kvs)"
    by (simp add: sum_list_sort_key comp_def case_prod_unfold quoted_size algebra_simps)
  also have "\<dots> = int (length kvs) + sum_list (map text_size (map fst kvs)) + sum_list (map written (map snd kvs))"
    by (induction kvs) auto
  finally show ?thesis by simp
qed

lemma add_bytes_Inr [simp]: "add_bytes m n u = Inr u' \<longleftrightarrow> u + n \<le> m \<and> u' = u + n"
  by (auto simp: add_bytes_def)

lemma add_string_Inr: "add_string m u s = Inr u' \<Longrightarrow> u' = u + text_size s"
  by (auto simp: add_string_def Let_def json_string_size_def split: if_splits)

lemma add_strings_Inr: "foldR (add_string m) u ss = Inr u' \<Longrightarrow> u' = u + sum_list (map text_size ss)"
  by (induction ss arbitrary: u) (fastforce dest!: add_string_Inr)+

lemma foldR_counts:
  assumes "\<And>x n u n' u'. x \<in> set xs \<Longrightarrow> f (n, u) x = Inr (n', u') \<Longrightarrow> u' = u + g x"
    and "foldR f (n, u) xs = Inr (n', u')"
  shows "u' = u + (sum_list (map g xs) :: int)"
  using assms
proof (induction xs arbitrary: n u)
  case (Cons x xs)
  from Cons.prems(2) obtain m w where "f (n, u) x = Inr (m, w)" "foldR f (m, w) xs = Inr (n', u')" by auto
  then show ?case using Cons.IH [of m w] Cons.prems(1) by fastforce
qed simp

lemma snapshot_counts:
  "snapshot_json_graph fl m d (n, u) v = Inr (n', u') \<Longrightarrow> u' = u + written v"
proof (induction v arbitrary: d n u n' u')
  case (JArr xs)
  then obtain w where "foldR (snapshot_json_graph fl m (d + 1)) (n + 1, u + brackets (length xs)) xs = Inr (n', u')"
    by (auto simp: Let_def snapshot_json_graph.simps [of _ _ _ _ _ "JArr xs"])
  from foldR_counts [OF _ this, of written] JArr.IH show ?case by (simp add: written_array del: json_text.simps)
next
  case (JObj kvs)
  then obtain w where
    w: "foldR (add_string m) (u + (brackets (length kvs) + int (length kvs))) (map fst kvs) = Inr w"
    and rest: "foldR (snapshot_json_graph fl m (d + 1)) (n + 1, w) (map snd kvs) = Inr (n', u')"
    by (auto simp: Let_def snapshot_json_graph.simps [of _ _ _ _ _ "JObj kvs"])
  have "u' = w + sum_list (map written (map snd kvs))"
    by (rule foldR_counts [OF _ rest]) (use JObj.IH in \<open>auto simp: snds.simps\<close>)
  with add_strings_Inr [OF w] show ?case by (simp add: written_object del: json_text.simps)
qed (auto simp: Let_def snapshot_json_graph.simps dec_def quoted_size dest!: add_string_Inr split: if_splits)

lemma add_string_bound: "add_string m u s = Inr u' \<Longrightarrow> u' \<le> m"
  by (auto simp: add_string_def Let_def split: if_splits)

lemma foldR_keeps:
  assumes "P s" and "foldR f s xs = Inr s'" and "\<And>s s' x. x \<in> set xs \<Longrightarrow> f s x = Inr s' \<Longrightarrow> P s'"
  shows "P s'"
  using assms
proof (induction xs arbitrary: s)
  case (Cons x xs)
  from Cons.prems(2) obtain w where w: "f s x = Inr w" "foldR f w xs = Inr s'" by auto
  show ?case by (rule Cons.IH [OF _ w(2)]) (use Cons.prems(3) w(1) in auto)
qed simp

lemma snapshot_bound: "snapshot_json_graph fl m d nu v = Inr nu' \<Longrightarrow> snd nu' \<le> m"
proof (induction v arbitrary: d nu nu')
  case (JArr xs)
  obtain n u where nu: "nu = (n, u)" by (cases nu)
  have "u + brackets (length xs) \<le> m"
    and rest: "foldR (snapshot_json_graph fl m (d + 1)) (n + 1, u + brackets (length xs)) xs = Inr nu'"
    using JArr.prems by (auto simp: nu Let_def snapshot_json_graph.simps [of _ _ _ _ _ "JArr xs"])
  then show ?case by (intro foldR_keeps [where P = "\<lambda>nu. snd nu \<le> m", OF _ rest]) (use JArr.IH in auto)
next
  case (JObj kvs)
  obtain n u where nu: "nu = (n, u)" by (cases nu)
  obtain w where b: "u + (brackets (length kvs) + int (length kvs)) \<le> m"
    and w: "foldR (add_string m) (u + (brackets (length kvs) + int (length kvs))) (map fst kvs) = Inr w"
    and rest: "foldR (snapshot_json_graph fl m (d + 1)) (n + 1, w) (map snd kvs) = Inr nu'"
    using JObj.prems by (auto simp: nu Let_def snapshot_json_graph.simps [of _ _ _ _ _ "JObj kvs"])
  have "w \<le> m" by (rule foldR_keeps [where P = "\<lambda>u. u \<le> m", OF b w]) (rule add_string_bound)
  then show ?case
    by (intro foldR_keeps [where P = "\<lambda>nu. snd nu \<le> m", OF _ rest]) (use JObj.IH in \<open>auto simp: snds.simps\<close>)
qed (cases nu; auto simp: Let_def snapshot_json_graph.simps dest: add_string_bound split: if_splits)+

text \<open>A successful snapshot gives the value back, and its canonical text fits the byte budget.\<close>

theorem snapshot_fits:
  assumes "snapshot_plain_json maximum v = Inr w"
  shows "w = v \<and> written v \<le> maximum"
proof -
  obtain n u where s: "snapshot_json_graph False maximum 1 (0, 0) v = Inr (n, u)" and w: "w = v"
    using assms by (auto simp: snapshot_plain_json_def)
  show ?thesis using snapshot_counts [OF s] snapshot_bound [OF s] w by simp
qed

end
