(* ===== verification/Gamepack.thy ===== *)
theory Gamepack
  imports JsonSnapshot "HOL-Library.AList"
begin

text \<open>
  The interpreter of generic gamepacks, \<open>GamepackInterpreter\<close> of
  \<open>src/gamepack_runtime/semantics_v1.py\<close>, over the JSON document it runs on: every \<open>get\<close>,
  \<open>isinstance\<close> and comparison of the code is a case here, every \<open>GameLogicError\<close> a
  \<^const>\<open>fail\<close>. \<open>deepcopy\<close> is the identity on values. \<open>sha\<close> is SHA-256. The text of a
  container, which \<open>str(...)\<close> gives for an ID that is not a string, is its JSON text here; neither
  is ever an ID.
\<close>

section \<open>Values\<close>

text \<open>\<open>==\<close> on JSON values: \<open>True == 1\<close>, arrays by element, objects without order.\<close>

function py_eq :: "json \<Rightarrow> json \<Rightarrow> bool" where
  "py_eq a b =
     (case (a, b) of
        (JNull, JNull) \<Rightarrow> True
      | (JBool x, JBool y) \<Rightarrow> x = y
      | (JBool x, JInt i) \<Rightarrow> of_bool x = i
      | (JInt i, JBool x) \<Rightarrow> of_bool x = i
      | (JInt i, JInt j) \<Rightarrow> i = j
      | (JFloat s, JFloat t) \<Rightarrow> s = t
      | (JStr s, JStr t) \<Rightarrow> s = t
      | (JArr xs, JArr ys) \<Rightarrow> length xs = length ys \<and> list_all (\<lambda>(x, y). py_eq x y) (zip xs ys)
      | (JObj kvs, JObj lws) \<Rightarrow>
          length kvs = length lws \<and>
          list_all (\<lambda>(k, v). case map_of lws k of None \<Rightarrow> False | Some w \<Rightarrow> py_eq v w) kvs
      | _ \<Rightarrow> False)"
  by pat_completeness auto
termination
  by (relation "measure (\<lambda>(a, _). size a)")
    (auto dest: size_snd dest!: set_zip_leftD simp: less_Suc_eq_le size_list_estimation')

declare py_eq.simps [simp del]

fun json_type :: "json \<Rightarrow> nat" where
  "json_type JNull = 0" | "json_type (JBool _) = 1" | "json_type (JInt _) = 2"
| "json_type (JFloat _) = 3" | "json_type (JStr _) = 4" | "json_type (JArr _) = 5"
| "json_type (JObj _) = 6"

definition id_text :: "json \<Rightarrow> string" where
  "id_text j =
     (case j of JStr s \<Rightarrow> s | JNull \<Rightarrow> ''None'' | JInt i \<Rightarrow> dec i | JFloat t \<Rightarrow> t
      | JBool b \<Rightarrow> (if b then ''True'' else ''False'') | _ \<Rightarrow> json_text j)"

text \<open>\<open>isinstance(value, int)\<close>, which holds of \<open>bool\<close> too, with the integer that \<open>int(value)\<close> gives.\<close>

definition as_int :: "json \<Rightarrow> int option" where
  "as_int j = (case j of JInt i \<Rightarrow> Some i | JBool b \<Rightarrow> Some (of_bool b) | _ \<Rightarrow> None)"

definition hashable :: "json \<Rightarrow> bool" where
  "hashable j = (case j of JArr _ \<Rightarrow> False | JObj _ \<Rightarrow> False | _ \<Rightarrow> True)"

text \<open>\<open>set(value)\<close>, with the elements as a list.\<close>

definition set_from :: "json \<Rightarrow> json list res" where
  "set_from j =
     rbind (iterated j) (\<lambda>xs. if list_all hashable xs then Inr xs else Inl (TypeError ''unhashable type''))"

text \<open>\<open>text in container\<close>: on a string this looks for a substring.\<close>

definition contained :: "string \<Rightarrow> json \<Rightarrow> bool res" where
  "contained s j =
     (case j of JStr t \<Rightarrow> Inr (list_ex (\<lambda>n. take (length s) (drop n t) = s) [0..<Suc (length t)])
      | _ \<Rightarrow> rbind (iterated j) (\<lambda>xs. Inr (JStr s \<in> set xs)))"

definition allowed_values :: "json dict \<Rightarrow> json" where
  "allowed_values schema = obj_get_or schema ''allowed_values'' (JArr [])"

section \<open>The interpreter\<close>

record interpreter =
  gi_gamepack :: "json dict"
  gi_logic :: "json dict"
  gi_schema :: "json dict dict"
  gi_actions :: "json dict dict"
  gi_conditions :: "json dict dict"
  gi_effects :: "json dict dict"
  gi_rules :: "json dict dict"
  gi_goals :: "json dict list"
  gi_failures :: "json dict list"
  gi_endings :: "json dict list"
  gi_transitions :: "json dict list"
  gi_by_action :: "json dict dict"
  gi_limit :: int
  gi_candidates :: "candidate_action list"

definition records :: "json \<Rightarrow> string \<Rightarrow> json dict list res" where
  "records v context =
     (case v of
        JArr xs \<Rightarrow>
          if list_all is_obj xs then mapR as_obj xs
          else fail ''gamepack_logic_invalid'' (context @ '' contains a non-object'')
      | _ \<Rightarrow> fail ''gamepack_logic_invalid'' (context @ '' must be an array''))"

definition index_record :: "string \<Rightarrow> json dict dict \<Rightarrow> json dict \<Rightarrow> json dict dict res" where
  "index_record context result item =
     (case obj_get item ''id'' of
        JStr identifier \<Rightarrow>
          if dict_mem identifier result
          then fail ''gamepack_logic_invalid'' (context @ '' contains an invalid or duplicate ID'')
          else Inr (result @ [(identifier, item)])
      | _ \<Rightarrow> fail ''gamepack_logic_invalid'' (context @ '' contains an invalid or duplicate ID''))"

definition index_records :: "json \<Rightarrow> string \<Rightarrow> json dict dict res" where
  "index_records v context = rbind (records v context) (foldR (index_record context) [])"

definition index_transition :: "json dict dict \<Rightarrow> json dict \<Rightarrow> json dict dict res" where
  "index_transition result item =
     (let failed = fail ''narrative_transition_unsupported''
                     ''each narrative action must own exactly one transition'' in
      case obj_get item ''action_id'' of
        JStr action_id \<Rightarrow> if dict_mem action_id result then failed else Inr (result @ [(action_id, item)])
      | _ \<Rightarrow> failed)"

section \<open>Candidates\<close>

text \<open>\<open>itertools.permutations(xs, size)\<close>: by position, in lexicographic order of positions.\<close>

fun permutations :: "nat \<Rightarrow> 'a list \<Rightarrow> 'a list list" where
  "permutations 0 xs = [[]]"
| "permutations (Suc n) xs =
     concat (map (\<lambda>i. map (Cons (xs ! i)) (permutations n (take i xs @ drop (Suc i) xs))) [0..<length xs])"

fun falling :: "int \<Rightarrow> nat \<Rightarrow> int" where
  "falling n 0 = 1"
| "falling n (Suc k) = (if n \<le> 0 then 0 else n * falling (n - 1) k)"

definition sizes :: "int \<Rightarrow> int \<Rightarrow> nat list" where
  "sizes minimum maximum = map nat [minimum..maximum]"

definition is_int :: "json \<Rightarrow> bool" where
  "is_int j = (case j of JInt _ \<Rightarrow> True | _ \<Rightarrow> False)"

definition int_of :: "json \<Rightarrow> int" where
  "int_of j = (case j of JInt i \<Rightarrow> i | _ \<Rightarrow> 0)"

definition strings_of :: "json \<Rightarrow> json list option" where
  "strings_of j = (case j of JArr xs \<Rightarrow> if list_all is_str xs then Some xs else None | _ \<Rightarrow> None)"

definition domain_values :: "int \<Rightarrow> json dict \<Rightarrow> json list res" where
  "domain_values limit p =
     (let kind = obj_get p ''type''; allowed = strings_of (obj_get p ''allowed_values'') in
      if kind = JStr ''boolean'' then Inr [JBool False, JBool True]
      else if kind = JStr ''integer'' then
        (let minimum = obj_get p ''minimum''; maximum = obj_get p ''maximum'' in
         if \<not> is_int minimum \<or> \<not> is_int maximum \<or> int_of maximum < int_of minimum
         then fail ''parameter_domain_invalid'' ''integer domain is invalid''
         else if limit < int_of maximum - int_of minimum + 1
         then fail ''parameter_combinations_exceeded''
                ''an integer parameter exceeds the per-action combination limit''
         else Inr (map JInt [int_of minimum..int_of maximum]))
      else if kind = JStr ''string'' then
        (case allowed of None \<Rightarrow> fail ''parameter_domain_invalid'' ''string domain is invalid''
         | Some xs \<Rightarrow> Inr xs)
      else if kind = JStr ''string_array'' then
        (let minimum = obj_get p ''min_items''; maximum = obj_get p ''max_items'';
             bad = \<not> is_int minimum \<or> \<not> is_int maximum \<or> int_of minimum < 0 \<or> int_of maximum < int_of minimum in
         case (if bad then None else allowed) of
           None \<Rightarrow> fail ''parameter_domain_invalid'' ''array domain is invalid''
         | Some xs \<Rightarrow>
             let range = sizes (int_of minimum) (int_of maximum) in
             if limit < sum_list (map (falling (int (length xs))) range)
             then fail ''parameter_combinations_exceeded''
                    ''an array parameter exceeds the per-action combination limit''
             else Inr (concat (map (\<lambda>n. map JArr (permutations n xs)) range)))
      else fail ''parameter_type_unsupported'' (''unsupported parameter type '' @ id_text kind))"

text \<open>One parameter of an action: its ID, its domain, and the number of combinations so far.\<close>

definition add_parameter ::
  "int \<Rightarrow> string \<Rightarrow> (string \<times> json list) list \<times> int \<Rightarrow> json \<Rightarrow> ((string \<times> json list) list \<times> int) res" where
  "add_parameter limit action_id acc j =
     (case (acc, j) of
        ((axes, cardinality), JObj p) \<Rightarrow>
          (case obj_get p ''id'' of
             JStr pid \<Rightarrow>
               rbind (domain_values limit p) (\<lambda>domain.
               rbind (reject (domain = []) ''parameter_domain_invalid''
                        (''parameter '' @ pid @ '' has an empty domain'')) (\<lambda>_.
               let cardinality = cardinality * int (length domain) in
               rbind (reject (limit < cardinality) ''parameter_combinations_exceeded''
                        (''action '' @ action_id @ '' exceeds the per-action combination limit'')) (\<lambda>_.
               Inr (axes @ [(pid, domain)], cardinality))))
           | _ \<Rightarrow> fail ''parameter_domain_invalid'' ''parameter records must have IDs'')
      | _ \<Rightarrow> fail ''parameter_domain_invalid'' ''parameter records must have IDs'')"

definition action_candidates :: "int \<Rightarrow> string \<times> json dict \<Rightarrow> candidate_action list res" where
  "action_candidates limit named =
     (case named of (action_id, action) \<Rightarrow>
      case obj_get action ''parameters'' of
        JArr ps \<Rightarrow>
          rbind (foldR (add_parameter limit action_id) ([], 1) ps) (\<lambda>(axes, _).
            Inr (map (\<lambda>values. \<lparr>ca_action_id = action_id, ca_parameters = dict_of (zip (map fst axes) values)\<rparr>)
                   (product_lists (map snd axes))))
      | _ \<Rightarrow> fail ''parameter_domain_invalid'' ''parameters must be an array'')"

definition enumerate_actions :: "int \<Rightarrow> json dict dict \<Rightarrow> candidate_action list res" where
  "enumerate_actions limit actions =
     rbind (mapR (action_candidates limit) (sort_key fst actions)) (\<lambda>css. Inr (concat css))"

section \<open>Construction\<close>

definition execution_semantics :: json where
  "execution_semantics = JObj
     [(''semantics_version'', JInt 1),
      (''owned_action_rules'', JStr ''all_required''),
      (''condition_collections'', JStr ''and''),
      (''condition_snapshot'', JStr ''pre_transition''),
      (''effect_order'', JStr ''rule_order_then_reference_order''),
      (''effect_state_operands'', JStr ''current_candidate_state''),
      (''event_commit'', JStr ''after_success_rule_reference_order''),
      (''active_failure_recovery'', JStr ''intersection''),
      (''terminal_precedence'', JStr ''endings_before_failures''),
      (''ending_match'', JStr ''exactly_one''),
      (''narrative_transition'', JStr ''source_effects_then_cursor_atomic''),
      (''invalid_transition'', JStr ''reject_without_mutation'')]"

definition analysis_limits :: "json dict" where
  "analysis_limits =
     [(''candidate_evaluations'', JInt 262144), (''depth'', JInt 512),
      (''parameter_combinations_per_action'', JInt 4096), (''state_bytes'', JInt 65536),
      (''states'', JInt 16384), (''total_state_bytes'', JInt 67108864),
      (''total_witness_steps'', JInt 4096), (''witness_traces'', JInt 128)]"

text \<open>\<open>None\<close> stands for the shared default map; another map must be an exact copy of its keys.\<close>

definition owned_analysis_limits :: "json option \<Rightarrow> json dict res" where
  "owned_analysis_limits value =
     (case value of
        None \<Rightarrow> Inr analysis_limits
      | Some (JObj m) \<Rightarrow>
          rbind (snapshot_plain_json state_bytes (JObj m)) (\<lambda>_.
          rbind (reject (set (dict_keys m) \<noteq> set (dict_keys analysis_limits) \<or>
                         list_ex (\<lambda>(_, v). \<not> is_int v \<or> int_of v < 1) m)
                   ''analysis_policy_invalid'' ''interpreter limits must be the exact positive v1 limit map'')
            (\<lambda>_. Inr m))
      | Some _ \<Rightarrow> fail ''analysis_policy_invalid'' ''interpreter limits must be an exact object'')"

text \<open>
  \<open>GamepackInterpreter(gamepack, already_validated=True, limits=...)\<close>; without the flag the code
  first runs \<open>validate_runtime_gamepack\<close>.
\<close>

definition make_interpreter :: "json dict \<Rightarrow> json option \<Rightarrow> interpreter res" where
  "make_interpreter pack limits =
     rbind (owned_analysis_limits limits) (\<lambda>owned.
     rbind (snapshot_plain_json max_gamepack_bytes (JObj pack)) (\<lambda>_.
     case obj_get pack ''logic'' of
       JObj logic \<Rightarrow>
         let limit = int_of (obj_get owned ''parameter_combinations_per_action'') in
         rbind (reject (\<not> py_eq (obj_get logic ''execution_semantics'') execution_semantics)
                  ''execution_semantics_unsupported'' ''gamepack does not require the exact v1 execution policy'') (\<lambda>_.
         rbind (index_records (obj_get logic ''state_schema'') ''state_schema'') (\<lambda>schema.
         rbind (index_records (obj_get logic ''actions'') ''actions'') (\<lambda>actions.
         rbind (index_records (obj_get logic ''conditions'') ''conditions'') (\<lambda>conditions.
         rbind (index_records (obj_get logic ''effects'') ''effects'') (\<lambda>effects.
         rbind (index_records (obj_get logic ''rules'') ''rules'') (\<lambda>rules.
         rbind (records (obj_get logic ''goals'') ''goals'') (\<lambda>goals.
         rbind (records (obj_get logic ''failures'') ''failures'') (\<lambda>failures.
         rbind (records (obj_get logic ''endings'') ''endings'') (\<lambda>endings.
         rbind (records (obj_get logic ''narrative_transitions'') ''narrative_transitions'') (\<lambda>transitions.
         rbind (foldR index_transition [] transitions) (\<lambda>by_action.
         rbind (enumerate_actions limit actions) (\<lambda>candidates.
           Inr \<lparr>gi_gamepack = pack, gi_logic = logic, gi_schema = schema, gi_actions = actions,
                gi_conditions = conditions, gi_effects = effects, gi_rules = rules, gi_goals = goals,
                gi_failures = failures, gi_endings = endings, gi_transitions = transitions,
                gi_by_action = by_action, gi_limit = limit, gi_candidates = candidates\<rparr>))))))))))))
     | _ \<Rightarrow> fail ''gamepack_logic_invalid'' ''logic must be an object''))"

section \<open>Domains\<close>

definition distinct_strings :: "json list \<Rightarrow> bool" where
  "distinct_strings xs \<longleftrightarrow> list_all is_str xs \<and> distinct xs"

text \<open>
  \<open>_validate_parameter_value\<close> and \<open>_validate_state_value\<close> differ in the bound on integers only.
\<close>

definition in_domain :: "bool \<Rightarrow> json dict \<Rightarrow> json \<Rightarrow> bool res" where
  "in_domain safe schema v =
     (let kind = obj_get schema ''type'' in
      if kind = JStr ''boolean'' then Inr (case v of JBool _ \<Rightarrow> True | _ \<Rightarrow> False)
      else if kind = JStr ''integer'' then
        Inr (case (v, as_int (obj_get schema ''minimum''), as_int (obj_get schema ''maximum'')) of
               (JInt i, Some lo, Some hi) \<Rightarrow> (safe \<longrightarrow> safe_integer i) \<and> lo \<le> i \<and> i \<le> hi
             | _ \<Rightarrow> False)
      else if kind = JStr ''string'' then
        (case v of JStr s \<Rightarrow> contained s (allowed_values schema) | _ \<Rightarrow> Inr False)
      else if kind = JStr ''string_array'' then
        (case (v, as_int (obj_get schema ''min_items''), as_int (obj_get schema ''max_items'')) of
           (JArr xs, Some lo, Some hi) \<Rightarrow>
             if distinct_strings xs \<and> lo \<le> int (length xs) \<and> int (length xs) \<le> hi
             then rbind (set_from (allowed_values schema)) (\<lambda>ys. Inr (set xs \<subseteq> set ys))
             else Inr False
         | _ \<Rightarrow> Inr False)
      else Inr False)"

definition validate_parameter_value :: "json dict \<Rightarrow> json \<Rightarrow> bool res" where
  "validate_parameter_value = in_domain False"

definition validate_state_value :: "json dict \<Rightarrow> json \<Rightarrow> bool res" where
  "validate_state_value = in_domain True"

definition check_parameter ::
  "candidate_action \<Rightarrow> json dict \<Rightarrow> json \<Rightarrow> json dict res" where
  "check_parameter c checked j =
     rbind (as_obj j) (\<lambda>p.
     let pid = id_text (obj_get p ''id'') in
     rbind (dict_at (ca_parameters c) pid) (\<lambda>v.
     rbind (validate_parameter_value p v) (\<lambda>ok.
       if ok then Inr (AList.update pid v checked)
       else fail ''action_parameters_invalid''
              (''action '' @ ca_action_id c @ '' parameter '' @ pid @ '' is outside its domain''))))"

definition validated_parameters :: "json dict \<Rightarrow> candidate_action \<Rightarrow> json dict res" where
  "validated_parameters action c =
     (case obj_get action ''parameters'' of
        JArr ps \<Rightarrow>
          if \<not> list_all is_obj ps \<or>
             JStr ` set (dict_keys (ca_parameters c)) \<noteq>
               (\<lambda>j. case j of JObj p \<Rightarrow> obj_get p ''id'' | _ \<Rightarrow> JNull) ` set ps
          then fail ''action_parameters_invalid''
                 (''action '' @ ca_action_id c @ '' parameters do not exactly match'')
          else foldR (check_parameter c) [] ps
      | _ \<Rightarrow> fail ''parameter_domain_invalid'' ''parameters must be an array'')"

definition check_state :: "json dict \<Rightarrow> unit \<Rightarrow> string \<times> json dict \<Rightarrow> unit res" where
  "check_state st u named =
     (case named of (sid, schema) \<Rightarrow>
      rbind (dict_at st sid) (\<lambda>v.
      rbind (validate_state_value schema v) (\<lambda>ok.
        reject (\<not> ok) ''state_domain_invalid'' (''state '' @ sid @ '' is outside its exact domain''))))"

definition gp_validate_state :: "interpreter \<Rightarrow> json dict \<Rightarrow> unit res" where
  "gp_validate_state gi st =
     rbind (reject (set (dict_keys st) \<noteq> set (dict_keys (gi_schema gi))) ''state_domain_invalid''
              ''state keys do not exactly match schema'') (\<lambda>_.
       foldR (check_state st) () (gi_schema gi))"

definition gp_initial_state :: "interpreter \<Rightarrow> json dict res" where
  "gp_initial_state gi =
     (case obj_get (gi_logic gi) ''initial_state'' of
        JObj st \<Rightarrow> rbind (gp_validate_state gi st) (\<lambda>_. Inr st)
      | _ \<Rightarrow> fail ''initial_state_invalid'' ''initial_state must be an object'')"

section \<open>Operands and conditions\<close>

definition operand_value :: "json dict \<Rightarrow> json dict \<Rightarrow> string option \<Rightarrow> json \<Rightarrow> json res" where
  "operand_value st params aid j =
     (case j of
        JObj ob \<Rightarrow>
          (let kind = obj_get ob ''kind'' in
           if kind = JStr ''literal'' then Inr (obj_get ob ''value'')
           else if kind = JStr ''state'' then
             (case obj_get ob ''state_id'' of
                JStr sid \<Rightarrow>
                  (case map_of st sid of None \<Rightarrow> fail ''operand_invalid'' ''state operand is unknown'' | Some v \<Rightarrow> Inr v)
              | _ \<Rightarrow> fail ''operand_invalid'' ''state operand is unknown'')
           else if kind = JStr ''parameter'' then
             (case (obj_get ob ''action_id'', obj_get ob ''parameter_id'') of
                (JStr owner, JStr pid) \<Rightarrow>
                  (case (if Some owner = aid then map_of params pid else None) of
                     None \<Rightarrow> fail ''operand_invalid'' ''parameter operand is out of scope''
                   | Some v \<Rightarrow> Inr v)
              | _ \<Rightarrow> fail ''operand_invalid'' ''parameter operand is out of scope'')
           else fail ''operator_unsupported'' (''unsupported operand kind '' @ id_text kind))
      | _ \<Rightarrow> fail ''operand_invalid'' ''operand must be an object'')"

definition compare_values :: "json \<Rightarrow> json \<Rightarrow> json \<Rightarrow> bool res" where
  "compare_values comparison l r =
     (if comparison = JStr ''equal'' then Inr (py_eq l r \<and> json_type l = json_type r)
      else if comparison = JStr ''not_equal'' then Inr (\<not> py_eq l r \<or> json_type l \<noteq> json_type r)
      else case (l, r) of
        (JInt i, JInt k) \<Rightarrow>
          if comparison = JStr ''less_than'' then Inr (i < k)
          else if comparison = JStr ''less_or_equal'' then Inr (i \<le> k)
          else if comparison = JStr ''greater_than'' then Inr (k < i)
          else if comparison = JStr ''greater_or_equal'' then Inr (k \<le> i)
          else fail ''operator_unsupported'' (''unsupported comparison '' @ id_text comparison)
      | _ \<Rightarrow> fail ''condition_invalid'' ''ordered compare requires integers'')"

definition index_in_range :: "json list \<Rightarrow> json \<Rightarrow> bool" where
  "index_in_range xs j = (case j of JInt i \<Rightarrow> 0 \<le> i \<and> i < int (length xs) | _ \<Rightarrow> False)"

definition distance_is :: "json \<Rightarrow> json \<Rightarrow> json \<Rightarrow> bool res" where
  "distance_is l r distance =
     (case (l, r, distance) of
        (JInt i, JInt k, JInt n) \<Rightarrow> Inr (\<bar>i - k\<bar> = n)
      | _ \<Rightarrow> fail ''condition_invalid'' ''integer distance operands are invalid'')"

text \<open>
  \<open>_condition\<close>: the children of \<open>all\<close> and \<open>any\<close> are all evaluated before they are combined. The
  set of active conditions grows with every nested call, so the recursion ends. An operator that is
  an array or an object, which the code cannot look up in a set, counts as unsupported here.
\<close>

function eval_condition ::
  "json dict dict \<Rightarrow> json dict \<Rightarrow> json dict \<Rightarrow> string option \<Rightarrow> string set \<Rightarrow> string \<Rightarrow> bool res" where
  "eval_condition conds st params aid active cid =
     (case map_of conds cid of
        None \<Rightarrow> fail ''condition_unknown'' (''unknown condition '' @ cid)
      | Some c \<Rightarrow>
        if cid \<in> active then fail ''condition_cycle'' (''condition cycle at '' @ cid)
        else if obj_get c ''action_id'' \<noteq> opt_str aid
        then fail ''condition_scope_invalid'' (''condition '' @ cid @ '' does not belong to action scope'')
        else
          let operator = obj_get c ''operator''; operand = (\<lambda>k. operand_value st params aid (obj_get c k)) in
          if operator = JStr ''constant'' then
            (case obj_get c ''value'' of JBool b \<Rightarrow> Inr b
             | _ \<Rightarrow> fail ''condition_invalid'' ''constant condition is not boolean'')
          else if operator = JStr ''compare'' then
            rbind (operand ''left'') (\<lambda>l. rbind (operand ''right'') (\<lambda>r.
              compare_values (obj_get c ''comparison'') l r))
          else if operator = JStr ''all'' \<or> operator = JStr ''any'' then
            (case obj_get c ''condition_ids'' of
               JArr ids \<Rightarrow>
                 rbind (mapR (\<lambda>j. eval_condition conds st params aid (insert cid active) (id_text j)) ids) (\<lambda>bs.
                   Inr (if operator = JStr ''all'' then list_all (\<lambda>b. b) bs else list_ex (\<lambda>b. b) bs))
             | _ \<Rightarrow> fail ''condition_invalid'' ''condition IDs must be an array'')
          else if operator = JStr ''not'' then
            (case obj_get c ''condition_id'' of
               JStr child \<Rightarrow>
                 rbind (eval_condition conds st params aid (insert cid active) child) (\<lambda>b. Inr (\<not> b))
             | _ \<Rightarrow> fail ''condition_invalid'' ''not condition has no child'')
          else if operator = JStr ''index_valid'' then
            (case (case obj_get c ''array_state_id'' of JStr sid \<Rightarrow> obj_get st sid | _ \<Rightarrow> JNull) of
               JArr xs \<Rightarrow> rbind (operand ''index'') (\<lambda>j. Inr (index_in_range xs j))
             | _ \<Rightarrow> fail ''condition_invalid'' ''index condition array is invalid'')
          else if operator = JStr ''integer_distance'' then
            rbind (operand ''left'') (\<lambda>l. rbind (operand ''right'') (\<lambda>r.
              distance_is l r (obj_get c ''distance'')))
          else fail ''operator_unsupported'' (''unsupported condition operator '' @ id_text operator))"
  by pat_completeness auto
termination
proof (relation "measure (\<lambda>(conds, _, _, _, active, _). card (set (dict_keys conds) - active))", goal_cases)
  case 1
  then show ?case by simp
qed (auto simp: dict_keys_def dest!: map_of_SomeD intro!: psubset_card_mono; force)+

declare eval_condition.simps [simp del]

definition eval_conditions ::
  "interpreter \<Rightarrow> json \<Rightarrow> json dict \<Rightarrow> json dict \<Rightarrow> string option \<Rightarrow> bool res" where
  "eval_conditions gi ids st params aid =
     (case ids of
        JArr js \<Rightarrow> allR (\<lambda>j. eval_condition (gi_conditions gi) st params aid {} (id_text j)) js
      | _ \<Rightarrow> fail ''condition_invalid'' ''condition collection must be an array'')"

end
