(* ===== verification/GamepackRun.thy ===== *)
theory GamepackRun
  imports Gamepack
begin

text \<open>
  Transitions of generic gamepacks, the second half of \<open>src/gamepack_runtime/semantics_v1.py\<close>, and
  the session over them (\<open>src/gamepack_runtime/session.py\<close>). A transition that the game does not
  allow is a value with a reason; an exception is left to inputs that are no state or no action
  of the pack. \<open>int(...)\<close> of a rule order that is no integer is a \<open>TypeError\<close>.
\<close>

section \<open>Effects\<close>

definition swapped :: "json list \<Rightarrow> nat \<Rightarrow> nat \<Rightarrow> json list" where
  "swapped xs i k = xs[i := xs ! k, k := xs ! i]"

definition incremented :: "json \<Rightarrow> json \<Rightarrow> json res" where
  "incremented current amount =
     (case (current, amount) of
        (JInt i, JInt k) \<Rightarrow>
          if safe_integer (i + k) then Inr (JInt (i + k))
          else fail ''effect_domain_invalid'' ''increment exceeds safe integer''
      | _ \<Rightarrow> fail ''effect_domain_invalid'' ''increment requires integers'')"

definition swap_items :: "json \<Rightarrow> json \<Rightarrow> json \<Rightarrow> json res" where
  "swap_items current a b =
     (case (current, a, b) of
        (JArr xs, JInt i, JInt k) \<Rightarrow>
          if index_in_range xs a \<and> index_in_range xs b then Inr (JArr (swapped xs (nat i) (nat k)))
          else fail ''effect_domain_invalid'' ''swap indices are invalid''
      | _ \<Rightarrow> fail ''effect_domain_invalid'' ''swap indices are invalid'')"

definition append_new :: "json \<Rightarrow> json \<Rightarrow> json res" where
  "append_new current v =
     (case (current, v) of
        (JArr xs, JStr s) \<Rightarrow>
          if v \<in> set xs then fail ''effect_domain_invalid'' ''append_unique rejects an existing value''
          else Inr (JArr (xs @ [v]))
      | _ \<Rightarrow> fail ''effect_domain_invalid'' ''append_unique requires string array'')"

definition effect_value :: "json dict \<Rightarrow> (string \<Rightarrow> json res) \<Rightarrow> json \<Rightarrow> json \<Rightarrow> json res" where
  "effect_value schema operand operation current =
     (if operation = JStr ''set'' then operand ''value''
      else if operation = JStr ''reset'' then Inr (obj_get schema ''initial'')
      else if operation = JStr ''increment'' then rbind (operand ''amount'') (incremented current)
      else if operation = JStr ''swap_array_items'' then
        rbind (operand ''first_index'') (\<lambda>a. rbind (operand ''second_index'') (swap_items current a))
      else if operation = JStr ''append_unique'' then rbind (operand ''value'') (append_new current)
      else fail ''operator_unsupported'' (''unsupported effect operation '' @ id_text operation))"

definition effect_target :: "json dict \<Rightarrow> json" where
  "effect_target e =
     (if obj_get e ''operation'' \<in> {JStr ''swap_array_items'', JStr ''append_unique''}
      then obj_get e ''array_state_id'' else obj_get e ''state_id'')"

definition gp_apply_effect ::
  "interpreter \<Rightarrow> json dict \<Rightarrow> string \<Rightarrow> json dict \<Rightarrow> json dict \<Rightarrow> json dict res" where
  "gp_apply_effect gi params aid st e =
     rbind (reject (obj_get e ''action_id'' \<noteq> JStr aid) ''effect_scope_invalid''
              ''effect action scope is invalid'') (\<lambda>_.
     rbind (reject (obj_get e ''invalid_transition_policy'' \<noteq> JStr ''reject_transition'')
              ''effect_policy_unsupported'' ''only reject_transition effects are supported'') (\<lambda>_.
     rbind (raise_if (\<not> hashable (obj_get e ''operation'')) (TypeError ''unhashable type'')) (\<lambda>_.
     case effect_target e of
       JStr sid \<Rightarrow>
         (case map_of st sid of
            None \<Rightarrow> fail ''effect_state_invalid'' ''effect state target is unknown''
          | Some current \<Rightarrow>
              rbind (dict_at (gi_schema gi) sid) (\<lambda>schema.
              rbind (reject (obj_get schema ''mutability'' \<noteq> JStr ''mutable'') ''effect_state_invalid''
                       ''effect target is constant'') (\<lambda>_.
              rbind (effect_value schema (\<lambda>k. operand_value st params (Some aid) (obj_get e k))
                       (obj_get e ''operation'') current) (\<lambda>v.
              rbind (validate_state_value schema v) (\<lambda>ok.
              rbind (reject (\<not> ok) ''effect_domain_invalid''
                       (''effect leaves state '' @ sid @ '' outside its domain'')) (\<lambda>_.
                Inr (AList.update sid v st)))))))
     | _ \<Rightarrow> fail ''effect_state_invalid'' ''effect state target is unknown'')))"

section \<open>Classification\<close>

record classification =
  gc_goal_ids :: "string list"
  gc_ending_ids :: "string list"
  gc_ending_kind :: "string option"
  gc_failure_ids :: "string list"
  gc_recovery_action_ids :: "string list"

text \<open>The endings of the narrative units; a later unit of an ID replaces an earlier one.\<close>

definition unit_ending :: "json \<Rightarrow> (string \<times> string) list" where
  "unit_ending j =
     (case j of
        JObj u \<Rightarrow>
          (case (obj_get u ''id'', obj_get u ''ending_kind'') of
             (JStr i, JStr kind) \<Rightarrow> if obj_get u ''unit_type'' = JStr ''ending'' then [(i, kind)] else []
           | _ \<Rightarrow> [])
      | _ \<Rightarrow> [])"

definition projection_endings :: "json \<Rightarrow> (string \<times> string) list" where
  "projection_endings j =
     (case j of
        JObj p \<Rightarrow> (case obj_get p ''units'' of JArr us \<Rightarrow> concat (map unit_ending us) | _ \<Rightarrow> [])
      | _ \<Rightarrow> [])"

definition narrative_endings :: "interpreter \<Rightarrow> string dict" where
  "narrative_endings gi =
     (case obj_get (gi_gamepack gi) ''modules'' of
        JObj m \<Rightarrow>
          (case obj_get m ''narrative'' of
             JArr ps \<Rightarrow> dict_of (concat (map projection_endings ps)) | _ \<Rightarrow> [])
      | _ \<Rightarrow> [])"

definition add_active :: "interpreter \<Rightarrow> json dict \<Rightarrow> string list \<Rightarrow> json dict \<Rightarrow> string list res" where
  "add_active gi st acc item =
     rbind (eval_conditions gi (obj_get item ''condition_ids'') st [] None) (\<lambda>b.
       if b then rbind (dict_at item ''id'') (\<lambda>j. Inr (acc @ [id_text j])) else Inr acc)"

definition active_ids :: "interpreter \<Rightarrow> json dict \<Rightarrow> json dict list \<Rightarrow> string list res" where
  "active_ids gi st = foldR (add_active gi st) []"

text \<open>\<open>next(item for item in items if item["id"] == wanted)\<close>.\<close>

fun next_record :: "string \<Rightarrow> json dict list \<Rightarrow> json dict res" where
  "next_record wanted [] = Inl StopIteration"
| "next_record wanted (item # items) =
     rbind (dict_at item ''id'') (\<lambda>j. if j = JStr wanted then Inr item else next_record wanted items)"

definition check_cursor ::
  "interpreter \<Rightarrow> json dict \<Rightarrow> string list \<Rightarrow> string option \<Rightarrow> unit res" where
  "check_cursor gi st endings ending_kind =
     (let units = narrative_endings gi in
      case obj_get (gi_logic gi) ''narrative_cursor'' of
        JObj cursor \<Rightarrow>
          (case obj_get cursor ''id'' of
             JStr cursor_id \<Rightarrow>
               (case (case obj_get st cursor_id of JStr s \<Rightarrow> if dict_mem s units then Some s else None | _ \<Rightarrow> None) of
                  Some t \<Rightarrow>
                    reject (endings \<noteq> [t] \<or> ending_kind \<noteq> map_of units t) ''cursor_divergence''
                      ''narrative cursor ending and logic ending do not exactly agree''
                | None \<Rightarrow>
                    reject (endings \<noteq> []) ''cursor_divergence''
                      ''logic reached an ending before the narrative cursor'')
           | _ \<Rightarrow> fail ''cursor_divergence'' ''cursor schema has no ID'')
      | _ \<Rightarrow> Inr ())"

definition recover ::
  "json dict list \<Rightarrow> string list option \<Rightarrow> string \<Rightarrow> string list option res" where
  "recover failures recovery failure_id =
     rbind (next_record failure_id failures) (\<lambda>failure.
     case obj_get failure ''recovery_action_ids'' of
       JArr xs \<Rightarrow>
         let owned = map id_text xs in
         Inr (Some (case recovery of None \<Rightarrow> owned | Some r \<Rightarrow> filter (\<lambda>i. i \<in> set owned) r))
     | _ \<Rightarrow> fail ''failure_invalid'' ''recovery actions must be an array'')"

definition recovery_ids :: "string list option \<Rightarrow> string list" where
  "recovery_ids r = (case r of None \<Rightarrow> [] | Some xs \<Rightarrow> sort (remdups xs))"

definition classify_validated_state :: "interpreter \<Rightarrow> json dict \<Rightarrow> classification res" where
  "classify_validated_state gi st =
     rbind (active_ids gi st (gi_goals gi)) (\<lambda>goals.
     rbind (active_ids gi st (gi_endings gi)) (\<lambda>endings.
     rbind (reject (1 < length endings) ''ambiguous_ending'' ''exactly one ending may match a state'') (\<lambda>_.
     rbind (case endings of [] \<Rightarrow> Inr None
            | i # _ \<Rightarrow> rbind (next_record i (gi_endings gi)) (\<lambda>ending.
                        rbind (dict_at ending ''kind'') (\<lambda>j. Inr (Some (id_text j))))) (\<lambda>ending_kind.
     rbind (check_cursor gi st endings ending_kind) (\<lambda>_.
     if endings \<noteq> []
     then Inr \<lparr>gc_goal_ids = goals, gc_ending_ids = endings, gc_ending_kind = ending_kind,
               gc_failure_ids = [], gc_recovery_action_ids = []\<rparr>
     else
       rbind (active_ids gi st (gi_failures gi)) (\<lambda>active_failures.
       rbind (foldR (recover (gi_failures gi)) None active_failures) (\<lambda>recovery.
         Inr \<lparr>gc_goal_ids = goals, gc_ending_ids = [], gc_ending_kind = None,
              gc_failure_ids = active_failures, gc_recovery_action_ids = recovery_ids recovery\<rparr>)))))))"

definition classify :: "interpreter \<Rightarrow> json dict \<Rightarrow> classification res" where
  "classify gi st =
     rbind (snapshot_strict_state st) (\<lambda>checked.
     rbind (gp_validate_state gi checked) (\<lambda>_. classify_validated_state gi checked))"

text \<open>\<open>_ID_RE\<close>; an ID that matches is ASCII, in normal form, and of 2 to 64 characters.\<close>

definition lower_letter :: "char \<Rightarrow> bool" where
  "lower_letter c \<longleftrightarrow> 97 \<le> (of_char c :: int) \<and> (of_char c :: int) \<le> 122"

definition id_char :: "char \<Rightarrow> bool" where
  "id_char c \<longleftrightarrow> lower_letter c \<or> (48 \<le> (of_char c :: int) \<and> (of_char c :: int) \<le> 57) \<or> c = CHR ''_''"

definition runtime_id :: "string \<Rightarrow> bool" where
  "runtime_id s \<longleftrightarrow> 2 \<le> length s \<and> length s \<le> 64 \<and> lower_letter (hd s) \<and> list_all id_char s"

definition terminal :: "classification \<Rightarrow> bool res" where
  "terminal c =
     rbind (reject (64 < length (gc_ending_ids c)) ''classification_invalid'' ''ending_ids exceed 64 items'') (\<lambda>_.
     rbind (reject (\<not> list_all runtime_id (gc_ending_ids c)) ''classification_invalid''
              ''ending_ids must contain bounded NFC runtime IDs'') (\<lambda>_.
     rbind (reject (\<not> distinct (gc_ending_ids c)) ''classification_invalid''
              ''ending_ids must not contain duplicates'') (\<lambda>_.
       Inr (gc_ending_ids c \<noteq> []))))"

section \<open>Transitions\<close>

record transition_result =
  tr_accepted :: bool
  tr_action :: candidate_action
  tr_pre_state :: "json dict"
  tr_post_state :: "json dict"
  tr_pre_state_hash :: string
  tr_post_state_hash :: string
  tr_events :: "string list"
  tr_rejection_reason :: "string option"

definition rejected ::
  "(string \<Rightarrow> string) \<Rightarrow> candidate_action \<Rightarrow> json dict \<Rightarrow> string \<Rightarrow> transition_result res" where
  "rejected sha c st reason =
     rbind (canonical_state_hash sha st) (\<lambda>state_hash.
       Inr \<lparr>tr_accepted = False, tr_action = c, tr_pre_state = st, tr_post_state = st,
            tr_pre_state_hash = state_hash, tr_post_state_hash = state_hash, tr_events = [],
            tr_rejection_reason = Some reason\<rparr>)"

text \<open>\<open>except GameLogicError\<close>: any other exception passes.\<close>

definition catch :: "'a res \<Rightarrow> (string \<Rightarrow> 'b res) \<Rightarrow> ('a \<Rightarrow> 'b res) \<Rightarrow> 'b res" where
  "catch m handler k =
     (case m of Inr x \<Rightarrow> k x | Inl (GameLogicError reason _) \<Rightarrow> handler reason | Inl e \<Rightarrow> Inl e)"

definition rule_order :: "json dict \<Rightarrow> int res" where
  "rule_order rule =
     (case as_int (obj_get_or rule ''order'' (JInt 0)) of Some i \<Rightarrow> Inr i
      | None \<Rightarrow> Inl (TypeError ''order''))"

definition sort_rules :: "json dict list \<Rightarrow> json dict list res" where
  "sort_rules rules =
     rbind (mapR (\<lambda>rule. rbind (rule_order rule) (\<lambda>i.
              Inr ((i, id_text (obj_get_or rule ''id'' (JStr []))), rule))) rules)
       (\<lambda>keyed. Inr (map snd (sort_key fst keyed)))"

definition owned_ids :: "interpreter \<Rightarrow> string \<Rightarrow> string list" where
  "owned_ids gi aid =
     map fst (filter (\<lambda>(_, rule). obj_get rule ''action_id'' = JStr aid) (gi_rules gi))"

text \<open>The rules an action names, in order; or the reason why they are not its own.\<close>

definition owned_rules :: "interpreter \<Rightarrow> string \<Rightarrow> json dict \<Rightarrow> (string + json dict list) res" where
  "owned_rules gi aid action =
     (case obj_get action ''rule_ids'' of
        JArr ids \<Rightarrow>
          if ids = [] then Inr (Inl ''owned_rules_missing'')
          else if set (map id_text ids) \<noteq> set (owned_ids gi aid)
          then Inr (Inl ''owned_rules_incomplete'')
          else if list_ex (\<lambda>i. case map_of (gi_rules gi) (id_text i) of None \<Rightarrow> True
                 | Some rule \<Rightarrow> obj_get rule ''action_id'' \<noteq> JStr aid) ids
          then Inr (Inl ''owned_rule_invalid'')
          else rbind (sort_rules (map (\<lambda>i. the (map_of (gi_rules gi) (id_text i))) ids)) (\<lambda>rules. Inr (Inr rules))
      | _ \<Rightarrow> Inr (Inl ''owned_rules_missing''))"

definition references :: "string \<Rightarrow> json dict list \<Rightarrow> json res" where
  "references k rules =
     rbind (mapR (\<lambda>rule. iterated (obj_get_or rule k (JArr []))) rules) (\<lambda>xss. Inr (JArr (concat xss)))"

text \<open>The guard of a narrative transition: \<open>Some reason\<close> rejects.\<close>

definition narrative_guard ::
  "json dict \<Rightarrow> json dict option \<Rightarrow> json dict list \<Rightarrow> string option res" where
  "narrative_guard before narrative rules =
     (case narrative of None \<Rightarrow> Inr None
      | Some t \<Rightarrow>
        (case obj_get t ''precondition'' of
           JObj pre \<Rightarrow>
             (case obj_get pre ''cursor_state_id'' of
                JStr cursor \<Rightarrow>
                  if obj_get pre ''operator'' \<noteq> JStr ''cursor_equals'' \<or>
                     \<not> py_eq (obj_get before cursor) (obj_get pre ''value'')
                  then Inr (Some ''narrative_cursor_precondition_false'')
                  else
                    rbind (references ''condition_ids'' rules) (\<lambda>conditions.
                    rbind (references ''effect_ids'' rules) (\<lambda>effects.
                    rbind (reject (\<not> py_eq (obj_get t ''atomic_source_condition_ids'') conditions \<or>
                                   \<not> py_eq (obj_get t ''atomic_source_effect_ids'') effects)
                             ''narrative_transition_invalid''
                             ''narrative transition does not bind exact source rules'') (\<lambda>_. Inr None)))
              | _ \<Rightarrow> Inr (Some ''narrative_cursor_precondition_false''))
         | _ \<Rightarrow> fail ''narrative_transition_invalid'' ''narrative precondition is absent''))"

definition run_effect ::
  "interpreter \<Rightarrow> json dict \<Rightarrow> string \<Rightarrow> json dict \<Rightarrow> json \<Rightarrow> json dict res" where
  "run_effect gi params aid st j =
     (case map_of (gi_effects gi) (id_text j) of
        None \<Rightarrow> fail ''effect_unknown'' (''unknown effect '' @ id_text j)
      | Some e \<Rightarrow> gp_apply_effect gi params aid st e)"

definition run_rule ::
  "interpreter \<Rightarrow> json dict \<Rightarrow> string \<Rightarrow> json dict \<times> string list \<Rightarrow> json dict \<Rightarrow> (json dict \<times> string list) res" where
  "run_rule gi params aid acc rule =
     (case (acc, obj_get rule ''effect_ids'', obj_get rule ''event_ids'') of
        ((st, events), JArr effects, JArr event_ids) \<Rightarrow>
          rbind (foldR (run_effect gi params aid) st effects) (\<lambda>st.
            Inr (st, events @ map id_text event_ids))
      | _ \<Rightarrow> fail ''owned_rule_invalid'' ''rule references are invalid'')"

definition move_cursor :: "json dict option \<Rightarrow> json dict \<Rightarrow> json dict res" where
  "move_cursor narrative st =
     (case narrative of None \<Rightarrow> Inr st
      | Some t \<Rightarrow>
        (case obj_get t ''effect'' of
           JObj e \<Rightarrow>
             (case obj_get e ''cursor_state_id'' of
                JStr cursor \<Rightarrow>
                  if obj_get e ''operation'' \<noteq> JStr ''set_cursor'' \<or>
                     obj_get e ''invalid_transition_policy'' \<noteq> JStr ''reject_transition'' \<or>
                     \<not> dict_mem cursor st
                  then fail ''operator_unsupported'' ''unsupported compiler-owned cursor operation''
                  else Inr (AList.update cursor (obj_get e ''value'') st)
              | _ \<Rightarrow> fail ''operator_unsupported'' ''unsupported compiler-owned cursor operation'')
         | _ \<Rightarrow> fail ''narrative_transition_invalid'' ''narrative cursor effect is absent''))"

text \<open>The \<open>try\<close> block of a transition: a reason to reject, or the next state with its events.\<close>

definition attempt ::
  "interpreter \<Rightarrow> string \<Rightarrow> json dict \<Rightarrow> json dict \<Rightarrow> json dict list \<Rightarrow> (string + json dict \<times> string list) res" where
  "attempt gi aid before params rules =
     rbind (allR (\<lambda>rule. eval_conditions gi (obj_get rule ''condition_ids'') before params (Some aid)) rules) (\<lambda>ok.
     if \<not> ok then Inr (Inl ''rule_condition_false'')
     else
       let narrative = map_of (gi_by_action gi) aid in
       rbind (narrative_guard before narrative rules) (\<lambda>guard.
       case guard of Some reason \<Rightarrow> Inr (Inl reason)
       | None \<Rightarrow>
           rbind (foldR (run_rule gi params aid) (before, []) rules) (\<lambda>(st, events).
           rbind (move_cursor narrative st) (\<lambda>st.
           rbind (gp_validate_state gi st) (\<lambda>_.
           rbind (classify gi st) (\<lambda>_. Inr (Inr (st, events))))))))"

definition commit ::
  "(string \<Rightarrow> string) \<Rightarrow> string \<Rightarrow> json dict \<Rightarrow> json dict \<Rightarrow> json dict \<times> string list \<Rightarrow> transition_result res" where
  "commit sha aid params before done =
     rbind (canonical_state_hash sha before) (\<lambda>pre_hash.
     rbind (canonical_state_hash sha (fst done)) (\<lambda>post_hash.
       Inr \<lparr>tr_accepted = True, tr_action = \<lparr>ca_action_id = aid, ca_parameters = params\<rparr>,
            tr_pre_state = before, tr_post_state = fst done, tr_pre_state_hash = pre_hash,
            tr_post_state_hash = post_hash, tr_events = snd done, tr_rejection_reason = None\<rparr>))"

definition try_rules ::
  "(string \<Rightarrow> string) \<Rightarrow> interpreter \<Rightarrow> json dict \<Rightarrow> candidate_action \<Rightarrow> json dict \<Rightarrow> json dict list \<Rightarrow>
     transition_result res" where
  "try_rules sha gi before c params rules =
     catch (attempt gi (ca_action_id c) before params rules) (rejected sha c before) (\<lambda>result.
     case result of Inl reason \<Rightarrow> rejected sha c before reason
     | Inr done \<Rightarrow> commit sha (ca_action_id c) params before done)"

definition try_action ::
  "(string \<Rightarrow> string) \<Rightarrow> interpreter \<Rightarrow> json dict \<Rightarrow> candidate_action \<Rightarrow> json dict \<Rightarrow> json dict \<Rightarrow>
     transition_result res" where
  "try_action sha gi before c action params =
     (let aid = ca_action_id c; refuse = rejected sha c before in
      rbind (classify gi before) (\<lambda>found.
      rbind (terminal found) (\<lambda>ended.
      if ended then refuse ''terminal_state''
      else if gc_failure_ids found \<noteq> [] \<and> aid \<notin> set (gc_recovery_action_ids found)
      then refuse (if gc_recovery_action_ids found = [] then ''failure_recovery_empty_intersection''
                   else ''failure_recovery_required'')
      else
        rbind (owned_rules gi aid action) (\<lambda>owned.
        case owned of Inl reason \<Rightarrow> refuse reason
        | Inr rules \<Rightarrow> try_rules sha gi before c params rules))))"

definition transition_validated_state ::
  "(string \<Rightarrow> string) \<Rightarrow> interpreter \<Rightarrow> json dict \<Rightarrow> candidate_action \<Rightarrow> transition_result res" where
  "transition_validated_state sha gi before c =
     (case map_of (gi_actions gi) (ca_action_id c) of
        None \<Rightarrow> rejected sha c before ''action_unknown''
      | Some action \<Rightarrow>
          catch (validated_parameters action c) (rejected sha c before) (try_action sha gi before c action))"

definition transition_strict ::
  "(string \<Rightarrow> string) \<Rightarrow> interpreter \<Rightarrow> json dict \<Rightarrow> candidate_action \<Rightarrow> transition_result res" where
  "transition_strict sha gi st c =
     rbind (snapshot_strict_candidate c) (\<lambda>c.
     rbind (snapshot_strict_state st) (\<lambda>st.
     rbind (gp_validate_state gi st) (\<lambda>_. transition_validated_state sha gi st c)))"

definition legal_transitions ::
  "(string \<Rightarrow> string) \<Rightarrow> interpreter \<Rightarrow> json dict \<Rightarrow> transition_result list res" where
  "legal_transitions sha gi st =
     rbind (mapR (transition_strict sha gi st) (gi_candidates gi)) (\<lambda>rs. Inr (filter tr_accepted rs))"

section \<open>Traces\<close>

definition lower_hex :: "string \<Rightarrow> bool" where
  "lower_hex s \<longleftrightarrow> length s = 64 \<and>
     list_all (\<lambda>c. (48 \<le> (of_char c :: int) \<and> (of_char c :: int) \<le> 57) \<or>
                   (97 \<le> (of_char c :: int) \<and> (of_char c :: int) \<le> 102)) s"

definition canonical_trace_step ::
  "(string \<Rightarrow> bool) \<Rightarrow> (string \<Rightarrow> string) \<Rightarrow> transition_result \<Rightarrow> json dict res" where
  "canonical_trace_step nfc sha r =
     rbind (reject (\<not> tr_accepted r) ''trace_step_rejected'' ''only committed transitions form traces'') (\<lambda>_.
     rbind (reject (tr_rejection_reason r \<noteq> None) ''trace_step_invalid''
              ''committed transitions cannot carry a rejection reason'') (\<lambda>_.
     rbind (snapshot_event_sequence nfc ''trace_step_invalid'' (tr_events r)) (\<lambda>events.
     rbind (snapshot_strict_candidate (tr_action r)) (\<lambda>action.
     rbind (snapshot_strict_state (tr_pre_state r)) (\<lambda>pre.
     rbind (snapshot_strict_state (tr_post_state r)) (\<lambda>post.
     rbind (reject (\<not> lower_hex (tr_pre_state_hash r) \<or> \<not> lower_hex (tr_post_state_hash r))
              ''trace_step_invalid'' ''trace state hashes must be exact lowercase SHA-256 values'') (\<lambda>_.
     rbind (canonical_state_hash sha pre) (\<lambda>h.
     rbind (if tr_pre_state_hash r \<noteq> h then Inr True
            else rbind (canonical_state_hash sha post) (\<lambda>k. Inr (tr_post_state_hash r \<noteq> k))) (\<lambda>differ.
     rbind (reject differ ''trace_step_invalid'' ''trace state hashes do not match their owned states'') (\<lambda>_.
     rbind (canonical_events_hash nfc sha events) (\<lambda>_.
       Inr [(''action_id'', JStr (ca_action_id action)), (''parameters'', JObj (ca_parameters action)),
            (''pre_state_hash'', JStr (tr_pre_state_hash r)),
            (''post_state_hash'', JStr (tr_post_state_hash r)),
            (''events'', JArr (map JStr events))])))))))))))"

section \<open>Sessions\<close>

text \<open>
  A session owns an interpreter, which is not changed, and the current state. It starts with the
  initial state of the pack without classifying it.
\<close>

definition start_session :: "interpreter \<Rightarrow> json dict res" where
  "start_session gi = gp_initial_state gi"

definition apply_action ::
  "(string \<Rightarrow> string) \<Rightarrow> interpreter \<Rightarrow> json dict \<Rightarrow> candidate_action \<Rightarrow> (json dict \<times> transition_result) res" where
  "apply_action sha gi st c =
     rbind (snapshot_strict_candidate c) (\<lambda>c.
     rbind (transition_strict sha gi st c) (\<lambda>r.
       Inr (if tr_accepted r then tr_post_state r else st, r)))"

definition check_constant :: "json dict \<Rightarrow> unit \<Rightarrow> string \<times> json dict \<Rightarrow> unit res" where
  "check_constant checked u named =
     (case named of (sid, schema) \<Rightarrow>
      if obj_get schema ''mutability'' = JStr ''constant''
      then rbind (dict_at checked sid) (\<lambda>v.
             reject (\<not> py_eq v (obj_get schema ''initial'')) ''state_constant_mismatch''
               (''constant state '' @ sid @ '' differs from its initial value''))
      else Inr ())"

definition restore_state :: "interpreter \<Rightarrow> json dict \<Rightarrow> json dict res" where
  "restore_state gi st =
     rbind (snapshot_strict_state st) (\<lambda>checked.
     rbind (classify gi checked) (\<lambda>_.
     rbind (foldR (check_constant checked) () (gi_schema gi)) (\<lambda>_. Inr checked)))"

end
