(* ===== verification/GamepackCandidates.thy ===== *)
theory GamepackCandidates
  imports GamepackRun
begin

text \<open>
  The candidate actions of a pack are exactly the actions that pass parameter validation: the
  enumeration of \<open>_enumerate_candidates\<close> against the check of \<open>_validated_parameters\<close>, and the
  cardinality that is computed before anything is enumerated.
\<close>

section \<open>Permutations\<close>

lemma removed_set: "i < length ys \<Longrightarrow> set ys = insert (ys ! i) (set (take i ys @ drop (Suc i) ys))"
  using arg_cong [OF id_take_nth_drop, of i ys set] by simp

lemma removed_distinct:
  "i < length ys \<Longrightarrow> distinct ys \<Longrightarrow>
     distinct (take i ys @ drop (Suc i) ys) \<and> ys ! i \<notin> set (take i ys @ drop (Suc i) ys)"
proof -
  assume "i < length ys" and "distinct ys"
  then have "distinct (take i ys @ ys ! i # drop (Suc i) ys)" using id_take_nth_drop by metis
  then show ?thesis by (simp only: distinct_append distinct.simps set_append list.set) blast
qed

lemma int_sum_list: "int (sum_list (map f xs)) = (\<Sum>x\<leftarrow>xs. int (f x))"
  by (induction xs) simp_all

lemma length_permutations: "int (length (permutations n xs)) = falling (int (length xs)) n"
proof (induction n arbitrary: xs)
  case (Suc n)
  show ?case
  proof (cases xs)
    case (Cons x rest)
    have "(\<Sum>i\<leftarrow>[0..<length xs]. int (length (permutations n (take i xs @ drop (Suc i) xs)))) =
        (\<Sum>i\<leftarrow>[0..<length xs]. falling (int (length rest)) n)"
      unfolding Suc.IH by (intro arg_cong [where f = sum_list] map_cong) (auto simp: Cons)
    then show ?thesis
      using Cons by (simp add: length_concat comp_def sum_list_triv int_sum_list algebra_simps)
  qed simp
qed simp

lemma permutations_mem:
  "distinct xs \<Longrightarrow> set xs \<subseteq> set ys \<Longrightarrow> xs \<in> set (permutations (length xs) ys)"
proof (induction xs arbitrary: ys)
  case (Cons x xs)
  then obtain i where i: "i < length ys" "ys ! i = x" by (auto simp: in_set_conv_nth)
  have "set xs \<subseteq> set (take i ys @ drop (Suc i) ys)"
    using Cons.prems removed_set [OF i(1)] i(2) by auto
  then have "xs \<in> set (permutations (length xs) (take i ys @ drop (Suc i) ys))"
    using Cons by simp
  then show ?case using i by force
qed simp

lemma permutations_sound:
  "distinct ys \<Longrightarrow> xs \<in> set (permutations n ys) \<Longrightarrow> length xs = n \<and> distinct xs \<and> set xs \<subseteq> set ys"
proof (induction n arbitrary: ys xs)
  case (Suc n)
  from Suc.prems(2) obtain i zs where i: "i < length ys" and xs: "xs = ys ! i # zs"
    and zs: "zs \<in> set (permutations n (take i ys @ drop (Suc i) ys))" by auto
  note d = removed_distinct [OF i Suc.prems(1)] removed_set [OF i]
  from Suc.IH [OF conjunct1 [OF d(1)] zs] d xs show ?case by auto
qed simp

section \<open>Domains\<close>

definition distinct_domain :: "json dict \<Rightarrow> bool" where
  "distinct_domain p \<longleftrightarrow> (case obj_get p ''allowed_values'' of JArr xs \<Rightarrow> distinct xs | _ \<Rightarrow> True)"

lemma strings_of_Some: "strings_of j = Some xs \<longleftrightarrow> j = JArr xs \<and> list_all is_str xs"
  by (auto simp: strings_of_def split: json.splits if_splits)

lemma allowed_values_array: "obj_get p ''allowed_values'' = JArr xs \<Longrightarrow> allowed_values p = JArr xs"
  by (auto simp: allowed_values_def obj_get_def obj_get_or_def split: option.splits)

lemma is_str_iff: "is_str j \<longleftrightarrow> (\<exists>s. j = JStr s)"
  by (auto simp: is_str_def split: json.splits)

lemma hashable_strings: "list_all is_str xs \<Longrightarrow> list_all hashable xs"
  by (auto simp: list_all_iff is_str_iff hashable_def)

lemma is_int_iff: "is_int j \<longleftrightarrow> j = JInt (int_of j)"
  by (cases j) (auto simp: is_int_def int_of_def)

lemma as_int_JInt [simp]: "as_int (JInt i) = Some i"
  by (simp add: as_int_def)

text \<open>The four shapes of a parameter domain.\<close>

lemma domain_valuesE:
  assumes "domain_values limit p = Inr vals"
  obtains "obj_get p ''type'' = JStr ''boolean''" and "vals = [JBool False, JBool True]"
  | lo hi where "obj_get p ''type'' = JStr ''integer''" and "obj_get p ''minimum'' = JInt lo"
      and "obj_get p ''maximum'' = JInt hi" and "lo \<le> hi" and "hi - lo + 1 \<le> limit"
      and "vals = map JInt [lo..hi]"
  | xs where "obj_get p ''type'' = JStr ''string''" and "obj_get p ''allowed_values'' = JArr xs"
      and "list_all is_str xs" and "vals = xs"
  | xs lo hi where "obj_get p ''type'' = JStr ''string_array''"
      and "obj_get p ''allowed_values'' = JArr xs" and "list_all is_str xs"
      and "obj_get p ''min_items'' = JInt lo" and "obj_get p ''max_items'' = JInt hi"
      and "0 \<le> lo" and "sum_list (map (falling (int (length xs))) (sizes lo hi)) \<le> limit"
      and "vals = concat (map (\<lambda>n. map JArr (permutations n xs)) (sizes lo hi))"
  using assms
  by (auto simp: domain_values_def Let_def is_int_iff strings_of_Some split: if_splits option.splits)

lemma mem_sizes: "0 \<le> lo \<Longrightarrow> n \<in> set (sizes lo hi) \<longleftrightarrow> lo \<le> int n \<and> int n \<le> hi"
  by (force simp: sizes_def image_iff intro: bexI [of _ "int n"])

lemma domain_complete:
  assumes "domain_values limit p = Inr vals" and "validate_parameter_value p v = Inr True"
  shows "v \<in> set vals"
  using assms(1)
proof (cases rule: domain_valuesE)
  case (4 xs lo hi)
  then obtain ys where "v = JArr ys" "distinct ys" "set ys \<subseteq> set xs" "lo \<le> int (length ys)" "int (length ys) \<le> hi"
    using assms(2) allowed_values_array [OF 4(2)] hashable_strings [OF 4(3)]
    by (auto simp: validate_parameter_value_def in_domain_def distinct_strings_def set_from_def iterated_def
        split: json.splits if_splits)
  then show ?thesis using 4 permutations_mem [of ys xs] mem_sizes [of lo "length ys" hi] by force
qed (use assms(2) allowed_values_array in
  \<open>auto simp: validate_parameter_value_def in_domain_def contained_def iterated_def split: json.splits\<close>)

lemma domain_sound:
  assumes "domain_values limit p = Inr vals" and "distinct_domain p" and "v \<in> set vals"
  shows "validate_parameter_value p v = Inr True"
  using assms(1)
proof (cases rule: domain_valuesE)
  case (4 xs lo hi)
  then obtain ys n where v: "v = JArr ys" and ys: "ys \<in> set (permutations n xs)" and n: "n \<in> set (sizes lo hi)"
    using assms(3) by auto
  have "distinct xs" using assms(2) 4(2) by (simp add: distinct_domain_def)
  from permutations_sound [OF this ys] n 4 show ?thesis
    using allowed_values_array [OF 4(2)] hashable_strings [OF 4(3)]
    by (auto simp: v validate_parameter_value_def in_domain_def distinct_strings_def set_from_def iterated_def
        mem_sizes list_all_iff)
qed (use assms(3) allowed_values_array in
  \<open>auto simp: validate_parameter_value_def in_domain_def contained_def iterated_def list_all_iff is_str_iff\<close>)

lemma domain_decides:
  assumes "domain_values limit p = Inr vals"
  shows "\<exists>b. validate_parameter_value p v = Inr b"
  using assms
proof (cases rule: domain_valuesE)
  case (4 xs lo hi)
  then show ?thesis using allowed_values_array [OF 4(2)] hashable_strings [OF 4(3)]
    by (auto simp: validate_parameter_value_def in_domain_def set_from_def iterated_def split: json.splits)
qed (use allowed_values_array in
  \<open>auto simp: validate_parameter_value_def in_domain_def contained_def iterated_def split: json.splits\<close>)

text \<open>What the limit is compared with is the size of the domain.\<close>

lemma domain_size:
  assumes "domain_values limit p = Inr vals" and "obj_get p ''type'' \<in> {JStr ''integer'', JStr ''string_array''}"
  shows "int (length vals) \<le> limit"
  using assms(1)
proof (cases rule: domain_valuesE)
  case (4 xs lo hi)
  then show ?thesis by (simp add: length_concat comp_def int_sum_list length_permutations)
qed (use assms(2) in auto)

section \<open>Axes\<close>

text \<open>A parameter record and its axis: the ID and the values it ranges over.\<close>

definition axis :: "int \<Rightarrow> json \<Rightarrow> string \<times> json list \<Rightarrow> bool" where
  "axis limit j ax \<longleftrightarrow>
     (\<exists>p. j = JObj p \<and> obj_get p ''id'' = JStr (fst ax) \<and> domain_values limit p = Inr (snd ax))"

lemma add_parameterE:
  assumes "add_parameter limit aid (axes, n) j = Inr (axes', n')"
  obtains ax where "axis limit j ax" and "axes' = axes @ [ax]" and "n' = n * int (length (snd ax))"
    and "n' \<le> limit" and "snd ax \<noteq> []"
  using assms by (auto simp: add_parameter_def axis_def Let_def split: json.splits)

lemma length_product_Cons:
  "length (product_lists (xs # xss)) = length xs * length (product_lists xss)"
  by (simp add: length_concat comp_def sum_list_triv)

lemma parameters_fold:
  "foldR (add_parameter limit aid) (axes, n) ps = Inr (axes', n') \<Longrightarrow>
     \<exists>new. axes' = axes @ new \<and> list_all2 (axis limit) ps new \<and>
           n' = n * int (length (product_lists (map snd new))) \<and> (n \<le> limit \<longrightarrow> n' \<le> limit)"
proof (induction ps arbitrary: axes n)
  case (Cons j ps)
  from Cons.prems obtain axes1 n1 where 1: "add_parameter limit aid (axes, n) j = Inr (axes1, n1)"
    and 2: "foldR (add_parameter limit aid) (axes1, n1) ps = Inr (axes', n')" by auto
  obtain ax where ax: "axis limit j ax" "axes1 = axes @ [ax]" "n1 = n * int (length (snd ax))" "n1 \<le> limit"
    by (rule add_parameterE [OF 1])
  from Cons.IH [OF 2] obtain new where new: "axes' = axes1 @ new" "list_all2 (axis limit) ps new"
    "n' = n1 * int (length (product_lists (map snd new)))" "n1 \<le> limit \<longrightarrow> n' \<le> limit" by blast
  show ?case
    by (intro exI [of _ "ax # new"]) (use ax new in \<open>simp add: length_product_Cons algebra_simps del: product_lists.simps\<close>)
qed simp

text \<open>The parameters of an action are the axes of its candidates.\<close>

definition candidate_axes :: "int \<Rightarrow> json dict \<Rightarrow> json list \<Rightarrow> (string \<times> json list) list \<Rightarrow> bool" where
  "candidate_axes limit action ps axes \<longleftrightarrow>
     obj_get action ''parameters'' = JArr ps \<and> list_all2 (axis limit) ps axes"

definition named :: "(string \<times> json list) list \<Rightarrow> json list \<Rightarrow> json dict" where
  "named axes vs = dict_of (zip (map fst axes) vs)"

lemma action_candidatesE:
  assumes "action_candidates limit (aid, action) = Inr cs"
  obtains ps axes where "candidate_axes limit action ps axes"
    and "cs = map (\<lambda>vs. \<lparr>ca_action_id = aid, ca_parameters = named axes vs\<rparr>) (product_lists (map snd axes))"
    and "1 \<le> limit \<longrightarrow> int (length cs) \<le> limit"
proof -
  obtain ps axes n where ps: "obj_get action ''parameters'' = JArr ps"
    and axes: "foldR (add_parameter limit aid) ([], 1) ps = Inr (axes, n)"
    and cs: "cs = map (\<lambda>vs. \<lparr>ca_action_id = aid, ca_parameters = named axes vs\<rparr>) (product_lists (map snd axes))"
    using assms by (auto simp: action_candidates_def named_def split: json.splits)
  from parameters_fold [OF axes] ps cs show thesis
    by (intro that [of ps axes]) (auto simp: candidate_axes_def)
qed

lemma mapR_Inr: "mapR f xs = Inr ys \<longleftrightarrow> list_all2 (\<lambda>x y. f x = Inr y) xs ys"
proof (induction xs arbitrary: ys)
  case (Cons x xs)
  show ?case by (cases ys; cases "f x") (auto simp: Cons.IH [symmetric])
qed auto

lemma mapR_pointwise:
  assumes "mapR f xs = Inr ys"
  shows "y \<in> set ys \<longleftrightarrow> (\<exists>x \<in> set xs. f x = Inr y)" and "x \<in> set xs \<Longrightarrow> \<exists>y \<in> set ys. f x = Inr y"
  using assms by (auto simp: mapR_Inr list_all2_conv_all_nth in_set_conv_nth) (metis nth_mem)+

lemma enumerate_mem:
  assumes "enumerate_actions limit actions = Inr cs" and "distinct (dict_keys actions)"
  shows "c \<in> set cs \<longleftrightarrow>
    (\<exists>action cs'. map_of actions (ca_action_id c) = Some action \<and>
       action_candidates limit (ca_action_id c, action) = Inr cs' \<and> c \<in> set cs')"
proof -
  obtain css where css: "mapR (action_candidates limit) (sort_key fst actions) = Inr css" and cs: "cs = concat css"
    using assms(1) by (auto simp: enumerate_actions_def)
  have "c \<in> set cs \<longleftrightarrow> (\<exists>aid action cs'. map_of actions aid = Some action \<and>
      action_candidates limit (aid, action) = Inr cs' \<and> c \<in> set cs')"
    using mapR_pointwise(1) [OF css] assms(2) by (auto simp: cs dict_keys_def) blast
  moreover have "ca_action_id c = aid" if "action_candidates limit (aid, action) = Inr cs'" "c \<in> set cs'" for aid action cs'
    using that by (auto elim!: action_candidatesE)
  ultimately show ?thesis by blast
qed

lemma enumerated_action:
  assumes "enumerate_actions limit actions = Inr cs" and "map_of actions aid = Some action"
  obtains cs' where "action_candidates limit (aid, action) = Inr cs'"
proof -
  obtain css where css: "mapR (action_candidates limit) (sort_key fst actions) = Inr css"
    using assms(1) by (auto simp: enumerate_actions_def)
  from mapR_pointwise(2) [OF css, of "(aid, action)"] assms(2) that show thesis by (auto dest: map_of_SomeD)
qed

section \<open>Validation against enumeration\<close>

definition fold_named :: "json dict \<Rightarrow> (string \<times> json list) list \<Rightarrow> json list \<Rightarrow> json dict" where
  "fold_named acc axes vs = foldl (\<lambda>d (k, v). AList.update k v d) acc (zip (map fst axes) vs)"

definition distinct_domains :: "json list \<Rightarrow> bool" where
  "distinct_domains ps \<longleftrightarrow> list_all (\<lambda>j. case j of JObj p \<Rightarrow> distinct_domain p | _ \<Rightarrow> True) ps"

lemma id_text_JStr [simp]: "id_text (JStr s) = s"
  by (simp add: id_text_def)

lemma check_parameter_axis:
  assumes "axis limit j ax"
  shows "check_parameter c acc j =
    rbind (dict_at (ca_parameters c) (fst ax)) (\<lambda>v.
      case j of JObj p \<Rightarrow>
        rbind (validate_parameter_value p v) (\<lambda>ok.
          if ok then Inr (AList.update (fst ax) v acc)
          else fail ''action_parameters_invalid''
                 (''action '' @ ca_action_id c @ '' parameter '' @ fst ax @ '' is outside its domain''))
      | _ \<Rightarrow> Inr [])"
  using assms by (auto simp: axis_def check_parameter_def Let_def cong: if_cong)

lemma check_fold_complete:
  assumes "list_all2 (axis limit) ps axes" and "foldR (check_parameter c) acc ps = Inr checked"
  shows "\<exists>vs. vs \<in> set (product_lists (map snd axes)) \<and> checked = fold_named acc axes vs"
  using assms
proof (induction ps axes arbitrary: acc rule: list_all2_induct)
  case (Cons j ps ax axes)
  from Cons.hyps(1) obtain p where p: "j = JObj p" "domain_values limit p = Inr (snd ax)" by (auto simp: axis_def)
  from Cons.prems Cons.hyps(1) p obtain v where v: "validate_parameter_value p v = Inr True"
    and rest: "foldR (check_parameter c) (AList.update (fst ax) v acc) ps = Inr checked"
    by (auto simp: check_parameter_axis split: if_splits)
  from Cons.IH [OF rest] obtain vs where "vs \<in> set (product_lists (map snd axes))"
    "checked = fold_named (AList.update (fst ax) v acc) axes vs" by blast
  with domain_complete [OF p(2) v] show ?case
    by (intro exI [of _ "v # vs"]) (auto simp: fold_named_def)
qed (simp add: fold_named_def)

lemma check_fold_sound:
  assumes "list_all2 (axis limit) ps axes" and "distinct_domains ps"
    and "list_all2 (\<lambda>v ax. v \<in> set (snd ax) \<and> map_of (ca_parameters c) (fst ax) = Some v) vs axes"
  shows "foldR (check_parameter c) acc ps = Inr (fold_named acc axes vs)"
  using assms
proof (induction ps axes arbitrary: acc vs rule: list_all2_induct)
  case (Cons j ps ax axes)
  from Cons.hyps(1) obtain p where p: "j = JObj p" "domain_values limit p = Inr (snd ax)" by (auto simp: axis_def)
  from Cons.prems(2) obtain v ws where vs: "vs = v # ws" "v \<in> set (snd ax)" "map_of (ca_parameters c) (fst ax) = Some v"
    "list_all2 (\<lambda>v ax. v \<in> set (snd ax) \<and> map_of (ca_parameters c) (fst ax) = Some v) ws axes"
    by (auto simp: list_all2_Cons2)
  have "validate_parameter_value p v = Inr True"
    using domain_sound [OF p(2) _ vs(2)] Cons.prems(1) p(1) by (simp add: distinct_domains_def)
  with Cons.IH [OF _ vs(4)] Cons.prems(1) Cons.hyps(1) vs p show ?case
    by (simp add: check_parameter_axis fold_named_def distinct_domains_def dict_at_def)
qed (simp add: fold_named_def)

lemma axes_keys:
  assumes "list_all2 (axis limit) ps axes"
  shows "list_all is_obj ps"
    and "(\<lambda>j. case j of JObj p \<Rightarrow> obj_get p ''id'' | _ \<Rightarrow> JNull) ` set ps = JStr ` set (map fst axes)"
  using assms by (induction rule: list_all2_induct) (auto simp: axis_def is_obj_def)

lemma validated_is_candidate:
  assumes "candidate_axes limit action ps axes" and "validated_parameters action c = Inr params"
  obtains vs where "vs \<in> set (product_lists (map snd axes))" and "params = named axes vs"
proof -
  from assms have "foldR (check_parameter c) [] ps = Inr params"
    by (auto simp: candidate_axes_def validated_parameters_def split: if_splits)
  with check_fold_complete [of limit ps axes c "[]"] assms(1) that show thesis
    by (auto simp: candidate_axes_def named_def dict_of_def fold_named_def)
qed

lemma candidate_validates:
  assumes "candidate_axes limit action ps axes" and "distinct (map fst axes)" and "distinct_domains ps"
    and "vs \<in> set (product_lists (map snd axes))" and "ca_parameters c = named axes vs"
  shows "validated_parameters action c = Inr (ca_parameters c)"
proof -
  have ps: "obj_get action ''parameters'' = JArr ps" and axes: "list_all2 (axis limit) ps axes"
    using assms(1) by (simp_all add: candidate_axes_def)
  have len: "length vs = length axes" and vals: "\<And>i. i < length axes \<Longrightarrow> vs ! i \<in> set (snd (axes ! i))"
    using assms(4) by (auto simp: product_lists_set list_all2_conv_all_nth)
  have params: "ca_parameters c = zip (map fst axes) vs"
    using assms(2,5) len by (simp add: named_def dict_of_id)
  have "map_of (zip (map fst axes) vs) (fst (axes ! i)) = Some (vs ! i)" if "i < length axes" for i
    using map_of_zip_nth [of "map fst axes" "vs" i] assms(2) len that by simp
  then have "foldR (check_parameter c) [] ps = Inr (fold_named [] axes vs)"
    using len vals by (intro check_fold_sound [OF axes assms(3)]) (simp add: list_all2_conv_all_nth params)
  moreover have "set (dict_keys (ca_parameters c)) = set (map fst axes)"
    using params len by (simp add: dict_keys_def)
  ultimately show ?thesis
    using axes_keys [OF axes] assms(5)
    by (simp add: validated_parameters_def ps named_def dict_of_def fold_named_def)
qed

text \<open>
  A candidate of an action record: its parameters pass the check and come in the order of the
  record.
\<close>

lemma candidates_are_validated:
  assumes "enumerate_actions limit actions = Inr cs" and "distinct (dict_keys actions)"
    and "map_of actions (ca_action_id c) = Some action" and "validated_parameters action c = Inr params"
  shows "\<lparr>ca_action_id = ca_action_id c, ca_parameters = params\<rparr> \<in> set cs"
proof -
  obtain cs' where cs': "action_candidates limit (ca_action_id c, action) = Inr cs'"
    by (rule enumerated_action [OF assms(1,3)])
  obtain ps axes where axes: "candidate_axes limit action ps axes"
    and mem: "cs' = map (\<lambda>vs. \<lparr>ca_action_id = ca_action_id c, ca_parameters = named axes vs\<rparr>)
                (product_lists (map snd axes))"
    by (rule action_candidatesE [OF cs'])
  obtain vs where "vs \<in> set (product_lists (map snd axes))" "params = named axes vs"
    by (rule validated_is_candidate [OF axes assms(4)])
  then show ?thesis using enumerate_mem [OF assms(1,2)] assms(3) cs' mem by auto
qed

text \<open>The parameters of every action have distinct IDs and domains without repetition.\<close>

definition clean_parameters :: "json dict dict \<Rightarrow> bool" where
  "clean_parameters actions \<longleftrightarrow>
     list_all (\<lambda>(_, action). case obj_get action ''parameters'' of
        JArr ps \<Rightarrow> distinct (map (\<lambda>j. case j of JObj p \<Rightarrow> obj_get p ''id'' | _ \<Rightarrow> JNull) ps) \<and> distinct_domains ps
      | _ \<Rightarrow> True) actions"

lemma clean_axes:
  assumes "candidate_axes limit action ps axes" and "map_of actions aid = Some action" and "clean_parameters actions"
  shows "distinct (map fst axes)" and "distinct_domains ps"
proof -
  have ps: "obj_get action ''parameters'' = JArr ps" and axes: "list_all2 (axis limit) ps axes"
    using assms(1) by (simp_all add: candidate_axes_def)
  have "map (\<lambda>j. case j of JObj p \<Rightarrow> obj_get p ''id'' | _ \<Rightarrow> JNull) ps = map JStr (map fst axes)"
    using axes by (induction rule: list_all2_induct) (auto simp: axis_def)
  moreover have "distinct (map (\<lambda>j. case j of JObj p \<Rightarrow> obj_get p ''id'' | _ \<Rightarrow> JNull) ps)" "distinct_domains ps"
    using assms(2,3) ps by (auto simp: clean_parameters_def list_all_iff dest!: map_of_SomeD)
  ultimately show "distinct (map fst axes)" and "distinct_domains ps"
    by (metis distinct_map)+
qed

lemma enumeration_exact:
  assumes "enumerate_actions limit actions = Inr cs" and "distinct (dict_keys actions)" and "clean_parameters actions"
  shows "c \<in> set cs \<longleftrightarrow>
    (\<exists>action. map_of actions (ca_action_id c) = Some action \<and>
       validated_parameters action c = Inr (ca_parameters c))"
proof
  assume "c \<in> set cs"
  then obtain action cs' where action: "map_of actions (ca_action_id c) = Some action"
    and cs': "action_candidates limit (ca_action_id c, action) = Inr cs'" and c: "c \<in> set cs'"
    using enumerate_mem [OF assms(1,2)] by blast
  obtain ps axes where axes: "candidate_axes limit action ps axes"
    and mem: "cs' = map (\<lambda>vs. \<lparr>ca_action_id = ca_action_id c, ca_parameters = named axes vs\<rparr>)
                (product_lists (map snd axes))"
    by (rule action_candidatesE [OF cs'])
  with c obtain vs where vs: "vs \<in> set (product_lists (map snd axes))"
    and eq: "c = \<lparr>ca_action_id = ca_action_id c, ca_parameters = named axes vs\<rparr>" by auto
  have "ca_parameters c = named axes vs"
    using arg_cong [OF eq, of ca_parameters] by (simp only: candidate_action.select_convs)
  from candidate_validates [OF axes clean_axes [OF axes action assms(3)] vs this] action
  show "\<exists>action. map_of actions (ca_action_id c) = Some action \<and> validated_parameters action c = Inr (ca_parameters c)"
    by blast
next
  assume "\<exists>action. map_of actions (ca_action_id c) = Some action \<and> validated_parameters action c = Inr (ca_parameters c)"
  then obtain action where "map_of actions (ca_action_id c) = Some action"
    and "validated_parameters action c = Inr (ca_parameters c)" by blast
  from candidates_are_validated [OF assms(1,2) this] show "c \<in> set cs" by (cases c) simp
qed

lemma enumeration_bounded:
  assumes "enumerate_actions limit actions = Inr cs" and "1 \<le> limit"
  shows "int (length cs) \<le> int (length actions) * limit"
proof -
  obtain css where css: "mapR (action_candidates limit) (sort_key fst actions) = Inr css" and cs: "cs = concat css"
    using assms(1) by (auto simp: enumerate_actions_def)
  have "int (length cs') \<le> limit" if "cs' \<in> set css" for cs'
    using mapR_pointwise(1) [OF css] that assms(2) by (fastforce elim!: action_candidatesE)
  then have "int (length (concat css)) \<le> int (length css) * limit"
    by (induction css) (auto simp: algebra_simps, smt (verit))
  moreover have "length css = length actions" using css by (auto simp: mapR_Inr dest: list_all2_lengthD)
  ultimately show ?thesis by (simp add: cs)
qed

section \<open>A constructed interpreter\<close>

lemma index_recordE:
  assumes "index_record ctx acc item = Inr acc'"
  obtains i where "obj_get item ''id'' = JStr i" and "i \<notin> fst ` set acc" and "acc' = acc @ [(i, item)]"
  using assms by (auto simp: index_record_def dict_mem_iff split: json.splits if_splits)

lemma index_record_fold:
  "foldR (index_record ctx) acc items = Inr result \<Longrightarrow> distinct (map fst acc) \<Longrightarrow>
     list_all (\<lambda>(i, item). obj_get item ''id'' = JStr i) acc \<Longrightarrow>
     distinct (map fst result) \<and> list_all (\<lambda>(i, item). obj_get item ''id'' = JStr i) result"
proof (induction items arbitrary: acc)
  case (Cons item items)
  from Cons.prems(1) obtain acc' where 1: "index_record ctx acc item = Inr acc'"
    and 2: "foldR (index_record ctx) acc' items = Inr result" by auto
  from 1 show ?case by (rule index_recordE) (use Cons.IH [OF 2] Cons.prems(2,3) in auto)
qed simp

lemma index_records_keys:
  assumes "index_records v ctx = Inr d"
  shows "distinct (dict_keys d)"
    and "map_of d i = Some item \<Longrightarrow> obj_get item ''id'' = JStr i"
proof -
  obtain items where "foldR (index_record ctx) [] items = Inr d"
    using assms by (auto simp: index_records_def)
  from index_record_fold [OF this] show "distinct (dict_keys d)"
    and "map_of d i = Some item \<Longrightarrow> obj_get item ''id'' = JStr i"
    by (auto simp: dict_keys_def list_all_iff dest: map_of_SomeD)
qed

text \<open>What construction establishes.\<close>

definition constructed :: "interpreter \<Rightarrow> bool" where
  "constructed gi \<longleftrightarrow>
     distinct (dict_keys (gi_schema gi)) \<and> distinct (dict_keys (gi_actions gi)) \<and>
     distinct (dict_keys (gi_conditions gi)) \<and> distinct (dict_keys (gi_effects gi)) \<and>
     distinct (dict_keys (gi_rules gi)) \<and> 1 \<le> gi_limit gi \<and>
     list_all (\<lambda>(i, rule). obj_get rule ''id'' = JStr i) (gi_rules gi) \<and>
     enumerate_actions (gi_limit gi) (gi_actions gi) = Inr (gi_candidates gi)"

lemma owned_limits_positive:
  "owned_analysis_limits limits = Inr m \<Longrightarrow> 1 \<le> int_of (obj_get m ''parameter_combinations_per_action'')"
proof (cases limits)
  case (Some j)
  assume ok: "owned_analysis_limits limits = Inr m"
  then have keys: "set (dict_keys m) = set (dict_keys analysis_limits)"
    and positive: "\<not> list_ex (\<lambda>(_, v). \<not> is_int v \<or> int_of v < 1) m"
    by (auto simp: owned_analysis_limits_def Some split: json.splits)
  have "''parameter_combinations_per_action'' \<in> fst ` set m"
    using keys by (simp add: dict_keys_def analysis_limits_def)
  then obtain v where "map_of m ''parameter_combinations_per_action'' = Some v"
    by (meson map_of_eq_None_iff option.exhaust)
  with positive show ?thesis by (fastforce simp: obj_get_def list_ex_iff dest: map_of_SomeD)
qed (auto simp: owned_analysis_limits_def analysis_limits_def obj_get_def int_of_def)

lemma make_interpreter_constructed:
  assumes "make_interpreter pack limits = Inr gi"
  shows "constructed gi"
proof -
  obtain logic owned where owned: "owned_analysis_limits limits = Inr owned"
    and schema: "index_records (obj_get logic ''state_schema'') ''state_schema'' = Inr (gi_schema gi)"
    and actions: "index_records (obj_get logic ''actions'') ''actions'' = Inr (gi_actions gi)"
    and conds: "index_records (obj_get logic ''conditions'') ''conditions'' = Inr (gi_conditions gi)"
    and effects: "index_records (obj_get logic ''effects'') ''effects'' = Inr (gi_effects gi)"
    and rules: "index_records (obj_get logic ''rules'') ''rules'' = Inr (gi_rules gi)"
    and limit: "gi_limit gi = int_of (obj_get owned ''parameter_combinations_per_action'')"
    and enum: "enumerate_actions (gi_limit gi) (gi_actions gi) = Inr (gi_candidates gi)"
    using assms by (auto simp: make_interpreter_def Let_def split: json.splits)
  show ?thesis
    unfolding constructed_def limit
    using index_records_keys(1) [OF schema] index_records_keys(1) [OF actions] index_records_keys(1) [OF conds]
      index_records_keys(1) [OF effects] index_records_keys [OF rules] owned_limits_positive [OF owned]
      enum [unfolded limit]
    by (auto simp: list_all_iff dict_keys_def)
qed

end
