(* ===== verification/GamepackSafety.thy ===== *)
theory GamepackSafety
  imports GamepackCandidates
begin

text \<open>
  What a session of a gamepack promises: from a state that can be classified every action gives a
  result, the result is such a state again, a refusal leaves everything as it was, constants keep
  their value, and no action passes an ending or a failure it does not recover from.
\<close>

section \<open>Only game errors\<close>

definition game_error :: "exn \<Rightarrow> bool" where
  "game_error e = (case e of GameLogicError _ _ \<Rightarrow> True | _ \<Rightarrow> False)"

lemma game_error_GameLogicError [simp]: "game_error (GameLogicError reason detail)"
  by (simp add: game_error_def)

abbreviation only_game_errors :: "'a res \<Rightarrow> bool" where
  "only_game_errors m \<equiv> outcome game_error (\<lambda>_. True) m"

lemma outcome_reject [outcome_simps]:
  "outcome E P (reject bad reason detail) = (if bad then E (GameLogicError reason detail) else P ())"
  by (simp add: reject_def outcome_simps)

lemma outcome_mapR [outcome_intros]:
  assumes "\<And>x. x \<in> set xs \<Longrightarrow> outcome E (\<lambda>_. True) (f x)"
  shows "outcome E (\<lambda>_. True) (mapR f xs)"
  using assms by (induction xs) (auto simp: outcome_simps elim!: outcome_mono)

lemma outcome_True_rbind [intro]:
  assumes "outcome E (\<lambda>_. True) m" and "\<And>x. m = Inr x \<Longrightarrow> outcome E P (f x)"
  shows "outcome E P (rbind m f)"
  using assms by (cases m) auto

lemma operand_errors: "only_game_errors (operand_value st params aid j)"
  by (simp add: operand_value_def Let_def split: json.split option.split)

lemma compare_errors: "only_game_errors (compare_values comparison l r)"
  by (simp add: compare_values_def split: json.split)

lemma distance_errors: "only_game_errors (distance_is l r n)"
  by (simp add: distance_is_def split: json.split)

lemma outcome_ifI:
  "(c \<Longrightarrow> outcome E P a) \<Longrightarrow> (\<not> c \<Longrightarrow> outcome E P b) \<Longrightarrow> outcome E P (if c then a else b)"
  by simp

lemma outcome_optionI:
  "(v = None \<Longrightarrow> outcome E P a) \<Longrightarrow> (\<And>x. v = Some x \<Longrightarrow> outcome E P (b x)) \<Longrightarrow>
     outcome E P (case v of None \<Rightarrow> a | Some x \<Rightarrow> b x)"
  by (cases v) simp_all

lemma outcome_jsonI:
  assumes "j = JNull \<Longrightarrow> outcome E P n" and "\<And>x. j = JBool x \<Longrightarrow> outcome E P (b x)"
    and "\<And>x. j = JInt x \<Longrightarrow> outcome E P (i x)" and "\<And>x. j = JFloat x \<Longrightarrow> outcome E P (f x)"
    and "\<And>x. j = JStr x \<Longrightarrow> outcome E P (s x)" and "\<And>x. j = JArr x \<Longrightarrow> outcome E P (a x)"
    and "\<And>x. j = JObj x \<Longrightarrow> outcome E P (ob x)"
  shows "outcome E P (case j of JNull \<Rightarrow> n | JBool x \<Rightarrow> b x | JInt x \<Rightarrow> i x | JFloat x \<Rightarrow> f x
           | JStr x \<Rightarrow> s x | JArr x \<Rightarrow> a x | JObj x \<Rightarrow> ob x)"
  using assms by (cases j) simp_all

lemmas outcome_splits = outcome_ifI outcome_optionI outcome_jsonI outcome_True_rbind

lemma condition_errors: "only_game_errors (eval_condition conds st params aid active cid)"
proof (induction conds st params aid active cid rule: eval_condition.induct)
  case (1 conds st params aid active cid)
  show ?case
    unfolding eval_condition.simps [of conds st params aid active cid] Let_def
    by (intro outcome_splits outcome_mapR operand_errors compare_errors distance_errors 1 refl; (assumption | simp))
qed

lemma conditions_errors: "only_game_errors (eval_conditions gi ids st params aid)"
  by (auto simp: eval_conditions_def condition_errors split: json.split intro!: outcome_allR)

section \<open>Shapes\<close>

text \<open>
  The record shapes that \<open>validate_runtime_gamepack\<close> checks and a session relies on: arrays of
  strings as allowed values, integer rule orders, named goals, failures and endings.
\<close>

definition string_domain :: "json dict \<Rightarrow> bool" where
  "string_domain schema \<longleftrightarrow>
     (case allowed_values schema of JArr xs \<Rightarrow> list_all is_str xs | _ \<Rightarrow> False)"

definition is_arr :: "json \<Rightarrow> bool" where
  "is_arr j = (case j of JArr _ \<Rightarrow> True | _ \<Rightarrow> False)"

lemma is_arr_iff: "is_arr j \<longleftrightarrow> (\<exists>xs. j = JArr xs)"
  by (simp add: is_arr_def split: json.split)

definition rule_shape :: "json dict \<Rightarrow> bool" where
  "rule_shape rule \<longleftrightarrow>
     as_int (obj_get_or rule ''order'' (JInt 0)) \<noteq> None \<and>
     is_arr (obj_get_or rule ''effect_ids'' (JArr []))"

definition ending_shape :: "json dict \<Rightarrow> bool" where
  "ending_shape e \<longleftrightarrow>
     (case obj_get e ''id'' of JStr i \<Rightarrow> runtime_id i | _ \<Rightarrow> False) \<and> dict_mem ''kind'' e"

definition well_shaped :: "interpreter \<Rightarrow> bool" where
  "well_shaped gi \<longleftrightarrow>
     list_all (\<lambda>(_, s). string_domain s) (gi_schema gi) \<and>
     list_all (\<lambda>(_, e). hashable (obj_get e ''operation'')) (gi_effects gi) \<and>
     list_all (\<lambda>(_, r). rule_shape r) (gi_rules gi) \<and>
     list_all (\<lambda>g. is_str (obj_get g ''id'')) (gi_goals gi @ gi_failures gi) \<and>
     list_all ending_shape (gi_endings gi)"

lemma string_domain_iff:
  "string_domain schema \<longleftrightarrow> (\<exists>xs. allowed_values schema = JArr xs \<and> list_all is_str xs)"
  by (simp add: string_domain_def split: json.split)

lemma in_domain_total: "string_domain schema \<Longrightarrow> \<exists>b. in_domain safe schema v = Inr b"
  by (auto simp: string_domain_iff in_domain_def contained_def iterated_def set_from_def hashable_strings Let_def
      split: json.split option.split)

lemma state_value_total:
  assumes "string_domain schema"
  obtains b where "validate_state_value schema v = Inr b"
  using in_domain_total [OF assms] by (auto simp: validate_state_value_def)

lemma schema_string_domain:
  "well_shaped gi \<Longrightarrow> map_of (gi_schema gi) sid = Some schema \<Longrightarrow> string_domain schema"
  by (auto simp: well_shaped_def list_all_iff dest!: map_of_SomeD)

section \<open>States of the schema\<close>

text \<open>\<open>st\<close> is a dictionary with exactly the states of the schema, each in its domain.\<close>

definition in_schema :: "interpreter \<Rightarrow> json dict \<Rightarrow> bool" where
  "in_schema gi st \<longleftrightarrow>
     set (dict_keys st) = set (dict_keys (gi_schema gi)) \<and>
     (\<forall>(sid, schema) \<in> set (gi_schema gi). \<exists>v. map_of st sid = Some v \<and> validate_state_value schema v = Inr True)"

lemma foldR_unit: "foldR f () xs = Inr u \<longleftrightarrow> (\<forall>x \<in> set xs. f () x = Inr ())"
proof (induction xs)
  case (Cons x xs)
  then show ?case by (cases "f () x") auto
qed simp

lemma check_state_iff:
  "check_state st u (sid, schema) = Inr () \<longleftrightarrow>
     (\<exists>v. map_of st sid = Some v \<and> validate_state_value schema v = Inr True)"
proof (cases "map_of st sid")
  case (Some v)
  show ?thesis
    by (cases "validate_state_value schema v") (auto simp: check_state_def dict_at_def Some)
qed (simp add: check_state_def dict_at_def)

lemma gp_validate_state_iff: "gp_validate_state gi st = Inr u \<longleftrightarrow> in_schema gi st"
proof -
  have "(\<forall>x \<in> set (gi_schema gi). check_state st () x = Inr ()) \<longleftrightarrow>
      (\<forall>(sid, schema) \<in> set (gi_schema gi). \<exists>v. map_of st sid = Some v \<and> validate_state_value schema v = Inr True)"
    by (intro ball_cong refl) (simp add: check_state_iff split: prod.split)
  then show ?thesis
    by (cases "set (dict_keys st) = set (dict_keys (gi_schema gi))")
      (simp_all add: gp_validate_state_def in_schema_def foldR_unit)
qed

lemma in_schema_at:
  assumes "in_schema gi st" and "map_of st sid = Some v" and "constructed gi"
  obtains schema where "map_of (gi_schema gi) sid = Some schema" and "validate_state_value schema v = Inr True"
proof -
  have "sid \<in> fst ` set (gi_schema gi)"
    using assms(1,2) by (force simp: in_schema_def dict_keys_def dest: map_of_SomeD)
  then obtain schema where "map_of (gi_schema gi) sid = Some schema"
    by (meson map_of_eq_None_iff option.exhaust)
  with assms(1,2) that show thesis by (fastforce simp: in_schema_def dest: map_of_SomeD)
qed

lemma validate_errors:
  assumes "well_shaped gi" and "distinct (dict_keys (gi_schema gi))"
  shows "only_game_errors (gp_validate_state gi st)"
proof -
  have "only_game_errors (check_state st () (sid, schema))"
    if keys: "set (dict_keys st) = set (dict_keys (gi_schema gi))" and mem: "(sid, schema) \<in> set (gi_schema gi)"
    for sid schema
  proof -
    have "sid \<in> fst ` set st" using keys mem by (force simp: dict_keys_def)
    then obtain v where "map_of st sid = Some v" by (meson map_of_eq_None_iff option.exhaust)
    moreover have "map_of (gi_schema gi) sid = Some schema"
      using mem assms(2) by (simp add: dict_keys_def)
    then obtain b where "validate_state_value schema v = Inr b"
      using state_value_total [OF schema_string_domain [OF assms(1)]] by blast
    ultimately show ?thesis by (simp add: check_state_def dict_at_def outcome_simps)
  qed
  then show ?thesis
    by (auto simp: gp_validate_state_def outcome_simps intro!: outcome_foldR [where I = "\<lambda>_. True"])
qed

lemma in_domain_state_value:
  "validate_state_value schema v = Inr True \<Longrightarrow> state_value v \<and> (\<forall>i. v = JInt i \<longrightarrow> safe_integer i)"
  by (auto simp: validate_state_value_def in_domain_def state_value_def distinct_strings_def Let_def
      split: json.splits if_splits option.splits)

section \<open>Classification\<close>

lemma active_errors:
  assumes "list_all (\<lambda>g. is_str (obj_get g ''id'')) items"
  shows "outcome game_error (\<lambda>ids. set ids \<subseteq> id_text ` (\<lambda>g. obj_get g ''id'') ` set items) (active_ids gi st items)"
proof -
  have "outcome game_error (\<lambda>ids. set ids \<subseteq> id_text ` (\<lambda>g. obj_get g ''id'') ` set items) (add_active gi st acc g)"
    if g: "g \<in> set items" and acc: "set acc \<subseteq> id_text ` (\<lambda>g. obj_get g ''id'') ` set items" for g acc
  proof -
    obtain i where "map_of g ''id'' = Some (JStr i)"
      using g assms by (fastforce simp: list_all_iff is_str_iff obj_get_def split: option.splits)
    then have "outcome game_error (\<lambda>ids. set ids \<subseteq> id_text ` (\<lambda>g. obj_get g ''id'') ` set items)
        (if b then rbind (dict_at g ''id'') (\<lambda>j. Inr (acc @ [id_text j])) else Inr acc)" for b
      using g acc by (auto simp: dict_at_def obj_get_def image_iff intro!: bexI [of _ g])
    then show ?thesis
      unfolding add_active_def by (intro outcome_True_rbind conditions_errors)
  qed
  then show ?thesis unfolding active_ids_def by (intro outcome_foldR) auto
qed

lemma next_record_found:
  assumes "list_all (\<lambda>g. is_str (obj_get g ''id'')) items" and "i \<in> id_text ` (\<lambda>g. obj_get g ''id'') ` set items"
  shows "\<exists>item \<in> set items. next_record i items = Inr item \<and> obj_get item ''id'' = JStr i"
  using assms
proof (induction items)
  case (Cons g items)
  obtain k where "map_of g ''id'' = Some (JStr k)"
    using Cons.prems(1) by (fastforce simp: is_str_iff obj_get_def split: option.splits)
  with Cons show ?case by (cases "k = i") (auto simp: obj_get_def dict_at_def)
qed simp

lemma recover_errors:
  assumes "list_all (\<lambda>g. is_str (obj_get g ''id'')) failures"
    and "set ids \<subseteq> id_text ` (\<lambda>g. obj_get g ''id'') ` set failures"
  shows "only_game_errors (foldR (recover failures) r ids)"
proof (intro outcome_foldR [where I = "\<lambda>_. True"])
  fix r i assume "i \<in> set ids"
  then obtain item where "next_record i failures = Inr item"
    using next_record_found [OF assms(1)] assms(2) by blast
  then show "only_game_errors (recover failures r i)"
    by (simp add: recover_def Let_def split: json.split)
qed simp

lemma check_cursor_errors: "only_game_errors (check_cursor gi st endings kind)"
  unfolding check_cursor_def Let_def by (intro outcome_splits; simp add: outcome_simps split: option.split)

lemma ending_ids_str: "list_all ending_shape es \<Longrightarrow> list_all (\<lambda>g. is_str (obj_get g ''id'')) es"
  by (auto simp: list_all_iff ending_shape_def is_str_def split: json.splits)

lemma ending_kind_errors:
  assumes "list_all ending_shape es" and "i \<in> id_text ` (\<lambda>g. obj_get g ''id'') ` set es"
  shows "only_game_errors
    (rbind (next_record i es) (\<lambda>ending. rbind (dict_at ending ''kind'') (\<lambda>j. Inr (Some (id_text j)))))"
proof -
  obtain e where e: "e \<in> set es" "next_record i es = Inr e"
    using next_record_found [OF ending_ids_str [OF assms(1)] assms(2)] by blast
  with assms(1) obtain v where "map_of e ''kind'' = Some v"
    by (fastforce simp: list_all_iff ending_shape_def dict_mem_def)
  with e show ?thesis by (simp add: dict_at_def)
qed

lemma classify_validated_errors:
  assumes "well_shaped gi"
  shows "only_game_errors (classify_validated_state gi st)"
proof -
  have shape: "list_all (\<lambda>g. is_str (obj_get g ''id'')) (gi_goals gi)" "list_all ending_shape (gi_endings gi)"
    "list_all (\<lambda>g. is_str (obj_get g ''id'')) (gi_failures gi)"
    using assms by (simp_all add: well_shaped_def)
  note active = active_errors [OF shape(1)] active_errors [OF ending_ids_str [OF shape(2)]] active_errors [OF shape(3)]
  show ?thesis
    unfolding classify_validated_state_def
  proof (intro outcome_True_rbind outcome_mono [OF active(1)] TrueI)
    fix goals show "only_game_errors (active_ids gi st (gi_endings gi))"
      by (rule outcome_mono [OF active(2)]) simp
  next
    fix goals endings assume "active_ids gi st (gi_endings gi) = Inr endings"
    with outcome_InrD [OF active(2)] have endings: "set endings \<subseteq> id_text ` (\<lambda>g. obj_get g ''id'') ` set (gi_endings gi)"
      by blast
    show "only_game_errors (reject (1 < length endings) ''ambiguous_ending'' ''exactly one ending may match a state'')"
      by (simp add: outcome_simps)
    show "only_game_errors (case endings of [] \<Rightarrow> Inr None
        | i # _ \<Rightarrow> rbind (next_record i (gi_endings gi)) (\<lambda>ending.
                    rbind (dict_at ending ''kind'') (\<lambda>j. Inr (Some (id_text j)))))"
      using ending_kind_errors [OF shape(2)] endings by (cases endings) auto
    fix kind
    show "only_game_errors (check_cursor gi st endings kind)" by (rule check_cursor_errors)
    have "only_game_errors (rbind (active_ids gi st (gi_failures gi)) (\<lambda>active_failures.
        rbind (foldR (recover (gi_failures gi)) None active_failures) (k active_failures)))"
      if "\<And>a b. \<exists>x. k a b = Inr x" for k :: "string list \<Rightarrow> string list option \<Rightarrow> classification res"
    proof (intro outcome_True_rbind)
      show "only_game_errors (active_ids gi st (gi_failures gi))" by (rule outcome_mono [OF active(3)]) simp
      fix ids assume "active_ids gi st (gi_failures gi) = Inr ids"
      with outcome_InrD [OF active(3)] show "only_game_errors (foldR (recover (gi_failures gi)) None ids)"
        by (intro recover_errors [OF shape(3)]) blast
      fix r show "only_game_errors (k ids r)" using that [of ids r] by auto
    qed
    then show "only_game_errors
      (if endings \<noteq> []
       then Inr \<lparr>gc_goal_ids = goals, gc_ending_ids = endings, gc_ending_kind = kind,
                 gc_failure_ids = [], gc_recovery_action_ids = []\<rparr>
       else
         rbind (active_ids gi st (gi_failures gi)) (\<lambda>active_failures.
         rbind (foldR (recover (gi_failures gi)) None active_failures) (\<lambda>recovery.
           Inr \<lparr>gc_goal_ids = goals, gc_ending_ids = [], gc_ending_kind = None,
                gc_failure_ids = active_failures, gc_recovery_action_ids = recovery_ids recovery\<rparr>)))"
      by (intro outcome_ifI) simp_all
  qed
qed

end
