(* ===== verification/GamepackSession.thy ===== *)
theory GamepackSession
  imports GamepackSafety
begin

text \<open>
  Sessions of gamepacks: what the effects of an action do to a state, the results of
  \<open>transition\<close>, and the states a session reaches.
\<close>

section \<open>Effects\<close>

text \<open>The states an action may not change: those that are not mutable, except the narrative cursor.\<close>

definition cursor_of :: "interpreter \<Rightarrow> string \<Rightarrow> json" where
  "cursor_of gi aid =
     (case map_of (gi_by_action gi) aid of None \<Rightarrow> JNull
      | Some t \<Rightarrow> (case obj_get t ''effect'' of JObj e \<Rightarrow> obj_get e ''cursor_state_id'' | _ \<Rightarrow> JNull))"

definition constant_state :: "interpreter \<Rightarrow> string \<Rightarrow> bool" where
  "constant_state gi sid \<longleftrightarrow>
     (case map_of (gi_schema gi) sid of None \<Rightarrow> False
      | Some schema \<Rightarrow> obj_get schema ''mutability'' \<noteq> JStr ''mutable'')"

definition mutable_cursors :: "interpreter \<Rightarrow> bool" where
  "mutable_cursors gi \<longleftrightarrow>
     list_all (\<lambda>(aid, _). case cursor_of gi aid of JStr sid \<Rightarrow> \<not> constant_state gi sid | _ \<Rightarrow> True) (gi_by_action gi)"

lemma mutable_cursorsD:
  assumes "mutable_cursors gi" and "cursor_of gi aid = JStr sid"
  shows "\<not> constant_state gi sid"
proof -
  obtain t where "(aid, t) \<in> set (gi_by_action gi)"
    using assms(2) by (auto simp: cursor_of_def split: option.splits dest: map_of_SomeD)
  with assms show ?thesis by (auto simp: mutable_cursors_def list_all_iff split: json.splits)
qed

text \<open>\<open>follows_from gi st st'\<close>: the same states, with every constant as it was.\<close>

definition follows_from :: "interpreter \<Rightarrow> json dict \<Rightarrow> json dict \<Rightarrow> bool" where
  "follows_from gi st st' \<longleftrightarrow>
     map fst st' = map fst st \<and> (\<forall>sid. constant_state gi sid \<longrightarrow> map_of st' sid = map_of st sid)"

lemma follows_from_refl [simp]: "follows_from gi st st"
  by (simp add: follows_from_def)

lemma follows_from_trans: "follows_from gi a b \<Longrightarrow> follows_from gi b c \<Longrightarrow> follows_from gi a c"
  by (simp add: follows_from_def)

lemma update_known: "map_of st sid = Some v \<Longrightarrow> map fst (AList.update sid w st) = map fst st"
  by (induction st) (auto split: if_splits)

lemma gp_apply_effect_follows:
  assumes "gp_apply_effect gi params aid st e = Inr st'"
  shows "follows_from gi st st'"
proof -
  obtain sid v w schema where "map_of st sid = Some v" and "st' = AList.update sid w st"
    and "map_of (gi_schema gi) sid = Some schema" and "obj_get schema ''mutability'' = JStr ''mutable''"
    using assms by (auto simp: gp_apply_effect_def split: json.splits option.splits)
  then show ?thesis
    by (auto simp: follows_from_def update_known constant_state_def update_conv')
qed

lemma foldR_follows:
  assumes "foldR f s xs = Inr s'" and "\<And>s s' x. f s x = Inr s' \<Longrightarrow> follows_from gi (g s) (g s')"
  shows "follows_from gi (g s) (g s')"
  using assms(1)
proof (induction xs arbitrary: s)
  case (Cons x xs)
  then obtain w where "f s x = Inr w" "foldR f w xs = Inr s'" by auto
  then show ?case using Cons.IH assms(2) follows_from_trans by blast
qed simp

lemma run_effect_follows: "run_effect gi params aid st j = Inr st' \<Longrightarrow> follows_from gi st st'"
  by (auto simp: run_effect_def split: option.splits intro: gp_apply_effect_follows)

lemma run_rule_follows:
  "run_rule gi params aid acc rule = Inr acc' \<Longrightarrow> follows_from gi (fst acc) (fst acc')"
  by (cases acc)
    (auto simp: run_rule_def split: json.splits dest!: foldR_follows [where g = "\<lambda>st. st" and gi = gi] intro: run_effect_follows)

lemma run_rules_follow:
  assumes "foldR (run_rule gi params aid) acc rules = Inr acc'"
  shows "follows_from gi (fst acc) (fst acc')"
  by (rule foldR_follows [where g = fst, OF assms]) (rule run_rule_follows)

lemma move_cursor_follows:
  assumes "move_cursor (map_of (gi_by_action gi) aid) st = Inr st'"
    and "mutable_cursors gi"
  shows "follows_from gi st st'"
  using assms(1) mutable_cursorsD [OF assms(2), of aid]
  by (auto simp: move_cursor_def cursor_of_def follows_from_def update_known update_conv'
      dest!: dict_mem_Some split: option.splits json.splits if_splits)

text \<open>The steps of a successful attempt.\<close>

lemma attemptE:
  assumes "attempt gi aid before params rules = Inr (Inr (st, events))"
  obtains mid cl where
      "allR (\<lambda>rule. eval_conditions gi (obj_get rule ''condition_ids'') before params (Some aid)) rules = Inr True"
    and "narrative_guard before (map_of (gi_by_action gi) aid) rules = Inr None"
    and "foldR (run_rule gi params aid) (before, []) rules = Inr (mid, events)"
    and "move_cursor (map_of (gi_by_action gi) aid) mid = Inr st"
    and "classify gi st = Inr cl"
proof -
  obtain ok where ok: "allR (\<lambda>rule. eval_conditions gi (obj_get rule ''condition_ids'') before params (Some aid)) rules = Inr ok"
    using assms unfolding attempt_def by blast
  with assms have "ok" by (auto simp: attempt_def split: if_splits)
  with ok assms obtain g where g: "narrative_guard before (map_of (gi_by_action gi) aid) rules = Inr g"
    unfolding attempt_def Let_def by auto
  with ok \<open>ok\<close> assms have "g = None" by (cases g) (simp_all add: attempt_def)
  with g ok \<open>ok\<close> assms that show thesis by (auto simp: attempt_def)
qed

lemma attempt_follows:
  assumes "attempt gi aid before params rules = Inr (Inr (st, events))"
    and "mutable_cursors gi"
  shows "follows_from gi before st"
proof (rule attemptE [OF assms(1)])
  fix mid
  assume "foldR (run_rule gi params aid) (before, []) rules = Inr (mid, events)"
    and "move_cursor (map_of (gi_by_action gi) aid) mid = Inr st"
  then show ?thesis
    using run_rules_follow [of gi params aid "(before, [])" rules "(mid, events)"]
      move_cursor_follows [OF _ assms(2)] follows_from_trans by simp
qed

text \<open>The events of a rule list, in rule order and then reference order.\<close>

definition rule_events :: "json dict \<Rightarrow> string list" where
  "rule_events rule = (case obj_get rule ''event_ids'' of JArr ids \<Rightarrow> map id_text ids | _ \<Rightarrow> [])"

lemma run_rules_events:
  "foldR (run_rule gi params aid) acc rules = Inr acc' \<Longrightarrow> snd acc' = snd acc @ concat (map rule_events rules)"
proof (induction rules arbitrary: acc)
  case (Cons rule rules)
  then obtain acc1 where 1: "run_rule gi params aid acc rule = Inr acc1"
    and 2: "foldR (run_rule gi params aid) acc1 rules = Inr acc'" by auto
  have "snd acc1 = snd acc @ rule_events rule"
    using 1 by (auto simp: run_rule_def rule_events_def split: json.splits prod.splits)
  with Cons.IH [OF 2] show ?case by simp
qed simp

lemma attempt_events:
  assumes "attempt gi aid before params rules = Inr (Inr (st, events))"
  shows "events = concat (map rule_events rules)"
  by (rule attemptE [OF assms]) (auto dest: run_rules_events)

lemma attempt_conditions:
  assumes "attempt gi aid before params rules = Inr (Inr (st, events))" and "rule \<in> set rules"
  shows "eval_conditions gi (obj_get rule ''condition_ids'') before params (Some aid) = Inr True"
  by (rule attemptE [OF assms(1)]) (use assms(2) in \<open>simp add: allR_True_iff\<close>)

section \<open>Errors of an attempt\<close>

lemma swap_errors: "only_game_errors (swap_items current a b)"
  by (simp add: swap_items_def split: json.split)

lemma increment_errors: "only_game_errors (incremented current amount)"
  by (simp add: incremented_def split: json.split)

lemma append_errors: "only_game_errors (append_new current v)"
  by (simp add: append_new_def split: json.split)

lemma effect_value_errors: "only_game_errors (effect_value schema (\<lambda>k. operand_value st params aid (obj_get e k)) op current)"
  unfolding effect_value_def
  by (intro outcome_splits operand_errors swap_errors increment_errors append_errors) simp_all

lemma known_state:
  assumes "map fst st = ks" and "set ks = set (dict_keys (gi_schema gi))" and "map_of st sid = Some v"
  obtains schema where "map_of (gi_schema gi) sid = Some schema"
proof -
  have "sid \<in> fst ` set (gi_schema gi)"
    using assms by (force simp: dict_keys_def dest: map_of_SomeD)
  with that show thesis by (meson map_of_eq_None_iff option.exhaust)
qed

lemma gp_apply_effect_errors:
  assumes "well_shaped gi" and "map_of (gi_effects gi) eid = Some e" and "set (map fst st) = set (dict_keys (gi_schema gi))"
  shows "only_game_errors (gp_apply_effect gi params aid st e)"
  unfolding gp_apply_effect_def
proof (intro outcome_True_rbind effect_value_errors outcome_jsonI outcome_optionI)
  show "only_game_errors (raise_if (\<not> hashable (obj_get e ''operation'')) (TypeError ''unhashable type''))"
    using assms(1,2) by (auto simp: outcome_simps well_shaped_def list_all_iff dest!: map_of_SomeD)
  fix sid v assume v: "map_of st sid = Some v"
  show "only_game_errors (dict_at (gi_schema gi) sid)"
    by (rule known_state [OF refl assms(3) v]) (simp add: dict_at_def)
  fix schema w assume "dict_at (gi_schema gi) sid = Inr schema"
  then show "only_game_errors (validate_state_value schema w)"
    using state_value_total [OF schema_string_domain [OF assms(1)]] by (metis dict_at_Inr outcome_Inr)
qed (simp_all add: outcome_simps)

text \<open>A state with the names of the schema.\<close>

abbreviation schema_keys :: "interpreter \<Rightarrow> json dict \<Rightarrow> bool" where
  "schema_keys gi st \<equiv> set (map fst st) = set (dict_keys (gi_schema gi))"

lemma run_effect_outcome:
  assumes "well_shaped gi" and "schema_keys gi st"
  shows "outcome game_error (schema_keys gi) (run_effect gi params aid st j)"
proof -
  have "only_game_errors (run_effect gi params aid st j)"
    using gp_apply_effect_errors [OF assms(1)] assms(2) by (simp add: run_effect_def split: option.split)
  moreover have "schema_keys gi st'" if "run_effect gi params aid st j = Inr st'" for st'
    using run_effect_follows [OF that] assms(2) by (simp add: follows_from_def)
  ultimately show ?thesis by (cases "run_effect gi params aid st j") auto
qed

lemma run_rule_outcome:
  assumes "well_shaped gi" and "schema_keys gi (fst acc)"
  shows "outcome game_error (\<lambda>acc. schema_keys gi (fst acc)) (run_rule gi params aid acc rule)"
proof -
  obtain st events where acc: "acc = (st, events)" by (cases acc)
  have "outcome game_error (schema_keys gi) (foldR (run_effect gi params aid) st effects)" for effects
    using assms acc by (intro outcome_foldR run_effect_outcome) auto
  then show ?thesis
    by (auto simp: run_rule_def acc outcome_simps split: json.split elim!: outcome_mono)
qed

lemma references_errors:
  assumes "list_all (\<lambda>rule. \<exists>xs. obj_get_or rule k (JArr []) = JArr xs) rules"
  shows "only_game_errors (references k rules)"
  unfolding references_def
  by (intro outcome_True_rbind outcome_mapR) (use assms in \<open>auto simp: list_all_iff iterated_def\<close>)

lemma conditions_array: "eval_conditions gi j st params aid = Inr b \<Longrightarrow> \<exists>xs. j = JArr xs"
  by (auto simp: eval_conditions_def split: json.splits)

lemma arrays_from_conditions:
  assumes "allR (\<lambda>rule. eval_conditions gi (obj_get rule ''condition_ids'') st params aid) rules = Inr True"
  shows "list_all (\<lambda>rule. \<exists>xs. obj_get_or rule ''condition_ids'' (JArr []) = JArr xs) rules"
  using assms conditions_array
  by (fastforce simp: allR_True_iff list_all_iff obj_get_def obj_get_or_def split: option.splits)

lemma guard_errors:
  assumes "list_all (\<lambda>rule. \<exists>xs. obj_get_or rule ''condition_ids'' (JArr []) = JArr xs) rules"
    and "list_all (\<lambda>rule. \<exists>xs. obj_get_or rule ''effect_ids'' (JArr []) = JArr xs) rules"
  shows "only_game_errors (narrative_guard before narrative rules)"
  unfolding narrative_guard_def
  by (intro outcome_splits references_errors assms) (simp_all add: outcome_simps)

lemma move_cursor_errors: "only_game_errors (move_cursor narrative st)"
  unfolding move_cursor_def by (intro outcome_splits) simp_all

lemma add_string_errors: "only_game_errors (add_string m u s)"
  by (auto simp: add_string_def json_string_size_def add_bytes_def Let_def)

lemma snapshot_graph_errors: "only_game_errors (snapshot_json_graph fl m d nu v)"
proof (induction fl m d nu v rule: snapshot_json_graph.induct)
  case (1 fl m d n u v)
  have add: "only_game_errors (add_bytes m k w)" for k w by (simp add: add_bytes_def)
  show ?case
    unfolding snapshot_json_graph.simps [of fl m d n u v] Let_def
    by (intro outcome_splits outcome_foldR add add_string_errors 1 refl TrueI; (assumption | simp add: outcome_simps too_many_nodes_def reject_impossible_string_batch_def))
qed

lemma classify_errors:
  assumes "well_shaped gi" and "constructed gi"
  shows "only_game_errors (classify gi st)"
  unfolding classify_def snapshot_strict_state_def snapshot_plain_json_def
  using assms(2)
  by (intro outcome_True_rbind snapshot_graph_errors validate_errors [OF assms(1)] classify_validated_errors [OF assms(1)])
    (simp_all add: constructed_def)

lemma attempt_errors:
  assumes "well_shaped gi" and "constructed gi" and "schema_keys gi before"
    and "list_all (\<lambda>rule. \<exists>xs. obj_get_or rule ''effect_ids'' (JArr []) = JArr xs) rules"
  shows "only_game_errors (attempt gi aid before params rules)"
  unfolding attempt_def Let_def
proof (intro outcome_splits outcome_allR conditions_errors)
  fix ok
  assume "allR (\<lambda>rule. eval_conditions gi (obj_get rule ''condition_ids'') before params (Some aid)) rules = Inr ok"
    and "\<not> \<not> ok"
  then show "only_game_errors (narrative_guard before (map_of (gi_by_action gi) aid) rules)"
    by (intro guard_errors assms(4) arrays_from_conditions) auto
  have "outcome game_error (\<lambda>acc. schema_keys gi (fst acc)) (foldR (run_rule gi params aid) (before, []) rules)"
    using assms(3) by (intro outcome_foldR run_rule_outcome [OF assms(1)]) auto
  then show "only_game_errors (foldR (run_rule gi params aid) (before, []) rules)"
    by (rule outcome_mono) simp
next
  fix acc
  have "only_game_errors (gp_validate_state gi st)" for st
    using validate_errors [OF assms(1)] assms(2) by (simp add: constructed_def)
  then show "only_game_errors (case acc of (st, events) \<Rightarrow>
      rbind (move_cursor (map_of (gi_by_action gi) aid) st) (\<lambda>st.
      rbind (gp_validate_state gi st) (\<lambda>_. rbind (classify gi st) (\<lambda>_. Inr (Inr (st, events))))))"
    by (cases acc) (auto intro!: outcome_True_rbind move_cursor_errors classify_errors assms(1,2))
qed simp_all

section \<open>Results\<close>

lemma catchE:
  assumes "catch m handler k = Inr r"
  obtains x where "m = Inr x" and "k x = Inr r" | reason where "handler reason = Inr r"
  using assms by (auto simp: catch_def split: sum.splits exn.splits)

lemma rejectedE:
  assumes "rejected sha c st reason = Inr r"
  shows "\<not> tr_accepted r \<and> tr_action r = c \<and> tr_pre_state r = st \<and> tr_post_state r = st \<and>
         tr_post_state_hash r = tr_pre_state_hash r \<and> tr_events r = [] \<and> tr_rejection_reason r = Some reason"
  using assms by (auto simp: rejected_def)

lemma commitE:
  assumes "commit sha aid params before result = Inr r"
  shows "tr_accepted r \<and> tr_action r = \<lparr>ca_action_id = aid, ca_parameters = params\<rparr> \<and>
         tr_pre_state r = before \<and> tr_post_state r = fst result \<and> tr_events r = snd result \<and>
         tr_rejection_reason r = None \<and> canonical_state_hash sha before = Inr (tr_pre_state_hash r) \<and>
         canonical_state_hash sha (fst result) = Inr (tr_post_state_hash r)"
  using assms by (auto simp: commit_def)

text \<open>Why a transition was committed: \<open>params\<close>, \<open>found\<close> and \<open>rules\<close> are what was computed on the way.\<close>

definition committed ::
  "(string \<Rightarrow> string) \<Rightarrow> interpreter \<Rightarrow> json dict \<Rightarrow> candidate_action \<Rightarrow> json dict \<Rightarrow> classification \<Rightarrow>
     json dict list \<Rightarrow> transition_result \<Rightarrow> bool" where
  "committed sha gi st c params found rules r \<longleftrightarrow>
     (\<exists>action. map_of (gi_actions gi) (ca_action_id c) = Some action \<and>
        validated_parameters action c = Inr params \<and>
        owned_rules gi (ca_action_id c) action = Inr (Inr rules)) \<and>
     classify gi st = Inr found \<and> gc_ending_ids found = [] \<and>
     (gc_failure_ids found = [] \<or> ca_action_id c \<in> set (gc_recovery_action_ids found)) \<and>
     attempt gi (ca_action_id c) st params rules = Inr (Inr (tr_post_state r, tr_events r)) \<and>
     commit sha (ca_action_id c) params st (tr_post_state r, tr_events r) = Inr r"

abbreviation refused :: "(string \<Rightarrow> string) \<Rightarrow> json dict \<Rightarrow> candidate_action \<Rightarrow> transition_result \<Rightarrow> bool" where
  "refused sha st c r \<equiv> \<exists>reason. rejected sha c st reason = Inr r"

lemma terminal_Inr: "terminal found = Inr b \<Longrightarrow> b \<longleftrightarrow> gc_ending_ids found \<noteq> []"
  by (auto simp: terminal_def)

lemma try_rules_cases:
  assumes "try_rules sha gi st c params rules = Inr r"
  shows "refused sha st c r \<or>
    attempt gi (ca_action_id c) st params rules = Inr (Inr (tr_post_state r, tr_events r)) \<and>
    commit sha (ca_action_id c) params st (tr_post_state r, tr_events r) = Inr r"
  using assms unfolding try_rules_def
proof (cases rule: catchE)
  case (1 result)
  show ?thesis
  proof (cases result)
    case (Inr res)
    with 1(2) have commit: "commit sha (ca_action_id c) params st res = Inr r" by simp
    have "res = (tr_post_state r, tr_events r)" using commitE [OF commit] by (simp add: prod_eq_iff)
    with commit 1(1) Inr show ?thesis by simp
  qed (use 1(2) in auto)
qed blast

lemma try_action_cases:
  assumes "try_action sha gi st c action params = Inr r"
  shows "refused sha st c r \<or>
    (\<exists>found rules. classify gi st = Inr found \<and> gc_ending_ids found = [] \<and>
       (gc_failure_ids found = [] \<or> ca_action_id c \<in> set (gc_recovery_action_ids found)) \<and>
       owned_rules gi (ca_action_id c) action = Inr (Inr rules) \<and>
       try_rules sha gi st c params rules = Inr r)"
  using assms terminal_Inr
  by (fastforce simp: try_action_def Let_def split: if_splits sum.splits)

lemma validated_transition_cases:
  assumes "transition_validated_state sha gi st c = Inr r"
  shows "refused sha st c r \<or> (\<exists>params found rules. committed sha gi st c params found rules r)"
proof (cases "map_of (gi_actions gi) (ca_action_id c)")
  case (Some action)
  with assms have "catch (validated_parameters action c) (rejected sha c st) (try_action sha gi st c action) = Inr r"
    by (simp add: transition_validated_state_def)
  then show ?thesis
  proof (cases rule: catchE)
    case (1 params)
    from try_action_cases [OF 1(2)] try_rules_cases 1(1) Some show ?thesis
      unfolding committed_def by meson
  qed blast
qed (use assms in \<open>auto simp: transition_validated_state_def\<close>)

lemma transition_cases:
  assumes "transition_strict sha gi st c = Inr r"
  shows "snapshot_strict_candidate c = Inr c \<and> in_schema gi st \<and>
    (refused sha st c r \<or> (\<exists>params found rules. committed sha gi st c params found rules r))"
proof -
  have "snapshot_strict_candidate c = Inr c" and "in_schema gi st"
    and "transition_validated_state sha gi st c = Inr r"
    using assms by (auto simp: transition_strict_def snapshot_strict_candidate_def snapshot_strict_state_def
        gp_validate_state_iff)
  with validated_transition_cases show ?thesis by blast
qed

lemma committedD:
  assumes "committed sha gi st c params found rules r"
  shows "tr_accepted r" and "tr_action r = \<lparr>ca_action_id = ca_action_id c, ca_parameters = params\<rparr>"
    and "tr_pre_state r = st" and "tr_rejection_reason r = None"
    and "canonical_state_hash sha st = Inr (tr_pre_state_hash r)"
    and "canonical_state_hash sha (tr_post_state r) = Inr (tr_post_state_hash r)"
    and "tr_events r = concat (map rule_events rules)"
    and "\<exists>cl. classify gi (tr_post_state r) = Inr cl"
proof -
  have attempt: "attempt gi (ca_action_id c) st params rules = Inr (Inr (tr_post_state r, tr_events r))"
    and "commit sha (ca_action_id c) params st (tr_post_state r, tr_events r) = Inr r"
    using assms by (auto simp: committed_def)
  from commitE [OF this(2)] attempt_events [OF attempt]
  show "tr_accepted r" and "tr_action r = \<lparr>ca_action_id = ca_action_id c, ca_parameters = params\<rparr>"
    and "tr_pre_state r = st" and "tr_rejection_reason r = None"
    and "canonical_state_hash sha st = Inr (tr_pre_state_hash r)"
    and "canonical_state_hash sha (tr_post_state r) = Inr (tr_post_state_hash r)"
    and "tr_events r = concat (map rule_events rules)"
    by auto
  show "\<exists>cl. classify gi (tr_post_state r) = Inr cl"
    by (rule attemptE [OF attempt]) blast
qed

section \<open>States of a session\<close>

definition session_state :: "interpreter \<Rightarrow> json dict \<Rightarrow> bool" where
  "session_state gi st \<longleftrightarrow> distinct (dict_keys st) \<and> \<not> isl (classify gi st)"

lemma not_isl: "\<not> isl m \<longleftrightarrow> (\<exists>x. m = Inr x)"
  by (cases m) auto

lemma classifyE:
  assumes "classify gi st = Inr cl"
  shows "snapshot_strict_state st = Inr st" and "in_schema gi st"
  using assms by (auto simp: classify_def snapshot_strict_state_def gp_validate_state_iff)

lemma snapshot_state_size: "snapshot_strict_state st = Inr st' \<Longrightarrow> int (length (json_text (JObj st))) \<le> state_bytes"
  using snapshot_fits by (auto simp: snapshot_strict_state_def simp del: json_text.simps)

lemma session_state_hash:
  assumes "session_state gi st" and "constructed gi"
  shows "\<exists>h. canonical_state_hash sha st = Inr h"
proof -
  obtain cl where cl: "classify gi st = Inr cl" using assms(1) by (auto simp: session_state_def not_isl)
  have "check_state_value (k, v) = Inr ()" if "(k, v) \<in> set st" for k v
  proof -
    have "map_of st k = Some v" using that assms(1) by (simp add: session_state_def dict_keys_def)
    then obtain schema where "validate_state_value schema v = Inr True"
      using in_schema_at [OF classifyE(2) [OF cl] _ assms(2)] by blast
    from in_domain_state_value [OF this] show ?thesis
      by (auto simp: check_state_value_def split: json.split)
  qed
  then have "foldR (\<lambda>_. check_state_value) () st = Inr ()" by (auto simp: foldR_unit)
  moreover have "int (length (json_text (JObj st))) \<le> max_gamepack_bytes"
    using snapshot_state_size [OF classifyE(1) [OF cl]] by (simp add: state_bytes_def max_gamepack_bytes_def del: json_text.simps)
  moreover obtain j where "snapshot_plain_json state_bytes (JObj st) = Inr j"
    using classifyE(1) [OF cl] by (auto simp: snapshot_strict_state_def)
  ultimately show ?thesis
    by (simp add: canonical_state_hash_def canonical_state_bytes_def canonical_bytes_owned_def del: json_text.simps)
qed

lemma rejected_ok:
  assumes "session_state gi st" and "constructed gi"
  shows "\<exists>r. rejected sha c st reason = Inr r"
  using session_state_hash [OF assms, of sha] by (auto simp: rejected_def)

lemma attempt_keys:
  assumes "attempt gi aid before params rules = Inr (Inr (st, events))"
  shows "map fst st = map fst before"
proof (rule attemptE [OF assms])
  fix mid
  assume mid: "foldR (run_rule gi params aid) (before, []) rules = Inr (mid, events)"
    and "move_cursor (map_of (gi_by_action gi) aid) mid = Inr st"
  then have "map fst st = map fst mid"
    by (auto simp: move_cursor_def update_known dest!: dict_mem_Some split: option.splits json.splits if_splits)
  with run_rules_follow [OF mid] show ?thesis by (simp add: follows_from_def)
qed

lemma attempt_session_state:
  assumes "attempt gi aid before params rules = Inr (Inr (st, events))" and "session_state gi before"
  shows "session_state gi st"
  using attempt_keys [OF assms(1)] assms(2)
  by (auto simp: session_state_def dict_keys_def not_isl intro: attemptE [OF assms(1)])

lemma committed_session_state:
  "committed sha gi st c params found rules r \<Longrightarrow> session_state gi st \<Longrightarrow> session_state gi (tr_post_state r)"
  unfolding committed_def using attempt_session_state by blast

lemma session_state_keys:
  assumes "session_state gi st"
  shows "schema_keys gi st"
proof -
  obtain cl where "classify gi st = Inr cl" using assms by (auto simp: session_state_def not_isl)
  from classifyE(2) [OF this] show ?thesis by (simp add: in_schema_def dict_keys_def)
qed

lemma sort_rules_total:
  assumes "\<And>rule. rule \<in> set rules \<Longrightarrow> \<exists>i. as_int (obj_get_or rule ''order'' (JInt 0)) = Some i"
  shows "\<exists>rs. sort_rules rules = Inr rs \<and> set rs = set rules"
proof -
  let ?key = "\<lambda>rule. ((the (as_int (obj_get_or rule ''order'' (JInt 0))), id_text (obj_get_or rule ''id'' (JStr []))), rule)"
  have "rule_order rule = Inr (the (as_int (obj_get_or rule ''order'' (JInt 0))))" if "rule \<in> set rules" for rule
    using assms [OF that] by (auto simp: rule_order_def)
  then have "mapR (\<lambda>rule. rbind (rule_order rule) (\<lambda>i. Inr ((i, id_text (obj_get_or rule ''id'' (JStr []))), rule))) rules =
      Inr (map ?key rules)"
    by (induction rules) auto
  then show ?thesis by (simp add: sort_rules_def image_image)
qed

lemma sort_rules_ok:
  "list_all rule_shape rules \<Longrightarrow> \<exists>sorted_rules. sort_rules rules = Inr sorted_rules \<and> set sorted_rules = set rules"
  by (rule sort_rules_total) (auto simp: list_all_iff rule_shape_def)

lemma owned_rules_ok:
  assumes "well_shaped gi"
  shows "\<exists>owned. owned_rules gi aid action = Inr owned \<and>
    (\<forall>rules. owned = Inr rules \<longrightarrow> list_all rule_shape rules)"
proof (cases "obj_get action ''rule_ids''")
  case (JArr ids)
  let ?rule = "\<lambda>i. map_of (gi_rules gi) (id_text i)"
  show ?thesis
  proof (cases "ids = [] \<or> set (map id_text ids) \<noteq> set (owned_ids gi aid) \<or>
      list_ex (\<lambda>i. case ?rule i of None \<Rightarrow> True | Some rule \<Rightarrow> obj_get rule ''action_id'' \<noteq> JStr aid) ids")
    case False
    then have "\<exists>rule. ?rule i = Some rule" if "i \<in> set ids" for i
      using that by (auto simp: list_ex_iff split: option.splits)
    then have "list_all rule_shape (map (\<lambda>i. the (?rule i)) ids)"
      using assms by (fastforce simp: list_all_iff well_shaped_def dest: map_of_SomeD)
    then have shaped: "list_all rule_shape sorted_rules"
      if "set sorted_rules = set (map (\<lambda>i. the (?rule i)) ids)" for sorted_rules
      using that by (simp add: list_all_iff)
    from sort_rules_ok [OF \<open>list_all rule_shape (map (\<lambda>i. the (?rule i)) ids)\<close>] obtain sorted_rules
      where "sort_rules (map (\<lambda>i. the (?rule i)) ids) = Inr sorted_rules" "list_all rule_shape sorted_rules"
      using shaped by blast
    with False show ?thesis by (simp add: owned_rules_def JArr)
  qed (auto simp: owned_rules_def JArr)
qed (simp_all add: owned_rules_def)

text \<open>Nothing escapes from an action on a state of the session.\<close>

lemma catch_ok:
  assumes "only_game_errors m" and "\<And>reason. \<exists>r. handler reason = Inr r"
    and "\<And>x. m = Inr x \<Longrightarrow> \<exists>r. k x = Inr r"
  shows "\<exists>r. catch m handler k = Inr r"
  using assms by (cases m) (auto simp: catch_def game_error_def split: exn.splits)

lemma try_rules_ok:
  assumes "well_shaped gi" and "constructed gi" and "session_state gi st" and "list_all rule_shape rules"
  shows "\<exists>r. try_rules sha gi st c params rules = Inr r"
  unfolding try_rules_def
proof (rule catch_ok [OF _ rejected_ok [OF assms(3,2)]])
  have "list_all (\<lambda>rule. \<exists>xs. obj_get_or rule ''effect_ids'' (JArr []) = JArr xs) rules"
    using assms(4) by (simp add: list_all_iff rule_shape_def is_arr_iff)
  then show "only_game_errors (attempt gi (ca_action_id c) st params rules)"
    by (intro attempt_errors assms session_state_keys)
  fix result assume result: "attempt gi (ca_action_id c) st params rules = Inr result"
  show "\<exists>r. (case result of Inl reason \<Rightarrow> rejected sha c st reason
      | Inr res \<Rightarrow> commit sha (ca_action_id c) params st res) = Inr r"
  proof (cases result)
    case (Inr res)
    then have "session_state gi (fst res)"
      using attempt_session_state [OF _ assms(3)] result by (cases res) auto
    from session_state_hash [OF this assms(2), of sha] session_state_hash [OF assms(3,2), of sha]
    show ?thesis by (auto simp: commit_def Inr)
  qed (use rejected_ok [OF assms(3,2)] in simp)
qed

lemma parameters_errors:
  assumes "constructed gi" and "map_of (gi_actions gi) (ca_action_id c) = Some action"
  shows "only_game_errors (validated_parameters action c)"
proof -
  obtain cs where "action_candidates (gi_limit gi) (ca_action_id c, action) = Inr cs"
    using assms enumerated_action [of "gi_limit gi" "gi_actions gi" "gi_candidates gi"] by (auto simp: constructed_def)
  then obtain ps axes where ps: "obj_get action ''parameters'' = JArr ps"
    and axes: "list_all2 (axis (gi_limit gi)) ps axes"
    by (rule action_candidatesE) (auto simp: candidate_axes_def)
  show ?thesis
  proof (cases "JStr ` set (dict_keys (ca_parameters c)) = JStr ` set (map fst axes)")
    case True
    then have keys: "set (dict_keys (ca_parameters c)) = set (map fst axes)"
      by (simp add: inj_image_eq_iff inj_def)
    have "only_game_errors (check_parameter c acc j)" if "j \<in> set ps" for acc j
    proof -
      obtain ax where ax: "ax \<in> set axes" "axis (gi_limit gi) j ax"
        using axes \<open>j \<in> set ps\<close> by (metis in_set_conv_nth list_all2_conv_all_nth)
      obtain p where p: "j = JObj p" "domain_values (gi_limit gi) p = Inr (snd ax)"
        using ax(2) by (auto simp: axis_def)
      have "fst ax \<in> fst ` set (ca_parameters c)" using keys ax(1) by (force simp: dict_keys_def)
      then obtain v where "map_of (ca_parameters c) (fst ax) = Some v"
        by (meson map_of_eq_None_iff option.exhaust)
      moreover obtain b where "validate_parameter_value p v = Inr b" using domain_decides [OF p(2)] by blast
      ultimately show ?thesis
        unfolding check_parameter_axis [OF ax(2)] by (simp add: dict_at_def p(1))
    qed
    then have "only_game_errors (foldR (check_parameter c) [] ps)" by (intro outcome_foldR) auto
    then show ?thesis by (simp add: validated_parameters_def ps)
  qed (use axes_keys [OF axes] in \<open>simp add: validated_parameters_def ps\<close>)
qed

lemma ending_shapeD: "ending_shape e \<Longrightarrow> runtime_id (id_text (obj_get e ''id''))"
  by (auto simp: ending_shape_def split: json.splits)

lemma classification_endings:
  assumes "classify gi st = Inr found"
  obtains endings where "active_ids gi st (gi_endings gi) = Inr endings" and "length endings \<le> 1"
    and "gc_ending_ids found = endings"
proof -
  have "classify_validated_state gi st = Inr found"
    using assms by (auto simp: classify_def snapshot_strict_state_def)
  then obtain endings where e: "active_ids gi st (gi_endings gi) = Inr endings" "length endings \<le> 1"
    unfolding classify_validated_state_def by (auto simp: not_less)
  with \<open>classify_validated_state gi st = Inr found\<close> have "gc_ending_ids found = endings"
    unfolding classify_validated_state_def by (auto split: if_splits)
  with e that show thesis by blast
qed

lemma terminal_ok:
  assumes "well_shaped gi" and "classify gi st = Inr found"
  shows "\<exists>b. terminal found = Inr b"
proof -
  have shape: "list_all ending_shape (gi_endings gi)" using assms(1) by (simp add: well_shaped_def)
  obtain endings where endings: "active_ids gi st (gi_endings gi) = Inr endings" "length endings \<le> 1"
    and found: "gc_ending_ids found = endings"
    by (rule classification_endings [OF assms(2)])
  have "set endings \<subseteq> id_text ` (\<lambda>g. obj_get g ''id'') ` set (gi_endings gi)"
    using outcome_InrD [OF active_errors [OF ending_ids_str [OF shape]] endings(1)] .
  then have "list_all runtime_id endings" using shape ending_shapeD by (auto simp: list_all_iff)
  moreover have "distinct endings" using endings(2) by (cases endings) auto
  moreover note endings(2) found
  ultimately show ?thesis by (auto simp: terminal_def)
qed

lemma transition_ok:
  assumes "well_shaped gi" and "constructed gi" and "session_state gi st"
  shows "\<exists>r. transition_validated_state sha gi st c = Inr r"
proof (cases "map_of (gi_actions gi) (ca_action_id c)")
  case (Some action)
  obtain found where found: "classify gi st = Inr found" using assms(3) by (auto simp: session_state_def not_isl)
  obtain ended where ended: "terminal found = Inr ended" using terminal_ok [OF assms(1) found] by blast
  obtain owned where owned: "owned_rules gi (ca_action_id c) action = Inr owned"
    "\<And>rules. owned = Inr rules \<Longrightarrow> list_all rule_shape rules"
    using owned_rules_ok [OF assms(1)] by meson
  note no = rejected_ok [OF assms(3,2), of sha c]
  have "\<exists>r. try_action sha gi st c action params = Inr r" for params
    using no try_rules_ok [OF assms owned(2)]
    by (cases owned) (simp_all add: try_action_def Let_def found ended owned(1))
  then show ?thesis
    by (simp add: transition_validated_state_def Some)
      (rule catch_ok [OF parameters_errors [OF assms(2) Some] no], blast)
qed (use rejected_ok [OF assms(3,2)] in \<open>simp add: transition_validated_state_def\<close>)

text \<open>Every action on a state of a session has a result, and leads to a state of the session.\<close>

lemma apply_action_ok:
  assumes "well_shaped gi" and "constructed gi" and "session_state gi st" and "snapshot_strict_candidate c = Inr c"
  shows "\<exists>st' r. apply_action sha gi st c = Inr (st', r) \<and> session_state gi st'"
proof -
  obtain r where r: "transition_validated_state sha gi st c = Inr r" using transition_ok [OF assms(1-3)] by blast
  obtain cl where cl: "classify gi st = Inr cl" using assms(3) by (auto simp: session_state_def not_isl)
  from classifyE [OF cl] obtain u where "gp_validate_state gi st = Inr u" by (auto simp: gp_validate_state_iff)
  with r assms(4) classifyE [OF cl] have strict: "transition_strict sha gi st c = Inr r"
    by (simp add: transition_strict_def)
  have "session_state gi (if tr_accepted r then tr_post_state r else st)"
    using transition_cases [OF strict] committed_session_state [OF _ assms(3)] assms(3) by (auto dest: rejectedE)
  then show ?thesis by (simp add: apply_action_def assms(4) strict)
qed

end
