(* ===== verification/Gatehouse.thy ===== *)
theory Gatehouse
  imports GamepackSession
begin

text \<open>
  A concrete gamepack, on which the theorems about gamepacks are applied: a gate to open, two items
  to take, a counter of turns; taking a third turn is a failure that only opening the gate recovers.
\<close>

definition text_ref :: "string \<Rightarrow> json" where
  "text_ref s = JObj [(''kind'', JStr ''literal''), (''value'', JStr s), (''value_type'', JStr ''string'')]"

definition number_ref :: "int \<Rightarrow> json" where
  "number_ref i = JObj [(''kind'', JStr ''literal''), (''value'', JInt i), (''value_type'', JStr ''integer'')]"

definition state_ref :: "string \<Rightarrow> json" where
  "state_ref s = JObj [(''kind'', JStr ''state''), (''state_id'', JStr s)]"

definition param_ref :: "string \<Rightarrow> string \<Rightarrow> json" where
  "param_ref a p = JObj [(''action_id'', JStr a), (''kind'', JStr ''parameter''), (''parameter_id'', JStr p)]"

definition strs :: "string list \<Rightarrow> json" where
  "strs ss = JArr (map JStr ss)"

definition gate_schema :: json where
  "gate_schema = JArr
    [JObj [(''id'', JStr ''bag''), (''type'', JStr ''string_array''), (''allowed_values'', strs [''key'', ''lamp'']),
           (''initial'', JArr []), (''max_items'', JInt 2), (''min_items'', JInt 0),
           (''mutability'', JStr ''mutable''), (''persistence'', JStr ''saved'')],
     JObj [(''id'', JStr ''gate''), (''type'', JStr ''string''), (''allowed_values'', strs [''closed'', ''open'']),
           (''initial'', JStr ''closed''), (''mutability'', JStr ''mutable''), (''persistence'', JStr ''saved'')],
     JObj [(''id'', JStr ''keeper''), (''type'', JStr ''string''), (''allowed_values'', strs [''ana'']),
           (''initial'', JStr ''ana''), (''mutability'', JStr ''constant''), (''persistence'', JStr ''saved'')],
     JObj [(''id'', JStr ''turns''), (''type'', JStr ''integer''), (''initial'', JInt 0),
           (''maximum'', JInt 9), (''minimum'', JInt 0), (''mutability'', JStr ''mutable''),
           (''persistence'', JStr ''transient'')]]"

definition gate_initial :: "json dict" where
  "gate_initial = [(''bag'', JArr []), (''gate'', JStr ''closed''), (''keeper'', JStr ''ana''), (''turns'', JInt 0)]"

definition gate_conditions :: json where
  "gate_conditions = JArr
    [JObj [(''id'', JStr ''can_open''), (''action_id'', JStr ''open_gate''), (''operator'', JStr ''not''),
           (''condition_id'', JStr ''gate_lifted'')],
     JObj [(''id'', JStr ''gate_lifted''), (''action_id'', JStr ''open_gate''), (''operator'', JStr ''compare''),
           (''comparison'', JStr ''equal''), (''left'', state_ref ''gate''), (''right'', text_ref ''open'')],
     JObj [(''id'', JStr ''gate_open''), (''action_id'', JNull), (''operator'', JStr ''compare''),
           (''comparison'', JStr ''equal''), (''left'', state_ref ''gate''), (''right'', text_ref ''open'')],
     JObj [(''id'', JStr ''tired''), (''action_id'', JNull), (''operator'', JStr ''compare''),
           (''comparison'', JStr ''greater_or_equal''), (''left'', state_ref ''turns''), (''right'', number_ref 2)]]"

definition gate_effect :: "string \<Rightarrow> string \<Rightarrow> string \<Rightarrow> (string \<times> json) list \<Rightarrow> json" where
  "gate_effect eid aid operation rest = JObj
     ([(''id'', JStr eid), (''action_id'', JStr aid), (''invalid_transition_policy'', JStr ''reject_transition''),
       (''operation'', JStr operation)] @ rest)"

definition gate_effects :: json where
  "gate_effects = JArr
    [gate_effect ''add_item'' ''take_item'' ''append_unique''
       [(''array_state_id'', JStr ''bag''), (''value'', param_ref ''take_item'' ''item'')],
     gate_effect ''count_turn'' ''take_item'' ''increment''
       [(''amount'', number_ref 1), (''state_id'', JStr ''turns'')],
     gate_effect ''lift_gate'' ''open_gate'' ''set'' [(''state_id'', JStr ''gate''), (''value'', text_ref ''open'')]]"

definition gate_rules :: json where
  "gate_rules = JArr
    [JObj [(''id'', JStr ''open_rule''), (''action_id'', JStr ''open_gate''), (''order'', JInt 0),
           (''condition_ids'', strs [''can_open'']), (''effect_ids'', strs [''lift_gate'']), (''event_ids'', strs [''gate_opened''])],
     JObj [(''id'', JStr ''take_rule''), (''action_id'', JStr ''take_item''), (''order'', JInt 1),
           (''condition_ids'', strs []), (''effect_ids'', strs [''add_item'', ''count_turn'']), (''event_ids'', strs [''item_taken''])]]"

text \<open>What both actions share, and the mechanics list again.\<close>

definition gate_action :: "string \<Rightarrow> string \<Rightarrow> json list \<Rightarrow> string \<Rightarrow> json" where
  "gate_action aid verb parameters rule = JObj
    [(''id'', JStr aid), (''core_verb_id'', JStr verb), (''parameters'', JArr parameters),
     (''rule_ids'', strs [rule]),
     (''source_bindings'', JArr [JObj [(''kind'', JStr ''system''), (''source_id'', JStr ''gate_system'')]]),
     (''presentation_hook_ids'', strs [''gate_view'']), (''required_feature_ids'', strs [''logic:finite_state''])]"

definition gate_actions :: json where
  "gate_actions = JArr
    [gate_action ''open_gate'' ''operate'' [] ''open_rule'',
     gate_action ''take_item'' ''take''
       [JObj [(''id'', JStr ''item''), (''type'', JStr ''string''), (''allowed_values'', strs [''key'', ''lamp''])]]
       ''take_rule'']"

definition gate_mechanic :: "string \<Rightarrow> string \<Rightarrow> string \<Rightarrow> string list list \<Rightarrow> json" where
  "gate_mechanic mid verb aid reached = JObj
    ([(''id'', JStr mid), (''core_verb_id'', JStr verb), (''action_id'', JStr aid)] @
     zip [''authoritative_state_ids'', ''condition_ids'', ''rule_ids'', ''effect_ids'', ''event_ids''] (map strs reached) @
     [(''presentation_hook_ids'', strs [''gate_view'']), (''asset_binding_ids'', strs [''gate_art'']),
      (''required_feature_ids'', strs [''logic:finite_state''])])"

definition gate_mechanics :: json where
  "gate_mechanics = JArr
    [gate_mechanic ''open_mechanic'' ''operate'' ''open_gate''
       [[''gate''], [''can_open'', ''gate_lifted''], [''open_rule''], [''lift_gate''], [''gate_opened'']],
     gate_mechanic ''take_mechanic'' ''take'' ''take_item''
       [[''bag'', ''turns''], [], [''take_rule''], [''add_item'', ''count_turn''], [''item_taken'']]]"

definition gate_verb :: "string \<Rightarrow> json" where
  "gate_verb v = JObj [(''id'', JStr v), (''description'', JStr v)]"

definition gate_logic :: "json dict" where
  "gate_logic =
    [(''source'', JObj (map (\<lambda>k. (k, JStr k)) [''format'', ''format_version'', ''id'', ''content_hash''])),
     (''title'', JStr ''The gatehouse''), (''core_verbs'', JArr (map gate_verb [''operate'', ''take''])),
     (''events'', JArr (map (\<lambda>e. JObj [(''id'', JStr e)]) [''gate_opened'', ''item_taken''])),
     (''presentation_hooks'', JArr [JObj [(''id'', JStr ''gate_view''), (''kind'', JStr ''board''),
                                          (''asset_binding_ids'', strs [''gate_art''])]]),
     (''mechanics'', gate_mechanics),
     (''state_schema'', gate_schema), (''initial_state'', JObj gate_initial), (''actions'', gate_actions),
     (''conditions'', gate_conditions), (''effects'', gate_effects), (''rules'', gate_rules),
     (''goals'', JArr [JObj [(''id'', JStr ''leave''), (''condition_ids'', strs [''gate_open'']),
                             (''success_ending_id'', JStr ''freedom'')]]),
     (''failures'', JArr [JObj [(''id'', JStr ''worn_out''), (''condition_ids'', strs [''tired'']),
                                (''recovery_action_ids'', strs [''open_gate''])]]),
     (''endings'', JArr [JObj [(''id'', JStr ''freedom''), (''kind'', JStr ''success''),
                               (''condition_ids'', strs [''gate_open'']), (''event_ids'', strs []),
                               (''presentation_hook_ids'', strs [''gate_view''])]]),
     (''narrative_cursor'', JNull), (''narrative_transitions'', JArr []),
     (''execution_semantics'', execution_semantics)]"

definition gatehouse_pack :: "json dict" where
  "gatehouse_pack =
     [(''format'', JStr ''world-forge.gamepack''), (''format_version'', JInt 1),
      (''content_hash'', JStr (replicate 64 (CHR ''a''))), (''game'', JObj [(''id'', JStr ''gatehouse'')]),
      (''logic'', JObj gate_logic), (''modules'', JObj [])]"

definition inr_of :: "'a res \<Rightarrow> 'a" where
  "inr_of m = (case m of Inr x \<Rightarrow> x)"

definition gatehouse :: interpreter where
  "gatehouse = inr_of (make_interpreter gatehouse_pack None)"

definition gate_act :: "string \<Rightarrow> json dict \<Rightarrow> candidate_action" where
  "gate_act aid ps = \<lparr>ca_action_id = aid, ca_parameters = ps\<rparr>"

definition take_key :: candidate_action where
  "take_key = gate_act ''take_item'' [(''item'', JStr ''key'')]"

definition no_sha :: "string \<Rightarrow> string" where
  "no_sha text = ''sum''"

definition tired_state :: "json dict" where
  "tired_state = [(''bag'', JArr []), (''gate'', JStr ''closed''), (''keeper'', JStr ''ana''), (''turns'', JInt 5)]"

definition hex_sha :: "string \<Rightarrow> string" where
  "hex_sha t = replicate 64 (CHR ''a'')"

lemma gatehouse_made: "make_interpreter gatehouse_pack None = Inr gatehouse"
proof -
  have "\<not> isl (make_interpreter gatehouse_pack None)" by code_simp
  then show ?thesis by (cases "make_interpreter gatehouse_pack None") (simp_all add: gatehouse_def inr_of_def)
qed

text \<open>The same interpreter without the size check, for evaluation.\<close>

lemma gatehouse_code [code]:
  "gatehouse =
     \<lparr>gi_gamepack = gatehouse_pack, gi_logic = gate_logic,
      gi_schema = inr_of (index_records gate_schema ''state_schema''),
      gi_actions = inr_of (index_records gate_actions ''actions''),
      gi_conditions = inr_of (index_records gate_conditions ''conditions''),
      gi_effects = inr_of (index_records gate_effects ''effects''),
      gi_rules = inr_of (index_records gate_rules ''rules''),
      gi_goals = inr_of (records (obj_get gate_logic ''goals'') ''goals''),
      gi_failures = inr_of (records (obj_get gate_logic ''failures'') ''failures''),
      gi_endings = inr_of (records (obj_get gate_logic ''endings'') ''endings''),
      gi_transitions = [], gi_by_action = [], gi_limit = 4096,
      gi_candidates = inr_of (enumerate_actions 4096 (inr_of (index_records gate_actions ''actions'')))\<rparr>"
proof -
  have [simp]: "obj_get gatehouse_pack ''logic'' = JObj gate_logic"
    "int_of (obj_get analysis_limits ''parameter_combinations_per_action'') = 4096"
    "obj_get gate_logic ''state_schema'' = gate_schema" "obj_get gate_logic ''actions'' = gate_actions"
    "obj_get gate_logic ''conditions'' = gate_conditions" "obj_get gate_logic ''effects'' = gate_effects"
    "obj_get gate_logic ''rules'' = gate_rules" "obj_get gate_logic ''narrative_transitions'' = JArr []"
    by (simp_all add: gatehouse_pack_def gate_logic_def obj_get_def analysis_limits_def int_of_def)
  have [simp]: "records (JArr []) ctx = Inr []" for ctx by (simp add: records_def)
  show ?thesis
    using gatehouse_made by (auto simp: make_interpreter_def owned_analysis_limits_def Let_def inr_of_def)
qed

lemma gatehouse_constructed: "constructed gatehouse"
  by (rule make_interpreter_constructed [OF gatehouse_made])

lemma gatehouse_shaped: "well_shaped gatehouse"
  by code_simp

lemma gatehouse_starts: "session_state gatehouse gate_initial"
  by code_simp

end
