(* ===== verification/GamepackRuns.thy ===== *)
theory GamepackRuns
  imports GamepackSession
begin

text \<open>
  What the properties of gamepack sessions rest on: sessions as runs of a transition system, the
  rules of an action in their order, the recovery of failures, commits as candidates, and the
  states that a session reaches.
\<close>

section \<open>Sessions as runs\<close>

definition session_step ::
  "(string \<Rightarrow> string) \<Rightarrow> interpreter \<Rightarrow> json dict \<Rightarrow> candidate_action \<Rightarrow> json dict res" where
  "session_step sha gi st c = rbind (apply_action sha gi st c) (\<lambda>(st', _). Inr st')"

definition playing :: "interpreter \<Rightarrow> json dict \<Rightarrow> bool" where
  "playing gi st \<longleftrightarrow> constructed gi \<and> well_shaped gi \<and> session_state gi st"

definition bounded_candidate :: "candidate_action \<Rightarrow> bool" where
  "bounded_candidate c \<longleftrightarrow> \<not> isl (snapshot_strict_candidate c)"

lemma bounded_candidateD: "bounded_candidate c \<Longrightarrow> snapshot_strict_candidate c = Inr c"
  by (auto simp: bounded_candidate_def not_isl snapshot_strict_candidate_def)

interpretation session: transition_system "session_step sha gi" "playing gi" bounded_candidate
  for sha gi
proof
  fix st c assume "playing gi st" and "bounded_candidate c"
  then show "outcome no_exn (playing gi) (session_step sha gi st c)"
    using apply_action_ok [of gi st c sha] bounded_candidateD [of c]
    by (auto simp: playing_def session_step_def)
qed

section \<open>Rule order\<close>

definition rule_key :: "json dict \<Rightarrow> int \<times> string" where
  "rule_key rule = (the (as_int (obj_get_or rule ''order'' (JInt 0))), id_text (obj_get_or rule ''id'' (JStr [])))"

lemma sort_rules_sorted: "sort_rules rules = Inr rs \<Longrightarrow> sorted (map rule_key rs) \<and> mset rs = mset rules"
proof -
  assume "sort_rules rules = Inr rs"
  then obtain keyed where keyed: "mapR (\<lambda>rule. rbind (rule_order rule) (\<lambda>i.
      Inr ((i, id_text (obj_get_or rule ''id'' (JStr []))), rule))) rules = Inr keyed"
    and rs: "rs = map snd (sort_key fst keyed)"
    by (auto simp: sort_rules_def)
  have "keyed = map (\<lambda>rule. (rule_key rule, rule)) rules"
    using keyed by (induction rules arbitrary: keyed)
      (auto simp: rule_order_def rule_key_def split: option.splits)
  then have "map rule_key rs = map fst (sort_key fst keyed)" and "mset rs = mset rules"
    by (auto simp: rs multiset.map_comp comp_def intro!: map_cong)
  then show ?thesis by simp
qed

lemma owned_rulesE:
  assumes "owned_rules gi aid action = Inr (Inr rules)"
  obtains ids where "obj_get action ''rule_ids'' = JArr ids" and "ids \<noteq> []"
    and "set (map id_text ids) = set (owned_ids gi aid)"
    and "\<And>i. i \<in> set ids \<Longrightarrow> \<exists>rule. map_of (gi_rules gi) (id_text i) = Some rule \<and> obj_get rule ''action_id'' = JStr aid"
    and "sort_rules (map (\<lambda>i. the (map_of (gi_rules gi) (id_text i))) ids) = Inr rules"
proof -
  obtain ids where ids: "obj_get action ''rule_ids'' = JArr ids" and ne: "ids \<noteq> []"
    and owned: "set (map id_text ids) = set (owned_ids gi aid)"
    and known: "\<not> list_ex (\<lambda>i. case map_of (gi_rules gi) (id_text i) of None \<Rightarrow> True
                 | Some rule \<Rightarrow> obj_get rule ''action_id'' \<noteq> JStr aid) ids"
    and "sort_rules (map (\<lambda>i. the (map_of (gi_rules gi) (id_text i))) ids) = Inr rules"
    using assms by (auto simp: owned_rules_def split: json.splits if_splits)
  moreover from known have "\<exists>rule. map_of (gi_rules gi) (id_text i) = Some rule \<and> obj_get rule ''action_id'' = JStr aid"
    if "i \<in> set ids" for i
    using that by (auto simp: list_ex_iff split: option.splits)
  ultimately show thesis by (intro that [of ids]) auto
qed

lemma owned_rules_exact:
  assumes "owned_rules gi aid action = Inr (Inr rules)"
  shows "sorted (map rule_key rules)"
    and "rule \<in> set rules \<longleftrightarrow> (\<exists>i. map_of (gi_rules gi) i = Some rule \<and> obj_get rule ''action_id'' = JStr aid)"
proof -
  obtain ids where owned: "set (map id_text ids) = set (owned_ids gi aid)"
    and known: "\<And>i. i \<in> set ids \<Longrightarrow> \<exists>rule. map_of (gi_rules gi) (id_text i) = Some rule \<and> obj_get rule ''action_id'' = JStr aid"
    and sort: "sort_rules (map (\<lambda>i. the (map_of (gi_rules gi) (id_text i))) ids) = Inr rules"
    using owned_rulesE [OF assms] by metis
  show "sorted (map rule_key rules)" using sort_rules_sorted [OF sort] by blast
  have rules: "set rules = (\<lambda>i. the (map_of (gi_rules gi) (id_text i))) ` set ids"
    using arg_cong [OF conjunct2 [OF sort_rules_sorted [OF sort]], of set_mset] by simp
  show "rule \<in> set rules \<longleftrightarrow> (\<exists>i. map_of (gi_rules gi) i = Some rule \<and> obj_get rule ''action_id'' = JStr aid)"
  proof
    assume "rule \<in> set rules"
    then obtain j where "j \<in> set ids" "rule = the (map_of (gi_rules gi) (id_text j))" using rules by auto
    with known [OF this(1)] show "\<exists>i. map_of (gi_rules gi) i = Some rule \<and> obj_get rule ''action_id'' = JStr aid"
      by auto
  next
    assume "\<exists>i. map_of (gi_rules gi) i = Some rule \<and> obj_get rule ''action_id'' = JStr aid"
    then obtain i where i: "map_of (gi_rules gi) i = Some rule" "obj_get rule ''action_id'' = JStr aid" by blast
    then have "i \<in> set (owned_ids gi aid)" by (force simp: owned_ids_def dest: map_of_SomeD)
    then have "i \<in> id_text ` set ids" using owned by simp
    then obtain j where "j \<in> set ids" "id_text j = i" by blast
    with rules i(1) show "rule \<in> set rules" by force
  qed
qed

section \<open>Active failures\<close>

lemma active_ids_fold:
  "foldR (add_active gi st) acc items = Inr ids \<Longrightarrow>
   \<exists>new. ids = acc @ new \<and>
     (\<forall>i. i \<in> set new \<longleftrightarrow> (\<exists>item \<in> set items. eval_conditions gi (obj_get item ''condition_ids'') st [] None = Inr True \<and>
        id_text (obj_get item ''id'') = i))"
proof (induction items arbitrary: acc)
  case (Cons item items)
  then obtain acc1 where 1: "add_active gi st acc item = Inr acc1" and 2: "foldR (add_active gi st) acc1 items = Inr ids"
    by auto
  from 1 obtain b where b: "eval_conditions gi (obj_get item ''condition_ids'') st [] None = Inr b"
    and acc1: "acc1 = (if b then acc @ [id_text (obj_get item ''id'')] else acc)"
    by (auto simp: add_active_def obj_get_def split: if_splits)
  from Cons.IH [OF 2] obtain new where new: "ids = acc1 @ new"
    "\<forall>i. i \<in> set new \<longleftrightarrow> (\<exists>item \<in> set items. eval_conditions gi (obj_get item ''condition_ids'') st [] None = Inr True \<and>
        id_text (obj_get item ''id'') = i)" by blast
  show ?case
    by (intro exI [of _ "(if b then [id_text (obj_get item ''id'')] else []) @ new"]) (use new acc1 b in auto)
qed simp

lemma recover_fold:
  "foldR (recover failures) r ids = Inr r' \<Longrightarrow>
   (\<forall>aid. aid \<in> set (recovery_ids r') \<longleftrightarrow>
      (if ids = [] then aid \<in> set (recovery_ids r)
       else (r = None \<or> aid \<in> set (recovery_ids r)) \<and>
         (\<forall>i \<in> set ids. \<exists>f xs. next_record i failures = Inr f \<and> obj_get f ''recovery_action_ids'' = JArr xs \<and>
            aid \<in> id_text ` set xs)))"
proof (induction ids arbitrary: r)
  case (Cons i ids)
  from Cons.prems obtain r1 where 1: "recover failures r i = Inr r1" and 2: "foldR (recover failures) r1 ids = Inr r'" by auto
  from 1 obtain f xs where f: "next_record i failures = Inr f" "obj_get f ''recovery_action_ids'' = JArr xs"
    and r1: "r1 = Some (case r of None \<Rightarrow> map id_text xs | Some ys \<Rightarrow> filter (\<lambda>i. i \<in> set (map id_text xs)) ys)"
    by (auto simp: recover_def Let_def split: json.splits)
  have "aid \<in> set (recovery_ids r1) \<longleftrightarrow> (r = None \<or> aid \<in> set (recovery_ids r)) \<and> aid \<in> id_text ` set xs" for aid
    by (auto simp: r1 recovery_ids_def split: option.splits)
  with Cons.IH [OF 2] f r1 show ?case by auto
qed simp

section \<open>Commits name candidates\<close>

lemma committed_candidate:
  assumes "constructed gi" and "transition_strict sha gi st c = Inr r" and "tr_accepted r"
  shows "tr_action r \<in> set (gi_candidates gi)"
proof -
  obtain params found rules where c: "committed sha gi st c params found rules r"
    using transition_cases [OF assms(2)] rejectedE assms(3) by blast
  then obtain action where action: "map_of (gi_actions gi) (ca_action_id c) = Some action"
      "validated_parameters action c = Inr params" by (auto simp: committed_def)
  have "enumerate_actions (gi_limit gi) (gi_actions gi) = Inr (gi_candidates gi)" "distinct (dict_keys (gi_actions gi))"
    using assms(1) by (simp_all add: constructed_def)
  from candidates_are_validated [OF this action] show ?thesis by (simp add: committedD(2) [OF c])
qed

lemma try_rules_again:
  assumes "try_rules sha gi st c params rules = Inr r" and "tr_accepted r" and "ca_action_id c' = ca_action_id c"
  shows "try_rules sha gi st c' params rules = Inr r"
  using try_rules_cases [OF assms(1)] rejectedE assms(2,3) by (auto simp: try_rules_def catch_def)

lemma try_action_again:
  assumes "try_action sha gi st c action params = Inr r" and "tr_accepted r" and "ca_action_id c' = ca_action_id c"
  shows "try_action sha gi st c' action params = Inr r"
proof -
  obtain found ended where found: "classify gi st = Inr found" and ended: "terminal found = Inr ended"
    using assms(1) by (auto simp: try_action_def Let_def)
  have no: "rejected sha c st reason \<noteq> Inr r" for reason using rejectedE assms(2) by blast
  from assms(1) no obtain owned where "owned_rules gi (ca_action_id c) action = Inr owned"
    by (auto simp: try_action_def Let_def found ended split: if_splits)
  with assms no show ?thesis
    by (cases owned) (auto simp: try_action_def Let_def found ended split: if_splits intro: try_rules_again)
qed

lemma committed_again:
  assumes "constructed gi" and "clean_parameters (gi_actions gi)"
    and "transition_strict sha gi st c = Inr r" and "tr_accepted r"
  shows "transition_validated_state sha gi st (tr_action r) = Inr r"
proof -
  have step: "transition_validated_state sha gi st c = Inr r"
    using assms(3) by (auto simp: transition_strict_def snapshot_strict_candidate_def snapshot_strict_state_def)
  obtain params found rules where c: "committed sha gi st c params found rules r"
    using transition_cases [OF assms(3)] rejectedE assms(4) by blast
  then obtain action where action: "map_of (gi_actions gi) (ca_action_id c) = Some action"
      "validated_parameters action c = Inr params" by (auto simp: committed_def)
  from step action have "try_action sha gi st c action params = Inr r"
    by (simp add: transition_validated_state_def catch_def)
  from try_action_again [OF this assms(4)] have "try_action sha gi st (tr_action r) action params = Inr r"
    by (simp add: committedD(2) [OF c])
  moreover have "enumerate_actions (gi_limit gi) (gi_actions gi) = Inr (gi_candidates gi)" "distinct (dict_keys (gi_actions gi))"
    using assms(1) by (simp_all add: constructed_def)
  from enumeration_exact [OF this assms(2), of "tr_action r"] committed_candidate [OF assms(1,3,4)] action
  have "validated_parameters action (tr_action r) = Inr params"
    by (simp add: committedD(2) [OF c])
  ultimately show ?thesis
    using action by (simp add: transition_validated_state_def catch_def committedD(2) [OF c])
qed

section \<open>Reached states\<close>

definition constants_ok :: "interpreter \<Rightarrow> json dict \<Rightarrow> bool" where
  "constants_ok gi st \<longleftrightarrow> \<not> isl (foldR (check_constant st) () (gi_schema gi))"

text \<open>The states of a session: its start, and what actions and restorations lead to.\<close>

inductive session_reaches :: "(string \<Rightarrow> string) \<Rightarrow> interpreter \<Rightarrow> json dict \<Rightarrow> bool" for sha gi where
  started: "start_session gi = Inr st \<Longrightarrow> session_reaches sha gi st"
| acted: "session_reaches sha gi st \<Longrightarrow> apply_action sha gi st c = Inr (st', r) \<Longrightarrow> session_reaches sha gi st'"
| restored: "session_reaches sha gi st \<Longrightarrow> distinct (dict_keys doc) \<Longrightarrow> restore_state gi doc = Inr st' \<Longrightarrow>
    session_reaches sha gi st'"

lemma check_constant_iff:
  "check_constant st u (sid, schema) = Inr () \<longleftrightarrow>
     (obj_get schema ''mutability'' = JStr ''constant'' \<longrightarrow>
        (\<exists>v. map_of st sid = Some v \<and> py_eq v (obj_get schema ''initial'')))"
  by (cases "map_of st sid") (auto simp: check_constant_def dict_at_def)

lemma constants_ok_iff:
  "constants_ok gi st \<longleftrightarrow> (\<forall>(sid, schema) \<in> set (gi_schema gi). check_constant st () (sid, schema) = Inr ())"
  by (auto simp: constants_ok_def not_isl foldR_unit)

lemma follows_constants_ok:
  assumes "follows_from gi st st'" and "constants_ok gi st" and "distinct (dict_keys (gi_schema gi))"
  shows "constants_ok gi st'"
proof -
  have "map_of st' sid = map_of st sid"
    if "(sid, schema) \<in> set (gi_schema gi)" "obj_get schema ''mutability'' = JStr ''constant''" for sid schema
    using that assms(1,3) by (simp add: follows_from_def constant_state_def dict_keys_def)
  with assms(2) show ?thesis
    unfolding constants_ok_iff check_constant_iff by fastforce
qed

lemma step_follows:
  assumes "apply_action sha gi st c = Inr (st', r)" and "mutable_cursors gi"
  shows "follows_from gi st st'"
proof -
  obtain r where r: "transition_strict sha gi st c = Inr r" and st': "st' = (if tr_accepted r then tr_post_state r else st)"
    using assms(1) by (auto simp: apply_action_def snapshot_strict_candidate_def)
  from transition_cases [OF r] show ?thesis
    using attempt_follows [OF _ assms(2)] by (auto simp: st' committed_def dest: rejectedE)
qed

lemma step_session_state:
  assumes "apply_action sha gi st c = Inr (st', r)" and "session_state gi st"
  shows "session_state gi st'"
proof -
  obtain r where r: "transition_strict sha gi st c = Inr r" and st': "st' = (if tr_accepted r then tr_post_state r else st)"
    using assms(1) by (auto simp: apply_action_def snapshot_strict_candidate_def)
  from transition_cases [OF r] show ?thesis
    using committed_session_state [OF _ assms(2)] assms(2) by (auto simp: st' dest: rejectedE)
qed

lemma restore_iff:
  assumes "distinct (dict_keys doc)"
  shows "restore_state gi doc = Inr st' \<longleftrightarrow> st' = doc \<and> session_state gi doc \<and> constants_ok gi doc"
proof -
  have "snapshot_strict_state doc = Inr doc" if "classify gi doc = Inr cl" for cl
    by (rule classifyE [OF that])
  then show ?thesis
    using assms by (auto simp: restore_state_def session_state_def constants_ok_def not_isl snapshot_strict_state_def)
qed

lemma session_reached_ok:
  assumes "session_reaches sha gi st" and "constructed gi" and "mutable_cursors gi"
    and "\<And>init. start_session gi = Inr init \<Longrightarrow> session_state gi init \<and> constants_ok gi init"
  shows "session_state gi st \<and> constants_ok gi st"
  using assms(1)
proof induction
  case (acted st c st' r)
  then show ?case
    using step_session_state follows_constants_ok [OF step_follows [OF _ assms(3)]] assms(2)
    by (auto simp: constructed_def)
next
  case (restored st doc st')
  with restore_iff [OF restored(2), of gi st'] show ?case by simp
qed (use assms(4) in blast)

section \<open>Digests\<close>

lemma hash_digits: "canonical_state_hash sha st = Inr h \<Longrightarrow> \<exists>t. h = sha t"
  by (auto simp: canonical_state_hash_def)

end
