(* ===== verification/SnapshotExact.thy ===== *)
theory SnapshotExact
  imports JsonSnapshot
begin

text \<open>
  Which values a snapshot accepts. The walk of \<open>_snapshot_json_graph\<close> keeps two counters and stops
  early in many places; what it decides in the end is simple: the shape of the value, the number of
  its nodes and the length of its canonical text.
\<close>

fun nodes :: "json \<Rightarrow> int" where
  "nodes (JArr xs) = 1 + sum_list (map nodes xs)"
| "nodes (JObj kvs) = 1 + sum_list (map (\<lambda>(_, v). nodes v) kvs)"
| "nodes _ = 1"

text \<open>No float, no unsafe integer, no empty key, nothing below level 64; the value is at level \<open>d\<close>.\<close>

fun plain_shape :: "int \<Rightarrow> json \<Rightarrow> bool" where
  "plain_shape d (JArr xs) \<longleftrightarrow> d \<le> max_json_depth \<and> list_all (plain_shape (d + 1)) xs"
| "plain_shape d (JObj kvs) \<longleftrightarrow> d \<le> max_json_depth \<and> list_all (\<lambda>(k, v). k \<noteq> [] \<and> plain_shape (d + 1) v) kvs"
| "plain_shape d (JInt i) \<longleftrightarrow> d \<le> max_json_depth \<and> safe_integer i"
| "plain_shape d (JFloat t) \<longleftrightarrow> False"
| "plain_shape d _ \<longleftrightarrow> d \<le> max_json_depth"

lemma nodes_positive: "1 \<le> nodes v"
proof (induction v)
  case (JArr xs)
  then have "0 \<le> sum_list (map nodes xs)" by (intro sum_list_nonneg) fastforce
  then show ?case by simp
next
  case (JObj kvs)
  then have "0 \<le> sum_list (map (\<lambda>(_, v). nodes v) kvs)" by (intro sum_list_nonneg) (fastforce simp: snds.simps)
  then show ?case by simp
qed simp_all

lemma length_nodes: "int (length xs) \<le> sum_list (map (nodes \<circ> f) xs)"
  using nodes_positive by (induction xs) (simp_all add: add_mono)

lemma sum_nodes_nonneg: "0 \<le> sum_list (map nodes vs)"
proof (induction vs)
  case (Cons v vs)
  then show ?case using nodes_positive [of v] by simp
qed simp

lemma object_nodes: "nodes (JObj kvs) = 1 + sum_list (map nodes (map snd kvs))"
  by (simp add: comp_def case_prod_unfold)

lemma object_shape:
  "plain_shape d (JObj kvs) \<longleftrightarrow>
     d \<le> max_json_depth \<and> [] \<notin> set (map fst kvs) \<and> (\<forall>v \<in> set (map snd kvs). plain_shape (d + 1) v)"
  by (force simp: list_all_iff)

lemma codepoints_size: "codepoints s + 2 \<le> text_size s"
proof -
  have "int (length (filter P s)) \<le> sum_list (map char_size s)" for P
    by (induction s) (auto simp: char_size_def Let_def)
  then show ?thesis by (simp add: codepoints_def text_size_def)
qed

lemma codepoints_nonneg: "0 \<le> codepoints s"
  by (simp add: codepoints_def)

lemma add_string_fits:
  assumes "u + text_size s \<le> m"
  shows "add_string m u s = Inr (u + text_size s)"
  using assms codepoints_size [of s] codepoints_nonneg [of s]
  by (simp add: add_string_def Let_def json_string_size_def add_bytes_def)

lemma text_size_nonneg: "0 \<le> text_size s"
  using codepoints_size [of s] codepoints_nonneg [of s] by linarith

lemma add_strings_fit:
  "u + sum_list (map text_size ss) \<le> m \<Longrightarrow> foldR (add_string m) u ss = Inr (u + sum_list (map text_size ss))"
proof (induction ss arbitrary: u)
  case (Cons s ss)
  have "0 \<le> sum_list (map text_size ss)" by (intro sum_list_nonneg) (use text_size_nonneg in auto)
  with Cons show ?case by (simp add: add_string_fits add.assoc)
qed simp

lemma batch_fits: "sum_list (map text_size ss) \<le> m - u \<Longrightarrow> \<not> impossible_batch m u ss"
  using sum_list_mono [of ss "\<lambda>s. codepoints s + 2" text_size] codepoints_size
  by (force simp: impossible_batch_def)

lemma strings_in_size: "sum_list (map text_size (strings_in xs)) \<le> sum_list (map written xs)"
proof (induction xs)
  case (Cons x xs)
  have "0 \<le> written x" by simp
  with Cons show ?case
    by (cases x) (simp_all add: strings_in_def quoted_size del: json_text.simps, simp add: quoted_size)
qed (simp add: strings_in_def)

lemma walk_fits:
  assumes "\<And>v n u. v \<in> set vs \<Longrightarrow> n + nodes v \<le> max_json_nodes \<Longrightarrow> u + written v \<le> m \<Longrightarrow>
      step (n, u) v = Inr (n + nodes v, u + written v)"
    and "n + sum_list (map nodes vs) \<le> max_json_nodes" and "u + sum_list (map written vs) \<le> m"
  shows "foldR step (n, u) vs = Inr (n + sum_list (map nodes vs), u + sum_list (map written vs))"
  using assms
proof (induction vs arbitrary: n u)
  case (Cons v vs)
  note sum_nodes_nonneg [of vs]
  moreover have "0 \<le> sum_list (map written vs)" by (intro sum_list_nonneg) auto
  ultimately have "step (n, u) v = Inr (n + nodes v, u + written v)"
    using Cons.prems by (intro Cons.prems(1)) auto
  with Cons show ?case by (simp add: add.assoc del: json_text.simps)
qed simp

lemma snapshot_complete:
  "plain_shape d v \<Longrightarrow> n + nodes v \<le> max_json_nodes \<Longrightarrow> u + written v \<le> m \<Longrightarrow>
     snapshot_json_graph False m d (n, u) v = Inr (n + nodes v, u + written v)"
proof (induction v arbitrary: d n u)
  case (JArr xs)
  have len: "int (length xs) \<le> sum_list (map nodes xs)" using length_nodes [of xs "\<lambda>x. x"] by (simp add: comp_def)
  have u: "u + brackets (length xs) + sum_list (map written xs) \<le> m"
    using JArr.prems(3) by (simp add: written_array add.assoc del: json_text.simps)
  have nonneg: "0 \<le> sum_list (map written xs)" by (intro sum_list_nonneg) auto
  have "foldR (snapshot_json_graph False m (d + 1)) (n + 1, u + brackets (length xs)) xs =
      Inr (n + 1 + sum_list (map nodes xs), u + brackets (length xs) + sum_list (map written xs))"
    by (rule walk_fits) (use JArr u in \<open>auto simp: list_all_iff simp del: json_text.simps\<close>)
  moreover have "\<not> impossible_batch m (u + brackets (length xs)) (strings_in xs)"
    by (rule batch_fits) (use strings_in_size [of xs] u in linarith)
  ultimately show ?case
    using JArr.prems(1,2) len u nonneg
    by (simp add: snapshot_json_graph.simps [of _ _ _ _ _ "JArr xs"] Let_def too_many_nodes_def add_bytes_def
        reject_impossible_string_batch_def written_array del: json_text.simps)
next
  case (JObj kvs)
  let ?vs = "map snd kvs" and ?keys = "sum_list (map text_size (map fst kvs))"
  let ?b = "brackets (length kvs) + int (length kvs)"
  note nodes = object_nodes [of kvs]
  have len: "int (length kvs) \<le> sum_list (map nodes ?vs)" using length_nodes [of kvs snd] by simp
  have u: "u + ?b + ?keys + sum_list (map written ?vs) \<le> m"
    using JObj.prems(3) by (simp add: written_object add.assoc del: json_text.simps)
  have nonneg: "0 \<le> sum_list (map written ?vs)" "0 \<le> ?keys"
    by (intro sum_list_nonneg; auto simp: text_size_nonneg)+
  have "foldR (snapshot_json_graph False m (d + 1)) (n + 1, u + ?b + ?keys) ?vs =
      Inr (n + 1 + sum_list (map nodes ?vs), u + ?b + ?keys + sum_list (map written ?vs))"
    by (rule walk_fits) (use JObj u nodes in \<open>auto simp: list_all_iff snds.simps simp del: json_text.simps nodes.simps\<close>)
  moreover have "\<not> impossible_batch m (u + ?b) (map fst kvs @ strings_in ?vs)"
    by (rule batch_fits) (use strings_in_size [of ?vs] u in simp)
  moreover have "foldR (add_string m) (u + ?b) (map fst kvs) = Inr (u + ?b + ?keys)"
    by (rule add_strings_fit) (use u nonneg in linarith)
  moreover have "\<not> list_ex (\<lambda>(k, _). k = []) kvs"
    using JObj.prems(1) by (auto simp: list_ex_iff list_all_iff)
  ultimately show ?case
    using JObj.prems(1,2) len u nonneg
    by (simp add: snapshot_json_graph.simps [of _ _ _ _ _ "JObj kvs"] Let_def too_many_nodes_def add_bytes_def nodes
        reject_impossible_string_batch_def written_object add.assoc del: json_text.simps nodes.simps)
qed (auto simp: snapshot_json_graph.simps Let_def too_many_nodes_def add_bytes_def add_string_fits quoted_size dec_def)

lemma foldR_each:
  assumes "foldR f s xs = Inr s'" and "x \<in> set xs"
  shows "\<exists>s1 s2. f s1 x = Inr s2"
  using assms by (induction xs arbitrary: s) auto

lemma foldR_sums:
  assumes "\<And>v s s'. v \<in> set vs \<Longrightarrow> step s v = Inr s' \<Longrightarrow> fst s' = fst s + nodes v \<and> fst s' \<le> max_json_nodes"
    and "foldR step s vs = Inr s'" and "fst s \<le> max_json_nodes"
  shows "fst s' = fst s + sum_list (map nodes vs) \<and> fst s' \<le> max_json_nodes"
  using assms
proof (induction vs arbitrary: s)
  case (Cons v vs)
  from Cons.prems(2) obtain mid where mid: "step s v = Inr mid" and rest: "foldR step mid vs = Inr s'" by auto
  have "fst mid = fst s + nodes v" "fst mid \<le> max_json_nodes"
    using Cons.prems(1) [OF _ mid] by auto
  moreover have "fst s' = fst mid + sum_list (map nodes vs) \<and> fst s' \<le> max_json_nodes"
  proof (rule Cons.IH [OF _ rest])
    show "fst s2 = fst s1 + nodes w \<and> fst s2 \<le> max_json_nodes" if "w \<in> set vs" "step s1 w = Inr s2" for w s1 s2
      using that by (intro Cons.prems(1)) simp_all
  qed (use calculation in simp)
  ultimately show ?case by simp
qed simp

lemma snapshot_sound:
  "snapshot_json_graph False m d s v = Inr s' \<Longrightarrow>
     plain_shape d v \<and> fst s' = fst s + nodes v \<and> fst s' \<le> max_json_nodes"
proof (induction v arbitrary: d s s')
  case (JArr xs)
  obtain n u where s: "s = (n, u)" by (cases s)
  have d: "d \<le> max_json_depth" and n: "n + 1 \<le> max_json_nodes"
    and walk: "foldR (snapshot_json_graph False m (d + 1)) (n + 1, u + brackets (length xs)) xs = Inr s'"
    using JArr.prems by (auto simp: s Let_def too_many_nodes_def snapshot_json_graph.simps [of _ _ _ _ _ "JArr xs"])
  have "fst s' = n + 1 + sum_list (map nodes xs) \<and> fst s' \<le> max_json_nodes"
    using foldR_sums [OF _ walk, unfolded fst_conv] JArr.IH n by blast
  moreover have "plain_shape (d + 1) x" if "x \<in> set xs" for x
    using foldR_each [OF walk that] JArr.IH [OF that] by blast
  ultimately show ?case using d by (auto simp: s list_all_iff)
next
  case (JObj kvs)
  obtain n u where s: "s = (n, u)" by (cases s)
  obtain w where d: "d \<le> max_json_depth" and n: "n + 1 \<le> max_json_nodes" and keys: "\<not> list_ex (\<lambda>(k, _). k = []) kvs"
    and walk: "foldR (snapshot_json_graph False m (d + 1)) (n + 1, w) (map snd kvs) = Inr s'"
    using JObj.prems by (auto simp: s Let_def too_many_nodes_def snapshot_json_graph.simps [of _ _ _ _ _ "JObj kvs"])
  have IH: "plain_shape (d + 1) v \<and> fst s2 = fst s1 + nodes v \<and> fst s2 \<le> max_json_nodes"
    if mem: "v \<in> set (map snd kvs)" and step: "snapshot_json_graph False m (d + 1) s1 v = Inr s2" for v s1 s2
  proof -
    obtain k where "(k, v) \<in> set kvs" using mem by auto
    then show ?thesis using JObj.IH [OF _ _ step, of "(k, v)"] by (simp add: snds.simps)
  qed
  have "fst s' = n + 1 + sum_list (map nodes (map snd kvs)) \<and> fst s' \<le> max_json_nodes"
    using foldR_sums [OF _ walk, unfolded fst_conv] IH n by blast
  moreover have "plain_shape (d + 1) v" if "v \<in> set (map snd kvs)" for v
    using foldR_each [OF walk that] IH [OF that] by blast
  moreover have "[] \<notin> set (map fst kvs)" using keys by (auto simp: list_ex_iff)
  ultimately show ?case unfolding object_shape object_nodes using d by (simp add: s)
qed (cases s; auto simp: snapshot_json_graph.simps Let_def too_many_nodes_def split: if_splits)+

text \<open>The walk succeeds if and only if the value has a plain shape and fits both limits.\<close>

lemma snapshot_exact:
  "snapshot_plain_json maximum v = Inr w \<longleftrightarrow>
     w = v \<and> plain_shape 1 v \<and> nodes v \<le> max_json_nodes \<and> written v \<le> maximum"
proof
  assume ok: "snapshot_plain_json maximum v = Inr w"
  then obtain s where "snapshot_json_graph False maximum 1 (0, 0) v = Inr s"
    by (auto simp: snapshot_plain_json_def)
  from snapshot_sound [OF this] snapshot_fits [OF ok]
  show "w = v \<and> plain_shape 1 v \<and> nodes v \<le> max_json_nodes \<and> written v \<le> maximum" by simp
next
  assume "w = v \<and> plain_shape 1 v \<and> nodes v \<le> max_json_nodes \<and> written v \<le> maximum"
  then show "snapshot_plain_json maximum v = Inr w"
    using snapshot_complete [of 1 v 0 0 maximum] by (simp add: snapshot_plain_json_def del: json_text.simps)
qed

end
