(* ===== verification/GamepackTheorems.thy ===== *)
theory GamepackTheorems
  imports Gatehouse GamepackRuns SnapshotExact
begin

text \<open>
  The properties of the gamepack runtime: sessions, what a refusal and a commit mean, the
  enumeration of actions, the states of a session and their restoration, and the documents and
  digests of its transitions.
\<close>

section \<open>Properties\<close>

text \<open>C15. A session never gets stuck: from any state that is in its domains and can be classified,
  any list of actions within the size limit runs to the end. Every action yields a result (a commit
  or a refusal, no exception), and every state on the way is again in its domains and classified.\<close>

theorem session_never_gets_stuck:
  assumes "constructed gi" and "well_shaped gi" and "session_state gi st" and "list_all bounded_candidate cs"
  shows "\<exists>st'. foldR (session_step sha gi) st cs = Inr st' \<and> session_state gi st'"
  using session.run_total [of gi st cs sha] assms by (auto simp: playing_def)

theorem session_never_gets_stuck_witness:
  "\<exists>st'. foldR (session_step no_sha gatehouse) gate_initial
     [take_key, take_key, gate_act ''open_gate'' [], gate_act ''fly'' [(''x'', JNull)]] = Inr st' \<and>
     session_state gatehouse st'"
  by (rule session_never_gets_stuck [OF gatehouse_constructed gatehouse_shaped gatehouse_starts]) code_simp

text \<open>C16. A refused transition changes nothing: the result carries the state it was given, before
  and after, with one hash for both, no events, and a reason.\<close>

theorem refusal_changes_nothing:
  assumes "transition_strict sha gi st c = Inr r" and "\<not> tr_accepted r"
  shows "tr_pre_state r = st \<and> tr_post_state r = st \<and> tr_post_state_hash r = tr_pre_state_hash r \<and>
    tr_events r = [] \<and> tr_rejection_reason r \<noteq> None"
  using transition_cases [OF assms(1)] committedD(1) assms(2) rejectedE by fastforce

theorem refusal_changes_nothing_witness:
  "case transition_strict no_sha gatehouse gate_initial (gate_act ''fly'' []) of
     Inr r \<Rightarrow> tr_post_state r = gate_initial \<and> tr_events r = [] | _ \<Rightarrow> False"
proof -
  have "\<not> isl (transition_strict no_sha gatehouse gate_initial (gate_act ''fly'' []))" by code_simp
  then obtain r where r: "transition_strict no_sha gatehouse gate_initial (gate_act ''fly'' []) = Inr r"
    by (auto simp: not_isl)
  moreover have "\<not> (case transition_strict no_sha gatehouse gate_initial (gate_act ''fly'' []) of
      Inr r \<Rightarrow> tr_accepted r | _ \<Rightarrow> True)" by code_simp
  ultimately show ?thesis using refusal_changes_nothing [OF r] by simp
qed

text \<open>C17. A committed transition is lawful: its action exists and its parameters passed
  validation; no ending was active, and while a failure was active the action is one of its
  recoveries; the rules that ran are all rules of the action and no others, in order of their
  number and then their ID; every condition of every rule held in the state before; the events are
  exactly the rules' events in that order; and the state after is classified.\<close>

theorem commits_are_lawful:
  assumes "transition_strict sha gi st c = Inr r" and "tr_accepted r"
  shows "\<exists>action params found rules.
    map_of (gi_actions gi) (ca_action_id c) = Some action \<and>
    validated_parameters action c = Inr params \<and>
    tr_action r = \<lparr>ca_action_id = ca_action_id c, ca_parameters = params\<rparr> \<and>
    classify gi st = Inr found \<and> gc_ending_ids found = [] \<and>
    (gc_failure_ids found = [] \<or> ca_action_id c \<in> set (gc_recovery_action_ids found)) \<and>
    sorted (map rule_key rules) \<and>
    (\<forall>rule. rule \<in> set rules \<longleftrightarrow>
       (\<exists>i. map_of (gi_rules gi) i = Some rule \<and> obj_get rule ''action_id'' = JStr (ca_action_id c))) \<and>
    list_all (\<lambda>rule. eval_conditions gi (obj_get rule ''condition_ids'') st params (Some (ca_action_id c)) = Inr True) rules \<and>
    tr_events r = concat (map rule_events rules) \<and>
    \<not> isl (classify gi (tr_post_state r))"
proof -
  obtain params found rules where c: "committed sha gi st c params found rules r"
    using transition_cases [OF assms(1)] rejectedE assms(2) by blast
  then obtain action where action: "map_of (gi_actions gi) (ca_action_id c) = Some action"
      "validated_parameters action c = Inr params" "owned_rules gi (ca_action_id c) action = Inr (Inr rules)"
    and attempt: "attempt gi (ca_action_id c) st params rules = Inr (Inr (tr_post_state r, tr_events r))"
    and found: "classify gi st = Inr found" "gc_ending_ids found = []"
      "gc_failure_ids found = [] \<or> ca_action_id c \<in> set (gc_recovery_action_ids found)"
    by (auto simp: committed_def)
  have "list_all (\<lambda>rule. eval_conditions gi (obj_get rule ''condition_ids'') st params (Some (ca_action_id c)) = Inr True) rules"
    using attempt_conditions [OF attempt] by (simp add: list_all_iff)
  with action found owned_rules_exact [OF action(3)] committedD [OF c] show ?thesis
    by (intro exI [of _ action] exI [of _ params] exI [of _ found] exI [of _ rules]) (simp add: not_isl)
qed

theorem commits_are_lawful_witness:
  "\<exists>r action. transition_strict no_sha gatehouse gate_initial take_key = Inr r \<and>
     map_of (gi_actions gatehouse) ''take_item'' = Some action \<and> \<not> isl (classify gatehouse (tr_post_state r))"
proof -
  have *: "case transition_strict no_sha gatehouse gate_initial take_key of Inr r \<Rightarrow> tr_accepted r | _ \<Rightarrow> False"
    by code_simp
  then obtain r where r: "transition_strict no_sha gatehouse gate_initial take_key = Inr r" "tr_accepted r"
    by (cases "transition_strict no_sha gatehouse gate_initial take_key") auto
  have "ca_action_id take_key = ''take_item''" by (simp add: take_key_def gate_act_def)
  with commits_are_lawful [OF r] r(1) show ?thesis by auto
qed

text \<open>C18. No transition changes a state that is declared constant, or adds or removes one, unless the
  pack's own narrative cursor is declared constant.\<close>

theorem constants_stay:
  assumes "transition_strict sha gi st c = Inr r" and "mutable_cursors gi" and "constant_state gi sid"
  shows "map_of (tr_post_state r) sid = map_of st sid \<and> map fst (tr_post_state r) = map fst st"
  using transition_cases [OF assms(1)] attempt_follows [OF _ assms(2)] assms(3)
  by (fastforce simp: committed_def follows_from_def dest: rejectedE)

theorem constants_stay_witness:
  "case transition_strict no_sha gatehouse gate_initial take_key of
     Inr r \<Rightarrow> map_of (tr_post_state r) ''keeper'' = Some (JStr ''ana'') | _ \<Rightarrow> False"
proof -
  have "\<not> isl (transition_strict no_sha gatehouse gate_initial take_key)" by code_simp
  then obtain r where r: "transition_strict no_sha gatehouse gate_initial take_key = Inr r" by (auto simp: not_isl)
  have "map_of gate_initial ''keeper'' = Some (JStr ''ana'')" by (simp add: gate_initial_def)
  moreover have "mutable_cursors gatehouse" and "constant_state gatehouse ''keeper''" by code_simp+
  ultimately show ?thesis using constants_stay [OF r] r by simp
qed

text \<open>C19. The enumerated candidates are exactly the valid actions: where parameters have distinct
  IDs and domains without repetition, an action is a candidate of the interpreter if and only if its
  action is known and parameter validation returns its parameters as they are.\<close>

theorem candidates_are_exactly_the_valid_actions:
  assumes "make_interpreter pack limits = Inr gi" and "clean_parameters (gi_actions gi)"
  shows "c \<in> set (gi_candidates gi) \<longleftrightarrow>
    (\<exists>action. map_of (gi_actions gi) (ca_action_id c) = Some action \<and>
       validated_parameters action c = Inr (ca_parameters c))"
  using make_interpreter_constructed [OF assms(1)] unfolding constructed_def
  by (intro enumeration_exact [OF _ _ assms(2)]) auto

theorem candidates_are_exactly_the_valid_actions_witness:
  "take_key \<in> set (gi_candidates gatehouse) \<longleftrightarrow>
    (\<exists>action. map_of (gi_actions gatehouse) (ca_action_id take_key) = Some action \<and>
       validated_parameters action take_key = Inr (ca_parameters take_key))"
  by (rule candidates_are_exactly_the_valid_actions [OF gatehouse_made]) code_simp

text \<open>The number of candidates is bounded by the per-action limit: the limit is compared with
  exact cardinalities, computed before anything is enumerated.\<close>

theorem candidates_are_bounded:
  assumes "make_interpreter pack limits = Inr gi"
  shows "int (length (gi_candidates gi)) \<le> int (length (gi_actions gi)) * gi_limit gi"
  using make_interpreter_constructed [OF assms] enumeration_bounded by (auto simp: constructed_def)

theorem candidates_are_bounded_witness:
  "int (length (gi_candidates gatehouse)) \<le> int (length (gi_actions gatehouse)) * gi_limit gatehouse"
  by (rule candidates_are_bounded [OF gatehouse_made])

text \<open>C20. \<open>legal_transitions\<close> is complete: whatever action a caller applies to a state, if it commits
  then its result is one of the legal transitions of that state.\<close>

theorem legal_transitions_are_complete:
  assumes "make_interpreter pack limits = Inr gi" and "clean_parameters (gi_actions gi)"
    and "legal_transitions sha gi st = Inr rs"
    and "transition_strict sha gi st c = Inr r" and "tr_accepted r"
  shows "r \<in> set rs"
proof -
  obtain all where all: "mapR (transition_strict sha gi st) (gi_candidates gi) = Inr all"
    and rs: "rs = filter tr_accepted all" using assms(3) by (auto simp: legal_transitions_def)
  have cand: "tr_action r \<in> set (gi_candidates gi)"
    by (rule committed_candidate [OF make_interpreter_constructed [OF assms(1)] assms(4,5)])
  obtain r' where r': "r' \<in> set all" "transition_strict sha gi st (tr_action r) = Inr r'"
    using mapR_pointwise(2) [OF all cand] by blast
  have "transition_validated_state sha gi st (tr_action r) = Inr r"
    by (rule committed_again [OF make_interpreter_constructed [OF assms(1)] assms(2,4,5)])
  then have "r' = r" using r'(2) by (auto simp: transition_strict_def snapshot_strict_candidate_def snapshot_strict_state_def)
  then show ?thesis using rs r'(1) assms(5) by simp
qed

theorem legal_transitions_are_complete_witness:
  "\<exists>r rs. transition_strict no_sha gatehouse gate_initial take_key = Inr r \<and>
     legal_transitions no_sha gatehouse gate_initial = Inr rs \<and> r \<in> set rs"
proof -
  have *: "case transition_strict no_sha gatehouse gate_initial take_key of Inr r \<Rightarrow> tr_accepted r | _ \<Rightarrow> False"
    by code_simp
  then obtain r where r: "transition_strict no_sha gatehouse gate_initial take_key = Inr r" "tr_accepted r"
    by (cases "transition_strict no_sha gatehouse gate_initial take_key") auto
  have "\<not> isl (legal_transitions no_sha gatehouse gate_initial)" by code_simp
  then obtain rs where rs: "legal_transitions no_sha gatehouse gate_initial = Inr rs" by (auto simp: not_isl)
  have "clean_parameters (gi_actions gatehouse)" by code_simp
  from legal_transitions_are_complete [OF gatehouse_made this rs r] r rs show ?thesis by blast
qed

text \<open>C22. While failures are active, the recovery actions of a state are exactly the actions that
  every one of the active failures lists.\<close>

theorem recovery_is_the_intersection:
  assumes "classify gi st = Inr found" and "gc_failure_ids found \<noteq> []"
  shows "aid \<in> set (gc_recovery_action_ids found) \<longleftrightarrow>
    (\<forall>i \<in> set (gc_failure_ids found). \<exists>failure ids.
       next_record i (gi_failures gi) = Inr failure \<and>
       obj_get failure ''recovery_action_ids'' = JArr ids \<and> aid \<in> id_text ` set ids)"
proof -
  obtain failures recovery where "foldR (recover (gi_failures gi)) None failures = Inr recovery"
    and found: "gc_failure_ids found = failures" "gc_recovery_action_ids found = recovery_ids recovery"
    using assms by (auto simp: classify_def classify_validated_state_def split: if_splits)
  from recover_fold [OF this(1)] assms(2) show ?thesis by (simp add: found)
qed

theorem recovery_is_the_intersection_witness:
  "case classify gatehouse tired_state of Inr found \<Rightarrow>
     ''open_gate'' \<in> set (gc_recovery_action_ids found) \<longleftrightarrow>
     (\<forall>i \<in> set (gc_failure_ids found). \<exists>failure ids. next_record i (gi_failures gatehouse) = Inr failure \<and>
       obj_get failure ''recovery_action_ids'' = JArr ids \<and> ''open_gate'' \<in> id_text ` set ids)
   | _ \<Rightarrow> False"
proof -
  have *: "case classify gatehouse tired_state of Inr found \<Rightarrow> gc_failure_ids found \<noteq> [] | _ \<Rightarrow> False" by code_simp
  then obtain found where "classify gatehouse tired_state = Inr found" "gc_failure_ids found \<noteq> []"
    by (cases "classify gatehouse tired_state") auto
  from recovery_is_the_intersection [OF this] this(1) show ?thesis by simp
qed

text \<open>The digest of a state does not depend on the order of its entries: two dictionaries with
  the same entries that both have a digest have the same.\<close>

theorem state_hash_ignores_order:
  assumes "mset st = mset st'" and "distinct (dict_keys st)"
    and "canonical_state_hash sha st = Inr h" and "canonical_state_hash sha st' = Inr h'"
  shows "h = h'"
proof -
  have "json_text (JObj st) = json_text (JObj st')"
    using assms(1,2) by (intro json_text_permuted) (simp_all add: dict_keys_def)
  then show ?thesis
    using assms(3,4)
    by (auto simp: canonical_state_hash_def canonical_state_bytes_def canonical_bytes_owned_def simp del: json_text.simps)
qed

theorem state_hash_ignores_order_witness:
  "canonical_state_hash (\<lambda>t. t) gate_initial = canonical_state_hash (\<lambda>t. t) (rev gate_initial)"
proof -
  have "\<not> isl (canonical_state_hash (\<lambda>t. t) gate_initial)" "\<not> isl (canonical_state_hash (\<lambda>t. t) (rev gate_initial))"
    "distinct (dict_keys gate_initial)" by code_simp+
  with state_hash_ignores_order [of gate_initial "rev gate_initial" "\<lambda>t. t"] show ?thesis
    by (auto simp: not_isl)
qed

text \<open>C23. Every committed transition makes a trace step: where SHA-256 gives 64 lowercase hexadecimal
  digits and the events of the pack are deliverable event IDs, \<open>canonical_trace_step\<close> accepts the
  result and writes its action, its hashes and its events.\<close>

theorem commits_make_trace_steps:
  assumes "transition_strict sha gi st c = Inr r" and "tr_accepted r"
    and "\<And>t. lower_hex (sha t)" and "bounded_candidate (tr_action r)"
    and "canonical_events_hash nfc sha (tr_events r) = Inr h"
  shows "canonical_trace_step nfc sha r = Inr
    [(''action_id'', JStr (ca_action_id c)), (''parameters'', JObj (ca_parameters (tr_action r))),
     (''pre_state_hash'', JStr (tr_pre_state_hash r)), (''post_state_hash'', JStr (tr_post_state_hash r)),
     (''events'', JArr (map JStr (tr_events r)))]"
proof -
  obtain params found rules where c: "committed sha gi st c params found rules r"
    using transition_cases [OF assms(1)] rejectedE assms(2) by blast
  obtain cl where post: "classify gi (tr_post_state r) = Inr cl" using committedD(8) [OF c] by blast
  have pre: "classify gi st = Inr found" using c by (simp add: committed_def)
  have "snapshot_event_sequence nfc reason (tr_events r) = Inr (tr_events r)" for reason
    using assms(5)
    by (auto simp: canonical_events_hash_def snapshot_event_sequence_def Let_def split: sum.splits)
  moreover have "lower_hex (tr_pre_state_hash r)" "lower_hex (tr_post_state_hash r)"
    using hash_digits committedD(5,6) [OF c] assms(3) by metis+
  ultimately show ?thesis
    using committedD(1-6) [OF c] classifyE(1) [OF pre] classifyE(1) [OF post] bounded_candidateD [OF assms(4)] assms(5)
    by (simp add: canonical_trace_step_def)
qed

theorem commits_make_trace_steps_witness:
  "case transition_strict hex_sha gatehouse gate_initial take_key of
     Inr r \<Rightarrow> \<not> isl (canonical_trace_step (\<lambda>_. True) hex_sha r) | _ \<Rightarrow> False"
proof -
  have *: "case transition_strict hex_sha gatehouse gate_initial take_key of
      Inr r \<Rightarrow> tr_accepted r \<and> bounded_candidate (tr_action r) \<and>
        \<not> isl (canonical_events_hash (\<lambda>_. True) hex_sha (tr_events r)) | _ \<Rightarrow> False" by code_simp
  then obtain r h where r: "transition_strict hex_sha gatehouse gate_initial take_key = Inr r" "tr_accepted r"
    and b: "bounded_candidate (tr_action r)" and h: "canonical_events_hash (\<lambda>_. True) hex_sha (tr_events r) = Inr h"
    by (cases "transition_strict hex_sha gatehouse gate_initial take_key") (auto simp: not_isl)
  have "lower_hex (hex_sha t)" for t by (simp add: lower_hex_def hex_sha_def list_all_iff)
  from commits_make_trace_steps [OF r this b h] show ?thesis by (simp add: r)
qed

text \<open>C24. The snapshot of JSON inputs accepts exactly what it should: values without floats, unsafe
  integers and empty keys, at most 64 levels deep, with at most 100000 nodes and a canonical text
  within the byte budget; it gives the value back. The early exits of the walk (on a batch of strings,
  on a container, on a string that is too long) decide nothing else.\<close>

theorem snapshots_accept_exactly:
  "snapshot_plain_json maximum v = Inr w \<longleftrightarrow>
     w = v \<and> plain_shape 1 v \<and> nodes v \<le> max_json_nodes \<and> int (length (json_text v)) \<le> maximum"
  by (rule snapshot_exact)

end
