(* ===== verification/GamepackContract.thy ===== *)
theory GamepackContract
  imports GamepackRun
begin

text \<open>
  The contract of a gamepack's logic, first part (\<open>src/gamepack_runtime/contracts.py\<close>): the
  checks on IDs, arrays and domains, and the exact shape of every record. Every failure has the
  reason code of the code; the details do not name the place in the document. IDs are lower case,
  so \<open>casefold\<close> is the identity on them. A failed \<open>assert\<close> is a \<open>TypeError\<close>. Whether a string is
  in Unicode normal form NFC is the parameter \<open>nfc\<close>.
\<close>

section \<open>Objects, arrays and IDs\<close>

text \<open>\<open>value in {name, ...}\<close>: an array or an object cannot be hashed.\<close>

definition one_of :: "json \<Rightarrow> string list \<Rightarrow> bool res" where
  "one_of j names =
     (if hashable j then Inr (j \<in> JStr ` set names) else Inl (TypeError ''unhashable type''))"

definition require_one_of :: "json \<Rightarrow> string list \<Rightarrow> string \<Rightarrow> string \<Rightarrow> unit res" where
  "require_one_of j names reason detail = rbind (one_of j names) (\<lambda>b. reject (\<not> b) reason detail)"

abbreviation logic_invalid :: "string \<Rightarrow> 'a res" where
  "logic_invalid \<equiv> fail ''gamepack_logic_invalid''"

definition exact_keys :: "json dict \<Rightarrow> string list \<Rightarrow> unit res" where
  "exact_keys ob expected =
     reject (set (dict_keys ob) \<noteq> set expected) ''gamepack_fields_invalid'' ''keys are not exact''"

definition obj_of :: "json \<Rightarrow> json dict res" where
  "obj_of j = (case j of JObj ob \<Rightarrow> Inr ob | _ \<Rightarrow> fail ''gamepack_structure_invalid'' ''must be an object'')"

definition array_of :: "nat \<Rightarrow> json \<Rightarrow> json list res" where
  "array_of maximum j =
     (case j of
        JArr xs \<Rightarrow> if maximum < length xs then fail ''gamepack_bounds_exceeded'' ''too many items'' else Inr xs
      | _ \<Rightarrow> fail ''gamepack_structure_invalid'' ''must be an array'')"

text \<open>\<open>for item in items: check(item)\<close>.\<close>

definition for_each :: "('a \<Rightarrow> unit res) \<Rightarrow> 'a list \<Rightarrow> unit res" where
  "for_each check items = foldR (\<lambda>_. check) () items"

definition record_id :: "json \<Rightarrow> string res" where
  "record_id j =
     rbind (obj_of j) (\<lambda>ob.
     case obj_get ob ''id'' of
       JStr s \<Rightarrow> if runtime_id s then Inr s else fail ''gamepack_structure_invalid'' ''not a runtime identifier''
     | _ \<Rightarrow> fail ''gamepack_structure_invalid'' ''not a runtime identifier'')"

definition windows_reserved :: "string list" where
  "windows_reserved =
     [''aux'', ''con'', ''nul'', ''prn'', ''com1'', ''com2'', ''com3'', ''com4'', ''com5'', ''com6'', ''com7'',
      ''com8'', ''com9'', ''lpt1'', ''lpt2'', ''lpt3'', ''lpt4'', ''lpt5'', ''lpt6'', ''lpt7'', ''lpt8'', ''lpt9'']"

definition internal_id :: "string \<Rightarrow> bool" where
  "internal_id s \<longleftrightarrow> take 12 s = ''wf_internal_''"

definition portable_id :: "bool \<Rightarrow> json \<Rightarrow> string res" where
  "portable_id allow_internal j =
     (case j of
        JStr s \<Rightarrow>
          if \<not> runtime_id s \<or> s \<in> set windows_reserved \<or> (\<not> allow_internal \<and> internal_id s)
          then logic_invalid ''not a portable runtime ID'' else Inr s
      | _ \<Rightarrow> logic_invalid ''not a portable runtime ID'')"

definition non_empty_string :: "(string \<Rightarrow> bool) \<Rightarrow> int \<Rightarrow> json \<Rightarrow> string res" where
  "non_empty_string nfc maximum j =
     (case j of
        JStr s \<Rightarrow>
          if s = [] \<or> maximum < codepoints s \<or> \<not> nfc s
          then fail ''gamepack_structure_invalid'' ''not a bounded NFC string'' else Inr s
      | _ \<Rightarrow> fail ''gamepack_structure_invalid'' ''not a bounded NFC string'')"

text \<open>\<open>_id_array\<close>, with the IDs of the registry if there is one.\<close>

definition id_array :: "bool \<Rightarrow> bool \<Rightarrow> string list option \<Rightarrow> json \<Rightarrow> string list res" where
  "id_array allow_empty allow_internal registry j =
     rbind (array_of 64 j) (\<lambda>items.
     rbind (reject (\<not> allow_empty \<and> items = []) ''gamepack_logic_invalid'' ''must be non-empty'') (\<lambda>_.
     rbind (mapR (portable_id allow_internal) items) (\<lambda>ids.
     rbind (reject (\<not> distinct ids) ''gamepack_logic_invalid'' ''contains duplicate IDs'') (\<lambda>_.
     rbind (reject (\<not> sorted ids) ''logic_order_invalid'' ''is not canonical'') (\<lambda>_.
     rbind (reject (case registry of None \<Rightarrow> False | Some keys \<Rightarrow> \<not> set ids \<subseteq> set keys)
              ''gamepack_logic_invalid'' ''references an unknown ID'') (\<lambda>_.
       Inr ids))))))"

text \<open>\<open>_TOKEN_RE\<close>: a name, and possibly a colon and a second name that may hold dots and dashes.\<close>

definition token :: "string \<Rightarrow> bool" where
  "token s =
     (case s of [] \<Rightarrow> False
      | c # cs \<Rightarrow>
          lower_letter c \<and>
          (case dropWhile id_char cs of [] \<Rightarrow> True
           | d # ds \<Rightarrow>
               d = CHR '':'' \<and>
               (case ds of [] \<Rightarrow> False
                | e # es \<Rightarrow> lower_letter e \<and> list_all (\<lambda>c. id_char c \<or> c = CHR ''.'' \<or> c = CHR ''-'') es)))"

definition is_token :: "json \<Rightarrow> bool" where
  "is_token j = (case j of JStr s \<Rightarrow> token s | _ \<Rightarrow> False)"

definition token_array :: "bool \<Rightarrow> nat \<Rightarrow> json \<Rightarrow> string list res" where
  "token_array allow_empty maximum j =
     rbind (array_of maximum j) (\<lambda>items.
     rbind (reject (\<not> allow_empty \<and> items = []) ''gamepack_logic_invalid'' ''must be non-empty'') (\<lambda>_.
     rbind (reject (\<not> list_all is_token items) ''gamepack_logic_invalid'' ''contains an invalid token'') (\<lambda>_.
     let checked = map id_text items in
     rbind (reject (\<not> distinct checked) ''gamepack_logic_invalid'' ''contains duplicate tokens'') (\<lambda>_.
     rbind (reject (\<not> sorted checked) ''logic_order_invalid'' ''is not canonical'') (\<lambda>_. Inr checked)))))"

section \<open>Registries and their order\<close>

definition collection :: "json dict \<Rightarrow> string \<Rightarrow> json list res" where
  "collection logic name = as_arr (obj_get logic name)"

definition register :: "bool \<Rightarrow> json dict dict \<Rightarrow> json \<Rightarrow> json dict dict res" where
  "register allow_internal registry j =
     rbind (obj_of j) (\<lambda>ob.
     rbind (portable_id allow_internal (obj_get ob ''id'')) (\<lambda>i.
     rbind (reject (dict_mem i registry) ''gamepack_logic_invalid'' ''contains duplicate IDs'') (\<lambda>_.
       Inr (registry @ [(i, ob)]))))"

definition record_registry :: "json dict \<Rightarrow> string \<Rightarrow> json dict dict res" where
  "record_registry logic name =
     rbind (collection logic name)
       (foldR (register (name = ''state_schema'' \<or> name = ''narrative_transitions'')) [])"

definition check_order :: "json dict \<Rightarrow> string \<Rightarrow> unit res" where
  "check_order logic name =
     rbind (collection logic name) (\<lambda>items.
     rbind (mapR record_id items) (\<lambda>ids.
     rbind (reject (\<not> sorted ids) ''logic_order_invalid'' ''is not canonical'') (\<lambda>_.
       reject (\<not> distinct ids) ''gamepack_logic_invalid'' ''contains duplicate IDs'')))"

definition rule_sort_key :: "json \<Rightarrow> (int \<times> string) res" where
  "rule_sort_key j =
     rbind (obj_of j) (\<lambda>rule.
     case obj_get rule ''order'' of
       JInt i \<Rightarrow> rbind (record_id j) (\<lambda>s. Inr (i, s))
     | _ \<Rightarrow> fail ''gamepack_structure_invalid'' ''logic rule order must be an integer'')"

definition compiler_owned :: "json \<Rightarrow> bool" where
  "compiler_owned j = (case j of JObj ob \<Rightarrow> obj_get ob ''compiler_owned'' = JBool True | _ \<Rightarrow> False)"

text \<open>The compiler's own state, if any, comes last; the others are in order.\<close>

definition check_state_order :: "json list \<Rightarrow> unit res" where
  "check_state_order states =
     rbind (mapR record_id states) (\<lambda>ids.
     rbind (reject (\<not> distinct ids) ''gamepack_logic_invalid'' ''logic.state_schema contains duplicate IDs'') (\<lambda>_.
     let owned = filter (\<lambda>i. compiler_owned (states ! i)) [0..<length states] in
     rbind (reject (owned \<noteq> [] \<and> owned \<noteq> [length states - 1]) ''logic_order_invalid''
              ''compiler-owned state must be the final state_schema entry'') (\<lambda>_.
       reject (\<not> sorted (if owned = [] then ids else butlast ids)) ''logic_order_invalid''
         ''logic.state_schema is not canonical'')))"

definition ordered_collections :: "string list" where
  "ordered_collections =
     [''core_verbs'', ''actions'', ''conditions'', ''effects'', ''goals'', ''failures'', ''endings'', ''events'',
      ''presentation_hooks'', ''mechanics'', ''narrative_transitions'']"

definition validate_record_order :: "json dict \<Rightarrow> unit res" where
  "validate_record_order logic =
     rbind (for_each (check_order logic) ordered_collections) (\<lambda>_.
     rbind (collection logic ''rules'') (\<lambda>rules.
     rbind (mapR rule_sort_key rules) (\<lambda>keys.
     rbind (reject (\<not> sorted keys) ''logic_order_invalid'' ''logic.rules is not canonical'') (\<lambda>_.
     rbind (reject (\<not> distinct (map snd keys)) ''gamepack_logic_invalid'' ''logic.rules contains duplicate IDs'') (\<lambda>_.
     rbind (collection logic ''state_schema'') check_state_order)))))"

section \<open>Domains\<close>

record value_domain =
  vd_type :: string
  vd_minimum :: "int option"
  vd_maximum :: "int option"
  vd_allowed :: "string list option"
  vd_min_items :: "int option"
  vd_max_items :: "int option"

definition plain_domain :: "string \<Rightarrow> value_domain" where
  "plain_domain kind =
     \<lparr>vd_type = kind, vd_minimum = None, vd_maximum = None, vd_allowed = None, vd_min_items = None, vd_max_items = None\<rparr>"

text \<open>\<open>int(record[k])\<close>, where \<open>record[k]\<close> is an integer since the shapes are checked before.\<close>

definition int_field :: "json dict \<Rightarrow> string \<Rightarrow> int res" where
  "int_field ob k = rbind (dict_at ob k) (\<lambda>j. of_option (TypeError k) (as_int j))"

definition state_domain :: "json dict \<Rightarrow> value_domain res" where
  "state_domain ob =
     rbind (dict_at ob ''type'') (\<lambda>j.
     let kind = id_text j in
     if kind = ''integer'' then
       rbind (int_field ob ''minimum'') (\<lambda>lo. rbind (int_field ob ''maximum'') (\<lambda>hi.
         Inr ((plain_domain kind)\<lparr>vd_minimum := Some lo, vd_maximum := Some hi\<rparr>)))
     else if kind = ''string'' \<or> kind = ''string_array'' then
       rbind (dict_at ob ''allowed_values'') (\<lambda>v. rbind (iterated v) (\<lambda>xs.
       let d = (plain_domain kind)\<lparr>vd_allowed := Some (map id_text xs)\<rparr> in
       if kind = ''string'' then Inr d
       else rbind (int_field ob ''min_items'') (\<lambda>lo. rbind (int_field ob ''max_items'') (\<lambda>hi.
              Inr (d\<lparr>vd_min_items := Some lo, vd_max_items := Some hi\<rparr>)))))
     else Inr (plain_domain kind))"

definition bounds_within :: "int option \<Rightarrow> int option \<Rightarrow> int option \<Rightarrow> int option \<Rightarrow> string \<Rightarrow> unit res" where
  "bounds_within lo hi low high detail =
     (case (lo, hi, low, high) of
        (Some a, Some b, Some c, Some d) \<Rightarrow> reject (a < c \<or> d < b) ''operand_domain_invalid'' detail
      | _ \<Rightarrow> Inl (TypeError ''assert''))"

definition domain_subset :: "value_domain \<Rightarrow> value_domain \<Rightarrow> unit res" where
  "domain_subset source target =
     rbind (reject (vd_type source \<noteq> vd_type target) ''operand_type_mismatch'' ''operand types differ'') (\<lambda>_.
     if vd_type target = ''integer''
     then bounds_within (vd_minimum source) (vd_maximum source) (vd_minimum target) (vd_maximum target) ''outside its target domain''
     else if vd_type target = ''string'' \<or> vd_type target = ''string_array'' then
       (case (vd_allowed source, vd_allowed target) of
          (Some xs, Some ys) \<Rightarrow>
            rbind (reject (\<not> set xs \<subseteq> set ys) ''operand_domain_invalid'' ''contains disallowed values'') (\<lambda>_.
            if vd_type target = ''string_array''
            then bounds_within (vd_min_items source) (vd_max_items source) (vd_min_items target) (vd_max_items target)
                   ''has invalid array bounds''
            else Inr ())
        | _ \<Rightarrow> Inl (TypeError ''assert''))
     else Inr ())"

definition state_fields :: "json dict \<Rightarrow> bool \<Rightarrow> string list res" where
  "state_fields ob owned =
     (let common = [''id'', ''type'', ''initial'', ''mutability'', ''persistence''] @ (if owned then [''compiler_owned''] else []);
          kind = obj_get ob ''type'' in
      if kind = JStr ''integer'' then Inr (common @ [''minimum'', ''maximum''])
      else if kind = JStr ''string'' then Inr (common @ [''allowed_values''])
      else if kind = JStr ''string_array'' then Inr (common @ [''allowed_values'', ''min_items'', ''max_items''])
      else if kind = JStr ''boolean'' then Inr common
      else fail ''state_type_unsupported'' ''unsupported state type'')"

definition bounded_text :: "(string \<Rightarrow> bool) \<Rightarrow> json \<Rightarrow> bool" where
  "bounded_text nfc j = (case j of JStr s \<Rightarrow> s \<noteq> [] \<and> codepoints s \<le> 256 \<and> nfc s | _ \<Rightarrow> False)"

definition checked_strings :: "(string \<Rightarrow> bool) \<Rightarrow> string \<Rightarrow> bool \<Rightarrow> bool \<Rightarrow> json \<Rightarrow> json list res" where
  "checked_strings nfc reason allow_empty canonical j =
     (case j of
        JArr xs \<Rightarrow>
          rbind (reject (\<not> allow_empty \<and> xs = []) reason ''must be a bounded string array'') (\<lambda>_.
          rbind (reject (256 < length xs \<or> \<not> list_all (bounded_text nfc) xs) reason ''exceeds its string-domain bounds'') (\<lambda>_.
          rbind (reject (\<not> distinct xs) reason ''contains duplicate values'') (\<lambda>_.
          rbind (reject (canonical \<and> \<not> sorted (map id_text xs)) reason ''is not canonical'') (\<lambda>_. Inr xs))))
      | _ \<Rightarrow> fail reason ''must be a bounded string array'')"

definition validate_state_domain :: "(string \<Rightarrow> bool) \<Rightarrow> json dict \<Rightarrow> unit res" where
  "validate_state_domain nfc st =
     (let bad = (\<lambda>c detail. reject c ''state_domain_invalid'' detail);
          kind = obj_get st ''type''; initial = obj_get st ''initial'' in
      rbind (record_id (JObj st)) (\<lambda>_.
      rbind (require_one_of (obj_get st ''mutability'') [''mutable'', ''constant''] ''state_domain_invalid'' ''mutability is unsupported'') (\<lambda>_.
      rbind (require_one_of (obj_get st ''persistence'') [''saved'', ''transient''] ''state_domain_invalid'' ''persistence is unsupported'') (\<lambda>_.
      if kind = JStr ''boolean'' then bad (case initial of JBool _ \<Rightarrow> False | _ \<Rightarrow> True) ''initial must be boolean''
      else if kind = JStr ''integer'' then
        bad (case (initial, obj_get st ''minimum'', obj_get st ''maximum'') of
               (JInt i, JInt lo, JInt hi) \<Rightarrow> \<not> (- max_safe_integer \<le> lo \<and> lo \<le> i \<and> i \<le> hi \<and> hi \<le> max_safe_integer)
             | _ \<Rightarrow> True) ''integer domain is invalid''
      else
        rbind (checked_strings nfc ''state_domain_invalid'' False True (obj_get st ''allowed_values'')) (\<lambda>allowed.
        if kind = JStr ''string''
        then bad (\<not> (is_str initial \<and> initial \<in> set allowed)) ''initial is not allowed''
        else if kind = JStr ''string_array'' then
          rbind (checked_strings nfc ''state_domain_invalid'' True False initial) (\<lambda>xs.
            bad (case (obj_get st ''min_items'', obj_get st ''max_items'') of
                   (JInt lo, JInt hi) \<Rightarrow>
                     \<not> (0 \<le> lo \<and> lo \<le> int (length xs) \<and> int (length xs) \<le> hi \<and> hi \<le> int (length allowed)) \<or>
                     256 < hi \<or> \<not> set xs \<subseteq> set allowed
                 | _ \<Rightarrow> True) ''string-array domain is invalid'')
        else fail ''state_type_unsupported'' ''unsupported state type'')))))"

definition validate_parameter_domain :: "(string \<Rightarrow> bool) \<Rightarrow> json dict \<Rightarrow> unit res" where
  "validate_parameter_domain nfc p =
     (let bad = (\<lambda>c detail. reject c ''parameter_domain_invalid'' detail); kind = obj_get p ''type'' in
      rbind (record_id (JObj p)) (\<lambda>_.
      if kind = JStr ''boolean'' then Inr ()
      else if kind = JStr ''integer'' then
        bad (case (obj_get p ''minimum'', obj_get p ''maximum'') of
               (JInt lo, JInt hi) \<Rightarrow> \<not> (- max_safe_integer \<le> lo \<and> lo \<le> hi \<and> hi \<le> max_safe_integer)
             | _ \<Rightarrow> True) ''integer domain is invalid''
      else
        rbind (checked_strings nfc ''parameter_domain_invalid'' False True (obj_get p ''allowed_values'')) (\<lambda>allowed.
        if kind = JStr ''string'' then Inr ()
        else if kind = JStr ''string_array'' then
          bad (case (obj_get p ''min_items'', obj_get p ''max_items'') of
                 (JInt lo, JInt hi) \<Rightarrow> \<not> (0 \<le> lo \<and> lo \<le> hi \<and> hi \<le> int (length allowed)) \<or> 256 < hi
               | _ \<Rightarrow> True) ''string-array domain is invalid''
        else fail ''parameter_type_unsupported'' ''unsupported parameter type'')))"

text \<open>
  \<open>_bounded_parameter_domain_cardinality\<close>: the number of arrays without repetition, summed over the
  sizes, where every product is cut off at \<open>limit + 1\<close>. \<open>left\<close> is \<open>maximum - size\<close>.
\<close>

fun count_arrays :: "int \<Rightarrow> int \<Rightarrow> int \<Rightarrow> nat \<Rightarrow> int \<Rightarrow> int \<Rightarrow> int \<Rightarrow> int res" where
  "count_arrays limit n minimum left k permutation summed =
     (let summed = (if minimum \<le> k then summed + permutation else summed) in
      if minimum \<le> k \<and> limit < summed then Inr (limit + 1)
      else case left of
        0 \<Rightarrow> Inr summed
      | Suc left \<Rightarrow>
          let factor = n - k in
          if factor = 0 then Inl ZeroDivisionError
          else count_arrays limit n minimum left (k + 1)
                 (if limit div factor < permutation then limit + 1 else permutation * factor) summed)"

declare count_arrays.simps [simp del]

definition bounded_cardinality :: "int \<Rightarrow> json dict \<Rightarrow> int res" where
  "bounded_cardinality limit p =
     rbind (dict_at p ''type'') (\<lambda>kind.
     if kind = JStr ''boolean'' then Inr 2
     else if kind = JStr ''integer'' then
       rbind (int_field p ''maximum'') (\<lambda>hi. rbind (int_field p ''minimum'') (\<lambda>lo.
         Inr (if hi - lo + 1 \<le> limit then hi - lo + 1 else limit + 1)))
     else
       rbind (dict_at p ''allowed_values'') (\<lambda>v. rbind (as_arr v) (\<lambda>allowed.
       if kind = JStr ''string'' then Inr (int (length allowed))
       else
         rbind (raise_if (kind \<noteq> JStr ''string_array'') (TypeError ''assert'')) (\<lambda>_.
         rbind (int_field p ''min_items'') (\<lambda>lo. rbind (int_field p ''max_items'') (\<lambda>hi.
           if hi < 0 then Inr 0 else count_arrays limit (int (length allowed)) lo (nat hi) 0 1 0))))))"

section \<open>Operands\<close>

definition condition_fields :: "json dict \<Rightarrow> string list res" where
  "condition_fields c =
     (let operator = obj_get c ''operator''; common = [''id'', ''action_id'', ''operator''] in
      if operator = JStr ''constant'' then Inr (common @ [''value''])
      else if operator = JStr ''compare'' then Inr (common @ [''comparison'', ''left'', ''right''])
      else rbind (one_of operator [''all'', ''any'']) (\<lambda>compound.
      if compound then Inr (common @ [''condition_ids''])
      else if operator = JStr ''not'' then Inr (common @ [''condition_id''])
      else if operator = JStr ''index_valid'' then Inr (common @ [''array_state_id'', ''index''])
      else if operator = JStr ''integer_distance'' then Inr (common @ [''left'', ''right'', ''distance''])
      else fail ''operator_unsupported'' ''unsupported condition operator''))"

definition effect_fields :: "json dict \<Rightarrow> string list res" where
  "effect_fields e =
     (let operation = obj_get e ''operation''; common = [''id'', ''action_id'', ''operation'', ''invalid_transition_policy''] in
      if operation = JStr ''set'' then Inr (common @ [''state_id'', ''value''])
      else if operation = JStr ''reset'' then Inr (common @ [''state_id''])
      else if operation = JStr ''increment'' then Inr (common @ [''state_id'', ''amount''])
      else if operation = JStr ''swap_array_items'' then Inr (common @ [''array_state_id'', ''first_index'', ''second_index''])
      else if operation = JStr ''append_unique'' then Inr (common @ [''array_state_id'', ''value''])
      else fail ''operator_unsupported'' ''unsupported effect operation'')"

definition validate_operand :: "json \<Rightarrow> unit res" where
  "validate_operand j =
     rbind (obj_of j) (\<lambda>ob.
     let kind = obj_get ob ''kind'' in
     if kind = JStr ''literal'' then
       rbind (exact_keys ob [''kind'', ''value_type'', ''value'']) (\<lambda>_.
         require_one_of (obj_get ob ''value_type'') [''boolean'', ''integer'', ''string'', ''string_array'']
           ''operand_invalid'' ''value_type is unsupported'')
     else if kind = JStr ''state'' then exact_keys ob [''kind'', ''state_id'']
     else if kind = JStr ''parameter'' then exact_keys ob [''kind'', ''action_id'', ''parameter_id'']
     else fail ''operator_unsupported'' ''unsupported operand kind'')"

definition literal_domain :: "(string \<Rightarrow> bool) \<Rightarrow> json \<Rightarrow> json \<Rightarrow> value_domain res" where
  "literal_domain nfc value_type literal =
     (if value_type = JStr ''boolean'' then
        (case literal of JBool _ \<Rightarrow> Inr (plain_domain ''boolean'')
         | _ \<Rightarrow> fail ''operand_invalid'' ''value must be boolean'')
      else if value_type = JStr ''integer'' then
        (case literal of
           JInt i \<Rightarrow>
             if safe_integer i then Inr ((plain_domain ''integer'')\<lparr>vd_minimum := Some i, vd_maximum := Some i\<rparr>)
             else fail ''operand_invalid'' ''value must be a safe integer''
         | _ \<Rightarrow> fail ''operand_invalid'' ''value must be a safe integer'')
      else if value_type = JStr ''string'' then
        rbind (non_empty_string nfc 256 literal) (\<lambda>s. Inr ((plain_domain ''string'')\<lparr>vd_allowed := Some [s]\<rparr>))
      else
        (case literal of
           JArr xs \<Rightarrow>
             if 256 < length xs then fail ''operand_invalid'' ''value must be a bounded string array''
             else
               rbind (mapR (non_empty_string nfc 256) xs) (\<lambda>ss.
               rbind (reject (\<not> distinct ss) ''operand_invalid'' ''value contains duplicates'') (\<lambda>_.
                 Inr ((plain_domain ''string_array'')
                        \<lparr>vd_allowed := Some ss, vd_min_items := Some (int (length ss)), vd_max_items := Some (int (length ss))\<rparr>)))
         | _ \<Rightarrow> fail ''operand_invalid'' ''value must be a bounded string array''))"

text \<open>The domain that an operand ranges over, in the scope of an action or in none.\<close>

definition operand_domain ::
  "(string \<Rightarrow> bool) \<Rightarrow> value_domain dict \<Rightarrow> value_domain dict dict \<Rightarrow> string option \<Rightarrow> json \<Rightarrow> value_domain res" where
  "operand_domain nfc state_domains parameter_domains scope j =
     rbind (validate_operand j) (\<lambda>_.
     rbind (obj_of j) (\<lambda>ob.
     let kind = obj_get ob ''kind'' in
     if kind = JStr ''literal'' then literal_domain nfc (obj_get ob ''value_type'') (obj_get ob ''value'')
     else if kind = JStr ''state'' then
       rbind (portable_id True (obj_get ob ''state_id'')) (\<lambda>sid.
         case map_of state_domains sid of None \<Rightarrow> fail ''operand_invalid'' ''references an unknown state''
         | Some d \<Rightarrow> Inr d)
     else
       rbind (portable_id False (obj_get ob ''action_id'')) (\<lambda>aid.
       rbind (portable_id False (obj_get ob ''parameter_id'')) (\<lambda>pid.
       rbind (reject (scope \<noteq> Some aid) ''operand_invalid'' ''parameter action is out of scope'') (\<lambda>_.
         case map_of parameter_domains aid of
           None \<Rightarrow> fail ''operand_invalid'' ''references an unknown action parameter''
         | Some ds \<Rightarrow>
             (case map_of ds pid of None \<Rightarrow> fail ''operand_invalid'' ''references an unknown action parameter''
              | Some d \<Rightarrow> Inr d))))))"

end
