(* ===== verification/GameSaves.thy ===== *)
theory GameSaves
  imports GamepackContract
begin

text \<open>
  Saves of gamepack sessions (\<open>src/gamepack_runtime/persistence.py\<close>): what a save is bound to, which
  states it keeps, how its document is sealed, and every check on the way back. \<open>sha\<close> is SHA-256
  and \<open>nfc\<close> tells whether a string is in Unicode normal form. Documents are compared with \<open>==\<close>,
  which is \<^const>\<open>py_eq\<close>. The gamepack of a context has passed \<open>validate_runtime_gamepack\<close>, so its
  IDs are strings. The details of errors do not name the place in the document, and \<open>deepcopy\<close> is
  the identity on values.
\<close>

section \<open>Limits\<close>

definition max_game_save_bytes :: int where "max_game_save_bytes = 256 * 1024"
definition max_game_replay_bytes :: int where "max_game_replay_bytes = 4 * 1024 * 1024"
definition max_game_replay_actions :: int where "max_game_replay_actions = 128"

definition max_canonical_persistence_bytes :: int where
  "max_canonical_persistence_bytes = max_game_replay_bytes + 64 * 1024"

definition runtime_api :: "json dict" where
  "runtime_api = [(''id'', JStr ''gamepack_runtime''), (''version'', JStr ''1.0.0'')]"

definition identity_fields :: "string list" where
  "identity_fields = [''format'', ''format_version'', ''id'', ''content_hash'']"

definition binding_fields :: "string list" where
  "binding_fields = [''gamepack'', ''runtime_composition'', ''runtime_bundle'', ''runtime_api'', ''execution_semantics'']"

definition classification_fields :: "string list" where
  "classification_fields =
     [''goal_ids'', ''ending_ids'', ''ending_kind'', ''failure_ids'', ''recovery_action_ids'', ''terminal'']"

definition save_fields :: "string list" where
  "save_fields = [''format'', ''format_version'', ''save_id'', ''bindings'', ''state'', ''content_hash'']"

definition save_state_fields :: "string list" where
  "save_state_fields = [''saved'', ''saved_hash'', ''restored_state_hash'', ''classification'']"

section \<open>Checked values\<close>

abbreviation persistence_invalid :: "string \<Rightarrow> 'a res" where
  "persistence_invalid \<equiv> fail ''persistence_contract_invalid''"

definition keys_are :: "json dict \<Rightarrow> string list \<Rightarrow> unit res" where
  "keys_are ob expected =
     reject (set (dict_keys ob) \<noteq> set expected) ''persistence_contract_invalid'' ''fields differ''"

definition object_in :: "json \<Rightarrow> json dict res" where
  "object_in j = (case j of JObj ob \<Rightarrow> Inr ob | _ \<Rightarrow> persistence_invalid ''must be an exact object'')"

definition array_in :: "int \<Rightarrow> json \<Rightarrow> json list res" where
  "array_in maximum j =
     (case j of
        JArr xs \<Rightarrow>
          if maximum < int (length xs) then persistence_invalid ''must be an exact bounded array'' else Inr xs
      | _ \<Rightarrow> persistence_invalid ''must be an exact bounded array'')"

definition sha256_text :: "json \<Rightarrow> string res" where
  "sha256_text j =
     (case j of
        JStr s \<Rightarrow> if lower_hex s then Inr s else persistence_invalid ''must be lowercase SHA-256''
      | _ \<Rightarrow> persistence_invalid ''must be lowercase SHA-256'')"

definition nfc_text :: "(string \<Rightarrow> bool) \<Rightarrow> int \<Rightarrow> json \<Rightarrow> string res" where
  "nfc_text nfc maximum j =
     (case j of
        JStr s \<Rightarrow>
          if s = [] \<or> maximum < codepoints s \<or> \<not> nfc s
          then persistence_invalid ''must be a non-empty bounded NFC string'' else Inr s
      | _ \<Rightarrow> persistence_invalid ''must be a non-empty bounded NFC string'')"

definition positive_integer :: "int \<Rightarrow> json \<Rightarrow> int res" where
  "positive_integer maximum j =
     (case j of
        JInt i \<Rightarrow>
          if 1 \<le> i \<and> i \<le> maximum then Inr i else persistence_invalid ''must be a positive safe integer''
      | _ \<Rightarrow> persistence_invalid ''must be a positive safe integer'')"

text \<open>The patterns \<open>prefix_[0-9a-f]{48}\<close>.\<close>

definition hex_char :: "char \<Rightarrow> bool" where
  "hex_char c \<longleftrightarrow> (48 \<le> (of_char c :: int) \<and> (of_char c :: int) \<le> 57) \<or>
                  (97 \<le> (of_char c :: int) \<and> (of_char c :: int) \<le> 102)"

definition derived_id :: "string \<Rightarrow> string \<Rightarrow> bool" where
  "derived_id prefix s \<longleftrightarrow>
     take (length prefix) s = prefix \<and> length s = length prefix + 48 \<and> list_all hex_char (drop (length prefix) s)"

text \<open>A segment of a path; what matches one of the patterns is lower case.\<close>

definition path_segment :: "(string \<Rightarrow> bool) \<Rightarrow> (string \<Rightarrow> bool) \<Rightarrow> json \<Rightarrow> string res" where
  "path_segment nfc matches j =
     (let bad = fail ''persistence_path_identity_invalid'' ''must be one portable lowercase ASCII path segment'' in
      case j of
        JStr s \<Rightarrow>
          if \<not> matches s \<or> s \<in> {''.'', ''..''} \<or>
             list_ex (\<lambda>c. c = CHR ''/'' \<or> c = CHR 0x5C \<or> c = CHR ''.'') s \<or>
             s \<in> set windows_reserved \<or> \<not> nfc s
          then bad else Inr s
      | _ \<Rightarrow> bad)"

definition slot_char :: "char \<Rightarrow> bool" where
  "slot_char c \<longleftrightarrow> id_char c \<or> c = CHR ''-''"

definition validate_slot_name :: "(string \<Rightarrow> bool) \<Rightarrow> json \<Rightarrow> string res" where
  "validate_slot_name nfc j =
     (let bad = fail ''slot_invalid'' ''slot must match the pattern and not be Windows-reserved'' in
      case j of
        JStr s \<Rightarrow>
          if s = [] \<or> 32 < length s \<or> \<not> lower_letter (hd s) \<or> \<not> list_all slot_char s \<or>
             s \<in> set windows_reserved \<or> \<not> nfc s
          then bad else Inr s
      | _ \<Rightarrow> bad)"

section \<open>Hashes of documents\<close>

definition own :: "int \<Rightarrow> json \<Rightarrow> json res" where
  "own maximum v = snapshot_plain_json maximum v"

definition persistence_bytes :: "json \<Rightarrow> string res" where
  "persistence_bytes v = rbind (own max_canonical_persistence_bytes v) (\<lambda>owned. Inr (json_text owned))"

definition canonical_persistence_hash :: "(string \<Rightarrow> string) \<Rightarrow> json \<Rightarrow> string res" where
  "canonical_persistence_hash sha v =
     rbind (own max_canonical_persistence_bytes v) (\<lambda>owned.
     case owned of
       JObj ob \<Rightarrow> rbind (persistence_bytes (JObj (AList.delete ''content_hash'' ob))) (\<lambda>text. Inr (sha text))
     | _ \<Rightarrow> persistence_invalid ''persistence hash input must be an object'')"

definition canonical_value_hash :: "(string \<Rightarrow> string) \<Rightarrow> json \<Rightarrow> string res" where
  "canonical_value_hash sha v =
     rbind (own max_canonical_persistence_bytes v) (\<lambda>owned.
     case owned of
       JObj ob \<Rightarrow> rbind (persistence_bytes (JObj ob)) (\<lambda>text. Inr (sha text))
     | _ \<Rightarrow> persistence_invalid ''value hash input must be an object'')"

definition content_hash_matches :: "(string \<Rightarrow> string) \<Rightarrow> json dict \<Rightarrow> unit res" where
  "content_hash_matches sha doc =
     rbind (sha256_text (obj_get doc ''content_hash'')) (\<lambda>declared.
     rbind (canonical_persistence_hash sha (JObj doc)) (\<lambda>actual.
       reject (declared \<noteq> actual) ''persistence_hash_mismatch'' ''content hash does not match''))"

text \<open>
  \<open>_seal_document\<close>: the ID is a prefix of the hash of everything but the ID and the content hash;
  the content hash then covers the ID too.
\<close>

definition seal_document :: "(string \<Rightarrow> string) \<Rightarrow> string \<Rightarrow> string \<Rightarrow> json dict \<Rightarrow> json dict res" where
  "seal_document sha id_field prefix doc =
     (let seed = filter (\<lambda>(k, _). k \<noteq> id_field \<and> k \<noteq> ''content_hash'') doc in
      rbind (canonical_persistence_hash sha (JObj seed)) (\<lambda>h.
      let named = AList.update id_field (JStr (prefix @ take 48 h)) doc in
      rbind (canonical_persistence_hash sha (JObj named)) (\<lambda>h.
        Inr (AList.update ''content_hash'' (JStr h) named))))"

section \<open>The context of a bundle\<close>

definition identity ::
  "(string \<Rightarrow> bool) \<Rightarrow> json \<Rightarrow> json \<Rightarrow> json \<Rightarrow> json \<Rightarrow> json dict res" where
  "identity nfc format_name format_version identifier content_hash =
     rbind (nfc_text nfc 128 format_name) (\<lambda>f.
     rbind (positive_integer max_safe_integer format_version) (\<lambda>v.
     rbind (nfc_text nfc 128 identifier) (\<lambda>i.
     rbind (sha256_text content_hash) (\<lambda>h.
       Inr [(''format'', JStr f), (''format_version'', JInt v), (''id'', JStr i), (''content_hash'', JStr h)]))))"

definition document_identity ::
  "(string \<Rightarrow> bool) \<Rightarrow> (string \<Rightarrow> string) \<Rightarrow> string \<Rightarrow> string \<Rightarrow> json dict \<Rightarrow> json dict res" where
  "document_identity nfc sha format_name id_field doc =
     rbind (reject (obj_get doc ''format'' \<noteq> JStr format_name \<or> \<not> py_eq (obj_get doc ''format_version'') (JInt 1))
              ''persistence_context_mismatch'' ''unsupported format or version'') (\<lambda>_.
     rbind (content_hash_matches sha doc) (\<lambda>_.
       identity nfc (obj_get doc ''format'') (obj_get doc ''format_version'') (obj_get doc id_field)
         (obj_get doc ''content_hash'')))"

definition semantics_identity :: "(string \<Rightarrow> string) \<Rightarrow> json dict res" where
  "semantics_identity sha =
     rbind (canonical_persistence_hash sha execution_semantics) (\<lambda>h.
       Inr [(''version'', JInt 1), (''content_hash'', JStr h)])"

record persistence_context =
  pc_gamepack :: "json dict"
  pc_adapter :: "json dict"
  pc_bindings :: "json dict"
  pc_max_actions :: int
  pc_max_state_bytes :: int

definition context_object :: "json \<Rightarrow> json dict res" where
  "context_object j =
     (case j of JObj ob \<Rightarrow> Inr ob | _ \<Rightarrow> fail ''persistence_context_invalid'' ''must be an object'')"

definition projected_identity :: "json dict \<Rightarrow> json dict" where
  "projected_identity actual = map (\<lambda>k. (k, obj_get actual k)) identity_fields"

text \<open>A reference of the bundle: it must name the document by its exact identity.\<close>

definition check_reference :: "json dict \<Rightarrow> string \<times> json dict \<Rightarrow> unit res" where
  "check_reference contracts expected =
     (case expected of (field, expected) \<Rightarrow>
      rbind (object_in (obj_get contracts field)) (\<lambda>actual.
        reject (\<not> py_eq (JObj (projected_identity actual)) (JObj expected)) ''persistence_context_mismatch''
          ''runtime bundle identity differs''))"

text \<open>The runtime that the bundle and the adapter ask for.\<close>

definition check_runtime ::
  "(string \<Rightarrow> string) \<Rightarrow> json dict \<Rightarrow> json dict \<Rightarrow> json dict \<Rightarrow> unit res" where
  "check_runtime sha pack bundle adapter =
     rbind (object_in (obj_get bundle ''runtime_snapshot_tree'')) (\<lambda>tree.
     rbind (object_in (obj_get tree ''runtime_api'')) (\<lambda>api.
     rbind (keys_are api [''id'', ''version'']) (\<lambda>_.
     rbind (reject (\<not> py_eq (JObj api) (JObj runtime_api)) ''persistence_runtime_api_mismatch''
              ''runtime bundle requires a different neutral runtime API'') (\<lambda>_.
     rbind (object_in (obj_get adapter ''implementation'')) (\<lambda>implementation.
     rbind (reject (\<not> py_eq (obj_get implementation ''runtime_api'') (JObj api)) ''persistence_runtime_api_mismatch''
              ''runtime adapter requires a different neutral runtime API'') (\<lambda>_.
     rbind (object_in (obj_get adapter ''execution_semantics'')) (\<lambda>semantics.
     rbind (semantics_identity sha) (\<lambda>expected.
     rbind (reject (\<not> py_eq (JObj semantics) (JObj expected)) ''persistence_semantics_mismatch''
              ''runtime adapter requires different execution semantics'') (\<lambda>_.
     rbind (rbind (dict_at pack ''logic'') as_obj) (\<lambda>logic.
     rbind (dict_at logic ''execution_semantics'') (\<lambda>required.
       reject (\<not> py_eq required execution_semantics) ''persistence_semantics_mismatch''
         ''gamepack requires different execution semantics'')))))))))))"

text \<open>
  \<open>build_game_persistence_context\<close> on a gamepack that passed \<open>validate_runtime_gamepack\<close>: the
  identities of the four documents, then the references between them, the runtime, the budgets.
\<close>

definition pack_identity :: "(string \<Rightarrow> bool) \<Rightarrow> json dict \<Rightarrow> json dict res" where
  "pack_identity nfc pack =
     rbind (object_in (obj_get pack ''game'')) (\<lambda>game.
     rbind (dict_at pack ''format'') (\<lambda>f.
     rbind (dict_at pack ''format_version'') (\<lambda>v.
     rbind (dict_at pack ''content_hash'') (\<lambda>h.
       identity nfc f v (obj_get game ''id'') h))))"

definition build_game_persistence_context ::
  "(string \<Rightarrow> bool) \<Rightarrow> (string \<Rightarrow> string) \<Rightarrow> json dict \<Rightarrow> json \<Rightarrow> json \<Rightarrow> json \<Rightarrow> persistence_context res" where
  "build_game_persistence_context nfc sha pack composition bundle adapter =
     rbind (own max_game_replay_bytes composition) (\<lambda>composition.
     rbind (own max_game_replay_bytes bundle) (\<lambda>bundle.
     rbind (own max_game_replay_bytes adapter) (\<lambda>adapter.
     rbind (context_object composition) (\<lambda>composition.
     rbind (context_object bundle) (\<lambda>bundle.
     rbind (context_object adapter) (\<lambda>adapter.
     rbind (pack_identity nfc pack) (\<lambda>gamepack_id.
     rbind (document_identity nfc sha ''world-forge.game_runtime_composition'' ''composition_id'' composition) (\<lambda>composition_id.
     rbind (document_identity nfc sha ''world-forge.game_runtime_bundle'' ''bundle_id'' bundle) (\<lambda>bundle_id.
     rbind (path_segment nfc runtime_id (obj_get gamepack_id ''id'')) (\<lambda>_.
     rbind (path_segment nfc (derived_id ''game_runtime_bundle_'') (obj_get bundle_id ''id'')) (\<lambda>_.
     rbind (document_identity nfc sha ''world-forge.runtime_adapter'' ''adapter_id'' adapter) (\<lambda>adapter_id.
     rbind (reject (\<not> py_eq (obj_get composition ''gamepack'') (JObj gamepack_id)) ''persistence_context_mismatch''
              ''runtime composition does not reference the exact gamepack'') (\<lambda>_.
     rbind (reject (\<not> py_eq (obj_get composition ''adapter'') (JObj adapter_id)) ''persistence_context_mismatch''
              ''runtime composition does not reference the exact adapter'') (\<lambda>_.
     rbind (object_in (obj_get bundle ''contracts'')) (\<lambda>contracts.
     rbind (for_each (check_reference contracts)
              [(''gamepack'', gamepack_id), (''runtime_composition'', composition_id),
               (''runtime_adapter'', adapter_id)]) (\<lambda>_.
     rbind (check_runtime sha pack bundle adapter) (\<lambda>_.
     rbind (object_in (obj_get adapter ''budgets'')) (\<lambda>budgets.
     rbind (positive_integer max_game_replay_actions (obj_get budgets ''max_actions'')) (\<lambda>max_actions.
     rbind (positive_integer state_bytes (obj_get budgets ''max_state_bytes'')) (\<lambda>max_state_bytes.
     rbind (semantics_identity sha) (\<lambda>semantics.
       Inr \<lparr>pc_gamepack = pack, pc_adapter = adapter,
            pc_bindings =
              [(''gamepack'', JObj gamepack_id), (''runtime_composition'', JObj composition_id),
               (''runtime_bundle'', JObj bundle_id), (''runtime_api'', JObj runtime_api),
               (''execution_semantics'', JObj semantics)],
            pc_max_actions = max_actions, pc_max_state_bytes = max_state_bytes\<rparr>)))))))))))))))))))))"

section \<open>States\<close>

definition classification_document :: "classification \<Rightarrow> json dict res" where
  "classification_document c =
     rbind (terminal c) (\<lambda>ended.
       Inr [(''goal_ids'', JArr (map JStr (gc_goal_ids c))), (''ending_ids'', JArr (map JStr (gc_ending_ids c))),
            (''ending_kind'', opt_str (gc_ending_kind c)), (''failure_ids'', JArr (map JStr (gc_failure_ids c))),
            (''recovery_action_ids'', JArr (map JStr (gc_recovery_action_ids c))), (''terminal'', JBool ended)])"

definition validate_classification :: "string \<Rightarrow> json \<Rightarrow> classification \<Rightarrow> unit res" where
  "validate_classification reason v expected =
     rbind (object_in v) (\<lambda>doc.
     rbind (keys_are doc classification_fields) (\<lambda>_.
     rbind (classification_document expected) (\<lambda>expected.
       reject (\<not> py_eq (JObj doc) (JObj expected)) reason
         ''recorded classification differs from runtime classification'')))"

definition saved_schema :: "persistence_context \<Rightarrow> json dict list res" where
  "saved_schema ctx =
     rbind (object_in (obj_get (pc_gamepack ctx) ''logic'')) (\<lambda>logic.
     rbind (array_in 256 (obj_get logic ''state_schema'')) (mapR object_in))"

definition schema_id :: "json dict \<Rightarrow> string res" where
  "schema_id r = rbind (dict_at r ''id'') as_str"

definition is_constant :: "json dict \<Rightarrow> bool" where
  "is_constant r \<longleftrightarrow> obj_get r ''mutability'' = JStr ''constant''"

definition is_saved :: "json dict \<Rightarrow> bool" where
  "is_saved r \<longleftrightarrow> obj_get r ''persistence'' = JStr ''saved''"

definition constant_kept :: "json dict \<Rightarrow> json dict \<Rightarrow> unit res" where
  "constant_kept st r =
     rbind (schema_id r) (\<lambda>sid.
       if is_constant r
       then rbind (dict_at st sid) (\<lambda>v.
              reject (\<not> py_eq v (obj_get r ''initial'')) ''save_constant_mismatch''
                (''constant state '' @ sid @ '' differs from its immutable initial value''))
       else Inr ())"

definition validated_full_state :: "persistence_context \<Rightarrow> json dict \<Rightarrow> (json dict \<times> classification) res" where
  "validated_full_state ctx st =
     rbind (snapshot_strict_state st) (\<lambda>checked.
     rbind (canonical_state_bytes checked) (\<lambda>encoded.
     rbind (reject (pc_max_state_bytes ctx < int (length encoded)) ''state_bytes_exceeded''
              ''state exceeds the adapter state-byte budget'') (\<lambda>_.
     rbind (make_interpreter (pc_gamepack ctx) None) (\<lambda>gi.
     rbind (classify gi checked) (\<lambda>found.
     rbind (saved_schema ctx) (\<lambda>schema.
     rbind (for_each (constant_kept checked) schema) (\<lambda>_. Inr (checked, found))))))))"

definition saved_entry :: "json dict \<Rightarrow> json dict \<Rightarrow> (string \<times> json) res" where
  "saved_entry st r = rbind (schema_id r) (\<lambda>sid. rbind (dict_at st sid) (\<lambda>v. Inr (sid, v)))"

definition saved_projection :: "persistence_context \<Rightarrow> json dict \<Rightarrow> json dict res" where
  "saved_projection ctx st =
     rbind (saved_schema ctx) (\<lambda>schema.
     rbind (mapR (saved_entry st) (filter is_saved schema)) (\<lambda>kvs. Inr (dict_of kvs)))"

definition overwrite :: "json dict \<Rightarrow> json dict \<Rightarrow> json dict \<Rightarrow> json dict res" where
  "overwrite projection st r =
     rbind (constant_kept projection r) (\<lambda>_.
     rbind (saved_entry projection r) (\<lambda>(sid, v). Inr (AList.update sid v st)))"

definition restore_projection :: "persistence_context \<Rightarrow> json \<Rightarrow> (json dict \<times> classification) res" where
  "restore_projection ctx saved =
     rbind (object_in saved) (\<lambda>projection.
     rbind (saved_schema ctx) (\<lambda>schema.
     let expected = filter is_saved schema in
     rbind (mapR schema_id expected) (\<lambda>ids.
     rbind (reject (set (dict_keys projection) \<noteq> set ids) ''save_state_keys_mismatch''
              ''saved-state keys do not exactly match persistence:saved state'') (\<lambda>_.
     rbind (make_interpreter (pc_gamepack ctx) None) (\<lambda>gi.
     rbind (gp_initial_state gi) (\<lambda>initial.
     rbind (foldR (overwrite projection) initial expected) (validated_full_state ctx)))))))"

section \<open>Save documents\<close>

definition check_identity_keys :: "json dict \<Rightarrow> string \<Rightarrow> unit res" where
  "check_identity_keys bindings field =
     rbind (object_in (obj_get bindings field)) (\<lambda>ob. keys_are ob identity_fields)"

definition validate_bindings :: "persistence_context \<Rightarrow> json \<Rightarrow> unit res" where
  "validate_bindings ctx v =
     rbind (object_in v) (\<lambda>bindings.
     rbind (keys_are bindings binding_fields) (\<lambda>_.
     rbind (for_each (check_identity_keys bindings) [''gamepack'', ''runtime_composition'', ''runtime_bundle'']) (\<lambda>_.
     rbind (object_in (obj_get bindings ''runtime_api'')) (\<lambda>api.
     rbind (keys_are api [''id'', ''version'']) (\<lambda>_.
     rbind (object_in (obj_get bindings ''execution_semantics'')) (\<lambda>semantics.
     rbind (keys_are semantics [''version'', ''content_hash'']) (\<lambda>_.
       reject (\<not> py_eq (JObj bindings) (JObj (pc_bindings ctx))) ''persistence_identity_mismatch''
         ''persistence bindings differ from the exact runtime context'')))))))"

definition check_save_header :: "json dict \<Rightarrow> unit res" where
  "check_save_header doc =
     rbind (keys_are doc save_fields) (\<lambda>_.
     rbind (reject (obj_get doc ''format'' \<noteq> JStr ''world-forge.game_save'') ''save_format_invalid''
              ''format must be world-forge.game_save'') (\<lambda>_.
     rbind (reject (\<not> py_eq (obj_get doc ''format_version'') (JInt 1)) ''save_version_invalid''
              ''game save format_version must be 1'') (\<lambda>_.
       reject (case obj_get doc ''save_id'' of JStr s \<Rightarrow> \<not> derived_id ''game_save_'' s | _ \<Rightarrow> True)
         ''save_id_invalid'' ''save_id must be game_save_<48 lowercase hex>'')))"

text \<open>
  \<open>state["saved_hash"]\<close> and the other recorded hashes are compared with the recomputed ones; the
  state is restored from the pack's own initial state, never from the document alone.
\<close>

definition check_saved_state :: "(string \<Rightarrow> string) \<Rightarrow> persistence_context \<Rightarrow> json dict \<Rightarrow> unit res" where
  "check_saved_state sha ctx state =
     rbind (keys_are state save_state_fields) (\<lambda>_.
     rbind (object_in (obj_get state ''saved'')) (\<lambda>saved.
     rbind (canonical_value_hash sha (JObj saved)) (\<lambda>h.
     rbind (reject (obj_get state ''saved_hash'' \<noteq> JStr h) ''save_hash_mismatch''
              ''saved-state projection hash does not match'') (\<lambda>_.
     rbind (restore_projection ctx (JObj saved)) (\<lambda>(restored, found).
     rbind (canonical_state_hash sha restored) (\<lambda>h.
     rbind (reject (obj_get state ''restored_state_hash'' \<noteq> JStr h) ''save_restored_state_mismatch''
              ''restored full-state hash does not match'') (\<lambda>_.
       validate_classification ''save_classification_mismatch'' (obj_get state ''classification'') found)))))))"

definition check_derived_id ::
  "(string \<Rightarrow> string) \<Rightarrow> string \<Rightarrow> string \<Rightarrow> string \<Rightarrow> json dict \<Rightarrow> unit res" where
  "check_derived_id sha id_field prefix reason doc =
     (let blank = AList.update ''content_hash'' (JStr []) (AList.update id_field (JStr []) doc) in
      rbind (seal_document sha id_field prefix blank) (\<lambda>sealed.
        reject (obj_get doc id_field \<noteq> obj_get sealed id_field) reason
          ''ID is not derived from the exact document''))"

definition validate_game_save_document ::
  "(string \<Rightarrow> string) \<Rightarrow> persistence_context \<Rightarrow> json \<Rightarrow> json dict res" where
  "validate_game_save_document sha ctx v =
     rbind (own max_game_save_bytes v) (\<lambda>owned.
     rbind (object_in owned) (\<lambda>doc.
     rbind (check_save_header doc) (\<lambda>_.
     rbind (validate_bindings ctx (obj_get doc ''bindings'')) (\<lambda>_.
     rbind (object_in (obj_get doc ''state'')) (\<lambda>state.
     rbind (check_saved_state sha ctx state) (\<lambda>_.
     rbind (check_derived_id sha ''save_id'' ''game_save_'' ''save_id_mismatch'' doc) (\<lambda>_.
     rbind (content_hash_matches sha doc) (\<lambda>_. Inr doc))))))))"

text \<open>The document of a save before it is sealed.\<close>

definition save_document ::
  "(string \<Rightarrow> string) \<Rightarrow> persistence_context \<Rightarrow> json dict \<Rightarrow> json dict \<Rightarrow> classification \<Rightarrow> json dict res" where
  "save_document sha ctx saved restored found =
     rbind (canonical_value_hash sha (JObj saved)) (\<lambda>saved_hash.
     rbind (canonical_state_hash sha restored) (\<lambda>restored_hash.
     rbind (classification_document found) (\<lambda>found.
       Inr [(''format'', JStr ''world-forge.game_save''), (''format_version'', JInt 1), (''save_id'', JStr []),
            (''bindings'', JObj (pc_bindings ctx)),
            (''state'', JObj [(''saved'', JObj saved), (''saved_hash'', JStr saved_hash),
                              (''restored_state_hash'', JStr restored_hash), (''classification'', JObj found)]),
            (''content_hash'', JStr [])])))"

definition build_game_save ::
  "(string \<Rightarrow> string) \<Rightarrow> persistence_context \<Rightarrow> json dict \<Rightarrow> json dict res" where
  "build_game_save sha ctx st =
     rbind (validated_full_state ctx st) (\<lambda>(checked, _).
     rbind (saved_projection ctx checked) (\<lambda>saved.
     rbind (restore_projection ctx (JObj saved)) (\<lambda>(restored, found).
     rbind (save_document sha ctx saved restored found) (\<lambda>doc.
     rbind (seal_document sha ''save_id'' ''game_save_'' doc) (\<lambda>sealed.
       validate_game_save_document sha ctx (JObj sealed))))))"

definition restore_game_save ::
  "(string \<Rightarrow> string) \<Rightarrow> persistence_context \<Rightarrow> json \<Rightarrow> json dict res" where
  "restore_game_save sha ctx v =
     rbind (validate_game_save_document sha ctx v) (\<lambda>doc.
     rbind (rbind (dict_at doc ''state'') object_in) (\<lambda>state.
     rbind (dict_at state ''saved'') (\<lambda>saved.
     rbind (restore_projection ctx saved) (\<lambda>(restored, _). Inr restored))))"

end
