(* ===== verification/GameReplays.thy ===== *)
theory GameReplays
  imports GameSaves
begin

text \<open>
  Replays of gamepack sessions (\<open>src/gamepack_runtime/persistence.py\<close>): the recorder, the document
  of a trace, its validation, and its playback, which runs the session again and compares every
  hash and event. A session is its interpreter, which does not change, and its state.
\<close>

definition replay_fields :: "string list" where
  "replay_fields =
     [''format'', ''format_version'', ''replay_id'', ''bindings'', ''initial_state_hash'', ''steps'',
      ''final_state_hash'', ''classification'', ''trace_hash'', ''content_hash'']"

definition step_fields :: "string list" where
  "step_fields = [''index'', ''action_id'', ''parameters'', ''pre_state_hash'', ''post_state_hash'', ''events'']"

section \<open>Documents\<close>

text \<open>\<open>snapshot_strict_candidate(CandidateAction(action_id, parameters))\<close> of untyped values.\<close>

definition candidate_of :: "json \<Rightarrow> json \<Rightarrow> candidate_action res" where
  "candidate_of action_id parameters =
     (case (action_id, parameters) of
        (JStr aid, JObj ps) \<Rightarrow> snapshot_strict_candidate \<lparr>ca_action_id = aid, ca_parameters = ps\<rparr>
      | (JStr aid, _) \<Rightarrow>
          rbind (reject (aid = []) ''action_invalid'' ''action must be a CandidateAction with an ID'') (\<lambda>_.
          rbind (snapshot_plain_json state_bytes
                   (JObj [(''action_id'', action_id), (''parameters'', parameters)])) (\<lambda>_.
            fail ''action_invalid'' ''action parameters must be an exact object''))
      | _ \<Rightarrow> fail ''action_invalid'' ''action must be a CandidateAction with an ID'')"

definition check_replay_header :: "json dict \<Rightarrow> unit res" where
  "check_replay_header doc =
     rbind (keys_are doc replay_fields) (\<lambda>_.
     rbind (reject (obj_get doc ''format'' \<noteq> JStr ''world-forge.game_replay'') ''replay_format_invalid''
              ''format must be world-forge.game_replay'') (\<lambda>_.
     rbind (reject (\<not> py_eq (obj_get doc ''format_version'') (JInt 1)) ''replay_version_invalid''
              ''game replay format_version must be 1'') (\<lambda>_.
       reject (case obj_get doc ''replay_id'' of JStr s \<Rightarrow> \<not> derived_id ''game_replay_'' s | _ \<Rightarrow> True)
         ''replay_id_invalid'' ''replay_id must be game_replay_<48 lowercase hex>'')))"

definition check_step :: "(string \<Rightarrow> bool) \<Rightarrow> nat \<times> json \<Rightarrow> unit res" where
  "check_step nfc numbered =
     (case numbered of (n, raw) \<Rightarrow>
      rbind (object_in raw) (\<lambda>step.
      rbind (keys_are step step_fields) (\<lambda>_.
      rbind (reject (\<not> py_eq (obj_get step ''index'') (JInt (int n))) ''replay_step_index_mismatch''
               ''step has the wrong index'') (\<lambda>_.
      rbind (candidate_of (obj_get step ''action_id'') (obj_get step ''parameters'')) (\<lambda>c.
      rbind (reject (JStr (ca_action_id c) \<noteq> obj_get step ''action_id'' \<or>
                     \<not> py_eq (JObj (ca_parameters c)) (obj_get step ''parameters''))
               ''replay_step_invalid'' ''step action is noncanonical'') (\<lambda>_.
      rbind (sha256_text (obj_get step ''pre_state_hash'')) (\<lambda>_.
      rbind (sha256_text (obj_get step ''post_state_hash'')) (\<lambda>_.
      rbind (array_in 256 (obj_get step ''events'')) (\<lambda>events.
      rbind (mapR (nfc_text nfc 64) events) (\<lambda>_. Inr ()))))))))))"

definition validate_game_replay_document ::
  "(string \<Rightarrow> bool) \<Rightarrow> (string \<Rightarrow> string) \<Rightarrow> persistence_context \<Rightarrow> json \<Rightarrow> json dict res" where
  "validate_game_replay_document nfc sha ctx v =
     rbind (own max_game_replay_bytes v) (\<lambda>owned.
     rbind (object_in owned) (\<lambda>doc.
     rbind (check_replay_header doc) (\<lambda>_.
     rbind (validate_bindings ctx (obj_get doc ''bindings'')) (\<lambda>_.
     rbind (sha256_text (obj_get doc ''initial_state_hash'')) (\<lambda>_.
     rbind (array_in (pc_max_actions ctx) (obj_get doc ''steps'')) (\<lambda>steps.
     rbind (for_each (check_step nfc) (enumerate 0 steps)) (\<lambda>_.
     rbind (sha256_text (obj_get doc ''final_state_hash'')) (\<lambda>_.
     rbind (object_in (obj_get doc ''classification'')) (\<lambda>found.
     rbind (keys_are found classification_fields) (\<lambda>_.
     rbind (sha256_text (obj_get doc ''trace_hash'')) (\<lambda>trace_hash.
     rbind (canonical_value_hash sha (JObj [(''steps'', JArr steps)])) (\<lambda>h.
     rbind (reject (trace_hash \<noteq> h) ''replay_trace_hash_mismatch'' ''replay trace hash does not match'') (\<lambda>_.
     rbind (check_derived_id sha ''replay_id'' ''game_replay_'' ''replay_id_mismatch'' doc) (\<lambda>_.
     rbind (content_hash_matches sha doc) (\<lambda>_. Inr doc)))))))))))))))"

section \<open>Playback\<close>

text \<open>One step: the recorded hashes and events must be those of the session.\<close>

definition play_step ::
  "(string \<Rightarrow> string) \<Rightarrow> interpreter \<Rightarrow> json dict \<Rightarrow> json \<Rightarrow> json dict res" where
  "play_step sha gi st j =
     rbind (as_obj j) (\<lambda>step.
     rbind (canonical_state_hash sha st) (\<lambda>h.
     rbind (reject (obj_get step ''pre_state_hash'' \<noteq> JStr h) ''replay_step_mismatch'' ''pre-state hash differs'') (\<lambda>_.
     rbind (candidate_of (obj_get step ''action_id'') (obj_get step ''parameters'')) (\<lambda>c.
     rbind (apply_action sha gi st c) (\<lambda>(st', r).
     rbind (reject (\<not> tr_accepted r) ''replay_step_mismatch'' ''action was rejected'') (\<lambda>_.
     rbind (reject (JStr (tr_pre_state_hash r) \<noteq> obj_get step ''pre_state_hash'' \<or>
                    JStr (tr_post_state_hash r) \<noteq> obj_get step ''post_state_hash'' \<or>
                    \<not> py_eq (JArr (map JStr (tr_events r))) (obj_get step ''events''))
              ''replay_step_mismatch'' ''trace differs'') (\<lambda>_.
       Inr st')))))))"

definition play_game_replay ::
  "(string \<Rightarrow> bool) \<Rightarrow> (string \<Rightarrow> string) \<Rightarrow> persistence_context \<Rightarrow> json \<Rightarrow> json dict res" where
  "play_game_replay nfc sha ctx v =
     rbind (validate_game_replay_document nfc sha ctx v) (\<lambda>doc.
     rbind (make_interpreter (pc_gamepack ctx) None) (\<lambda>gi.
     rbind (start_session gi) (\<lambda>initial.
     rbind (canonical_state_hash sha initial) (\<lambda>h.
     rbind (reject (obj_get doc ''initial_state_hash'' \<noteq> JStr h) ''replay_initial_mismatch''
              ''initial state hash differs from gamepack'') (\<lambda>_.
     rbind (as_arr (obj_get doc ''steps'')) (\<lambda>steps.
     rbind (foldR (play_step sha gi) initial steps) (\<lambda>final.
     rbind (canonical_state_hash sha final) (\<lambda>h.
     rbind (reject (obj_get doc ''final_state_hash'' \<noteq> JStr h) ''replay_final_mismatch''
              ''final state hash differs'') (\<lambda>_.
     rbind (classify gi final) (\<lambda>found.
     rbind (validate_classification ''replay_classification_mismatch'' (obj_get doc ''classification'') found) (\<lambda>_.
       Inr final)))))))))))"

section \<open>Building\<close>

definition step_document ::
  "(string \<Rightarrow> bool) \<Rightarrow> (string \<Rightarrow> string) \<Rightarrow> nat \<times> transition_result \<Rightarrow> json res" where
  "step_document nfc sha numbered =
     (case numbered of (n, r) \<Rightarrow>
      rbind (reject (\<not> tr_accepted r) ''replay_step_rejected'' ''replays may contain only accepted actions'') (\<lambda>_.
      rbind (canonical_trace_step nfc sha r) (\<lambda>trace. Inr (JObj ((''index'', JInt (int n)) # trace)))))"

text \<open>The state a trace ends in, with the hash that its last step records.\<close>

definition final_of ::
  "(string \<Rightarrow> string) \<Rightarrow> interpreter \<Rightarrow> transition_result list \<Rightarrow> (json dict \<times> string) res" where
  "final_of sha gi results =
     (if results = []
      then rbind (gp_initial_state gi) (\<lambda>st. rbind (canonical_state_hash sha st) (\<lambda>h. Inr (st, h)))
      else Inr (tr_post_state (last results), tr_post_state_hash (last results)))"

definition replay_document ::
  "(string \<Rightarrow> string) \<Rightarrow> persistence_context \<Rightarrow> interpreter \<Rightarrow> json list \<Rightarrow> string \<Rightarrow> classification \<Rightarrow> json dict res" where
  "replay_document sha ctx gi steps final_hash found =
     rbind (gp_initial_state gi) (\<lambda>initial.
     rbind (canonical_state_hash sha initial) (\<lambda>initial_hash.
     rbind (classification_document found) (\<lambda>found.
     rbind (canonical_value_hash sha (JObj [(''steps'', JArr steps)])) (\<lambda>trace_hash.
       Inr [(''format'', JStr ''world-forge.game_replay''), (''format_version'', JInt 1), (''replay_id'', JStr []),
            (''bindings'', JObj (pc_bindings ctx)), (''initial_state_hash'', JStr initial_hash),
            (''steps'', JArr steps), (''final_state_hash'', JStr final_hash), (''classification'', JObj found),
            (''trace_hash'', JStr trace_hash), (''content_hash'', JStr [])]))))"

definition build_game_replay ::
  "(string \<Rightarrow> bool) \<Rightarrow> (string \<Rightarrow> string) \<Rightarrow> persistence_context \<Rightarrow> transition_result list \<Rightarrow> json dict res" where
  "build_game_replay nfc sha ctx results =
     rbind (reject (pc_max_actions ctx < int (length results)) ''replay_action_limit''
              ''replay exceeds the adapter action budget'') (\<lambda>_.
     rbind (mapR (step_document nfc sha) (enumerate 0 results)) (\<lambda>steps.
     rbind (make_interpreter (pc_gamepack ctx) None) (\<lambda>gi.
     rbind (final_of sha gi results) (\<lambda>(final_state, final_hash).
     rbind (validated_full_state ctx final_state) (\<lambda>(_, found).
     rbind (replay_document sha ctx gi steps final_hash found) (\<lambda>doc.
     rbind (seal_document sha ''replay_id'' ''game_replay_'' doc) (\<lambda>sealed.
     rbind (play_game_replay nfc sha ctx (JObj sealed)) (\<lambda>_.
       validate_game_replay_document nfc sha ctx (JObj sealed)))))))))"

section \<open>Recording\<close>

definition record_result ::
  "(string \<Rightarrow> bool) \<Rightarrow> (string \<Rightarrow> string) \<Rightarrow> persistence_context \<Rightarrow> transition_result list \<Rightarrow> transition_result \<Rightarrow>
     transition_result list res" where
  "record_result nfc sha ctx results r =
     (if \<not> tr_accepted r then Inr results
      else
        rbind (reject (pc_max_actions ctx \<le> int (length results)) ''replay_action_limit''
                 ''replay exceeds the adapter action budget'') (\<lambda>_.
        rbind (canonical_trace_step nfc sha r) (\<lambda>_.
        rbind (snapshot_strict_state (tr_pre_state r)) (\<lambda>pre.
        rbind (snapshot_strict_state (tr_post_state r)) (\<lambda>post.
          Inr (results @ [r\<lparr>tr_pre_state := pre, tr_post_state := post, tr_rejection_reason := None\<rparr>]))))))"

text \<open>
  A recording session. The session itself moves before the result is recorded, so an error of the
  recorder leaves the new state behind: the operation returns the session with either outcome.
\<close>

record recording =
  rs_state :: "json dict"
  rs_results :: "transition_result list"

definition start_recording :: "interpreter \<Rightarrow> recording res" where
  "start_recording gi = rbind (start_session gi) (\<lambda>st. Inr \<lparr>rs_state = st, rs_results = []\<rparr>)"

definition recording_apply ::
  "(string \<Rightarrow> bool) \<Rightarrow> (string \<Rightarrow> string) \<Rightarrow> persistence_context \<Rightarrow> interpreter \<Rightarrow> recording \<Rightarrow> candidate_action \<Rightarrow>
     recording \<times> transition_result res" where
  "recording_apply nfc sha ctx gi s c =
     (case apply_action sha gi (rs_state s) c of
        Inl e \<Rightarrow> (s, Inl e)
      | Inr (st, r) \<Rightarrow>
          let moved = s\<lparr>rs_state := st\<rparr> in
          (case record_result nfc sha ctx (rs_results s) r of
             Inl e \<Rightarrow> (moved, Inl e)
           | Inr results \<Rightarrow> (moved\<lparr>rs_results := results\<rparr>, Inr r)))"

definition finish_recording ::
  "(string \<Rightarrow> bool) \<Rightarrow> (string \<Rightarrow> string) \<Rightarrow> persistence_context \<Rightarrow> recording \<Rightarrow> json dict res" where
  "finish_recording nfc sha ctx s = build_game_replay nfc sha ctx (rs_results s)"

end
