(* ===== verification/PersistenceRuns.thy ===== *)
theory PersistenceRuns
  imports GameReplays GamepackRuns
begin

text \<open>
  Facts on saves and replays of gamepack sessions: what the schema of the pack and that of the
  interpreter have in common, the state that a projection restores, the documents that a seal and
  a validation leave alone, and the runs that a trace describes.
\<close>

section \<open>The schema of a context\<close>

text \<open>\<open>serves ctx gi\<close>: the interpreter that every operation on the context constructs.\<close>

definition serves :: "persistence_context \<Rightarrow> interpreter \<Rightarrow> bool" where
  "serves ctx gi \<longleftrightarrow> make_interpreter (pc_gamepack ctx) None = Inr gi"

lemma servesD: "serves ctx gi \<Longrightarrow> make_interpreter (pc_gamepack ctx) None = Inr gi"
  by (simp add: serves_def)

lemma index_records_items:
  assumes "index_records v context = Inr d"
  shows "v = JArr (map (JObj \<circ> snd) d)"
proof -
  obtain items where items: "records v context = Inr items"
    and fold: "foldR (index_record context) [] items = Inr d"
    using assms by (auto simp: index_records_def)
  have "map snd d = map snd acc @ items" if "foldR (index_record context) acc items = Inr d" for acc
    using that by (induction items arbitrary: acc) (fastforce elim: index_recordE)+
  then have "map snd d = items" using fold by fastforce
  moreover have "xs = map JObj items" if "mapR as_obj xs = Inr items" for xs
    using that by (induction xs arbitrary: items) (auto simp: as_obj_def split: json.splits)
  ultimately show ?thesis
    using items by (auto simp: records_def comp_def split: json.splits if_splits)
qed

lemma objects_in [simp]: "mapR object_in (map (JObj \<circ> f) xs) = Inr (map f xs)"
  by (induction xs) (simp_all add: object_in_def)

lemma saved_schema_eq:
  assumes "serves ctx gi" and "saved_schema ctx = Inr schema"
  shows "schema = map snd (gi_schema gi)"
proof -
  obtain logic where logic: "obj_get (pc_gamepack ctx) ''logic'' = JObj logic"
    and "index_records (obj_get logic ''state_schema'') ''state_schema'' = Inr (gi_schema gi)"
    using assms(1) by (auto simp: serves_def make_interpreter_def Let_def split: json.splits)
  from index_records_items [OF this(2)] have "obj_get logic ''state_schema'' = JArr (map (JObj \<circ> snd) (gi_schema gi))" .
  then show ?thesis using assms(2) by (auto simp: saved_schema_def object_in_def logic array_in_def split: if_splits)
qed

lemma schema_ids:
  assumes "serves ctx gi" and "(sid, r) \<in> set (gi_schema gi)"
  shows "schema_id r = Inr sid"
proof -
  obtain logic where schema: "index_records (obj_get logic ''state_schema'') ''state_schema'' = Inr (gi_schema gi)"
    using assms(1) by (auto simp: serves_def make_interpreter_def Let_def split: json.splits)
  from assms(2) index_records_keys(1) [OF schema] have "map_of (gi_schema gi) sid = Some r"
    by (simp add: dict_keys_def)
  from index_records_keys(2) [OF schema this] show ?thesis
    by (auto simp: schema_id_def obj_get_def dict_at_def split: option.splits)
qed

lemma serves_constructed: "serves ctx gi \<Longrightarrow> constructed gi"
  using make_interpreter_constructed by (auto simp: serves_def)

lemma distinct_schema: "serves ctx gi \<Longrightarrow> distinct (map fst (gi_schema gi))"
  using serves_constructed by (auto simp: constructed_def dict_keys_def)

lemma schema_ids_all:
  assumes "serves ctx gi"
  shows "mapR schema_id (filter P (map snd (gi_schema gi))) = Inr (map fst (filter (P \<circ> snd) (gi_schema gi)))"
proof -
  have "mapR schema_id (filter P (map snd d)) = Inr (map fst (filter (P \<circ> snd) d))"
    if "\<forall>(sid, r) \<in> set d. schema_id r = Inr sid" for d
    using that by (induction d) (simp_all add: case_prod_beta comp_def)
  then show ?thesis using schema_ids [OF assms] by auto
qed

section \<open>Validated states\<close>

lemma for_each_unit: "for_each check xs = Inr u \<longleftrightarrow> (\<forall>x \<in> set xs. check x = Inr ())"
  by (simp add: for_each_def foldR_unit)

lemma constant_kept_check:
  assumes "constant_kept st r = Inr ()" and "schema_id r = Inr sid"
  shows "check_constant st () (sid, r) = Inr ()"
  using assms by (auto simp: constant_kept_def check_constant_def is_constant_def dict_at_def split: if_splits)

lemma validated_full_stateE:
  assumes "validated_full_state ctx st = Inr (checked, found)" and "serves ctx gi"
  shows "checked = st" and "classify gi st = Inr found" and "restore_state gi st = Inr st"
    and "int (length (json_text (JObj st))) \<le> pc_max_state_bytes ctx"
proof -
  obtain encoded schema where st: "snapshot_strict_state st = Inr st" "checked = st"
    and encoded: "canonical_state_bytes st = Inr encoded" "int (length encoded) \<le> pc_max_state_bytes ctx"
    and found: "classify gi st = Inr found"
    and schema: "saved_schema ctx = Inr schema" "for_each (constant_kept st) schema = Inr ()"
    using assms(1) servesD [OF assms(2)]
    by (auto simp: validated_full_state_def snapshot_strict_state_def simp del: json_text.simps)
  show "checked = st" and "classify gi st = Inr found" by fact+
  have "encoded = json_text (JObj st)"
    using encoded(1) by (auto simp: canonical_state_bytes_def canonical_bytes_owned_def simp del: json_text.simps)
  with encoded(2) show "int (length (json_text (JObj st))) \<le> pc_max_state_bytes ctx" by simp
  have "check_constant st () (sid, r) = Inr ()" if "(sid, r) \<in> set (gi_schema gi)" for sid r
    using schema that saved_schema_eq [OF assms(2)] schema_ids [OF assms(2) that]
    by (intro constant_kept_check) (force simp: for_each_unit)+
  then have "foldR (check_constant st) () (gi_schema gi) = Inr ()" by (auto simp: foldR_unit)
  then show "restore_state gi st = Inr st" by (simp add: restore_state_def st(1) found)
qed

section \<open>Projections\<close>

definition saved_state :: "interpreter \<Rightarrow> string \<Rightarrow> bool" where
  "saved_state gi sid \<longleftrightarrow> (case map_of (gi_schema gi) sid of None \<Rightarrow> False | Some r \<Rightarrow> is_saved r)"

lemma saved_state_mem:
  assumes "serves ctx gi"
  shows "saved_state gi sid \<longleftrightarrow> sid \<in> fst ` set (filter (is_saved \<circ> snd) (gi_schema gi))"
  using map_of_is_SomeI [OF distinct_schema [OF assms]]
  by (force simp: saved_state_def dest: map_of_SomeD split: option.splits)

lemma overwrite_fold:
  "foldR (overwrite p) st (map snd d) = Inr st' \<Longrightarrow> (\<And>sid r. (sid, r) \<in> set d \<Longrightarrow> schema_id r = Inr sid) \<Longrightarrow>
     map_of st' sid = (if sid \<in> fst ` set d then map_of p sid else map_of st sid)"
proof (induction d arbitrary: st)
  case (Cons kr d)
  obtain k r where kr: "kr = (k, r)" by (cases kr)
  with Cons.prems(2) have r: "schema_id r = Inr k" by simp
  from Cons.prems(1) obtain st1 where 1: "overwrite p st r = Inr st1" and 2: "foldR (overwrite p) st1 (map snd d) = Inr st'"
    by (auto simp: kr)
  from 1 r obtain v where "map_of p k = Some v" "st1 = AList.update k v st"
    by (auto simp: overwrite_def saved_entry_def)
  with Cons.IH [OF 2] Cons.prems(2) show ?case by (auto simp: kr update_conv')
qed simp

text \<open>
  The restored state: the saved states come from the document, the others from the initial state
  of the pack.
\<close>

lemma restore_projectionE:
  assumes "restore_projection ctx (JObj saved) = Inr (st, found)" and "serves ctx gi" and "gp_initial_state gi = Inr initial"
  shows "validated_full_state ctx st = Inr (st, found)"
    and "set (dict_keys saved) = {sid. saved_state gi sid}"
    and "map_of st sid = (if saved_state gi sid then map_of saved sid else map_of initial sid)"
proof -
  let ?kept = "filter (is_saved \<circ> snd) (gi_schema gi)"
  obtain schema where schema: "saved_schema ctx = Inr schema"
    using assms(1) by (auto simp: restore_projection_def)
  have kept: "filter is_saved schema = map snd ?kept"
    by (simp add: saved_schema_eq [OF assms(2) schema] filter_map)
  have ids: "mapR schema_id (filter is_saved schema) = Inr (map fst ?kept)"
    using schema_ids_all [OF assms(2)] by (simp add: saved_schema_eq [OF assms(2) schema])
  obtain mid where mid: "foldR (overwrite saved) initial (map snd ?kept) = Inr mid"
    and full: "validated_full_state ctx mid = Inr (st, found)"
    and keys: "set (dict_keys saved) = set (map fst ?kept)"
    using assms(1) ids unfolding kept
    by (auto simp: restore_projection_def object_in_def schema kept Let_def servesD [OF assms(2)] assms(3))
  have "st = mid" using validated_full_stateE(1) [OF full assms(2)] .
  with full show "validated_full_state ctx st = Inr (st, found)" by simp
  show "set (dict_keys saved) = {sid. saved_state gi sid}"
    using keys saved_state_mem [OF assms(2)] by auto
  have "map_of mid sid = (if sid \<in> fst ` set ?kept then map_of saved sid else map_of initial sid)"
    by (rule overwrite_fold [OF mid]) (use schema_ids [OF assms(2)] in auto)
  with \<open>st = mid\<close> show "map_of st sid = (if saved_state gi sid then map_of saved sid else map_of initial sid)"
    using saved_state_mem [OF assms(2)] by simp
qed

lemma saved_projectionE:
  assumes "saved_projection ctx st = Inr saved" and "serves ctx gi" and "saved_state gi sid"
  shows "map_of saved sid = map_of st sid"
proof -
  let ?kept = "filter (is_saved \<circ> snd) (gi_schema gi)"
  obtain schema kvs where schema: "saved_schema ctx = Inr schema"
    and kvs: "mapR (saved_entry st) (filter is_saved schema) = Inr kvs" and saved: "saved = dict_of kvs"
    using assms(1) by (auto simp: saved_projection_def)
  have entries: "map fst kvs = map fst d \<and> (\<forall>(k, v) \<in> set kvs. map_of st k = Some v)"
    if "mapR (saved_entry st) (map snd d) = Inr kvs" "\<And>sid r. (sid, r) \<in> set d \<Longrightarrow> schema_id r = Inr sid" for d
    using that
  proof (induction d arbitrary: kvs)
    case (Cons kr d)
    obtain k r where kr: "kr = (k, r)" by (cases kr)
    with Cons.prems(2) have r: "schema_id r = Inr k" by simp
    from Cons.prems(1) obtain e rest where e: "saved_entry st r = Inr e"
      and rest: "mapR (saved_entry st) (map snd d) = Inr rest" "kvs = e # rest"
      by (auto simp: kr)
    from e r obtain v where "map_of st k = Some v" "e = (k, v)" by (auto simp: saved_entry_def)
    with Cons.IH [OF rest(1)] Cons.prems(2) rest(2) show ?case by (auto simp: kr)
  qed simp
  have "filter is_saved schema = map snd ?kept"
    by (simp add: saved_schema_eq [OF assms(2) schema] filter_map)
  with kvs have kept: "mapR (saved_entry st) (map snd ?kept) = Inr kvs" by simp
  have es: "map fst kvs = map fst ?kept" "\<And>k v. (k, v) \<in> set kvs \<Longrightarrow> map_of st k = Some v"
    using entries [OF kept] schema_ids [OF assms(2)] by auto
  have "distinct (map fst kvs)"
    unfolding es(1) using distinct_schema [OF assms(2)] by (rule distinct_map_filter)
  then have "saved = kvs" by (simp add: saved dict_of_id)
  have "sid \<in> set (map fst kvs)" unfolding es(1) using assms(3) saved_state_mem [OF assms(2)] by auto
  then obtain v where "map_of kvs sid = Some v"
    by (metis map_of_eq_None_iff option.exhaust set_map)
  with es(2) [OF map_of_SomeD [OF this]] \<open>saved = kvs\<close> show ?thesis by simp
qed

section \<open>Seals\<close>

lemma seal_keeps:
  assumes "seal_document sha id_field prefix doc = Inr sealed" and "k \<noteq> id_field" and "k \<noteq> ''content_hash''"
  shows "obj_get sealed k = obj_get doc k"
  using assms by (auto simp: seal_document_def Let_def obj_get_def update_conv')

lemma own_Inr: "own maximum v = Inr w \<Longrightarrow> w = v"
  by (auto simp: own_def snapshot_plain_json_def)

lemma save_validE:
  assumes "validate_game_save_document sha ctx (JObj d) = Inr doc"
  obtains state where "doc = d" and "obj_get d ''state'' = JObj state" and "check_saved_state sha ctx state = Inr ()"
    and "validate_bindings ctx (obj_get d ''bindings'') = Inr ()"
    and "check_derived_id sha ''save_id'' ''game_save_'' ''save_id_mismatch'' d = Inr ()"
    and "content_hash_matches sha d = Inr ()"
proof -
  obtain owned where owned: "own max_game_save_bytes (JObj d) = Inr owned"
    using assms by (auto simp: validate_game_save_document_def)
  from own_Inr [OF owned] assms owned that show thesis
    by (auto simp: validate_game_save_document_def object_in_def split: json.splits)
qed

lemma saved_stateE:
  assumes "check_saved_state sha ctx state = Inr u"
  obtains saved st found h where "obj_get state ''saved'' = JObj saved"
    and "restore_projection ctx (JObj saved) = Inr (st, found)"
    and "canonical_state_hash sha st = Inr h" and "obj_get state ''restored_state_hash'' = JStr h"
  using assms by (auto simp: check_saved_state_def object_in_def split: json.splits)

lemma obj_get_Some: "obj_get ob k = v \<Longrightarrow> v \<noteq> JNull \<Longrightarrow> map_of ob k = Some v"
  by (auto simp: obj_get_def split: option.splits)

lemma restore_game_save_eq:
  assumes "validate_game_save_document sha ctx (JObj d) = Inr doc" and "obj_get d ''state'' = JObj state"
    and "obj_get state ''saved'' = JObj saved" and "restore_projection ctx (JObj saved) = Inr (st, found)"
  shows "restore_game_save sha ctx (JObj d) = Inr st"
  using assms obj_get_Some [OF assms(2)] obj_get_Some [OF assms(3)]
  by (auto simp: restore_game_save_def object_in_def dict_at_def elim: save_validE)

section \<open>Traces\<close>

text \<open>\<open>traces sha gi st rs st'\<close>: applying the actions of the results in order gives exactly these results.\<close>

definition reapplies :: "(string \<Rightarrow> string) \<Rightarrow> interpreter \<Rightarrow> json dict \<Rightarrow> transition_result \<Rightarrow> bool" where
  "reapplies sha gi st r \<longleftrightarrow>
     tr_accepted r \<and> snapshot_strict_candidate (tr_action r) = Inr (tr_action r) \<and>
     apply_action sha gi st (tr_action r) = Inr (tr_post_state r, r)"

fun traces ::
  "(string \<Rightarrow> string) \<Rightarrow> interpreter \<Rightarrow> json dict \<Rightarrow> transition_result list \<Rightarrow> json dict \<Rightarrow> bool" where
  "traces sha gi st [] st' \<longleftrightarrow> st' = st"
| "traces sha gi st (r # rs) st' \<longleftrightarrow> reapplies sha gi st r \<and> traces sha gi (tr_post_state r) rs st'"

lemma traces_snoc:
  "traces sha gi st (rs @ [r]) st'' \<longleftrightarrow>
     (\<exists>st'. traces sha gi st rs st' \<and> reapplies sha gi st' r \<and> st'' = tr_post_state r)"
  by (induction rs arbitrary: st) auto

lemma traceE:
  assumes "canonical_trace_step nfc sha r = Inr trace"
  shows "tr_accepted r" and "tr_rejection_reason r = None"
    and "snapshot_strict_candidate (tr_action r) = Inr (tr_action r)"
    and "trace = [(''action_id'', JStr (ca_action_id (tr_action r))), (''parameters'', JObj (ca_parameters (tr_action r))),
      (''pre_state_hash'', JStr (tr_pre_state_hash r)), (''post_state_hash'', JStr (tr_post_state_hash r)),
      (''events'', JArr (map JStr (tr_events r)))]"
proof -
  obtain events action where r: "tr_accepted r" "tr_rejection_reason r = None"
    and events: "snapshot_event_sequence nfc ''trace_step_invalid'' (tr_events r) = Inr events"
    and action: "snapshot_strict_candidate (tr_action r) = Inr action"
    and trace: "trace = [(''action_id'', JStr (ca_action_id action)), (''parameters'', JObj (ca_parameters action)),
      (''pre_state_hash'', JStr (tr_pre_state_hash r)), (''post_state_hash'', JStr (tr_post_state_hash r)),
      (''events'', JArr (map JStr events))]"
    using assms unfolding canonical_trace_step_def by auto
  have "action = tr_action r" using action by (auto simp: snapshot_strict_candidate_def)
  moreover have "events = tr_events r"
    using events by (auto simp: snapshot_event_sequence_def Let_def split: sum.splits)
  ultimately show "tr_accepted r" "tr_rejection_reason r = None"
    "snapshot_strict_candidate (tr_action r) = Inr (tr_action r)"
    "trace = [(''action_id'', JStr (ca_action_id (tr_action r))), (''parameters'', JObj (ca_parameters (tr_action r))),
      (''pre_state_hash'', JStr (tr_pre_state_hash r)), (''post_state_hash'', JStr (tr_post_state_hash r)),
      (''events'', JArr (map JStr (tr_events r)))]"
    using r action trace by simp_all
qed

lemma record_resultE:
  assumes "record_result nfc sha ctx rs r = Inr rs'"
  shows "if tr_accepted r then rs' = rs @ [r] \<and> snapshot_strict_candidate (tr_action r) = Inr (tr_action r) else rs' = rs"
proof (cases "tr_accepted r")
  case True
  then obtain trace pre post where trace: "canonical_trace_step nfc sha r = Inr trace"
    and pre: "snapshot_strict_state (tr_pre_state r) = Inr pre" and post: "snapshot_strict_state (tr_post_state r) = Inr post"
    and rs': "rs' = rs @ [r\<lparr>tr_pre_state := pre, tr_post_state := post, tr_rejection_reason := None\<rparr>]"
    using assms by (auto simp: record_result_def)
  have "pre = tr_pre_state r" "post = tr_post_state r"
    using pre post by (auto simp: snapshot_strict_state_def)
  then have "r\<lparr>tr_pre_state := pre, tr_post_state := post, tr_rejection_reason := None\<rparr> = r"
    using traceE(2) [OF trace] by (cases r) simp
  then show ?thesis using True rs' traceE(3) [OF trace] by simp
qed (use assms in \<open>simp add: record_result_def\<close>)

lemma applied_again:
  assumes "constructed gi" and "clean_parameters (gi_actions gi)"
    and "apply_action sha gi st c = Inr (st', r)" and "tr_accepted r"
    and "snapshot_strict_candidate (tr_action r) = Inr (tr_action r)"
  shows "reapplies sha gi st r" and "st' = tr_post_state r"
proof -
  have strict: "transition_strict sha gi st c = Inr r" and st': "st' = tr_post_state r"
    using assms(3,4) by (auto simp: apply_action_def snapshot_strict_candidate_def)
  then have "transition_strict sha gi st (tr_action r) = Inr r"
    using committed_again [OF assms(1,2) strict assms(4)] assms(5)
    by (auto simp: transition_strict_def snapshot_strict_state_def)
  then show "reapplies sha gi st r" by (simp add: reapplies_def assms(4,5) apply_action_def)
  show "st' = tr_post_state r" by fact
qed

section \<open>Recordings\<close>

text \<open>A recording session on a list of actions; the first error ends it.\<close>

definition recording_step ::
  "(string \<Rightarrow> bool) \<Rightarrow> (string \<Rightarrow> string) \<Rightarrow> persistence_context \<Rightarrow> interpreter \<Rightarrow> recording \<Rightarrow> candidate_action \<Rightarrow>
     recording res" where
  "recording_step nfc sha ctx gi s c =
     (case recording_apply nfc sha ctx gi s c of (s', result) \<Rightarrow> rbind result (\<lambda>_. Inr s'))"

lemma recording_stepE:
  assumes "recording_step nfc sha ctx gi s c = Inr s'"
  obtains r where "apply_action sha gi (rs_state s) c = Inr (rs_state s', r)"
    and "record_result nfc sha ctx (rs_results s) r = Inr (rs_results s')"
  using assms by (auto simp: recording_step_def recording_apply_def Let_def split: sum.splits)

lemma recording_traces:
  assumes "foldR (recording_step nfc sha ctx gi) s cs = Inr s'"
    and "traces sha gi st (rs_results s) (rs_state s)"
    and "constructed gi" and "clean_parameters (gi_actions gi)"
  shows "traces sha gi st (rs_results s') (rs_state s')"
  using assms(1,2)
proof (induction cs arbitrary: s)
  case (Cons c cs)
  then obtain s1 where s1: "recording_step nfc sha ctx gi s c = Inr s1"
    and rest: "foldR (recording_step nfc sha ctx gi) s1 cs = Inr s'" by auto
  from s1 obtain r where r: "apply_action sha gi (rs_state s) c = Inr (rs_state s1, r)"
    and rec: "record_result nfc sha ctx (rs_results s) r = Inr (rs_results s1)"
    by (rule recording_stepE)
  have "traces sha gi st (rs_results s1) (rs_state s1)"
  proof (cases "tr_accepted r")
    case True
    from record_resultE [OF rec] True have rs: "rs_results s1 = rs_results s @ [r]"
      and candidate: "snapshot_strict_candidate (tr_action r) = Inr (tr_action r)" by auto
    from applied_again [OF assms(3,4) r True candidate] Cons.prems(2) show ?thesis
      unfolding rs traces_snoc by auto
  next
    case False
    with r have "rs_state s1 = rs_state s" by (auto simp: apply_action_def)
    with record_resultE [OF rec] False Cons.prems(2) show ?thesis by simp
  qed
  from Cons.IH [OF rest this] show ?case .
qed simp

lemma recording_bound:
  assumes "foldR (recording_step nfc sha ctx gi) s cs = Inr s'"
    and "int (length (rs_results s)) \<le> pc_max_actions ctx"
  shows "int (length (rs_results s')) \<le> pc_max_actions ctx"
  using assms
proof (induction cs arbitrary: s)
  case (Cons c cs)
  then obtain s1 where s1: "recording_step nfc sha ctx gi s c = Inr s1"
    and rest: "foldR (recording_step nfc sha ctx gi) s1 cs = Inr s'" by auto
  from s1 obtain r where rec: "record_result nfc sha ctx (rs_results s) r = Inr (rs_results s1)"
    by (rule recording_stepE)
  then have "tr_accepted r \<Longrightarrow> int (length (rs_results s)) < pc_max_actions ctx"
    by (auto simp: record_result_def)
  with record_resultE [OF rec] Cons.prems(2) have "int (length (rs_results s1)) \<le> pc_max_actions ctx"
    by (cases "tr_accepted r") auto
  from Cons.IH [OF rest this] show ?case .
qed simp

section \<open>Playback\<close>

lemma candidate_of_action:
  "snapshot_strict_candidate c = Inr c \<Longrightarrow> candidate_of (JStr (ca_action_id c)) (JObj (ca_parameters c)) = Inr c"
  by (cases c) (simp add: candidate_of_def)

lemma replay_validE:
  assumes "validate_game_replay_document nfc sha ctx (JObj d) = Inr doc"
  obtains steps where "doc = d" and "obj_get d ''steps'' = JArr steps"
    and "for_each (check_step nfc) (enumerate 0 steps) = Inr ()"
    and "int (length steps) \<le> pc_max_actions ctx"
proof -
  obtain owned where owned: "own max_game_replay_bytes (JObj d) = Inr owned"
    using assms by (auto simp: validate_game_replay_document_def)
  from own_Inr [OF owned] assms owned that show thesis
    by (auto simp: validate_game_replay_document_def object_in_def array_in_def split: json.splits if_splits)
qed

lemma playE:
  assumes "play_game_replay nfc sha ctx (JObj d) = Inr final" and "serves ctx gi"
  obtains initial steps h found where "start_session gi = Inr initial" and "obj_get d ''steps'' = JArr steps"
    and "foldR (play_step sha gi) initial steps = Inr final" and "int (length steps) \<le> pc_max_actions ctx"
    and "canonical_state_hash sha final = Inr h" and "obj_get d ''final_state_hash'' = JStr h"
    and "classify gi final = Inr found"
    and "validate_classification ''replay_classification_mismatch'' (obj_get d ''classification'') found = Inr ()"
proof -
  obtain doc where doc: "validate_game_replay_document nfc sha ctx (JObj d) = Inr doc"
    using assms(1) by (auto simp: play_game_replay_def)
  obtain steps where d: "doc = d" "obj_get d ''steps'' = JArr steps" "int (length steps) \<le> pc_max_actions ctx"
    by (rule replay_validE [OF doc])
  show thesis
    using assms(1) that d(2,3) by (auto simp: play_game_replay_def doc d(1) servesD [OF assms(2)])
qed

text \<open>The actions that a replay document lists.\<close>

definition step_action :: "json \<Rightarrow> candidate_action" where
  "step_action j =
     (case j of
        JObj step \<Rightarrow>
          (case (obj_get step ''action_id'', obj_get step ''parameters'') of
             (JStr aid, JObj ps) \<Rightarrow> \<lparr>ca_action_id = aid, ca_parameters = ps\<rparr>
           | _ \<Rightarrow> \<lparr>ca_action_id = [], ca_parameters = []\<rparr>)
      | _ \<Rightarrow> \<lparr>ca_action_id = [], ca_parameters = []\<rparr>)"

lemma candidate_of_Inr: "candidate_of a p = Inr c \<Longrightarrow> a = JStr (ca_action_id c) \<and> p = JObj (ca_parameters c)"
  by (auto simp: candidate_of_def snapshot_strict_candidate_def split: json.splits)

lemma play_step_session:
  assumes "play_step sha gi st j = Inr st'"
  shows "\<exists>r. apply_action sha gi st (step_action j) = Inr (st', r) \<and> tr_accepted r"
proof -
  obtain step where j: "j = JObj step" using assms by (auto simp: play_step_def as_obj_def split: json.splits)
  from assms obtain c r where c: "candidate_of (obj_get step ''action_id'') (obj_get step ''parameters'') = Inr c"
    and r: "apply_action sha gi st c = Inr (st', r)" "tr_accepted r"
    by (auto simp: play_step_def j as_obj_def)
  from candidate_of_Inr [OF c] have "step_action j = c" by (simp add: step_action_def j)
  with r show ?thesis by blast
qed

lemma play_steps_session:
  "foldR (play_step sha gi) st steps = Inr final \<Longrightarrow>
     foldR (session_step sha gi) st (map step_action steps) = Inr final"
proof (induction steps arbitrary: st)
  case (Cons j steps)
  then obtain mid where mid: "play_step sha gi st j = Inr mid" and rest: "foldR (play_step sha gi) mid steps = Inr final"
    by auto
  from play_step_session [OF mid] Cons.IH [OF rest] show ?case by (auto simp: session_step_def)
qed simp

lemma session_run_reaches:
  "session_reaches sha gi st \<Longrightarrow> foldR (session_step sha gi) st cs = Inr st' \<Longrightarrow> session_reaches sha gi st'"
proof (induction cs arbitrary: st)
  case (Cons c cs)
  then obtain mid where mid: "session_step sha gi st c = Inr mid" and rest: "foldR (session_step sha gi) mid cs = Inr st'"
    by auto
  from mid obtain r where "apply_action sha gi st c = Inr (mid, r)" by (auto simp: session_step_def)
  from Cons.IH [OF session_reaches.acted [OF Cons.prems(1) this(1)] rest] show ?case .
qed simp

end
