(* ===== verification/SealedDocuments.thy ===== *)
theory SealedDocuments
  imports PersistenceRuns SnapshotExact
begin

text \<open>
  When saving succeeds: documents that fit are sealed, and the checks on the way back accept exactly
  what a seal has written.
\<close>

section \<open>Documents that fit\<close>

definition fits :: "int \<Rightarrow> json \<Rightarrow> bool" where
  "fits maximum v \<longleftrightarrow> plain_shape 1 v \<and> nodes v \<le> max_json_nodes \<and> written v \<le> maximum"

lemma own_iff: "own maximum v = Inr w \<longleftrightarrow> w = v \<and> fits maximum v"
  by (simp add: own_def fits_def snapshot_exact del: json_text.simps)

lemma fits_own: "fits maximum v \<Longrightarrow> own maximum v = Inr v"
  by (simp add: own_iff)

lemma fits_mono: "fits m v \<Longrightarrow> m \<le> m' \<Longrightarrow> fits m' v"
  by (auto simp: fits_def simp del: json_text.simps)

lemma sum_filter_le:
  assumes "\<And>x. 0 \<le> f x"
  shows "sum_list (map f (filter P xs)) \<le> (sum_list (map f xs) :: int)"
  using assms by (induction xs) (simp_all add: add_increasing)

lemma fits_filter:
  assumes "fits m (JObj d)"
  shows "fits m (JObj (filter P d))"
proof -
  have sums: "sum_list (map f (map g (filter P d))) \<le> (sum_list (map f (map g d)) :: int)" if "\<And>x. 0 \<le> f x" for f g
    using sum_filter_le [of "f \<circ> g" P d] that by (simp add: comp_def)
  have "nodes (JObj (filter P d)) \<le> nodes (JObj d)"
    unfolding object_nodes using sums [of nodes snd] nodes_positive by (simp add: order.trans [OF zero_le_one])
  moreover have "brackets (length (filter P d)) + int (length (filter P d)) \<le> brackets (length d) + int (length d)"
    by (simp add: brackets_def le_max_iff_disj) (use length_filter_le [of P d] in linarith)
  then have "written (JObj (filter P d)) \<le> written (JObj d)"
    unfolding written_object using sums [of text_size fst] sums [of written snd] text_size_nonneg
    by (simp del: json_text.simps map_map)
  moreover have "plain_shape 1 (JObj (filter P d))"
    using assms by (auto simp: fits_def list_all_iff)
  ultimately show ?thesis using assms unfolding fits_def by linarith
qed

lemma fits_delete: "fits m (JObj d) \<Longrightarrow> fits m (JObj (AList.delete k d))"
  unfolding AList.delete_eq by (rule fits_filter)

lemma hash_total:
  assumes "fits max_canonical_persistence_bytes (JObj d)"
  shows "canonical_persistence_hash sha (JObj d) = Inr (sha (json_text (JObj (AList.delete ''content_hash'' d))))"
  using fits_own [OF assms] fits_own [OF fits_delete [OF assms]]
  by (simp add: canonical_persistence_hash_def persistence_bytes_def del: json_text.simps)

section \<open>Updates in place\<close>

lemma dictionary_from_keys: "distinct (map fst d) \<Longrightarrow> map (\<lambda>k. (k, the (map_of d k))) (map fst d) = d"
  by (auto simp: comp_def intro: map_idI)

lemma dictionary_ext:
  assumes "map fst d = map fst d'" and "distinct (map fst d')" and "map_of d = map_of d'"
  shows "d = d'"
  using dictionary_from_keys [of d] dictionary_from_keys [of d'] assms by simp

lemma update_keys: "k \<in> fst ` set d \<Longrightarrow> map fst (AList.update k v d) = map fst d"
  by (induction d) auto

lemma update_mem: "x \<in> set (AList.update k v d) \<Longrightarrow> x = (k, v) \<or> x \<in> set d"
  by (induction d) (auto split: if_splits)

lemma sum_update:
  "map_of d k = Some w \<Longrightarrow>
     sum_list (map f (map snd (AList.update k v d))) = (sum_list (map f (map snd d)) :: int) - f w + f v"
  by (induction d) auto

lemma fits_update_text:
  assumes "fits m (JObj d)" and "map_of d k = Some (JStr s)"
  shows "fits (m + text_size t - text_size s) (JObj (AList.update k (JStr t) d))"
proof -
  have keys: "map fst (AList.update k (JStr t) d) = map fst d" by (rule update_known [OF assms(2)])
  have len: "length (AList.update k (JStr t) d) = length d" using arg_cong [OF keys, of length] by simp
  have "nodes (JObj (AList.update k (JStr t) d)) = nodes (JObj d)"
    unfolding object_nodes using sum_update [OF assms(2), of nodes "JStr t"] by simp
  moreover have "written (JObj (AList.update k (JStr t) d)) = written (JObj d) + text_size t - text_size s"
    unfolding written_object keys len using sum_update [OF assms(2), of written "JStr t"]
    by (simp add: quoted_size del: map_map)
  moreover have "plain_shape 1 (JObj (AList.update k (JStr t) d))"
    using assms(1) keys unfolding fits_def object_shape
    by (auto simp: max_json_depth_def dest!: update_mem)
  ultimately show ?thesis using assms(1) unfolding fits_def by linarith
qed

section \<open>Seals\<close>

text \<open>A document with room for its ID and its hash: both are still empty.\<close>

definition blank_document :: "string \<Rightarrow> json dict \<Rightarrow> bool" where
  "blank_document id_field doc \<longleftrightarrow>
     distinct (dict_keys doc) \<and> id_field \<noteq> ''content_hash'' \<and>
     map_of doc id_field = Some (JStr []) \<and> map_of doc ''content_hash'' = Some (JStr [])"

lemma blank_again:
  assumes "blank_document id_field doc"
  shows "AList.update ''content_hash'' (JStr []) (AList.update id_field (JStr [])
    (AList.update ''content_hash'' x (AList.update id_field y doc))) = doc"
proof (rule dictionary_ext)
  note doc = assms [unfolded blank_document_def dict_keys_def]
  show "distinct (map fst doc)" using doc by simp
  have "id_field \<in> fst ` set doc" and "''content_hash'' \<in> fst ` set doc"
    using doc by (metis map_of_eq_None_iff option.distinct(1))+
  then show "map fst (AList.update ''content_hash'' (JStr []) (AList.update id_field (JStr [])
      (AList.update ''content_hash'' x (AList.update id_field y doc)))) = map fst doc"
    by (simp add: update_keys dom_update)
  show "map_of (AList.update ''content_hash'' (JStr []) (AList.update id_field (JStr [])
      (AList.update ''content_hash'' x (AList.update id_field y doc)))) = map_of doc"
    using doc by (auto simp: update_conv' fun_eq_iff)
qed

text \<open>A digit of a hash is one byte of text.\<close>

lemma hex_char_size: "hex_char c \<Longrightarrow> char_size c = 1"
proof -
  assume "hex_char c"
  then have "48 \<le> (of_char c :: nat) \<and> (of_char c :: nat) \<noteq> 92"
    using of_char_int [of c] unfolding hex_char_def by linarith
  then show ?thesis by (auto simp: char_size_def Let_def)
qed

lemma hex_size: "list_all hex_char t \<Longrightarrow> sum_list (map char_size t) = int (length t)"
  by (induction t) (simp_all add: hex_char_size)

lemma lower_hex_iff: "lower_hex t \<longleftrightarrow> length t = 64 \<and> list_all hex_char t"
  by (simp add: lower_hex_def hex_char_def list_all_iff)

lemma derived_id_size:
  assumes "lower_hex h"
  shows "text_size (prefix @ take 48 h) = text_size prefix + 48" and "text_size h = 66"
    and "derived_id prefix (prefix @ take 48 h)"
  using assms hex_size [of "take 48 h"] hex_size [of h]
  by (auto simp: lower_hex_iff text_size_def derived_id_def list_all_iff dest: in_set_takeD)

lemma seal_total:
  assumes "blank_document id_field doc" and "fits m (JObj doc)"
    and "m + text_size prefix + 110 \<le> max_canonical_persistence_bytes" and "\<And>t. lower_hex (sha t)"
  obtains sealed h where "seal_document sha id_field prefix doc = Inr sealed"
    and "fits (m + text_size prefix + 110) (JObj sealed)"
    and "content_hash_matches sha sealed = Inr ()"
    and "check_derived_id sha id_field prefix reason sealed = Inr ()"
    and "obj_get sealed id_field = JStr (prefix @ take 48 h)" and "lower_hex h"
    and "dict_keys sealed = dict_keys doc"
proof -
  note doc = assms(1) [unfolded blank_document_def dict_keys_def]
  let ?all = max_canonical_persistence_bytes
  let ?seed = "filter (\<lambda>(k, _). k \<noteq> id_field \<and> k \<noteq> ''content_hash'') doc"
  define h where "h = sha (json_text (JObj (AList.delete ''content_hash'' ?seed)))"
  define named where "named = AList.update id_field (JStr (prefix @ take 48 h)) doc"
  define h2 where "h2 = sha (json_text (JObj (AList.delete ''content_hash'' named)))"
  define sealed where "sealed = AList.update ''content_hash'' (JStr h2) named"
  have hex: "lower_hex h" "lower_hex h2" using assms(4) by (simp_all add: h_def h2_def)
  have "0 \<le> text_size prefix" by (rule text_size_nonneg)
  with assms(3) have "m \<le> ?all" "m + text_size prefix + 46 \<le> ?all" by auto
  have named: "fits (m + text_size prefix + 46) (JObj named)"
    using fits_update_text [OF assms(2), of id_field "[]" "prefix @ take 48 h"] doc derived_id_size(1) [OF hex(1)]
    by (simp add: named_def text_size_def algebra_simps)
  have "map_of named ''content_hash'' = Some (JStr [])" using doc by (auto simp: named_def update_conv')
  from fits_update_text [OF named this, of h2] derived_id_size(2) [OF hex(2)]
  have fit: "fits (m + text_size prefix + 110) (JObj sealed)"
    by (simp add: sealed_def text_size_def algebra_simps)
  have seal: "seal_document sha id_field prefix doc = Inr sealed"
    using hash_total [OF fits_filter [OF fits_mono [OF assms(2) \<open>m \<le> ?all\<close>]]]
      hash_total [OF fits_mono [OF named \<open>m + text_size prefix + 46 \<le> ?all\<close>]]
    by (simp add: seal_document_def Let_def h_def named_def h2_def sealed_def del: json_text.simps)
  have "canonical_persistence_hash sha (JObj sealed) = Inr h2"
    using hash_total [OF fits_mono [OF fit assms(3)]]
    by (simp add: sealed_def delete_update_same h2_def del: json_text.simps)
  then have matches: "content_hash_matches sha sealed = Inr ()"
    using hex(2) by (simp add: content_hash_matches_def sealed_def obj_get_def update_conv' sha256_text_def)
  have "AList.update ''content_hash'' (JStr []) (AList.update id_field (JStr []) sealed) = doc"
    unfolding sealed_def named_def by (rule blank_again [OF assms(1)])
  then have derived: "check_derived_id sha id_field prefix reason sealed = Inr ()"
    by (simp add: check_derived_id_def Let_def seal)
  have "id_field \<in> fst ` set doc" and "''content_hash'' \<in> fst ` set doc"
    using doc by (metis map_of_eq_None_iff option.distinct(1))+
  then have "dict_keys sealed = dict_keys doc"
    by (simp add: dict_keys_def sealed_def named_def update_keys dom_update)
  moreover have "obj_get sealed id_field = JStr (prefix @ take 48 h)"
    using doc by (auto simp: sealed_def named_def obj_get_def update_conv')
  ultimately show thesis using that seal fit matches derived hex(1) by blast
qed

section \<open>Comparisons of a document with itself\<close>

text \<open>A value as Python builds it: the keys of an object are distinct.\<close>

fun proper :: "json \<Rightarrow> bool" where
  "proper (JArr xs) \<longleftrightarrow> list_all proper xs"
| "proper (JObj kvs) \<longleftrightarrow> distinct (map fst kvs) \<and> list_all (\<lambda>(_, v). proper v) kvs"
| "proper _ \<longleftrightarrow> True"

lemma py_eq_refl: "proper v \<Longrightarrow> py_eq v v"
proof (induction v)
  case (JArr xs)
  then show ?case by (auto simp: py_eq.simps list_all_iff zip_same_conv_map)
next
  case (JObj kvs)
  have "py_eq v v \<and> map_of kvs k = Some v" if "(k, v) \<in> set kvs" for k v
    using that JObj.IH [of "(k, v)" v] JObj.prems by (auto simp: list_all_iff snds.simps)
  then show ?case by (auto simp: py_eq.simps [of "JObj _"] list_all_iff)
qed (simp_all add: py_eq.simps)

lemma proper_texts [simp]: "list_all proper (map JStr ss)"
  by (simp add: list_all_iff)

lemma proper_opt_str [simp]: "proper (opt_str s)"
  by (cases s) (simp_all add: opt_str_def)

lemma classification_accepted:
  assumes "classification_document found = Inr doc"
  shows "validate_classification reason (JObj doc) found = Inr ()"
proof -
  have "proper (JObj doc)" "set (dict_keys doc) = set classification_fields"
    using assms by (auto simp: classification_document_def dict_keys_def classification_fields_def)
  with py_eq_refl show ?thesis
    by (simp add: validate_classification_def object_in_def keys_are_def assms)
qed

lemma identity_shape:
  assumes "identity nfc f v i h = Inr ob"
  shows "proper (JObj ob)" and "dict_keys ob = identity_fields"
  using assms by (auto simp: identity_def dict_keys_def identity_fields_def)

lemma identities_shape:
  "pack_identity nfc pack = Inr ob \<Longrightarrow> proper (JObj ob) \<and> dict_keys ob = identity_fields"
  "document_identity nfc sha kind id_field doc = Inr ob \<Longrightarrow> proper (JObj ob) \<and> dict_keys ob = identity_fields"
  by (auto simp: pack_identity_def document_identity_def dest: identity_shape simp del: proper.simps)

lemma context_bindings_accepted:
  assumes "build_game_persistence_context nfc sha pack composition bundle adapter = Inr ctx"
  shows "validate_bindings ctx (JObj (pc_bindings ctx)) = Inr ()"
proof -
  obtain g c b s where bindings: "pc_bindings ctx =
      [(''gamepack'', JObj g), (''runtime_composition'', JObj c), (''runtime_bundle'', JObj b),
       (''runtime_api'', JObj runtime_api), (''execution_semantics'', JObj s)]"
    and s: "semantics_identity sha = Inr s"
    and shape: "proper (JObj g)" "dict_keys g = identity_fields" "proper (JObj c)" "dict_keys c = identity_fields"
      "proper (JObj b)" "dict_keys b = identity_fields"
    using assms unfolding build_game_persistence_context_def
    by (elim rbind_InrE) (auto dest!: identities_shape simp del: proper.simps)
  have "dict_keys s = [''version'', ''content_hash'']" "proper (JObj s)"
    using s by (auto simp: semantics_identity_def dict_keys_def)
  then have "proper (JObj (pc_bindings ctx))"
    using shape by (simp add: bindings runtime_api_def)
  moreover have [simp]: "dict_keys ((k, v) # d) = k # dict_keys d" "dict_keys [] = []" for k and v :: json and d
    by (simp_all add: dict_keys_def)
  ultimately show ?thesis
    using py_eq_refl [of "JObj (pc_bindings ctx)"] \<open>dict_keys s = _\<close> shape(2,4,6)
    by (simp add: validate_bindings_def bindings object_in_def keys_are_def binding_fields_def
        for_each_def check_identity_keys_def obj_get_def runtime_api_def)
qed

section \<open>Saving succeeds\<close>

lemma obj_get_sealed:
  assumes "seal_document sha id_field prefix doc = Inr sealed" and "obj_get doc k = v"
    and "k \<noteq> id_field" and "k \<noteq> ''content_hash''"
  shows "obj_get sealed k = v"
  using seal_keeps [OF assms(1,3,4)] assms(2) by simp

lemma save_documentE:
  assumes "save_document sha ctx saved restored found = Inr doc" and "restore_projection ctx (JObj saved) = Inr (restored, found)"
  obtains state where "blank_document ''save_id'' doc" and "dict_keys doc = save_fields"
    and "obj_get doc ''format'' = JStr ''world-forge.game_save''" and "obj_get doc ''format_version'' = JInt 1"
    and "obj_get doc ''bindings'' = JObj (pc_bindings ctx)" and "obj_get doc ''state'' = JObj state"
    and "obj_get state ''saved'' = JObj saved" and "check_saved_state sha ctx state = Inr ()"
proof -
  obtain sh rh cd where sh: "canonical_value_hash sha (JObj saved) = Inr sh"
    and rh: "canonical_state_hash sha restored = Inr rh" and cd: "classification_document found = Inr cd"
    and doc: "doc = [(''format'', JStr ''world-forge.game_save''), (''format_version'', JInt 1), (''save_id'', JStr []),
      (''bindings'', JObj (pc_bindings ctx)),
      (''state'', JObj [(''saved'', JObj saved), (''saved_hash'', JStr sh), (''restored_state_hash'', JStr rh),
        (''classification'', JObj cd)]), (''content_hash'', JStr [])]"
    using assms(1) by (auto simp: save_document_def)
  let ?state = "[(''saved'', JObj saved), (''saved_hash'', JStr sh), (''restored_state_hash'', JStr rh),
        (''classification'', JObj cd)]"
  have "check_saved_state sha ctx ?state = Inr ()"
    using classification_accepted [OF cd]
    by (simp add: check_saved_state_def keys_are_def dict_keys_def save_state_fields_def object_in_def obj_get_def sh rh assms(2))
  then show thesis
    by (intro that [of ?state])
      (simp_all add: doc blank_document_def dict_keys_def save_fields_def obj_get_def)
qed

lemma built_save_valid:
  assumes "build_game_save sha ctx st = Inr doc"
  shows "validate_game_save_document sha ctx (JObj doc) = Inr doc"
proof -
  obtain sealed where valid: "validate_game_save_document sha ctx (JObj sealed) = Inr doc"
    using assms by (auto simp: build_game_save_def split: prod.splits)
  moreover have "doc = sealed" by (rule save_validE [OF valid])
  ultimately show ?thesis by simp
qed

lemma save_succeeds:
  assumes "validate_bindings ctx (JObj (pc_bindings ctx)) = Inr ()" and "\<And>t. lower_hex (sha t)"
    and "validated_full_state ctx st = Inr (st, now)" and "saved_projection ctx st = Inr saved"
    and "restore_projection ctx (JObj saved) = Inr (st', found)"
    and "save_document sha ctx saved st' found = Inr doc" and "fits (max_game_save_bytes - 122) (JObj doc)"
  shows "\<exists>sealed. build_game_save sha ctx st = Inr sealed \<and> restore_game_save sha ctx (JObj sealed) = Inr st'"
proof -
  from assms(6,5) obtain state where doc: "blank_document ''save_id'' doc" "dict_keys doc = save_fields"
    "obj_get doc ''format'' = JStr ''world-forge.game_save''" "obj_get doc ''format_version'' = JInt 1"
    "obj_get doc ''bindings'' = JObj (pc_bindings ctx)" "obj_get doc ''state'' = JObj state"
    and state: "obj_get state ''saved'' = JObj saved" "check_saved_state sha ctx state = Inr ()"
    by (rule save_documentE)
  have size: "text_size ''game_save_'' = 12" by code_simp
  then have room: "max_game_save_bytes - 122 + text_size ''game_save_'' + 110 \<le> max_canonical_persistence_bytes"
    by (simp add: max_game_save_bytes_def max_canonical_persistence_bytes_def max_game_replay_bytes_def)
  obtain sealed h where seal: "seal_document sha ''save_id'' ''game_save_'' doc = Inr sealed"
    and fit: "fits (max_game_save_bytes - 122 + text_size ''game_save_'' + 110) (JObj sealed)"
    and ok: "content_hash_matches sha sealed = Inr ()"
      "check_derived_id sha ''save_id'' ''game_save_'' ''save_id_mismatch'' sealed = Inr ()"
    and id: "obj_get sealed ''save_id'' = JStr (''game_save_'' @ take 48 h)" "lower_hex h"
    and keys: "dict_keys sealed = dict_keys doc"
    by (rule seal_total [OF doc(1) assms(7) room assms(2)])
  have own: "own max_game_save_bytes (JObj sealed) = Inr (JObj sealed)"
    using fits_own [OF fit] by (simp add: size)
  have "check_save_header sealed = Inr ()"
    using obj_get_sealed [OF seal doc(3)] obj_get_sealed [OF seal doc(4)] id derived_id_size(3) [OF id(2), of "''game_save_''"]
    by (simp add: check_save_header_def keys_are_def keys doc(2) py_eq.simps)
  then have valid: "validate_game_save_document sha ctx (JObj sealed) = Inr sealed"
    using obj_get_sealed [OF seal doc(5)] obj_get_sealed [OF seal doc(6)]
    by (simp add: validate_game_save_document_def own object_in_def assms(1) state(2) ok)
  have "build_game_save sha ctx st = Inr sealed"
    by (simp add: build_game_save_def assms(3-6) seal valid)
  moreover have "restore_game_save sha ctx (JObj sealed) = Inr st'"
    by (rule restore_game_save_eq [OF valid _ state(1) assms(5)]) (use obj_get_sealed [OF seal doc(6)] in simp)
  ultimately show ?thesis by blast
qed

section \<open>Recording succeeds\<close>

lemma play_recorded_step:
  assumes "step_document nfc sha (n, r) = Inr j" and "reapplies sha gi st r"
  shows "play_step sha gi st j = Inr (tr_post_state r)"
    and "canonical_state_hash sha (tr_post_state r) = Inr (tr_post_state_hash r)"
proof -
  obtain trace where trace: "canonical_trace_step nfc sha r = Inr trace"
    and j: "j = JObj ((''index'', JInt (int n)) # trace)"
    using assms(1) by (auto simp: step_document_def)
  have r: "tr_accepted r" "apply_action sha gi st (tr_action r) = Inr (tr_post_state r, r)"
    using assms(2) by (auto simp: reapplies_def)
  then have "transition_strict sha gi st (tr_action r) = Inr r"
    using traceE(3) [OF trace] by (auto simp: apply_action_def)
  then obtain params found rules where c: "committed sha gi st (tr_action r) params found rules r"
    using transition_cases rejectedE r(1) by blast
  show "canonical_state_hash sha (tr_post_state r) = Inr (tr_post_state_hash r)" using committedD(6) [OF c] .
  show "play_step sha gi st j = Inr (tr_post_state r)"
    using candidate_of_action [OF traceE(3) [OF trace]] committedD(5) [OF c] r py_eq_refl [of "JArr (map JStr (tr_events r))"]
    by (simp add: play_step_def j traceE(4) [OF trace] obj_get_def)
qed

lemma play_recorded_steps:
  "mapR (step_document nfc sha) (enumerate n rs) = Inr steps \<Longrightarrow> traces sha gi st rs st' \<Longrightarrow>
     foldR (play_step sha gi) st steps = Inr st'"
proof (induction rs arbitrary: n steps st)
  case (Cons r rs)
  from Cons.prems(1) obtain j rest where j: "step_document nfc sha (n, r) = Inr j"
    and rest: "mapR (step_document nfc sha) (enumerate (Suc n) rs) = Inr rest" "steps = j # rest" by auto
  from Cons.prems(2) have "reapplies sha gi st r" "traces sha gi (tr_post_state r) rs st'" by simp_all
  with play_recorded_step(1) [OF j] Cons.IH [OF rest(1)] rest(2) show ?case by simp
qed simp

lemma traces_end:
  assumes "traces sha gi st rs st'" and "rs \<noteq> []" and "mapR (step_document nfc sha) (enumerate n rs) = Inr steps"
  shows "tr_post_state (last rs) = st'" and "canonical_state_hash sha st' = Inr (tr_post_state_hash (last rs))"
proof -
  obtain init r where rs: "rs = init @ [r]" using assms(2) by (metis rev_exhaust)
  from assms(1) obtain mid where r: "reapplies sha gi mid r" "st' = tr_post_state r"
    by (auto simp: rs traces_snoc)
  have "(n + length init, r) \<in> set (enumerate n rs)"
    by (simp add: rs enumerate_append_eq)
  then obtain j where "step_document nfc sha (n + length init, r) = Inr j"
    using mapR_pointwise(2) [OF assms(3)] by blast
  from play_recorded_step(2) [OF this r(1)] show "canonical_state_hash sha st' = Inr (tr_post_state_hash (last rs))"
    by (simp add: rs r(2))
  show "tr_post_state (last rs) = st'" by (simp add: rs r(2))
qed

lemma replay_documentE:
  assumes "replay_document sha ctx gi steps final_hash found = Inr doc" and "start_session gi = Inr initial"
    and "\<And>t. lower_hex (sha t)"
  obtains ih th cd where "blank_document ''replay_id'' doc" and "dict_keys doc = replay_fields"
    and "obj_get doc ''format'' = JStr ''world-forge.game_replay''" and "obj_get doc ''format_version'' = JInt 1"
    and "obj_get doc ''bindings'' = JObj (pc_bindings ctx)" and "obj_get doc ''steps'' = JArr steps"
    and "obj_get doc ''initial_state_hash'' = JStr ih" and "canonical_state_hash sha initial = Inr ih"
    and "obj_get doc ''final_state_hash'' = JStr final_hash" and "obj_get doc ''classification'' = JObj cd"
    and "classification_document found = Inr cd" and "obj_get doc ''trace_hash'' = JStr th" and "lower_hex th"
    and "canonical_value_hash sha (JObj [(''steps'', JArr steps)]) = Inr th"
proof -
  obtain ih cd th where ih: "canonical_state_hash sha initial = Inr ih" and cd: "classification_document found = Inr cd"
    and th: "canonical_value_hash sha (JObj [(''steps'', JArr steps)]) = Inr th"
    and doc: "doc = [(''format'', JStr ''world-forge.game_replay''), (''format_version'', JInt 1), (''replay_id'', JStr []),
      (''bindings'', JObj (pc_bindings ctx)), (''initial_state_hash'', JStr ih), (''steps'', JArr steps),
      (''final_state_hash'', JStr final_hash), (''classification'', JObj cd), (''trace_hash'', JStr th),
      (''content_hash'', JStr [])]"
    using assms(1,2) by (auto simp: replay_document_def start_session_def)
  have "\<exists>t. th = sha t" using th by (auto simp: canonical_value_hash_def split: json.splits)
  then have hex: "lower_hex th" using assms(3) by auto
  show thesis
    by (intro that [of ih cd th] ih cd th hex)
      (simp_all add: doc blank_document_def dict_keys_def replay_fields_def obj_get_def)
qed

lemma replay_succeeds:
  assumes "validate_bindings ctx (JObj (pc_bindings ctx)) = Inr ()" and "\<And>t. lower_hex (sha t)"
    and "serves ctx gi" and "start_session gi = Inr initial"
    and "traces sha gi initial rs final" and "int (length rs) \<le> pc_max_actions ctx"
    and "mapR (step_document nfc sha) (enumerate 0 rs) = Inr steps"
    and "for_each (check_step nfc) (enumerate 0 steps) = Inr ()"
    and "validated_full_state ctx final = Inr (final, found)" and "canonical_state_hash sha final = Inr fh"
    and "replay_document sha ctx gi steps fh found = Inr doc" and "fits (max_game_replay_bytes - 124) (JObj doc)"
  shows "\<exists>sealed. build_game_replay nfc sha ctx rs = Inr sealed \<and> play_game_replay nfc sha ctx (JObj sealed) = Inr final"
proof -
  from assms(11,4,2) obtain ih cd th where doc: "blank_document ''replay_id'' doc" "dict_keys doc = replay_fields"
    "obj_get doc ''format'' = JStr ''world-forge.game_replay''" "obj_get doc ''format_version'' = JInt 1"
    "obj_get doc ''bindings'' = JObj (pc_bindings ctx)" "obj_get doc ''steps'' = JArr steps"
    "obj_get doc ''initial_state_hash'' = JStr ih" "obj_get doc ''final_state_hash'' = JStr fh"
    "obj_get doc ''classification'' = JObj cd" "obj_get doc ''trace_hash'' = JStr th"
    and hashes: "canonical_state_hash sha initial = Inr ih" "classification_document found = Inr cd" "lower_hex th"
      "canonical_value_hash sha (JObj [(''steps'', JArr steps)]) = Inr th"
    by (rule replay_documentE)
  have size: "text_size ''game_replay_'' = 14" by code_simp
  then have room: "max_game_replay_bytes - 124 + text_size ''game_replay_'' + 110 \<le> max_canonical_persistence_bytes"
    by (simp add: max_canonical_persistence_bytes_def)
  obtain sealed h where seal: "seal_document sha ''replay_id'' ''game_replay_'' doc = Inr sealed"
    and fit: "fits (max_game_replay_bytes - 124 + text_size ''game_replay_'' + 110) (JObj sealed)"
    and ok: "content_hash_matches sha sealed = Inr ()"
      "check_derived_id sha ''replay_id'' ''game_replay_'' ''replay_id_mismatch'' sealed = Inr ()"
    and id: "obj_get sealed ''replay_id'' = JStr (''game_replay_'' @ take 48 h)" "lower_hex h"
    and keys: "dict_keys sealed = dict_keys doc"
    by (rule seal_total [OF doc(1) assms(12) room assms(2)])
  note sealed = obj_get_sealed [OF seal doc(3)] obj_get_sealed [OF seal doc(4)] obj_get_sealed [OF seal doc(5)]
    obj_get_sealed [OF seal doc(6)] obj_get_sealed [OF seal doc(7)] obj_get_sealed [OF seal doc(8)]
    obj_get_sealed [OF seal doc(9)] obj_get_sealed [OF seal doc(10)]
  have own: "own max_game_replay_bytes (JObj sealed) = Inr (JObj sealed)"
    using fits_own [OF fit] by (simp add: size)
  have header: "check_replay_header sealed = Inr ()"
    using sealed(1,2) id derived_id_size(3) [OF id(2), of "''game_replay_''"]
    by (simp add: check_replay_header_def keys_are_def keys doc(2) py_eq.simps)
  have hex: "lower_hex ih" "lower_hex fh"
    using hash_digits [OF hashes(1)] hash_digits [OF assms(10)] assms(2) by auto
  have found: "set (dict_keys cd) = set classification_fields"
    using hashes(2) by (auto simp: classification_document_def dict_keys_def classification_fields_def)
  have "length steps = length rs" using assms(7) by (auto simp: mapR_Inr dest: list_all2_lengthD)
  then have valid: "validate_game_replay_document nfc sha ctx (JObj sealed) = Inr sealed"
    using sealed assms(6) hex hashes(3,4)
    by (simp add: validate_game_replay_document_def own object_in_def header assms(1,8) ok sha256_text_def array_in_def
        keys_are_def found)
  have play: "play_game_replay nfc sha ctx (JObj sealed) = Inr final"
    using sealed validated_full_stateE(2) [OF assms(9,3)] classification_accepted [OF hashes(2)]
    by (simp add: play_game_replay_def valid servesD [OF assms(3)] assms(4,10) hashes(1)
        play_recorded_steps [OF assms(7,5)])
  have "final_of sha gi rs = Inr (final, fh)"
  proof (cases "rs = []")
    case True
    then show ?thesis using assms(4,5,10) by (simp add: final_of_def start_session_def)
  next
    case False
    then show ?thesis using traces_end [OF assms(5) False assms(7)] assms(10) by (simp add: final_of_def)
  qed
  then have "build_game_replay nfc sha ctx rs = Inr sealed"
    using assms(6) by (simp add: build_game_replay_def assms(7,9,11) servesD [OF assms(3)] seal play valid)
  with play show ?thesis by blast
qed

section \<open>When a document fits\<close>

lemma persistence_hash_hex:
  assumes "canonical_persistence_hash sha v = Inr h" and "\<And>t. lower_hex (sha t)"
  shows "lower_hex h"
  using assms by (auto simp: canonical_persistence_hash_def split: json.splits)

text \<open>The other direction of \<open>seal_total\<close>: a sealed document that fits left room for its seal.\<close>

lemma sealed_fits:
  assumes "blank_document id_field doc" and "seal_document sha id_field prefix doc = Inr sealed"
    and "\<And>t. lower_hex (sha t)" and "fits m (JObj sealed)"
  shows "fits (m - text_size prefix - 110) (JObj doc)"
proof -
  note doc = assms(1) [unfolded blank_document_def]
  obtain h h2 where hex: "lower_hex h" "lower_hex h2"
    and sealed: "sealed = AList.update ''content_hash'' (JStr h2) (AList.update id_field (JStr (prefix @ take 48 h)) doc)"
    using assms(2) persistence_hash_hex [of sha, OF _ assms(3)] by (auto simp: seal_document_def Let_def)
  let ?unnamed = "AList.update id_field (JStr []) sealed"
  have "map_of sealed id_field = Some (JStr (prefix @ take 48 h))" using doc by (simp add: sealed update_conv')
  from fits_update_text [OF assms(4) this, of "[]"] derived_id_size(1) [OF hex(1), of prefix]
  have unnamed: "fits (m - text_size prefix - 46) (JObj ?unnamed)" by (simp add: text_size_def algebra_simps)
  have "map_of ?unnamed ''content_hash'' = Some (JStr h2)" using doc by (auto simp: sealed update_conv')
  from fits_update_text [OF unnamed this, of "[]"] derived_id_size(2) [OF hex(2)]
  have "fits (m - text_size prefix - 110) (JObj (AList.update ''content_hash'' (JStr []) ?unnamed))"
    by (simp add: text_size_def algebra_simps)
  then show ?thesis unfolding sealed blank_again [OF assms(1)] .
qed

text \<open>
  A state can be saved when the context accepts it, accepts it again with its transient states reset,
  and the document leaves room for its ID and hash.
\<close>

definition savable :: "(string \<Rightarrow> string) \<Rightarrow> persistence_context \<Rightarrow> json dict \<Rightarrow> bool" where
  "savable sha ctx st \<longleftrightarrow>
     (\<exists>now saved st' found doc. validated_full_state ctx st = Inr (st, now) \<and> saved_projection ctx st = Inr saved \<and>
        restore_projection ctx (JObj saved) = Inr (st', found) \<and> save_document sha ctx saved st' found = Inr doc \<and>
        fits (max_game_save_bytes - 122) (JObj doc))"

lemma build_game_saveE:
  assumes "build_game_save sha ctx st = Inr sealed" and "serves ctx gi" and "\<And>t. lower_hex (sha t)"
  obtains now saved st' found doc where "validated_full_state ctx st = Inr (st, now)"
    and "saved_projection ctx st = Inr saved" and "restore_projection ctx (JObj saved) = Inr (st', found)"
    and "save_document sha ctx saved st' found = Inr doc" and "fits (max_game_save_bytes - 122) (JObj doc)"
proof -
  obtain checked now saved st' found doc sealed' where full: "validated_full_state ctx st = Inr (checked, now)"
    and parts: "saved_projection ctx checked = Inr saved" "restore_projection ctx (JObj saved) = Inr (st', found)"
      "save_document sha ctx saved st' found = Inr doc" "seal_document sha ''save_id'' ''game_save_'' doc = Inr sealed'"
    and valid: "validate_game_save_document sha ctx (JObj sealed') = Inr sealed"
    using assms(1) by (auto simp: build_game_save_def)
  have st: "checked = st" by (rule validated_full_stateE(1) [OF full assms(2)])
  from valid have "fits max_game_save_bytes (JObj sealed')" by (auto simp: validate_game_save_document_def own_iff)
  moreover have "blank_document ''save_id'' doc" by (rule save_documentE [OF parts(3,2)])
  moreover have "text_size ''game_save_'' = 12" by code_simp
  ultimately have "fits (max_game_save_bytes - 122) (JObj doc)"
    using sealed_fits [OF _ parts(4) assms(3), of max_game_save_bytes] by simp
  then show thesis using that full parts(1-3) unfolding st by blast
qed

lemma save_iff:
  assumes "validate_bindings ctx (JObj (pc_bindings ctx)) = Inr ()" and "\<And>t. lower_hex (sha t)" and "serves ctx gi"
  shows "(\<exists>sealed. build_game_save sha ctx st = Inr sealed) \<longleftrightarrow> savable sha ctx st"
proof
  assume "\<exists>sealed. build_game_save sha ctx st = Inr sealed"
  then obtain sealed where "build_game_save sha ctx st = Inr sealed" ..
  from build_game_saveE [OF this assms(3,2)] show "savable sha ctx st" unfolding savable_def by metis
next
  assume "savable sha ctx st"
  then show "\<exists>sealed. build_game_save sha ctx st = Inr sealed"
    unfolding savable_def by (elim exE conjE) (use save_succeeds [OF assms(1), of sha, OF assms(2)] in blast)
qed

text \<open>
  A recording can be finished when its steps pass the checks of a replay, the context accepts the
  state it ends in, and the document leaves room for its ID and hash.
\<close>

definition finishable ::
  "(string \<Rightarrow> bool) \<Rightarrow> (string \<Rightarrow> string) \<Rightarrow> persistence_context \<Rightarrow> interpreter \<Rightarrow> recording \<Rightarrow> bool" where
  "finishable nfc sha ctx gi s \<longleftrightarrow>
     (\<exists>steps found final_hash doc. mapR (step_document nfc sha) (enumerate 0 (rs_results s)) = Inr steps \<and>
        for_each (check_step nfc) (enumerate 0 steps) = Inr () \<and>
        validated_full_state ctx (rs_state s) = Inr (rs_state s, found) \<and>
        canonical_state_hash sha (rs_state s) = Inr final_hash \<and>
        replay_document sha ctx gi steps final_hash found = Inr doc \<and> fits (max_game_replay_bytes - 124) (JObj doc))"

lemma build_game_replayE:
  assumes "build_game_replay nfc sha ctx rs = Inr sealed" and "serves ctx gi" and "\<And>t. lower_hex (sha t)"
    and "start_session gi = Inr initial" and "traces sha gi initial rs final"
  obtains steps found fh doc where "mapR (step_document nfc sha) (enumerate 0 rs) = Inr steps"
    and "for_each (check_step nfc) (enumerate 0 steps) = Inr ()"
    and "validated_full_state ctx final = Inr (final, found)" and "canonical_state_hash sha final = Inr fh"
    and "replay_document sha ctx gi steps fh found = Inr doc" and "fits (max_game_replay_bytes - 124) (JObj doc)"
    and "play_game_replay nfc sha ctx (JObj sealed) = Inr final"
proof -
  obtain steps last_state fh checked found doc sealed' played where steps: "mapR (step_document nfc sha) (enumerate 0 rs) = Inr steps"
    and last: "final_of sha gi rs = Inr (last_state, fh)"
    and full: "validated_full_state ctx last_state = Inr (checked, found)"
    and doc: "replay_document sha ctx gi steps fh found = Inr doc"
    and seal: "seal_document sha ''replay_id'' ''game_replay_'' doc = Inr sealed'"
    and play: "play_game_replay nfc sha ctx (JObj sealed') = Inr played"
    and valid: "validate_game_replay_document nfc sha ctx (JObj sealed') = Inr sealed"
    using assms(1) servesD [OF assms(2)] by (auto simp: build_game_replay_def)
  have final: "last_state = final" "canonical_state_hash sha final = Inr fh"
    using last assms(4,5) traces_end [OF assms(5) _ steps]
    by (auto simp: final_of_def start_session_def split: if_splits)
  have full: "validated_full_state ctx final = Inr (final, found)"
    using full validated_full_stateE(1) [OF full assms(2)] by (simp add: final(1))
  have blank: "blank_document ''replay_id'' doc" and listed: "obj_get doc ''steps'' = JArr steps"
    by (rule replay_documentE [OF doc assms(4,3)], assumption)+
  obtain steps' where sealed: "sealed = sealed'" and steps': "obj_get sealed' ''steps'' = JArr steps'"
    and checks: "for_each (check_step nfc) (enumerate 0 steps') = Inr ()"
    by (rule replay_validE [OF valid])
  have same: "steps' = steps" using steps' obj_get_sealed [OF seal listed] by simp
  from valid have "fits max_game_replay_bytes (JObj sealed')" by (auto simp: validate_game_replay_document_def own_iff)
  moreover have "text_size ''game_replay_'' = 14" by code_simp
  ultimately have fit: "fits (max_game_replay_bytes - 124) (JObj doc)"
    using sealed_fits [OF blank seal assms(3), of max_game_replay_bytes] by simp
  obtain steps2 where "obj_get sealed' ''steps'' = JArr steps2" and "foldR (play_step sha gi) initial steps2 = Inr played"
    using playE [OF play assms(2)] assms(4) by (metis sum.inject(2))
  then have "played = final" using play_recorded_steps [OF steps assms(5)] steps' same by simp
  with that steps checks full final(2) doc fit play show thesis unfolding same sealed by blast
qed

lemma finish_iff:
  assumes "validate_bindings ctx (JObj (pc_bindings ctx)) = Inr ()" and "\<And>t. lower_hex (sha t)" and "serves ctx gi"
    and "start_session gi = Inr initial" and "traces sha gi initial (rs_results s) (rs_state s)"
    and "int (length (rs_results s)) \<le> pc_max_actions ctx"
  shows "(\<exists>sealed. finish_recording nfc sha ctx s = Inr sealed) \<longleftrightarrow> finishable nfc sha ctx gi s"
proof
  assume "\<exists>sealed. finish_recording nfc sha ctx s = Inr sealed"
  then obtain sealed where "build_game_replay nfc sha ctx (rs_results s) = Inr sealed"
    by (auto simp: finish_recording_def)
  from build_game_replayE [OF this assms(3,2,4,5)] show "finishable nfc sha ctx gi s"
    unfolding finishable_def by metis
next
  assume "finishable nfc sha ctx gi s"
  then show "\<exists>sealed. finish_recording nfc sha ctx s = Inr sealed"
    unfolding finishable_def finish_recording_def
    by (elim exE conjE) (use replay_succeeds [OF assms(1), of sha, OF assms(2-6)] in blast)
qed

end
