(* ===== verification/PersistenceErrors.thy ===== *)
theory PersistenceErrors
  imports PersistenceRuns
begin

text \<open>
  Which errors documents can cause. A save or a replay is read from a file that anyone may have
  edited: whatever JSON value it is, restoring and playing either succeed or end in a
  \<open>GameLogicError\<close>, never in an exception of Python itself.
\<close>

section \<open>Checked values and hashes\<close>

lemma outcome_prodI: "(\<And>a b. x = (a, b) \<Longrightarrow> outcome E P (f a b)) \<Longrightarrow> outcome E P (case x of (a, b) \<Rightarrow> f a b)"
  by (cases x) simp

lemma outcome_rbindI:
  assumes "outcome E Q m" and "\<And>x. m = Inr x \<Longrightarrow> Q x \<Longrightarrow> outcome E P (f x)"
  shows "outcome E P (rbind m f)"
  using assms by (cases m) auto

named_theorems checks_fail_cleanly "operations that raise game errors only"

lemma value_errors [checks_fail_cleanly]:
  "only_game_errors (object_in j)" "only_game_errors (array_in m j)" "only_game_errors (sha256_text j)"
  "only_game_errors (nfc_text nfc m j)" "only_game_errors (keys_are ob expected)"
  "only_game_errors (reject bad reason detail)"
  by (auto simp: object_in_def array_in_def sha256_text_def nfc_text_def keys_are_def outcome_simps split: json.split)

lemma own_errors [checks_fail_cleanly]: "only_game_errors (own m v)"
  unfolding own_def snapshot_plain_json_def by (intro outcome_True_rbind snapshot_graph_errors) simp

lemma hash_errors [checks_fail_cleanly]:
  "only_game_errors (canonical_persistence_hash sha v)" "only_game_errors (canonical_value_hash sha v)"
  unfolding canonical_persistence_hash_def canonical_value_hash_def persistence_bytes_def
  by (intro outcome_splits own_errors; simp)+

lemma document_errors [checks_fail_cleanly]:
  "only_game_errors (content_hash_matches sha doc)" "only_game_errors (seal_document sha id_field prefix doc)"
  "only_game_errors (check_derived_id sha id_field prefix reason doc)"
  unfolding content_hash_matches_def seal_document_def check_derived_id_def Let_def
  by (intro outcome_True_rbind checks_fail_cleanly; simp)+

lemma for_each_errors:
  "(\<And>x. x \<in> set xs \<Longrightarrow> only_game_errors (check x)) \<Longrightarrow> only_game_errors (for_each check xs)"
  unfolding for_each_def by (rule outcome_foldR) auto

lemma binding_errors [checks_fail_cleanly]: "only_game_errors (validate_bindings ctx v)"
  unfolding validate_bindings_def check_identity_keys_def
  by (intro outcome_True_rbind for_each_errors checks_fail_cleanly)

lemma classification_errors [checks_fail_cleanly]:
  "only_game_errors (validate_classification reason v found)"
  unfolding validate_classification_def classification_document_def terminal_def
  by (intro outcome_True_rbind checks_fail_cleanly; simp)

lemma state_bytes_errors [checks_fail_cleanly]:
  "only_game_errors (snapshot_strict_state st)" "only_game_errors (canonical_state_bytes st)"
  "only_game_errors (canonical_state_hash sha st)" "only_game_errors (snapshot_strict_candidate c)"
proof -
  have snapshot: "only_game_errors (snapshot_plain_json m v)" for m v
    using own_errors by (simp add: own_def)
  have "only_game_errors (check_state_value kv)" for kv
    by (cases kv) (simp add: check_state_value_def outcome_simps split: json.split)
  then show bytes: "only_game_errors (canonical_state_bytes st)"
    unfolding canonical_state_bytes_def canonical_bytes_owned_def
    by (intro outcome_True_rbind snapshot outcome_foldR checks_fail_cleanly; simp)
  show "only_game_errors (snapshot_strict_state st)" "only_game_errors (snapshot_strict_candidate c)"
    unfolding snapshot_strict_state_def snapshot_strict_candidate_def
    by (intro outcome_True_rbind snapshot checks_fail_cleanly; simp)+
  show "only_game_errors (canonical_state_hash sha st)"
    unfolding canonical_state_hash_def by (intro outcome_True_rbind bytes) simp
qed

section \<open>Restoring\<close>

lemma schema_errors [checks_fail_cleanly]: "only_game_errors (saved_schema ctx)"
  unfolding saved_schema_def by (intro outcome_True_rbind outcome_mapR checks_fail_cleanly)

lemma constant_kept_errors:
  assumes "schema_id r = Inr sid" and "is_constant r \<Longrightarrow> map_of st sid \<noteq> None"
  shows "only_game_errors (constant_kept st r)"
  using assms by (auto simp: constant_kept_def dict_at_def outcome_simps)

lemma full_state_errors:
  assumes "serves ctx gi" and "well_shaped gi"
  shows "only_game_errors (validated_full_state ctx st)"
proof -
  have constants: "only_game_errors (for_each (constant_kept st) schema)"
    if found: "classify gi st = Inr found" and schema: "saved_schema ctx = Inr schema" for found schema
  proof (rule for_each_errors)
    fix r assume "r \<in> set schema"
    then obtain sid where sid: "(sid, r) \<in> set (gi_schema gi)"
      using saved_schema_eq [OF assms(1) schema] by auto
    have "fst ` set st = fst ` set (gi_schema gi)"
      using classifyE(2) [OF found] by (simp add: in_schema_def dict_keys_def)
    with imageI [OF sid, of fst] have "map_of st sid \<noteq> None" by (simp add: map_of_eq_None_iff)
    then show "only_game_errors (constant_kept st r)"
      by (intro constant_kept_errors [OF schema_ids [OF assms(1) sid]])
  qed
  show ?thesis
    unfolding validated_full_state_def servesD [OF assms(1)] rbind_Inr
    using constants
    by (intro outcome_True_rbind checks_fail_cleanly classify_errors assms serves_constructed [OF assms(1)];
        auto simp: snapshot_strict_state_def)
qed

lemma projection_errors:
  assumes "serves ctx gi" and "well_shaped gi" and "start_session gi = Inr initial"
  shows "only_game_errors (restore_projection ctx v)"
proof -
  let ?kept = "filter (is_saved \<circ> snd) (gi_schema gi)"
  have over: "only_game_errors (foldR (overwrite saved) initial (filter is_saved schema))"
    if schema: "saved_schema ctx = Inr schema" and keys: "set (dict_keys saved) = set ids"
      and ids: "mapR schema_id (filter is_saved schema) = Inr ids"
    for saved schema ids
  proof (rule outcome_foldR)
    fix st r assume "r \<in> set (filter is_saved schema)"
    then obtain sid where sid: "(sid, r) \<in> set ?kept"
      using saved_schema_eq [OF assms(1) schema] by auto
    have id: "schema_id r = Inr sid" using schema_ids [OF assms(1)] sid by auto
    have "ids = map fst ?kept"
      using ids schema_ids_all [OF assms(1)] by (simp add: saved_schema_eq [OF assms(1) schema])
    with keys imageI [OF sid, of fst] have "sid \<in> fst ` set saved" by (simp add: dict_keys_def)
    then obtain w where "map_of saved sid = Some w" by (meson map_of_eq_None_iff option.exhaust)
    with id show "only_game_errors (overwrite saved st r)"
      unfolding overwrite_def
      by (intro outcome_True_rbind constant_kept_errors) (auto simp: saved_entry_def dict_at_def)
  qed simp
  have ids: "only_game_errors (mapR schema_id (filter is_saved schema))" if "saved_schema ctx = Inr schema" for schema
    using schema_ids_all [OF assms(1)] by (simp add: saved_schema_eq [OF assms(1) that])
  show ?thesis
    unfolding restore_projection_def Let_def servesD [OF assms(1)] assms(3) [unfolded start_session_def] rbind_Inr
    using over ids
    by (intro outcome_True_rbind checks_fail_cleanly full_state_errors [OF assms(1,2)]; auto simp: assms(3) [unfolded start_session_def])
qed

lemma check_saved_errors:
  assumes "serves ctx gi" and "well_shaped gi" and "start_session gi = Inr initial"
  shows "only_game_errors (check_saved_state sha ctx state)"
  unfolding check_saved_state_def
  by (intro outcome_True_rbind checks_fail_cleanly projection_errors [OF assms] outcome_prodI)

lemma validate_save_errors:
  assumes "serves ctx gi" and "well_shaped gi" and "start_session gi = Inr initial"
  shows "only_game_errors (validate_game_save_document sha ctx v)"
  unfolding validate_game_save_document_def check_save_header_def
  by (intro outcome_True_rbind checks_fail_cleanly check_saved_errors [OF assms]) simp

lemma restore_errors:
  assumes "serves ctx gi" and "well_shaped gi" and "start_session gi = Inr initial"
  shows "only_game_errors (restore_game_save sha ctx v)"
proof (cases "validate_game_save_document sha ctx v")
  case (Inl e)
  with validate_save_errors [OF assms, of sha v] show ?thesis by (simp add: restore_game_save_def)
next
  case (Inr doc)
  then obtain d where v: "v = JObj d"
    by (auto simp: validate_game_save_document_def object_in_def dest!: own_Inr split: json.splits)
  obtain state where d: "doc = d" and state: "obj_get d ''state'' = JObj state"
    and saved: "check_saved_state sha ctx state = Inr ()"
    by (rule save_validE [OF Inr [unfolded v]])
  obtain saved where "obj_get state ''saved'' = JObj saved" by (rule saved_stateE [OF saved])
  with d state Inr obj_get_Some [OF state] obj_get_Some [OF this] show ?thesis
    by (auto simp: restore_game_save_def dict_at_def object_in_def intro!: outcome_True_rbind projection_errors [OF assms])
qed

section \<open>Playing\<close>

lemma candidate_of_errors [checks_fail_cleanly]: "only_game_errors (candidate_of a p)"
proof -
  have "only_game_errors (snapshot_plain_json m v)" for m v
    using own_errors by (simp add: own_def)
  then show ?thesis
    by (auto simp: candidate_of_def checks_fail_cleanly split: json.split intro!: outcome_True_rbind)
qed

lemma check_step_errors: "only_game_errors (check_step nfc (n, raw))"
  unfolding check_step_def case_prod_conv
  by (intro outcome_True_rbind outcome_mapR checks_fail_cleanly) simp

lemma validate_replay_errors [checks_fail_cleanly]: "only_game_errors (validate_game_replay_document nfc sha ctx v)"
  unfolding validate_game_replay_document_def check_replay_header_def
  by (intro outcome_True_rbind for_each_errors checks_fail_cleanly) (auto intro: check_step_errors)

lemma play_step_outcome:
  assumes "constructed gi" and "well_shaped gi" and "session_state gi st"
  shows "outcome game_error (session_state gi) (play_step sha gi st (JObj step))"
proof -
  have "outcome game_error (\<lambda>(st', r). session_state gi st') (apply_action sha gi st c)"
    if "candidate_of a p = Inr c" for a p c
  proof -
    have "snapshot_strict_candidate c = Inr c"
      using that by (auto simp: candidate_of_def snapshot_strict_candidate_def split: json.splits)
    from apply_action_ok [OF assms(2,1,3) this, of sha] show ?thesis by auto
  qed
  note moved = outcome_rbindI [OF this, where P = "session_state gi"]
  show ?thesis
    unfolding play_step_def as_simps rbind_Inr
    by (rule moved, assumption, force simp: outcome_simps | rule outcome_True_rbind checks_fail_cleanly)+
qed

lemma checked_steps:
  assumes "for_each (check_step nfc) (enumerate n steps) = Inr ()" and "j \<in> set steps"
  shows "\<exists>step. j = JObj step"
proof -
  from assms(2) have "j \<in> snd ` set (enumerate n steps)" by (metis map_snd_enumerate set_map)
  with assms(1) obtain i where "check_step nfc (i, j) = Inr ()" by (auto simp: for_each_unit)
  then show ?thesis by (auto simp: check_step_def object_in_def split: json.splits)
qed

lemma play_errors:
  assumes "serves ctx gi" and "well_shaped gi" and "start_session gi = Inr initial" and "session_state gi initial"
  shows "only_game_errors (play_game_replay nfc sha ctx v)"
proof (cases "validate_game_replay_document nfc sha ctx v")
  case (Inl e)
  with validate_replay_errors [of nfc sha ctx v] show ?thesis by (simp add: play_game_replay_def)
next
  case (Inr doc)
  then obtain d where v: "v = JObj d"
    by (auto simp: validate_game_replay_document_def object_in_def dest!: own_Inr split: json.splits)
  obtain steps where doc: "doc = d" and steps: "obj_get d ''steps'' = JArr steps"
    and checked: "for_each (check_step nfc) (enumerate 0 steps) = Inr ()"
    by (rule replay_validE [OF Inr [unfolded v]])
  have "outcome game_error (session_state gi) (foldR (play_step sha gi) initial steps)"
    using checked_steps [OF checked] assms(4)
    by (intro outcome_foldR) (use play_step_outcome [OF serves_constructed [OF assms(1)] assms(2)] in auto)
  then have fold: "only_game_errors (foldR (play_step sha gi) initial steps)" by (rule outcome_mono) simp
  show ?thesis
    unfolding play_game_replay_def Inr rbind_Inr doc steps as_simps servesD [OF assms(1)] assms(3)
    by (intro outcome_True_rbind checks_fail_cleanly fold classify_errors [OF assms(2) serves_constructed [OF assms(1)]]) simp
qed

end
