(* ===== verification/PersistenceTheorems.thy ===== *)
theory PersistenceTheorems
  imports SealedDocuments PersistenceErrors Gatehouse
begin

text \<open>
  The properties of the saves and replays of gamepacks, applied to a bundle of \<^theory_text>\<open>Gatehouse\<close>: its
  four documents reference each other, and everything has the hash that \<^const>\<open>hex_sha\<close> gives.
\<close>

section \<open>A bundle\<close>

definition any_nfc :: "string \<Rightarrow> bool" where
  "any_nfc s = True"

definition gate_identity :: "string \<Rightarrow> int \<Rightarrow> string \<Rightarrow> json" where
  "gate_identity kind version i = JObj
     [(''format'', JStr (''world-forge.'' @ kind)), (''format_version'', JInt version), (''id'', JStr i),
      (''content_hash'', JStr (hex_sha []))]"

definition gate_document :: "string \<Rightarrow> string \<Rightarrow> string \<Rightarrow> (string \<times> json) list \<Rightarrow> json" where
  "gate_document kind id_field i rest = JObj
     ([(''format'', JStr (''world-forge.'' @ kind)), (''format_version'', JInt 1), (id_field, JStr i),
       (''content_hash'', JStr (hex_sha []))] @ rest)"

definition gate_bundle_id :: string where
  "gate_bundle_id = ''game_runtime_bundle_'' @ take 48 (hex_sha [])"

definition gate_composition :: json where
  "gate_composition = gate_document ''game_runtime_composition'' ''composition_id'' ''whole_game''
     [(''gamepack'', gate_identity ''gamepack'' 1 ''gatehouse''),
      (''adapter'', gate_identity ''runtime_adapter'' 1 ''text_adapter'')]"

definition gate_bundle :: json where
  "gate_bundle = gate_document ''game_runtime_bundle'' ''bundle_id'' gate_bundle_id
     [(''contracts'', JObj
        [(''gamepack'', gate_identity ''gamepack'' 1 ''gatehouse''),
         (''runtime_composition'', gate_identity ''game_runtime_composition'' 1 ''whole_game''),
         (''runtime_adapter'', gate_identity ''runtime_adapter'' 1 ''text_adapter'')]),
      (''runtime_snapshot_tree'', JObj [(''runtime_api'', JObj runtime_api)])]"

definition gate_adapter :: json where
  "gate_adapter = gate_document ''runtime_adapter'' ''adapter_id'' ''text_adapter''
     [(''implementation'', JObj [(''runtime_api'', JObj runtime_api)]),
      (''execution_semantics'', JObj [(''version'', JInt 1), (''content_hash'', JStr (hex_sha []))]),
      (''budgets'', JObj [(''max_actions'', JInt 8), (''max_state_bytes'', JInt 4096)])]"

definition gate_context :: persistence_context where
  "gate_context =
     \<lparr>pc_gamepack = gatehouse_pack,
      pc_adapter = (case gate_adapter of JObj ob \<Rightarrow> ob),
      pc_bindings =
        [(''gamepack'', gate_identity ''gamepack'' 1 ''gatehouse''),
         (''runtime_composition'', gate_identity ''game_runtime_composition'' 1 ''whole_game''),
         (''runtime_bundle'', gate_identity ''game_runtime_bundle'' 1 gate_bundle_id),
         (''runtime_api'', JObj runtime_api),
         (''execution_semantics'', JObj [(''version'', JInt 1), (''content_hash'', JStr (hex_sha []))])],
      pc_max_actions = 8, pc_max_state_bytes = 4096\<rparr>"

lemma gate_context_built:
  "build_game_persistence_context any_nfc hex_sha gatehouse_pack gate_composition gate_bundle gate_adapter =
     Inr gate_context"
  by code_simp

lemma gate_serves: "make_interpreter (pc_gamepack gate_context) None = Inr gatehouse"
  by (simp add: gate_context_def gatehouse_made)

lemma gate_started: "start_session gatehouse = Inr gate_initial"
proof -
  have "\<not> isl (gp_validate_state gatehouse gate_initial)" by code_simp
  moreover have "obj_get (gi_logic gatehouse) ''initial_state'' = JObj gate_initial" by code_simp
  ultimately show ?thesis by (auto simp: start_session_def gp_initial_state_def not_isl)
qed

text \<open>What the context computes, with its interpreter at hand.\<close>

definition gate_full :: "json dict \<Rightarrow> (json dict \<times> classification) res" where
  "gate_full st =
     rbind (snapshot_strict_state st) (\<lambda>checked.
     rbind (canonical_state_bytes checked) (\<lambda>encoded.
     rbind (reject (4096 < int (length encoded)) ''state_bytes_exceeded''
              ''state exceeds the adapter state-byte budget'') (\<lambda>_.
     rbind (classify gatehouse checked) (\<lambda>found.
     rbind (saved_schema gate_context) (\<lambda>schema.
     rbind (for_each (constant_kept checked) schema) (\<lambda>_. Inr (checked, found)))))))"

lemma gate_full_eq: "validated_full_state gate_context = gate_full"
  by (rule ext) (simp add: validated_full_state_def gate_full_def gate_serves, simp add: gate_context_def)

definition gate_restore :: "json dict \<Rightarrow> (json dict \<times> classification) res" where
  "gate_restore projection =
     rbind (saved_schema gate_context) (\<lambda>schema.
     let expected = filter is_saved schema in
     rbind (mapR schema_id expected) (\<lambda>ids.
     rbind (reject (set (dict_keys projection) \<noteq> set ids) ''save_state_keys_mismatch''
              ''saved-state keys do not exactly match persistence:saved state'') (\<lambda>_.
     rbind (foldR (overwrite projection) gate_initial expected) gate_full)))"

lemma gate_restore_eq: "restore_projection gate_context (JObj saved) = gate_restore saved"
  using gate_started
  by (simp add: restore_projection_def gate_restore_def gate_serves gate_full_eq object_in_def start_session_def)

definition gate_saved :: "json dict" where
  "gate_saved = [(''bag'', JArr []), (''gate'', JStr ''closed''), (''keeper'', JStr ''ana'')]"

lemma gate_projects: "saved_projection gate_context tired_state = Inr gate_saved"
  by code_simp

lemma gate_restores: "\<exists>found. gate_restore gate_saved = Inr (gate_initial, found)"
proof -
  have "case gate_restore gate_saved of Inr (st, _) \<Rightarrow> st = gate_initial | _ \<Rightarrow> False" by code_simp
  then show ?thesis by (auto split: sum.splits)
qed

lemma hex_sha_hex: "lower_hex (hex_sha t)"
  by (simp add: lower_hex_def hex_sha_def list_all_iff)

lemma gate_accepts: "\<exists>now. validated_full_state gate_context tired_state = Inr (tired_state, now)"
proof -
  have "\<not> isl (gate_full tired_state)" by code_simp
  then obtain st now where full: "validated_full_state gate_context tired_state = Inr (st, now)"
    by (auto simp: not_isl gate_full_eq)
  with validated_full_stateE(1) [OF full gate_serves [folded serves_def]] show ?thesis by blast
qed

lemma gate_save_fits:
  "\<exists>found doc fitting. restore_projection gate_context (JObj gate_saved) = Inr (gate_initial, found) \<and>
     save_document hex_sha gate_context gate_saved gate_initial found = Inr doc \<and>
     own (max_game_save_bytes - 122) (JObj doc) = Inr fitting"
proof -
  obtain found where found: "gate_restore gate_saved = Inr (gate_initial, found)" using gate_restores by blast
  have "\<not> isl (rbind (gate_restore gate_saved) (\<lambda>(st, found).
      rbind (save_document hex_sha gate_context gate_saved st found) (\<lambda>doc. own (max_game_save_bytes - 122) (JObj doc))))"
    by code_simp
  then show ?thesis by (auto simp: gate_restore_eq found not_isl)
qed

lemma gate_save:
  "\<exists>sealed. build_game_save hex_sha gate_context tired_state = Inr sealed \<and>
     restore_game_save hex_sha gate_context (JObj sealed) = Inr gate_initial"
  using save_succeeds [OF context_bindings_accepted [OF gate_context_built] hex_sha_hex _ gate_projects]
    gate_accepts gate_save_fits by (auto simp: own_iff)

definition gate_taken :: "json dict" where
  "gate_taken = [(''bag'', JArr [JStr ''key'']), (''gate'', JStr ''closed''), (''keeper'', JStr ''ana''), (''turns'', JInt 1)]"

text \<open>A refused action and a committed one.\<close>

definition gate_recorded :: recording where
  "gate_recorded =
     \<lparr>rs_state = gate_taken,
      rs_results =
        [\<lparr>tr_accepted = True, tr_action = take_key, tr_pre_state = gate_initial, tr_post_state = gate_taken,
          tr_pre_state_hash = hex_sha [], tr_post_state_hash = hex_sha [], tr_events = [''item_taken''],
          tr_rejection_reason = None\<rparr>]\<rparr>"

lemma gate_records:
  "foldR (recording_step any_nfc hex_sha gate_context gatehouse) \<lparr>rs_state = gate_initial, rs_results = []\<rparr>
     [gate_act ''fly'' [], take_key] = Inr gate_recorded"
  by code_simp

lemma gate_recording_starts: "start_recording gatehouse = Inr \<lparr>rs_state = gate_initial, rs_results = []\<rparr>"
  by (simp add: start_recording_def gate_started)

lemma gate_replay_fits:
  "\<exists>steps found fh doc fitting.
     mapR (step_document any_nfc hex_sha) (enumerate 0 (rs_results gate_recorded)) = Inr steps \<and>
     for_each (check_step any_nfc) (enumerate 0 steps) = Inr () \<and>
     validated_full_state gate_context (rs_state gate_recorded) = Inr (rs_state gate_recorded, found) \<and>
     canonical_state_hash hex_sha (rs_state gate_recorded) = Inr fh \<and>
     replay_document hex_sha gate_context gatehouse steps fh found = Inr doc \<and>
     own (max_game_replay_bytes - 124) (JObj doc) = Inr fitting"
proof -
  have "case rbind (mapR (step_document any_nfc hex_sha) (enumerate 0 (rs_results gate_recorded))) (\<lambda>steps.
      rbind (for_each (check_step any_nfc) (enumerate 0 steps)) (\<lambda>_.
      rbind (gate_full (rs_state gate_recorded)) (\<lambda>(st, found).
      rbind (canonical_state_hash hex_sha (rs_state gate_recorded)) (\<lambda>fh.
      rbind (replay_document hex_sha gate_context gatehouse steps fh found) (\<lambda>doc.
      rbind (own (max_game_replay_bytes - 124) (JObj doc)) (\<lambda>_. Inr st)))))) of
      Inr st \<Rightarrow> st = rs_state gate_recorded | Inl _ \<Rightarrow> False" by code_simp
  then show ?thesis by (auto simp: gate_full_eq split: sum.splits)
qed

section \<open>Properties\<close>

text \<open>C31. Saving works and loses only what is declared transient. Whatever \<open>build_game_save\<close> returns,
  restoring it gives the saved states as they were and the others as the pack starts with, and a
  session accepts the result. It returns a document exactly for the states that the context
  accepts, that it accepts again with the transient states reset, and whose document fits in 256 KiB
  with its ID and hash (\<^const>\<open>savable\<close>): neither the seal nor the validation of the sealed
  document ever refuses one of these.\<close>

theorem saving_keeps_the_saved_states:
  assumes "build_game_persistence_context nfc sha pack composition bundle adapter = Inr ctx"
    and "make_interpreter (pc_gamepack ctx) None = Inr gi" and "start_session gi = Inr initial"
    and "\<And>t. lower_hex (sha t)"
  shows "((\<exists>sealed. build_game_save sha ctx st = Inr sealed) \<longleftrightarrow> savable sha ctx st) \<and>
    (\<forall>sealed. build_game_save sha ctx st = Inr sealed \<longrightarrow>
       (\<exists>st'. restore_game_save sha ctx (JObj sealed) = Inr st' \<and> restore_state gi st' = Inr st' \<and>
          (\<forall>sid. map_of st' sid = (if saved_state gi sid then map_of st sid else map_of initial sid))))"
proof (intro conjI allI impI)
  have gi: "serves ctx gi" using assms(2) by (simp add: serves_def)
  have initial: "gp_initial_state gi = Inr initial" using assms(3) by (simp add: start_session_def)
  note bindings = context_bindings_accepted [OF assms(1)]
  show "(\<exists>sealed. build_game_save sha ctx st = Inr sealed) \<longleftrightarrow> savable sha ctx st"
    by (rule save_iff [OF bindings assms(4) gi])
  fix sealed assume build: "build_game_save sha ctx st = Inr sealed"
  obtain now saved st' found doc where full: "validated_full_state ctx st = Inr (st, now)"
    and saved: "saved_projection ctx st = Inr saved" and restored: "restore_projection ctx (JObj saved) = Inr (st', found)"
    and doc: "save_document sha ctx saved st' found = Inr doc" "fits (max_game_save_bytes - 122) (JObj doc)"
    by (rule build_game_saveE [OF build gi assms(4)])
  have "restore_game_save sha ctx (JObj sealed) = Inr st'"
    using save_succeeds [OF bindings, of sha, OF assms(4) full saved restored doc] build by auto
  moreover note projected = restore_projectionE [OF restored gi initial]
  moreover from projected(1) have "restore_state gi st' = Inr st'" by (rule validated_full_stateE(3) [OF _ gi])
  ultimately show "\<exists>st'. restore_game_save sha ctx (JObj sealed) = Inr st' \<and> restore_state gi st' = Inr st' \<and>
      (\<forall>sid. map_of st' sid = (if saved_state gi sid then map_of st sid else map_of initial sid))"
    using saved_projectionE [OF saved gi] by auto
qed

lemma gate_savable: "savable hex_sha gate_context tired_state"
  using gate_accepts gate_projects gate_save_fits unfolding savable_def own_iff by metis

theorem saving_keeps_the_saved_states_witness:
  "\<exists>sealed st'. build_game_save hex_sha gate_context tired_state = Inr sealed \<and>
     restore_game_save hex_sha gate_context (JObj sealed) = Inr st' \<and>
     map_of st' ''turns'' = map_of gate_initial ''turns''"
proof -
  note saving = saving_keeps_the_saved_states [OF gate_context_built gate_serves gate_started hex_sha_hex, of tired_state]
  obtain sealed where "build_game_save hex_sha gate_context tired_state = Inr sealed"
    using saving gate_savable by blast
  moreover from this obtain st' where "restore_game_save hex_sha gate_context (JObj sealed) = Inr st'"
    and "\<forall>sid. map_of st' sid = (if saved_state gatehouse sid then map_of tired_state sid else map_of gate_initial sid)"
    using saving by blast
  moreover have "\<not> saved_state gatehouse ''turns''" by code_simp
  ultimately show ?thesis by auto
qed

text \<open>C32. No document can smuggle a state in: whatever object the validation of saves accepts, it
  names the gamepack, the composition, the bundle and the runtime of the context; restoring it
  succeeds and gives a state that the session's own \<open>restore\<close> accepts, within the adapter's byte
  budget, whose saved part is the document's and whose other states are the pack's initial ones.\<close>

theorem accepted_saves_are_safe:
  assumes "validate_game_save_document sha ctx (JObj d) = Inr doc"
    and "make_interpreter (pc_gamepack ctx) None = Inr gi" and "start_session gi = Inr initial"
  shows "\<exists>state saved st. obj_get d ''state'' = JObj state \<and> obj_get state ''saved'' = JObj saved \<and>
    restore_game_save sha ctx (JObj d) = Inr st \<and> restore_state gi st = Inr st \<and>
    int (length (json_text (JObj st))) \<le> pc_max_state_bytes ctx \<and>
    (\<forall>sid. map_of st sid = (if saved_state gi sid then map_of saved sid else map_of initial sid)) \<and>
    py_eq (obj_get d ''bindings'') (JObj (pc_bindings ctx))"
proof -
  have gi: "serves ctx gi" using assms(2) by (simp add: serves_def)
  have initial: "gp_initial_state gi = Inr initial" using assms(3) by (simp add: start_session_def)
  obtain state where state: "obj_get d ''state'' = JObj state" "check_saved_state sha ctx state = Inr ()"
    and bindings: "validate_bindings ctx (obj_get d ''bindings'') = Inr ()"
    by (rule save_validE [OF assms(1)])
  obtain saved st found where saved: "obj_get state ''saved'' = JObj saved"
    and st: "restore_projection ctx (JObj saved) = Inr (st, found)"
    by (rule saved_stateE [OF state(2)])
  have "restore_game_save sha ctx (JObj d) = Inr st"
    by (rule restore_game_save_eq [OF assms(1) state(1) saved st])
  moreover have "py_eq (obj_get d ''bindings'') (JObj (pc_bindings ctx))"
    using bindings by (auto simp: validate_bindings_def object_in_def split: json.splits)
  ultimately show ?thesis
    using restore_projectionE [OF st gi initial] validated_full_stateE [OF _ gi] state(1) saved by metis
qed

theorem accepted_saves_are_safe_witness:
  "\<exists>d st. validate_game_save_document hex_sha gate_context (JObj d) = Inr d \<and>
     restore_game_save hex_sha gate_context (JObj d) = Inr st \<and> restore_state gatehouse st = Inr st"
proof -
  obtain d where "build_game_save hex_sha gate_context tired_state = Inr d" using gate_save by blast
  from built_save_valid [OF this] accepted_saves_are_safe [OF built_save_valid [OF this] gate_serves gate_started]
  show ?thesis by blast
qed

text \<open>C33. Recordings replay exactly: after a recording session ran a list of actions without an error,
  playing whatever \<open>finish\<close> returns ends in the state of the session; refused actions leave no trace. It
  returns a document exactly if the recorded steps pass the checks of a replay, the context accepts the
  state the session is in, and the document fits in 4 MiB with its ID and hash
  (\<^const>\<open>finishable\<close>): the recording itself does not compare states with the byte budget of the
  adapter. (The parameters of the pack's actions have distinct IDs and no repeated values.)\<close>

theorem recordings_replay_exactly:
  assumes "build_game_persistence_context nfc sha pack composition bundle adapter = Inr ctx"
    and "make_interpreter (pc_gamepack ctx) None = Inr gi" and "clean_parameters (gi_actions gi)"
    and "\<And>t. lower_hex (sha t)" and "start_recording gi = Inr s0"
    and "foldR (recording_step nfc sha ctx gi) s0 cs = Inr s"
  shows "((\<exists>sealed. finish_recording nfc sha ctx s = Inr sealed) \<longleftrightarrow> finishable nfc sha ctx gi s) \<and>
    (\<forall>sealed. finish_recording nfc sha ctx s = Inr sealed \<longrightarrow>
       play_game_replay nfc sha ctx (JObj sealed) = Inr (rs_state s))"
proof -
  have gi: "serves ctx gi" using assms(2) by (simp add: serves_def)
  obtain initial where start: "start_session gi = Inr initial" and s0: "s0 = \<lparr>rs_state = initial, rs_results = []\<rparr>"
    using assms(5) by (auto simp: start_recording_def)
  have traces: "traces sha gi initial (rs_results s) (rs_state s)"
    by (rule recording_traces [OF assms(6) _ serves_constructed [OF gi] assms(3)]) (simp add: s0)
  have "1 \<le> pc_max_actions ctx"
    using assms(1) by (auto simp: build_game_persistence_context_def positive_integer_def split: json.splits if_splits)
  then have bound: "int (length (rs_results s)) \<le> pc_max_actions ctx"
    by (intro recording_bound [OF assms(6)]) (simp add: s0)
  have "play_game_replay nfc sha ctx (JObj sealed) = Inr (rs_state s)"
    if "finish_recording nfc sha ctx s = Inr sealed" for sealed
    using build_game_replayE [OF that [unfolded finish_recording_def] gi assms(4) start traces] by metis
  with finish_iff [OF context_bindings_accepted [OF assms(1)] assms(4) gi start traces bound] show ?thesis by blast
qed

lemma gate_finishable: "finishable any_nfc hex_sha gate_context gatehouse gate_recorded"
  using gate_replay_fits unfolding finishable_def own_iff by metis

theorem recordings_replay_exactly_witness:
  "\<exists>sealed. finish_recording any_nfc hex_sha gate_context gate_recorded = Inr sealed \<and>
     play_game_replay any_nfc hex_sha gate_context (JObj sealed) = Inr (rs_state gate_recorded)"
proof -
  have "clean_parameters (gi_actions gatehouse)" by code_simp
  from recordings_replay_exactly [OF gate_context_built gate_serves this hex_sha_hex gate_recording_starts gate_records]
    gate_finishable show ?thesis by blast
qed

text \<open>C34. A replay that plays is a session: the actions of its steps, applied in order from the
  initial state of the pack, lead to the state that playing returns, and the recorded final hash is
  the hash of that state; there are no more steps than the adapter allows.\<close>

theorem replays_are_sessions:
  assumes "play_game_replay nfc sha ctx (JObj d) = Inr final"
    and "make_interpreter (pc_gamepack ctx) None = Inr gi"
  shows "\<exists>initial steps h. start_session gi = Inr initial \<and> obj_get d ''steps'' = JArr steps \<and>
    foldR (session_step sha gi) initial (map step_action steps) = Inr final \<and> session_reaches sha gi final \<and>
    int (length steps) \<le> pc_max_actions ctx \<and>
    canonical_state_hash sha final = Inr h \<and> obj_get d ''final_state_hash'' = JStr h"
proof -
  have gi: "serves ctx gi" using assms(2) by (simp add: serves_def)
  obtain initial steps h where start: "start_session gi = Inr initial"
    and d: "obj_get d ''steps'' = JArr steps" "int (length steps) \<le> pc_max_actions ctx"
    and run: "foldR (play_step sha gi) initial steps = Inr final"
    and h: "canonical_state_hash sha final = Inr h" "obj_get d ''final_state_hash'' = JStr h"
    by (rule playE [OF assms(1) gi])
  from play_steps_session [OF run] session_run_reaches [OF session_reaches.started [OF start]] start d h
  show ?thesis by blast
qed

lemma gate_replay:
  "\<exists>d. play_game_replay any_nfc hex_sha gate_context (JObj d) = Inr (rs_state gate_recorded)"
proof -
  have "clean_parameters (gi_actions gatehouse)" by code_simp
  then have "traces hex_sha gatehouse gate_initial (rs_results gate_recorded) (rs_state gate_recorded)"
    using recording_traces [OF gate_records, of gate_initial] gatehouse_constructed by simp
  moreover have "int (length (rs_results gate_recorded)) \<le> pc_max_actions gate_context"
    by (rule recording_bound [OF gate_records]) (simp add: gate_context_def)
  moreover note gate_replay_fits
  ultimately show ?thesis
    using replay_succeeds [OF context_bindings_accepted [OF gate_context_built] hex_sha_hex gate_serves [folded serves_def] gate_started]
    by (fastforce simp: own_iff)
qed

theorem replays_are_sessions_witness:
  "\<exists>d steps. obj_get d ''steps'' = JArr steps \<and>
     foldR (session_step hex_sha gatehouse) gate_initial (map step_action steps) = Inr (rs_state gate_recorded)"
proof -
  obtain d where "play_game_replay any_nfc hex_sha gate_context (JObj d) = Inr (rs_state gate_recorded)"
    using gate_replay by blast
  from replays_are_sessions [OF this gate_serves] show ?thesis by (auto simp: gate_started)
qed

text \<open>C35. Edited files fail cleanly: whatever JSON value is offered as a save or as a replay, restoring
  it and playing it end with a state or with a \<open>GameLogicError\<close>; no exception of Python escapes. (The
  records of the pack have the shapes that its validation checks, and its initial state is classified.)\<close>

theorem documents_fail_cleanly:
  assumes "make_interpreter (pc_gamepack ctx) None = Inr gi" and "well_shaped gi"
    and "start_session gi = Inr initial" and "session_state gi initial"
  shows "outcome game_error (\<lambda>_. True) (restore_game_save sha ctx v) \<and>
    outcome game_error (\<lambda>_. True) (play_game_replay nfc sha ctx v)"
  using restore_errors play_errors assms by (simp add: serves_def)

theorem documents_fail_cleanly_witness:
  "case restore_game_save hex_sha gate_context (JArr [JObj []]) of Inl e \<Rightarrow> game_error e | _ \<Rightarrow> False"
proof -
  have "isl (restore_game_save hex_sha gate_context (JArr [JObj []]))" by code_simp
  then obtain e where e: "restore_game_save hex_sha gate_context (JArr [JObj []]) = Inl e" by (auto simp: isl_def)
  from documents_fail_cleanly [OF gate_serves gatehouse_shaped gate_started gatehouse_starts,
      of hex_sha "JArr [JObj []]"]
  show ?thesis by (simp add: e)
qed

end
