(* ===== verification/GamepackShapes.thy ===== *)
theory GamepackShapes
  imports GamepackContract
begin

text \<open>
  The contract of a gamepack's logic, second part: the exact keys of every record
  (\<open>_validate_logic_record_shapes\<close>) and the logic as a whole (\<open>_validate_logic\<close>).
\<close>

section \<open>The shapes of the records\<close>

definition record_fields :: "string list dict" where
  "record_fields =
     [(''core_verbs'', [''id'', ''description'']),
      (''actions'', [''id'', ''core_verb_id'', ''parameters'', ''source_bindings'', ''rule_ids'', ''presentation_hook_ids'',
                     ''required_feature_ids'']),
      (''rules'', [''id'', ''action_id'', ''order'', ''condition_ids'', ''effect_ids'', ''event_ids'']),
      (''goals'', [''id'', ''condition_ids'', ''success_ending_id'']),
      (''failures'', [''id'', ''condition_ids'', ''recovery_action_ids'']),
      (''endings'', [''id'', ''kind'', ''condition_ids'', ''event_ids'', ''presentation_hook_ids'']),
      (''events'', [''id'']),
      (''presentation_hooks'', [''id'', ''kind'', ''asset_binding_ids'']),
      (''mechanics'', [''id'', ''core_verb_id'', ''action_id'', ''authoritative_state_ids'', ''condition_ids'', ''rule_ids'',
                       ''effect_ids'', ''event_ids'', ''presentation_hook_ids'', ''asset_binding_ids'', ''required_feature_ids'']),
      (''narrative_transitions'', [''compiler_owned'', ''id'', ''action_id'', ''source_unit_id'', ''option_id'',
                                   ''target_unit_id'', ''precondition'', ''effect'', ''atomic_source_condition_ids'',
                                   ''atomic_source_effect_ids''])]"

definition check_state_shape :: "(string \<Rightarrow> bool) \<Rightarrow> json \<Rightarrow> unit res" where
  "check_state_shape nfc j =
     rbind (obj_of j) (\<lambda>ob.
     rbind (state_fields ob (obj_get ob ''compiler_owned'' = JBool True)) (\<lambda>names.
     rbind (exact_keys ob names) (\<lambda>_. validate_state_domain nfc ob)))"

definition check_cursor_shape :: "json \<Rightarrow> unit res" where
  "check_cursor_shape cursor =
     (if cursor = JNull then Inr ()
      else
        rbind (obj_of cursor) (\<lambda>ob.
        rbind (state_fields ob True) (\<lambda>names.
        rbind (exact_keys ob names) (\<lambda>_.
          reject (obj_get ob ''compiler_owned'' \<noteq> JBool True) ''gamepack_logic_invalid''
            ''narrative cursor must be compiler-owned''))))"

definition parameter_fields :: "json \<Rightarrow> string list res" where
  "parameter_fields kind =
     (if kind = JStr ''boolean'' then Inr [''id'', ''type'']
      else if kind = JStr ''integer'' then Inr [''id'', ''type'', ''minimum'', ''maximum'']
      else if kind = JStr ''string'' then Inr [''id'', ''type'', ''allowed_values'']
      else if kind = JStr ''string_array'' then Inr [''id'', ''type'', ''allowed_values'', ''min_items'', ''max_items'']
      else fail ''parameter_type_unsupported'' ''unsupported parameter type'')"

definition check_parameter_shape :: "(string \<Rightarrow> bool) \<Rightarrow> json \<Rightarrow> unit res" where
  "check_parameter_shape nfc j =
     rbind (obj_of j) (\<lambda>p.
     rbind (parameter_fields (obj_get p ''type'')) (\<lambda>names.
     rbind (exact_keys p names) (\<lambda>_. validate_parameter_domain nfc p)))"

definition check_transition_shape :: "json dict \<Rightarrow> unit res" where
  "check_transition_shape ob =
     rbind (obj_of (obj_get ob ''precondition'')) (\<lambda>precondition.
     rbind (exact_keys precondition [''compiler_owned'', ''id'', ''operator'', ''cursor_state_id'', ''value'']) (\<lambda>_.
     rbind (obj_of (obj_get ob ''effect'')) (\<lambda>effect.
       exact_keys effect
         [''compiler_owned'', ''id'', ''operation'', ''cursor_state_id'', ''value'', ''invalid_transition_policy''])))"

definition check_record_shape :: "(string \<Rightarrow> bool) \<Rightarrow> string \<Rightarrow> string list \<Rightarrow> json \<Rightarrow> unit res" where
  "check_record_shape nfc name names j =
     rbind (obj_of j) (\<lambda>ob.
     rbind (exact_keys ob names) (\<lambda>_.
     if name = ''actions'' then
       rbind (array_of 16 (obj_get ob ''parameters'')) (for_each (check_parameter_shape nfc))
     else if name = ''narrative_transitions'' then check_transition_shape ob
     else Inr ()))"

definition check_condition_shape :: "json \<Rightarrow> unit res" where
  "check_condition_shape j =
     rbind (obj_of j) (\<lambda>c.
     rbind (condition_fields c) (\<lambda>names.
     rbind (exact_keys c names) (\<lambda>_.
     let operator = obj_get c ''operator'' in
     if operator = JStr ''compare'' \<or> operator = JStr ''integer_distance'' then
       rbind (validate_operand (obj_get c ''left'')) (\<lambda>_. validate_operand (obj_get c ''right''))
     else if operator = JStr ''index_valid'' then validate_operand (obj_get c ''index'')
     else Inr ())))"

definition effect_operands :: "string \<Rightarrow> string list" where
  "effect_operands operation =
     (if operation = ''set'' \<or> operation = ''append_unique'' then [''value'']
      else if operation = ''increment'' then [''amount'']
      else if operation = ''swap_array_items'' then [''first_index'', ''second_index'']
      else [])"

definition check_effect_shape :: "json \<Rightarrow> unit res" where
  "check_effect_shape j =
     rbind (obj_of j) (\<lambda>e.
     rbind (effect_fields e) (\<lambda>names.
     rbind (exact_keys e names) (\<lambda>_.
       for_each (\<lambda>k. validate_operand (obj_get e k)) (effect_operands (id_text (obj_get e ''operation''))))))"

definition validate_logic_record_shapes :: "(string \<Rightarrow> bool) \<Rightarrow> json dict \<Rightarrow> unit res" where
  "validate_logic_record_shapes nfc logic =
     rbind (rbind (collection logic ''state_schema'') (for_each (check_state_shape nfc))) (\<lambda>_.
     rbind (check_cursor_shape (obj_get logic ''narrative_cursor'')) (\<lambda>_.
     rbind (for_each (\<lambda>(name, names). rbind (collection logic name) (for_each (check_record_shape nfc name names)))
              record_fields) (\<lambda>_.
     rbind (rbind (collection logic ''conditions'') (for_each check_condition_shape)) (\<lambda>_.
       rbind (collection logic ''effects'') (for_each check_effect_shape)))))"

section \<open>The logic\<close>

definition logic_fields :: "string list" where
  "logic_fields =
     [''source'', ''title'', ''state_schema'', ''initial_state'', ''core_verbs'', ''actions'', ''conditions'', ''effects'',
      ''rules'', ''goals'', ''failures'', ''endings'', ''events'', ''presentation_hooks'', ''mechanics'',
      ''narrative_cursor'', ''narrative_transitions'', ''execution_semantics'']"

definition logic_limits :: "nat dict" where
  "logic_limits =
     [(''state_schema'', 129), (''core_verbs'', 128), (''actions'', 128), (''conditions'', 512), (''effects'', 512),
      (''rules'', 512), (''goals'', 64), (''failures'', 64), (''endings'', 64), (''events'', 256),
      (''presentation_hooks'', 256), (''mechanics'', 128), (''narrative_transitions'', 128)]"

text \<open>One entry of \<open>expected_initial\<close>.\<close>

definition add_initial :: "json dict \<Rightarrow> json \<Rightarrow> json dict res" where
  "add_initial expected j =
     rbind (obj_of j) (\<lambda>st.
     case obj_get st ''id'' of
       JStr sid \<Rightarrow>
         if sid = [] then logic_invalid ''state schema contains an invalid ID''
         else Inr (AList.update sid (obj_get st ''initial'') expected)
     | _ \<Rightarrow> logic_invalid ''state schema contains an invalid ID'')"

definition validate_logic :: "(string \<Rightarrow> bool) \<Rightarrow> json \<Rightarrow> json dict res" where
  "validate_logic nfc j =
     rbind (obj_of j) (\<lambda>logic.
     rbind (exact_keys logic logic_fields) (\<lambda>_.
     rbind (reject (\<not> py_eq (obj_get logic ''execution_semantics'') execution_semantics)
              ''execution_semantics_unsupported'' ''gamepack does not require the exact v1 execution policy'') (\<lambda>_.
     rbind (obj_of (obj_get logic ''source'')) (\<lambda>source.
     rbind (exact_keys source [''format'', ''format_version'', ''id'', ''content_hash'']) (\<lambda>_.
     rbind (for_each (\<lambda>(name, maximum). rbind (array_of maximum (obj_get logic name)) (\<lambda>_. Inr ())) logic_limits) (\<lambda>_.
     rbind (validate_record_order logic) (\<lambda>_.
     rbind (validate_logic_record_shapes nfc logic) (\<lambda>_.
     rbind (obj_of (obj_get logic ''initial_state'')) (\<lambda>initial.
     rbind (reject (129 < length initial) ''gamepack_bounds_exceeded'' ''logic.initial_state exceeds its limit'') (\<lambda>_.
     rbind (rbind (collection logic ''state_schema'') (foldR add_initial [])) (\<lambda>expected.
     rbind (reject (\<not> py_eq (JObj initial) (JObj expected)) ''initial_state_invalid''
              ''logic.initial_state does not exactly match state_schema'') (\<lambda>_.
       Inr logic))))))))))))"

end
