(* ===== verification/ConditionGraph.thy ===== *)
theory ConditionGraph
  imports JsonSnapshot
begin

text \<open>
  The graph of the conditions of a gamepack (\<open>src/gamepack_runtime/contracts.py\<close>): the search for
  a cycle, and the set of the conditions below given ones. Both are loops over an explicit stack;
  the first accepts exactly the graphs without a cycle, the second gives exactly what is reachable.
\<close>

section \<open>The loops\<close>

definition children_of :: "string list dict \<Rightarrow> string \<Rightarrow> string list" where
  "children_of adjacency key = (case map_of adjacency key of None \<Rightarrow> [] | Some cs \<Rightarrow> cs)"

definition all_children :: "string list dict \<Rightarrow> string set" where
  "all_children adjacency = (\<Union>key \<in> fst ` set adjacency. set (children_of adjacency key))"

definition pending_steps :: "string list dict \<Rightarrow> (string \<times> nat) list \<Rightarrow> nat" where
  "pending_steps adjacency stack = (\<Sum>(key, i) \<leftarrow> stack. Suc (length (children_of adjacency key) - i))"

definition unseen :: "string list dict \<Rightarrow> (string \<Rightarrow> nat) \<Rightarrow> (string \<times> nat) list \<Rightarrow> string set" where
  "unseen adjacency color stack =
     {v \<in> all_children adjacency. color v = 0 \<and> (stack = [] \<or> v \<noteq> fst (hd stack))}"

lemma finite_all_children [simp]: "finite (all_children adjacency)"
  by (auto simp: all_children_def)

lemma finite_unseen [simp]: "finite (unseen adjacency color stack)"
  by (simp add: unseen_def)

lemma child_in_all: "c \<in> set (children_of adjacency key) \<Longrightarrow> c \<in> all_children adjacency"
proof -
  assume c: "c \<in> set (children_of adjacency key)"
  then have "map_of adjacency key \<noteq> None" by (cases "map_of adjacency key") (simp_all add: children_of_def)
  then have "key \<in> fst ` set adjacency" by (simp add: map_of_eq_None_iff)
  with c show ?thesis unfolding all_children_def by blast
qed

lemma visit_measure:
  assumes "unseen adjacency color' stack' \<subseteq> unseen adjacency color stack"
    and "pending_steps adjacency stack' < pending_steps adjacency stack"
  shows "((adjacency, color', stack'), (adjacency, color, stack))
    \<in> measures [\<lambda>(a, c, s). card (unseen a c s), \<lambda>(a, c, s). pending_steps a s]"
  using card_mono [OF finite_unseen assms(1)] assms(2) by auto

lemma still_unseen:
  fixes color :: "string \<Rightarrow> nat"
  assumes "(if color key = 0 then color(key := 1) else color) child = 0"
  shows "child \<noteq> key \<and> color child = 0"
  using assms by (cases "color key = 0"; cases "child = key") simp_all

text \<open>
  \<open>_validate_executable_logic\<close>, the loop over \<open>stack\<close>: the top of the stack comes first here. A
  condition has the color 0 at first, 1 while it is on the stack and 2 when all below it is done.
\<close>

function visit :: "string list dict \<Rightarrow> (string \<Rightarrow> nat) \<Rightarrow> (string \<times> nat) list \<Rightarrow> (string \<Rightarrow> nat) res" where
  "visit adjacency color [] = Inr color"
| "visit adjacency color ((key, next_index) # stack) =
     (let color = (if color key = 0 then color(key := 1) else color);
          child_keys = children_of adjacency key in
      if length child_keys \<le> next_index then visit adjacency (color(key := 2)) stack
      else
        let child = child_keys ! next_index; stack = (key, next_index + 1) # stack in
        if color child = 1 then fail ''condition_cycle'' (''condition cycle at '' @ child)
        else if color child = 0 then visit adjacency color ((child, 0) # stack)
        else visit adjacency color stack)"
  by pat_completeness auto

termination
proof (relation "measures [\<lambda>(a, c, s). card (unseen a c s), \<lambda>(a, c, s). pending_steps a s]", goal_cases)
  case 1
  then show ?case by simp
next
  case (2 adjacency color key i stack color' cs)
  have "unseen adjacency (color'(key := 2)) stack \<subseteq> unseen adjacency color ((key, i) # stack)"
    unfolding 2(1) unseen_def by auto
  then show ?case
    by (rule visit_measure) (simp add: pending_steps_def)
next
  case (3 adjacency color key i stack color' cs child stack')
  have "child \<in> all_children adjacency"
    unfolding 3 using 3(2,3) by (intro child_in_all [of _ _ key]) simp
  moreover have fresh: "child \<noteq> key \<and> color child = 0"
    by (rule still_unseen [OF 3(7) [unfolded 3(1)]])
  ultimately have "child \<in> unseen adjacency color ((key, i) # stack)"
    and "child \<notin> unseen adjacency color' ((child, 0) # stack')"
    by (simp_all add: unseen_def)
  moreover have "unseen adjacency color' ((child, 0) # stack') \<subseteq> unseen adjacency color ((key, i) # stack)"
  proof
    fix v assume "v \<in> unseen adjacency color' ((child, 0) # stack')"
    then have "v \<in> all_children adjacency" and "color' v = 0" by (simp_all add: unseen_def)
    then show "v \<in> unseen adjacency color ((key, i) # stack)"
      using still_unseen [of color key v] unfolding 3(1) by (simp add: unseen_def)
  qed
  ultimately have "unseen adjacency color' ((child, 0) # stack') \<subset> unseen adjacency color ((key, i) # stack)"
    by blast
  then show ?case by (simp add: psubset_card_mono)
next
  case (4 adjacency color key i stack color' cs child stack')
  have "unseen adjacency color' stack' \<subseteq> unseen adjacency color ((key, i) # stack)"
    unfolding 4(1,5) unseen_def by auto
  then show ?case
    by (rule visit_measure) (use 4(2,3,5) in \<open>simp add: pending_steps_def\<close>)
qed

declare visit.simps(2) [simp del]

definition check_root :: "string list dict \<Rightarrow> (string \<Rightarrow> nat) \<Rightarrow> string \<Rightarrow> (string \<Rightarrow> nat) res" where
  "check_root adjacency color root =
     (if color root = 2 then Inr color else visit adjacency color [(root, 0)])"

definition check_cycles :: "string list dict \<Rightarrow> string list \<Rightarrow> unit res" where
  "check_cycles adjacency roots =
     rbind (foldR (check_root adjacency) (\<lambda>_. 0) roots) (\<lambda>_. Inr ())"

lemma card_keys_less:
  "key \<notin> closure \<Longrightarrow> key \<in> fst ` set children \<Longrightarrow>
     card (fst ` set children - insert key closure) < card (fst ` set children - closure)"
  by (rule psubset_card_mono) auto

text \<open>\<open>_condition_closure\<close>; \<open>pending.pop()\<close> takes the last item.\<close>

function closure_loop :: "string list dict \<Rightarrow> string set \<Rightarrow> string list \<Rightarrow> string set" where
  "closure_loop children closure pending =
     (if pending = [] then closure
      else
        let key = last pending; rest = butlast pending in
        if key \<in> closure then closure_loop children closure rest
        else closure_loop children (insert key closure) (rest @ children_of children key))"
  by pat_completeness auto

termination
proof (relation "measures [\<lambda>(children, closure, _). card (fst ` set children - closure), \<lambda>(_, _, pending). length pending]", goal_cases)
  case 1
  then show ?case by simp
next
  case (2 children closure pending key rest)
  then show ?case by simp
next
  case (3 children closure pending key rest)
  show ?case
  proof (cases "key \<in> fst ` set children")
    case True
    with 3 have "card (fst ` set children - insert key closure) < card (fst ` set children - closure)"
      by (intro card_keys_less)
    then show ?thesis by simp
  next
    case False
    then have "map_of children key = None" by (simp add: map_of_eq_None_iff)
    with 3 False show ?thesis by (simp add: children_of_def Diff_insert0)
  qed
qed

declare closure_loop.simps [simp del]

definition condition_closure :: "string list \<Rightarrow> string list dict \<Rightarrow> string set" where
  "condition_closure roots children = closure_loop children {} roots"

section \<open>The search accepts exactly the graphs without a cycle\<close>

definition edges :: "string list dict \<Rightarrow> (string \<times> string) set" where
  "edges adjacency = {(a, b). b \<in> set (children_of adjacency a)}"

lemma edge_iff [simp]: "(a, b) \<in> edges adjacency \<longleftrightarrow> b \<in> set (children_of adjacency a)"
  by (simp add: edges_def)

text \<open>What holds of the colors between two searches, and of the stack during one.\<close>

definition well_colored :: "string list dict \<Rightarrow> (string \<Rightarrow> nat) \<Rightarrow> bool" where
  "well_colored adjacency color \<longleftrightarrow>
     (\<forall>v. color v \<le> 2) \<and>
     (\<forall>v. color v = 2 \<longrightarrow> (v, v) \<notin> (edges adjacency)\<^sup>+ \<and> (\<forall>c \<in> set (children_of adjacency v). color c = 2))"

definition done_before :: "string list dict \<Rightarrow> (string \<Rightarrow> nat) \<Rightarrow> string \<Rightarrow> nat \<Rightarrow> bool" where
  "done_before adjacency color key i \<longleftrightarrow>
     i \<le> length (children_of adjacency key) \<and> (\<forall>j < i. color (children_of adjacency key ! j) = 2)"

fun path_to :: "string list dict \<Rightarrow> (string \<Rightarrow> nat) \<Rightarrow> string \<Rightarrow> (string \<times> nat) list \<Rightarrow> bool" where
  "path_to adjacency color key [] = True"
| "path_to adjacency color key ((parent, i) # stack) =
     (color parent = 1 \<and> 0 < i \<and> i \<le> length (children_of adjacency parent) \<and>
      children_of adjacency parent ! (i - 1) = key \<and> done_before adjacency color parent (i - 1) \<and>
      path_to adjacency color parent stack)"

definition searching :: "string list dict \<Rightarrow> (string \<Rightarrow> nat) \<Rightarrow> (string \<times> nat) list \<Rightarrow> bool" where
  "searching adjacency color stack \<longleftrightarrow>
     well_colored adjacency color \<and> distinct (map fst stack) \<and> (\<forall>v. color v = 1 \<longrightarrow> v \<in> fst ` set stack) \<and>
     (case stack of [] \<Rightarrow> True
      | (key, i) # stack \<Rightarrow> color key \<noteq> 2 \<and> done_before adjacency color key i \<and> path_to adjacency color key stack)"

lemma path_to_reaches:
  "path_to adjacency color key stack \<Longrightarrow> v \<in> fst ` set stack \<Longrightarrow> (v, key) \<in> (edges adjacency)\<^sup>+"
proof (induction stack arbitrary: key)
  case (Cons entry stack)
  obtain parent i where [simp]: "entry = (parent, i)" by (cases entry)
  have edge: "(parent, key) \<in> edges adjacency"
    using Cons.prems(1) by (auto simp: in_set_conv_nth intro!: exI [of _ "i - 1"])
  show ?case
  proof (cases "v = parent")
    case True
    with edge show ?thesis by blast
  next
    case False
    then have "(v, parent) \<in> (edges adjacency)\<^sup>+"
      using Cons.IH [of parent] Cons.prems by simp
    then show ?thesis using edge by (rule trancl_into_trancl)
  qed
qed simp

lemma path_to_grey: "path_to adjacency color key stack \<Longrightarrow> v \<in> fst ` set stack \<Longrightarrow> color v = 1"
  by (induction stack arbitrary: key) (simp, fastforce)

text \<open>Coloring a condition black, or white to grey, keeps what is known of the stack below.\<close>

lemma done_before_upd:
  "done_before adjacency color key i \<Longrightarrow> color v \<noteq> 2 \<Longrightarrow> done_before adjacency (color(v := n)) key i"
  by (auto simp: done_before_def)

lemma path_to_recolor:
  "path_to adjacency color key stack \<Longrightarrow> v \<notin> fst ` set stack \<Longrightarrow> color v \<noteq> 2 \<Longrightarrow>
     path_to adjacency (color(v := n)) key stack"
  by (induction stack arbitrary: key) (auto simp: done_before_upd simp del: fun_upd_apply, auto)

lemma well_colored_grey: "well_colored adjacency color \<Longrightarrow> color key \<noteq> 2 \<Longrightarrow> well_colored adjacency (color(key := 1))"
  by (auto simp: well_colored_def)

lemma well_colored_black:
  assumes "well_colored adjacency color" and "\<forall>c \<in> set (children_of adjacency key). color c = 2" and "color key \<noteq> 2"
  shows "well_colored adjacency (color(key := 2))"
proof -
  have black: "color w = 2" if "(v, w) \<in> (edges adjacency)\<^sup>+" and "color v = 2" for v w
    using that by (induction rule: trancl_induct) (use assms(1) in \<open>auto simp: well_colored_def\<close>)
  have "(key, key) \<notin> (edges adjacency)\<^sup>+"
  proof
    assume "(key, key) \<in> (edges adjacency)\<^sup>+"
    then obtain c where "(key, c) \<in> edges adjacency" "c = key \<or> (c, key) \<in> (edges adjacency)\<^sup>+"
      by (metis converse_tranclE)
    with assms(2,3) black show False by auto
  qed
  with assms show ?thesis by (auto simp: well_colored_def)
qed

text \<open>The two ways a search goes on: the top of the stack is done, or one of its children is next.\<close>

lemma searching_pop:
  assumes "searching adjacency color ((key, i) # stack)" and "length (children_of adjacency key) \<le> i"
  shows "searching adjacency (color(key := 2)) stack"
proof -
  have inv: "well_colored adjacency color" "distinct (key # map fst stack)"
      "\<forall>v. color v = 1 \<longrightarrow> v = key \<or> v \<in> fst ` set stack"
      "color key \<noteq> 2" "done_before adjacency color key i" "path_to adjacency color key stack"
    using assms(1) by (auto simp: searching_def)
  have "\<forall>c \<in> set (children_of adjacency key). color c = 2"
    using inv(5) assms(2) by (auto simp: done_before_def in_set_conv_nth)
  then have well_colored: "well_colored adjacency (color(key := 2))"
    using well_colored_black inv(1,4) by blast
  show ?thesis
  proof (cases stack)
    case Nil
    with inv well_colored show ?thesis by (auto simp: searching_def)
  next
    case (Cons entry rest)
    obtain parent n where [simp]: "entry = (parent, n)" by (cases entry)
    have up: "color parent = 1" "parent \<noteq> key" "0 < n" "n \<le> length (children_of adjacency parent)"
      "children_of adjacency parent ! (n - 1) = key" "done_before adjacency color parent (n - 1)"
      "path_to adjacency color parent rest"
      using inv(2,6) Cons by auto
    have "done_before adjacency (color(key := 2)) parent n"
      unfolding done_before_def
    proof (intro conjI allI impI up)
      fix j assume "j < n"
      then show "(color(key := 2)) (children_of adjacency parent ! j) = 2"
        using up(5,6) by (cases "j = n - 1") (auto simp: done_before_def)
    qed
    moreover have "path_to adjacency (color(key := 2)) parent rest"
      using path_to_recolor [OF up(7)] inv(2,4) Cons by auto
    ultimately show ?thesis
      using well_colored inv(2,3) up(1,2) Cons by (auto simp: searching_def)
  qed
qed

lemma searching_next:
  assumes "searching adjacency color ((key, i) # stack)" and "i < length (children_of adjacency key)"
    and "color key = 1"
  shows "color (children_of adjacency key ! i) = 2 \<Longrightarrow> searching adjacency color ((key, i + 1) # stack)"
    and "color (children_of adjacency key ! i) = 0 \<Longrightarrow>
      searching adjacency color ((children_of adjacency key ! i, 0) # (key, i + 1) # stack)"
proof -
  have inv: "well_colored adjacency color" "distinct (key # map fst stack)"
      "\<forall>v. color v = 1 \<longrightarrow> v = key \<or> v \<in> fst ` set stack"
      "done_before adjacency color key i" "path_to adjacency color key stack"
    using assms(1) by (auto simp: searching_def)
  show "searching adjacency color ((key, i + 1) # stack)" if "color (children_of adjacency key ! i) = 2"
    using that inv assms(2,3) by (auto simp: searching_def done_before_def less_Suc_eq)
  show "searching adjacency color ((children_of adjacency key ! i, 0) # (key, i + 1) # stack)"
    if white: "color (children_of adjacency key ! i) = 0"
    using white inv assms(2,3) path_to_grey [OF inv(5), of "children_of adjacency key ! i"]
    by (auto simp: searching_def done_before_def)
qed

lemma searching_grey:
  assumes "searching adjacency color ((key, i) # stack)"
  shows "searching adjacency (if color key = 0 then color(key := 1) else color) ((key, i) # stack)"
    and "(if color key = 0 then color(key := 1) else color) key = 1"
proof -
  have inv: "well_colored adjacency color" "distinct (key # map fst stack)"
      "\<forall>v. color v = 1 \<longrightarrow> v = key \<or> v \<in> fst ` set stack"
      "color key \<noteq> 2" "done_before adjacency color key i" "path_to adjacency color key stack"
    using assms by (auto simp: searching_def)
  then have "color key \<le> 2" by (simp add: well_colored_def)
  with inv(4) show "(if color key = 0 then color(key := 1) else color) key = 1" by auto
  show "searching adjacency (if color key = 0 then color(key := 1) else color) ((key, i) # stack)"
    using inv well_colored_grey [OF inv(1,4)] done_before_upd [OF inv(5,4)] path_to_recolor [OF inv(6) _ inv(4)]
    by (auto simp: searching_def)
qed

definition cycle_error :: "string list dict \<Rightarrow> exn \<Rightarrow> bool" where
  "cycle_error adjacency e \<longleftrightarrow>
     (\<exists>detail. e = GameLogicError ''condition_cycle'' detail) \<and> (\<exists>v. (v, v) \<in> (edges adjacency)\<^sup>+)"

lemma grey_child:
  assumes "searching adjacency color ((key, i) # stack)" and "i < length (children_of adjacency key)"
    and "color (children_of adjacency key ! i) = 1"
  shows "cycle_error adjacency (GameLogicError ''condition_cycle'' detail)"
proof -
  let ?child = "children_of adjacency key ! i"
  have edge: "(key, ?child) \<in> edges adjacency" using assms(2) by simp
  have "?child = key \<or> ?child \<in> fst ` set stack"
    using assms(1,3) by (auto simp: searching_def)
  moreover have "path_to adjacency color key stack"
    using assms(1) by (simp add: searching_def)
  ultimately have "?child = key \<or> (?child, key) \<in> (edges adjacency)\<^sup>+"
    using path_to_reaches by blast
  then have "(key, key) \<in> (edges adjacency)\<^sup>+"
  proof
    assume "?child = key"
    with r_into_trancl [OF edge] show ?thesis by simp
  next
    assume "(?child, key) \<in> (edges adjacency)\<^sup>+"
    with edge show ?thesis by (rule trancl_into_trancl2)
  qed
  then show ?thesis by (auto simp: cycle_error_def)
qed

lemma visit_ok:
  "searching adjacency color stack \<Longrightarrow>
     outcome (cycle_error adjacency)
       (\<lambda>color'. searching adjacency color' [] \<and> (\<forall>v. color v = 2 \<or> v \<in> fst ` set stack \<longrightarrow> color' v = 2))
       (visit adjacency color stack)"
proof (induction adjacency color stack rule: visit.induct)
  case (2 adjacency color key i stack)
  define color' where "color' = (if color key = 0 then color(key := 1) else color)"
  have inv: "searching adjacency color' ((key, i) # stack)" "color' key = 1"
    using searching_grey [OF 2(4)] by (simp_all add: color'_def)
  have kept: "color v = 2 \<Longrightarrow> color' v = 2" for v by (auto simp: color'_def)
  consider (finished) "length (children_of adjacency key) \<le> i"
    | (grey) "i < length (children_of adjacency key)" "color' (children_of adjacency key ! i) = 1"
    | (white) "i < length (children_of adjacency key)" "color' (children_of adjacency key ! i) = 0"
    | (black) "i < length (children_of adjacency key)" "color' (children_of adjacency key ! i) = 2"
  proof -
    have "color' (children_of adjacency key ! i) \<le> 2" using inv(1) by (simp add: searching_def well_colored_def)
    then show thesis using that by linarith
  qed
  then show ?case
  proof cases
    case finished
    then have "visit adjacency color ((key, i) # stack) = visit adjacency (color'(key := 2)) stack"
      by (simp add: visit.simps(2) color'_def)
    moreover have "outcome (cycle_error adjacency)
        (\<lambda>c. searching adjacency c [] \<and> (\<forall>v. (color'(key := 2)) v = 2 \<or> v \<in> fst ` set stack \<longrightarrow> c v = 2))
        (visit adjacency (color'(key := 2)) stack)"
      using 2(1) [OF color'_def refl finished searching_pop [OF inv(1) finished]] .
    ultimately show ?thesis using kept by (simp only:) (erule outcome_mono, auto)
  next
    case grey
    then have "visit adjacency color ((key, i) # stack)
        = fail ''condition_cycle'' (''condition cycle at '' @ children_of adjacency key ! i)"
      by (simp add: visit.simps(2) color'_def Let_def)
    then show ?thesis using grey_child [OF inv(1) grey] by simp
  next
    case white
    let ?child = "children_of adjacency key ! i"
    have "visit adjacency color ((key, i) # stack) = visit adjacency color' ((?child, 0) # (key, i + 1) # stack)"
      using white by (simp add: visit.simps(2) [of adjacency color] Let_def flip: color'_def)
    moreover have "outcome (cycle_error adjacency)
        (\<lambda>c. searching adjacency c [] \<and> (\<forall>v. color' v = 2 \<or> v \<in> fst ` set ((?child, 0) # (key, i + 1) # stack) \<longrightarrow> c v = 2))
        (visit adjacency color' ((?child, 0) # (key, i + 1) # stack))"
      using 2(2) [OF color'_def refl _ refl refl] white searching_next(2) [OF inv(1) white(1) inv(2) white(2)]
      by simp
    ultimately show ?thesis using kept by (simp only:) (erule outcome_mono, auto)
  next
    case black
    have "visit adjacency color ((key, i) # stack) = visit adjacency color' ((key, i + 1) # stack)"
      using black by (simp add: visit.simps(2) [of adjacency color] Let_def flip: color'_def)
    moreover have "outcome (cycle_error adjacency)
        (\<lambda>c. searching adjacency c [] \<and> (\<forall>v. color' v = 2 \<or> v \<in> fst ` set ((key, i + 1) # stack) \<longrightarrow> c v = 2))
        (visit adjacency color' ((key, i + 1) # stack))"
      using 2(3) [OF color'_def refl _ refl refl] black searching_next(1) [OF inv(1) black(1) inv(2) black(2)]
      by simp
    ultimately show ?thesis using kept by (simp only:) (erule outcome_mono, auto)
  qed
qed simp

theorem check_cycles_iff:
  assumes "all_children adjacency \<subseteq> set roots" and "fst ` set adjacency \<subseteq> set roots"
  shows "check_cycles adjacency roots = Inr () \<longleftrightarrow> acyclic (edges adjacency)"
    and "outcome (cycle_error adjacency) (\<lambda>_. True) (check_cycles adjacency roots)"
proof -
  have "outcome (cycle_error adjacency)
      (\<lambda>color'. searching adjacency color' [] \<and> (\<forall>v. color v = 2 \<or> v \<in> set rs \<longrightarrow> color' v = 2))
      (foldR (check_root adjacency) color rs)" if "searching adjacency color []" for color rs
    using that
  proof (induction rs arbitrary: color)
    case (Cons r rs)
    have "outcome (cycle_error adjacency)
        (\<lambda>color'. searching adjacency color' [] \<and> (\<forall>v. color v = 2 \<or> v = r \<longrightarrow> color' v = 2))
        (check_root adjacency color r)"
    proof (cases "color r = 2")
      case False
      then have "searching adjacency color [(r, 0)]"
        using Cons.prems by (auto simp: searching_def done_before_def)
      with visit_ok False show ?thesis by (fastforce simp: check_root_def elim!: outcome_mono)
    qed (use Cons.prems in \<open>simp add: check_root_def\<close>)
    then show ?case
      unfolding foldR.simps outcome_rbind by (rule outcome_mono) (rule outcome_mono [OF Cons.IH], simp_all)
  qed simp
  moreover have "searching adjacency (\<lambda>_. 0) []" by (simp add: searching_def well_colored_def)
  ultimately have run: "outcome (cycle_error adjacency) (\<lambda>color'. searching adjacency color' [] \<and> (\<forall>v \<in> set roots. color' v = 2))
      (foldR (check_root adjacency) (\<lambda>_. 0) roots)"
    by (fastforce elim: outcome_mono)
  show "outcome (cycle_error adjacency) (\<lambda>_. True) (check_cycles adjacency roots)"
    using run by (auto simp: check_cycles_def outcome_rbind elim: outcome_mono)
  have "acyclic (edges adjacency)" if black: "\<forall>v \<in> set roots. color v = 2" "well_colored adjacency color" for color
  proof -
    have on_cycle: "v \<in> set roots" if "(v, v) \<in> (edges adjacency)\<^sup>+" for v
    proof -
      from that obtain u where "(u, v) \<in> edges adjacency" by (rule tranclE) blast+
      then have "v \<in> all_children adjacency" by (intro child_in_all [of v adjacency u]) simp
      with assms(1) show ?thesis by blast
    qed
    have "(v, v) \<notin> (edges adjacency)\<^sup>+" if "v \<in> set roots" for v
      using black that by (simp add: well_colored_def)
    with on_cycle show ?thesis unfolding acyclic_def by blast
  qed
  with run show "check_cycles adjacency roots = Inr () \<longleftrightarrow> acyclic (edges adjacency)"
    by (cases "foldR (check_root adjacency) (\<lambda>_. 0) roots")
      (auto simp: check_cycles_def cycle_error_def acyclic_def searching_def)
qed

section \<open>The closure is what is reachable\<close>

lemma closure_loop_Nil: "closure_loop children closure [] = closure"
  by (simp add: closure_loop.simps)

lemma closure_loop_seen:
  "key \<in> closure \<Longrightarrow> closure_loop children closure (rest @ [key]) = closure_loop children closure rest"
  by (subst closure_loop.simps) simp

lemma closure_loop_new:
  "key \<notin> closure \<Longrightarrow> closure_loop children closure (rest @ [key])
     = closure_loop children (insert key closure) (rest @ children_of children key)"
  by (subst closure_loop.simps) simp

lemma closure_loop_induct [case_names Nil seen new]:
  assumes "\<And>closure. P closure []"
    and "\<And>closure rest key. key \<in> closure \<Longrightarrow> P closure rest \<Longrightarrow> P closure (rest @ [key])"
    and "\<And>closure rest key. key \<notin> closure \<Longrightarrow> P (insert key closure) (rest @ children_of children key) \<Longrightarrow>
      P closure (rest @ [key])"
  shows "P closure pending"
proof -
  have "c = children \<longrightarrow> P closure pending" for c
  proof (induction c closure pending rule: closure_loop.induct)
    case (1 c closure pending)
    show ?case
    proof (cases pending rule: rev_cases)
      case (snoc rest key)
      with 1(1) [OF _ refl refl] 1(2) [OF _ refl refl] show ?thesis
        by (cases "key \<in> closure") (auto intro: assms(2,3))
    qed (simp add: assms(1))
  qed
  then show ?thesis by blast
qed

lemma closure_loop_sound: "closure_loop children closure pending \<subseteq> closure \<union> (edges children)\<^sup>* `` set pending"
proof (induction closure pending rule: closure_loop_induct [of _ children])
  case (new closure rest key)
  have "(key, v) \<in> (edges children)\<^sup>*" if "(c, v) \<in> (edges children)\<^sup>*" "c \<in> set (children_of children key)" for c v
    using that by (meson converse_rtrancl_into_rtrancl edge_iff)
  with new show ?case unfolding closure_loop_new [OF new(1)] by (auto simp: subset_iff Image_iff)
qed (auto simp: closure_loop_Nil closure_loop_seen)

definition closed_under :: "string list dict \<Rightarrow> string set \<Rightarrow> string set \<Rightarrow> bool" where
  "closed_under children vs ws \<longleftrightarrow> (\<forall>v \<in> vs. set (children_of children v) \<subseteq> ws)"

lemma closure_loop_complete:
  "closed_under children closure (closure \<union> set pending) \<Longrightarrow>
     closure \<union> set pending \<subseteq> closure_loop children closure pending \<and>
     closed_under children (closure_loop children closure pending) (closure_loop children closure pending)"
proof (induction closure pending rule: closure_loop_induct [of _ children])
  case (seen closure rest key)
  then have "closed_under children closure (closure \<union> set rest)"
    by (simp add: insert_absorb)
  with seen show ?case by (auto simp: closure_loop_seen)
next
  case (new closure rest key)
  then have "closed_under children (insert key closure) (insert key closure \<union> set (rest @ children_of children key))"
    by (fastforce simp: closed_under_def)
  with new show ?case by (simp add: closure_loop_new)
qed (simp add: closure_loop_Nil)

lemma condition_closure_eq: "condition_closure roots children = (edges children)\<^sup>* `` set roots"
proof
  show "condition_closure roots children \<subseteq> (edges children)\<^sup>* `` set roots"
    using closure_loop_sound [of children "{}" roots] by (simp add: condition_closure_def)
  have all: "set roots \<subseteq> condition_closure roots children"
    and closed: "closed_under children (condition_closure roots children) (condition_closure roots children)"
    using closure_loop_complete [of children "{}" roots] by (simp_all add: condition_closure_def closed_under_def)
  have "v \<in> condition_closure roots children" if "(r, v) \<in> (edges children)\<^sup>*" "r \<in> set roots" for r v
    using that by (induction rule: rtrancl_induct) (use all closed in \<open>auto simp: closed_under_def\<close>)
  then show "(edges children)\<^sup>* `` set roots \<subseteq> condition_closure roots children" by blast
qed

end
