(* ===== verification/GamepackLogic.thy ===== *)
theory GamepackLogic
  imports GamepackShapes ConditionGraph
begin

text \<open>
  The contract of a gamepack's logic, third part (\<open>_validate_executable_logic\<close>): every reference
  resolves, every operand has the type and the domain its place asks for, the conditions form no
  cycle, and every mechanic lists exactly what its action reaches. The registries are dictionaries
  in the order of the document.
\<close>

record registries =
  rg_states :: "json dict dict"
  rg_actions :: "json dict dict"
  rg_conditions :: "json dict dict"
  rg_effects :: "json dict dict"
  rg_rules :: "json dict dict"
  rg_goals :: "json dict dict"
  rg_endings :: "json dict dict"
  rg_events :: "json dict dict"
  rg_hooks :: "json dict dict"
  rg_verbs :: "json dict dict"

definition make_registries :: "json dict \<Rightarrow> registries res" where
  "make_registries logic =
     rbind (record_registry logic ''state_schema'') (\<lambda>states.
     rbind (record_registry logic ''actions'') (\<lambda>actions.
     rbind (record_registry logic ''conditions'') (\<lambda>conditions.
     rbind (record_registry logic ''effects'') (\<lambda>effects.
     rbind (record_registry logic ''rules'') (\<lambda>rules.
     rbind (record_registry logic ''goals'') (\<lambda>goals.
     rbind (record_registry logic ''failures'') (\<lambda>_.
     rbind (record_registry logic ''endings'') (\<lambda>endings.
     rbind (record_registry logic ''events'') (\<lambda>events.
     rbind (record_registry logic ''presentation_hooks'') (\<lambda>hooks.
     rbind (record_registry logic ''mechanics'') (\<lambda>_.
     rbind (reject (goals = []) ''gamepack_logic_invalid'' ''logic.goals must be non-empty'') (\<lambda>_.
     rbind (record_registry logic ''core_verbs'') (\<lambda>verbs.
       Inr \<lparr>rg_states = states, rg_actions = actions, rg_conditions = conditions, rg_effects = effects,
            rg_rules = rules, rg_goals = goals, rg_endings = endings, rg_events = events, rg_hooks = hooks,
            rg_verbs = verbs\<rparr>)))))))))))))"

definition id_of :: "json dict \<Rightarrow> string \<Rightarrow> string res" where
  "id_of ob k = portable_id False (obj_get ob k)"

definition check_known :: "string \<Rightarrow> 'a dict \<Rightarrow> string \<Rightarrow> unit res" where
  "check_known key registry detail = reject (\<not> dict_mem key registry) ''gamepack_logic_invalid'' detail"

definition ids_in :: "json dict dict \<Rightarrow> bool \<Rightarrow> json dict \<Rightarrow> string \<Rightarrow> string list res" where
  "ids_in registry allow_empty ob k = id_array allow_empty False (Some (dict_keys registry)) (obj_get ob k)"

section \<open>Actions\<close>

definition add_parameter_domain ::
  "int \<Rightarrow> value_domain dict \<times> int \<Rightarrow> json \<Rightarrow> (value_domain dict \<times> int) res" where
  "add_parameter_domain limit acc j =
     (case acc of (domains, combinations) \<Rightarrow>
      rbind (obj_of j) (\<lambda>p.
      rbind (id_of p ''id'') (\<lambda>key.
      rbind (reject (dict_mem key domains) ''gamepack_logic_invalid'' ''parameters contains duplicate IDs'') (\<lambda>_.
      rbind (state_domain p) (\<lambda>d.
      rbind (bounded_cardinality limit p) (\<lambda>cardinality.
      rbind (if limit < cardinality then Inr True
             else if cardinality = 0 then Inl ZeroDivisionError
             else Inr (limit div cardinality < combinations)) (\<lambda>exceeded.
      rbind (reject exceeded ''parameter_combinations_exceeded'' ''action exceeds the per-action combination limit'') (\<lambda>_.
        Inr (domains @ [(key, d)], combinations * cardinality)))))))))"

definition combination_limit :: int where "combination_limit = 4096"

definition binding_key :: "json \<Rightarrow> (string \<times> string \<times> string) res" where
  "binding_key j =
     rbind (obj_of j) (\<lambda>b.
     let kind = obj_get b ''kind'' in
     rbind (if kind = JStr ''narrative_option'' then
              rbind (exact_keys b [''kind'', ''source_id'', ''option_id'']) (\<lambda>_. id_of b ''option_id'')
            else
              rbind (one_of kind [''activity'', ''system'']) (\<lambda>plain.
                if plain then rbind (exact_keys b [''kind'', ''source_id'']) (\<lambda>_. Inr '''')
                else logic_invalid ''kind is unsupported'')) (\<lambda>option_id.
     rbind (id_of b ''source_id'') (\<lambda>source_id. Inr (id_text kind, source_id, option_id))))"

definition source_bindings :: "json \<Rightarrow> (string \<times> string \<times> string) list res" where
  "source_bindings j =
     rbind (array_of 16 j) (\<lambda>raw.
     rbind (reject (raw = []) ''gamepack_logic_invalid'' ''source_bindings must be non-empty'') (\<lambda>_.
     rbind (mapR binding_key raw) (\<lambda>keys.
     rbind (reject (\<not> distinct keys) ''gamepack_logic_invalid'' ''source_bindings contains duplicates'') (\<lambda>_.
     rbind (reject (\<not> sorted keys) ''logic_order_invalid'' ''source_bindings is not canonical'') (\<lambda>_. Inr keys)))))"

definition supported_features :: "string list" where
  "supported_features =
     [''logic:branching_choice'', ''logic:deterministic_actions'', ''logic:finite_state'', ''logic:persistent_variables'']"

definition feature_ids :: "json dict \<Rightarrow> string list res" where
  "feature_ids ob = token_array False 64 (obj_get ob ''required_feature_ids'')"

record action_tables =
  at_parameters :: "value_domain dict dict"
  at_bindings :: "(string \<times> string \<times> string) list dict"
  at_verbs :: "string list"

definition check_action :: "registries \<Rightarrow> action_tables \<Rightarrow> json \<Rightarrow> action_tables res" where
  "check_action rg tables j =
     rbind (as_obj j) (\<lambda>action.
     rbind (id_of action ''id'') (\<lambda>action_id.
     rbind (id_of action ''core_verb_id'') (\<lambda>verb.
     rbind (check_known verb (rg_verbs rg) ''references an unknown core verb'') (\<lambda>_.
     rbind (array_of 16 (obj_get action ''parameters'')) (\<lambda>parameters.
     rbind (foldR (add_parameter_domain combination_limit) ([], 1) parameters) (\<lambda>(domains, _).
     rbind (reject (\<not> sorted (map fst domains)) ''logic_order_invalid'' ''parameters is not canonical'') (\<lambda>_.
     rbind (source_bindings (obj_get action ''source_bindings'')) (\<lambda>bindings.
     rbind (ids_in (rg_rules rg) False action ''rule_ids'') (\<lambda>_.
     rbind (ids_in (rg_hooks rg) True action ''presentation_hook_ids'') (\<lambda>_.
     rbind (feature_ids action) (\<lambda>features.
     rbind (reject (\<not> set features \<subseteq> set supported_features) ''required_feature_unsupported'' ''unsupported v1 features'') (\<lambda>_.
       Inr (tables\<lparr>at_parameters := AList.update action_id domains (at_parameters tables),
                   at_bindings := AList.update action_id bindings (at_bindings tables),
                   at_verbs := verb # at_verbs tables\<rparr>)))))))))))))"

definition check_actions :: "json dict \<Rightarrow> registries \<Rightarrow> action_tables res" where
  "check_actions logic rg =
     rbind (collection logic ''actions'') (\<lambda>actions.
     rbind (foldR (check_action rg) \<lparr>at_parameters = [], at_bindings = [], at_verbs = []\<rparr> actions) (\<lambda>tables.
     rbind (reject (set (at_verbs tables) \<noteq> set (dict_keys (rg_verbs rg))) ''gamepack_logic_invalid''
              ''actions do not map the exact core-verb set'') (\<lambda>_.
       Inr tables)))"

section \<open>Conditions\<close>

text \<open>What the operands are checked against: the registries, and the domains of states and parameters.\<close>

record domain_tables =
  dt_registries :: registries
  dt_states :: "value_domain dict"
  dt_parameters :: "value_domain dict dict"

definition operand_in :: "(string \<Rightarrow> bool) \<Rightarrow> domain_tables \<Rightarrow> string option \<Rightarrow> json dict \<Rightarrow> string \<Rightarrow> value_domain res" where
  "operand_in nfc dt scope ob k = operand_domain nfc (dt_states dt) (dt_parameters dt) scope (obj_get ob k)"

definition require_integer :: "(string \<Rightarrow> bool) \<Rightarrow> domain_tables \<Rightarrow> string option \<Rightarrow> json dict \<Rightarrow> string \<Rightarrow> unit res" where
  "require_integer nfc dt scope ob k =
     rbind (operand_in nfc dt scope ob k) (\<lambda>d.
       reject (vd_type d \<noteq> ''integer'') ''operand_type_mismatch'' ''requires integer'')"

definition comparisons :: "string list" where
  "comparisons = [''equal'', ''not_equal'', ''less_than'', ''less_or_equal'', ''greater_than'', ''greater_or_equal'']"

definition check_compare :: "(string \<Rightarrow> bool) \<Rightarrow> domain_tables \<Rightarrow> string option \<Rightarrow> json dict \<Rightarrow> unit res" where
  "check_compare nfc dt scope c =
     (let comparison = obj_get c ''comparison'' in
      rbind (require_one_of comparison comparisons ''operator_unsupported'' ''comparison is unsupported'') (\<lambda>_.
      rbind (operand_in nfc dt scope c ''left'') (\<lambda>l.
      rbind (operand_in nfc dt scope c ''right'') (\<lambda>r.
      rbind (reject (vd_type l \<noteq> vd_type r) ''operand_type_mismatch'' ''compare operand types differ'') (\<lambda>_.
        reject (comparison \<noteq> JStr ''equal'' \<and> comparison \<noteq> JStr ''not_equal'' \<and> vd_type l \<noteq> ''integer'')
          ''operand_type_mismatch'' ''ordered compare requires integers'')))))"

definition check_index_valid :: "(string \<Rightarrow> bool) \<Rightarrow> domain_tables \<Rightarrow> string option \<Rightarrow> json dict \<Rightarrow> unit res" where
  "check_index_valid nfc dt scope c =
     rbind (reject (scope = None) ''condition_scope_invalid'' ''requires an action scope'') (\<lambda>_.
     rbind (portable_id True (obj_get c ''array_state_id'')) (\<lambda>sid.
     rbind (reject (case map_of (dt_states dt) sid of None \<Rightarrow> True | Some d \<Rightarrow> vd_type d \<noteq> ''string_array'')
              ''condition_invalid'' ''requires a known string-array state'') (\<lambda>_.
       require_integer nfc dt scope c ''index'')))"

definition check_distance :: "(string \<Rightarrow> bool) \<Rightarrow> domain_tables \<Rightarrow> string option \<Rightarrow> json dict \<Rightarrow> unit res" where
  "check_distance nfc dt scope c =
     rbind (reject (scope = None) ''condition_scope_invalid'' ''requires an action scope'') (\<lambda>_.
     rbind (for_each (require_integer nfc dt scope c) [''left'', ''right'']) (\<lambda>_.
       reject (obj_get c ''distance'' \<noteq> JInt 1) ''condition_invalid'' ''distance must be exactly 1''))"

text \<open>The children of a condition.\<close>

definition check_operator ::
  "(string \<Rightarrow> bool) \<Rightarrow> domain_tables \<Rightarrow> string option \<Rightarrow> json dict \<Rightarrow> string list res" where
  "check_operator nfc dt scope c =
     (let operator = obj_get c ''operator''; leaf = (\<lambda>check. rbind check (\<lambda>_. Inr [])) in
      if operator = JStr ''constant'' then
        leaf (reject (case obj_get c ''value'' of JBool _ \<Rightarrow> False | _ \<Rightarrow> True) ''condition_invalid'' ''value must be boolean'')
      else if operator = JStr ''compare'' then leaf (check_compare nfc dt scope c)
      else
        rbind (one_of operator [''all'', ''any'']) (\<lambda>compound.
        if compound then ids_in (rg_conditions (dt_registries dt)) False c ''condition_ids''
        else if operator = JStr ''not'' then
          rbind (id_of c ''condition_id'') (\<lambda>child.
          rbind (check_known child (rg_conditions (dt_registries dt)) ''references unknown condition'') (\<lambda>_. Inr [child]))
        else if operator = JStr ''index_valid'' then leaf (check_index_valid nfc dt scope c)
        else if operator = JStr ''integer_distance'' then leaf (check_distance nfc dt scope c)
        else fail ''operator_unsupported'' ''operator is unsupported''))"

definition condition_scope :: "registries \<Rightarrow> json dict \<Rightarrow> string option res" where
  "condition_scope rg c =
     (if obj_get c ''action_id'' = JNull then Inr None
      else
        rbind (id_of c ''action_id'') (\<lambda>aid.
        rbind (check_known aid (rg_actions rg) ''references an unknown action'') (\<lambda>_. Inr (Some aid))))"

type_synonym condition_tables = "string option dict \<times> string list dict"

definition check_condition ::
  "(string \<Rightarrow> bool) \<Rightarrow> domain_tables \<Rightarrow> condition_tables \<Rightarrow> json \<Rightarrow> condition_tables res" where
  "check_condition nfc dt tables j =
     (case tables of (scopes, children) \<Rightarrow>
      rbind (as_obj j) (\<lambda>c.
      rbind (id_of c ''id'') (\<lambda>cid.
      rbind (condition_scope (dt_registries dt) c) (\<lambda>scope.
      rbind (check_operator nfc dt scope c) (\<lambda>cs.
        Inr (AList.update cid scope scopes, AList.update cid cs children))))))"

definition check_scopes :: "condition_tables \<Rightarrow> unit res" where
  "check_scopes tables =
     (case tables of (scopes, children) \<Rightarrow>
      for_each (\<lambda>(key, cs).
        for_each (\<lambda>child.
          rbind (dict_at scopes child) (\<lambda>inner.
          rbind (dict_at scopes key) (\<lambda>outer.
            reject (inner \<noteq> outer) ''condition_scope_invalid'' ''condition graph crosses action scope''))) cs)
        children)"

definition check_conditions :: "(string \<Rightarrow> bool) \<Rightarrow> json dict \<Rightarrow> domain_tables \<Rightarrow> condition_tables res" where
  "check_conditions nfc logic dt =
     rbind (collection logic ''conditions'') (\<lambda>conditions.
     rbind (foldR (check_condition nfc dt) ([], []) conditions) (\<lambda>tables.
     rbind (check_scopes tables) (\<lambda>_.
     rbind (check_cycles (snd tables) (dict_keys (rg_conditions (dt_registries dt)))) (\<lambda>_.
       Inr tables))))"

end
