(* ===== verification/GamepackMechanics.thy ===== *)
theory GamepackMechanics
  imports GamepackLogic
begin

text \<open>
  The rest of \<open>_validate_executable_logic\<close>: effects and the domains they write, hooks, rules, the
  closure of every action, endings, goals, the narrative cursor, failures and mechanics.
\<close>

section \<open>Effects\<close>

definition array_effect :: "json \<Rightarrow> bool res" where
  "array_effect operation = one_of operation [''swap_array_items'', ''append_unique'']"

definition check_append :: "value_domain \<Rightarrow> value_domain \<Rightarrow> unit res" where
  "check_append target d =
     rbind (reject (vd_type d \<noteq> ''string'') ''operand_type_mismatch'' ''value is not string'') (\<lambda>_.
     case (vd_allowed target, vd_allowed d) of
       (Some ys, Some xs) \<Rightarrow> reject (\<not> set xs \<subseteq> set ys) ''operand_domain_invalid'' ''value is not allowed''
     | _ \<Rightarrow> Inl (TypeError ''assert''))"

definition check_operation ::
  "(string \<Rightarrow> bool) \<Rightarrow> domain_tables \<Rightarrow> string \<Rightarrow> value_domain \<Rightarrow> json dict \<Rightarrow> unit res" where
  "check_operation nfc dt aid target e =
     (let operation = obj_get e ''operation''; scope = Some aid in
      if operation = JStr ''set'' then
        rbind (operand_in nfc dt scope e ''value'') (\<lambda>d. domain_subset d target)
      else if operation = JStr ''increment'' then
        rbind (reject (vd_type target \<noteq> ''integer'') ''operand_type_mismatch'' ''increment target is not integer'') (\<lambda>_.
          require_integer nfc dt scope e ''amount'')
      else if operation = JStr ''swap_array_items'' then
        rbind (reject (vd_type target \<noteq> ''string_array'') ''operand_type_mismatch'' ''swap target is not an array'') (\<lambda>_.
          for_each (require_integer nfc dt scope e) [''first_index'', ''second_index''])
      else if operation = JStr ''append_unique'' then
        rbind (reject (vd_type target \<noteq> ''string_array'') ''operand_type_mismatch'' ''append target is not an array'') (\<lambda>_.
        rbind (operand_in nfc dt scope e ''value'') (check_append target))
      else reject (operation \<noteq> JStr ''reset'') ''operator_unsupported'' ''operation is unsupported'')"

definition check_effect :: "(string \<Rightarrow> bool) \<Rightarrow> domain_tables \<Rightarrow> string dict \<Rightarrow> json \<Rightarrow> string dict res" where
  "check_effect nfc dt effect_actions j =
     rbind (as_obj j) (\<lambda>e.
     rbind (id_of e ''id'') (\<lambda>eid.
     rbind (id_of e ''action_id'') (\<lambda>aid.
     rbind (check_known aid (rg_actions (dt_registries dt)) ''references an unknown action'') (\<lambda>_.
     rbind (reject (obj_get e ''invalid_transition_policy'' \<noteq> JStr ''reject_transition'') ''effect_policy_unsupported''
              ''policy is unsupported'') (\<lambda>_.
     rbind (array_effect (obj_get e ''operation'')) (\<lambda>array.
     rbind (portable_id True (obj_get e (if array then ''array_state_id'' else ''state_id''))) (\<lambda>sid.
     rbind (reject (case map_of (rg_states (dt_registries dt)) sid of None \<Rightarrow> True
                    | Some st \<Rightarrow> obj_get st ''mutability'' \<noteq> JStr ''mutable'')
              ''effect_state_invalid'' ''target is unknown or constant'') (\<lambda>_.
     rbind (dict_at (dt_states dt) sid) (\<lambda>target.
     rbind (check_operation nfc dt aid target e) (\<lambda>_.
       Inr (AList.update eid aid effect_actions)))))))))))"

definition check_hook :: "json \<Rightarrow> unit res" where
  "check_hook j =
     rbind (as_obj j) (\<lambda>hook.
     rbind (require_one_of (obj_get hook ''kind'') [''board'', ''text'', ''feedback'', ''ending'']
              ''gamepack_logic_invalid'' ''kind is unsupported'') (\<lambda>_.
     rbind (id_array False False None (obj_get hook ''asset_binding_ids'')) (\<lambda>_. Inr ())))"

section \<open>Rules\<close>

record rule_tables =
  rt_actions :: "string dict"
  rt_conditions :: "string list dict"
  rt_effects :: "string list dict"
  rt_events :: "string list dict"
  rt_orders :: "int list"

definition no_rules :: rule_tables where
  "no_rules = \<lparr>rt_actions = [], rt_conditions = [], rt_effects = [], rt_events = [], rt_orders = []\<rparr>"

text \<open>\<open>any(table[item] != wanted for item in ids)\<close>.\<close>

definition require_all :: "'a dict \<Rightarrow> 'a \<Rightarrow> string list \<Rightarrow> string \<Rightarrow> string \<Rightarrow> unit res" where
  "require_all table wanted ids reason detail =
     for_each (\<lambda>i. rbind (dict_at table i) (\<lambda>v. reject (v \<noteq> wanted) reason detail)) ids"

definition fresh_order :: "int list \<Rightarrow> json \<Rightarrow> int res" where
  "fresh_order seen j =
     (case j of
        JInt i \<Rightarrow> if 0 \<le> i \<and> i \<le> max_safe_integer \<and> i \<notin> set seen then Inr i else logic_invalid ''order is invalid or ambiguous''
      | _ \<Rightarrow> logic_invalid ''order is invalid or ambiguous'')"

definition check_rule ::
  "registries \<Rightarrow> string option dict \<Rightarrow> string dict \<Rightarrow> rule_tables \<Rightarrow> json \<Rightarrow> rule_tables res" where
  "check_rule rg scopes effect_actions rt j =
     rbind (as_obj j) (\<lambda>rule.
     rbind (id_of rule ''id'') (\<lambda>rid.
     rbind (id_of rule ''action_id'') (\<lambda>aid.
     rbind (check_known aid (rg_actions rg) ''references an unknown action'') (\<lambda>_.
     rbind (fresh_order (rt_orders rt) (obj_get rule ''order'')) (\<lambda>order.
     rbind (ids_in (rg_conditions rg) True rule ''condition_ids'') (\<lambda>conditions.
     rbind (require_all scopes (Some aid) conditions ''condition_scope_invalid'' ''condition crosses action scope'') (\<lambda>_.
     rbind (ids_in (rg_effects rg) False rule ''effect_ids'') (\<lambda>effects.
     rbind (require_all effect_actions aid effects ''effect_scope_invalid'' ''effect crosses action scope'') (\<lambda>_.
     rbind (ids_in (rg_events rg) True rule ''event_ids'') (\<lambda>events.
       Inr \<lparr>rt_actions = AList.update rid aid (rt_actions rt),
            rt_conditions = AList.update rid conditions (rt_conditions rt),
            rt_effects = AList.update rid effects (rt_effects rt),
            rt_events = AList.update rid events (rt_events rt),
            rt_orders = order # rt_orders rt\<rparr>))))))))))"

section \<open>What an action reaches\<close>

definition state_operand_ids :: "json dict \<Rightarrow> string list \<Rightarrow> string list" where
  "state_operand_ids ob names =
     concat (map (\<lambda>k. case obj_get ob k of
        JObj operand \<Rightarrow>
          if obj_get operand ''kind'' = JStr ''state''
          then (case obj_get operand ''state_id'' of JStr sid \<Rightarrow> [sid] | _ \<Rightarrow> []) else []
      | _ \<Rightarrow> []) names)"

definition condition_operand_state_ids :: "json dict \<Rightarrow> string list" where
  "condition_operand_state_ids c =
     (let operator = obj_get c ''operator'' in
      (if operator = JStr ''index_valid''
       then (case obj_get c ''array_state_id'' of JStr sid \<Rightarrow> [sid] | _ \<Rightarrow> []) else []) @
      state_operand_ids c
        (if operator = JStr ''compare'' \<or> operator = JStr ''integer_distance'' then [''left'', ''right'']
         else if operator = JStr ''index_valid'' then [''index''] else []))"

definition effect_state_ids :: "json dict \<Rightarrow> string list" where
  "effect_state_ids e =
     (let operation = obj_get e ''operation'';
          k = (if operation = JStr ''swap_array_items'' \<or> operation = JStr ''append_unique''
               then ''array_state_id'' else ''state_id'') in
      id_text (obj_get e k) # state_operand_ids e [''value'', ''amount'', ''first_index'', ''second_index''])"

record closure =
  cl_rules :: "string set"
  cl_conditions :: "string set"
  cl_effects :: "string set"
  cl_events :: "string set"
  cl_states :: "string set"
  cl_hooks :: "string set"
  cl_bindings :: "string set"
  cl_features :: "string set"

definition gather :: "(string \<Rightarrow> 'a list res) \<Rightarrow> string list \<Rightarrow> 'a list res" where
  "gather lookup ids = rbind (mapR lookup ids) (\<lambda>xss. Inr (concat xss))"

definition hook_bindings :: "registries \<Rightarrow> string \<Rightarrow> string list res" where
  "hook_bindings rg k =
     rbind (dict_at (rg_hooks rg) k) (\<lambda>hook.
     rbind (dict_at hook ''asset_binding_ids'') (\<lambda>j.
     rbind (iterated j) (\<lambda>xs. Inr (map id_text xs))))"

text \<open>
  The order in which the code visits the elements of its sets does not matter: every result is a
  set again, and the closure is what is reachable (\<open>condition_closure_eq\<close>).
\<close>

definition action_closure ::
  "registries \<Rightarrow> string list dict \<Rightarrow> rule_tables \<Rightarrow> json \<Rightarrow> (string \<times> closure) res" where
  "action_closure rg children rt j =
     rbind (as_obj j) (\<lambda>action.
     rbind (dict_at action ''id'') (\<lambda>i.
     let aid = id_text i in
     rbind (ids_in (rg_rules rg) False action ''rule_ids'') (\<lambda>rules.
     rbind (require_all (rt_actions rt) aid rules ''gamepack_logic_invalid'' ''references a rule of another action'') (\<lambda>_.
     rbind (reject (set rules \<noteq> fst ` set (filter (\<lambda>(_, owner). owner = aid) (rt_actions rt))) ''gamepack_logic_invalid''
              ''rule_ids is not the exact closure'') (\<lambda>_.
     rbind (gather (dict_at (rt_conditions rt)) rules) (\<lambda>direct.
     rbind (gather (dict_at (rt_effects rt)) rules) (\<lambda>effects.
     rbind (gather (dict_at (rt_events rt)) rules) (\<lambda>events.
     rbind (ids_in (rg_hooks rg) True action ''presentation_hook_ids'') (\<lambda>hooks.
     rbind (gather (hook_bindings rg) hooks) (\<lambda>bindings.
     let conditions = condition_closure direct children in
     rbind (gather (\<lambda>k. rbind (dict_at (rg_conditions rg) k) (\<lambda>c. Inr (condition_operand_state_ids c)))
              (filter (\<lambda>k. k \<in> conditions) (dict_keys (rg_conditions rg)))) (\<lambda>read.
     rbind (gather (\<lambda>k. rbind (dict_at (rg_effects rg) k) (\<lambda>e. Inr (effect_state_ids e))) effects) (\<lambda>written.
     rbind (feature_ids action) (\<lambda>features.
       Inr (aid, \<lparr>cl_rules = set rules, cl_conditions = conditions, cl_effects = set effects, cl_events = set events,
                  cl_states = set read \<union> set written, cl_hooks = set hooks, cl_bindings = set bindings,
                  cl_features = set features\<rparr>))))))))))))))"

section \<open>Endings, goals and failures\<close>

definition require_global :: "string option dict \<Rightarrow> string list \<Rightarrow> unit res" where
  "require_global scopes ids = require_all scopes None ids ''condition_scope_invalid'' ''requires global conditions''"

type_synonym ending_tables = "(string list \<times> string) dict"

definition check_ending :: "registries \<Rightarrow> string option dict \<Rightarrow> ending_tables \<Rightarrow> json \<Rightarrow> ending_tables res" where
  "check_ending rg scopes tables j =
     rbind (as_obj j) (\<lambda>ending.
     rbind (id_of ending ''id'') (\<lambda>eid.
     rbind (require_one_of (obj_get ending ''kind'') [''success'', ''failure'', ''neutral'']
              ''ending_kind_unsupported'' ''kind is unsupported'') (\<lambda>_.
     rbind (ids_in (rg_conditions rg) False ending ''condition_ids'') (\<lambda>conditions.
     rbind (require_global scopes conditions) (\<lambda>_.
     rbind (ids_in (rg_events rg) True ending ''event_ids'') (\<lambda>_.
     rbind (ids_in (rg_hooks rg) False ending ''presentation_hook_ids'') (\<lambda>_.
       Inr (AList.update eid (conditions, id_text (obj_get ending ''kind'')) tables))))))))"

definition check_goal :: "registries \<Rightarrow> string option dict \<Rightarrow> ending_tables \<Rightarrow> json \<Rightarrow> unit res" where
  "check_goal rg scopes tables j =
     rbind (as_obj j) (\<lambda>goal.
     rbind (ids_in (rg_conditions rg) False goal ''condition_ids'') (\<lambda>conditions.
     rbind (require_global scopes conditions) (\<lambda>_.
     rbind (id_of goal ''success_ending_id'') (\<lambda>eid.
     rbind (check_known eid (rg_endings rg) ''requires a success ending'') (\<lambda>_.
     rbind (dict_at tables eid) (\<lambda>(wanted, kind).
     rbind (reject (kind \<noteq> ''success'') ''gamepack_logic_invalid'' ''requires a success ending'') (\<lambda>_.
       reject (set conditions \<noteq> set wanted) ''gamepack_logic_invalid'' ''does not match its success ending'')))))))"

definition check_narrative_cursor :: "json dict \<Rightarrow> registries \<Rightarrow> unit res" where
  "check_narrative_cursor logic rg =
     (let cursor = obj_get logic ''narrative_cursor'';
          owned = filter (\<lambda>(_, st). obj_get st ''compiler_owned'' = JBool True) (rg_states rg) in
      if cursor = JNull then
        reject (owned \<noteq> []) ''narrative_transition_invalid'' ''narrative-free logic cannot declare compiler-owned state''
      else
        rbind (obj_of cursor) (\<lambda>ob.
          reject (length owned \<noteq> 1 \<or>
                  (case map_of (rg_states rg) ''wf_internal_narrative_cursor'' of None \<Rightarrow> True
                   | Some st \<Rightarrow> \<not> py_eq (JObj st) (JObj ob)))
            ''narrative_transition_invalid'' ''state_schema must contain the exact compiler-owned narrative cursor''))"

definition check_failure :: "registries \<Rightarrow> string option dict \<Rightarrow> json \<Rightarrow> unit res" where
  "check_failure rg scopes j =
     rbind (as_obj j) (\<lambda>failure.
     rbind (ids_in (rg_conditions rg) False failure ''condition_ids'') (\<lambda>conditions.
     rbind (require_global scopes conditions) (\<lambda>_.
     rbind (ids_in (rg_actions rg) False failure ''recovery_action_ids'') (\<lambda>_. Inr ()))))"

section \<open>Mechanics\<close>

definition mechanic_closure :: "registries \<Rightarrow> json dict \<Rightarrow> closure res" where
  "mechanic_closure rg m =
     rbind (id_array False True (Some (dict_keys (rg_states rg))) (obj_get m ''authoritative_state_ids'')) (\<lambda>states.
     rbind (ids_in (rg_conditions rg) True m ''condition_ids'') (\<lambda>conditions.
     rbind (ids_in (rg_rules rg) False m ''rule_ids'') (\<lambda>rules.
     rbind (ids_in (rg_effects rg) False m ''effect_ids'') (\<lambda>effects.
     rbind (ids_in (rg_events rg) True m ''event_ids'') (\<lambda>events.
     rbind (ids_in (rg_hooks rg) False m ''presentation_hook_ids'') (\<lambda>hooks.
     rbind (id_array False False None (obj_get m ''asset_binding_ids'')) (\<lambda>bindings.
     rbind (feature_ids m) (\<lambda>features.
       Inr \<lparr>cl_rules = set rules, cl_conditions = set conditions, cl_effects = set effects, cl_events = set events,
            cl_states = set states, cl_hooks = set hooks, cl_bindings = set bindings, cl_features = set features\<rparr>))))))))"

definition check_mechanic :: "registries \<Rightarrow> closure dict \<Rightarrow> string list \<Rightarrow> json \<Rightarrow> string list res" where
  "check_mechanic rg closures seen j =
     rbind (as_obj j) (\<lambda>m.
     rbind (id_of m ''action_id'') (\<lambda>aid.
     case (if aid \<in> set seen then None else map_of (rg_actions rg) aid) of
       None \<Rightarrow> logic_invalid ''action is unknown or duplicated''
     | Some action \<Rightarrow>
         rbind (id_of m ''core_verb_id'') (\<lambda>verb.
         rbind (reject (obj_get action ''core_verb_id'' \<noteq> JStr verb) ''gamepack_logic_invalid''
                  ''core verb differs from its action'') (\<lambda>_.
         rbind (mechanic_closure rg m) (\<lambda>actual.
         rbind (dict_at closures aid) (\<lambda>expected.
         rbind (reject (actual \<noteq> expected) ''gamepack_logic_invalid'' ''is not the exact action closure'') (\<lambda>_.
           Inr (aid # seen))))))))"

section \<open>The whole check\<close>

record executable =
  ex_registries :: registries
  ex_scopes :: "string option dict"
  ex_children :: "string list dict"
  ex_closures :: "closure dict"
  ex_bindings :: "(string \<times> string \<times> string) list dict"

definition check_description :: "(string \<Rightarrow> bool) \<Rightarrow> json \<Rightarrow> unit res" where
  "check_description nfc j =
     rbind (as_obj j) (\<lambda>ob. rbind (non_empty_string nfc 512 (obj_get ob ''description'')) (\<lambda>_. Inr ()))"

definition state_domains :: "registries \<Rightarrow> value_domain dict res" where
  "state_domains rg = mapR (\<lambda>(key, st). rbind (state_domain st) (\<lambda>d. Inr (key, d))) (rg_states rg)"

definition loop_over :: "json dict \<Rightarrow> string \<Rightarrow> ('s \<Rightarrow> json \<Rightarrow> 's res) \<Rightarrow> 's \<Rightarrow> 's res" where
  "loop_over logic name step s = rbind (collection logic name) (foldR step s)"

definition validate_executable_logic :: "(string \<Rightarrow> bool) \<Rightarrow> json dict \<Rightarrow> executable res" where
  "validate_executable_logic nfc logic =
     rbind (make_registries logic) (\<lambda>rg.
     rbind (loop_over logic ''core_verbs'' (\<lambda>_. check_description nfc) ()) (\<lambda>_.
     rbind (state_domains rg) (\<lambda>domains.
     rbind (check_actions logic rg) (\<lambda>actions.
     let dt = \<lparr>dt_registries = rg, dt_states = domains, dt_parameters = at_parameters actions\<rparr> in
     rbind (check_conditions nfc logic dt) (\<lambda>(scopes, children).
     rbind (loop_over logic ''effects'' (check_effect nfc dt) []) (\<lambda>effect_actions.
     rbind (loop_over logic ''presentation_hooks'' (\<lambda>_. check_hook) ()) (\<lambda>_.
     rbind (loop_over logic ''rules'' (check_rule rg scopes effect_actions) no_rules) (\<lambda>rules.
     rbind (rbind (collection logic ''actions'') (mapR (action_closure rg children rules))) (\<lambda>closures.
     rbind (loop_over logic ''endings'' (check_ending rg scopes) []) (\<lambda>endings.
     rbind (loop_over logic ''goals'' (\<lambda>_. check_goal rg scopes endings) ()) (\<lambda>_.
     rbind (check_narrative_cursor logic rg) (\<lambda>_.
     rbind (loop_over logic ''failures'' (\<lambda>_. check_failure rg scopes) ()) (\<lambda>_.
     rbind (loop_over logic ''mechanics'' (check_mechanic rg closures) []) (\<lambda>seen.
     rbind (reject (set seen \<noteq> set (dict_keys (rg_actions rg))) ''gamepack_logic_invalid''
              ''every action requires exactly one mechanic'') (\<lambda>_.
       Inr \<lparr>ex_registries = rg, ex_scopes = scopes, ex_children = children, ex_closures = closures,
            ex_bindings = at_bindings actions\<rparr>)))))))))))))))"

end
