(* ===== verification/GamepackDomains.thy ===== *)
theory GamepackDomains
  imports GamepackMechanics GamepackSafety
begin

text \<open>
  What the checked domains mean: a state or a parameter is in the domain of its record exactly when
  the session accepts its value, an operand evaluates to a member of its domain, and a domain that
  passes \<open>_domain_subset\<close> is contained in its target.
\<close>

section \<open>Members of a domain\<close>

definition domain_member :: "value_domain \<Rightarrow> json \<Rightarrow> bool" where
  "domain_member d v =
     (if vd_type d = ''boolean'' then (case v of JBool _ \<Rightarrow> True | _ \<Rightarrow> False)
      else if vd_type d = ''integer'' then
        (case (v, vd_minimum d, vd_maximum d) of (JInt i, Some lo, Some hi) \<Rightarrow> lo \<le> i \<and> i \<le> hi | _ \<Rightarrow> False)
      else if vd_type d = ''string'' then
        (case (v, vd_allowed d) of (JStr s, Some xs) \<Rightarrow> s \<in> set xs | _ \<Rightarrow> False)
      else if vd_type d = ''string_array'' then
        (case (v, vd_allowed d, vd_min_items d, vd_max_items d) of
           (JArr xs, Some ys, Some lo, Some hi) \<Rightarrow>
             distinct_strings xs \<and> set (map id_text xs) \<subseteq> set ys \<and> lo \<le> int (length xs) \<and> int (length xs) \<le> hi
         | _ \<Rightarrow> False)
      else False)"

lemma member_arr: "domain_member d v \<Longrightarrow> vd_type d = ''string_array'' \<Longrightarrow> \<exists>xs. v = JArr xs"
  by (cases v) (simp_all add: domain_member_def)

lemma member_int: "domain_member d v \<Longrightarrow> vd_type d = ''integer'' \<Longrightarrow> \<exists>i. v = JInt i"
  by (cases v) (simp_all add: domain_member_def)

lemma member_str: "domain_member d v \<Longrightarrow> vd_type d = ''string'' \<Longrightarrow> \<exists>s. v = JStr s"
  by (cases v) (simp_all add: domain_member_def)

text \<open>A record that says what the domain says.\<close>

definition declares :: "json dict \<Rightarrow> value_domain \<Rightarrow> bool" where
  "declares ob d \<longleftrightarrow>
     obj_get ob ''type'' = JStr (vd_type d) \<and>
     (vd_type d = ''boolean'' \<or>
      vd_type d = ''integer'' \<and>
        (\<exists>lo hi. obj_get ob ''minimum'' = JInt lo \<and> obj_get ob ''maximum'' = JInt hi \<and>
           vd_minimum d = Some lo \<and> vd_maximum d = Some hi) \<or>
      vd_type d \<in> {''string'', ''string_array''} \<and>
        (\<exists>ss. obj_get ob ''allowed_values'' = JArr (map JStr ss) \<and> vd_allowed d = Some ss) \<and>
        (vd_type d = ''string_array'' \<longrightarrow>
          (\<exists>lo hi. obj_get ob ''min_items'' = JInt lo \<and> obj_get ob ''max_items'' = JInt hi \<and>
             vd_min_items d = Some lo \<and> vd_max_items d = Some hi)))"

lemma obj_get_map_of: "obj_get ob k = v \<Longrightarrow> v \<noteq> JNull \<Longrightarrow> map_of ob k = Some v"
  by (auto simp: obj_get_def split: option.splits)

lemma texts_eq: "list_all (bounded_text nfc) xs \<Longrightarrow> xs = map JStr (map id_text xs)"
  by (induction xs) (auto simp: bounded_text_def id_text_def split: json.splits)

lemma map_id_text_JStr [simp]: "map (id_text \<circ> JStr) ss = ss"
  by (induction ss) simp_all

lemma map_JStr_eq [simp]: "map JStr ss = map JStr ts \<longleftrightarrow> ss = ts"
  by (rule inj_map_eq_map) (simp add: inj_def)

lemma JStr_image_subset [simp]: "JStr ` A \<subseteq> JStr ` B \<longleftrightarrow> A \<subseteq> B"
  by auto

lemma checked_strings_ok:
  assumes "checked_strings nfc reason allow_empty canonical j = Inr xs"
  obtains ss where "j = JArr (map JStr ss)" and "xs = map JStr ss" and "distinct ss" and "length ss \<le> 256"
proof -
  have "j = JArr xs" "list_all (bounded_text nfc) xs" "distinct xs" "length xs \<le> 256"
    using assms by (auto simp: checked_strings_def split: json.splits)
  then have "xs = map JStr (map id_text xs)" using texts_eq by blast
  with \<open>j = JArr xs\<close> \<open>distinct xs\<close> \<open>length xs \<le> 256\<close> show thesis
    by (metis distinct_map length_map that)
qed

text \<open>The type and the arrays of a record are the same in the checks of states and of parameters.\<close>

definition domain_shape :: "json dict \<Rightarrow> bool" where
  "domain_shape ob \<longleftrightarrow>
     obj_get ob ''type'' = JStr ''boolean'' \<or>
     obj_get ob ''type'' = JStr ''integer'' \<and>
       (\<exists>lo hi. obj_get ob ''minimum'' = JInt lo \<and> obj_get ob ''maximum'' = JInt hi \<and>
          - max_safe_integer \<le> lo \<and> lo \<le> hi \<and> hi \<le> max_safe_integer) \<or>
     obj_get ob ''type'' \<in> {JStr ''string'', JStr ''string_array''} \<and>
       (\<exists>ss. obj_get ob ''allowed_values'' = JArr (map JStr ss) \<and> distinct ss) \<and>
       (obj_get ob ''type'' = JStr ''string_array'' \<longrightarrow>
         (\<exists>lo hi. obj_get ob ''min_items'' = JInt lo \<and> obj_get ob ''max_items'' = JInt hi \<and>
            0 \<le> lo \<and> lo \<le> hi \<and> hi \<le> int (length (case obj_get ob ''allowed_values'' of JArr xs \<Rightarrow> xs | _ \<Rightarrow> []))))"

lemma state_fields_type:
  "state_fields ob owned = Inr names \<Longrightarrow>
     obj_get ob ''type'' \<in> JStr ` {''boolean'', ''integer'', ''string'', ''string_array''}"
  by (auto simp: state_fields_def Let_def split: if_splits)

lemma not_case_int:
  "\<not> (case x of JInt a \<Rightarrow> Q a | _ \<Rightarrow> True) \<longleftrightarrow> (\<exists>a. x = JInt a \<and> \<not> Q a)"
  by (simp split: json.split)

lemma not_case_bool: "\<not> (case x of JBool _ \<Rightarrow> False | _ \<Rightarrow> True) \<longleftrightarrow> (\<exists>b. x = JBool b)"
  by (simp split: json.split)

lemma state_shape:
  assumes "check_state_shape nfc (JObj ob) = Inr u"
  shows "domain_shape ob"
proof -
  obtain names where fields: "state_fields ob (obj_get ob ''compiler_owned'' = JBool True) = Inr names"
    and valid: "validate_state_domain nfc ob = Inr u"
    using assms by (auto simp: check_state_shape_def obj_of_def)
  show ?thesis
    using state_fields_type [OF fields] valid
    by (auto simp: validate_state_domain_def domain_shape_def Let_def not_case_int elim!: checked_strings_ok)
      (metis order.trans)
qed

lemma parameter_shape:
  assumes "check_parameter_shape nfc (JObj ob) = Inr u"
  shows "domain_shape ob"
proof -
  obtain names where fields: "parameter_fields (obj_get ob ''type'') = Inr names"
    and valid: "validate_parameter_domain nfc ob = Inr u"
    using assms by (auto simp: check_parameter_shape_def obj_of_def)
  show ?thesis
    using fields valid
    by (auto simp: parameter_fields_def validate_parameter_domain_def domain_shape_def Let_def not_case_int
        split: if_splits elim!: checked_strings_ok)
qed

lemma dict_at_obj_get: "obj_get ob k = v \<Longrightarrow> v \<noteq> JNull \<Longrightarrow> dict_at ob k = Inr v"
  by (simp add: dict_at_def obj_get_map_of)

lemma declared_domain:
  assumes "domain_shape ob"
  shows "\<exists>d. state_domain ob = Inr d \<and> declares ob d"
proof -
  have int: "int_field ob k = Inr i" if "obj_get ob k = JInt i" for k i
    using that by (simp add: int_field_def dict_at_obj_get as_int_def)
  show ?thesis
    using assms int unfolding domain_shape_def
    by (elim disjE conjE)
      (auto simp: state_domain_def dict_at_obj_get Let_def plain_domain_def iterated_def declares_def comp_def)
qed

lemma declared_domain_eq: "domain_shape ob \<Longrightarrow> state_domain ob = Inr d \<Longrightarrow> declares ob d"
  using declared_domain by fastforce

section \<open>The session checks membership\<close>

lemma set_JStr_subset: "list_all is_str xs \<Longrightarrow> set xs \<subseteq> JStr ` set ss \<longleftrightarrow> set (map id_text xs) \<subseteq> set ss"
  by (auto simp: list_all_iff is_str_iff image_iff subset_iff) (metis id_text_JStr)

lemma allowed_values_eq: "obj_get ob ''allowed_values'' = JArr xs \<Longrightarrow> allowed_values ob = JArr xs"
  by (auto simp: allowed_values_def obj_get_or_def obj_get_def split: option.splits)

lemma in_domain_member:
  assumes "declares ob d"
  shows "in_domain safe ob v = Inr (domain_member d v \<and>
    (safe \<longrightarrow> vd_type d = ''integer'' \<longrightarrow> (\<forall>i. v = JInt i \<longrightarrow> safe_integer i)))"
  using assms unfolding declares_def
proof (elim conjE disjE exE)
  fix ss
  assume kind: "obj_get ob ''type'' = JStr (vd_type d)" and "vd_type d \<in> {''string'', ''string_array''}"
    and allowed: "obj_get ob ''allowed_values'' = JArr (map JStr ss)" "vd_allowed d = Some ss"
    and items: "vd_type d = ''string_array'' \<longrightarrow>
      (\<exists>lo hi. obj_get ob ''min_items'' = JInt lo \<and> obj_get ob ''max_items'' = JInt hi \<and>
         vd_min_items d = Some lo \<and> vd_max_items d = Some hi)"
  then consider "vd_type d = ''string''" | "vd_type d = ''string_array''" by blast
  then show ?thesis
  proof cases
    case 1
    then show ?thesis
      using kind allowed
      by (auto simp: in_domain_def domain_member_def Let_def contained_def iterated_def allowed_values_eq split: json.split)
  next
    case 2
    with items obtain lo hi where "obj_get ob ''min_items'' = JInt lo" "obj_get ob ''max_items'' = JInt hi"
      "vd_min_items d = Some lo" "vd_max_items d = Some hi" by blast
    then show ?thesis
      using 2 kind allowed set_JStr_subset [of _ ss]
      by (auto simp: in_domain_def domain_member_def Let_def set_from_def iterated_def allowed_values_eq as_int_def
          distinct_strings_def list_all_iff hashable_def split: json.split)
  qed
qed (auto simp: in_domain_def domain_member_def Let_def as_int_def split: json.split)

section \<open>Subdomains and operands\<close>

lemma domain_subset_sound:
  assumes "domain_subset source target = Inr u" and "domain_member source v"
  shows "domain_member target v"
proof -
  have same: "vd_type source = vd_type target"
    using assms(1) by (auto simp: domain_subset_def)
  consider "vd_type target = ''boolean''" | "vd_type target = ''integer''" | "vd_type target = ''string''"
    | "vd_type target = ''string_array''"
    using assms(2) same by (auto simp: domain_member_def split: if_splits)
  then show ?thesis
  proof cases
    case 4
    with assms same show ?thesis
      by (simp add: domain_subset_def domain_member_def bounds_within_def split: json.splits option.splits if_splits)
        (auto simp: image_subset_iff subset_iff)
  qed (use assms same in \<open>auto simp: domain_subset_def domain_member_def bounds_within_def split: json.splits option.splits if_splits\<close>)
qed

text \<open>The state and the parameters an operand may read.\<close>

definition state_matches :: "value_domain dict \<Rightarrow> json dict \<Rightarrow> bool" where
  "state_matches domains st \<longleftrightarrow>
     (\<forall>sid d. map_of domains sid = Some d \<longrightarrow> (\<exists>v. map_of st sid = Some v \<and> domain_member d v))"

definition parameters_match :: "value_domain dict dict \<Rightarrow> string option \<Rightarrow> json dict \<Rightarrow> bool" where
  "parameters_match domains scope params \<longleftrightarrow>
     (case scope of None \<Rightarrow> True
      | Some aid \<Rightarrow> (case map_of domains aid of None \<Rightarrow> True | Some ds \<Rightarrow> state_matches ds params))"

lemma state_matchesD:
  "state_matches domains st \<Longrightarrow> map_of domains sid = Some d \<Longrightarrow> \<exists>v. map_of st sid = Some v \<and> domain_member d v"
  by (simp add: state_matches_def)

lemma portable_id_ok: "portable_id internal j = Inr s \<Longrightarrow> j = JStr s \<and> runtime_id s"
  by (auto simp: portable_id_def split: json.splits if_splits)

lemma non_empty_string_ok: "non_empty_string nfc maximum j = Inr s \<Longrightarrow> j = JStr s"
  by (auto simp: non_empty_string_def split: json.splits if_splits)

lemma non_empty_strings_ok: "mapR (non_empty_string nfc maximum) xs = Inr ss \<Longrightarrow> xs = map JStr ss"
proof (induction xs arbitrary: ss)
  case (Cons x xs)
  then show ?case by (auto dest!: non_empty_string_ok)
qed simp

lemma distinct_strings_JStr [simp]: "distinct_strings (map JStr ss) \<longleftrightarrow> distinct ss"
  by (auto simp: distinct_strings_def list_all_iff is_str_def distinct_map intro: inj_onI)

lemma literal_sound: "literal_domain nfc kind v = Inr d \<Longrightarrow> domain_member d v"
  by (auto simp: literal_domain_def domain_member_def plain_domain_def split: if_splits json.splits
      dest!: non_empty_string_ok non_empty_strings_ok)

lemma operand_sound:
  assumes "operand_domain nfc domains parameter_domains scope j = Inr d"
    and "state_matches domains st" and "parameters_match parameter_domains scope params"
  shows "\<exists>v. operand_value st params scope j = Inr v \<and> domain_member d v"
proof -
  obtain ob where j: "j = JObj ob" and known: "validate_operand j = Inr ()"
    and rest: "(if obj_get ob ''kind'' = JStr ''literal''
        then literal_domain nfc (obj_get ob ''value_type'') (obj_get ob ''value'')
      else if obj_get ob ''kind'' = JStr ''state'' then
        rbind (portable_id True (obj_get ob ''state_id'')) (\<lambda>sid.
          case map_of domains sid of None \<Rightarrow> fail ''operand_invalid'' ''references an unknown state'' | Some d \<Rightarrow> Inr d)
      else
        rbind (portable_id False (obj_get ob ''action_id'')) (\<lambda>aid.
        rbind (portable_id False (obj_get ob ''parameter_id'')) (\<lambda>pid.
        rbind (reject (scope \<noteq> Some aid) ''operand_invalid'' ''parameter action is out of scope'') (\<lambda>_.
          case map_of parameter_domains aid of
            None \<Rightarrow> fail ''operand_invalid'' ''references an unknown action parameter''
          | Some ds \<Rightarrow>
              (case map_of ds pid of None \<Rightarrow> fail ''operand_invalid'' ''references an unknown action parameter''
               | Some d \<Rightarrow> Inr d))))) = Inr d"
    using assms(1) by (auto simp: operand_domain_def obj_of_def Let_def split: json.splits)
  consider (literal) "obj_get ob ''kind'' = JStr ''literal''" | (state) "obj_get ob ''kind'' = JStr ''state''"
    | (parameter) "obj_get ob ''kind'' = JStr ''parameter''"
    using known by (auto simp: validate_operand_def obj_of_def j Let_def split: if_splits)
  then show ?thesis
  proof cases
    case literal
    with rest literal_sound show ?thesis by (auto simp: operand_value_def j)
  next
    case state
    with rest obtain sid where "obj_get ob ''state_id'' = JStr sid" "map_of domains sid = Some d"
      by (auto dest!: portable_id_ok split: option.splits)
    with state state_matchesD [OF assms(2)] show ?thesis by (force simp: operand_value_def j)
  next
    case parameter
    with rest obtain aid pid ds where "obj_get ob ''action_id'' = JStr aid" "obj_get ob ''parameter_id'' = JStr pid"
      "scope = Some aid" "map_of parameter_domains aid = Some ds" "map_of ds pid = Some d"
      by (auto dest!: portable_id_ok split: option.splits)
    moreover from this assms(3) have "state_matches ds params" by (simp add: parameters_match_def)
    ultimately show ?thesis using parameter state_matchesD by (force simp: operand_value_def j)
  qed
qed

end
