(* ===== verification/GamepackSoundness.thy ===== *)
theory GamepackSoundness
  imports GamepackDomains
begin

text \<open>
  The checks of the contract are enough: in a gamepack whose logic was accepted, every condition
  evaluates to a boolean, and an effect can only fail by leaving the domain of its state.
\<close>

section \<open>Registries\<close>

definition registry_of :: "json dict dict \<Rightarrow> json list \<Rightarrow> bool" where
  "registry_of reg items \<longleftrightarrow>
     items = map (JObj \<circ> snd) reg \<and> distinct (map fst reg) \<and> (\<forall>(k, ob) \<in> set reg. obj_get ob ''id'' = JStr k)"

lemma register_ok:
  "register internal acc j = Inr acc' \<Longrightarrow>
     \<exists>ob k. j = JObj ob \<and> obj_get ob ''id'' = JStr k \<and> k \<notin> fst ` set acc \<and> acc' = acc @ [(k, ob)]"
  by (auto simp: register_def obj_of_def dict_mem_def map_of_eq_None_iff split: json.splits dest!: portable_id_ok)

lemma register_all:
  "foldR (register internal) acc items = Inr reg \<Longrightarrow>
     \<exists>new. reg = acc @ new \<and> items = map (JObj \<circ> snd) new \<and> distinct (map fst new) \<and>
       fst ` set new \<inter> fst ` set acc = {} \<and> (\<forall>(k, ob) \<in> set new. obj_get ob ''id'' = JStr k)"
proof (induction items arbitrary: acc)
  case (Cons j items)
  then obtain ob k where j: "j = JObj ob" "obj_get ob ''id'' = JStr k" "k \<notin> fst ` set acc"
    and rest: "foldR (register internal) (acc @ [(k, ob)]) items = Inr reg"
    by (fastforce dest!: register_ok)
  from Cons.IH [OF rest] obtain new where new: "reg = acc @ (k, ob) # new" "items = map (JObj \<circ> snd) new"
    "distinct (map fst new)" "fst ` set new \<inter> fst ` set (acc @ [(k, ob)]) = {}"
    "\<forall>(k, ob) \<in> set new. obj_get ob ''id'' = JStr k" by auto
  with j show ?case by (intro exI [of _ "(k, ob) # new"]) auto
qed simp

lemma collection_iff: "collection logic name = Inr items \<longleftrightarrow> obj_get logic name = JArr items"
  by (auto simp: collection_def as_arr_def split: json.splits)

lemma record_registry_ok:
  assumes "record_registry logic name = Inr reg"
  obtains items where "collection logic name = Inr items" and "registry_of reg items"
proof -
  obtain items where items: "collection logic name = Inr items"
    and run: "foldR (register (name = ''state_schema'' \<or> name = ''narrative_transitions'')) [] items = Inr reg"
    using assms by (auto simp: record_registry_def)
  from register_all [OF run] show thesis
    by (intro that [OF items]) (auto simp: registry_of_def)
qed

lemma index_registry:
  assumes "registry_of reg items"
  shows "index_records (JArr items) ctx = Inr reg"
proof -
  have objs: "mapR as_obj (map (JObj \<circ> snd) reg) = Inr (map snd reg)" for reg :: "json dict dict"
    by (induction reg) (simp_all add: as_obj_def)
  have "foldR (index_record ctx) acc (map snd new) = Inr (acc @ new)"
    if "distinct (map fst new)" "fst ` set new \<inter> fst ` set acc = {}" "\<forall>(k, ob) \<in> set new. obj_get ob ''id'' = JStr k"
    for new acc
    using that
  proof (induction new arbitrary: acc)
    case (Cons entry new)
    obtain k ob where [simp]: "entry = (k, ob)" by (cases entry)
    have "\<not> dict_mem k acc" using Cons.prems by (auto simp: dict_mem_def map_of_eq_None_iff)
    with Cons show ?case by (auto simp: index_record_def)
  qed simp
  from this [of reg "[]"] assms show ?thesis
    by (auto simp: index_records_def records_def registry_of_def objs is_obj_def list_all_iff)
qed

lemma registry_map_of: "registry_of reg items \<Longrightarrow> (k, ob) \<in> set reg \<longleftrightarrow> map_of reg k = Some ob"
  by (auto simp: registry_of_def)

section \<open>Loops that fill a table\<close>

text \<open>A loop over the records of a registry whose steps set the entry of their record in a table.\<close>

definition fills :: "('s \<Rightarrow> json \<Rightarrow> 's res) \<Rightarrow> ('s \<Rightarrow> 'x dict) \<Rightarrow> (json dict \<Rightarrow> 'x \<Rightarrow> bool) \<Rightarrow> bool" where
  "fills step table P \<longleftrightarrow>
     (\<forall>s ob s' k. step s (JObj ob) = Inr s' \<longrightarrow> obj_get ob ''id'' = JStr k \<longrightarrow>
        (\<exists>x. table s' = AList.update k x (table s) \<and> P ob x))"

lemma fillsD:
  "fills step table P \<Longrightarrow> step s (JObj ob) = Inr s' \<Longrightarrow> obj_get ob ''id'' = JStr k \<Longrightarrow>
     \<exists>x. table s' = AList.update k x (table s) \<and> P ob x"
  by (simp add: fills_def)

lemma fold_table:
  assumes "foldR step s (map (JObj \<circ> snd) reg) = Inr s'" and "distinct (map fst reg)"
    and "\<forall>(k, ob) \<in> set reg. obj_get ob ''id'' = JStr k"
    and step: "fills step table P"
  shows "(\<forall>(k, ob) \<in> set reg. \<exists>x. map_of (table s') k = Some x \<and> P ob x) \<and>
    (\<forall>k. k \<notin> fst ` set reg \<longrightarrow> map_of (table s') k = map_of (table s) k) \<and>
    fst ` set (table s') = fst ` set (table s) \<union> fst ` set reg"
  using assms(1-3)
proof (induction reg arbitrary: s)
  case (Cons entry reg)
  obtain k ob where entry [simp]: "entry = (k, ob)" by (cases entry)
  obtain s1 where head: "step s (JObj ob) = Inr s1" and tail: "foldR step s1 (map (JObj \<circ> snd) reg) = Inr s'"
    using Cons.prems(1) by (auto simp: comp_def)
  obtain x where x: "table s1 = AList.update k x (table s)" "P ob x"
    using fillsD [OF step head, of k] Cons.prems(3) by auto
  have IH: "\<forall>(k, ob) \<in> set reg. \<exists>x. map_of (table s') k = Some x \<and> P ob x"
    "\<forall>k. k \<notin> fst ` set reg \<longrightarrow> map_of (table s') k = map_of (table s1) k"
    "fst ` set (table s') = fst ` set (table s1) \<union> fst ` set reg"
    using Cons.IH [OF tail] Cons.prems(2,3) by auto
  have "k \<notin> fst ` set reg" using Cons.prems(2) by auto
  then have "map_of (table s') k = Some x" using IH(2) x by (simp add: update_conv)
  with IH(1) x(2) have "\<forall>(k, ob) \<in> set (entry # reg). \<exists>x. map_of (table s') k = Some x \<and> P ob x" by auto
  moreover have "\<forall>j. j \<notin> fst ` set (entry # reg) \<longrightarrow> map_of (table s') j = map_of (table s) j"
    using IH(2) x by (simp add: update_conv)
  moreover have "fst ` set (table s') = fst ` set (table s) \<union> fst ` set (entry # reg)"
    unfolding IH(3) x(1) dom_update by auto
  ultimately show ?case by (intro conjI)
qed simp

lemma registry_table:
  assumes "foldR step s items = Inr s'" and "registry_of reg items"
    and "fills step table P"
  shows "map_of reg k = Some ob \<Longrightarrow> \<exists>x. map_of (table s') k = Some x \<and> P ob x"
    and "table s = [] \<Longrightarrow> fst ` set (table s') = fst ` set reg"
proof -
  have reg: "items = map (JObj \<circ> snd) reg" "distinct (map fst reg)" "\<forall>(k, ob) \<in> set reg. obj_get ob ''id'' = JStr k"
    using assms(2) by (simp_all add: registry_of_def)
  note filled = fold_table [OF assms(1) [unfolded reg(1)] reg(2,3) assms(3)]
  show "\<exists>x. map_of (table s') k = Some x \<and> P ob x" if "map_of reg k = Some ob"
    using conjunct1 [OF filled] map_of_SomeD [OF that] by fastforce
  show "fst ` set (table s') = fst ` set reg" if "table s = []"
    using conjunct2 [OF conjunct2 [OF filled]] that by simp
qed

section \<open>What an accepted logic is checked against\<close>

definition checked_with :: "(string \<Rightarrow> bool) \<Rightarrow> json dict \<Rightarrow> executable \<Rightarrow> domain_tables \<Rightarrow> bool" where
  "checked_with nfc logic ex dt \<longleftrightarrow>
     dt_registries dt = ex_registries ex \<and>
     make_registries logic = Inr (ex_registries ex) \<and>
     state_domains (ex_registries ex) = Inr (dt_states dt) \<and>
     (\<exists>tables. check_actions logic (ex_registries ex) = Inr tables \<and> dt_parameters dt = at_parameters tables) \<and>
     check_conditions nfc logic dt = Inr (ex_scopes ex, ex_children ex) \<and>
     (\<exists>owners rules. loop_over logic ''effects'' (check_effect nfc dt) [] = Inr owners \<and>
        loop_over logic ''rules'' (check_rule (ex_registries ex) (ex_scopes ex) owners) no_rules = Inr rules \<and>
        rbind (collection logic ''actions'') (mapR (action_closure (ex_registries ex) (ex_children ex) rules))
          = Inr (ex_closures ex)) \<and>
     (\<exists>endings. loop_over logic ''endings'' (check_ending (ex_registries ex) (ex_scopes ex)) [] = Inr endings \<and>
        loop_over logic ''goals'' (\<lambda>_. check_goal (ex_registries ex) (ex_scopes ex) endings) () = Inr ()) \<and>
     loop_over logic ''failures'' (\<lambda>_. check_failure (ex_registries ex) (ex_scopes ex)) () = Inr ()"

lemma executable_checked:
  assumes "validate_executable_logic nfc logic = Inr ex"
  obtains dt where "checked_with nfc logic ex dt"
proof -
  obtain rg domains actions
    where "make_registries logic = Inr rg" and "state_domains rg = Inr domains" and "check_actions logic rg = Inr actions"
      and rest: "checked_with nfc logic ex \<lparr>dt_registries = rg, dt_states = domains, dt_parameters = at_parameters actions\<rparr>"
    using assms by (auto simp: validate_executable_logic_def Let_def checked_with_def)
  from that [OF rest] show thesis .
qed

lemma for_each_ok: "for_each check xs = Inr u \<longleftrightarrow> (\<forall>x \<in> set xs. check x = Inr ())"
  by (simp add: for_each_def foldR_unit)

lemma id_array_ok:
  "id_array allow_empty internal registry j = Inr ids \<Longrightarrow>
     j = JArr (map JStr ids) \<and> distinct ids \<and> (\<not> allow_empty \<longrightarrow> ids \<noteq> []) \<and>
     (\<forall>keys. registry = Some keys \<longrightarrow> set ids \<subseteq> set keys)"
proof -
  assume ok: "id_array allow_empty internal registry j = Inr ids"
  then obtain items where items: "array_of 64 j = Inr items" "mapR (portable_id internal) items = Inr ids"
    and rest: "distinct ids" "\<not> allow_empty \<longrightarrow> items \<noteq> []" "\<forall>keys. registry = Some keys \<longrightarrow> set ids \<subseteq> set keys"
    by (auto simp: id_array_def split: option.splits)
  have "items = map JStr ids" using items(2)
    by (induction items arbitrary: ids) (auto dest!: portable_id_ok)
  moreover have "j = JArr items" using items(1) by (auto simp: array_of_def split: json.splits if_splits)
  ultimately show ?thesis using rest by simp
qed

lemma ids_in_ok:
  "ids_in registry allow_empty ob k = Inr ids \<Longrightarrow>
     obj_get ob k = JArr (map JStr ids) \<and> distinct ids \<and> (\<not> allow_empty \<longrightarrow> ids \<noteq> []) \<and> set ids \<subseteq> fst ` set registry"
  by (auto simp: ids_in_def dict_keys_def dest!: id_array_ok)

lemma id_of_ok: "id_of ob k = Inr i \<Longrightarrow> obj_get ob k = JStr i"
  by (auto simp: id_of_def dest: portable_id_ok)

lemma registries_ok:
  assumes "make_registries logic = Inr rg"
  shows "record_registry logic ''state_schema'' = Inr (rg_states rg)"
    and "record_registry logic ''actions'' = Inr (rg_actions rg)"
    and "record_registry logic ''conditions'' = Inr (rg_conditions rg)"
    and "record_registry logic ''effects'' = Inr (rg_effects rg)"
    and "record_registry logic ''rules'' = Inr (rg_rules rg)"
    and "name \<in> {''goals'', ''failures'', ''endings''} \<Longrightarrow> \<exists>reg. record_registry logic name = Inr reg"
  using assms by (auto simp: make_registries_def)

section \<open>Conditions\<close>

lemma check_condition_fills:
  "fills (check_condition nfc dt) fst (\<lambda>c scope. condition_scope (dt_registries dt) c = Inr scope)"
  "fills (check_condition nfc dt) snd (\<lambda>c cs. \<exists>scope. condition_scope (dt_registries dt) c = Inr scope \<and>
     check_operator nfc dt scope c = Inr cs)"
  by (auto simp: fills_def check_condition_def as_obj_def dest!: id_of_ok)

lemma conditions_checked:
  assumes "checked_with nfc logic ex dt"
  shows "map_of (rg_conditions (ex_registries ex)) cid = Some c \<Longrightarrow> \<exists>scope cs.
      map_of (ex_scopes ex) cid = Some scope \<and> map_of (ex_children ex) cid = Some cs \<and>
      condition_scope (ex_registries ex) c = Inr scope \<and> check_operator nfc dt scope c = Inr cs"
    and "check_scopes (ex_scopes ex, ex_children ex) = Inr ()"
    and "check_cycles (ex_children ex) (dict_keys (rg_conditions (ex_registries ex))) = Inr ()"
    and "fst ` set (ex_children ex) = fst ` set (rg_conditions (ex_registries ex))"
proof -
  have dt: "dt_registries dt = ex_registries ex" using assms by (simp add: checked_with_def)
  obtain items where items: "collection logic ''conditions'' = Inr items"
    and reg: "registry_of (rg_conditions (ex_registries ex)) items"
    using assms registries_ok(3) record_registry_ok unfolding checked_with_def by metis
  have run: "foldR (check_condition nfc dt) ([], []) items = Inr (ex_scopes ex, ex_children ex)"
    and "check_scopes (ex_scopes ex, ex_children ex) = Inr ()"
    and "check_cycles (ex_children ex) (dict_keys (rg_conditions (ex_registries ex))) = Inr ()"
    using assms items by (auto simp: checked_with_def check_conditions_def)
  then show "check_scopes (ex_scopes ex, ex_children ex) = Inr ()"
    and "check_cycles (ex_children ex) (dict_keys (rg_conditions (ex_registries ex))) = Inr ()" by blast+
  note scopes = registry_table [OF run reg check_condition_fills(1)]
    and children = registry_table [OF run reg check_condition_fills(2)]
  show "\<exists>scope cs. map_of (ex_scopes ex) cid = Some scope \<and> map_of (ex_children ex) cid = Some cs \<and>
      condition_scope (ex_registries ex) c = Inr scope \<and> check_operator nfc dt scope c = Inr cs"
    if "map_of (rg_conditions (ex_registries ex)) cid = Some c"
    using scopes(1) [OF that] children(1) [OF that] by (auto simp: dt)
  show "fst ` set (ex_children ex) = fst ` set (rg_conditions (ex_registries ex))"
    using children(2) by simp
qed

lemma scopes_agree:
  assumes "check_scopes (scopes, children) = Inr ()" and "map_of children key = Some cs" and "child \<in> set cs"
    and "map_of scopes key = Some scope"
  shows "map_of scopes child = Some scope"
proof -
  have "(key, cs) \<in> set children" using assms(2) by (rule map_of_SomeD)
  then have "rbind (dict_at scopes child) (\<lambda>inner. rbind (dict_at scopes key) (\<lambda>outer.
      reject (inner \<noteq> outer) ''condition_scope_invalid'' ''condition graph crosses action scope'')) = Inr ()"
    using assms(1,3) by (fastforce simp: check_scopes_def for_each_ok)
  then show ?thesis using assms(4) by (auto simp: dict_at_def)
qed

lemma scope_ok: "condition_scope rg c = Inr scope \<Longrightarrow> obj_get c ''action_id'' = opt_str scope"
  by (auto simp: condition_scope_def opt_str_def split: if_splits dest!: id_of_ok)

lemma children_known:
  "check_operator nfc dt scope c = Inr cs \<Longrightarrow> set cs \<subseteq> fst ` set (rg_conditions (dt_registries dt))"
  by (auto simp: check_operator_def Let_def check_known_def dict_mem_def map_of_eq_None_iff
      split: if_splits dest!: ids_in_ok)

lemma conditions_acyclic:
  assumes "checked_with nfc logic ex dt"
  shows "acyclic (edges (ex_children ex))" and "finite (edges (ex_children ex))"
proof -
  let ?conditions = "rg_conditions (ex_registries ex)"
  have dt: "dt_registries dt = ex_registries ex" using assms by (simp add: checked_with_def)
  have known: "set (children_of (ex_children ex) key) \<subseteq> fst ` set ?conditions" for key
  proof (cases "map_of (ex_children ex) key")
    case (Some cs)
    then have "key \<in> fst ` set ?conditions"
      using conditions_checked(4) [OF assms] by (force dest: map_of_SomeD)
    then obtain c where "map_of ?conditions key = Some c"
      by (meson map_of_eq_None_iff option.exhaust)
    from conditions_checked(1) [OF assms this] Some children_known show ?thesis
      by (fastforce simp: children_of_def dt)
  qed (simp add: children_of_def)
  then have "all_children (ex_children ex) \<subseteq> set (dict_keys ?conditions)"
    by (auto simp: all_children_def dict_keys_def)
  then show "acyclic (edges (ex_children ex))"
    using check_cycles_iff(1) conditions_checked(3,4) [OF assms] by (force simp: dict_keys_def)
  have "edges (ex_children ex) \<subseteq> fst ` set ?conditions \<times> fst ` set ?conditions"
  proof
    fix e assume "e \<in> edges (ex_children ex)"
    then obtain a b where e: "e = (a, b)" "b \<in> set (children_of (ex_children ex) a)" by (auto simp: edges_def)
    then have "map_of (ex_children ex) a \<noteq> None"
      by (cases "map_of (ex_children ex) a") (simp_all add: children_of_def)
    then have "a \<in> fst ` set ?conditions"
      using conditions_checked(4) [OF assms] by (simp add: map_of_eq_None_iff)
    with e known show "e \<in> fst ` set ?conditions \<times> fst ` set ?conditions" by blast
  qed
  then show "finite (edges (ex_children ex))" by (rule finite_subset) simp
qed

lemma mapR_total: "(\<And>x. x \<in> set xs \<Longrightarrow> \<exists>y. f x = Inr y) \<Longrightarrow> \<exists>ys. mapR f xs = Inr ys"
proof (induction xs)
  case (Cons x xs)
  then obtain y ys where "f x = Inr y" "mapR f xs = Inr ys" by fastforce
  then show ?case by simp
qed simp

lemma require_integer_sound:
  assumes "require_integer nfc dt scope ob k = Inr u" and "state_matches (dt_states dt) st"
    and "parameters_match (dt_parameters dt) scope params"
  shows "\<exists>i. operand_value st params scope (obj_get ob k) = Inr (JInt i)"
proof -
  obtain d where "operand_in nfc dt scope ob k = Inr d" "vd_type d = ''integer''"
    using assms(1) by (auto simp: require_integer_def)
  then obtain v where v: "operand_value st params scope (obj_get ob k) = Inr v" "domain_member d v"
    using operand_sound [OF _ assms(2,3)] unfolding operand_in_def by blast
  with \<open>vd_type d = ''integer''\<close> have "\<exists>i. v = JInt i" by (auto dest: member_int)
  with v show ?thesis by blast
qed

lemma compare_sound:
  assumes "check_compare nfc dt scope c = Inr u" and "state_matches (dt_states dt) st"
    and "parameters_match (dt_parameters dt) scope params"
  shows "\<exists>l r b. operand_value st params scope (obj_get c ''left'') = Inr l \<and>
    operand_value st params scope (obj_get c ''right'') = Inr r \<and> compare_values (obj_get c ''comparison'') l r = Inr b"
proof -
  obtain dl dr where operands: "operand_in nfc dt scope c ''left'' = Inr dl" "operand_in nfc dt scope c ''right'' = Inr dr"
    and types: "vd_type dl = vd_type dr"
      "obj_get c ''comparison'' \<in> {JStr ''equal'', JStr ''not_equal''} \<or> vd_type dl = ''integer''"
    and known: "obj_get c ''comparison'' \<in> JStr ` set comparisons"
    using assms(1) by (auto simp: check_compare_def Let_def require_one_of_def one_of_def split: if_splits)
  from operands operand_sound [OF _ assms(2,3)] obtain l r
    where lr: "operand_value st params scope (obj_get c ''left'') = Inr l" "domain_member dl l"
      "operand_value st params scope (obj_get c ''right'') = Inr r" "domain_member dr r"
    unfolding operand_in_def by metis
  have "\<exists>b. compare_values (obj_get c ''comparison'') l r = Inr b"
  proof (cases "obj_get c ''comparison'' \<in> {JStr ''equal'', JStr ''not_equal''}")
    case True
    then show ?thesis by (auto simp: compare_values_def)
  next
    case False
    with types lr obtain i k where "l = JInt i" "r = JInt k"
      using member_int [OF lr(2)] member_int [OF lr(4)] by auto
    with known show ?thesis by (auto simp: compare_values_def comparisons_def)
  qed
  with lr show ?thesis by blast
qed

definition condition_passes ::
  "(string \<Rightarrow> bool) \<Rightarrow> domain_tables \<Rightarrow> string option \<Rightarrow> json dict \<Rightarrow> string list \<Rightarrow> bool" where
  "condition_passes nfc dt scope c cs \<longleftrightarrow>
     check_operator nfc dt scope c = Inr cs \<and> obj_get c ''action_id'' = opt_str scope"

text \<open>
  One condition evaluates when its children do, and when it is not below itself.
\<close>

lemma eval_step:
  assumes "map_of conds cid = Some c" and "condition_passes nfc dt scope c cs" and "cid \<notin> active"
    and "state_matches (dt_states dt) st" and "parameters_match (dt_parameters dt) scope params"
    and "\<And>child. child \<in> set cs \<Longrightarrow> \<exists>b. eval_condition conds st params scope (insert cid active) child = Inr b"
  shows "\<exists>b. eval_condition conds st params scope active cid = Inr b"
proof -
  have pass: "check_operator nfc dt scope c = Inr cs" "obj_get c ''action_id'' = opt_str scope"
    using assms(2) by (simp_all add: condition_passes_def)
  note start = eval_condition.simps [of conds st params scope active cid] assms(1,3) pass(2) Let_def
  note integers = require_integer_sound [OF _ assms(4,5)]
  consider (literal) "obj_get c ''operator'' = JStr ''constant''" | (comparing) "obj_get c ''operator'' = JStr ''compare''"
    | (compound) "obj_get c ''operator'' = JStr ''all'' \<or> obj_get c ''operator'' = JStr ''any''"
    | (negation) "obj_get c ''operator'' = JStr ''not''" | (position) "obj_get c ''operator'' = JStr ''index_valid''"
    | (distance) "obj_get c ''operator'' = JStr ''integer_distance''"
    using pass(1) by (auto simp: check_operator_def Let_def one_of_def split: if_splits)
  then show ?thesis
  proof cases
    case literal
    then obtain b where "obj_get c ''value'' = JBool b"
      using pass(1) by (auto simp: check_operator_def not_case_bool split: json.splits)
    with literal show ?thesis by (simp add: start)
  next
    case comparing
    then have "check_compare nfc dt scope c = Inr ()" using pass(1) by (auto simp: check_operator_def)
    from compare_sound [OF this assms(4,5)] comparing show ?thesis by (auto simp: start)
  next
    case compound
    then have ids: "obj_get c ''condition_ids'' = JArr (map JStr cs)"
      using pass(1) by (auto simp: check_operator_def one_of_def hashable_def dest!: ids_in_ok)
    have "\<exists>bs. mapR (\<lambda>j. eval_condition conds st params scope (insert cid active) (id_text j)) (map JStr cs) = Inr bs"
      by (rule mapR_total) (use assms(6) in auto)
    with compound ids show ?thesis by (auto simp: start)
  next
    case negation
    then obtain child where "obj_get c ''condition_id'' = JStr child" "cs = [child]"
      using pass(1) by (auto simp: check_operator_def one_of_def hashable_def dest!: id_of_ok)
    with assms(6) [of child] negation show ?thesis by (auto simp: start)
  next
    case position
    then have checked: "check_index_valid nfc dt scope c = Inr ()"
      using pass(1) by (auto simp: check_operator_def one_of_def hashable_def)
    then obtain sid d where sid: "obj_get c ''array_state_id'' = JStr sid" "map_of (dt_states dt) sid = Some d"
      "vd_type d = ''string_array''" and operand: "require_integer nfc dt scope c ''index'' = Inr ()"
      by (auto simp: check_index_valid_def split: option.splits dest!: portable_id_ok)
    from state_matchesD [OF assms(4) sid(2)] sid(3) obtain xs where "map_of st sid = Some (JArr xs)"
      by (auto dest: member_arr)
    then have "obj_get st sid = JArr xs" by (simp add: obj_get_def)
    with position sid(1) integers [OF operand] show ?thesis by (auto simp: start)
  next
    case distance
    then have "check_distance nfc dt scope c = Inr ()"
      using pass(1) by (auto simp: check_operator_def one_of_def hashable_def)
    then have ends: "require_integer nfc dt scope c ''left'' = Inr ()" "require_integer nfc dt scope c ''right'' = Inr ()"
      "obj_get c ''distance'' = JInt 1"
      by (auto simp: check_distance_def for_each_ok)
    from integers [OF ends(1)] integers [OF ends(2)] obtain i k
      where "operand_value st params scope (obj_get c ''left'') = Inr (JInt i)"
        "operand_value st params scope (obj_get c ''right'') = Inr (JInt k)" by blast
    with distance ends(3) show ?thesis by (simp add: start distance_is_def)
  qed
qed

lemma conditions_evaluate:
  assumes "checked_with nfc logic ex dt"
    and "state_matches (dt_states dt) st" and "parameters_match (dt_parameters dt) scope params"
    and "map_of (ex_scopes ex) cid = Some scope" and "cid \<in> fst ` set (rg_conditions (ex_registries ex))"
    and "\<forall>a \<in> active. (a, cid) \<in> (edges (ex_children ex))\<^sup>+"
  shows "\<exists>b. eval_condition (rg_conditions (ex_registries ex)) st params scope active cid = Inr b"
  using assms(4-6)
proof (induction cid arbitrary: active rule: wf_induct_rule
    [OF finite_acyclic_wf_converse [OF conditions_acyclic(2,1) [OF assms(1)]]])
  case (1 cid)
  let ?conditions = "rg_conditions (ex_registries ex)"
  have dt: "dt_registries dt = ex_registries ex" using assms(1) by (simp add: checked_with_def)
  obtain c where c: "map_of ?conditions cid = Some c"
    using 1(3) by (meson map_of_eq_None_iff option.exhaust)
  then obtain cs where cs: "map_of (ex_children ex) cid = Some cs" "condition_scope (ex_registries ex) c = Inr scope"
    "check_operator nfc dt scope c = Inr cs"
    using conditions_checked(1) [OF assms(1) c] 1(2) by auto
  show ?case
  proof (rule eval_step [OF c _ _ assms(2,3)])
    show "condition_passes nfc dt scope c cs"
      using cs(3) scope_ok [OF cs(2)] by (simp add: condition_passes_def)
    show "cid \<notin> active"
      using 1(4) conditions_acyclic(1) [OF assms(1)] by (auto simp: acyclic_def)
    fix child assume child: "child \<in> set cs"
    then have edge: "(cid, child) \<in> edges (ex_children ex)" using cs(1) by (simp add: children_of_def)
    show "\<exists>b. eval_condition ?conditions st params scope (insert cid active) child = Inr b"
    proof (rule 1(1))
      show "(child, cid) \<in> (edges (ex_children ex))\<inverse>" using edge by simp
      show "map_of (ex_scopes ex) child = Some scope"
        by (rule scopes_agree [OF conditions_checked(2) [OF assms(1)] cs(1) child 1(2)])
      show "child \<in> fst ` set ?conditions" using children_known [OF cs(3)] child by (auto simp: dt)
      show "\<forall>a \<in> insert cid active. (a, child) \<in> (edges (ex_children ex))\<^sup>+"
        using 1(4) edge by (auto intro: trancl_into_trancl simp del: edge_iff)
    qed
  qed
qed

section \<open>States and parameters\<close>

text \<open>The interpreter of an accepted logic works on the registries that were checked.\<close>

definition accepted :: "(string \<Rightarrow> bool) \<Rightarrow> json dict \<Rightarrow> executable \<Rightarrow> interpreter \<Rightarrow> bool" where
  "accepted nfc logic ex gi \<longleftrightarrow>
     validate_logic nfc (JObj logic) = Inr logic \<and> validate_executable_logic nfc logic = Inr ex \<and>
     (\<exists>pack limits. make_interpreter pack limits = Inr gi \<and> obj_get pack ''logic'' = JObj logic)"

lemma accepted_checked:
  assumes "accepted nfc logic ex gi"
  obtains dt where "checked_with nfc logic ex dt"
  using assms executable_checked unfolding accepted_def by metis

lemma accepted_registry:
  assumes "record_registry logic name = Inr reg"
  shows "index_records (obj_get logic name) ctx = Inr reg"
  using assms index_registry record_registry_ok by (metis collection_iff)

lemma accepted_index:
  assumes "accepted nfc logic ex gi"
  shows "gi_schema gi = rg_states (ex_registries ex)" and "gi_actions gi = rg_actions (ex_registries ex)"
    and "gi_conditions gi = rg_conditions (ex_registries ex)" and "gi_effects gi = rg_effects (ex_registries ex)"
    and "gi_rules gi = rg_rules (ex_registries ex)" and "gi_logic gi = logic"
proof -
  have "make_registries logic = Inr (ex_registries ex)"
    using assms executable_checked unfolding accepted_def checked_with_def by metis
  note index = registries_ok(1-5) [OF this, THEN accepted_registry]
  obtain pack limits where "make_interpreter pack limits = Inr gi" "obj_get pack ''logic'' = JObj logic"
    using assms by (auto simp: accepted_def)
  then show "gi_schema gi = rg_states (ex_registries ex)" and "gi_actions gi = rg_actions (ex_registries ex)"
    and "gi_conditions gi = rg_conditions (ex_registries ex)" and "gi_effects gi = rg_effects (ex_registries ex)"
    and "gi_rules gi = rg_rules (ex_registries ex)" and "gi_logic gi = logic"
    by (auto simp: make_interpreter_def index Let_def)
qed

lemma shapes_ok:
  assumes "validate_logic nfc (JObj logic) = Inr logic"
  shows "collection logic ''state_schema'' = Inr items \<Longrightarrow> j \<in> set items \<Longrightarrow> check_state_shape nfc j = Inr ()"
    and "collection logic ''actions'' = Inr items \<Longrightarrow> JObj action \<in> set items \<Longrightarrow>
      array_of 16 (obj_get action ''parameters'') = Inr ps \<Longrightarrow> j \<in> set ps \<Longrightarrow> check_parameter_shape nfc j = Inr ()"
proof -
  have shapes: "validate_logic_record_shapes nfc logic = Inr ()"
    using assms by (auto simp: validate_logic_def obj_of_def)
  then show "check_state_shape nfc j = Inr ()" if "collection logic ''state_schema'' = Inr items" "j \<in> set items"
    using that by (auto simp: validate_logic_record_shapes_def for_each_ok)
  have "(''actions'', the (map_of record_fields ''actions'')) \<in> set record_fields" by (simp add: record_fields_def)
  with shapes have actions: "rbind (collection logic ''actions'')
      (for_each (check_record_shape nfc ''actions'' (the (map_of record_fields ''actions'')))) = Inr ()"
    by (fastforce simp: validate_logic_record_shapes_def for_each_ok)
  show "check_parameter_shape nfc j = Inr ()" if "collection logic ''actions'' = Inr items" "JObj action \<in> set items"
      "array_of 16 (obj_get action ''parameters'') = Inr ps" "j \<in> set ps"
    using that actions by (fastforce simp: for_each_ok check_record_shape_def obj_of_def)
qed

lemma schema_declares:
  assumes "checked_with nfc logic ex dt" and "validate_logic nfc (JObj logic) = Inr logic"
    and "map_of (dt_states dt) sid = Some d"
  shows "\<exists>ob. map_of (rg_states (ex_registries ex)) sid = Some ob \<and> domain_shape ob \<and> declares ob d \<and>
    check_state_shape nfc (JObj ob) = Inr ()"
proof -
  have domains: "mapR (\<lambda>(key, st). rbind (state_domain st) (\<lambda>d. Inr (key, d))) (rg_states (ex_registries ex)) = Inr (dt_states dt)"
    using assms(1) by (simp add: checked_with_def state_domains_def)
  have found: "\<exists>ob. map_of states sid = Some ob \<and> state_domain ob = Inr d"
    if "mapR (\<lambda>(key, st). rbind (state_domain st) (\<lambda>d. Inr (key, d))) states = Inr table" "map_of table sid = Some d"
    for states table
    using that by (induction states arbitrary: table) (auto split: prod.splits if_splits)
  obtain items where items: "collection logic ''state_schema'' = Inr items"
    and reg: "registry_of (rg_states (ex_registries ex)) items"
    using assms(1) registries_ok(1) record_registry_ok unfolding checked_with_def by metis
  obtain ob where ob: "map_of (rg_states (ex_registries ex)) sid = Some ob" "state_domain ob = Inr d"
    using found [OF domains assms(3)] by blast
  have "JObj ob \<in> set items" using reg map_of_SomeD [OF ob(1)] by (force simp: registry_of_def)
  then have "check_state_shape nfc (JObj ob) = Inr ()" using shapes_ok(1) [OF assms(2) items] by blast
  with ob state_shape declared_domain_eq show ?thesis by blast
qed

lemma schema_state_matches:
  assumes "checked_with nfc logic ex dt" and "accepted nfc logic ex gi" and "in_schema gi st"
  shows "state_matches (dt_states dt) st"
  unfolding state_matches_def
proof (intro allI impI)
  fix sid d assume "map_of (dt_states dt) sid = Some d"
  then obtain ob where ob: "map_of (gi_schema gi) sid = Some ob" "declares ob d"
    using schema_declares [OF assms(1)] assms(2) accepted_index(1) [OF assms(2)] by (auto simp: accepted_def)
  from ob(1) have "(sid, ob) \<in> set (gi_schema gi)" by (rule map_of_SomeD)
  with assms(3) obtain v where v: "map_of st sid = Some v" "validate_state_value ob v = Inr True"
    unfolding in_schema_def by fast
  with in_domain_member [OF ob(2)] show "\<exists>v. map_of st sid = Some v \<and> domain_member d v"
    by (auto simp: validate_state_value_def)
qed

text \<open>The domains of an action's parameters, and the values that pass the check of a candidate.\<close>

lemma parameter_domain_ok:
  "add_parameter_domain limit (domains, n) j = Inr (domains', n') \<Longrightarrow>
     \<exists>p k d. j = JObj p \<and> obj_get p ''id'' = JStr k \<and> k \<notin> fst ` set domains \<and> state_domain p = Inr d \<and>
       domains' = domains @ [(k, d)]"
  by (auto simp: add_parameter_domain_def obj_of_def dict_mem_def map_of_eq_None_iff split: json.splits dest!: id_of_ok)

lemma parameter_domains_ok:
  "foldR (add_parameter_domain limit) (domains, n) ps = Inr (domains', n') \<Longrightarrow>
     \<exists>new. ps = map (JObj \<circ> snd) new \<and> distinct (map fst new) \<and> fst ` set new \<inter> fst ` set domains = {} \<and>
       (\<forall>(k, p) \<in> set new. obj_get p ''id'' = JStr k) \<and>
       domains' = domains @ map (\<lambda>(k, p). (k, projr (state_domain p))) new"
proof (induction ps arbitrary: domains n)
  case (Cons j ps)
  then obtain domains1 n1 where "add_parameter_domain limit (domains, n) j = Inr (domains1, n1)"
    and rest: "foldR (add_parameter_domain limit) (domains1, n1) ps = Inr (domains', n')"
    by auto
  then obtain p k d where j: "j = JObj p" "obj_get p ''id'' = JStr k" "k \<notin> fst ` set domains"
    "state_domain p = Inr d" "domains1 = domains @ [(k, d)]"
    by (auto dest!: parameter_domain_ok)
  from Cons.IH [OF rest] obtain new where "ps = map (JObj \<circ> snd) new" "distinct (map fst new)"
    "fst ` set new \<inter> fst ` set domains1 = {}" "\<forall>(k, p) \<in> set new. obj_get p ''id'' = JStr k"
    "domains' = domains1 @ map (\<lambda>(k, p). (k, projr (state_domain p))) new" by blast
  with j show ?case by (intro exI [of _ "(k, p) # new"]) auto
qed simp

lemma check_action_fills:
  "fills (check_action rg) at_parameters (\<lambda>action domains. \<exists>ps n.
     array_of 16 (obj_get action ''parameters'') = Inr ps \<and>
     foldR (add_parameter_domain combination_limit) ([], 1) ps = Inr (domains, n))"
  by (auto simp: fills_def check_action_def as_obj_def dest!: id_of_ok)

lemma check_parameter_fills:
  "fills (check_parameter c) (\<lambda>checked. checked) (\<lambda>p v. validate_parameter_value p v = Inr True)"
  by (auto simp: fills_def check_parameter_def as_obj_def Let_def split: if_splits)

lemma action_parameters:
  assumes "checked_with nfc logic ex dt" and "accepted nfc logic ex gi" and "map_of (gi_actions gi) aid = Some action"
  obtains domains ps n where "map_of (dt_parameters dt) aid = Some domains" and "obj_get action ''parameters'' = JArr ps"
    and "foldR (add_parameter_domain combination_limit) ([], 1) ps = Inr (domains, n)"
    and "\<forall>j \<in> set ps. check_parameter_shape nfc j = Inr ()"
proof -
  obtain items where items: "collection logic ''actions'' = Inr items"
    and reg: "registry_of (rg_actions (ex_registries ex)) items"
    using assms(1) registries_ok(2) record_registry_ok unfolding checked_with_def by metis
  obtain tables where tables: "check_actions logic (ex_registries ex) = Inr tables" "dt_parameters dt = at_parameters tables"
    using assms(1) by (auto simp: checked_with_def)
  then have run: "foldR (check_action (ex_registries ex)) \<lparr>at_parameters = [], at_bindings = [], at_verbs = []\<rparr> items
      = Inr tables"
    using items by (auto simp: check_actions_def)
  have action: "map_of (rg_actions (ex_registries ex)) aid = Some action"
    using assms(3) accepted_index(2) [OF assms(2)] by simp
  from registry_table(1) [OF run reg check_action_fills this] obtain domains ps n
    where domains: "map_of (at_parameters tables) aid = Some domains" "array_of 16 (obj_get action ''parameters'') = Inr ps"
      "foldR (add_parameter_domain combination_limit) ([], 1) ps = Inr (domains, n)" by blast
  have "JObj action \<in> set items" using reg map_of_SomeD [OF action] by (force simp: registry_of_def)
  then have "check_parameter_shape nfc j = Inr ()" if "j \<in> set ps" for j
    using shapes_ok(2) [OF _ items] domains(2) assms(2) that by (auto simp: accepted_def)
  moreover have "obj_get action ''parameters'' = JArr ps"
    using domains(2) by (auto simp: array_of_def split: json.splits if_splits)
  ultimately show thesis using that domains(1,3) tables(2) by simp
qed

lemma candidate_parameters_match:
  assumes "checked_with nfc logic ex dt" and "accepted nfc logic ex gi"
    and "map_of (gi_actions gi) aid = Some action" and "validated_parameters action c = Inr params"
  shows "parameters_match (dt_parameters dt) (Some aid) params"
proof -
  obtain domains ps n where domains: "map_of (dt_parameters dt) aid = Some domains" "obj_get action ''parameters'' = JArr ps"
    "foldR (add_parameter_domain combination_limit) ([], 1) ps = Inr (domains, n)"
    and shapes: "\<forall>j \<in> set ps. check_parameter_shape nfc j = Inr ()"
    by (rule action_parameters [OF assms(1-3)])
  from parameter_domains_ok [OF domains(3)] obtain new
    where new: "registry_of new ps"
      "domains = map (\<lambda>(k, p). (k, projr (state_domain p))) new"
    by (auto simp: registry_of_def)
  have run_params: "foldR (check_parameter c) [] ps = Inr params"
    using assms(4) domains(2) by (auto simp: validated_parameters_def split: if_splits)
  have "\<exists>v. map_of params pid = Some v \<and> domain_member d v" if found: "map_of domains pid = Some d" for pid d
  proof -
    obtain p where p: "map_of new pid = Some p" "d = projr (state_domain p)"
      using found by (auto simp: new(2) map_of_map)
    have "JObj p \<in> set ps" using new(1) map_of_SomeD [OF p(1)] by (force simp: registry_of_def)
    with shapes have "check_parameter_shape nfc (JObj p) = Inr ()" ..
    then obtain d' where "state_domain p = Inr d'" "declares p d'"
      using parameter_shape declared_domain by blast
    with p(2) have "declares p d" by simp
    from registry_table(1) [OF run_params new(1) check_parameter_fills p(1)] in_domain_member [OF this]
    show ?thesis by (auto simp: validate_parameter_value_def)
  qed
  with domains(1) show ?thesis by (simp add: parameters_match_def state_matches_def)
qed

section \<open>Effects\<close>

lemma initial_in_domain:
  assumes "check_state_shape nfc (JObj ob) = Inr u" and "declares ob d"
  shows "validate_state_value ob (obj_get ob ''initial'') = Inr True"
proof -
  have valid: "validate_state_domain nfc ob = Inr u"
    using assms(1) by (auto simp: check_state_shape_def obj_of_def)
  have "domain_member d (obj_get ob ''initial'') \<and>
      (vd_type d = ''integer'' \<longrightarrow> (\<forall>i. obj_get ob ''initial'' = JInt i \<longrightarrow> safe_integer i))"
    using valid assms(2) unfolding validate_state_domain_def declares_def
    by (auto simp: Let_def not_case_int not_case_bool domain_member_def safe_integer_def is_str_iff
        elim!: checked_strings_ok dest: subsetD)
  then show ?thesis by (simp add: validate_state_value_def in_domain_member [OF assms(2)])
qed

definition effect_passes :: "(string \<Rightarrow> bool) \<Rightarrow> domain_tables \<Rightarrow> json dict \<Rightarrow> string \<Rightarrow> bool" where
  "effect_passes nfc dt e aid \<longleftrightarrow>
     obj_get e ''action_id'' = JStr aid \<and> obj_get e ''invalid_transition_policy'' = JStr ''reject_transition'' \<and>
     hashable (obj_get e ''operation'') \<and>
     (\<exists>sid target. effect_target e = JStr sid \<and> map_of (dt_states dt) sid = Some target \<and>
        (\<exists>ob. map_of (rg_states (dt_registries dt)) sid = Some ob \<and> obj_get ob ''mutability'' = JStr ''mutable'') \<and>
        check_operation nfc dt aid target e = Inr ())"

lemma check_effect_fills: "fills (check_effect nfc dt) (\<lambda>owners. owners) (effect_passes nfc dt)"
proof -
  have "\<exists>aid. owners' = AList.update k aid owners \<and> effect_passes nfc dt e aid"
    if "check_effect nfc dt owners (JObj e) = Inr owners'" "obj_get e ''id'' = JStr k" for owners e owners' k
    using that
    by (fastforce simp: check_effect_def as_obj_def array_effect_def one_of_def effect_passes_def effect_target_def dict_at_def
        dest!: id_of_ok portable_id_ok split: option.splits if_splits)
  then show ?thesis by (simp add: fills_def)
qed

lemma in_schema_update:
  assumes "in_schema gi st" and "map_of (gi_schema gi) sid = Some schema" and "distinct (map fst (gi_schema gi))"
    and "validate_state_value schema v = Inr True"
  shows "in_schema gi (AList.update sid v st)"
proof -
  have "sid \<in> set (dict_keys (gi_schema gi))" using map_of_SomeD [OF assms(2)] by (force simp: dict_keys_def)
  then have "set (dict_keys (AList.update sid v st)) = set (dict_keys (gi_schema gi))"
    using assms(1) by (auto simp: in_schema_def dict_keys_def dom_update)
  moreover have "\<exists>w. map_of (AList.update sid v st) k = Some w \<and> validate_state_value s w = Inr True"
    if "(k, s) \<in> set (gi_schema gi)" for k s
  proof (cases "k = sid")
    case True
    then have "s = schema" using that assms(2,3) by (auto dest: map_of_is_SomeI)
    with True assms(4) show ?thesis by (simp add: update_conv)
  next
    case False
    with that assms(1) show ?thesis by (fastforce simp: in_schema_def update_conv)
  qed
  ultimately show ?thesis unfolding in_schema_def by blast
qed

definition domain_error :: "json dict \<Rightarrow> exn \<Rightarrow> bool" where
  "domain_error e err \<longleftrightarrow>
     (\<exists>detail. err = GameLogicError ''effect_domain_invalid'' detail) \<and>
     obj_get e ''operation'' \<notin> {JStr ''set'', JStr ''reset''}"

text \<open>
  The new value of an effect: \<open>set\<close> and \<open>reset\<close> give a value of the target's domain; the other
  operations give some value, or fail with \<open>effect_domain_invalid\<close>.
\<close>

lemma effect_value_sound:
  assumes "check_operation nfc dt aid target e = Inr ()" and "declares schema target"
    and "check_state_shape nfc (JObj schema) = Inr ()" and "domain_member target current"
    and "state_matches (dt_states dt) st" and "parameters_match (dt_parameters dt) (Some aid) params"
  shows "outcome (domain_error e)
    (\<lambda>v. obj_get e ''operation'' \<in> {JStr ''set'', JStr ''reset''} \<longrightarrow> validate_state_value schema v = Inr True)
    (effect_value schema (\<lambda>k. operand_value st params (Some aid) (obj_get e k)) (obj_get e ''operation'') current)"
proof -
  note integers = require_integer_sound [OF _ assms(5,6)]
  note operands = operand_sound [OF _ assms(5,6)]
  have shape: "domain_shape schema" using assms(3) by (rule state_shape)
  have in_target: "validate_state_value schema v = Inr True" if "domain_member target v" for v
    using that shape assms(2)
    by (auto simp: validate_state_value_def in_domain_member [OF assms(2)] domain_shape_def declares_def
        domain_member_def safe_integer_def)
  consider (setting) "obj_get e ''operation'' = JStr ''set''" | (resetting) "obj_get e ''operation'' = JStr ''reset''"
    | (adding) "obj_get e ''operation'' = JStr ''increment''"
    | (swapping) "obj_get e ''operation'' = JStr ''swap_array_items''"
    | (appending) "obj_get e ''operation'' = JStr ''append_unique''"
    using assms(1) by (auto simp: check_operation_def Let_def split: if_splits)
  then show ?thesis
  proof cases
    case setting
    then obtain d where d: "operand_in nfc dt (Some aid) e ''value'' = Inr d" "domain_subset d target = Inr ()"
      using assms(1) by (auto simp: check_operation_def)
    then obtain v where "operand_value st params (Some aid) (obj_get e ''value'') = Inr v" "domain_member d v"
      using operands unfolding operand_in_def by blast
    with d(2) domain_subset_sound in_target setting show ?thesis by (simp add: effect_value_def)
  next
    case resetting
    with initial_in_domain [OF assms(3,2)] show ?thesis by (simp add: effect_value_def)
  next
    case adding
    then have "vd_type target = ''integer''" "require_integer nfc dt (Some aid) e ''amount'' = Inr ()"
      using assms(1) by (auto simp: check_operation_def)
    with assms(4) integers obtain i k where "current = JInt i"
      "operand_value st params (Some aid) (obj_get e ''amount'') = Inr (JInt k)"
      using member_int by metis
    with adding show ?thesis by (simp add: effect_value_def incremented_def domain_error_def)
  next
    case swapping
    then have "vd_type target = ''string_array''" and ends: "require_integer nfc dt (Some aid) e ''first_index'' = Inr ()"
      "require_integer nfc dt (Some aid) e ''second_index'' = Inr ()"
      using assms(1) by (auto simp: check_operation_def for_each_ok)
    moreover from this(1) assms(4) obtain xs where "current = JArr xs" using member_arr by blast
    ultimately show ?thesis
      using swapping integers [OF ends(1)] integers [OF ends(2)]
      by (auto simp: effect_value_def swap_items_def domain_error_def)
  next
    case appending
    then obtain d where d: "operand_in nfc dt (Some aid) e ''value'' = Inr d" "check_append target d = Inr ()"
      and "vd_type target = ''string_array''"
      using assms(1) by (auto simp: check_operation_def)
    then obtain v where v: "operand_value st params (Some aid) (obj_get e ''value'') = Inr v" "domain_member d v"
      using operands unfolding operand_in_def by blast
    from d(2) have "vd_type d = ''string''" by (auto simp: check_append_def)
    with v(2) obtain s where "v = JStr s" using member_str by blast
    moreover obtain xs where "current = JArr xs"
      using \<open>vd_type target = ''string_array''\<close> assms(4) member_arr by blast
    ultimately show ?thesis
      using appending v(1) by (simp add: effect_value_def append_new_def domain_error_def)
  qed
qed

lemma effect_sound:
  assumes "checked_with nfc logic ex dt" and "accepted nfc logic ex gi" and "in_schema gi st"
    and "parameters_match (dt_parameters dt) (Some aid) params"
    and "map_of (gi_effects gi) eid = Some e" and "obj_get e ''action_id'' = JStr aid"
  shows "outcome (domain_error e) (in_schema gi) (gp_apply_effect gi params aid st e)"
    and "obj_get e ''operation'' \<in> {JStr ''set'', JStr ''reset''} \<Longrightarrow> \<not> isl (gp_apply_effect gi params aid st e)"
proof -
  obtain items where items: "collection logic ''effects'' = Inr items"
    and reg: "registry_of (rg_effects (ex_registries ex)) items"
    using assms(1) registries_ok(4) record_registry_ok unfolding checked_with_def by metis
  obtain owners where "foldR (check_effect nfc dt) [] items = Inr owners"
    using assms(1) items by (auto simp: checked_with_def loop_over_def)
  from registry_table(1) [OF this reg check_effect_fills, of eid e] accepted_index(4) [OF assms(2)] assms(5)
  obtain aid' where "effect_passes nfc dt e aid'" by auto
  with assms(6) have passes: "effect_passes nfc dt e aid" by (auto simp: effect_passes_def)
  then obtain sid target ob where target: "effect_target e = JStr sid" "map_of (dt_states dt) sid = Some target"
    "map_of (rg_states (ex_registries ex)) sid = Some ob" "obj_get ob ''mutability'' = JStr ''mutable''"
    "check_operation nfc dt aid target e = Inr ()"
    using assms(1) by (auto simp: effect_passes_def checked_with_def)
  have schema: "declares ob target" "check_state_shape nfc (JObj ob) = Inr ()"
    using schema_declares [OF assms(1) _ target(2)] assms(2) target(3) by (auto simp: accepted_def)
  have gi: "map_of (gi_schema gi) sid = Some ob" using target(3) accepted_index(1) [OF assms(2)] by simp
  have keys: "distinct (map fst (gi_schema gi))"
    using assms(2) make_interpreter_constructed by (auto simp: accepted_def constructed_def dict_keys_def)
  have matches: "state_matches (dt_states dt) st" by (rule schema_state_matches [OF assms(1-3)])
  then obtain current where current: "map_of st sid = Some current" "domain_member target current"
    using state_matchesD [OF _ target(2)] by blast
  have run: "gp_apply_effect gi params aid st e =
      rbind (effect_value ob (\<lambda>k. operand_value st params (Some aid) (obj_get e k)) (obj_get e ''operation'') current) (\<lambda>v.
      rbind (validate_state_value ob v) (\<lambda>ok.
      rbind (reject (\<not> ok) ''effect_domain_invalid'' (''effect leaves state '' @ sid @ '' outside its domain'')) (\<lambda>_.
        Inr (AList.update sid v st))))"
    using passes target current gi
    by (simp add: gp_apply_effect_def effect_passes_def dict_at_def raise_if_def)
  have total: "\<exists>b. validate_state_value ob v = Inr b" for v
    by (simp add: validate_state_value_def in_domain_member [OF schema(1)])
  note sound = effect_value_sound [OF target(5) schema current(2) matches assms(4)]
  have "outcome (domain_error e) (\<lambda>st'. in_schema gi st')
      (rbind (validate_state_value ob v) (\<lambda>ok.
       rbind (reject (\<not> ok) ''effect_domain_invalid'' (''effect leaves state '' @ sid @ '' outside its domain'')) (\<lambda>_.
         Inr (AList.update sid v st))))"
    if "obj_get e ''operation'' \<in> {JStr ''set'', JStr ''reset''} \<longrightarrow> validate_state_value ob v = Inr True" for v
    using that total [of v] in_schema_update [OF assms(3) gi keys, of v]
    by (auto simp: domain_error_def outcome_simps)
  with sound show "outcome (domain_error e) (in_schema gi) (gp_apply_effect gi params aid st e)"
    unfolding run by (auto simp: outcome_rbind elim!: outcome_mono)
  then show "\<not> isl (gp_apply_effect gi params aid st e)" if "obj_get e ''operation'' \<in> {JStr ''set'', JStr ''reset''}"
    using that by (cases "gp_apply_effect gi params aid st e") (auto simp: domain_error_def)
qed

section \<open>Mechanics\<close>

definition id_set :: "json dict \<Rightarrow> string \<Rightarrow> string set" where
  "id_set ob k = (case obj_get ob k of JArr xs \<Rightarrow> id_text ` set xs | _ \<Rightarrow> {})"

lemma id_set_ids: "ids_in registry allow_empty ob k = Inr ids \<Longrightarrow> id_set ob k = set ids"
  by (auto simp: id_set_def image_comp dest!: ids_in_ok)

definition rules_of :: "executable \<Rightarrow> string \<Rightarrow> (string \<times> json dict) set" where
  "rules_of ex aid =
     {(rid, rule). map_of (rg_rules (ex_registries ex)) rid = Some rule \<and> obj_get rule ''action_id'' = JStr aid}"

lemma check_rule_fills:
  "fills (check_rule rg scopes owners) rt_actions (\<lambda>rule aid. obj_get rule ''action_id'' = JStr aid)"
  "fills (check_rule rg scopes owners) rt_conditions (\<lambda>rule ids. id_set rule ''condition_ids'' = set ids)"
  "fills (check_rule rg scopes owners) rt_effects (\<lambda>rule ids. id_set rule ''effect_ids'' = set ids)"
  "fills (check_rule rg scopes owners) rt_events (\<lambda>rule ids. id_set rule ''event_ids'' = set ids)"
  unfolding fills_def
  by (auto simp: check_rule_def as_obj_def dest!: id_of_ok) (use id_set_ids in blast)+

lemma require_all_ok: "require_all table wanted ids reason detail = Inr u \<longleftrightarrow> (\<forall>i \<in> set ids. map_of table i = Some wanted)"
proof -
  have "rbind (dict_at table i) (\<lambda>v. reject (v \<noteq> wanted) reason detail) = Inr () \<longleftrightarrow> map_of table i = Some wanted" for i
    by (cases "map_of table i") (auto simp: dict_at_def)
  then show ?thesis by (simp add: require_all_def for_each_ok)
qed

lemma gather_ok:
  "gather (dict_at table) ids = Inr xs \<Longrightarrow> set xs = (\<Union>i \<in> set ids. set (the (map_of table i)))"
proof (induction ids arbitrary: xs)
  case (Cons i ids)
  then obtain x xss where "mapR (dict_at table) ids = Inr xss" "map_of table i = Some x" "xs = x @ concat xss"
    by (auto simp: gather_def dict_at_Inr)
  with Cons.IH [of "concat xss"] show ?case by (simp add: gather_def)
qed (simp add: gather_def)

text \<open>The rules of an executable logic, with the tables made from them.\<close>

definition tables_fit :: "executable \<Rightarrow> rule_tables \<Rightarrow> bool" where
  "tables_fit ex rules \<longleftrightarrow>
     fst ` set (rt_actions rules) = fst ` set (rg_rules (ex_registries ex)) \<and>
     (\<forall>rid rule. map_of (rg_rules (ex_registries ex)) rid = Some rule \<longrightarrow>
        (\<exists>aid. map_of (rt_actions rules) rid = Some aid \<and> obj_get rule ''action_id'' = JStr aid) \<and>
        (\<exists>ids. map_of (rt_conditions rules) rid = Some ids \<and> id_set rule ''condition_ids'' = set ids) \<and>
        (\<exists>ids. map_of (rt_effects rules) rid = Some ids \<and> id_set rule ''effect_ids'' = set ids) \<and>
        (\<exists>ids. map_of (rt_events rules) rid = Some ids \<and> id_set rule ''event_ids'' = set ids))"

lemma rule_loop:
  assumes "make_registries logic = Inr rg" and "loop_over logic ''rules'' step s = Inr s'"
  obtains items where "foldR step s items = Inr s'" and "registry_of (rg_rules rg) items"
  using registries_ok(5) [OF assms(1)] record_registry_ok assms(2) unfolding loop_over_def by (metis rbind_Inr)

lemma loop_tables_fit:
  assumes "make_registries logic = Inr (ex_registries ex)"
    and "loop_over logic ''rules'' (check_rule (ex_registries ex) (ex_scopes ex) owners) no_rules = Inr rules"
  shows "tables_fit ex rules"
proof -
  obtain items where run: "foldR (check_rule (ex_registries ex) (ex_scopes ex) owners) no_rules items = Inr rules"
    and reg: "registry_of (rg_rules (ex_registries ex)) items"
    using rule_loop [OF assms] .
  have "fst ` set (rt_actions rules) = fst ` set (rg_rules (ex_registries ex))"
    by (rule registry_table(2) [OF run reg check_rule_fills(1)]) (simp add: no_rules_def)
  then show ?thesis
    using registry_table(1) [OF run reg check_rule_fills(1)] registry_table(1) [OF run reg check_rule_fills(2)]
      registry_table(1) [OF run reg check_rule_fills(3)] registry_table(1) [OF run reg check_rule_fills(4)]
    by (simp add: tables_fit_def)
qed

lemma rule_tables_ok:
  assumes "validate_executable_logic nfc logic = Inr ex"
  shows "\<exists>rules seen. tables_fit ex rules \<and>
    rbind (collection logic ''actions'') (mapR (action_closure (ex_registries ex) (ex_children ex) rules)) = Inr (ex_closures ex) \<and>
    loop_over logic ''mechanics'' (check_mechanic (ex_registries ex) (ex_closures ex)) [] = Inr seen"
proof -
  obtain owners rules seen where
    fit: "make_registries logic = Inr (ex_registries ex)"
      "loop_over logic ''rules'' (check_rule (ex_registries ex) (ex_scopes ex) owners) no_rules = Inr rules" and
    rest: "rbind (collection logic ''actions'') (mapR (action_closure (ex_registries ex) (ex_children ex) rules))
        = Inr (ex_closures ex)"
      "loop_over logic ''mechanics'' (check_mechanic (ex_registries ex) (ex_closures ex)) [] = Inr seen"
    using assms by (auto simp: validate_executable_logic_def Let_def)
  show ?thesis using loop_tables_fit [OF fit] rest by (intro exI conjI)
qed

lemma tables_fit_owner:
  assumes "tables_fit ex rules"
  shows "map_of (rt_actions rules) rid = Some aid \<longleftrightarrow> (\<exists>rule. (rid, rule) \<in> rules_of ex aid)"
proof (cases "map_of (rg_rules (ex_registries ex)) rid")
  case None
  then have "rid \<notin> fst ` set (rt_actions rules)" using assms by (simp add: tables_fit_def map_of_eq_None_iff)
  with None show ?thesis by (simp add: rules_of_def map_of_eq_None_iff [symmetric])
next
  case (Some rule)
  with assms show ?thesis by (fastforce simp: tables_fit_def rules_of_def)
qed

lemma action_closure_ok:
  assumes "action_closure rg children rules j = Inr (aid, cl)"
  shows "cl_rules cl = {rid. map_of (rt_actions rules) rid = Some aid}"
    and "cl_conditions cl = (edges children)\<^sup>* `` (\<Union>rid \<in> cl_rules cl. set (the (map_of (rt_conditions rules) rid)))"
    and "cl_effects cl = (\<Union>rid \<in> cl_rules cl. set (the (map_of (rt_effects rules) rid)))"
    and "cl_events cl = (\<Union>rid \<in> cl_rules cl. set (the (map_of (rt_events rules) rid)))"
proof -
  obtain owned direct where
    owned: "set owned = cl_rules cl" "require_all (rt_actions rules) aid owned ''gamepack_logic_invalid''
        ''references a rule of another action'' = Inr ()"
      "set owned = fst ` set (filter (\<lambda>(_, owner). owner = aid) (rt_actions rules))" and
    direct: "gather (dict_at (rt_conditions rules)) owned = Inr direct" "cl_conditions cl = condition_closure direct children" and
    effects: "\<exists>xs. gather (dict_at (rt_effects rules)) owned = Inr xs \<and> cl_effects cl = set xs" and
    events: "\<exists>xs. gather (dict_at (rt_events rules)) owned = Inr xs \<and> cl_events cl = set xs"
    using assms by (auto simp: action_closure_def Let_def)
  have "map_of (rt_actions rules) rid = Some aid" if "rid \<in> set owned" for rid
    using owned(2) that by (simp add: require_all_ok)
  moreover have "rid \<in> set owned" if "map_of (rt_actions rules) rid = Some aid" for rid
    using map_of_SomeD [OF that] unfolding owned(3) by (force intro: rev_image_eqI)
  ultimately show "cl_rules cl = {rid. map_of (rt_actions rules) rid = Some aid}"
    unfolding owned(1) [symmetric] by blast
  show "cl_conditions cl = (edges children)\<^sup>* `` (\<Union>rid \<in> cl_rules cl. set (the (map_of (rt_conditions rules) rid)))"
    unfolding direct(2) condition_closure_eq gather_ok [OF direct(1)] owned(1) ..
  show "cl_effects cl = (\<Union>rid \<in> cl_rules cl. set (the (map_of (rt_effects rules) rid)))"
    using effects gather_ok unfolding owned(1) [symmetric] by metis
  show "cl_events cl = (\<Union>rid \<in> cl_rules cl. set (the (map_of (rt_events rules) rid)))"
    using events gather_ok unfolding owned(1) [symmetric] by metis
qed

lemma mapR_mem: "mapR f xs = Inr ys \<Longrightarrow> y \<in> set ys \<Longrightarrow> \<exists>x \<in> set xs. f x = Inr y"
  by (induction xs arbitrary: ys) auto

lemma mechanic_exact:
  assumes "check_mechanic rg closures seen (JObj m) = Inr seen'" and "obj_get m ''action_id'' = JStr aid"
  shows "\<exists>cl. map_of closures aid = Some cl \<and> id_set m ''rule_ids'' = cl_rules cl \<and>
    id_set m ''condition_ids'' = cl_conditions cl \<and> id_set m ''effect_ids'' = cl_effects cl \<and>
    id_set m ''event_ids'' = cl_events cl"
  using assms
  by (auto simp: check_mechanic_def as_obj_def mechanic_closure_def dict_at_def id_set_ids split: option.splits if_splits
      dest!: id_of_ok)

lemma fold_each: "foldR f s xs = Inr t \<Longrightarrow> x \<in> set xs \<Longrightarrow> \<exists>s s'. f s x = Inr s'"
  by (induction xs arbitrary: s) auto

end
