(* ===== verification/GamepackProgress.thy ===== *)
theory GamepackProgress
  imports GamepackSoundness GamepackSession
begin

text \<open>
  What an accepted logic cannot run into: the references of its records resolve in the right scope,
  so a transition is refused for one of a few reasons only.
\<close>

section \<open>Conditions of records\<close>

definition scoped_ids :: "executable \<Rightarrow> string option \<Rightarrow> json dict \<Rightarrow> bool" where
  "scoped_ids ex scope ob \<longleftrightarrow>
     (\<exists>cs. obj_get ob ''condition_ids'' = JArr (map JStr cs) \<and>
        (\<forall>c \<in> set cs. c \<in> fst ` set (rg_conditions (ex_registries ex)) \<and> map_of (ex_scopes ex) c = Some scope))"

lemma scoped_idsI:
  "ids_in (rg_conditions (ex_registries ex)) allow_empty ob ''condition_ids'' = Inr cs \<Longrightarrow>
     require_all (ex_scopes ex) scope cs reason detail = Inr u \<Longrightarrow> scoped_ids ex scope ob"
  by (auto simp: scoped_ids_def require_all_ok dest!: ids_in_ok intro!: exI [of _ cs])

lemma allR_total: "(\<And>x. x \<in> set xs \<Longrightarrow> \<exists>b. f x = Inr b) \<Longrightarrow> \<exists>b. allR f xs = Inr b"
proof (induction xs)
  case (Cons x xs)
  then obtain b c where "f x = Inr b" "allR f xs = Inr c" by fastforce
  then show ?case by (cases b) (auto simp: ex_bool_eq)
qed (simp add: ex_bool_eq)

lemma scoped_evaluate:
  assumes "checked_with nfc logic ex dt" and "accepted nfc logic ex gi" and "in_schema gi st"
    and "parameters_match (dt_parameters dt) scope params" and "scoped_ids ex scope ob"
  shows "\<exists>b. eval_conditions gi (obj_get ob ''condition_ids'') st params scope = Inr b"
proof -
  obtain cs where cs: "obj_get ob ''condition_ids'' = JArr (map JStr cs)"
    "\<forall>c \<in> set cs. c \<in> fst ` set (rg_conditions (ex_registries ex)) \<and> map_of (ex_scopes ex) c = Some scope"
    using assms(5) by (auto simp: scoped_ids_def)
  have "\<exists>b. eval_condition (gi_conditions gi) st params scope {} c = Inr b" if "c \<in> set cs" for c
    unfolding accepted_index(3) [OF assms(2)]
    by (rule conditions_evaluate [OF assms(1) schema_state_matches [OF assms(1-3)] assms(4)]) (use cs(2) that in auto)
  then show ?thesis
    unfolding eval_conditions_def cs(1) json.case by (intro allR_total) auto
qed

section \<open>Classification\<close>

definition record_ok :: "executable \<Rightarrow> json \<Rightarrow> bool" where
  "record_ok ex j \<longleftrightarrow>
     (\<exists>ob i. j = JObj ob \<and> obj_get ob ''id'' = JStr i \<and> scoped_ids ex None ob)"

definition listed :: "json dict \<Rightarrow> string \<Rightarrow> json list" where
  "listed logic name = (case obj_get logic name of JArr xs \<Rightarrow> xs | _ \<Rightarrow> [])"

lemma loop_items:
  assumes "loop_over logic name step s = Inr s'" and "j \<in> set (listed logic name)"
  shows "\<exists>t t'. step t j = Inr t'"
proof -
  obtain items where items: "obj_get logic name = JArr items" "foldR step s items = Inr s'"
    using assms(1) by (auto simp: loop_over_def collection_iff)
  then have "j \<in> set items" using assms(2) by (simp add: listed_def)
  with items(2) show ?thesis by (rule fold_each)
qed

lemma registry_ids:
  assumes "record_registry logic name = Inr reg" and "j \<in> set (listed logic name)"
  shows "\<exists>ob i. j = JObj ob \<and> obj_get ob ''id'' = JStr i"
proof -
  obtain items where "collection logic name = Inr items" "registry_of reg items"
    using assms(1) record_registry_ok by blast
  with assms(2) show ?thesis by (fastforce simp: collection_iff listed_def registry_of_def)
qed

text \<open>Goals, failures and endings: a name, global conditions, and what else a classification reads.\<close>

definition global_record :: "executable \<Rightarrow> json dict \<Rightarrow> bool" where
  "global_record ex ob \<longleftrightarrow> is_str (obj_get ob ''id'') \<and> scoped_ids ex None ob"

lemma global_records:
  assumes "checked_with nfc logic ex dt"
  shows "JObj ob \<in> set (listed logic ''goals'') \<Longrightarrow> global_record ex ob"
    and "JObj ob \<in> set (listed logic ''failures'') \<Longrightarrow>
      global_record ex ob \<and> (\<exists>xs. obj_get ob ''recovery_action_ids'' = JArr xs)"
    and "JObj ob \<in> set (listed logic ''endings'') \<Longrightarrow> global_record ex ob \<and> (\<exists>s. obj_get ob ''kind'' = JStr s)"
proof -
  have named: "is_str (obj_get ob ''id'')" if "JObj ob \<in> set (listed logic name)" "name \<in> {''goals'', ''failures'', ''endings''}"
    for name
    using assms registries_ok(6) [OF _ that(2)] registry_ids [OF _ that(1)] by (fastforce simp: checked_with_def is_str_def)
  obtain endings where loops:
    "loop_over logic ''endings'' (check_ending (ex_registries ex) (ex_scopes ex)) [] = Inr endings"
    "loop_over logic ''goals'' (\<lambda>_. check_goal (ex_registries ex) (ex_scopes ex) endings) () = Inr ()"
    "loop_over logic ''failures'' (\<lambda>_. check_failure (ex_registries ex) (ex_scopes ex)) () = Inr ()"
    using assms by (auto simp: checked_with_def)
  show "global_record ex ob" if "JObj ob \<in> set (listed logic ''goals'')"
    using loop_items [OF loops(2) that] named [OF that]
    by (auto simp: global_record_def check_goal_def as_obj_def require_global_def intro: scoped_idsI)
  show "global_record ex ob \<and> (\<exists>xs. obj_get ob ''recovery_action_ids'' = JArr xs)"
    if "JObj ob \<in> set (listed logic ''failures'')"
    using loop_items [OF loops(3) that] named [OF that]
    by (auto simp: global_record_def check_failure_def as_obj_def require_global_def intro: scoped_idsI dest: ids_in_ok)
  show "global_record ex ob \<and> (\<exists>s. obj_get ob ''kind'' = JStr s)"
    if "JObj ob \<in> set (listed logic ''endings'')"
    using loop_items [OF loops(1) that] named [OF that]
    by (auto simp: global_record_def check_ending_def as_obj_def require_global_def require_one_of_def one_of_def
        intro: scoped_idsI split: if_splits)
qed

text \<open>What the interpreter holds as goals, failures and endings.\<close>

lemma records_items: "records v ctx = Inr obs \<Longrightarrow> v = JArr (map JObj obs)"
proof -
  assume ok: "records v ctx = Inr obs"
  have "mapR as_obj xs = Inr obs \<Longrightarrow> list_all is_obj xs \<Longrightarrow> xs = map JObj obs" for xs
    by (induction xs arbitrary: obs) (auto simp: as_obj_def is_obj_def split: json.splits)
  with ok show ?thesis by (auto simp: records_def split: json.splits if_splits)
qed

lemma accepted_records:
  assumes "accepted nfc logic ex gi"
  shows "set (map JObj (gi_goals gi)) = set (listed logic ''goals'')"
    and "set (map JObj (gi_failures gi)) = set (listed logic ''failures'')"
    and "set (map JObj (gi_endings gi)) = set (listed logic ''endings'')"
    and "gi_transitions gi = [] \<Longrightarrow> gi_by_action gi = []"
proof -
  obtain pack limits where "make_interpreter pack limits = Inr gi" "obj_get pack ''logic'' = JObj logic"
    using assms by (auto simp: accepted_def)
  then have "records (obj_get logic ''goals'') ''goals'' = Inr (gi_goals gi)"
    "records (obj_get logic ''failures'') ''failures'' = Inr (gi_failures gi)"
    "records (obj_get logic ''endings'') ''endings'' = Inr (gi_endings gi)"
    "foldR index_transition [] (gi_transitions gi) = Inr (gi_by_action gi)"
    by (auto simp: make_interpreter_def Let_def)
  then show "set (map JObj (gi_goals gi)) = set (listed logic ''goals'')"
    "set (map JObj (gi_failures gi)) = set (listed logic ''failures'')"
    "set (map JObj (gi_endings gi)) = set (listed logic ''endings'')"
    "gi_transitions gi = [] \<Longrightarrow> gi_by_action gi = []"
    by (auto simp: listed_def dest!: records_items)
qed

definition classify_error :: "exn \<Rightarrow> bool" where
  "classify_error e \<longleftrightarrow> (\<exists>detail. e = GameLogicError ''ambiguous_ending'' detail \<or> e = GameLogicError ''cursor_divergence'' detail)"

lemma classify_error_simps [simp]:
  "classify_error (GameLogicError ''ambiguous_ending'' detail)" "classify_error (GameLogicError ''cursor_divergence'' detail)"
  by (simp_all add: classify_error_def)

lemma active_total:
  assumes "checked_with nfc logic ex dt" and "accepted nfc logic ex gi" and "in_schema gi st"
    and "\<And>g. g \<in> set items \<Longrightarrow> global_record ex g"
  shows "\<exists>ids. active_ids gi st items = Inr ids \<and> set ids \<subseteq> id_text ` (\<lambda>g. obj_get g ''id'') ` set items"
proof -
  have step: "\<exists>acc'. add_active gi st acc g = Inr acc'" if g: "g \<in> set items" for acc g
  proof -
    have "global_record ex g" using assms(4) g .
    then obtain i where "obj_get g ''id'' = JStr i" "scoped_ids ex None g"
      by (auto simp: global_record_def is_str_iff)
    then show ?thesis
      using scoped_evaluate [OF assms(1-3), of None "[]" g]
      by (auto simp: add_active_def parameters_match_def dict_at_obj_get)
  qed
  have "\<exists>acc'. foldR (add_active gi st) acc gs = Inr acc'" if "set gs \<subseteq> set items" for acc gs
    using that
  proof (induction gs arbitrary: acc)
    case (Cons g gs)
    obtain acc1 where "add_active gi st acc g = Inr acc1" using step [of g acc] Cons.prems by auto
    with Cons.IH [of acc1] Cons.prems show ?case by auto
  qed simp
  then obtain ids where "active_ids gi st items = Inr ids" unfolding active_ids_def by blast
  moreover have "list_all (\<lambda>g. is_str (obj_get g ''id'')) items"
    using assms(4) by (auto simp: list_all_iff global_record_def)
  ultimately show ?thesis using active_errors [of items gi st] by simp
qed

lemma recover_total:
  assumes "\<And>f. f \<in> set failures \<Longrightarrow> is_str (obj_get f ''id'') \<and> (\<exists>xs. obj_get f ''recovery_action_ids'' = JArr xs)"
    and "set ids \<subseteq> id_text ` (\<lambda>g. obj_get g ''id'') ` set failures"
  shows "\<exists>r'. foldR (recover failures) r ids = Inr r'"
  using assms(2)
proof (induction ids arbitrary: r)
  case (Cons i ids)
  have "list_all (\<lambda>g. is_str (obj_get g ''id'')) failures" using assms(1) by (simp add: list_all_iff)
  then obtain f where "f \<in> set failures" "next_record i failures = Inr f"
    using next_record_found [of failures i] Cons.prems by auto
  with assms(1) [of f] obtain r1 where "recover failures r i = Inr r1" by (auto simp: recover_def Let_def)
  with Cons.IH [of r1] Cons.prems show ?case by auto
qed simp

lemma check_cursor_reasons: "outcome classify_error (\<lambda>_. True) (check_cursor gi st endings kind)"
  unfolding check_cursor_def Let_def by (intro outcome_splits; simp add: outcome_simps split: option.split)

lemma classify_reasons:
  assumes "checked_with nfc logic ex dt" and "accepted nfc logic ex gi" and "in_schema gi st"
  shows "outcome classify_error (\<lambda>_. True) (classify_validated_state gi st)"
proof -
  have mem: "g \<in> set (gi_goals gi) \<Longrightarrow> JObj g \<in> set (listed logic ''goals'')"
    "g \<in> set (gi_failures gi) \<Longrightarrow> JObj g \<in> set (listed logic ''failures'')"
    "g \<in> set (gi_endings gi) \<Longrightarrow> JObj g \<in> set (listed logic ''endings'')" for g
    using accepted_records(1-3) [OF assms(2)] by auto
  note global = global_records [OF assms(1)]
  obtain goals where goals: "active_ids gi st (gi_goals gi) = Inr goals"
    using active_total [OF assms, of "gi_goals gi"] global(1) mem(1) by blast
  obtain endings where endings: "active_ids gi st (gi_endings gi) = Inr endings"
    "set endings \<subseteq> id_text ` (\<lambda>g. obj_get g ''id'') ` set (gi_endings gi)"
    using active_total [OF assms, of "gi_endings gi"] global(3) mem(3) by blast
  obtain failures where failures: "active_ids gi st (gi_failures gi) = Inr failures"
    "set failures \<subseteq> id_text ` (\<lambda>g. obj_get g ''id'') ` set (gi_failures gi)"
    using active_total [OF assms, of "gi_failures gi"] global(2) mem(2) by blast
  obtain r where r: "foldR (recover (gi_failures gi)) None failures = Inr r"
    using recover_total [of "gi_failures gi" failures None] global(2) mem(2) failures(2)
    by (fastforce simp: global_record_def)
  have kind: "\<exists>k. (case endings of [] \<Rightarrow> Inr None
      | i # _ \<Rightarrow> rbind (next_record i (gi_endings gi)) (\<lambda>ending.
          rbind (dict_at ending ''kind'') (\<lambda>j. Inr (Some (id_text j))))) = Inr k"
  proof (cases endings)
    case (Cons i rest)
    have "list_all (\<lambda>g. is_str (obj_get g ''id'')) (gi_endings gi)"
      using global(3) mem(3) by (auto simp: list_all_iff global_record_def)
    then obtain e where "e \<in> set (gi_endings gi)" "next_record i (gi_endings gi) = Inr e"
      using next_record_found [of "gi_endings gi" i] endings(2) Cons by auto
    moreover from this(1) global(3) [OF mem(3)] obtain s where "obj_get e ''kind'' = JStr s" by blast
    ultimately show ?thesis by (simp add: Cons dict_at_obj_get)
  qed simp
  then obtain k where k: "(case endings of [] \<Rightarrow> Inr None
      | i # _ \<Rightarrow> rbind (next_record i (gi_endings gi)) (\<lambda>ending.
          rbind (dict_at ending ''kind'') (\<lambda>j. Inr (Some (id_text j))))) = Inr k" by blast
  have run: "classify_validated_state gi st =
      rbind (reject (1 < length endings) ''ambiguous_ending'' ''exactly one ending may match a state'') (\<lambda>_.
      rbind (check_cursor gi st endings k) (\<lambda>_.
        Inr (if endings \<noteq> []
          then \<lparr>gc_goal_ids = goals, gc_ending_ids = endings, gc_ending_kind = k, gc_failure_ids = [], gc_recovery_action_ids = []\<rparr>
          else \<lparr>gc_goal_ids = goals, gc_ending_ids = [], gc_ending_kind = None, gc_failure_ids = failures,
                gc_recovery_action_ids = recovery_ids r\<rparr>)))"
    unfolding classify_validated_state_def goals endings(1) failures(1) k rbind_Inr r by (simp only: if_distrib)
  show ?thesis
    unfolding run by (intro outcome_True_rbind check_cursor_reasons) (simp_all add: outcome_simps)
qed

section \<open>The rules of an action\<close>

definition rule_passes :: "executable \<Rightarrow> string dict \<Rightarrow> json dict \<Rightarrow> string \<Rightarrow> bool" where
  "rule_passes ex owners rule aid \<longleftrightarrow>
     obj_get rule ''action_id'' = JStr aid \<and> (\<exists>i. obj_get rule ''order'' = JInt i) \<and> scoped_ids ex (Some aid) rule \<and>
     (\<exists>es. obj_get rule ''effect_ids'' = JArr (map JStr es) \<and>
        (\<forall>e \<in> set es. e \<in> fst ` set (rg_effects (ex_registries ex)) \<and> map_of owners e = Some aid)) \<and>
     (\<exists>vs. obj_get rule ''event_ids'' = JArr vs)"

lemma fresh_order_int: "fresh_order seen j = Inr i \<Longrightarrow> j = JInt i"
  by (auto simp: fresh_order_def split: json.splits if_splits)

lemma check_rule_passes:
  "fills (check_rule (ex_registries ex) (ex_scopes ex) owners) rt_actions (rule_passes ex owners)"
  unfolding fills_def
  by (auto simp: check_rule_def as_obj_def rule_passes_def require_all_ok scoped_ids_def dest!: id_of_ok fresh_order_int ids_in_ok)

text \<open>The owners of the effects, and the tables of the rules, as the checks computed them.\<close>

definition references_pass :: "json dict \<Rightarrow> executable \<Rightarrow> rule_tables \<Rightarrow> string dict \<Rightarrow> bool" where
  "references_pass logic ex rules owners \<longleftrightarrow>
     tables_fit ex rules \<and>
     rbind (collection logic ''actions'') (mapR (action_closure (ex_registries ex) (ex_children ex) rules))
       = Inr (ex_closures ex) \<and>
     (\<forall>rid rule aid. map_of (rg_rules (ex_registries ex)) rid = Some rule \<longrightarrow> obj_get rule ''action_id'' = JStr aid \<longrightarrow>
        rule_passes ex owners rule aid) \<and>
     (\<forall>eid e aid. map_of (rg_effects (ex_registries ex)) eid = Some e \<longrightarrow> map_of owners eid = Some aid \<longrightarrow>
        obj_get e ''action_id'' = JStr aid)"

lemma rules_pass:
  assumes "checked_with nfc logic ex dt"
  shows "\<exists>rules owners. references_pass logic ex rules owners"
proof -
  have registries: "make_registries logic = Inr (ex_registries ex)"
    using assms by (simp add: checked_with_def)
  obtain owners rules where
    owners: "loop_over logic ''effects'' (check_effect nfc dt) [] = Inr owners" and
    rules: "loop_over logic ''rules'' (check_rule (ex_registries ex) (ex_scopes ex) owners) no_rules = Inr rules" and
    closures: "rbind (collection logic ''actions'') (mapR (action_closure (ex_registries ex) (ex_children ex) rules))
      = Inr (ex_closures ex)"
    using assms by (auto simp: checked_with_def)
  obtain items where "foldR (check_rule (ex_registries ex) (ex_scopes ex) owners) no_rules items = Inr rules"
    "registry_of (rg_rules (ex_registries ex)) items"
    using rule_loop [OF registries rules] .
  note rule = registry_table(1) [OF this check_rule_passes]
  obtain effects where "foldR (check_effect nfc dt) [] effects = Inr owners" "registry_of (rg_effects (ex_registries ex)) effects"
    using registries_ok(4) [OF registries] record_registry_ok owners unfolding loop_over_def by (metis rbind_Inr)
  note effect = registry_table(1) [OF this check_effect_fills]
  have "rule_passes ex owners r aid"
    if "map_of (rg_rules (ex_registries ex)) rid = Some r" "obj_get r ''action_id'' = JStr aid" for rid r aid
    using rule [OF that(1)] that(2) by (auto simp: rule_passes_def)
  moreover have "obj_get e ''action_id'' = JStr aid"
    if "map_of (rg_effects (ex_registries ex)) eid = Some e" "map_of owners eid = Some aid" for eid e aid
    using effect [OF that(1)] that(2) by (auto simp: effect_passes_def)
  ultimately have "references_pass logic ex rules owners"
    using loop_tables_fit [OF registries rules] closures by (simp add: references_pass_def)
  then show ?thesis by blast
qed

lemma references_rule:
  assumes "references_pass logic ex rules owners" and "map_of (rg_rules (ex_registries ex)) rid = Some rule"
    and "obj_get rule ''action_id'' = JStr aid"
  shows "rule_passes ex owners rule aid"
proof -
  have "\<forall>rid rule aid. map_of (rg_rules (ex_registries ex)) rid = Some rule \<longrightarrow> obj_get rule ''action_id'' = JStr aid \<longrightarrow>
      rule_passes ex owners rule aid"
    using assms(1) unfolding references_pass_def by (elim conjE)
  with assms(2,3) show ?thesis by blast
qed

lemma references_effect:
  assumes "references_pass logic ex rules owners" and "map_of (rg_effects (ex_registries ex)) eid = Some e"
    and "map_of owners eid = Some aid"
  shows "obj_get e ''action_id'' = JStr aid"
proof -
  have "\<forall>eid e aid. map_of (rg_effects (ex_registries ex)) eid = Some e \<longrightarrow> map_of owners eid = Some aid \<longrightarrow>
      obj_get e ''action_id'' = JStr aid"
    using assms(1) unfolding references_pass_def by (elim conjE)
  with assms(2,3) show ?thesis by blast
qed

lemma mapR_all: "mapR f xs = Inr ys \<Longrightarrow> x \<in> set xs \<Longrightarrow> \<exists>y. f x = Inr y"
  by (induction xs arbitrary: ys) auto

lemma action_closure_rules:
  assumes "action_closure rg children rules (JObj action) = Inr y"
  shows "fst y = id_text (obj_get action ''id'')"
    and "\<exists>ids. ids_in (rg_rules rg) False action ''rule_ids'' = Inr ids \<and> set ids = cl_rules (snd y)"
  using assms by (auto simp: action_closure_def as_obj_def Let_def dict_at_Inr obj_get_def)

lemma obj_get_or_int: "obj_get ob k = JInt i \<Longrightarrow> obj_get_or ob k j = JInt i"
  by (auto simp: obj_get_or_def obj_get_def split: option.splits)

text \<open>So an action always finds its rules.\<close>

lemma owned_rules_total:
  assumes "checked_with nfc logic ex dt" and "accepted nfc logic ex gi" and "references_pass logic ex rules owners"
    and "map_of (gi_actions gi) aid = Some action"
  shows "\<exists>rs. owned_rules gi aid action = Inr (Inr rs) \<and> (\<forall>rule \<in> set rs. rule_passes ex owners rule aid)"
proof -
  have fit: "tables_fit ex rules"
    and closures: "rbind (collection logic ''actions'') (mapR (action_closure (ex_registries ex) (ex_children ex) rules))
      = Inr (ex_closures ex)"
    using assms(3) by (simp_all add: references_pass_def)
  have registries: "make_registries logic = Inr (ex_registries ex)" using assms(1) by (simp add: checked_with_def)
  obtain items where items: "collection logic ''actions'' = Inr items" "registry_of (rg_actions (ex_registries ex)) items"
    using registries_ok(2) [OF registries] record_registry_ok by metis
  have mem: "(aid, action) \<in> set (rg_actions (ex_registries ex))"
    using assms(4) unfolding accepted_index(2) [OF assms(2)] by (rule map_of_SomeD)
  have all: "items = map (JObj \<circ> snd) (rg_actions (ex_registries ex))"
    "\<forall>(k, ob) \<in> set (rg_actions (ex_registries ex)). obj_get ob ''id'' = JStr k"
    using items(2) by (simp_all add: registry_of_def)
  have name: "id_text (obj_get action ''id'') = aid" using all(2) mem by auto
  have "JObj action \<in> set items" unfolding all(1) set_map using mem by (rule rev_image_eqI) simp
  moreover have "mapR (action_closure (ex_registries ex) (ex_children ex) rules) items = Inr (ex_closures ex)"
    using closures items(1) by simp
  ultimately have "\<exists>y. action_closure (ex_registries ex) (ex_children ex) rules (JObj action) = Inr y"
    by (intro mapR_all)
  then obtain y where y: "action_closure (ex_registries ex) (ex_children ex) rules (JObj action) = Inr y" ..
  obtain ids where ids: "ids_in (rg_rules (ex_registries ex)) False action ''rule_ids'' = Inr ids" "set ids = cl_rules (snd y)"
    using action_closure_rules(2) [OF y] by (elim exE conjE) (rule that)
  have "(aid, snd y) = y" using action_closure_rules(1) [OF y] name by (cases y) simp
  then have owned: "set ids = {rid. \<exists>rule. (rid, rule) \<in> rules_of ex aid}"
    using action_closure_ok(1) [of "ex_registries ex" "ex_children ex" rules "JObj action" aid "snd y"] y ids(2)
    by (simp add: tables_fit_owner [OF fit])
  have gi_rules: "gi_rules gi = rg_rules (ex_registries ex)" by (rule accepted_index(5) [OF assms(2)])
  obtain reg_items where "registry_of (rg_rules (ex_registries ex)) reg_items"
    using registries_ok(5) [OF registries] record_registry_ok by metis
  then have "set (owned_ids gi aid) = set ids"
    unfolding owned owned_ids_def gi_rules rules_of_def by (force simp: registry_map_of)
  moreover have "\<not> list_ex (\<lambda>i. case map_of (gi_rules gi) i of None \<Rightarrow> True
      | Some rule \<Rightarrow> obj_get rule ''action_id'' \<noteq> JStr aid) ids"
    unfolding list_ex_iff owned gi_rules by (auto simp: rules_of_def)
  moreover have passes: "rule_passes ex owners (the (map_of (gi_rules gi) i)) aid" if "i \<in> set ids" for i
  proof -
    have "\<exists>rule. map_of (rg_rules (ex_registries ex)) i = Some rule \<and> obj_get rule ''action_id'' = JStr aid"
      using that unfolding owned by (auto simp: rules_of_def)
    then obtain rule where "map_of (rg_rules (ex_registries ex)) i = Some rule" "obj_get rule ''action_id'' = JStr aid"
      by (elim exE conjE) (rule that)
    then show ?thesis using references_rule [OF assms(3)] by (simp add: gi_rules)
  qed
  have "\<exists>rs. sort_rules (map (\<lambda>i. the (map_of (gi_rules gi) i)) ids) = Inr rs \<and>
      set rs = set (map (\<lambda>i. the (map_of (gi_rules gi) i)) ids)"
  proof (rule sort_rules_total)
    fix rule assume "rule \<in> set (map (\<lambda>i. the (map_of (gi_rules gi) i)) ids)"
    then have "rule_passes ex owners rule aid" using passes by auto
    then obtain i where "obj_get rule ''order'' = JInt i" by (auto simp: rule_passes_def)
    then show "\<exists>i. as_int (obj_get_or rule ''order'' (JInt 0)) = Some i" by (simp add: obj_get_or_int as_int_def)
  qed
  then obtain rs where rs: "sort_rules (map (\<lambda>i. the (map_of (gi_rules gi) i)) ids) = Inr rs"
    "set rs = (\<lambda>i. the (map_of (gi_rules gi) i)) ` set ids"
    by auto
  moreover have "obj_get action ''rule_ids'' = JArr (map JStr ids)" "ids \<noteq> []"
    using ids_in_ok [OF ids(1)] by auto
  ultimately have "owned_rules gi aid action = Inr (Inr rs)"
    by (auto simp: owned_rules_def comp_def list_ex_iff)
  moreover have "\<forall>rule \<in> set rs. rule_passes ex owners rule aid" using passes rs(2) by simp
  ultimately show ?thesis by blast
qed

section \<open>Running the rules\<close>

definition attempt_error :: "interpreter \<Rightarrow> exn \<Rightarrow> bool" where
  "attempt_error gi e \<longleftrightarrow>
     (\<exists>detail. e = GameLogicError ''effect_domain_invalid'' detail) \<or> classify_error e \<or>
     (\<exists>st. in_schema gi st \<and> snapshot_strict_state st = Inl e)"

lemma run_rule_sound:
  assumes "checked_with nfc logic ex dt" and "accepted nfc logic ex gi" and "references_pass logic ex rules owners"
    and "parameters_match (dt_parameters dt) (Some aid) params"
    and "rule_passes ex owners rule aid" and "in_schema gi st"
  shows "outcome (attempt_error gi) (\<lambda>(st', _). in_schema gi st') (run_rule gi params aid (st, events) rule)"
proof -
  obtain es vs where es: "obj_get rule ''effect_ids'' = JArr (map JStr es)"
      "\<forall>e \<in> set es. e \<in> fst ` set (rg_effects (ex_registries ex)) \<and> map_of owners e = Some aid"
    and vs: "obj_get rule ''event_ids'' = JArr vs"
    using assms(5) by (auto simp: rule_passes_def)
  have step: "outcome (attempt_error gi) (in_schema gi) (run_effect gi params aid s (JStr eid))"
    if "eid \<in> set es" "in_schema gi s" for eid s
  proof -
    obtain e where e: "map_of (rg_effects (ex_registries ex)) eid = Some e"
      using es(2) \<open>eid \<in> set es\<close> by (meson map_of_eq_None_iff option.exhaust)
    then have gi: "map_of (gi_effects gi) eid = Some e" by (simp add: accepted_index(4) [OF assms(2)])
    have "obj_get e ''action_id'' = JStr aid"
      using references_effect [OF assms(3) e] es(2) \<open>eid \<in> set es\<close> by blast
    from effect_sound(1) [OF assms(1,2) that(2) assms(4) gi this]
    show ?thesis
      by (auto simp: run_effect_def gi domain_error_def attempt_error_def elim!: outcome_weaken)
  qed
  have "outcome (attempt_error gi) (in_schema gi) (foldR (run_effect gi params aid) st (map JStr es))"
    by (rule outcome_foldR) (use step assms(6) in auto)
  then show ?thesis
    by (auto simp: run_rule_def es(1) vs outcome_rbind elim!: outcome_mono)
qed

lemma classify_attempt:
  assumes "checked_with nfc logic ex dt" and "accepted nfc logic ex gi" and "in_schema gi st"
  shows "outcome (attempt_error gi) (\<lambda>_. True) (classify gi st)"
proof (cases "snapshot_strict_state st")
  case (Inl e)
  with assms(3) show ?thesis by (auto simp: classify_def attempt_error_def)
next
  case (Inr checked)
  then have "checked = st" by (auto simp: snapshot_strict_state_def)
  then have "classify gi st = classify_validated_state gi st"
    using Inr iffD2 [OF gp_validate_state_iff assms(3)] by (simp add: classify_def)
  then show ?thesis using classify_reasons [OF assms] by (auto simp: attempt_error_def elim: outcome_weaken)
qed

definition attempted :: "interpreter \<Rightarrow> string + json dict \<times> string list \<Rightarrow> bool" where
  "attempted gi r \<longleftrightarrow> (case r of Inl reason \<Rightarrow> reason = ''rule_condition_false'' | Inr (st', _) \<Rightarrow> in_schema gi st')"

lemma attempt_sound:
  assumes "checked_with nfc logic ex dt" and "accepted nfc logic ex gi" and "references_pass logic ex rules owners"
    and "parameters_match (dt_parameters dt) (Some aid) params"
    and "gi_by_action gi = []" and "in_schema gi st" and "\<And>rule. rule \<in> set rs \<Longrightarrow> rule_passes ex owners rule aid"
  shows "outcome (attempt_error gi) (attempted gi) (attempt gi aid st params rs)"
proof -
  have "\<exists>b. eval_conditions gi (obj_get rule ''condition_ids'') st params (Some aid) = Inr b" if "rule \<in> set rs" for rule
    using scoped_evaluate [OF assms(1,2,6,4)] assms(7) [OF that] by (simp add: rule_passes_def)
  then have "\<exists>b. allR (\<lambda>rule. eval_conditions gi (obj_get rule ''condition_ids'') st params (Some aid)) rs = Inr b"
    by (rule allR_total)
  then obtain b where b: "allR (\<lambda>rule. eval_conditions gi (obj_get rule ''condition_ids'') st params (Some aid)) rs = Inr b" ..
  have run: "outcome (attempt_error gi) (\<lambda>(st', _ :: string list). in_schema gi st') (foldR (run_rule gi params aid) (st, []) rs)"
  proof (rule outcome_foldR)
    fix acc :: "json dict \<times> string list" and rule
    assume "rule \<in> set rs" "case acc of (st', _) \<Rightarrow> in_schema gi st'"
    then show "outcome (attempt_error gi) (\<lambda>(st', _). in_schema gi st') (run_rule gi params aid acc rule)"
      using run_rule_sound [OF assms(1-4) assms(7)] by (cases acc) simp
  qed (use assms(6) in simp)
  have guard: "narrative_guard st None rs = Inr None" and cursor: "move_cursor None st' = Inr st'" for st'
    by (simp_all add: narrative_guard_def move_cursor_def)
  have finish: "outcome (attempt_error gi) (attempted gi) (rbind (gp_validate_state gi st') (\<lambda>_. rbind (classify gi st')
      (\<lambda>_. Inr (Inr (st', events)))))" if "in_schema gi st'" for st' events
  proof -
    have "gp_validate_state gi st' = Inr ()" using that by (simp add: gp_validate_state_iff)
    then show ?thesis using classify_attempt [OF assms(1,2) that] that by (simp add: outcome_rbind attempted_def)
  qed
  show ?thesis
    unfolding attempt_def b rbind_Inr assms(5) map_of.simps Let_def guard option.case cursor
    by (auto simp: outcome_rbind attempted_def intro!: outcome_mono [OF run] finish)
qed

section \<open>Transitions\<close>

lemma in_domain_errors: "outcome (\<lambda>e. \<forall>r d. e \<noteq> GameLogicError r d) (\<lambda>_. True) (in_domain safe schema v)"
  unfolding in_domain_def Let_def contained_def set_from_def iterated_def
  by (intro outcome_splits; simp add: outcome_simps split: json.split option.split prod.split)

lemma validated_parameters_errors:
  assumes "obj_get action ''parameters'' = JArr ps"
  shows "outcome (\<lambda>e. \<forall>r d. e = GameLogicError r d \<longrightarrow> r = ''action_parameters_invalid'') (\<lambda>_. True) (validated_parameters action c)"
proof -
  have "outcome (\<lambda>e. \<forall>r d. e = GameLogicError r d \<longrightarrow> r = ''action_parameters_invalid'') (\<lambda>_. True) (check_parameter c checked j)"
    for checked j
    unfolding check_parameter_def Let_def as_obj_def validate_parameter_value_def
    by (intro outcome_splits outcome_weaken [OF in_domain_errors]; simp add: outcome_simps split: json.split option.split)
  then show ?thesis
    unfolding validated_parameters_def assms json.case
    by (intro outcome_ifI outcome_foldR) simp_all
qed

text \<open>The reasons for which a transition can be refused.\<close>

definition known_reasons :: "string set" where
  "known_reasons =
     {''action_unknown'', ''action_parameters_invalid'', ''terminal_state'', ''failure_recovery_required'',
      ''failure_recovery_empty_intersection'', ''rule_condition_false'', ''effect_domain_invalid'',
      ''ambiguous_ending'', ''cursor_divergence''}"

definition refusal_reason :: "interpreter \<Rightarrow> string \<Rightarrow> bool" where
  "refusal_reason gi reason \<longleftrightarrow>
     reason \<in> known_reasons \<or>
     (\<exists>st detail. in_schema gi st \<and> snapshot_strict_state st = Inl (GameLogicError reason detail))"

lemma attempt_error_reason: "attempt_error gi (GameLogicError reason detail) \<Longrightarrow> refusal_reason gi reason"
  by (auto simp: attempt_error_def classify_error_def refusal_reason_def known_reasons_def)

lemma rejected_reason: "rejected sha c st reason = Inr r \<Longrightarrow> tr_rejection_reason r = Some reason"
  by (auto simp: rejected_def)

lemma commit_reason: "commit sha aid params st done = Inr r \<Longrightarrow> tr_rejection_reason r = None"
  by (auto simp: commit_def)

lemma try_rules_reason:
  assumes "outcome (attempt_error gi) (attempted gi) (attempt gi (ca_action_id c) st params rs)"
    and "try_rules sha gi st c params rs = Inr r" and "tr_rejection_reason r = Some reason"
  shows "refusal_reason gi reason"
proof (cases "attempt gi (ca_action_id c) st params rs")
  case (Inl e)
  with assms show ?thesis
    by (auto simp: try_rules_def catch_def dest!: rejected_reason intro: attempt_error_reason split: exn.splits)
next
  case (Inr result)
  with assms show ?thesis
    by (cases result)
      (auto simp: try_rules_def catch_def attempted_def refusal_reason_def known_reasons_def dest!: rejected_reason commit_reason)
qed

lemma try_action_reason:
  assumes "checked_with nfc logic ex dt" and "accepted nfc logic ex gi" and "gi_transitions gi = []" and "in_schema gi st"
    and "map_of (gi_actions gi) (ca_action_id c) = Some action"
    and "parameters_match (dt_parameters dt) (Some (ca_action_id c)) params"
    and "try_action sha gi st c action params = Inr r" and "tr_rejection_reason r = Some reason"
  shows "refusal_reason gi reason"
proof -
  obtain rules owners where pass: "references_pass logic ex rules owners"
    using rules_pass [OF assms(1)] by blast
  obtain rs where rs: "owned_rules gi (ca_action_id c) action = Inr (Inr rs)"
    and owned: "\<forall>rule \<in> set rs. rule_passes ex owners rule (ca_action_id c)"
    using owned_rules_total [OF assms(1,2) pass assms(5)] by blast
  have attempt: "outcome (attempt_error gi) (attempted gi) (attempt gi (ca_action_id c) st params rs)"
    using attempt_sound [OF assms(1,2) pass assms(6) accepted_records(4) [OF assms(2,3)] assms(4)] owned by blast
  obtain found ended where "classify gi st = Inr found" "terminal found = Inr ended"
    using assms(7) by (auto simp: try_action_def Let_def)
  note run = assms(7) [unfolded try_action_def Let_def this rbind_Inr rs sum.case]
  show ?thesis
  proof (cases "ended \<or> gc_failure_ids found \<noteq> [] \<and> ca_action_id c \<notin> set (gc_recovery_action_ids found)")
    case True
    with run assms(8) show ?thesis
      by (auto simp: refusal_reason_def known_reasons_def dest!: rejected_reason split: if_splits)
  next
    case False
    then have "try_rules sha gi st c params rs = Inr r" using run by (simp split: if_splits)
    then show ?thesis by (rule try_rules_reason [OF attempt _ assms(8)])
  qed
qed

lemma transition_reason:
  assumes "checked_with nfc logic ex dt" and "accepted nfc logic ex gi" and "gi_transitions gi = []" and "in_schema gi st"
    and "transition_strict sha gi st c = Inr r" and "tr_rejection_reason r = Some reason"
  shows "refusal_reason gi reason"
proof -
  have run: "transition_validated_state sha gi st c = Inr r"
    using assms(5) by (auto simp: transition_strict_def snapshot_strict_state_def snapshot_strict_candidate_def)
  show ?thesis
  proof (cases "map_of (gi_actions gi) (ca_action_id c)")
    case None
    with run assms(6) show ?thesis
      by (auto simp: transition_validated_state_def refusal_reason_def known_reasons_def dest!: rejected_reason)
  next
    case action: (Some action)
    obtain domains ps n where ps: "obj_get action ''parameters'' = JArr ps"
      using action_parameters [OF assms(1,2) action] by metis
    note run = run [unfolded transition_validated_state_def action option.case catch_def]
    show ?thesis
    proof (cases "validated_parameters action c")
      case (Inl e)
      then obtain detail where "e = GameLogicError ''action_parameters_invalid'' detail"
        using run validated_parameters_errors [OF ps, of c] by (cases e) simp_all
      with Inl run assms(6) show ?thesis
        by (auto simp: refusal_reason_def known_reasons_def dest!: rejected_reason)
    next
      case (Inr params)
      then show ?thesis
        using try_action_reason [OF assms(1-4) action candidate_parameters_match [OF assms(1,2) action Inr] _ assms(6)] run
        by simp
    qed
  qed
qed

end
