(* ===== verification/GamepackContractTheorems.thy ===== *)
theory GamepackContractTheorems
  imports GamepackProgress GamepackRuns Gatehouse
begin

text \<open>
  The properties of the contract of a gamepack's logic, each with a witness on the gatehouse, whose
  logic passes all the checks.
\<close>

section \<open>The gatehouse passes\<close>

definition gate_executable :: executable where
  "gate_executable = inr_of (validate_executable_logic (\<lambda>_. True) gate_logic)"

lemma gate_logic_valid: "validate_logic (\<lambda>_. True) (JObj gate_logic) = Inr gate_logic"
proof -
  have "\<not> isl (validate_logic (\<lambda>_. True) (JObj gate_logic))" by code_simp
  then show ?thesis
    by (cases "validate_logic (\<lambda>_. True) (JObj gate_logic)") (auto simp: validate_logic_def obj_of_def)
qed

lemma gate_executable_valid: "validate_executable_logic (\<lambda>_. True) gate_logic = Inr gate_executable"
proof -
  have "\<not> isl (validate_executable_logic (\<lambda>_. True) gate_logic)" by code_simp
  then show ?thesis
    by (cases "validate_executable_logic (\<lambda>_. True) gate_logic") (auto simp: gate_executable_def inr_of_def)
qed

lemma gate_accepted: "accepted (\<lambda>_. True) gate_logic gate_executable gatehouse"
proof -
  have "obj_get gatehouse_pack ''logic'' = JObj gate_logic" by (simp add: gatehouse_pack_def obj_get_def)
  then show ?thesis
    using gate_logic_valid gate_executable_valid gatehouse_made by (auto simp: accepted_def)
qed

section \<open>Cycles\<close>

text \<open>C36. The search for cycles among the conditions of a gamepack always ends, and it is exact: it
  accepts the conditions if and only if no condition is below itself, and when it rejects them, the
  reason is \<open>condition_cycle\<close> and there is a condition below itself.\<close>

theorem condition_cycles_are_found:
  assumes "fst ` set children \<union> \<Union> (set ` snd ` set children) \<subseteq> set roots"
  shows "case check_cycles children roots of
      Inr _ \<Rightarrow> acyclic {(a, b). b \<in> set (children_of children a)}
    | Inl e \<Rightarrow> (\<exists>detail. e = GameLogicError ''condition_cycle'' detail) \<and>
        \<not> acyclic {(a, b). b \<in> set (children_of children a)}"
proof -
  have "set (children_of children key) \<subseteq> set roots" for key
  proof (cases "map_of children key")
    case (Some cs)
    then have "cs \<in> snd ` set children" by (force dest: map_of_SomeD intro: rev_image_eqI)
    with Some assms show ?thesis by (auto simp: children_of_def)
  qed (simp add: children_of_def)
  then have "all_children children \<subseteq> set roots" "fst ` set children \<subseteq> set roots"
    using assms by (auto simp: all_children_def)
  from check_cycles_iff [OF this] show ?thesis
    by (cases "check_cycles children roots") (auto simp: edges_def cycle_error_def acyclic_def)
qed

definition looping :: "string list dict" where
  "looping = [(''first'', [''second'', ''third'']), (''second'', []), (''third'', [''first''])]"

definition branching :: "string list dict" where
  "branching = [(''first'', [''second'', ''third'']), (''second'', [''third'']), (''third'', [])]"

theorem condition_cycles_are_found_witness:
  "\<not> acyclic {(a, b). b \<in> set (children_of looping a)} \<and> acyclic {(a, b). b \<in> set (children_of branching a)}"
proof -
  let ?roots = "[''first'', ''second'', ''third'']"
  have "fst ` set looping \<union> \<Union> (set ` snd ` set looping) \<subseteq> set ?roots"
    "fst ` set branching \<union> \<Union> (set ` snd ` set branching) \<subseteq> set ?roots" by code_simp+
  note found = condition_cycles_are_found [OF this(1)] condition_cycles_are_found [OF this(2)]
  have "isl (check_cycles looping ?roots)" "\<not> isl (check_cycles branching ?roots)" by code_simp+
  then obtain e where "check_cycles looping ?roots = Inl e" "check_cycles branching ?roots = Inr ()"
    by (cases "check_cycles looping ?roots"; cases "check_cycles branching ?roots") auto
  with found show ?thesis by simp
qed

section \<open>Mechanics\<close>

text \<open>C37. A mechanic of an accepted logic lists exactly what its action reaches: the rules of the
  action, the effects and events of those rules, and the conditions that those rules name together
  with all conditions below them, however deep.\<close>

theorem mechanics_are_exact_closures:
  assumes "validate_executable_logic nfc logic = Inr ex"
    and "obj_get logic ''mechanics'' = JArr ms" and "JObj m \<in> set ms" and "obj_get m ''action_id'' = JStr aid"
  shows "id_set m ''rule_ids'' = fst ` rules_of ex aid \<and>
    id_set m ''effect_ids'' = (\<Union>(_, rule) \<in> rules_of ex aid. id_set rule ''effect_ids'') \<and>
    id_set m ''event_ids'' = (\<Union>(_, rule) \<in> rules_of ex aid. id_set rule ''event_ids'') \<and>
    id_set m ''condition_ids'' = {(a, b). b \<in> set (children_of (ex_children ex) a)}\<^sup>* ``
      (\<Union>(_, rule) \<in> rules_of ex aid. id_set rule ''condition_ids'')"
proof -
  obtain rules seen where fit: "tables_fit ex rules" and
    closures: "rbind (collection logic ''actions'') (mapR (action_closure (ex_registries ex) (ex_children ex) rules))
      = Inr (ex_closures ex)" and
    mechanics: "loop_over logic ''mechanics'' (check_mechanic (ex_registries ex) (ex_closures ex)) [] = Inr seen"
    using rule_tables_ok [OF assms(1)] by (elim exE conjE) (rule that)
  have "foldR (check_mechanic (ex_registries ex) (ex_closures ex)) [] ms = Inr seen"
    using mechanics assms(2) by (simp add: loop_over_def collection_def as_arr_def)
  from fold_each [OF this assms(3)] obtain s s'
    where "check_mechanic (ex_registries ex) (ex_closures ex) s (JObj m) = Inr s'" by (elim exE) (rule that)
  from mechanic_exact [OF this assms(4)] obtain cl where cl: "map_of (ex_closures ex) aid = Some cl" "id_set m ''rule_ids'' = cl_rules cl"
    "id_set m ''condition_ids'' = cl_conditions cl" "id_set m ''effect_ids'' = cl_effects cl"
    "id_set m ''event_ids'' = cl_events cl"
    by (elim exE conjE) (rule that)
  from closures obtain actions where
    "mapR (action_closure (ex_registries ex) (ex_children ex) rules) actions = Inr (ex_closures ex)"
    by (rule rbind_InrE)
  from mapR_mem [OF this map_of_SomeD [OF cl(1)]] obtain j
    where "action_closure (ex_registries ex) (ex_children ex) rules j = Inr (aid, cl)" by (elim bexE) (rule that)
  note exact = action_closure_ok [OF this]
  have owned: "cl_rules cl = fst ` rules_of ex aid"
    unfolding exact(1) tables_fit_owner [OF fit] by force
  have gathered: "(\<Union>rid \<in> cl_rules cl. set (the (map_of table rid))) = (\<Union>(_, rule) \<in> rules_of ex aid. id_set rule k)"
    if "\<forall>rid rule. map_of (rg_rules (ex_registries ex)) rid = Some rule \<longrightarrow>
      (\<exists>ids. map_of table rid = Some ids \<and> id_set rule k = set ids)" for k and table :: "string list dict"
    unfolding owned rules_of_def using that by fastforce
  show ?thesis
    using cl exact(2-4) owned fit gathered [of "rt_conditions rules" "''condition_ids''"]
      gathered [of "rt_effects rules" "''effect_ids''"] gathered [of "rt_events rules" "''event_ids''"]
    by (simp add: edges_def tables_fit_def)
qed

theorem mechanics_are_exact_closures_witness:
  "{''can_open'', ''gate_lifted''} = {(a, b). b \<in> set (children_of (ex_children gate_executable) a)}\<^sup>* ``
     (\<Union>(_, rule) \<in> rules_of gate_executable ''open_gate''. id_set rule ''condition_ids'')"
proof -
  let ?m = "hd (projr (as_arr gate_mechanics))" and ?ob = "projr (as_obj (hd (projr (as_arr gate_mechanics))))"
  have facts: "obj_get gate_logic ''mechanics'' = JArr (projr (as_arr gate_mechanics))" "?m = JObj ?ob"
    "JObj ?ob \<in> set (projr (as_arr gate_mechanics))" "obj_get ?ob ''action_id'' = JStr ''open_gate''"
    "id_set ?ob ''condition_ids'' = {''can_open'', ''gate_lifted''}"
    by code_simp+
  from mechanics_are_exact_closures [OF gate_executable_valid facts(1,3,4)] facts(5) show ?thesis by metis
qed

section \<open>Conditions and effects\<close>

text \<open>C38. The contract is a sound type system for conditions: in a gamepack whose logic was accepted,
  every condition evaluates to a boolean in every state of the schema. A global condition needs no
  parameters; a condition of an action evaluates under all parameters that the action accepts.\<close>

theorem conditions_always_evaluate:
  assumes "accepted nfc logic ex gi" and "in_schema gi st"
    and "map_of (gi_conditions gi) cid = Some c"
    and "case obj_get c ''action_id'' of JStr aid \<Rightarrow> scope = Some aid \<and>
        (\<exists>action candidate. map_of (gi_actions gi) aid = Some action \<and> validated_parameters action candidate = Inr params)
      | _ \<Rightarrow> scope = None"
  shows "\<exists>b. eval_condition (gi_conditions gi) st params scope {} cid = Inr b"
proof -
  obtain dt where dt: "checked_with nfc logic ex dt"
    using assms(1) by (rule accepted_checked)
  have conditions: "gi_conditions gi = rg_conditions (ex_registries ex)" by (rule accepted_index(3) [OF assms(1)])
  obtain scope' where scope': "map_of (ex_scopes ex) cid = Some scope'" "condition_scope (ex_registries ex) c = Inr scope'"
    using conditions_checked(1) [OF dt] assms(3) conditions by metis
  then have "scope' = scope"
    using assms(4) scope_ok [OF scope'(2)] by (auto simp: opt_str_def split: option.splits json.splits)
  moreover have "parameters_match (dt_parameters dt) scope params"
    using assms(4) candidate_parameters_match [OF dt assms(1)]
    by (auto simp: parameters_match_def [of _ None] split: json.splits)
  moreover have "cid \<in> fst ` set (rg_conditions (ex_registries ex))"
    using map_of_SomeD [OF assms(3)] unfolding conditions by (force intro: rev_image_eqI)
  ultimately show ?thesis
    unfolding conditions
    by (intro conditions_evaluate [OF dt schema_state_matches [OF dt assms(1,2)]]) (use scope'(1) in simp_all)
qed

theorem conditions_always_evaluate_witness:
  "\<exists>b. eval_condition (gi_conditions gatehouse) tired_state [] (Some ''open_gate'') {} ''can_open'' = Inr b"
proof -
  have facts: "gp_validate_state gatehouse tired_state = Inr ()" "map_of (gi_conditions gatehouse) ''can_open'' \<noteq> None"
    "obj_get (the (map_of (gi_conditions gatehouse) ''can_open'')) ''action_id'' = JStr ''open_gate''"
    "map_of (gi_actions gatehouse) ''open_gate'' \<noteq> None"
    "validated_parameters (the (map_of (gi_actions gatehouse) ''open_gate'')) (gate_act ''open_gate'' []) = Inr []"
    by code_simp+
  then obtain c action where "map_of (gi_conditions gatehouse) ''can_open'' = Some c"
    "map_of (gi_actions gatehouse) ''open_gate'' = Some action" by blast
  with facts show ?thesis
    using conditions_always_evaluate [OF gate_accepted, of tired_state "''can_open''" c "Some ''open_gate''" "[]"]
    by (auto simp: gp_validate_state_iff)
qed

text \<open>C40. The contract is sound for effects: in a gamepack whose logic was accepted, an effect of an
  action with checked parameters either leads to a state of the schema or fails because the new
  value is outside the domain of its state; \<open>set\<close> and \<open>reset\<close> never fail.\<close>

theorem accepted_effects_stay_in_domain:
  assumes "accepted nfc logic ex gi" and "in_schema gi st"
    and "map_of (gi_actions gi) aid = Some action" and "validated_parameters action candidate = Inr params"
    and "map_of (gi_effects gi) eid = Some e" and "obj_get e ''action_id'' = JStr aid"
  shows "case gp_apply_effect gi params aid st e of
      Inr st' \<Rightarrow> in_schema gi st'
    | Inl err \<Rightarrow> (\<exists>detail. err = GameLogicError ''effect_domain_invalid'' detail) \<and>
        obj_get e ''operation'' \<notin> {JStr ''set'', JStr ''reset''}"
proof -
  obtain dt where dt: "checked_with nfc logic ex dt"
    using assms(1) by (rule accepted_checked)
  from effect_sound(1) [OF dt assms(1,2) candidate_parameters_match [OF dt assms(1,3,4)] assms(5,6)]
  show ?thesis by (auto simp: domain_error_def split: sum.splits)
qed

theorem accepted_effects_stay_in_domain_witness:
  "case gp_apply_effect gatehouse [] ''open_gate'' tired_state (the (map_of (gi_effects gatehouse) ''lift_gate'')) of
     Inr st' \<Rightarrow> in_schema gatehouse st' | Inl _ \<Rightarrow> False"
proof -
  let ?e = "the (map_of (gi_effects gatehouse) ''lift_gate'')"
  have facts: "gp_validate_state gatehouse tired_state = Inr ()" "map_of (gi_effects gatehouse) ''lift_gate'' \<noteq> None"
    "obj_get ?e ''action_id'' = JStr ''open_gate''" "obj_get ?e ''operation'' = JStr ''set''"
    "map_of (gi_actions gatehouse) ''open_gate'' \<noteq> None"
    "validated_parameters (the (map_of (gi_actions gatehouse) ''open_gate'')) (gate_act ''open_gate'' []) = Inr []"
    by code_simp+
  have "in_schema gatehouse tired_state" using facts(1) by (simp add: gp_validate_state_iff)
  moreover have "map_of (gi_actions gatehouse) ''open_gate'' = Some (the (map_of (gi_actions gatehouse) ''open_gate''))"
    "map_of (gi_effects gatehouse) ''lift_gate'' = Some ?e"
    using facts(2,5) by simp_all
  ultimately have "case gp_apply_effect gatehouse [] ''open_gate'' tired_state ?e of
      Inr st' \<Rightarrow> in_schema gatehouse st'
    | Inl err \<Rightarrow> (\<exists>detail. err = GameLogicError ''effect_domain_invalid'' detail) \<and>
        obj_get ?e ''operation'' \<notin> {JStr ''set'', JStr ''reset''}"
    by (intro accepted_effects_stay_in_domain [OF gate_accepted _ _ facts(6) _ facts(3)])
  with facts(4) show ?thesis by (cases "gp_apply_effect gatehouse [] ''open_gate'' tired_state ?e") simp_all
qed

section \<open>Refusals\<close>

text \<open>C39. Progress: in a gamepack whose logic was accepted and has no narrative transitions, a
  transition from a state of the schema is refused only for a reason that the player or the data can
  cause: an unknown action or bad parameters, an ending, a failure that the action does not recover
  from, a rule whose condition is false, a value outside its domain, two endings at once, a cursor off
  its unit, or a state too large to take a snapshot of. No reference is ever missing or out of scope,
  no operand or operator is unsupported, and no rule of an action is missing.\<close>

theorem refusals_have_known_reasons:
  assumes "accepted nfc logic ex gi" and "gi_transitions gi = []" and "in_schema gi st"
    and "transition_strict sha gi st c = Inr r" and "tr_rejection_reason r = Some reason"
  shows "reason \<in> {''action_unknown'', ''action_parameters_invalid'', ''terminal_state'', ''failure_recovery_required'',
      ''failure_recovery_empty_intersection'', ''rule_condition_false'', ''effect_domain_invalid'',
      ''ambiguous_ending'', ''cursor_divergence''} \<or>
    (\<exists>st detail. in_schema gi st \<and> snapshot_strict_state st = Inl (GameLogicError reason detail))"
proof -
  obtain dt where dt: "checked_with nfc logic ex dt"
    using assms(1) by (rule accepted_checked)
  have "refusal_reason gi reason" by (rule transition_reason [OF dt assms])
  then show ?thesis by (simp only: refusal_reason_def known_reasons_def)
qed

theorem refusals_have_known_reasons_witness:
  "''failure_recovery_required'' \<in> {''action_unknown'', ''action_parameters_invalid'', ''terminal_state'', ''failure_recovery_required'',
      ''failure_recovery_empty_intersection'', ''rule_condition_false'', ''effect_domain_invalid'',
      ''ambiguous_ending'', ''cursor_divergence''} \<or>
    (\<exists>st detail. in_schema gatehouse st \<and> snapshot_strict_state st = Inl (GameLogicError ''failure_recovery_required'' detail))"
proof -
  let ?r = "transition_strict no_sha gatehouse tired_state take_key"
  have facts: "gp_validate_state gatehouse tired_state = Inr ()" "gi_transitions gatehouse = []"
    "case ?r of Inr r \<Rightarrow> tr_rejection_reason r = Some ''failure_recovery_required'' | Inl _ \<Rightarrow> False"
    by code_simp+
  then obtain r where "?r = Inr r" "tr_rejection_reason r = Some ''failure_recovery_required''"
    by (cases ?r) simp_all
  then show ?thesis
    using facts(1) by (intro refusals_have_known_reasons [OF gate_accepted facts(2)]) (simp_all add: gp_validate_state_iff)
qed

section \<open>Saved sessions\<close>

lemma expected_initial:
  assumes "foldR add_initial acc (map (JObj \<circ> snd) reg) = Inr expected" and "distinct (map fst reg)"
    and "\<forall>(k, ob) \<in> set reg. obj_get ob ''id'' = JStr k" and "fst ` set acc \<inter> fst ` set reg = {}"
  shows "expected = acc @ map (\<lambda>(k, ob). (k, obj_get ob ''initial'')) reg"
  using assms
proof (induction reg arbitrary: acc)
  case (Cons entry reg)
  obtain k ob where entry: "entry = (k, ob)" by (cases entry)
  have "k \<notin> fst ` set acc" using Cons.prems(4) by (auto simp: entry)
  then have step: "AList.update k v acc = acc @ [(k, v)]" for v by (rule update_new)
  have "add_initial acc (JObj ob) = Inr acc' \<Longrightarrow> acc' = acc @ [(k, obj_get ob ''initial'')]" for acc'
    using Cons.prems(3) by (auto simp: entry add_initial_def obj_of_def step split: if_splits)
  with Cons.prems(1) have "foldR add_initial (acc @ [(k, obj_get ob ''initial'')]) (map (JObj \<circ> snd) reg) = Inr expected"
    by (auto simp: entry comp_def)
  from Cons.IH [OF this] Cons.prems(2-4) show ?case by (auto simp: entry)
qed simp

text \<open>The initial state of an accepted logic: one value per state, equal to the declared one.\<close>

lemma accepted_start:
  assumes "accepted nfc logic ex gi" and "start_session gi = Inr init"
  shows "distinct (dict_keys init)" and "constants_ok gi init"
proof -
  have logic: "gi_logic gi = logic" "gi_schema gi = rg_states (ex_registries ex)" using accepted_index [OF assms(1)] by simp_all
  have "make_registries logic = Inr (ex_registries ex)"
    using assms(1) executable_checked unfolding accepted_def checked_with_def by metis
  then obtain items where items: "collection logic ''state_schema'' = Inr items" "registry_of (gi_schema gi) items"
    using registries_ok(1) record_registry_ok unfolding logic(2) by metis
  have init: "obj_get logic ''initial_state'' = JObj init" and ok: "gp_validate_state gi init = Inr ()"
    using assms(2) by (auto simp: start_session_def gp_initial_state_def logic(1) split: json.splits)
  have "validate_logic nfc (JObj logic) = Inr logic" using assms(1) by (simp add: accepted_def)
  then obtain expected where expected: "foldR add_initial [] items = Inr expected" "py_eq (JObj init) (JObj expected)"
    using items(1) by (auto simp: validate_logic_def obj_of_def init)
  note reg = items(2) [unfolded registry_of_def]
  have exp: "expected = map (\<lambda>(k, ob). (k, obj_get ob ''initial'')) (gi_schema gi)"
    using expected_initial [of "[]" "gi_schema gi" expected] expected(1) reg by simp
  have keys: "dict_keys expected = dict_keys (gi_schema gi)" by (simp add: exp dict_keys_def case_prod_beta comp_def)
  have eq: "length init = length expected" "\<forall>(k, v) \<in> set init. \<exists>w. map_of expected k = Some w \<and> py_eq v w"
    using expected(2) by (fastforce simp: py_eq.simps [of "JObj _"] list_all_iff split: option.splits)+
  have same: "set (dict_keys init) = set (dict_keys (gi_schema gi))"
    using ok by (simp add: gp_validate_state_iff in_schema_def)
  have schema: "distinct (dict_keys (gi_schema gi))" using reg by (simp add: dict_keys_def)
  have "card (set (dict_keys init)) = length (dict_keys init)"
    unfolding same using eq(1) distinct_card [OF schema] arg_cong [OF keys, of length] by (simp add: dict_keys_def)
  then show "distinct (dict_keys init)" by (rule card_distinct)
  have "check_constant init () (sid, r) = Inr ()" if "(sid, r) \<in> set (gi_schema gi)" for sid r
  proof -
    have "sid \<in> set (dict_keys init)" unfolding same using that by (force simp: dict_keys_def)
    then obtain v where v: "map_of init sid = Some v" by (metis dict_keys_def map_of_eq_None_iff option.exhaust set_map)
    from eq(2) map_of_SomeD [OF v] obtain w where w: "map_of expected sid = Some w" "py_eq v w" by auto
    have "map_of (gi_schema gi) sid = Some r" using schema that by (simp add: dict_keys_def)
    then have "w = obj_get r ''initial''" using w(1) by (simp add: exp map_of_map)
    with v w(2) show ?thesis by (simp add: check_constant_iff)
  qed
  then show "constants_ok gi init" by (auto simp: constants_ok_iff)
qed

text \<open>C21. Save and restore: in a gamepack whose logic was accepted and whose narrative cursor is mutable,
  every state that a session reaches from its start, by actions and restorations, is accepted by
  \<open>restore\<close> and restored as it is. The one exception is a pack whose initial state cannot be
  classified, with two endings active say: a session starts there all the same, but \<open>restore\<close> refuses
  that very state with the error of its classification.\<close>

theorem reached_states_restore:
  assumes "accepted nfc logic ex gi" and "mutable_cursors gi" and "start_session gi = Inr init"
  shows "(\<forall>st. session_reaches sha gi st \<longrightarrow> restore_state gi st = Inr st) \<or>
    (\<exists>e. classify gi init = Inl e \<and> restore_state gi init = Inl e)"
proof (cases "classify gi init")
  case (Inl e)
  then have "restore_state gi init = Inl e"
    by (cases "snapshot_strict_state init") (auto simp: restore_state_def classify_def snapshot_strict_state_def)
  with Inl show ?thesis by blast
next
  case (Inr found)
  have gi: "constructed gi" using assms(1) make_interpreter_constructed by (auto simp: accepted_def)
  have "session_state gi st \<and> constants_ok gi st" if "session_reaches sha gi st" for st
    by (rule session_reached_ok [OF that gi assms(2)])
      (use accepted_start [OF assms(1,3)] Inr assms(3) in \<open>simp add: session_state_def\<close>)
  then show ?thesis using restore_iff by (blast intro: session_state_def [THEN iffD1, THEN conjunct1])
qed

theorem reached_states_restore_witness:
  "case apply_action no_sha gatehouse gate_initial take_key of
     Inr (st, r) \<Rightarrow> restore_state gatehouse st = Inr st | _ \<Rightarrow> False"
proof -
  have "\<not> isl (apply_action no_sha gatehouse gate_initial take_key)" by code_simp
  then obtain st r where step: "apply_action no_sha gatehouse gate_initial take_key = Inr (st, r)"
    by (auto simp: not_isl)
  have start: "start_session gatehouse = Inr gate_initial"
  proof -
    have "\<not> isl (gp_validate_state gatehouse gate_initial)" by code_simp
    moreover have "obj_get (gi_logic gatehouse) ''initial_state'' = JObj gate_initial" by code_simp
    ultimately show ?thesis by (auto simp: start_session_def gp_initial_state_def not_isl)
  qed
  have "mutable_cursors gatehouse" by code_simp
  from reached_states_restore [OF gate_accepted this start, of no_sha] gatehouse_starts
    session_reaches.acted [OF session_reaches.started [OF start] step]
  show ?thesis by (auto simp: step session_state_def)
qed

end
