(* ===== verification/LegacyTransition.thy ===== *)
theory LegacyTransition
  imports GamepackRuns SnapshotExact
begin

text \<open>
  The compatibility policy for the inputs of a transition: \<open>transition_legacy\<close> of
  \<open>src/gamepack_runtime/semantics_v1.py\<close>, which the Forge facade \<open>src/worldforge/game_logic.py\<close>
  and the analyzer of \<^theory_text>\<open>GameExploration\<close> run. It looks at the state first, lets floats through its
  copy, and does not ask for an action ID. Mapping proxies are dictionaries here; \<open>nfc\<close> tells
  the strings in normal form NFC. The lemmas show that it never disagrees with \<^const>\<open>transition_strict\<close>.
\<close>

section \<open>The policy\<close>

definition legacy_state_keys :: "(string \<Rightarrow> bool) \<Rightarrow> json dict \<Rightarrow> string list \<Rightarrow> unit res" where
  "legacy_state_keys nfc st expected =
     (let differ = ''state keys do not exactly match schema''; checked = dict_keys st in
      rbind (reject (length checked \<noteq> length expected) ''state_domain_invalid'' differ) (\<lambda>_.
      rbind (reject (\<not> list_all (\<lambda>k. k \<noteq> [] \<and> codepoints k \<le> 64 \<and> nfc k) checked) ''state_domain_invalid'' differ) (\<lambda>_.
        reject (sort checked \<noteq> sort expected) ''state_domain_invalid'' differ)))"

definition snapshot_legacy_action_parameters :: "json dict \<Rightarrow> json dict res" where
  "snapshot_legacy_action_parameters m =
     rbind (snapshot_json_graph True state_bytes 1 (0, 0) (JObj m)) (\<lambda>_. Inr m)"

definition transition_legacy ::
  "(string \<Rightarrow> bool) \<Rightarrow> (string \<Rightarrow> string) \<Rightarrow> interpreter \<Rightarrow> json dict \<Rightarrow> candidate_action \<Rightarrow>
     transition_result res" where
  "transition_legacy nfc sha gi st c =
     rbind (legacy_state_keys nfc st (dict_keys (gi_schema gi))) (\<lambda>_.
     rbind (catch (snapshot_legacy_action_parameters st)
              (\<lambda>_. fail ''state_domain_invalid'' ''state contains a non-legacy value'') Inr) (\<lambda>checked_state.
     rbind (gp_validate_state gi checked_state) (\<lambda>_.
     rbind (snapshot_legacy_action_parameters (ca_parameters c)) (\<lambda>checked_parameters.
       transition_validated_state sha gi checked_state (c\<lparr>ca_parameters := checked_parameters\<rparr>)))))"

section \<open>Agreement with the strict policy\<close>

text \<open>A snapshot without floats succeeds with them allowed, with the same counters.\<close>

lemma foldR_relax:
  assumes "\<And>s s' x. x \<in> set xs \<Longrightarrow> f s x = Inr s' \<Longrightarrow> g s x = Inr s'" and "foldR f s xs = Inr t"
  shows "foldR g s xs = Inr t"
  using assms by (induction xs arbitrary: s) fastforce+

lemma snapshot_relaxes:
  "snapshot_json_graph False m d nu v = Inr r \<Longrightarrow> snapshot_json_graph True m d nu v = Inr r"
proof (induction v arbitrary: d nu r)
  case (JArr xs)
  obtain n u where nu: "nu = (n, u)" by (cases nu)
  let ?f = "\<lambda>b. foldR (snapshot_json_graph b m (d + 1))"
  have IH: "?f False s xs = Inr t \<Longrightarrow> ?f True s xs = Inr t" for s t
    by (rule foldR_relax [of _ "snapshot_json_graph False m (d + 1)"]) (use JArr.IH in auto)
  from JArr.prems show ?case
    by (auto simp: nu Let_def snapshot_json_graph.simps [of _ _ _ _ _ "JArr xs"] add_bytes_def split: if_splits intro!: IH)
next
  case (JObj kvs)
  obtain n u where nu: "nu = (n, u)" by (cases nu)
  let ?f = "\<lambda>b. foldR (snapshot_json_graph b m (d + 1))"
  have IH: "?f False s (map snd kvs) = Inr t \<Longrightarrow> ?f True s (map snd kvs) = Inr t" for s t
    by (rule foldR_relax [of _ "snapshot_json_graph False m (d + 1)"]) (use JObj.IH in auto)
  from JObj.prems show ?case
    by (auto simp: nu Let_def snapshot_json_graph.simps [of _ _ _ _ _ "JObj kvs"] add_bytes_def split: if_splits intro!: IH)
qed (auto simp: Let_def snapshot_json_graph.simps)

lemma legacy_snapshot_state: "snapshot_strict_state st = Inr st' \<Longrightarrow> snapshot_legacy_action_parameters st = Inr st"
  by (auto simp: snapshot_strict_state_def snapshot_plain_json_def snapshot_legacy_action_parameters_def
      dest: snapshot_relaxes)

text \<open>The IDs of a schema that a legacy state may use: bounded and in normal form.\<close>

definition legacy_schema :: "(string \<Rightarrow> bool) \<Rightarrow> interpreter \<Rightarrow> bool" where
  "legacy_schema nfc gi \<longleftrightarrow> list_all (\<lambda>k. k \<noteq> [] \<and> codepoints k \<le> 64 \<and> nfc k) (dict_keys (gi_schema gi))"

lemma legacy_keys_accepted:
  assumes "legacy_schema nfc gi" and "constructed gi" and "distinct (dict_keys st)"
    and "set (dict_keys st) = set (dict_keys (gi_schema gi))"
  shows "legacy_state_keys nfc st (dict_keys (gi_schema gi)) = Inr ()"
proof -
  have "mset (dict_keys st) = mset (dict_keys (gi_schema gi))"
    using assms(2-4) by (simp add: constructed_def set_eq_iff_mset_eq_distinct)
  then have "length (dict_keys st) = length (dict_keys (gi_schema gi))"
    and "sort (dict_keys st) = sort (dict_keys (gi_schema gi))"
    by (auto dest: mset_eq_length intro: properties_for_sort)
  then show ?thesis using assms(1,4) by (simp add: legacy_state_keys_def legacy_schema_def list_all_iff)
qed


lemma plain_shape_up: "plain_shape d v \<Longrightarrow> d' \<le> d \<Longrightarrow> plain_shape d' v"
proof (induction v arbitrary: d d')
  case (JObj kvs)
  then show ?case by (fastforce simp: list_all_iff)
qed (fastforce simp: list_all_iff)+

lemma legacy_snapshot_parameters:
  assumes "snapshot_strict_candidate c = Inr c'"
  shows "snapshot_legacy_action_parameters (ca_parameters c) = Inr (ca_parameters c)"
proof -
  let ?ps = "JObj (ca_parameters c)"
  from assms obtain w where "snapshot_plain_json state_bytes (action_object c) = Inr w"
    by (auto simp: snapshot_strict_candidate_def)
  then have shape: "plain_shape 1 (action_object c)" and n: "nodes (action_object c) \<le> max_json_nodes"
    and w: "written (action_object c) \<le> state_bytes"
    by (auto simp only: snapshot_exact)
  have "plain_shape 2 ?ps" using shape by (simp add: action_object_def)
  then have "plain_shape 1 ?ps" by (rule plain_shape_up) simp
  moreover have "0 + nodes ?ps \<le> max_json_nodes" using n nodes_positive [of ?ps] by (simp add: action_object_def del: nodes.simps(6))
  moreover have "0 + written ?ps \<le> state_bytes"
    using w text_size_nonneg by (simp add: action_object_def written_object brackets_def)
  ultimately have "snapshot_json_graph False state_bytes 1 (0, 0) ?ps = Inr (0 + nodes ?ps, 0 + written ?ps)"
    by (rule snapshot_complete)
  then show ?thesis
    by (auto simp: snapshot_legacy_action_parameters_def dest: snapshot_relaxes)
qed

lemma legacy_follows_strict:
  assumes "legacy_schema nfc gi" and "constructed gi" and "distinct (dict_keys st)"
    and "transition_strict sha gi st c = Inr r"
  shows "transition_legacy nfc sha gi st c = Inr r"
proof -
  have c: "snapshot_strict_candidate c = Inr c" and st: "snapshot_strict_state st = Inr st"
    and ok: "gp_validate_state gi st = Inr ()" and r: "transition_validated_state sha gi st c = Inr r"
    using assms(4) by (auto simp: transition_strict_def snapshot_strict_candidate_def snapshot_strict_state_def)
  have "set (dict_keys st) = set (dict_keys (gi_schema gi))" using ok by (simp add: gp_validate_state_iff in_schema_def)
  from legacy_keys_accepted [OF assms(1-3) this] legacy_snapshot_state [OF st] legacy_snapshot_parameters [OF c] ok r
  show ?thesis by (simp add: transition_legacy_def catch_def)
qed

end
