(* ===== verification/GameExploration.thy ===== *)
theory GameExploration
  imports LegacyTransition
begin

text \<open>
  The search of the game analyzer, the first half of \<open>analyze_gamepack\<close> in
  \<open>src/worldforge/game_analysis.py\<close>: a bounded breadth-first exploration of the states of a
  gamepack by its candidates, on the interpreter. The dictionaries of the code are the fields of a
  record, its sets duplicate-free lists, its queue a list. A bound that is reached is recorded and
  stops the search.
\<close>

section \<open>Findings\<close>

record finding =
  fi_reason_code :: string
  fi_subject_kind :: string
  fi_subject_id :: string
  fi_state_hash :: "string option"
  fi_message :: string
  fi_witness_id :: "string option"

definition make_finding :: "string \<Rightarrow> string \<Rightarrow> string \<Rightarrow> string option \<Rightarrow> string \<Rightarrow> finding" where
  "make_finding reason kind subject state_hash message =
     \<lparr>fi_reason_code = reason, fi_subject_kind = kind, fi_subject_id = subject, fi_state_hash = state_hash,
      fi_message = message, fi_witness_id = None\<rparr>"

text \<open>\<open>str(item["state_hash"] or "")\<close>.\<close>

definition hash_text :: "finding \<Rightarrow> string" where
  "hash_text f = (case fi_state_hash f of None \<Rightarrow> [] | Some h \<Rightarrow> h)"

definition finding_key :: "finding \<Rightarrow> string \<times> string \<times> string \<times> string" where
  "finding_key f = (fi_reason_code f, fi_subject_kind f, fi_subject_id f, hash_text f)"

definition set_default :: "'k \<Rightarrow> 'v \<Rightarrow> ('k \<times> 'v) list \<Rightarrow> ('k \<times> 'v) list" where
  "set_default k v d = (if dict_mem k d then d else AList.update k v d)"

definition deduplicate_findings :: "finding list \<Rightarrow> finding list" where
  "deduplicate_findings fs = dict_values (foldl (\<lambda>d f. set_default (finding_key f) f d) [] fs)"

section \<open>The state of the search\<close>

record exploration =
  ex_states :: "json dict dict"
  ex_parents :: "(string \<times> transition_result) option dict"
  ex_depths :: "int dict"
  ex_queue :: "string list"
  ex_graph :: "string list dict"
  ex_classifications :: "classification dict"
  ex_legal :: "transition_result list dict"
  ex_expanded :: "string list"
  ex_candidate_evaluations :: int
  ex_transitions :: int
  ex_total_state_bytes :: int
  ex_largest_state_bytes :: int
  ex_max_depth :: int
  ex_bound_reason :: "string option"
  ex_integrity :: "finding list"

definition start_exploration :: "string \<Rightarrow> json dict \<Rightarrow> int \<Rightarrow> exploration" where
  "start_exploration start_hash start start_bytes =
     \<lparr>ex_states = [(start_hash, start)], ex_parents = [(start_hash, None)], ex_depths = [(start_hash, 0)],
      ex_queue = [start_hash], ex_graph = [(start_hash, [])], ex_classifications = [], ex_legal = [],
      ex_expanded = [], ex_candidate_evaluations = 0, ex_transitions = 0,
      ex_total_state_bytes = start_bytes, ex_largest_state_bytes = start_bytes, ex_max_depth = 0,
      ex_bound_reason = None, ex_integrity = []\<rparr>"

definition analysis_limit :: "string \<Rightarrow> int" where
  "analysis_limit k = int_of (obj_get analysis_limits k)"

text \<open>The successors of a state in a graph; the code has entered the state before it asks.\<close>

definition successors :: "string list dict \<Rightarrow> string \<Rightarrow> string list" where
  "successors graph h = (case map_of graph h of None \<Rightarrow> [] | Some hs \<Rightarrow> hs)"

definition add_edge :: "string \<Rightarrow> string \<Rightarrow> string list dict \<Rightarrow> string list dict" where
  "add_edge h post graph = AList.update h (List.insert post (successors graph h)) graph"

section \<open>Expanding a state\<close>

definition integrity_reasons :: "string list" where
  "integrity_reasons =
     [''ambiguous_ending'', ''cursor_divergence'', ''operator_unsupported'', ''narrative_transition_invalid'']"

definition note_rejection :: "string \<Rightarrow> candidate_action \<Rightarrow> transition_result \<Rightarrow> exploration \<Rightarrow> exploration" where
  "note_rejection h c r e =
     (case tr_rejection_reason r of
        None \<Rightarrow> e
      | Some reason \<Rightarrow>
          if reason \<in> set integrity_reasons
          then e\<lparr>ex_integrity := ex_integrity e @
                   [make_finding reason ''transition'' (ca_action_id c) (Some h)
                      ''The exact candidate transition violates gamepack integrity.'']\<rparr>
          else e)"

text \<open>The bounds on a state that is new, in the order of the code.\<close>

definition bound_reached :: "exploration \<Rightarrow> int \<Rightarrow> int \<Rightarrow> string option" where
  "bound_reached e next_depth encoded_bytes =
     (if analysis_limit ''depth'' < next_depth then Some ''depth_bound_reached''
      else if analysis_limit ''states'' \<le> int (length (ex_states e)) then Some ''states_bound_reached''
      else if analysis_limit ''state_bytes'' < encoded_bytes then Some ''state_bytes_bound_reached''
      else if analysis_limit ''total_state_bytes'' < ex_total_state_bytes e + encoded_bytes
      then Some ''total_state_bytes_bound_reached''
      else None)"

definition insert_state :: "string \<Rightarrow> int \<Rightarrow> transition_result \<Rightarrow> int \<Rightarrow> exploration \<Rightarrow> exploration" where
  "insert_state h next_depth r encoded_bytes e =
     (let post = tr_post_state_hash r in
      e\<lparr>ex_graph := set_default post [] (add_edge h post (ex_graph e)),
        ex_states := AList.update post (tr_post_state r) (ex_states e),
        ex_parents := AList.update post (Some (h, r)) (ex_parents e),
        ex_depths := AList.update post next_depth (ex_depths e),
        ex_total_state_bytes := ex_total_state_bytes e + encoded_bytes,
        ex_largest_state_bytes := max (ex_largest_state_bytes e) encoded_bytes,
        ex_queue := ex_queue e @ [post]\<rparr>)"

definition discover :: "string \<Rightarrow> int \<Rightarrow> transition_result \<Rightarrow> exploration \<Rightarrow> exploration res" where
  "discover h depth r e =
     (let post = tr_post_state_hash r in
      if dict_mem post (ex_states e) then Inr (e\<lparr>ex_graph := add_edge h post (ex_graph e)\<rparr>)
      else
        rbind (canonical_state_bytes (tr_post_state r)) (\<lambda>encoded.
          let encoded_bytes = int (length encoded) in
          case bound_reached e (depth + 1) encoded_bytes of
            Some reason \<Rightarrow> Inr (e\<lparr>ex_bound_reason := Some reason\<rparr>)
          | None \<Rightarrow> Inr (insert_state h (depth + 1) r encoded_bytes e)))"

text \<open>The loop over the candidates; it stops as soon as a bound is reached.\<close>

fun try_candidates ::
  "(string \<Rightarrow> bool) \<Rightarrow> (string \<Rightarrow> string) \<Rightarrow> interpreter \<Rightarrow> string \<Rightarrow> json dict \<Rightarrow> int \<Rightarrow> candidate_action list \<Rightarrow>
     exploration \<times> transition_result list \<Rightarrow> (exploration \<times> transition_result list) res" where
  "try_candidates nfc sha gi h st depth [] (e, legal) = Inr (e, legal)"
| "try_candidates nfc sha gi h st depth (c # cs) (e, legal) =
     (if analysis_limit ''candidate_evaluations'' \<le> ex_candidate_evaluations e
      then Inr (e\<lparr>ex_bound_reason := Some ''candidate_evaluations_bound_reached''\<rparr>, legal)
      else
        rbind (transition_legacy nfc sha gi st c) (\<lambda>r.
        let e = e\<lparr>ex_candidate_evaluations := ex_candidate_evaluations e + 1\<rparr> in
        if \<not> tr_accepted r then try_candidates nfc sha gi h st depth cs (note_rejection h c r e, legal)
        else
          rbind (discover h depth r (e\<lparr>ex_transitions := ex_transitions e + 1\<rparr>)) (\<lambda>e.
            if ex_bound_reason e \<noteq> None then Inr (e, legal @ [r])
            else try_candidates nfc sha gi h st depth cs (e, legal @ [r]))))"

definition expand_state ::
  "(string \<Rightarrow> bool) \<Rightarrow> (string \<Rightarrow> string) \<Rightarrow> interpreter \<Rightarrow> string \<Rightarrow> json dict \<Rightarrow> int \<Rightarrow> exploration \<Rightarrow> exploration res" where
  "expand_state nfc sha gi h st depth e =
     rbind (try_candidates nfc sha gi h st depth (gi_candidates gi) (e, [])) (\<lambda>(e, legal).
     let e = e\<lparr>ex_legal := AList.update h legal (ex_legal e)\<rparr> in
     Inr (if ex_bound_reason e = None then e\<lparr>ex_expanded := List.insert h (ex_expanded e)\<rparr> else e))"

definition note_error :: "string \<Rightarrow> string \<Rightarrow> string \<Rightarrow> exploration \<Rightarrow> exploration" where
  "note_error h reason detail e =
     e\<lparr>ex_integrity := ex_integrity e @ [make_finding reason ''state'' h (Some h) detail]\<rparr>"

text \<open>One turn of the loop over the queue, after \<open>popleft\<close>.\<close>

definition visit_state ::
  "(string \<Rightarrow> bool) \<Rightarrow> (string \<Rightarrow> string) \<Rightarrow> interpreter \<Rightarrow> string \<Rightarrow> exploration \<Rightarrow> exploration res" where
  "visit_state nfc sha gi h e =
     rbind (dict_at (ex_states e) h) (\<lambda>st.
     rbind (dict_at (ex_depths e) h) (\<lambda>depth.
     let e = e\<lparr>ex_max_depth := max (ex_max_depth e) depth\<rparr> in
     case classify gi st of
       Inl (GameLogicError reason detail) \<Rightarrow>
         Inr ((note_error h reason detail e)\<lparr>ex_legal := AList.update h [] (ex_legal e)\<rparr>)
     | Inl x \<Rightarrow> Inl x
     | Inr found \<Rightarrow>
         let e = e\<lparr>ex_classifications := AList.update h found (ex_classifications e),
                   ex_graph := set_default h [] (ex_graph e)\<rparr> in
         rbind (terminal found) (\<lambda>ended.
         if ended
         then Inr (e\<lparr>ex_legal := AList.update h [] (ex_legal e), ex_expanded := List.insert h (ex_expanded e)\<rparr>)
         else expand_state nfc sha gi h st depth e)))"

section \<open>The search\<close>

text \<open>
  Every turn takes one state off the queue, and a state that it puts there is a new one of the
  at most 16384 states: the number of queued states plus that of states still allowed goes down.
\<close>

definition room :: "exploration \<Rightarrow> nat" where
  "room e = length (ex_queue e) + (nat (analysis_limit ''states'') - length (ex_states e))"

lemma limits [simp]:
  "analysis_limit ''depth'' = 512" "analysis_limit ''states'' = 16384"
  "analysis_limit ''state_bytes'' = state_bytes" "analysis_limit ''candidate_evaluations'' = 262144"
  "analysis_limit ''total_state_bytes'' = 67108864" "analysis_limit ''witness_traces'' = 128"
  "analysis_limit ''total_witness_steps'' = 4096"
  by (simp_all add: analysis_limit_def analysis_limits_def obj_get_def int_of_def state_bytes_def)

lemma length_update_new: "\<not> dict_mem k d \<Longrightarrow> length (AList.update k v d) = Suc (length d)"
  by (simp add: dict_mem_iff update_new)

lemma discover_room:
  assumes "discover h depth r e = Inr e'"
  shows "room e' = room e"
  using assms
  by (auto simp: discover_def Let_def room_def insert_state_def bound_reached_def length_update_new
      split: if_splits option.splits)

lemma note_rejection_room [simp]: "room (note_rejection h c r e) = room e"
  by (simp add: note_rejection_def room_def split: option.split)

lemma try_candidates_room:
  "try_candidates nfc sha gi h st depth cs (e, legal) = Inr (e', legal') \<Longrightarrow> room e' = room e"
proof (induction cs arbitrary: e legal)
  case (Cons c cs)
  have [simp]: "room (e\<lparr>ex_candidate_evaluations := n\<rparr>) = room e" "room (e\<lparr>ex_transitions := n\<rparr>) = room e"
    "room (e\<lparr>ex_bound_reason := b\<rparr>) = room e" for e :: exploration and n b
    by (simp_all add: room_def)
  from Cons.prems show ?case
    by (auto simp: Let_def split: if_splits dest!: discover_room Cons.IH)
qed simp

lemma visit_state_room: "visit_state nfc sha gi h e = Inr e' \<Longrightarrow> room e' = room e"
  by (auto simp: visit_state_def expand_state_def note_error_def Let_def room_def [of "ex_legal_update _ _"]
      room_def [of "ex_expanded_update _ _"] split: sum.splits exn.splits if_splits dest!: try_candidates_room)
    (auto simp: room_def)

function explore ::
  "(string \<Rightarrow> bool) \<Rightarrow> (string \<Rightarrow> string) \<Rightarrow> interpreter \<Rightarrow> exploration \<Rightarrow> exploration res" where
  "explore nfc sha gi e =
     (case ex_queue e of
        [] \<Rightarrow> Inr e
      | h # queue \<Rightarrow>
          if ex_bound_reason e \<noteq> None then Inr e
          else rbind (visit_state nfc sha gi h (e\<lparr>ex_queue := queue\<rparr>)) (explore nfc sha gi))"
  by pat_completeness auto
termination
  by (relation "measure (\<lambda>(_, _, _, e). room e)") (auto simp: room_def dest: visit_state_room)

declare explore.simps [simp del]

definition frontier_closed :: "exploration \<Rightarrow> bool" where
  "frontier_closed e \<longleftrightarrow> ex_queue e = [] \<and> ex_bound_reason e = None"

text \<open>States that were discovered and not classified get a finding once more.\<close>

definition classify_rest :: "interpreter \<Rightarrow> exploration \<Rightarrow> string \<times> json dict \<Rightarrow> exploration res" where
  "classify_rest gi e entry =
     (case entry of (h, st) \<Rightarrow>
      if dict_mem h (ex_classifications e) then Inr e
      else
        let legal = set_default h [] (ex_legal e) in
        case classify gi st of
          Inl (GameLogicError reason detail) \<Rightarrow> Inr ((note_error h reason detail e)\<lparr>ex_legal := legal\<rparr>)
        | Inl x \<Rightarrow> Inl x
        | Inr found \<Rightarrow>
            Inr (e\<lparr>ex_classifications := AList.update h found (ex_classifications e), ex_legal := legal\<rparr>))"

definition explore_all ::
  "(string \<Rightarrow> bool) \<Rightarrow> (string \<Rightarrow> string) \<Rightarrow> interpreter \<Rightarrow> exploration \<Rightarrow> exploration res" where
  "explore_all nfc sha gi e =
     rbind (explore nfc sha gi e) (\<lambda>e.
     rbind (if frontier_closed e then foldR (classify_rest gi) e (ex_states e) else Inr e) (\<lambda>e.
       Inr (e\<lparr>ex_integrity := deduplicate_findings (ex_integrity e)\<rparr>)))"

end
