(* ===== verification/ExplorationSafety.thy ===== *)
theory ExplorationSafety
  imports GameExploration
begin

text \<open>
  What the search of the analyzer establishes, whenever it stops: every recorded state is reached
  by legal transitions in as many steps as its depth says, every edge is a legal transition, and the
  search neither raises an exception nor passes its bounds. When it stops without a bound, nothing
  reachable is missing and the depths are the distances from the start.
\<close>

section \<open>Playing\<close>

definition legal_step :: "(string \<Rightarrow> string) \<Rightarrow> interpreter \<Rightarrow> json dict \<Rightarrow> transition_result \<Rightarrow> bool" where
  "legal_step sha gi st r \<longleftrightarrow> (\<exists>c \<in> set (gi_candidates gi). transition_strict sha gi st c = Inr r \<and> tr_accepted r)"

text \<open>The states that \<open>n\<close> legal transitions lead to.\<close>

inductive plays :: "(string \<Rightarrow> string) \<Rightarrow> interpreter \<Rightarrow> json dict \<Rightarrow> nat \<Rightarrow> json dict \<Rightarrow> bool"
  for sha gi start where
  plays_start: "plays sha gi start 0 start"
| plays_step: "plays sha gi start n st \<Longrightarrow> legal_step sha gi st r \<Longrightarrow> plays sha gi start (Suc n) (tr_post_state r)"

text \<open>
  The gamepacks that the analyzer decides: built, well shaped, with bounded candidates and
  canonical IDs, and an initial state that can be classified.
\<close>

definition analysable :: "(string \<Rightarrow> bool) \<Rightarrow> interpreter \<Rightarrow> json dict \<Rightarrow> bool" where
  "analysable nfc gi start \<longleftrightarrow>
     constructed gi \<and> well_shaped gi \<and> legacy_schema nfc gi \<and>
     list_all bounded_candidate (gi_candidates gi) \<and> session_state gi start"

lemma legal_stepE:
  assumes "legal_step sha gi st r" and "session_state gi st"
  shows "session_state gi (tr_post_state r)" and "tr_pre_state r = st" and "tr_accepted r"
    and "canonical_state_hash sha st = Inr (tr_pre_state_hash r)"
    and "canonical_state_hash sha (tr_post_state r) = Inr (tr_post_state_hash r)"
proof -
  obtain c where "transition_strict sha gi st c = Inr r" and accepted: "tr_accepted r"
    using assms(1) by (auto simp: legal_step_def)
  then obtain params found rules where "committed sha gi st c params found rules r"
    using transition_cases rejectedE by blast
  from committedD [OF this] committed_session_state [OF this assms(2)] accepted
  show "session_state gi (tr_post_state r)" and "tr_pre_state r = st" and "tr_accepted r"
    and "canonical_state_hash sha st = Inr (tr_pre_state_hash r)"
    and "canonical_state_hash sha (tr_post_state r) = Inr (tr_post_state_hash r)" by auto
qed

lemma plays_session_state: "plays sha gi start n st \<Longrightarrow> session_state gi start \<Longrightarrow> session_state gi st"
  by (induction rule: plays.induct) (auto dest: legal_stepE(1))

lemma strict_total:
  assumes "analysable nfc gi start" and "session_state gi st" and "c \<in> set (gi_candidates gi)"
  obtains r where "transition_strict sha gi st c = Inr r" and "transition_legacy nfc sha gi st c = Inr r"
proof -
  have gi: "constructed gi" "well_shaped gi" "legacy_schema nfc gi" and "bounded_candidate c"
    using assms(1,3) by (auto simp: analysable_def list_all_iff)
  then have c: "snapshot_strict_candidate c = Inr c" by (intro bounded_candidateD)
  have "distinct (dict_keys st)" using assms(2) by (simp add: session_state_def)
  obtain st' r where "apply_action sha gi st c = Inr (st', r)" using apply_action_ok [OF gi(2,1) assms(2) c] by blast
  then have "transition_strict sha gi st c = Inr r" by (auto simp: apply_action_def c)
  with legacy_follows_strict [OF gi(3,1) \<open>distinct _\<close> this] that show thesis by blast
qed

section \<open>Sound searches\<close>

text \<open>States and their parents; \<open>layered\<close>: the depths grow along the list of states.\<close>

definition parent_ok ::
  "(string \<Rightarrow> string) \<Rightarrow> interpreter \<Rightarrow> string \<Rightarrow> exploration \<Rightarrow> string \<Rightarrow> (string \<times> transition_result) option \<Rightarrow> bool" where
  "parent_ok sha gi h0 e h p =
     (case p of
        None \<Rightarrow> h = h0
      | Some (source, r) \<Rightarrow>
          \<exists>st n. map_of (ex_states e) source = Some st \<and> legal_step sha gi st r \<and> tr_post_state_hash r = h \<and>
            map_of (ex_states e) h = Some (tr_post_state r) \<and>
            map_of (ex_depths e) source = Some n \<and> map_of (ex_depths e) h = Some (n + 1))"

definition states_ok :: "(string \<Rightarrow> string) \<Rightarrow> interpreter \<Rightarrow> json dict \<Rightarrow> string \<Rightarrow> exploration \<Rightarrow> bool" where
  "states_ok sha gi start h0 e \<longleftrightarrow>
     distinct (dict_keys (ex_states e)) \<and> dict_keys (ex_parents e) = dict_keys (ex_states e) \<and>
     dict_keys (ex_depths e) = dict_keys (ex_states e) \<and>
     map_of (ex_states e) h0 = Some start \<and> map_of (ex_depths e) h0 = Some 0 \<and>
     sorted (dict_values (ex_depths e)) \<and>
     (\<forall>h st. map_of (ex_states e) h = Some st \<longrightarrow> canonical_state_hash sha st = Inr h \<and>
        (\<exists>n. map_of (ex_depths e) h = Some (int n) \<and> n < length (ex_states e) \<and> plays sha gi start n st)) \<and>
     (\<forall>h p. map_of (ex_parents e) h = Some p \<longrightarrow> parent_ok sha gi h0 e h p)"

definition graph_ok :: "(string \<Rightarrow> string) \<Rightarrow> interpreter \<Rightarrow> exploration \<Rightarrow> bool" where
  "graph_ok sha gi e \<longleftrightarrow>
     distinct (dict_keys (ex_graph e)) \<and>
     (\<forall>h h'. h' \<in> set (successors (ex_graph e) h) \<longrightarrow>
        (\<exists>st r n m. map_of (ex_states e) h = Some st \<and> legal_step sha gi st r \<and> tr_post_state_hash r = h' \<and>
           map_of (ex_depths e) h = Some n \<and> map_of (ex_depths e) h' = Some m \<and> m \<le> n + 1))"

definition legal_ok :: "(string \<Rightarrow> string) \<Rightarrow> interpreter \<Rightarrow> exploration \<Rightarrow> bool" where
  "legal_ok sha gi e \<longleftrightarrow>
     (\<forall>h rs. map_of (ex_legal e) h = Some rs \<longrightarrow>
        (\<exists>st. map_of (ex_states e) h = Some st \<and> (\<forall>r \<in> set rs. legal_step sha gi st r)))"

definition classified_ok :: "interpreter \<Rightarrow> exploration \<Rightarrow> bool" where
  "classified_ok gi e \<longleftrightarrow>
     distinct (dict_keys (ex_classifications e)) \<and>
     (\<forall>h c. map_of (ex_classifications e) h = Some c \<longrightarrow>
        (\<exists>st. map_of (ex_states e) h = Some st \<and> classify gi st = Inr c))"

text \<open>An expanded state has all its legal transitions, and their targets are states and successors.\<close>

definition complete_at :: "(string \<Rightarrow> string) \<Rightarrow> interpreter \<Rightarrow> exploration \<Rightarrow> string \<Rightarrow> json dict \<Rightarrow> transition_result list \<Rightarrow> bool" where
  "complete_at sha gi e h st rs \<longleftrightarrow>
     set rs = {r. legal_step sha gi st r} \<and>
     (\<forall>r \<in> set rs. dict_mem (tr_post_state_hash r) (ex_states e) \<and>
        tr_post_state_hash r \<in> set (successors (ex_graph e) h))"

definition expanded_ok :: "(string \<Rightarrow> string) \<Rightarrow> interpreter \<Rightarrow> exploration \<Rightarrow> bool" where
  "expanded_ok sha gi e \<longleftrightarrow>
     (\<forall>h \<in> set (ex_expanded e). dict_mem h (ex_classifications e) \<and>
        (\<exists>st rs. map_of (ex_states e) h = Some st \<and> map_of (ex_legal e) h = Some rs \<and> complete_at sha gi e h st rs))"

definition sound :: "(string \<Rightarrow> string) \<Rightarrow> interpreter \<Rightarrow> json dict \<Rightarrow> string \<Rightarrow> exploration \<Rightarrow> bool" where
  "sound sha gi start h0 e \<longleftrightarrow>
     states_ok sha gi start h0 e \<and> graph_ok sha gi e \<and> legal_ok sha gi e \<and> classified_ok gi e \<and> expanded_ok sha gi e"

text \<open>What a state adds to a search while it is expanded: new states at the ends, and edges.\<close>

definition extends :: "exploration \<Rightarrow> exploration \<Rightarrow> bool" where
  "extends e e' \<longleftrightarrow>
     (\<exists>ks. dict_keys (ex_states e') = dict_keys (ex_states e) @ ks \<and> ex_queue e' = ex_queue e @ ks) \<and>
     (\<forall>h st. map_of (ex_states e) h = Some st \<longrightarrow> map_of (ex_states e') h = Some st) \<and>
     (\<forall>h n. map_of (ex_depths e) h = Some n \<longrightarrow> map_of (ex_depths e') h = Some n) \<and>
     (\<forall>h. set (successors (ex_graph e) h) \<subseteq> set (successors (ex_graph e') h)) \<and>
     ex_classifications e' = ex_classifications e \<and> ex_legal e' = ex_legal e \<and> ex_expanded e' = ex_expanded e"

lemma extends_refl [simp, intro]: "extends e e"
  by (simp add: extends_def)

lemma extends_trans: "extends a b \<Longrightarrow> extends b c \<Longrightarrow> extends a c"
  unfolding extends_def by (simp add: subset_iff) (metis append_assoc)

lemma extends_mem: "extends e e' \<Longrightarrow> dict_mem h (ex_states e) \<Longrightarrow> dict_mem h (ex_states e')"
  by (auto simp: extends_def dict_mem_def)

lemma extends_keeps:
  assumes "extends e e'"
  shows "legal_ok sha gi e \<Longrightarrow> legal_ok sha gi e'" and "classified_ok gi e \<Longrightarrow> classified_ok gi e'"
    and "expanded_ok sha gi e \<Longrightarrow> expanded_ok sha gi e'"
proof -
  have st: "map_of (ex_states e) h = Some st \<Longrightarrow> map_of (ex_states e') h = Some st" for h st
    using assms by (simp add: extends_def)
  have next_ones: "h' \<in> set (successors (ex_graph e) h) \<Longrightarrow> h' \<in> set (successors (ex_graph e') h)" for h h'
    using assms by (auto simp: extends_def)
  have eqs: "ex_classifications e' = ex_classifications e" "ex_legal e' = ex_legal e" "ex_expanded e' = ex_expanded e"
    using assms by (simp_all add: extends_def)
  show "legal_ok sha gi e \<Longrightarrow> legal_ok sha gi e'" unfolding legal_ok_def eqs using st by blast
  show "classified_ok gi e \<Longrightarrow> classified_ok gi e'" unfolding classified_ok_def eqs using st by blast
  have "complete_at sha gi e h st rs \<Longrightarrow> complete_at sha gi e' h st rs" for h st rs
    unfolding complete_at_def using extends_mem [OF assms] next_ones by blast
  then show "expanded_ok sha gi e \<Longrightarrow> expanded_ok sha gi e'"
    unfolding expanded_ok_def eqs using st by blast
qed

section \<open>A state is expanded\<close>

text \<open>\<open>h\<close> is being expanded: no recorded state is more than one level below it.\<close>

definition expanding :: "(string \<Rightarrow> string) \<Rightarrow> interpreter \<Rightarrow> json dict \<Rightarrow> string \<Rightarrow> string \<Rightarrow> json dict \<Rightarrow> int \<Rightarrow> exploration \<Rightarrow> bool" where
  "expanding sha gi start h0 h st d e \<longleftrightarrow>
     sound sha gi start h0 e \<and> map_of (ex_states e) h = Some st \<and> map_of (ex_depths e) h = Some d \<and>
     (\<forall>n \<in> set (dict_values (ex_depths e)). n \<le> d + 1)"

lemma successors_add [simp]:
  "set (successors (add_edge h post graph) h') = (if h' = h then insert post (set (successors graph h)) else set (successors graph h'))"
  by (cases "map_of graph h") (auto simp: successors_def add_edge_def update_conv')

lemma successors_default [simp]: "successors (set_default post [] graph) h = successors graph h"
  by (simp add: successors_def set_default_def dict_mem_def update_conv' split: option.splits)

lemma distinct_graph [simp]:
  "distinct (dict_keys graph) \<Longrightarrow> distinct (dict_keys (add_edge h post graph))"
  "distinct (dict_keys graph) \<Longrightarrow> distinct (dict_keys (set_default post [] graph))"
  by (simp_all add: add_edge_def set_default_def dict_keys_def distinct_update)

lemma depth_known:
  assumes "states_ok sha gi start h0 e" and "dict_mem h (ex_states e)"
  obtains n where "map_of (ex_depths e) h = Some n" and "n \<in> set (dict_values (ex_depths e))"
proof -
  have "dict_mem h (ex_depths e)"
    using assms by (simp add: states_ok_def dict_mem_keys)
  then obtain n where n: "map_of (ex_depths e) h = Some n" by (rule dict_mem_Some [THEN exE])
  show thesis by (rule that [OF n dict_values_mem [OF n]])
qed

lemma state_known:
  assumes "states_ok sha gi start h0 e" and "map_of (ex_states e) h = Some st"
  obtains n where "canonical_state_hash sha st = Inr h" and "map_of (ex_depths e) h = Some (int n)"
    and "n < length (ex_states e)" and "plays sha gi start n st"
proof -
  have "canonical_state_hash sha st = Inr h \<and>
      (\<exists>n. map_of (ex_depths e) h = Some (int n) \<and> n < length (ex_states e) \<and> plays sha gi start n st)"
    using assms by (simp add: states_ok_def)
  then show thesis using that by blast
qed

lemma parent_ok_same:
  "ex_states e' = ex_states e \<Longrightarrow> ex_depths e' = ex_depths e \<Longrightarrow> parent_ok sha gi h0 e' = parent_ok sha gi h0 e"
  by (intro ext) (simp add: parent_ok_def split: option.split)

lemma states_ok_same:
  assumes "ex_states e' = ex_states e" and "ex_depths e' = ex_depths e" and "ex_parents e' = ex_parents e"
  shows "states_ok sha gi start h0 e' \<longleftrightarrow> states_ok sha gi start h0 e"
  by (simp only: states_ok_def parent_ok_same [OF assms(1,2)] assms)

lemma edge_ok:
  assumes "expanding sha gi start h0 h st d e" and "legal_step sha gi st r"
    and "dict_mem (tr_post_state_hash r) (ex_states e)"
  shows "expanding sha gi start h0 h st d (e\<lparr>ex_graph := add_edge h (tr_post_state_hash r) (ex_graph e)\<rparr>)"
    and "extends e (e\<lparr>ex_graph := add_edge h (tr_post_state_hash r) (ex_graph e)\<rparr>)"
proof -
  let ?e = "e\<lparr>ex_graph := add_edge h (tr_post_state_hash r) (ex_graph e)\<rparr>"
  show ext: "extends e ?e" unfolding extends_def by (intro conjI exI [of _ "[]"]) auto
  have ok: "sound sha gi start h0 e" "map_of (ex_states e) h = Some st" "map_of (ex_depths e) h = Some d"
    and near: "\<And>n. n \<in> set (dict_values (ex_depths e)) \<Longrightarrow> n \<le> d + 1"
    using assms(1) by (auto simp: expanding_def)
  have "states_ok sha gi start h0 ?e"
    using ok(1) by (simp add: sound_def states_ok_same [of ?e e])
  obtain m where m: "map_of (ex_depths e) (tr_post_state_hash r) = Some m" "m \<le> d + 1"
    by (rule depth_known [OF _ assms(3)]) (use ok(1) near in \<open>auto simp: sound_def\<close>)
  have "graph_ok sha gi ?e"
    unfolding graph_ok_def
  proof (intro conjI allI impI)
    show "distinct (dict_keys (ex_graph ?e))" using ok(1) by (simp add: sound_def graph_ok_def)
  next
    fix g g' assume edge: "g' \<in> set (successors (ex_graph ?e) g)"
    show "\<exists>st r n m. map_of (ex_states ?e) g = Some st \<and> legal_step sha gi st r \<and> tr_post_state_hash r = g' \<and>
        map_of (ex_depths ?e) g = Some n \<and> map_of (ex_depths ?e) g' = Some m \<and> m \<le> n + 1"
    proof (cases "g = h \<and> g' = tr_post_state_hash r")
      case True
      with ok(2,3) m assms(2) show ?thesis by auto
    next
      case False
      with edge have "g' \<in> set (successors (ex_graph e) g)" by (auto split: if_splits)
      with ok(1) show ?thesis by (simp add: sound_def graph_ok_def)
    qed
  qed
  with \<open>states_ok sha gi start h0 ?e\<close> extends_keeps [OF ext] ok near
  show "expanding sha gi start h0 h st d ?e" by (simp add: expanding_def sound_def)
qed

lemma parent_ok_mono:
  assumes "parent_ok sha gi h0 e h p"
    and "\<And>h st. map_of (ex_states e) h = Some st \<Longrightarrow> map_of (ex_states e') h = Some st"
    and "\<And>h n. map_of (ex_depths e) h = Some n \<Longrightarrow> map_of (ex_depths e') h = Some n"
  shows "parent_ok sha gi h0 e' h p"
proof (cases p)
  case (Some q)
  obtain source r where "q = (source, r)" by (cases q)
  with assms Some show ?thesis unfolding parent_ok_def by simp blast
qed (use assms(1) in \<open>simp add: parent_ok_def\<close>)

lemma insert_ok:
  assumes ex: "expanding sha gi start h0 h st d e" and step: "legal_step sha gi st r"
    and new: "\<not> dict_mem (tr_post_state_hash r) (ex_states e)" and start: "session_state gi start"
  shows "expanding sha gi start h0 h st d (insert_state h (d + 1) r bytes e)"
    and "extends e (insert_state h (d + 1) r bytes e)"
proof -
  let ?e = "insert_state h (d + 1) r bytes e" and ?post = "tr_post_state_hash r"
  have ok: "states_ok sha gi start h0 e" "map_of (ex_states e) h = Some st" "map_of (ex_depths e) h = Some d"
    and near: "\<And>n. n \<in> set (dict_values (ex_depths e)) \<Longrightarrow> n \<le> d + 1"
    using ex by (auto simp: expanding_def sound_def)
  have keys: "distinct (dict_keys (ex_states e))" "dict_keys (ex_parents e) = dict_keys (ex_states e)"
    "dict_keys (ex_depths e) = dict_keys (ex_states e)" and sorted: "sorted (dict_values (ex_depths e))"
    using ok(1) by (simp_all add: states_ok_def)
  have fresh: "?post \<notin> set (dict_keys (ex_states e))" using new by (simp add: dict_mem_keys)
  have sets: "fst ` set (ex_parents e) = fst ` set (ex_states e)" "fst ` set (ex_depths e) = fst ` set (ex_states e)"
    using keys(2,3) [THEN arg_cong, of set] by (simp_all add: dict_keys_def)
  have fields: "ex_states ?e = ex_states e @ [(?post, tr_post_state r)]"
    "ex_parents ?e = ex_parents e @ [(?post, Some (h, r))]" "ex_depths ?e = ex_depths e @ [(?post, d + 1)]"
    using fresh by (simp_all add: insert_state_def Let_def update_new dict_keys_def sets)
  have grown: "length (ex_states ?e) = Suc (length (ex_states e))" by (simp add: fields)
  have old: "map_of (ex_states e) g = Some s \<Longrightarrow> map_of (ex_states ?e) g = Some s" for g s
    by (simp add: fields map_add_Some_iff)
  have old_depth: "map_of (ex_depths e) g = Some n \<Longrightarrow> map_of (ex_depths ?e) g = Some n" for g n
    by (simp add: fields)
  have none: "map_of (ex_states e) ?post = None" "map_of (ex_depths e) ?post = None" "map_of (ex_parents e) ?post = None"
    using fresh by (simp_all add: map_of_eq_None_iff dict_keys_def sets)
  have here: "map_of (ex_states ?e) ?post = Some (tr_post_state r)" "map_of (ex_depths ?e) ?post = Some (d + 1)"
    "map_of (ex_parents ?e) ?post = Some (Some (h, r))"
    using none by (simp_all add: fields map_add_def)
  have "dict_keys (ex_states ?e) = dict_keys (ex_states e) @ [?post]" by (simp add: fields dict_keys_def)
  moreover have "ex_queue ?e = ex_queue e @ [?post]" "ex_classifications ?e = ex_classifications e"
    "ex_legal ?e = ex_legal e" "ex_expanded ?e = ex_expanded e"
    "set (successors (ex_graph e) g) \<subseteq> set (successors (ex_graph ?e) g)" for g
    by (auto simp: insert_state_def Let_def)
  ultimately show ext: "extends e ?e"
    using old old_depth unfolding extends_def by blast
  obtain n where n: "d = int n" "n < length (ex_states e)" "plays sha gi start n st"
    by (rule state_known [OF ok(1,2)]) (use ok(3) in auto)
  have hash: "canonical_state_hash sha (tr_post_state r) = Inr ?post"
    by (rule legal_stepE(5) [OF step plays_session_state [OF n(3) start]])
  have "states_ok sha gi start h0 ?e"
    unfolding states_ok_def
  proof (intro conjI allI impI)
    show "distinct (dict_keys (ex_states ?e))" using keys(1) fresh by (simp add: fields dict_keys_def)
    show "dict_keys (ex_parents ?e) = dict_keys (ex_states ?e)" and "dict_keys (ex_depths ?e) = dict_keys (ex_states ?e)"
      using keys by (simp_all add: fields dict_keys_def)
    show "map_of (ex_states ?e) h0 = Some start" and "map_of (ex_depths ?e) h0 = Some 0"
      using ok(1) old old_depth by (simp_all add: states_ok_def)
    show "sorted (dict_values (ex_depths ?e))"
      using sorted near by (simp add: fields dict_values_def sorted_append)
  next
    fix g s assume "map_of (ex_states ?e) g = Some s"
    then consider "map_of (ex_states e) g = Some s" | "g = ?post" "s = tr_post_state r"
      by (auto simp: fields map_add_Some_iff split: if_splits)
    then have "canonical_state_hash sha s = Inr g \<and>
        (\<exists>n. map_of (ex_depths ?e) g = Some (int n) \<and> n < length (ex_states ?e) \<and> plays sha gi start n s)"
    proof (cases)
      case 1
      from state_known [OF ok(1) 1] obtain m where "canonical_state_hash sha s = Inr g"
        and "map_of (ex_depths e) g = Some (int m)" and "m < length (ex_states e)" and "plays sha gi start m s" .
      then show ?thesis using old_depth by (auto simp: fields(1) intro!: exI [of _ m])
    next
      case 2
      then show ?thesis
        using hash here(2) n grown plays_step [OF n(3) step] by (auto intro!: exI [of _ "Suc n"])
    qed
    then show "canonical_state_hash sha s = Inr g"
      and "\<exists>n. map_of (ex_depths ?e) g = Some (int n) \<and> n < length (ex_states ?e) \<and> plays sha gi start n s"
      by blast+
  next
    fix g p assume "map_of (ex_parents ?e) g = Some p"
    then consider "map_of (ex_parents e) g = Some p" | "g = ?post" "p = Some (h, r)"
      by (auto simp: fields map_add_Some_iff split: if_splits)
    then show "parent_ok sha gi h0 ?e g p"
    proof (cases)
      case 1
      with ok(1) have "parent_ok sha gi h0 e g p" by (simp add: states_ok_def)
      then show ?thesis by (rule parent_ok_mono [OF _ old old_depth])
    next
      case 2
      then show ?thesis
        using here old [OF ok(2)] old_depth [OF ok(3)] step by (simp add: parent_ok_def)
    qed
  qed
  moreover have "graph_ok sha gi ?e"
    unfolding graph_ok_def
  proof (intro conjI allI impI)
    show "distinct (dict_keys (ex_graph ?e))"
      using ex by (simp add: expanding_def sound_def graph_ok_def insert_state_def Let_def)
  next
    fix g g' assume "g' \<in> set (successors (ex_graph ?e) g)"
    then consider "g = h" "g' = ?post" | "g' \<in> set (successors (ex_graph e) g)"
      by (auto simp: insert_state_def Let_def split: if_splits)
    then show "\<exists>st r n m. map_of (ex_states ?e) g = Some st \<and> legal_step sha gi st r \<and> tr_post_state_hash r = g' \<and>
        map_of (ex_depths ?e) g = Some n \<and> map_of (ex_depths ?e) g' = Some m \<and> m \<le> n + 1"
    proof (cases)
      case 1
      then show ?thesis using here old [OF ok(2)] old_depth [OF ok(3)] step by auto
    next
      case 2
      then have "\<exists>st r n m. map_of (ex_states e) g = Some st \<and> legal_step sha gi st r \<and> tr_post_state_hash r = g' \<and>
          map_of (ex_depths e) g = Some n \<and> map_of (ex_depths e) g' = Some m \<and> m \<le> n + 1"
        using ex by (simp add: expanding_def sound_def graph_ok_def)
      with old old_depth show ?thesis by blast
    qed
  qed
  moreover have "\<forall>n \<in> set (dict_values (ex_depths ?e)). n \<le> d + 1"
    using near by (auto simp: fields dict_values_def)
  ultimately show "expanding sha gi start h0 h st d ?e"
    using ex extends_keeps [OF ext] old [OF ok(2)] old_depth [OF ok(3)] by (simp add: expanding_def sound_def)
qed

section \<open>Bounds\<close>

definition within_bounds :: "exploration \<Rightarrow> bool" where
  "within_bounds e \<longleftrightarrow>
     ex_candidate_evaluations e \<le> 262144 \<and> ex_transitions e \<le> ex_candidate_evaluations e \<and>
     length (ex_states e) \<le> 16384 \<and> ex_total_state_bytes e \<le> 67108864 \<and>
     ex_largest_state_bytes e \<le> state_bytes \<and> ex_max_depth e \<le> 512 \<and>
     (\<forall>n \<in> set (dict_values (ex_depths e)). n \<le> 512) \<and>
     ex_bound_reason e \<noteq> Some ''state_bytes_bound_reached'' \<and>
     (\<forall>f \<in> set (ex_integrity e). fi_reason_code f \<in> set integrity_reasons)"

lemma canonical_bytes_fit: "canonical_state_bytes st = Inr encoded \<Longrightarrow> int (length encoded) \<le> state_bytes"
  using snapshot_fits by (auto simp: canonical_state_bytes_def canonical_bytes_owned_def simp del: json_text.simps)

lemma values_update: "set (dict_values (AList.update k v d)) \<subseteq> insert v (set (dict_values d))"
  by (induction d) (auto simp: dict_values_def)

lemma discover_within:
  assumes "discover h d r e = Inr e'" and "within_bounds e" and "0 \<le> d"
  shows "within_bounds e'"
proof (cases "dict_mem (tr_post_state_hash r) (ex_states e)")
  case True
  with assms show ?thesis by (auto simp: discover_def within_bounds_def)
next
  case False
  obtain encoded where encoded: "canonical_state_bytes (tr_post_state r) = Inr encoded"
    using assms(1) False by (cases "canonical_state_bytes (tr_post_state r)") (simp_all add: discover_def Let_def)
  then have e': "(case bound_reached e (d + 1) (int (length encoded)) of
        Some reason \<Rightarrow> Inr (e\<lparr>ex_bound_reason := Some reason\<rparr>)
      | None \<Rightarrow> Inr (insert_state h (d + 1) r (int (length encoded)) e)) = (Inr e' :: exploration res)"
    using assms(1) False by (simp add: discover_def Let_def)
  show ?thesis
  proof (cases "bound_reached e (d + 1) (int (length encoded))")
    case None
    have "n \<le> 512" if "n \<in> set (dict_values (AList.update (tr_post_state_hash r) (d + 1) (ex_depths e)))" for n
      using that values_update None assms(2) by (fastforce simp: within_bounds_def bound_reached_def split: if_splits)
    with None e' assms(2) canonical_bytes_fit [OF encoded] show ?thesis
      by (auto simp: within_bounds_def insert_state_def Let_def bound_reached_def length_update_new [OF False] split: if_splits)
  next
    case (Some reason)
    with e' assms(2) canonical_bytes_fit [OF encoded] show ?thesis
      by (auto simp: within_bounds_def bound_reached_def split: if_splits)
  qed
qed

lemma expanding_same:
  assumes "ex_states e' = ex_states e" "ex_depths e' = ex_depths e" "ex_parents e' = ex_parents e"
    "ex_graph e' = ex_graph e" "ex_classifications e' = ex_classifications e" "ex_legal e' = ex_legal e"
    "ex_expanded e' = ex_expanded e"
  shows "expanding sha gi start h0 h st d e' \<longleftrightarrow> expanding sha gi start h0 h st d e"
  unfolding expanding_def sound_def states_ok_same [OF assms(1-3)] graph_ok_def legal_ok_def classified_ok_def
    expanded_ok_def complete_at_def assms ..

lemma extends_same:
  assumes "ex_states e' = ex_states e" "ex_depths e' = ex_depths e" "ex_queue e' = ex_queue e"
    "ex_graph e' = ex_graph e" "ex_classifications e' = ex_classifications e" "ex_legal e' = ex_legal e"
    "ex_expanded e' = ex_expanded e"
  shows "extends a e' \<longleftrightarrow> extends a e" and "extends e' b \<longleftrightarrow> extends e b"
  unfolding extends_def assms by (rule refl)+

lemma discover_ok:
  assumes ex: "expanding sha gi start h0 h st d e" and step: "legal_step sha gi st r" and bound: "ex_bound_reason e = None"
    and start: "session_state gi start" and gi: "constructed gi"
  shows "\<exists>e'. discover h d r e = Inr e' \<and> expanding sha gi start h0 h st d e' \<and> extends e e' \<and>
    (ex_bound_reason e' = None \<longrightarrow>
       dict_mem (tr_post_state_hash r) (ex_states e') \<and> tr_post_state_hash r \<in> set (successors (ex_graph e') h))"
proof (cases "dict_mem (tr_post_state_hash r) (ex_states e)")
  case True
  with edge_ok [OF ex step True] bound show ?thesis by (simp add: discover_def Let_def)
next
  case False
  have known: "states_ok sha gi start h0 e" "map_of (ex_states e) h = Some st"
    using ex by (simp_all add: expanding_def sound_def)
  obtain n where "plays sha gi start n st" using state_known [OF known] by blast
  then have "session_state gi (tr_post_state r)"
    using legal_stepE(1) [OF step plays_session_state] start by blast
  then obtain k where "canonical_state_hash sha (tr_post_state r) = Inr k" using session_state_hash [OF _ gi] by blast
  then obtain encoded where encoded: "canonical_state_bytes (tr_post_state r) = Inr encoded" by (auto simp: canonical_state_hash_def)
  show ?thesis
  proof (cases "bound_reached e (d + 1) (int (length encoded))")
    case None
    let ?e = "insert_state h (d + 1) r (int (length encoded)) e"
    have "dict_mem (tr_post_state_hash r) (ex_states ?e)" and "tr_post_state_hash r \<in> set (successors (ex_graph ?e) h)"
      by (simp_all add: insert_state_def Let_def dict_mem_def update_conv')
    with insert_ok [OF ex step False start] None False encoded show ?thesis by (simp add: discover_def Let_def)
  next
    case (Some reason)
    have "expanding sha gi start h0 h st d (e\<lparr>ex_bound_reason := Some reason\<rparr>)"
      by (subst expanding_same [of _ e]) (simp_all add: ex)
    moreover have "extends e (e\<lparr>ex_bound_reason := Some reason\<rparr>)"
      by (subst extends_same(1) [of _ e]) simp_all
    ultimately show ?thesis using Some False encoded by (simp add: discover_def Let_def)
  qed
qed

section \<open>The candidates of a state\<close>

definition tried :: "(string \<Rightarrow> string) \<Rightarrow> interpreter \<Rightarrow> json dict \<Rightarrow> candidate_action list \<Rightarrow> transition_result set" where
  "tried sha gi st cs = {r. \<exists>c \<in> set cs. transition_strict sha gi st c = Inr r \<and> tr_accepted r}"

text \<open>What the loop has done when it stops: all candidates, or a bound.\<close>

definition tried_all ::
  "(string \<Rightarrow> string) \<Rightarrow> interpreter \<Rightarrow> string \<Rightarrow> json dict \<Rightarrow> candidate_action list \<Rightarrow> exploration \<Rightarrow>
     transition_result list \<Rightarrow> bool" where
  "tried_all sha gi h st cs e rs \<longleftrightarrow>
     set rs \<subseteq> tried sha gi st cs \<and>
     (ex_bound_reason e = None \<longrightarrow> set rs = tried sha gi st cs \<and>
        (\<forall>r \<in> set rs. dict_mem (tr_post_state_hash r) (ex_states e) \<and>
           tr_post_state_hash r \<in> set (successors (ex_graph e) h)))"

lemma tried_legal: "tried sha gi st (gi_candidates gi) = {r. legal_step sha gi st r}"
  by (auto simp: tried_def legal_step_def)

lemma tried_Cons:
  assumes "transition_strict sha gi st c = Inr r"
  shows "tried sha gi st (c # cs) = (if tr_accepted r then insert r (tried sha gi st cs) else tried sha gi st cs)"
  using assms by (auto simp: tried_def)

lemma note_rejection_fields [simp]:
  "ex_states (note_rejection h c r e) = ex_states e" "ex_depths (note_rejection h c r e) = ex_depths e"
  "ex_parents (note_rejection h c r e) = ex_parents e" "ex_graph (note_rejection h c r e) = ex_graph e"
  "ex_classifications (note_rejection h c r e) = ex_classifications e" "ex_legal (note_rejection h c r e) = ex_legal e"
  "ex_expanded (note_rejection h c r e) = ex_expanded e" "ex_queue (note_rejection h c r e) = ex_queue e"
  "ex_bound_reason (note_rejection h c r e) = ex_bound_reason e"
  "within_bounds (note_rejection h c r e) = within_bounds e"
  by (auto simp: note_rejection_def within_bounds_def make_finding_def split: option.split)

lemma try_candidates_ok:
  assumes gi: "analysable nfc gi start" and sub: "set cs \<subseteq> set (gi_candidates gi)" and st: "session_state gi st"
    and ex: "expanding sha gi start h0 h st d e" and bound: "ex_bound_reason e = None"
    and within: "within_bounds e" and d: "0 \<le> d"
  shows "\<exists>e' rs. try_candidates nfc sha gi h st d cs (e, legal) = Inr (e', legal @ rs) \<and>
    expanding sha gi start h0 h st d e' \<and> extends e e' \<and> within_bounds e' \<and> tried_all sha gi h st cs e' rs"
  using sub ex bound within
proof (induction cs arbitrary: e legal)
  case Nil
  then show ?case by (auto simp: tried_all_def tried_def)
next
  case (Cons c cs)
  have "constructed gi" and start: "session_state gi start" using gi by (simp_all add: analysable_def)
  show ?case
  proof (cases "262144 \<le> ex_candidate_evaluations e")
    case True
    let ?e = "e\<lparr>ex_bound_reason := Some ''candidate_evaluations_bound_reached''\<rparr>"
    have "expanding sha gi start h0 h st d ?e" by (subst expanding_same [of _ e]) (simp_all add: Cons.prems)
    moreover have "extends e ?e" by (subst extends_same(1) [of _ e]) simp_all
    moreover have "within_bounds ?e" using Cons.prems(4) by (simp add: within_bounds_def)
    moreover have "tried_all sha gi h st (c # cs) ?e []" by (simp add: tried_all_def)
    ultimately show ?thesis using True by (intro exI [of _ ?e] exI [of _ "[]"]) simp
  next
    case False
    obtain r where r: "transition_strict sha gi st c = Inr r" and legacy: "transition_legacy nfc sha gi st c = Inr r"
      by (rule strict_total [OF gi st]) (use Cons.prems(1) in auto)
    let ?e1 = "e\<lparr>ex_candidate_evaluations := ex_candidate_evaluations e + 1\<rparr>"
    show ?thesis
    proof (cases "tr_accepted r")
      case no: False
      let ?e2 = "note_rejection h c r ?e1"
      have "expanding sha gi start h0 h st d ?e2" by (subst expanding_same [of _ e]) (simp_all add: Cons.prems)
      moreover have "within_bounds ?e1" using Cons.prems(4) False by (simp add: within_bounds_def)
      then have "within_bounds ?e2" by simp
      ultimately obtain e' rs where run: "try_candidates nfc sha gi h st d cs (?e2, legal) = Inr (e', legal @ rs)"
        and ok: "expanding sha gi start h0 h st d e'" "extends ?e2 e'" "within_bounds e'" "tried_all sha gi h st cs e' rs"
        using Cons.IH [of ?e2 legal] Cons.prems by auto
      have "extends e e'" using ok(2) by (subst (asm) extends_same(2) [of _ e]) simp_all
      moreover have "tried_all sha gi h st (c # cs) e' rs"
        using ok(4) no by (simp add: tried_all_def tried_Cons [OF r])
      ultimately show ?thesis using run ok False legacy no by (simp add: Let_def)
    next
      case yes: True
      let ?e2 = "?e1\<lparr>ex_transitions := ex_transitions e + 1\<rparr>"
      have step: "legal_step sha gi st r" using r yes Cons.prems(1) by (auto simp: legal_step_def)
      have "expanding sha gi start h0 h st d ?e2" by (subst expanding_same [of _ e]) (simp_all add: Cons.prems)
      from discover_ok [OF this step _ start \<open>constructed gi\<close>] Cons.prems(3)
      obtain e3 where e3: "discover h d r ?e2 = Inr e3" "expanding sha gi start h0 h st d e3" "extends ?e2 e3"
        and there: "ex_bound_reason e3 = None \<Longrightarrow>
          dict_mem (tr_post_state_hash r) (ex_states e3) \<and> tr_post_state_hash r \<in> set (successors (ex_graph e3) h)"
        by auto
      have ext: "extends e e3" using e3(3) by (subst (asm) extends_same(2) [of _ e]) simp_all
      have "within_bounds ?e2" using Cons.prems(4) False by (simp add: within_bounds_def)
      then have in3: "within_bounds e3" by (rule discover_within [OF e3(1) _ d])
      show ?thesis
      proof (cases "ex_bound_reason e3 = None")
        case False: False
        have "tried_all sha gi h st (c # cs) e3 [r]"
          using False yes by (auto simp: tried_all_def tried_Cons [OF r])
        then show ?thesis
          using False \<open>\<not> 262144 \<le> ex_candidate_evaluations e\<close> legacy yes e3 ext in3
          by (intro exI [of _ e3] exI [of _ "[r]"]) (auto simp: Let_def)
      next
        case True
        from Cons.IH [OF _ e3(2) True in3, of "legal @ [r]"] Cons.prems(1) obtain e' rs where
          run: "try_candidates nfc sha gi h st d cs (e3, legal @ [r]) = Inr (e', (legal @ [r]) @ rs)"
          and ok: "expanding sha gi start h0 h st d e'" "extends e3 e'" "within_bounds e'" "tried_all sha gi h st cs e' rs"
          by auto
        have "tr_post_state_hash r \<in> set (successors (ex_graph e') h)"
          using there [OF True] ok(2) by (auto simp: extends_def)
        then have "tried_all sha gi h st (c # cs) e' (r # rs)"
          using ok(4) yes there [OF True] extends_mem [OF ok(2)] by (auto simp: tried_all_def tried_Cons [OF r])
        then show ?thesis
          using True \<open>\<not> 262144 \<le> ex_candidate_evaluations e\<close> legacy yes e3(1) run ok extends_trans [OF ext ok(2)]
          by (intro exI [of _ e'] exI [of _ "r # rs"]) (simp add: Let_def)
      qed
    qed
  qed
qed

section \<open>A turn of the search\<close>

text \<open>
  Between two turns: the states are the visited ones, all expanded and classified, followed by the
  queue; and none is more than one level below the head of the queue.
\<close>

definition frontier_ok :: "string list \<Rightarrow> exploration \<Rightarrow> bool" where
  "frontier_ok visited e \<longleftrightarrow>
     dict_keys (ex_states e) = visited @ ex_queue e \<and> set (ex_expanded e) = set visited \<and>
     set (dict_keys (ex_classifications e)) = set visited \<and>
     (\<forall>h q d. ex_queue e = h # q \<longrightarrow> map_of (ex_depths e) h = Some d \<longrightarrow>
        (\<forall>n \<in> set (dict_values (ex_depths e)). n \<le> d + 1))"

lemma sorted_lookup:
  assumes "sorted (map snd d)" and "distinct (map fst d)" and "map fst d = xs @ a # ys" and "b \<in> set ys"
    and "map_of d a = Some m" and "map_of d b = Some n"
  shows "m \<le> (n :: int)"
  using assms
proof (induction d arbitrary: xs)
  case (Cons p d)
  obtain k v where p: "p = (k, v)" by (cases p)
  show ?case
  proof (cases xs)
    case Nil
    then have k: "k = a" "map fst d = ys" using Cons.prems(3) p by auto
    then have "b \<noteq> a" using Cons.prems(2,4) p by auto
    then have "(b, n) \<in> set d" using Cons.prems(6) p k by (auto dest: map_of_SomeD)
    moreover have "m = v" using Cons.prems(5) p k by simp
    ultimately show ?thesis using Cons.prems(1) p by force
  next
    case (Cons x xs')
    have "distinct (xs @ a # ys)" using Cons.prems(2,3) by metis
    then have "a \<noteq> k" "b \<noteq> k" using Cons.prems(3,4) p Cons by auto
    with Cons.IH [of xs'] Cons.prems p Cons show ?thesis by auto
  qed
qed simp

lemma terminal_no_step:
  assumes "classify gi st = Inr found" and "gc_ending_ids found \<noteq> []"
  shows "\<not> legal_step sha gi st r"
proof
  assume "legal_step sha gi st r"
  then obtain c where "transition_strict sha gi st c = Inr r" "tr_accepted r" by (auto simp: legal_step_def)
  then obtain params found' rules where "committed sha gi st c params found' rules r"
    using transition_cases rejectedE by blast
  with assms show False by (auto simp: committed_def)
qed

text \<open>The classification of a state, its legal transitions, its place among the expanded ones.\<close>

lemma classified_sound:
  assumes "sound sha gi start h0 e" and "map_of (ex_states e) h = Some st" and "classify gi st = Inr found"
  shows "sound sha gi start h0 (e\<lparr>ex_classifications := AList.update h found (ex_classifications e),
    ex_graph := set_default h [] (ex_graph e)\<rparr>)" (is "sound _ _ _ _ ?e")
proof -
  have "states_ok sha gi start h0 ?e" using assms(1) by (subst states_ok_same [of _ e]) (simp_all add: sound_def)
  moreover have "graph_ok sha gi ?e" and "legal_ok sha gi ?e"
    using assms(1) by (simp_all add: sound_def graph_ok_def legal_ok_def)
  moreover have "classified_ok gi ?e"
    using assms by (auto simp: sound_def classified_ok_def update_conv' dict_keys_def distinct_update split: if_splits)
  moreover have "expanded_ok sha gi ?e"
    using assms(1) by (fastforce simp: sound_def expanded_ok_def complete_at_def dict_mem_def update_conv')
  ultimately show ?thesis by (simp add: sound_def)
qed

lemma legal_sound:
  assumes "sound sha gi start h0 e" and "map_of (ex_states e) h = Some st" and "h \<notin> set (ex_expanded e)"
    and "\<And>r. r \<in> set rs \<Longrightarrow> legal_step sha gi st r"
  shows "sound sha gi start h0 (e\<lparr>ex_legal := AList.update h rs (ex_legal e)\<rparr>)" (is "sound _ _ _ _ ?e")
proof -
  have "states_ok sha gi start h0 ?e" using assms(1) by (subst states_ok_same [of _ e]) (simp_all add: sound_def)
  moreover have "graph_ok sha gi ?e" and "classified_ok gi ?e"
    using assms(1) by (simp_all add: sound_def graph_ok_def classified_ok_def)
  moreover have "legal_ok sha gi ?e"
    using assms by (simp add: sound_def legal_ok_def update_conv')
  moreover have "expanded_ok sha gi ?e"
    unfolding expanded_ok_def
  proof
    fix g assume g: "g \<in> set (ex_expanded ?e)"
    then have "g \<noteq> h" using assms(3) by auto
    with g assms(1) show "dict_mem g (ex_classifications ?e) \<and>
        (\<exists>st rs. map_of (ex_states ?e) g = Some st \<and> map_of (ex_legal ?e) g = Some rs \<and> complete_at sha gi ?e g st rs)"
      by (simp add: sound_def expanded_ok_def complete_at_def update_conv')
  qed
  ultimately show ?thesis by (simp add: sound_def)
qed

lemma expanded_sound:
  assumes "sound sha gi start h0 e" and "dict_mem h (ex_classifications e)" and "map_of (ex_states e) h = Some st"
    and "map_of (ex_legal e) h = Some rs" and "complete_at sha gi e h st rs"
  shows "sound sha gi start h0 (e\<lparr>ex_expanded := List.insert h (ex_expanded e)\<rparr>)" (is "sound _ _ _ _ ?e")
proof -
  have "states_ok sha gi start h0 ?e" using assms(1) by (subst states_ok_same [of _ e]) (simp_all add: sound_def)
  moreover have "graph_ok sha gi ?e" and "classified_ok gi ?e" and "legal_ok sha gi ?e"
    using assms(1) by (simp_all add: sound_def graph_ok_def classified_ok_def legal_ok_def)
  moreover have "expanded_ok sha gi ?e"
    using assms by (auto simp: sound_def expanded_ok_def complete_at_def)
  ultimately show ?thesis by (simp add: sound_def)
qed

lemma sound_same:
  assumes "ex_states e' = ex_states e" "ex_depths e' = ex_depths e" "ex_parents e' = ex_parents e"
    "ex_graph e' = ex_graph e" "ex_classifications e' = ex_classifications e" "ex_legal e' = ex_legal e"
    "ex_expanded e' = ex_expanded e"
  shows "sound sha gi start h0 e' \<longleftrightarrow> sound sha gi start h0 e"
  unfolding sound_def states_ok_same [OF assms(1-3)] graph_ok_def legal_ok_def classified_ok_def
    expanded_ok_def complete_at_def assms ..

text \<open>After a turn: the head of the queue is visited, unless a bound was reached.\<close>

lemma frontier_moves:
  assumes "frontier_ok visited e" and "ex_queue e = h # q" and "sound sha gi start h0 e'"
    and "map_of (ex_depths e') h = Some d" and "\<forall>n \<in> set (dict_values (ex_depths e')). n \<le> d + 1"
    and "dict_keys (ex_states e') = dict_keys (ex_states e) @ ks" and "ex_queue e' = q @ ks"
    and "set (ex_expanded e') = insert h (set (ex_expanded e))"
    and "set (dict_keys (ex_classifications e')) = insert h (set (dict_keys (ex_classifications e)))"
  shows "frontier_ok (visited @ [h]) e'"
proof -
  have keys: "dict_keys (ex_states e') = (visited @ [h]) @ ex_queue e'"
    using assms(1,2,6,7) by (simp add: frontier_ok_def)
  have ok: "distinct (dict_keys (ex_states e'))" "dict_keys (ex_depths e') = dict_keys (ex_states e')"
    "sorted (dict_values (ex_depths e'))" using assms(3) by (auto simp: sound_def states_ok_def)
  have "\<forall>n \<in> set (dict_values (ex_depths e')). n \<le> d2 + 1"
    if "ex_queue e' = h2 # q2" "map_of (ex_depths e') h2 = Some d2" for h2 q2 d2
  proof -
    have "d \<le> d2"
      by (rule sorted_lookup [of "ex_depths e'" visited h "ex_queue e'" h2])
        (use ok keys assms(4) that in \<open>simp_all add: dict_keys_def dict_values_def\<close>)
    with assms(5) show ?thesis by fastforce
  qed
  with keys assms(1,8,9) show ?thesis by (simp add: frontier_ok_def)
qed

lemma visit_state_ok:
  assumes gi: "analysable nfc gi start" and ok: "sound sha gi start h0 e" "within_bounds e" "frontier_ok visited e"
    and queue: "ex_queue e = h # q" and bound: "ex_bound_reason e = None"
  shows "\<exists>e'. visit_state nfc sha gi h (e\<lparr>ex_queue := q\<rparr>) = Inr e' \<and> sound sha gi start h0 e' \<and> within_bounds e' \<and>
    (ex_bound_reason e' = None \<longrightarrow> frontier_ok (visited @ [h]) e')"
proof -
  have keys: "dict_keys (ex_states e) = visited @ h # q" using ok(3) queue by (simp add: frontier_ok_def)
  have states: "states_ok sha gi start h0 e" using ok(1) by (simp add: sound_def)
  have "dict_mem h (ex_states e)" by (simp add: dict_mem_keys keys)
  then obtain st where st: "map_of (ex_states e) h = Some st" by (rule dict_mem_Some [THEN exE])
  obtain n where d: "map_of (ex_depths e) h = Some (int n)" and play: "plays sha gi start n st"
    by (rule state_known [OF states st])
  have near: "\<forall>m \<in> set (dict_values (ex_depths e)). m \<le> int n + 1"
    using ok(3) queue d by (simp add: frontier_ok_def)
  have "int n \<in> set (dict_values (ex_depths e))" using d by (rule dict_values_mem)
  then have deep: "int n \<le> 512" using ok(2) by (fastforce simp: within_bounds_def)
  have session: "session_state gi st"
    using plays_session_state [OF play] gi by (simp add: analysable_def)
  then obtain found where found: "classify gi st = Inr found" by (auto simp: session_state_def not_isl)
  obtain ended where ended: "terminal found = Inr ended"
    using terminal_ok [OF _ found] gi by (auto simp: analysable_def)
  have new: "h \<notin> set (ex_expanded e)"
    using states ok(3) keys by (auto simp: states_ok_def frontier_ok_def)
  define e1 where "e1 = e\<lparr>ex_queue := q, ex_max_depth := max (ex_max_depth e) (int n)\<rparr>"
  define e2 where "e2 = e1\<lparr>ex_classifications := AList.update h found (ex_classifications e1),
    ex_graph := set_default h [] (ex_graph e1)\<rparr>"
  have sound1: "sound sha gi start h0 e1" by (subst sound_same [of _ e]) (simp_all add: e1_def ok(1))
  have sound2: "sound sha gi start h0 e2"
    unfolding e2_def by (rule classified_sound [OF sound1 _ found]) (simp add: e1_def st)
  have fields: "ex_states e2 = ex_states e" "ex_depths e2 = ex_depths e" "ex_queue e2 = q" "ex_legal e2 = ex_legal e"
    "ex_expanded e2 = ex_expanded e" "ex_bound_reason e2 = None" "dict_mem h (ex_classifications e2)"
    "set (dict_keys (ex_classifications e2)) = insert h (set (dict_keys (ex_classifications e)))"
    using bound by (simp_all add: e2_def e1_def dict_mem_def update_conv' dict_keys_def AList.dom_update)
  have in2: "within_bounds e2" using ok(2) deep by (simp add: within_bounds_def e2_def e1_def)
  have visit_state: "visit_state nfc sha gi h (e\<lparr>ex_queue := q\<rparr>) =
      (if ended then Inr (e2\<lparr>ex_legal := AList.update h [] (ex_legal e2), ex_expanded := List.insert h (ex_expanded e2)\<rparr>)
       else expand_state nfc sha gi h st (int n) e2)"
    by (simp add: visit_state_def Let_def e2_def e1_def found ended dict_at_Inr [THEN iffD2, OF st] dict_at_Inr [THEN iffD2, OF d])
  show ?thesis
  proof (cases ended)
    case True
    then have "gc_ending_ids found \<noteq> []" using terminal_Inr [OF ended] by simp
    then have none: "{r. legal_step sha gi st r} = {}" using terminal_no_step [OF found] by blast
    let ?e3 = "e2\<lparr>ex_legal := AList.update h [] (ex_legal e2)\<rparr>"
    let ?e4 = "?e3\<lparr>ex_expanded := List.insert h (ex_expanded ?e3)\<rparr>"
    have "sound sha gi start h0 ?e3" by (rule legal_sound [OF sound2]) (use st new fields in auto)
    moreover have "complete_at sha gi ?e3 h st []" using none by (auto simp: complete_at_def)
    ultimately have sound4: "sound sha gi start h0 ?e4"
      by (intro expanded_sound [of _ _ _ _ ?e3 h st "[]"]) (use st fields in \<open>simp_all add: update_conv'\<close>)
    have "within_bounds ?e4" using in2 by (simp add: within_bounds_def)
    moreover have "frontier_ok (visited @ [h]) ?e4"
      by (rule frontier_moves [OF ok(3) queue sound4, of "int n" "[]"]) (use d near fields in simp_all)
    ultimately show ?thesis using visit_state True sound4 by simp
  next
    case False
    have "expanding sha gi start h0 h st (int n) e2"
      using sound2 st d near by (simp add: expanding_def fields)
    from try_candidates_ok [OF gi subset_refl session this fields(6) in2, of "[]"] obtain e3 rs where
      run: "try_candidates nfc sha gi h st (int n) (gi_candidates gi) (e2, []) = Inr (e3, rs)"
      and ex3: "expanding sha gi start h0 h st (int n) e3" and ext: "extends e2 e3" and in3: "within_bounds e3"
      and all: "tried_all sha gi h st (gi_candidates gi) e3 rs" by auto
    have sound3: "sound sha gi start h0 e3" and here: "map_of (ex_states e3) h = Some st"
      "map_of (ex_depths e3) h = Some (int n)" and near3: "\<forall>m \<in> set (dict_values (ex_depths e3)). m \<le> int n + 1"
      using ex3 by (simp_all add: expanding_def)
    have same: "ex_classifications e3 = ex_classifications e2" "ex_expanded e3 = ex_expanded e2"
      using ext by (simp_all add: extends_def)
    let ?e4 = "e3\<lparr>ex_legal := AList.update h rs (ex_legal e3)\<rparr>"
    have sound4: "sound sha gi start h0 ?e4"
      by (rule legal_sound [OF sound3 here(1)])
        (use new same fields all in \<open>auto simp: tried_all_def tried_legal\<close>)
    have in4: "within_bounds ?e4" using in3 by (simp add: within_bounds_def)
    show ?thesis
    proof (cases "ex_bound_reason e3 = None")
      case open3: True
      let ?e5 = "?e4\<lparr>ex_expanded := List.insert h (ex_expanded ?e4)\<rparr>"
      have "complete_at sha gi ?e4 h st rs"
        using all open3 by (simp add: complete_at_def tried_all_def tried_legal)
      then have sound5: "sound sha gi start h0 ?e5"
        by (rule expanded_sound [OF sound4, rotated 3]) (use here fields same in \<open>simp_all add: update_conv'\<close>)
      obtain ks where ks: "dict_keys (ex_states e3) = dict_keys (ex_states e2) @ ks" "ex_queue e3 = ex_queue e2 @ ks"
        using ext by (auto simp: extends_def)
      have "frontier_ok (visited @ [h]) ?e5"
        by (rule frontier_moves [OF ok(3) queue sound5, of "int n" ks])
          (use here near3 ks fields same in simp_all)
      moreover have "within_bounds ?e5" using in4 by (simp add: within_bounds_def)
      ultimately show ?thesis using visit_state False run sound5 open3 by (simp add: expand_state_def Let_def)
    next
      case False
      then show ?thesis using visit_state \<open>\<not> ended\<close> run sound4 in4 by (auto simp: expand_state_def Let_def)
    qed
  qed
qed

section \<open>The search\<close>

lemma explore_ok:
  assumes "analysable nfc gi start" and "sound sha gi start h0 e" and "within_bounds e" and "frontier_ok visited e"
    and "ex_bound_reason e = None"
  shows "\<exists>e' visited'. explore nfc sha gi e = Inr e' \<and> sound sha gi start h0 e' \<and> within_bounds e' \<and>
    (ex_bound_reason e' = None \<longrightarrow> ex_queue e' = [] \<and> frontier_ok visited' e')"
  using assms(2-5)
proof (induction "room e" arbitrary: e visited rule: less_induct)
  case less
  show ?case
  proof (cases "ex_queue e")
    case Nil
    then have "explore nfc sha gi e = Inr e" by (subst explore.simps) simp
    with less.prems Nil show ?thesis by blast
  next
    case (Cons h q)
    from visit_state_ok [OF assms(1) less.prems(1-3) Cons less.prems(4)] obtain e' where
      run: "visit_state nfc sha gi h (e\<lparr>ex_queue := q\<rparr>) = Inr e'" and ok: "sound sha gi start h0 e'" "within_bounds e'"
      and front: "ex_bound_reason e' = None \<Longrightarrow> frontier_ok (visited @ [h]) e'"
      by (elim exE conjE) (rule that, assumption+, rule mp)
    have go: "explore nfc sha gi e = explore nfc sha gi e'"
      by (rule trans [OF explore.simps]) (simp only: Cons less.prems(4) run list.case simp_thms if_False rbind_Inr)
    show ?thesis
    proof (cases "ex_bound_reason e' = None")
      case True
      have "room e' < room e" using visit_state_room [OF run] Cons by (simp add: room_def)
      from less.hyps [OF this ok front [OF True] True] show ?thesis by (simp add: go)
    next
      case False
      have "explore nfc sha gi e' = Inr e'"
      proof (cases "ex_queue e'")
        case (Cons k p)
        with False show ?thesis by (subst explore.simps) simp
      qed (subst explore.simps, simp)
      with ok False show ?thesis by (auto simp: go)
    qed
  qed
qed

lemma start_ok:
  assumes "analysable nfc gi start" and "canonical_state_bytes start = Inr encoded"
  shows "sound sha gi start (sha encoded) (start_exploration (sha encoded) start (int (length encoded)))"
    and "within_bounds (start_exploration (sha encoded) start (int (length encoded)))"
    and "frontier_ok [] (start_exploration (sha encoded) start (int (length encoded)))"
proof -
  let ?e = "start_exploration (sha encoded) start (int (length encoded))"
  have "canonical_state_hash sha start = Inr (sha encoded)" by (simp add: canonical_state_hash_def assms(2))
  then have "states_ok sha gi start (sha encoded) ?e"
    by (simp add: states_ok_def start_exploration_def dict_keys_def dict_values_def parent_ok_def plays_start)
  moreover have "graph_ok sha gi ?e"
    by (simp add: graph_ok_def start_exploration_def successors_def dict_keys_def)
  ultimately show "sound sha gi start (sha encoded) ?e"
    by (simp add: sound_def legal_ok_def classified_ok_def expanded_ok_def start_exploration_def dict_keys_def)
  show "within_bounds ?e"
    using canonical_bytes_fit [OF assms(2)]
    by (simp add: within_bounds_def start_exploration_def dict_values_def state_bytes_def)
  show "frontier_ok [] ?e"
    by (simp add: frontier_ok_def start_exploration_def dict_keys_def dict_values_def)
qed

text \<open>Nothing is left to classify when the search closed.\<close>

lemma classify_rest_id:
  "list_all (\<lambda>(h, _). dict_mem h (ex_classifications e)) entries \<Longrightarrow> foldR (classify_rest gi) e entries = Inr e"
  by (induction entries) (auto simp: classify_rest_def)

definition search_settled :: "exploration \<Rightarrow> bool" where
  "search_settled e \<longleftrightarrow>
     ex_queue e = [] \<and> set (ex_expanded e) = set (dict_keys (ex_states e)) \<and>
     set (dict_keys (ex_classifications e)) = set (dict_keys (ex_states e))"

lemma deduplicated: "set (deduplicate_findings fs) \<subseteq> set fs"
proof -
  have "set (dict_values (foldl (\<lambda>d f. set_default (finding_key f) f d) d fs)) \<subseteq> set (dict_values d) \<union> set fs" for d
  proof (induction fs arbitrary: d)
    case (Cons f fs)
    have "set (dict_values (set_default (finding_key f) f d)) \<subseteq> insert f (set (dict_values d))"
      using values_update [of "finding_key f" f d] by (auto simp: set_default_def)
    with Cons show ?case by fastforce
  qed simp
  from this [of "[]"] show ?thesis by (simp add: deduplicate_findings_def dict_values_def)
qed

theorem explore_all_ok:
  assumes "analysable nfc gi start" and "canonical_state_bytes start = Inr encoded"
  obtains e where "explore_all nfc sha gi (start_exploration (sha encoded) start (int (length encoded))) = Inr e"
    and "sound sha gi start (sha encoded) e" and "within_bounds e"
    and "frontier_closed e \<longleftrightarrow> ex_bound_reason e = None" and "frontier_closed e \<Longrightarrow> search_settled e"
proof -
  let ?s = "start_exploration (sha encoded) start (int (length encoded))"
  have "ex_bound_reason ?s = None" by (simp add: start_exploration_def)
  from explore_ok [OF assms(1) start_ok [OF assms, of sha] this] obtain e visited where
    run: "explore nfc sha gi ?s = Inr e" and ok: "sound sha gi start (sha encoded) e" "within_bounds e"
    and closed: "ex_bound_reason e = None \<longrightarrow> ex_queue e = [] \<and> frontier_ok visited e"
    by (elim exE conjE) (rule that)
  let ?e = "e\<lparr>ex_integrity := deduplicate_findings (ex_integrity e)\<rparr>"
  have front: "frontier_closed e \<longleftrightarrow> ex_bound_reason e = None" using closed by (auto simp: frontier_closed_def)
  have search_settled: "search_settled e" if "frontier_closed e"
    using closed that by (auto simp: search_settled_def frontier_ok_def frontier_closed_def)
  have rest: "(if frontier_closed e then foldR (classify_rest gi) e (ex_states e) else Inr e) = Inr e"
  proof (cases "frontier_closed e")
    case True
    have "list_all (\<lambda>(h, _). dict_mem h (ex_classifications e)) (ex_states e)"
      using search_settled [OF True] by (force simp: search_settled_def dict_mem_keys dict_keys_def list_all_iff)
    with True show ?thesis by (simp add: classify_rest_id)
  qed simp
  show thesis
  proof (rule that)
    show "explore_all nfc sha gi ?s = Inr ?e" by (simp add: explore_all_def run rest)
    show "sound sha gi start (sha encoded) ?e" by (subst sound_same [of _ e]) (simp_all add: ok)
    show "within_bounds ?e" using ok(2) deduplicated by (fastforce simp: within_bounds_def)
    show "frontier_closed ?e \<longleftrightarrow> ex_bound_reason ?e = None" using front by (simp add: frontier_closed_def)
    show "search_settled ?e" if "frontier_closed ?e"
      using search_settled that by (simp add: search_settled_def frontier_closed_def)
  qed
qed

end
