(* ===== verification/GameVerdict.thy ===== *)
theory GameVerdict
  imports GameExploration
begin

text \<open>
  The verdict of the game analyzer, the second half of \<open>analyze_gamepack\<close> in
  \<open>src/worldforge/game_analysis.py\<close>: what the explored states say about goals, endings, dead ends and
  recovery, the checks with their status, the witnesses, and the report. An \<open>assert\<close> that fails is an
  \<^const>\<open>AssertionError\<close>. The report is a record of the parts that the search decides; its rendering
  as a document with fixed prose and a hash is not modelled.
\<close>

section \<open>Traces\<close>

text \<open>
  \<open>_trace\<close> follows the parents from a state to the start. The fuel is the number of parents, one
  more than any chain without repetition has steps.
\<close>

fun trace_from ::
  "nat \<Rightarrow> (string \<Rightarrow> bool) \<Rightarrow> (string \<Rightarrow> string) \<Rightarrow> (string \<times> transition_result) option dict \<Rightarrow> string \<Rightarrow>
     json dict list res" where
  "trace_from 0 nfc sha parents h = Inl Diverges"
| "trace_from (Suc fuel) nfc sha parents h =
     rbind (dict_at parents h) (\<lambda>parent.
     case parent of
       None \<Rightarrow> Inr []
     | Some (source, r) \<Rightarrow>
         rbind (canonical_trace_step nfc sha r) (\<lambda>last.
         rbind (trace_from fuel nfc sha parents source) (\<lambda>steps. Inr (steps @ [last]))))"

definition trace :: "(string \<Rightarrow> bool) \<Rightarrow> (string \<Rightarrow> string) \<Rightarrow> exploration \<Rightarrow> string \<Rightarrow> json dict list res" where
  "trace nfc sha e = trace_from (length (ex_parents e)) nfc sha (ex_parents e)"

section \<open>What was reached\<close>

definition legal_at :: "exploration \<Rightarrow> string \<Rightarrow> transition_result list" where
  "legal_at e h = (case map_of (ex_legal e) h of None \<Rightarrow> [] | Some rs \<Rightarrow> rs)"

text \<open>The first explored state at which each ID holds: \<open>reached_goals\<close>, \<open>reached_endings\<close>, \<open>failure_targets\<close>.\<close>

definition first_at :: "(classification \<Rightarrow> string list) \<Rightarrow> exploration \<Rightarrow> string dict \<Rightarrow> string \<times> json dict \<Rightarrow> string dict" where
  "first_at ids e found entry =
     (case map_of (ex_classifications e) (fst entry) of
        None \<Rightarrow> found
      | Some c \<Rightarrow> foldl (\<lambda>d i. set_default i (fst entry) d) found (ids c))"

definition first_reached :: "(classification \<Rightarrow> string list) \<Rightarrow> exploration \<Rightarrow> string dict" where
  "first_reached ids e = foldl (first_at ids e) [] (ex_states e)"

definition failure_states :: "exploration \<Rightarrow> classification dict" where
  "failure_states e =
     concat (map (\<lambda>(h, _). case map_of (ex_classifications e) h of
         None \<Rightarrow> [] | Some c \<Rightarrow> if gc_failure_ids c = [] then [] else [(h, c)]) (ex_states e))"

definition authored_ids :: "json dict list \<Rightarrow> string list res" where
  "authored_ids items = rbind (mapR (\<lambda>item. dict_at item ''id'') items) (\<lambda>js. Inr (map id_text js))"

definition missing :: "string list \<Rightarrow> string dict \<Rightarrow> string list" where
  "missing authored reached = sort (remdups (filter (\<lambda>i. \<not> dict_mem i reached) authored))"

section \<open>Who can reach an ending\<close>

definition reverse_graph :: "exploration \<Rightarrow> string list dict" where
  "reverse_graph e =
     foldl (\<lambda>edges (source, targets). foldl (\<lambda>edges target. add_edge target source edges) edges targets)
       (map (\<lambda>(h, _). (h, [])) (ex_states e)) (ex_graph e)"

text \<open>The breadth-first walk against the edges from a queue of states, with the states it knows.\<close>

definition new_sources :: "string list dict \<Rightarrow> string \<Rightarrow> string list \<Rightarrow> string list" where
  "new_sources edges target known = filter (\<lambda>h. h \<notin> set known) (sort (remdups (successors edges target)))"

definition sources :: "string list dict \<Rightarrow> string set" where
  "sources edges = \<Union> (set ` snd ` set edges)"

lemma finite_sources [simp]: "finite (sources edges)"
  by (auto simp: sources_def)

lemma new_sources_sub: "set (new_sources edges target known) \<subseteq> sources edges - set known"
proof
  fix h assume h: "h \<in> set (new_sources edges target known)"
  then obtain hs where "map_of edges target = Some hs" and "h \<in> set hs" and "h \<notin> set known"
    by (cases "map_of edges target") (auto simp: new_sources_def successors_def)
  then show "h \<in> sources edges - set known" using map_of_SomeD by (force simp: sources_def)
qed

lemma new_sources_less:
  assumes "new_sources edges target known \<noteq> []"
  shows "card (sources edges - set (known @ new_sources edges target known)) < card (sources edges - set known)"
proof -
  obtain h where "h \<in> set (new_sources edges target known)" using assms by (cases "new_sources edges target known") auto
  then have "h \<in> sources edges - set known" "h \<notin> sources edges - set (known @ new_sources edges target known)"
    using new_sources_sub by auto
  then have "sources edges - set (known @ new_sources edges target known) \<subset> sources edges - set known" by auto
  then show ?thesis by (rule psubset_card_mono [rotated]) simp
qed

function climb_back :: "string list dict \<Rightarrow> string list \<Rightarrow> string list \<Rightarrow> string list" where
  "climb_back edges [] known = known"
| "climb_back edges (target # queue) known =
     (let found = new_sources edges target known in climb_back edges (queue @ found) (known @ found))"
  by pat_completeness auto
termination
proof (relation "measures [\<lambda>(edges, _, known). card (sources edges - set known), \<lambda>(_, queue, _). length queue]")
  fix edges :: "string list dict" and target :: string and waiting known new :: "string list"
  assume "new = new_sources edges target known"
  then show "((edges, waiting @ new, known @ new), edges, target # waiting, known)
      \<in> measures [\<lambda>(edges, _, known). card (sources edges - set known), \<lambda>(_, queue, _). length queue]"
    using new_sources_less [of edges target known] by (cases "new = []") auto
qed simp

definition can_reach :: "string list dict \<Rightarrow> string list \<Rightarrow> string list" where
  "can_reach edges targets = climb_back edges (sort targets) targets"

section \<open>Recovery\<close>

definition state_finding :: "string \<Rightarrow> string \<Rightarrow> string \<Rightarrow> finding" where
  "state_finding reason h message = make_finding reason ''state'' h (Some h) message"

definition recovery_finding :: "exploration \<Rightarrow> string \<times> classification \<Rightarrow> finding list" where
  "recovery_finding e entry =
     (case entry of (h, c) \<Rightarrow>
      if gc_recovery_action_ids c = []
      then [state_finding ''failure_recovery_empty_intersection'' h ''Active failures have no common recovery action.'']
      else if h \<notin> set (ex_expanded e) then []
      else if set (gc_recovery_action_ids c) \<subseteq> (ca_action_id \<circ> tr_action) ` set (legal_at e h) then []
      else [state_finding ''failure_recovery_unavailable'' h ''A declared common recovery action is not executable.''])"

definition recovery_findings :: "exploration \<Rightarrow> finding list" where
  "recovery_findings e = concat (map (recovery_finding e) (sort_key fst (failure_states e)))"

text \<open>The effects of an action that reset a state.\<close>

definition rule_resets :: "interpreter \<Rightarrow> json \<Rightarrow> bool list res" where
  "rule_resets gi rule_id =
     rbind (dict_at (gi_rules gi) (id_text rule_id)) (\<lambda>rule.
     rbind (dict_at rule ''effect_ids'') (\<lambda>ids.
     rbind (iterated ids) (mapR (\<lambda>effect_id.
       rbind (dict_at (gi_effects gi) (id_text effect_id)) (\<lambda>e.
       rbind (dict_at e ''operation'') (\<lambda>operation. Inr (operation = JStr ''reset'')))))))"

definition has_reset :: "interpreter \<Rightarrow> string \<Rightarrow> bool res" where
  "has_reset gi action_id =
     rbind (dict_at (gi_actions gi) action_id) (\<lambda>action.
     rbind (dict_at action ''rule_ids'') (\<lambda>ids.
     rbind (iterated ids) (\<lambda>ids.
     rbind (mapR (rule_resets gi) ids) (\<lambda>resets. Inr (True \<in> set (concat resets))))))"

definition restart_invalid :: "interpreter \<Rightarrow> exploration \<Rightarrow> bool res" where
  "restart_invalid gi e =
     rbind (mapR (has_reset gi) (concat (map (gc_recovery_action_ids \<circ> snd) (failure_states e)))) (\<lambda>resets.
       Inr (False \<in> set resets))"

end
