(* ===== verification/ExplorationExact.thy ===== *)
theory ExplorationExact
  imports ExplorationSafety GameVerdict
begin

text \<open>
  A search that stopped without a bound is exact: where no two states that can be played have the
  same digest, its states are those that can be played, its edges the legal transitions between
  them, its depths the distances from the start, and the traces are plays. Plays are what sessions
  do: the final section turns one into the other.
\<close>

section \<open>Closed searches\<close>

text \<open>State equality is equality of digests: no two states that can be played collide.\<close>

definition collision_free :: "(string \<Rightarrow> string) \<Rightarrow> interpreter \<Rightarrow> json dict \<Rightarrow> bool" where
  "collision_free sha gi start \<longleftrightarrow>
     (\<forall>n m s t. plays sha gi start n s \<longrightarrow> plays sha gi start m t \<longrightarrow>
        canonical_state_hash sha s = canonical_state_hash sha t \<longrightarrow> s = t)"

lemma collision_freeD:
  assumes "collision_free sha gi start" and "plays sha gi start n s" and "plays sha gi start m t"
    and "canonical_state_hash sha s = Inr h" and "canonical_state_hash sha t = Inr h"
  shows "s = t"
  using assms unfolding collision_free_def by metis

text \<open>The state at a hash is the one a legal transition led to.\<close>

lemma target_state:
  assumes "states_ok sha gi start h0 e" and "session_state gi start" and "collision_free sha gi start"
    and "map_of (ex_states e) h = Some st" and "legal_step sha gi st r"
    and "map_of (ex_states e) (tr_post_state_hash r) = Some st'"
  shows "st' = tr_post_state r"
proof -
  obtain n where n: "plays sha gi start n st" using state_known [OF assms(1,4)] by blast
  obtain m where m: "plays sha gi start m st'" "canonical_state_hash sha st' = Inr (tr_post_state_hash r)"
    using state_known [OF assms(1,6)] by blast
  have "canonical_state_hash sha (tr_post_state r) = Inr (tr_post_state_hash r)"
    by (rule legal_stepE(5) [OF assms(5) plays_session_state [OF n assms(2)]])
  from collision_freeD [OF assms(3) m(1) plays_step [OF n assms(5)] m(2) this] show ?thesis .
qed

lemma graph_edge:
  assumes "graph_ok sha gi e" and "h' \<in> set (successors (ex_graph e) h)"
  obtains st r n m where "map_of (ex_states e) h = Some st" and "legal_step sha gi st r" and "tr_post_state_hash r = h'"
    and "map_of (ex_depths e) h = Some n" and "map_of (ex_depths e) h' = Some m" and "m \<le> n + 1"
proof -
  have "\<exists>st r n m. map_of (ex_states e) h = Some st \<and> legal_step sha gi st r \<and> tr_post_state_hash r = h' \<and>
      map_of (ex_depths e) h = Some n \<and> map_of (ex_depths e) h' = Some m \<and> m \<le> n + 1"
    using assms by (simp add: graph_ok_def)
  then show thesis by (elim exE conjE) (rule that)
qed

lemma settled_expanded:
  assumes "sound sha gi start h0 e" and "search_settled e" and "map_of (ex_states e) h = Some st"
  obtains rs where "map_of (ex_legal e) h = Some rs" and "complete_at sha gi e h st rs"
proof -
  have "h \<in> set (ex_expanded e)"
    using assms(2,3) by (force simp: search_settled_def dict_keys_def dest: map_of_SomeD)
  with assms(1) have "\<exists>st rs. map_of (ex_states e) h = Some st \<and> map_of (ex_legal e) h = Some rs \<and> complete_at sha gi e h st rs"
    by (simp add: sound_def expanded_ok_def)
  then show thesis using assms(3) that by auto
qed

lemma played_states_found:
  assumes "sound sha gi start h0 e" and "search_settled e" and "session_state gi start" and "collision_free sha gi start"
    and "plays sha gi start n st"
  shows "\<exists>h m. map_of (ex_states e) h = Some st \<and> map_of (ex_depths e) h = Some m \<and> m \<le> int n"
  using assms(5)
proof (induction rule: plays.induct)
  case plays_start
  then show ?case using assms(1) by (auto simp: sound_def states_ok_def)
next
  case (plays_step n st r)
  have states: "states_ok sha gi start h0 e" using assms(1) by (simp add: sound_def)
  obtain h m where h: "map_of (ex_states e) h = Some st" "map_of (ex_depths e) h = Some m" "m \<le> int n"
    using plays_step.IH by blast
  obtain rs where "complete_at sha gi e h st rs" by (rule settled_expanded [OF assms(1,2) h(1)])
  with plays_step.hyps have next_one: "dict_mem (tr_post_state_hash r) (ex_states e)"
    and edge: "tr_post_state_hash r \<in> set (successors (ex_graph e) h)"
    by (auto simp: complete_at_def)
  obtain st' where st': "map_of (ex_states e) (tr_post_state_hash r) = Some st'"
    using dict_mem_Some [OF next_one] by blast
  have "st' = tr_post_state r" by (rule target_state [OF states assms(3,4) h(1) plays_step.hyps(2) st'])
  moreover have "graph_ok sha gi e" using assms(1) by (simp add: sound_def)
  from graph_edge [OF this edge] obtain n' m' where "map_of (ex_depths e) h = Some n'"
    and "map_of (ex_depths e) (tr_post_state_hash r) = Some m'" and "m' \<le> n' + 1" .
  ultimately show ?case using st' h by (intro exI [of _ "tr_post_state_hash r"] exI [of _ m']) auto
qed

text \<open>The explored states with their depths are exactly the playable ones with their distances.\<close>

definition distance_to :: "(string \<Rightarrow> string) \<Rightarrow> interpreter \<Rightarrow> json dict \<Rightarrow> json dict \<Rightarrow> nat \<Rightarrow> bool" where
  "distance_to sha gi start st n \<longleftrightarrow> plays sha gi start n st \<and> (\<forall>m. plays sha gi start m st \<longrightarrow> n \<le> m)"

lemma same_hash:
  assumes "states_ok sha gi start h0 e" and "map_of (ex_states e) h = Some st" and "map_of (ex_states e) k = Some st"
  shows "h = k"
  using state_known [OF assms(1,2)] state_known [OF assms(1,3)] by (metis sum.inject(2))

lemma explored_exactly:
  assumes "sound sha gi start h0 e" and "search_settled e" and "session_state gi start" and "collision_free sha gi start"
  shows "(\<exists>h. map_of (ex_states e) h = Some st \<and> map_of (ex_depths e) h = Some (int n)) \<longleftrightarrow> distance_to sha gi start st n"
proof
  have states: "states_ok sha gi start h0 e" using assms(1) by (simp add: sound_def)
  {
    assume "\<exists>h. map_of (ex_states e) h = Some st \<and> map_of (ex_depths e) h = Some (int n)"
    then obtain h where h: "map_of (ex_states e) h = Some st" "map_of (ex_depths e) h = Some (int n)" by blast
    have "plays sha gi start n st" by (rule state_known [OF states h(1)]) (use h(2) in simp)
    moreover have "n \<le> m" if play: "plays sha gi start m st" for m
    proof -
      obtain k d where "map_of (ex_states e) k = Some st" "map_of (ex_depths e) k = Some d" "d \<le> int m"
        using played_states_found [OF assms play] by blast
      with same_hash [OF states h(1)] h(2) show ?thesis by auto
    qed
    ultimately show "distance_to sha gi start st n" by (simp add: distance_to_def)
  }
  assume dist: "distance_to sha gi start st n"
  then have "plays sha gi start n st" by (simp add: distance_to_def)
  from played_states_found [OF assms this] obtain h d where
    h: "map_of (ex_states e) h = Some st" "map_of (ex_depths e) h = Some d" "d \<le> int n" by blast
  obtain m where "map_of (ex_depths e) h = Some (int m)" "plays sha gi start m st"
    using state_known [OF states h(1)] by blast
  with h dist have "d = int n" by (auto simp: distance_to_def)
  with h show "\<exists>h. map_of (ex_states e) h = Some st \<and> map_of (ex_depths e) h = Some (int n)" by blast
qed

section \<open>Traces\<close>

text \<open>The steps of a play, as the analyzer writes them.\<close>

inductive traced :: "(string \<Rightarrow> bool) \<Rightarrow> (string \<Rightarrow> string) \<Rightarrow> interpreter \<Rightarrow> json dict \<Rightarrow> json dict list \<Rightarrow> json dict \<Rightarrow> bool"
  for nfc sha gi start where
  traced_start: "traced nfc sha gi start [] start"
| traced_step: "traced nfc sha gi start steps st \<Longrightarrow> legal_step sha gi st r \<Longrightarrow> canonical_trace_step nfc sha r = Inr final \<Longrightarrow>
    traced nfc sha gi start (steps @ [final]) (tr_post_state r)"

lemma traced_plays: "traced nfc sha gi start steps st \<Longrightarrow> plays sha gi start (length steps) st"
  by (induction rule: traced.induct) (auto intro: plays_start plays_step)

lemma trace_from_traced:
  assumes "states_ok sha gi start h0 e" and "trace_from fuel nfc sha (ex_parents e) h = Inr steps"
  shows "\<exists>st. map_of (ex_states e) h = Some st \<and> map_of (ex_depths e) h = Some (int (length steps)) \<and>
    traced nfc sha gi start steps st"
  using assms(2)
proof (induction fuel arbitrary: h steps)
  case (Suc fuel)
  obtain p where p: "map_of (ex_parents e) h = Some p" using Suc.prems by auto
  have ok: "parent_ok sha gi h0 e h p" using assms(1) p by (simp add: states_ok_def)
  show ?case
  proof (cases p)
    case None
    then have "steps = []" using Suc.prems p by (simp add: dict_at_Inr [THEN iffD2, OF p])
    moreover have "h = h0" using ok None by (simp add: parent_ok_def)
    ultimately show ?thesis using assms(1) traced_start by (auto simp: states_ok_def)
  next
    case (Some q)
    obtain source r where q: "q = (source, r)" by (cases q)
    obtain final rest where final: "canonical_trace_step nfc sha r = Inr final"
      and rest: "trace_from fuel nfc sha (ex_parents e) source = Inr rest" and steps: "steps = rest @ [final]"
      using Suc.prems p Some q by (auto simp: dict_at_Inr [THEN iffD2, OF p])
    obtain st where st: "map_of (ex_states e) source = Some st"
      "map_of (ex_depths e) source = Some (int (length rest))" "traced nfc sha gi start rest st"
      using Suc.IH [OF rest] by blast
    from ok Some q st obtain step: "legal_step sha gi st r" and "map_of (ex_states e) h = Some (tr_post_state r)"
      and "map_of (ex_depths e) h = Some (int (length rest) + 1)"
      by (auto simp: parent_ok_def)
    with traced_step [OF st(3) step final] steps show ?thesis by (auto simp: algebra_simps)
  qed
qed simp

text \<open>The fuel suffices, as a chain of parents is as long as the depth of its state.\<close>

lemma trace_from_total:
  assumes "states_ok sha gi start h0 e"
    and "\<And>st r. legal_step sha gi st r \<Longrightarrow> \<exists>final. canonical_trace_step nfc sha r = Inr final"
    and "map_of (ex_depths e) h = Some (int n)" and "n < fuel"
  shows "\<exists>steps. trace_from fuel nfc sha (ex_parents e) h = Inr steps"
  using assms(3,4)
proof (induction n arbitrary: h fuel)
  case (0 h fuel)
  then obtain fuel' where fuel: "fuel = Suc fuel'" by (cases fuel) auto
  obtain p where p: "map_of (ex_parents e) h = Some p"
    using 0 assms(1) by (metis (mono_tags) dict_mem_Some dict_mem_def dict_mem_keys option.distinct(1) states_ok_def)
  have ok: "parent_ok sha gi h0 e h p" using assms(1) p by (simp add: states_ok_def)
  show ?case
  proof (cases p)
    case None
    then show ?thesis by (simp add: fuel dict_at_Inr [THEN iffD2, OF p])
  next
    case (Some q)
    then obtain source r n st where n: "map_of (ex_states e) source = Some st" "map_of (ex_depths e) source = Some n"
      "map_of (ex_depths e) h = Some (n + 1)" using ok by (auto simp: parent_ok_def split: prod.splits)
    obtain m where "n = int m" by (rule state_known [OF assms(1) n(1)]) (use n in auto)
    with n 0 show ?thesis by simp
  qed
next
  case (Suc n h fuel)
  then obtain fuel' where fuel: "fuel = Suc fuel'" by (cases fuel) auto
  obtain p where p: "map_of (ex_parents e) h = Some p"
    using Suc assms(1) by (metis (mono_tags) dict_mem_Some dict_mem_def dict_mem_keys option.distinct(1) states_ok_def)
  have ok: "parent_ok sha gi h0 e h p" using assms(1) p by (simp add: states_ok_def)
  show ?case
  proof (cases p)
    case None
    then show ?thesis by (simp add: fuel dict_at_Inr [THEN iffD2, OF p])
  next
    case (Some q)
    obtain source r where q: "q = (source, r)" by (cases q)
    from ok Some q obtain st m where st: "legal_step sha gi st r" "map_of (ex_depths e) source = Some m"
      "map_of (ex_depths e) h = Some (m + 1)" by (auto simp: parent_ok_def)
    then have "map_of (ex_depths e) source = Some (int n)" using Suc.prems by auto
    from Suc.IH [OF this, of fuel'] obtain rest where "trace_from fuel' nfc sha (ex_parents e) source = Inr rest"
      using Suc.prems fuel by auto
    moreover obtain final where "canonical_trace_step nfc sha r = Inr final" using assms(2) [OF st(1)] by blast
    ultimately show ?thesis by (simp add: fuel dict_at_Inr [THEN iffD2, OF p] Some q)
  qed
qed

section \<open>Walking against the edges\<close>

definition edges_of :: "string list dict \<Rightarrow> (string \<times> string) set" where
  "edges_of graph = {(h, h'). h' \<in> set (successors graph h)}"

lemma climb_back_exact:
  assumes "set queue \<subseteq> set known" and "\<And>t. t \<in> set known \<Longrightarrow> t \<notin> set queue \<Longrightarrow> set (successors edges t) \<subseteq> set known"
  shows "set (climb_back edges queue known) = (edges_of edges)\<^sup>* `` set known"
  using assms
proof (induction edges queue known rule: climb_back.induct)
  case (1 edges known)
  then have "edges_of edges `` set known \<subseteq> set known" by (auto simp: edges_of_def)
  then show ?case by (simp add: Image_closed_trancl)
next
  case (2 edges target queue known)
  define found where "found = new_sources edges target known"
  have new: "set found = set (successors edges target) - set known" by (auto simp: found_def new_sources_def)
  have "set (climb_back edges (queue @ found) (known @ found)) = (edges_of edges)\<^sup>* `` set (known @ found)"
  proof (rule 2(1) [OF found_def])
    show "set (queue @ found) \<subseteq> set (known @ found)" using 2(2) by auto
    fix t assume "t \<in> set (known @ found)" and "t \<notin> set (queue @ found)"
    then have "t \<in> set known" "t \<notin> set queue" by auto
    then show "set (successors edges t) \<subseteq> set (known @ found)"
      using 2(3) [of t] new by (cases "t = target") auto
  qed
  also have "\<dots> = (edges_of edges)\<^sup>* `` set known"
  proof -
    have "set found \<subseteq> edges_of edges `` set known" using new 2(2) by (auto simp: edges_of_def)
    then show ?thesis by (auto intro: converse_rtrancl_into_rtrancl)
  qed
  finally show ?case by (simp add: found_def Let_def)
qed

lemma can_reach_exact: "set (can_reach edges ts) = (edges_of edges)\<^sup>* `` set ts"
  unfolding can_reach_def by (rule climb_back_exact) simp_all

lemma reverse_targets:
  "h \<in> set (successors (foldl (\<lambda>edges target. add_edge target source edges) edges targets) t) \<longleftrightarrow>
     h \<in> set (successors edges t) \<or> h = source \<and> t \<in> set targets"
  by (induction targets arbitrary: edges) auto

lemma reverse_items:
  "h \<in> set (successors (foldl (\<lambda>edges (source, targets). foldl (\<lambda>edges target. add_edge target source edges) edges targets) edges items) t) \<longleftrightarrow>
     h \<in> set (successors edges t) \<or> (\<exists>targets. (h, targets) \<in> set items \<and> t \<in> set targets)"
proof (induction items arbitrary: edges)
  case (Cons item items)
  then show ?case by (cases item) (auto simp: reverse_targets)
qed simp

lemma reverse_graph_edges:
  assumes "graph_ok sha gi e"
  shows "edges_of (reverse_graph e) = (edges_of (ex_graph e))\<inverse>"
proof -
  have none: "successors (map (\<lambda>(h, _). (h, [])) (xs :: json dict dict)) t = []" for t xs
    by (induction xs) (auto simp: successors_def)
  have "distinct (map fst (ex_graph e))" using assms by (simp add: graph_ok_def dict_keys_def)
  then have item: "(h, targets) \<in> set (ex_graph e) \<longleftrightarrow> map_of (ex_graph e) h = Some targets" for h targets
    by simp
  have item: "(\<exists>targets. (h, targets) \<in> set (ex_graph e) \<and> t \<in> set targets) \<longleftrightarrow> t \<in> set (successors (ex_graph e) h)" for h t
    unfolding item by (cases "map_of (ex_graph e) h") (simp_all add: successors_def)
  show ?thesis
    unfolding edges_of_def reverse_graph_def reverse_items none item by auto
qed

lemma climbs_exactly:
  assumes "graph_ok sha gi e"
  shows "h \<in> set (can_reach (reverse_graph e) ts) \<longleftrightarrow> (\<exists>t \<in> set ts. (h, t) \<in> (edges_of (ex_graph e))\<^sup>*)"
  unfolding can_reach_exact reverse_graph_edges [OF assms] by (auto simp: rtrancl_converse)

text \<open>Paths of the graph are plays, and on a closed search every play is a path.\<close>

lemma path_plays:
  assumes "sound sha gi start h0 e" and "session_state gi start" and "collision_free sha gi start"
    and "(h, t) \<in> (edges_of (ex_graph e))\<^sup>*" and "map_of (ex_states e) h = Some st"
  shows "\<exists>k st'. plays sha gi st k st' \<and> map_of (ex_states e) t = Some st'"
  using assms(4)
proof (induction rule: rtrancl_induct)
  case base
  then show ?case using assms(5) plays_start by blast
next
  case (step t t')
  have ok: "states_ok sha gi start h0 e" "graph_ok sha gi e" using assms(1) by (simp_all add: sound_def)
  obtain k s where s: "plays sha gi st k s" "map_of (ex_states e) t = Some s" using step.IH by blast
  have "t' \<in> set (successors (ex_graph e) t)" using step.hyps(2) by (simp add: edges_of_def)
  then obtain s' r n m where r: "map_of (ex_states e) t = Some s'" "legal_step sha gi s' r" "tr_post_state_hash r = t'"
    "map_of (ex_depths e) t' = Some m" by (rule graph_edge [OF ok(2)])
  then have "dict_mem t' (ex_depths e)" by (simp add: dict_mem_def)
  then have "dict_mem t' (ex_states e)" using ok(1) by (simp add: states_ok_def dict_mem_keys)
  then obtain u where u: "map_of (ex_states e) t' = Some u" by (rule dict_mem_Some [THEN exE])
  have "legal_step sha gi s r" using r s(2) by simp
  moreover from target_state [OF ok(1) assms(2,3) s(2) this] u r(3) have "u = tr_post_state r" by simp
  ultimately show ?case using plays_step [OF s(1)] u by blast
qed

lemma plays_trans: "plays sha gi start n st \<Longrightarrow> plays sha gi st k st' \<Longrightarrow> plays sha gi start (n + k) st'"
proof (rotate_tac, induction rule: plays.induct)
  case (plays_step k st' r)
  then show ?case using plays.plays_step [of sha gi start "n + k" st' r] by simp
qed simp

lemma play_is_path:
  assumes "sound sha gi start h0 e" and "search_settled e" and "session_state gi start" and "collision_free sha gi start"
    and "map_of (ex_states e) h = Some st" and "plays sha gi st k st'"
  shows "\<exists>t. map_of (ex_states e) t = Some st' \<and> (h, t) \<in> (edges_of (ex_graph e))\<^sup>*"
  using assms(6)
proof (induction rule: plays.induct)
  case plays_start
  then show ?case using assms(5) by blast
next
  case (plays_step k s r)
  have ok: "states_ok sha gi start h0 e" using assms(1) by (simp add: sound_def)
  obtain t where t: "map_of (ex_states e) t = Some s" "(h, t) \<in> (edges_of (ex_graph e))\<^sup>*" using plays_step.IH by blast
  obtain rs where "complete_at sha gi e t s rs" by (rule settled_expanded [OF assms(1,2) t(1)])
  with plays_step.hyps(2) have next_one: "dict_mem (tr_post_state_hash r) (ex_states e)"
    and edge: "(t, tr_post_state_hash r) \<in> edges_of (ex_graph e)"
    by (auto simp: complete_at_def edges_of_def)
  obtain u where u: "map_of (ex_states e) (tr_post_state_hash r) = Some u" using dict_mem_Some [OF next_one] by blast
  have "u = tr_post_state r" by (rule target_state [OF ok assms(3,4) t(1) plays_step.hyps(2) u])
  with u t(2) edge show ?case by (blast intro: rtrancl_into_rtrancl)
qed

section \<open>Sessions\<close>

text \<open>Whatever actions a session applies, it plays; and every play is the run of a session.\<close>

lemma session_runs_play:
  assumes "analysable nfc gi start" and "clean_parameters (gi_actions gi)"
    and "foldR (session_step sha gi) start cs = Inr st"
  shows "\<exists>n \<le> length cs. plays sha gi start n st"
  using assms(3)
proof (induction cs arbitrary: st rule: rev_induct)
  case Nil
  then show ?case using plays_start by auto
next
  case (snoc c cs)
  then obtain mid where mid: "foldR (session_step sha gi) start cs = Inr mid" and step: "session_step sha gi mid c = Inr st"
    by (auto simp: foldR_append)
  obtain n where n: "n \<le> length cs" "plays sha gi start n mid" using snoc.IH [OF mid] by blast
  obtain r where r: "transition_strict sha gi mid c = Inr r" and st: "st = (if tr_accepted r then tr_post_state r else mid)"
    using step by (auto simp: session_step_def apply_action_def snapshot_strict_candidate_def)
  show ?case
  proof (cases "tr_accepted r")
    case True
    have gi: "constructed gi" "list_all bounded_candidate (gi_candidates gi)" using assms(1) by (simp_all add: analysable_def)
    have cand: "tr_action r \<in> set (gi_candidates gi)" by (rule committed_candidate [OF gi(1) r True])
    then have "snapshot_strict_candidate (tr_action r) = Inr (tr_action r)"
      using gi(2) by (auto simp: list_all_iff intro: bounded_candidateD)
    with committed_again [OF gi(1) assms(2) r True] r have "transition_strict sha gi mid (tr_action r) = Inr r"
      by (auto simp: transition_strict_def snapshot_strict_state_def)
    with cand True have "legal_step sha gi mid r" by (auto simp: legal_step_def)
    from plays_step [OF n(2) this] n(1) True st show ?thesis by (intro exI [of _ "Suc n"]) simp
  next
    case False
    with n st show ?thesis by (intro exI [of _ n]) simp
  qed
qed

lemma plays_session_run:
  assumes "list_all bounded_candidate (gi_candidates gi)" and "plays sha gi start n st"
  shows "\<exists>cs. length cs = n \<and> set cs \<subseteq> set (gi_candidates gi) \<and> foldR (session_step sha gi) start cs = Inr st"
  using assms(2)
proof (induction rule: plays.induct)
  case plays_start
  show ?case by simp
next
  case (plays_step n st r)
  then obtain cs where cs: "length cs = n" "set cs \<subseteq> set (gi_candidates gi)" "foldR (session_step sha gi) start cs = Inr st"
    by blast
  obtain c where c: "c \<in> set (gi_candidates gi)" "transition_strict sha gi st c = Inr r" "tr_accepted r"
    using plays_step.hyps(2) by (auto simp: legal_step_def)
  then have "snapshot_strict_candidate c = Inr c" using assms(1) by (auto simp: list_all_iff intro: bounded_candidateD)
  then have "session_step sha gi st c = Inr (tr_post_state r)"
    using c by (simp add: session_step_def apply_action_def)
  with cs c(1) show ?case by (intro exI [of _ "cs @ [c]"]) (simp add: foldR_append)
qed

end
