(* ===== verification/GameReport.thy ===== *)
theory GameReport
  imports GameVerdict
begin

text \<open>
  The rest of \<open>analyze_gamepack\<close> in \<open>src/worldforge/game_analysis.py\<close>: the coverage of a branching
  narrative, the findings and checks of both profiles, the witnesses, and the report with its status.
  The gamepack is one that \<open>validate_gamepack_document\<close> accepted.
\<close>

section \<open>Branching narratives\<close>

definition asserted_obj :: "json \<Rightarrow> json dict res" where
  "asserted_obj j = (case j of JObj m \<Rightarrow> Inr m | _ \<Rightarrow> Inl AssertionError)"

definition asserted_arr :: "json \<Rightarrow> json list res" where
  "asserted_arr j = (case j of JArr xs \<Rightarrow> Inr xs | _ \<Rightarrow> Inl AssertionError)"

record narrative_contract =
  nc_units :: "string list"
  nc_options :: "((string \<times> string) \<times> string) list"
  nc_endings :: "string list"

definition add_option :: "string \<Rightarrow> narrative_contract \<Rightarrow> json \<Rightarrow> narrative_contract res" where
  "add_option unit_id nc j =
     rbind (asserted_obj j) (\<lambda>option.
     rbind (dict_at option ''next_unit_id'') (\<lambda>next_unit.
     rbind (dict_at option ''id'') (\<lambda>option_id.
       Inr (nc\<lparr>nc_options := AList.update (unit_id, id_text option_id) (id_text next_unit) (nc_options nc)\<rparr>))))"

definition add_unit :: "narrative_contract \<Rightarrow> json \<Rightarrow> narrative_contract res" where
  "add_unit nc j =
     rbind (asserted_obj j) (\<lambda>unit.
     rbind (dict_at unit ''id'') (\<lambda>unit_id.
     rbind (dict_at unit ''unit_type'') (\<lambda>unit_type.
     rbind (asserted_arr (obj_get_or unit ''options'' (JArr []))) (\<lambda>options.
       let i = id_text unit_id in
       foldR (add_option i)
         (nc\<lparr>nc_units := List.insert i (nc_units nc),
             nc_endings := if unit_type = JStr ''ending'' then List.insert i (nc_endings nc) else nc_endings nc\<rparr>)
         options))))"

definition add_projection :: "narrative_contract \<Rightarrow> json \<Rightarrow> narrative_contract res" where
  "add_projection nc j =
     rbind (asserted_obj j) (\<lambda>projection.
     rbind (dict_at projection ''units'') (\<lambda>units.
     rbind (asserted_arr units) (foldR add_unit nc)))"

definition read_narrative_contract :: "json dict \<Rightarrow> narrative_contract res" where
  "read_narrative_contract pack =
     rbind (dict_at pack ''modules'') (\<lambda>modules.
     rbind (asserted_obj modules) (\<lambda>modules.
     rbind (dict_at modules ''narrative'') (\<lambda>projections.
     rbind (asserted_arr projections) (foldR add_projection \<lparr>nc_units = [], nc_options = [], nc_endings = []\<rparr>))))"

text \<open>What of the narrative the search came by; \<open>reached_units\<close> are the keys of \<open>reached_unit_states\<close>.\<close>

record narrative_reach =
  nr_unit_states :: "string dict"
  nr_options :: "(string \<times> string) list"
  nr_option_states :: "string dict"
  nr_option_traces :: "json dict list dict"

definition option_text :: "string \<times> string \<Rightarrow> string" where
  "option_text key = fst key @ '':'' @ snd key"

definition reach_option ::
  "(string \<Rightarrow> bool) \<Rightarrow> (string \<Rightarrow> string) \<Rightarrow> exploration \<Rightarrow> json dict dict \<Rightarrow> string \<Rightarrow>
     narrative_reach \<Rightarrow> transition_result \<Rightarrow> narrative_reach res" where
  "reach_option nfc sha e contracts h nr r =
     (if \<not> dict_mem (tr_post_state_hash r) (ex_states e) then Inr nr
      else
        case map_of contracts (ca_action_id (tr_action r)) of
          None \<Rightarrow> Inr nr
        | Some contract \<Rightarrow>
            rbind (dict_at contract ''source_unit_id'') (\<lambda>unit_id.
            rbind (dict_at contract ''option_id'') (\<lambda>option_id.
            rbind (trace nfc sha e h) (\<lambda>steps.
            rbind (canonical_trace_step nfc sha r) (\<lambda>last.
              let key = (id_text unit_id, id_text option_id) in
              Inr (nr\<lparr>nr_options := List.insert key (nr_options nr),
                      nr_option_states := set_default (option_text key) (tr_post_state_hash r) (nr_option_states nr),
                      nr_option_traces := set_default (option_text key) (steps @ [last]) (nr_option_traces nr)\<rparr>))))))"

definition reach_unit ::
  "(string \<Rightarrow> bool) \<Rightarrow> (string \<Rightarrow> string) \<Rightarrow> exploration \<Rightarrow> json dict dict \<Rightarrow> string \<Rightarrow>
     narrative_reach \<Rightarrow> string \<times> json dict \<Rightarrow> narrative_reach res" where
  "reach_unit nfc sha e contracts cursor_id nr entry =
     (case entry of (h, st) \<Rightarrow>
      rbind (dict_at st cursor_id) (\<lambda>cursor_value.
        foldR (reach_option nfc sha e contracts h)
          (case cursor_value of
             JStr i \<Rightarrow> nr\<lparr>nr_unit_states := set_default i h (nr_unit_states nr)\<rparr> | _ \<Rightarrow> nr)
          (legal_at e h)))"

definition transition_contracts :: "interpreter \<Rightarrow> json dict dict res" where
  "transition_contracts gi =
     rbind (mapR (\<lambda>item. rbind (dict_at item ''action_id'') (\<lambda>i. Inr (id_text i, item))) (gi_transitions gi))
       (\<lambda>items. Inr (dict_of items))"

definition no_reach :: narrative_reach where
  "no_reach = \<lparr>nr_unit_states = [], nr_options = [], nr_option_states = [], nr_option_traces = []\<rparr>"

definition reach_narrative ::
  "(string \<Rightarrow> bool) \<Rightarrow> (string \<Rightarrow> string) \<Rightarrow> interpreter \<Rightarrow> exploration \<Rightarrow> narrative_reach res" where
  "reach_narrative nfc sha gi e =
     rbind (dict_at (gi_logic gi) ''narrative_cursor'') (\<lambda>cursor.
     rbind (asserted_obj cursor) (\<lambda>cursor.
     rbind (dict_at cursor ''id'') (\<lambda>cursor_id.
     rbind (transition_contracts gi) (\<lambda>contracts.
       foldR (reach_unit nfc sha e contracts (id_text cursor_id)) no_reach (ex_states e)))))"

section \<open>Checks\<close>

record analysis_check =
  ck_id :: string
  ck_status :: string
  ck_reason_codes :: "string list"

definition make_check :: "string \<Rightarrow> string \<Rightarrow> string list \<Rightarrow> analysis_check" where
  "make_check i status reasons = \<lparr>ck_id = i, ck_status = status, ck_reason_codes = sort (remdups reasons)\<rparr>"

text \<open>\<open>proof_check\<close>, and the checks that fail on evidence and pass on a closed graph.\<close>

definition proof_check :: "bool \<Rightarrow> string \<Rightarrow> string \<Rightarrow> bool \<Rightarrow> string \<Rightarrow> analysis_check" where
  "proof_check closed incomplete i proved failure =
     (if proved then make_check i ''passed'' []
      else if closed then make_check i ''failed'' [failure]
      else make_check i ''inconclusive'' [incomplete])"

definition evidence_check :: "bool \<Rightarrow> string \<Rightarrow> string \<Rightarrow> bool \<Rightarrow> string \<Rightarrow> analysis_check" where
  "evidence_check closed incomplete i refuted failure =
     (if refuted then make_check i ''failed'' [failure]
      else if closed then make_check i ''passed'' []
      else make_check i ''inconclusive'' [incomplete])"

section \<open>Witnesses\<close>

record witness =
  wi_id :: string
  wi_kind :: string
  wi_target_id :: string
  wi_steps :: "json dict list"

definition witness_name :: "nat \<Rightarrow> string" where
  "witness_name n = (let digits = dec (int n) in ''witness_'' @ replicate (4 - length digits) (CHR ''0'') @ digits)"

definition witness_steps ::
  "(string \<Rightarrow> bool) \<Rightarrow> (string \<Rightarrow> string) \<Rightarrow> exploration \<Rightarrow> json dict list dict \<Rightarrow> string \<times> string \<times> string \<Rightarrow>
     json dict list res" where
  "witness_steps nfc sha e explicit target =
     (case target of (kind, target_id, h) \<Rightarrow>
      case (if kind = ''narrative_option'' then map_of explicit target_id else None) of
        Some steps \<Rightarrow> Inr steps
      | None \<Rightarrow> trace nfc sha e h)"

text \<open>The flag tells that a bound on the evidence was reached.\<close>

fun add_witnesses ::
  "(string \<Rightarrow> bool) \<Rightarrow> (string \<Rightarrow> string) \<Rightarrow> exploration \<Rightarrow> json dict list dict \<Rightarrow> (string \<times> string \<times> string) list \<Rightarrow>
     witness list \<Rightarrow> int \<Rightarrow> (witness list \<times> bool) res" where
  "add_witnesses nfc sha e explicit [] ws total_steps = Inr (ws, False)"
| "add_witnesses nfc sha e explicit (target # targets) ws total_steps =
     rbind (witness_steps nfc sha e explicit target) (\<lambda>steps.
       if analysis_limit ''witness_traces'' \<le> int (length ws) \<or>
          analysis_limit ''total_witness_steps'' < total_steps + int (length steps)
       then Inr (ws, True)
       else
         add_witnesses nfc sha e explicit targets
           (ws @ [\<lparr>wi_id = witness_name (length ws + 1), wi_kind = fst target, wi_target_id = fst (snd target),
                   wi_steps = steps\<rparr>])
           (total_steps + int (length steps)))"

definition build_witnesses ::
  "(string \<Rightarrow> bool) \<Rightarrow> (string \<Rightarrow> string) \<Rightarrow> exploration \<Rightarrow> json dict list dict \<Rightarrow> (string \<times> string \<times> string) list \<Rightarrow>
     (witness list \<times> bool) res" where
  "build_witnesses nfc sha e explicit targets =
     add_witnesses nfc sha e explicit (sort (remdups targets)) [] 0"

definition witness_ids :: "witness list \<Rightarrow> ((string \<times> string) \<times> string) list" where
  "witness_ids ws = dict_of (map (\<lambda>w. ((wi_kind w, wi_target_id w), wi_id w)) ws)"

definition assign_witness :: "((string \<times> string) \<times> string) list \<Rightarrow> finding \<Rightarrow> finding" where
  "assign_witness ids f =
     (case map_of ids (fi_subject_kind f, fi_subject_id f) of
        Some i \<Rightarrow> f\<lparr>fi_witness_id := Some i\<rparr>
      | None \<Rightarrow>
          (case fi_state_hash f of
             Some h \<Rightarrow> f\<lparr>fi_witness_id := map_of ids (''state'', h)\<rparr>
           | None \<Rightarrow> f))"

section \<open>Evidence\<close>

text \<open>What the search established, gathered once for the findings and the checks.\<close>

record evidence =
  ev_explored :: exploration
  ev_profile :: string
  ev_authored_goals :: "string list"
  ev_authored_endings :: "string list"
  ev_goals :: "string dict"
  ev_endings :: "string dict"
  ev_terminal :: "string list"
  ev_can_end :: "string list"
  ev_can_succeed :: "string list"
  ev_contract :: narrative_contract
  ev_reach :: narrative_reach
  ev_restart_invalid :: bool

definition proof_graph_closed :: "exploration \<Rightarrow> bool" where
  "proof_graph_closed e \<longleftrightarrow> frontier_closed e \<and> ex_integrity e = []"

definition terminal_states :: "exploration \<Rightarrow> string list res" where
  "terminal_states e = rbind (filterR (terminal \<circ> snd) (ex_classifications e)) (\<lambda>cs. Inr (map fst cs))"

definition success_states :: "exploration \<Rightarrow> string list" where
  "success_states e = map fst (filter (\<lambda>(_, c). gc_ending_kind c = Some ''success'') (ex_classifications e))"

definition no_contract :: narrative_contract where
  "no_contract = \<lparr>nc_units = [], nc_options = [], nc_endings = []\<rparr>"

definition gather_evidence ::
  "(string \<Rightarrow> bool) \<Rightarrow> (string \<Rightarrow> string) \<Rightarrow> interpreter \<Rightarrow> string \<Rightarrow> exploration \<Rightarrow> evidence res" where
  "gather_evidence nfc sha gi profile e =
     rbind (authored_ids (gi_goals gi)) (\<lambda>goals.
     rbind (authored_ids (gi_endings gi)) (\<lambda>endings.
     rbind (terminal_states e) (\<lambda>ended.
     rbind (if profile = ''branching_narrative'' then read_narrative_contract (gi_gamepack gi) else Inr no_contract) (\<lambda>contract.
     rbind (if profile = ''branching_narrative'' then reach_narrative nfc sha gi e else Inr no_reach) (\<lambda>reach.
     rbind (if profile = ''abstract_puzzle'' then restart_invalid gi e else Inr False) (\<lambda>invalid.
       Inr \<lparr>ev_explored = e, ev_profile = profile, ev_authored_goals = goals, ev_authored_endings = endings,
            ev_goals = first_reached gc_goal_ids e, ev_endings = first_reached gc_ending_ids e, ev_terminal = ended,
            ev_can_end = can_reach (reverse_graph e) ended,
            ev_can_succeed = can_reach (reverse_graph e) (success_states e),
            ev_contract = contract, ev_reach = reach, ev_restart_invalid = invalid\<rparr>))))))"

definition softlocks :: "evidence \<Rightarrow> string list" where
  "softlocks ev =
     (let e = ev_explored ev in
      filter (\<lambda>h. h \<notin> set (ev_terminal ev) \<and> h \<in> set (ex_expanded e) \<and> legal_at e h = [])
        (dict_keys (ex_classifications e)))"

definition traps :: "evidence \<Rightarrow> string list" where
  "traps ev =
     (let e = ev_explored ev in
      filter (\<lambda>h. h \<notin> set (ev_terminal ev) \<and> proof_graph_closed e \<and> h \<notin> set (ev_can_end ev))
        (dict_keys (ex_classifications e)))"

definition reached_narrative_endings :: "evidence \<Rightarrow> nat" where
  "reached_narrative_endings ev =
     card (set (dict_keys (ev_endings ev)) \<inter> set (nc_endings (ev_contract ev)))"

section \<open>Findings of the analysis\<close>

definition unreachable_findings :: "evidence \<Rightarrow> finding list" where
  "unreachable_findings ev =
     (if proof_graph_closed (ev_explored ev)
      then map (\<lambda>i. make_finding ''authored_goal_unreachable'' ''goal'' i None
                  ''The authored goal is not reachable within the closed state graph.'')
             (missing (ev_authored_goals ev) (ev_goals ev)) @
           map (\<lambda>i. make_finding ''authored_ending_unreachable'' ''ending'' i None
                  ''The authored ending is not reachable within the closed state graph.'')
             (missing (ev_authored_endings ev) (ev_endings ev))
      else [])"

definition dead_end_findings :: "evidence \<Rightarrow> finding list" where
  "dead_end_findings ev =
     map (\<lambda>h. state_finding ''nonterminal_softlock'' h ''A reachable nonterminal state has zero legal actions.'')
       (sort (softlocks ev)) @
     map (\<lambda>h. state_finding ''nonterminal_terminal_trap'' h ''A reachable nonterminal state cannot reach an authored ending.'')
       (sort (filter (\<lambda>h. h \<notin> set (softlocks ev)) (remdups (traps ev))))"

definition narrative_findings :: "string \<Rightarrow> evidence \<Rightarrow> finding list" where
  "narrative_findings game_id ev =
     (if ev_profile ev = ''branching_narrative'' \<and> proof_graph_closed (ev_explored ev)
      then map (\<lambda>i. make_finding ''narrative_unit_unreachable'' ''narrative_unit'' i None
                  ''The authored narrative unit is not cursor-reachable.'')
             (missing (nc_units (ev_contract ev)) (nr_unit_states (ev_reach ev))) @
           map (\<lambda>key. make_finding ''narrative_option_unreachable'' ''narrative_option'' (option_text key) None
                  ''The authored narrative option is never executable.'')
             (sort (filter (\<lambda>key. key \<notin> set (nr_options (ev_reach ev))) (dict_keys (nc_options (ev_contract ev))))) @
           (if reached_narrative_endings ev < 2
            then [make_finding ''distinct_endings_insufficient'' ''game'' game_id None
                    ''Branching narrative analysis requires at least two reachable endings.'']
            else [])
      else [])"

definition restart_findings :: "string \<Rightarrow> evidence \<Rightarrow> finding list" where
  "restart_findings game_id ev =
     (if ev_restart_invalid ev
      then [make_finding ''recovery_reset_not_declared'' ''game'' game_id None
              ''A puzzle recovery action has no explicit reset effect.'']
      else [])"

definition analysis_findings :: "string \<Rightarrow> evidence \<Rightarrow> finding list" where
  "analysis_findings game_id ev =
     ex_integrity (ev_explored ev) @ unreachable_findings ev @ dead_end_findings ev @
     recovery_findings (ev_explored ev) @ narrative_findings game_id ev @ restart_findings game_id ev"

section \<open>Checks of the analysis\<close>

definition incomplete_reason :: "exploration \<Rightarrow> string" where
  "incomplete_reason e =
     (case ex_bound_reason e of Some reason \<Rightarrow> reason | None \<Rightarrow> ''execution_integrity_failed'')"

definition frontier_check :: "exploration \<Rightarrow> analysis_check" where
  "frontier_check e =
     make_check ''frontier_closed'' (if frontier_closed e then ''passed'' else ''inconclusive'')
       (if frontier_closed e then []
        else [case ex_bound_reason e of Some reason \<Rightarrow> reason | None \<Rightarrow> ''analysis_bound_reached''])"

definition integrity_check :: "exploration \<Rightarrow> analysis_check" where
  "integrity_check e =
     make_check ''execution_integrity'' (if ex_integrity e = [] then ''passed'' else ''failed'')
       (map fi_reason_code (ex_integrity e))"

definition common_checks :: "evidence \<Rightarrow> analysis_check list" where
  "common_checks ev =
     (let e = ev_explored ev; closed = proof_graph_closed e; incomplete = incomplete_reason e in
      [frontier_check e, integrity_check e,
       proof_check closed incomplete ''authored_goals_reachable''
         (set (ev_authored_goals ev) \<subseteq> set (dict_keys (ev_goals ev))) ''authored_goal_unreachable'',
       proof_check closed incomplete ''authored_endings_reachable''
         (set (ev_authored_endings ev) \<subseteq> set (dict_keys (ev_endings ev))) ''authored_ending_unreachable'',
       evidence_check closed incomplete ''failure_recovery'' (recovery_findings e \<noteq> []) ''failure_recovery_invalid'',
       evidence_check closed incomplete ''nonterminal_softlocks'' (softlocks ev \<noteq> []) ''nonterminal_softlock'',
       proof_check closed incomplete ''terminal_reachability'' (traps ev = [] \<and> closed) ''nonterminal_terminal_trap''])"

definition puzzle_checks :: "string \<Rightarrow> evidence \<Rightarrow> analysis_check list" where
  "puzzle_checks start_hash ev =
     (let e = ev_explored ev; closed = proof_graph_closed e; incomplete = incomplete_reason e in
      [proof_check closed incomplete ''initial_solvable'' (start_hash \<in> set (ev_can_succeed ev)) ''initial_state_unsolvable'',
       evidence_check closed incomplete ''recovery_restoration'' (ev_restart_invalid ev) ''recovery_reset_not_declared''])"

definition narrative_checks :: "evidence \<Rightarrow> analysis_check list" where
  "narrative_checks ev =
     (let e = ev_explored ev; closed = proof_graph_closed e; incomplete = incomplete_reason e in
      [proof_check closed incomplete ''narrative_units_reachable''
         (set (nc_units (ev_contract ev)) \<subseteq> set (dict_keys (nr_unit_states (ev_reach ev)))) ''narrative_unit_unreachable'',
       proof_check closed incomplete ''narrative_options_executable''
         (set (dict_keys (nc_options (ev_contract ev))) \<subseteq> set (nr_options (ev_reach ev))) ''narrative_option_unreachable'',
       proof_check closed incomplete ''distinct_endings'' (2 \<le> reached_narrative_endings ev) ''distinct_endings_insufficient'',
       evidence_check closed incomplete ''cursor_consistency''
         (''cursor_divergence'' \<in> fi_reason_code ` set (ex_integrity e)) ''cursor_divergence''])"

definition evidence_checks :: "string \<Rightarrow> evidence \<Rightarrow> analysis_check list" where
  "evidence_checks start_hash ev =
     common_checks ev @ (if ev_profile ev = ''abstract_puzzle'' then puzzle_checks start_hash ev else narrative_checks ev)"

section \<open>The report\<close>

definition witness_targets :: "evidence \<Rightarrow> finding list \<Rightarrow> (string \<times> string \<times> string) list" where
  "witness_targets ev findings =
     map (\<lambda>(i, h). (''ending'', i, h)) (ev_endings ev) @
     map (\<lambda>(i, h). (''failure'', i, h)) (first_reached gc_failure_ids (ev_explored ev)) @
     map (\<lambda>(i, h). (''goal'', i, h)) (ev_goals ev) @
     map (\<lambda>(i, h). (''narrative_unit'', i, h)) (nr_unit_states (ev_reach ev)) @
     map (\<lambda>(i, h). (''narrative_option'', i, h)) (nr_option_states (ev_reach ev)) @
     concat (map (\<lambda>f. case fi_state_hash f of Some h \<Rightarrow> [(''state'', h, h)] | None \<Rightarrow> []) findings)"

record metrics =
  me_candidate_evaluations :: int
  me_states :: int
  me_transitions :: int
  me_max_depth :: int
  me_largest_state_bytes :: int
  me_total_state_bytes :: int
  me_goals_reached :: int
  me_endings_reached :: int
  me_narrative_units_reached :: int
  me_narrative_options_reached :: int
  me_frontier_closed :: bool

record report =
  re_analyzer :: "json \<times> json \<times> json"
  re_status :: string
  re_reason_codes :: "string list"
  re_metrics :: metrics
  re_checks :: "analysis_check list"
  re_findings :: "finding list"
  re_witnesses :: "witness list"

definition count_status :: "string \<Rightarrow> analysis_check list \<Rightarrow> nat" where
  "count_status status checks = length (filter (\<lambda>c. ck_status c = status) checks)"

definition report_status :: "exploration \<Rightarrow> bool \<Rightarrow> finding list \<Rightarrow> analysis_check list \<Rightarrow> string" where
  "report_status e witness_bounded findings checks =
     (if ex_bound_reason e \<noteq> None \<or> witness_bounded then ''inconclusive''
      else if findings \<noteq> [] \<or> count_status ''failed'' checks \<noteq> 0 then ''failed''
      else ''passed'')"

definition report_reasons :: "finding list \<Rightarrow> analysis_check list \<Rightarrow> string list" where
  "report_reasons findings checks =
     sort (remdups (map fi_reason_code findings @
       concat (map (\<lambda>c. if ck_status c = ''passed'' then [] else ck_reason_codes c) checks)))"

definition evidence_metrics :: "evidence \<Rightarrow> metrics" where
  "evidence_metrics ev =
     (let e = ev_explored ev in
      \<lparr>me_candidate_evaluations = ex_candidate_evaluations e, me_states = int (length (ex_states e)),
       me_transitions = ex_transitions e, me_max_depth = ex_max_depth e,
       me_largest_state_bytes = ex_largest_state_bytes e, me_total_state_bytes = ex_total_state_bytes e,
       me_goals_reached = int (length (ev_goals ev)), me_endings_reached = int (length (ev_endings ev)),
       me_narrative_units_reached = int (length (nr_unit_states (ev_reach ev))),
       me_narrative_options_reached = int (length (nr_options (ev_reach ev))),
       me_frontier_closed = frontier_closed e\<rparr>)"

definition make_report ::
  "(string \<Rightarrow> bool) \<Rightarrow> (string \<Rightarrow> string) \<Rightarrow> json \<times> json \<times> json \<Rightarrow> string \<Rightarrow> string \<Rightarrow> evidence \<Rightarrow> report res" where
  "make_report nfc sha analyzer game_id start_hash ev =
     (let found = analysis_findings game_id ev in
      rbind (build_witnesses nfc sha (ev_explored ev) (nr_option_traces (ev_reach ev)) (witness_targets ev found)) (\<lambda>(ws, bounded).
      let witness_check =
            make_check ''witness_evidence_complete'' (if bounded then ''inconclusive'' else ''passed'')
              (if bounded then [''witness_bound_reached''] else []);
          checks = sort_key ck_id (evidence_checks start_hash ev @ [witness_check]);
          findings = sort_key finding_key (deduplicate_findings (map (assign_witness (witness_ids ws)) found)) in
      Inr \<lparr>re_analyzer = analyzer, re_status = report_status (ev_explored ev) bounded findings checks,
           re_reason_codes = report_reasons findings checks, re_metrics = evidence_metrics ev,
           re_checks = checks, re_findings = findings, re_witnesses = ws\<rparr>))"

section \<open>The analyzer\<close>

definition analyzers :: "(string \<times> int) dict" where
  "analyzers =
     [(''abstract_puzzle'', ''worldforge.abstract_puzzle_exhaustive'', 1),
      (''branching_narrative'', ''worldforge.branching_narrative_exhaustive'', 1),
      (''unsupported'', ''worldforge.unsupported_profile'', 1)]"

definition no_metrics :: "int \<Rightarrow> metrics" where
  "no_metrics initial_state_bytes =
     \<lparr>me_candidate_evaluations = 0, me_states = of_bool (0 < initial_state_bytes), me_transitions = 0,
      me_max_depth = 0, me_largest_state_bytes = initial_state_bytes, me_total_state_bytes = initial_state_bytes,
      me_goals_reached = 0, me_endings_reached = 0, me_narrative_units_reached = 0,
      me_narrative_options_reached = 0, me_frontier_closed = False\<rparr>"

definition preflight_bound_report :: "json dict \<Rightarrow> string \<Rightarrow> int \<Rightarrow> report res" where
  "preflight_bound_report requirement reason initial_state_bytes =
     rbind (dict_at requirement ''profile'') (\<lambda>profile.
     rbind (dict_at analyzers (id_text profile)) (\<lambda>(analyzer_id, version).
       Inr \<lparr>re_analyzer = (JStr analyzer_id, JInt version, JStr (id_text profile)), re_status = ''inconclusive'',
            re_reason_codes = [reason], re_metrics = no_metrics initial_state_bytes,
            re_checks = [make_check ''frontier_closed'' ''inconclusive'' [reason],
                         make_check ''witness_evidence_complete'' ''not_applicable'' []],
            re_findings = [], re_witnesses = []\<rparr>))"

definition unsupported_report :: "json dict \<Rightarrow> report res" where
  "unsupported_report requirement =
     rbind (dict_at requirement ''analyzer_id'') (\<lambda>analyzer_id.
     rbind (dict_at requirement ''analyzer_version'') (\<lambda>version.
     rbind (dict_at requirement ''profile'') (\<lambda>profile.
       Inr \<lparr>re_analyzer = (analyzer_id, version, profile), re_status = ''unsupported'',
            re_reason_codes = [''analysis_profile_unsupported''], re_metrics = no_metrics 0,
            re_checks = [make_check ''analysis_profile_supported'' ''not_applicable'' [''analysis_profile_unsupported'']],
            re_findings = [], re_witnesses = []\<rparr>)))"

text \<open>What the code puts in the first \<open>try\<close>, and what it makes of an error there.\<close>

definition prepare_analysis :: "json dict \<Rightarrow> (interpreter \<times> json dict) res" where
  "prepare_analysis pack =
     rbind (make_interpreter pack None) (\<lambda>gi. rbind (gp_initial_state gi) (\<lambda>start. Inr (gi, start)))"

definition unprepared :: "json dict \<Rightarrow> string \<Rightarrow> string \<Rightarrow> report res" where
  "unprepared requirement reason detail =
     (if reason \<in> {''operator_unsupported'', ''execution_semantics_unsupported'', ''parameter_type_unsupported''}
      then unsupported_report requirement
      else if reason = ''parameter_combinations_exceeded''
      then preflight_bound_report requirement ''parameter_combinations_bound_reached'' 0
      else Inl (GameAnalysisError reason detail))"

definition game_id_of :: "json dict \<Rightarrow> string res" where
  "game_id_of pack =
     rbind (dict_at pack ''game'') (\<lambda>game. rbind (asserted_obj game) (\<lambda>game.
     rbind (dict_at game ''id'') (\<lambda>i. Inr (id_text i))))"

definition analyze_from ::
  "(string \<Rightarrow> bool) \<Rightarrow> (string \<Rightarrow> string) \<Rightarrow> interpreter \<Rightarrow> string \<Rightarrow> json dict \<Rightarrow> string \<Rightarrow> evidence res" where
  "analyze_from nfc sha gi profile start encoded =
     rbind (explore_all nfc sha gi (start_exploration (sha encoded) start (int (length encoded))))
       (gather_evidence nfc sha gi profile)"

definition analyze_prepared ::
  "(string \<Rightarrow> bool) \<Rightarrow> (string \<Rightarrow> string) \<Rightarrow> json dict \<Rightarrow> interpreter \<Rightarrow> json dict \<Rightarrow> report res" where
  "analyze_prepared nfc sha requirement gi start =
     rbind (canonical_state_bytes start) (\<lambda>encoded.
     if analysis_limit ''state_bytes'' < int (length encoded)
     then preflight_bound_report requirement ''state_bytes_bound_reached'' (int (length encoded))
     else if analysis_limit ''total_state_bytes'' < int (length encoded)
     then preflight_bound_report requirement ''total_state_bytes_bound_reached'' (int (length encoded))
     else
       rbind (dict_at requirement ''profile'') (\<lambda>profile.
       rbind (game_id_of (gi_gamepack gi)) (\<lambda>game_id.
       rbind (dict_at analyzers (id_text profile)) (\<lambda>(analyzer_id, version).
       rbind (analyze_from nfc sha gi (id_text profile) start encoded)
         (make_report nfc sha (JStr analyzer_id, JInt version, JStr (id_text profile)) game_id (sha encoded))))))"

definition analyze_gamepack :: "(string \<Rightarrow> bool) \<Rightarrow> (string \<Rightarrow> string) \<Rightarrow> json dict \<Rightarrow> report res" where
  "analyze_gamepack nfc sha pack =
     rbind (dict_at pack ''analysis_requirements'') (\<lambda>requirement.
     rbind (asserted_obj requirement) (\<lambda>requirement.
     rbind (dict_at requirement ''profile'') (\<lambda>profile.
     if profile = JStr ''unsupported'' then unsupported_report requirement
     else
       rbind (dict_at requirement ''analyzer_id'') (\<lambda>analyzer_id.
       rbind (dict_at requirement ''analyzer_version'') (\<lambda>version.
       if (case map_of analyzers (id_text profile) of None \<Rightarrow> True
           | Some (i, v) \<Rightarrow> \<not> py_eq analyzer_id (JStr i) \<or> \<not> py_eq version (JInt v))
       then unsupported_report requirement
       else
         case prepare_analysis pack of
           Inl (GameLogicError reason detail) \<Rightarrow> unprepared requirement reason detail
         | Inl x \<Rightarrow> Inl x
         | Inr (gi, start) \<Rightarrow> analyze_prepared nfc sha requirement gi start)))))"

end
