(* ===== verification/VerdictFacts.thy ===== *)
theory VerdictFacts
  imports ExplorationExact GameReport
begin

text \<open>
  What the parts of a report mean: the first states where a goal, an ending or a failure holds, the
  terminal states and those that can reach them, the dead ends, the findings, and the status.
\<close>

section \<open>First states\<close>

definition holds_at :: "(classification \<Rightarrow> string list) \<Rightarrow> exploration \<Rightarrow> string \<Rightarrow> string \<Rightarrow> bool" where
  "holds_at ids e i h \<longleftrightarrow> (case map_of (ex_classifications e) h of None \<Rightarrow> False | Some c \<Rightarrow> i \<in> set (ids c))"

lemma map_of_set_default: "map_of (set_default k v d) = (map_of d)(k \<mapsto> case map_of d k of Some w \<Rightarrow> w | None \<Rightarrow> v)"
  by (auto simp: set_default_def dict_mem_def update_conv' split: option.splits)

lemma map_of_first_at:
  "map_of (first_at ids e d entry) i =
     (case map_of d i of Some h \<Rightarrow> Some h | None \<Rightarrow> if holds_at ids e i (fst entry) then Some (fst entry) else None)"
proof -
  have "map_of (foldl (\<lambda>d i. set_default i h d) d is) i =
      (case map_of d i of Some k \<Rightarrow> Some k | None \<Rightarrow> if i \<in> set is then Some h else None)" for h "is"
    by (induction "is" arbitrary: d) (auto simp: map_of_set_default split: option.splits)
  then show ?thesis by (simp add: first_at_def holds_at_def split: option.split)
qed

lemma first_reached_finds:
  "map_of (first_reached ids e) i = map_option fst (find (\<lambda>entry. holds_at ids e i (fst entry)) (ex_states e))"
proof -
  have "map_of (foldl (first_at ids e) d xs) i =
      (case map_of d i of Some h \<Rightarrow> Some h
       | None \<Rightarrow> map_option fst (find (\<lambda>entry. holds_at ids e i (fst entry)) xs))" for d xs
    by (induction xs arbitrary: d) (auto simp: map_of_first_at split: option.splits)
  from this [of "[]"] show ?thesis by (simp add: first_reached_def)
qed

lemma reached_iff:
  "dict_mem i (first_reached ids e) \<longleftrightarrow> (\<exists>h \<in> set (dict_keys (ex_states e)). holds_at ids e i h)"
  unfolding dict_mem_def first_reached_finds by (auto simp: find_None_iff dict_keys_def) force

lemma classified_at:
  assumes "classified_ok gi e" and "map_of (ex_classifications e) h = Some c"
  obtains st where "map_of (ex_states e) h = Some st" and "classify gi st = Inr c"
  using assms by (auto simp: classified_ok_def dest: spec)

lemma holds_atE:
  assumes "holds_at ids e i h" and "classified_ok gi e"
  obtains st c where "map_of (ex_classifications e) h = Some c" and "map_of (ex_states e) h = Some st"
    and "classify gi st = Inr c" and "i \<in> set (ids c)"
proof -
  obtain c where c: "map_of (ex_classifications e) h = Some c" "i \<in> set (ids c)"
    using assms(1) by (cases "map_of (ex_classifications e) h") (auto simp: holds_at_def)
  show thesis by (rule classified_at [OF assms(2) c(1)]) (rule that [OF c(1) _ _ c(2)])
qed

text \<open>The first state is one of the least depth.\<close>

lemma first_is_least:
  assumes "states_ok sha gi start h0 e" and "map_of (first_reached ids e) i = Some h"
    and "map_of (ex_depths e) h = Some m"
    and "holds_at ids e i k" and "map_of (ex_depths e) k = Some n"
  shows "m \<le> n"
proof -
  obtain entry where "find (\<lambda>entry. holds_at ids e i (fst entry)) (ex_states e) = Some entry" and h: "h = fst entry"
    using assms(2) by (auto simp: first_reached_finds)
  then obtain j where j: "j < length (ex_states e)" "entry = ex_states e ! j"
    "\<And>l. l < j \<Longrightarrow> \<not> holds_at ids e i (fst (ex_states e ! l))"
    by (auto simp: find_Some_iff)
  have keys: "dict_keys (ex_depths e) = dict_keys (ex_states e)" and dist: "distinct (dict_keys (ex_states e))"
    and sorted: "sorted (dict_values (ex_depths e))"
    using assms(1) by (auto simp: states_ok_def)
  have "k \<in> set (dict_keys (ex_depths e))" using assms(5) by (force simp: dict_keys_def dest: map_of_SomeD)
  then have "k \<in> set (map fst (ex_states e))" using keys by (simp only: dict_keys_def)
  then obtain l where l: "l < length (ex_states e)" "fst (ex_states e ! l) = k"
    by (auto simp: in_set_conv_nth)
  have "j \<le> l" using j(3) [of l] l assms(4) by force
  have len: "length (ex_depths e) = length (ex_states e)" using keys by (metis dict_keys_def length_map)
  have at: "fst (ex_depths e ! x) = fst (ex_states e ! x)" if "x < length (ex_states e)" for x
    using keys that len by (metis dict_keys_def nth_map)
  have val: "snd (ex_depths e ! x) = d" if "x < length (ex_states e)" "map_of (ex_depths e) (fst (ex_states e ! x)) = Some d" for x d
  proof -
    have "(fst (ex_states e ! x), snd (ex_depths e ! x)) \<in> set (ex_depths e)"
      using at [OF that(1)] that(1) len by (metis nth_mem prod.collapse)
    then have "map_of (ex_depths e) (fst (ex_states e ! x)) = Some (snd (ex_depths e ! x))"
      using dist keys by (simp add: dict_keys_def)
    with that(2) show ?thesis by simp
  qed
  have "snd (ex_depths e ! j) \<le> snd (ex_depths e ! l)"
    using sorted \<open>j \<le> l\<close> l(1) len by (simp add: dict_values_def sorted_iff_nth_mono)
  then show ?thesis using val [of j m] val [of l n] j h l assms(3,5) by simp
qed

section \<open>Terminal states\<close>

lemma filterR_Inr: "filterR p xs = Inr ys \<Longrightarrow> set ys = {x \<in> set xs. p x = Inr True}"
  by (induction xs arbitrary: ys) (auto split: if_splits)

lemma filterR_all: "filterR p xs = Inr ys \<Longrightarrow> x \<in> set xs \<Longrightarrow> \<exists>b. p x = Inr b"
  by (induction xs arbitrary: ys) auto

lemma terminal_states_iff:
  assumes "terminal_states e = Inr ts" and "classified_ok gi e"
  shows "h \<in> set ts \<longleftrightarrow> (\<exists>c. map_of (ex_classifications e) h = Some c \<and> gc_ending_ids c \<noteq> [])"
proof -
  obtain cs where cs: "filterR (terminal \<circ> snd) (ex_classifications e) = Inr cs" and ts: "ts = map fst cs"
    using assms(1) by (auto simp: terminal_states_def)
  have total: "\<exists>b. terminal c = Inr b" if "(h, c) \<in> set (ex_classifications e)" for h c
    using filterR_all [OF cs] that by fastforce
  have "distinct (map fst (ex_classifications e))" using assms(2) by (simp add: classified_ok_def dict_keys_def)
  then have "(h, c) \<in> set (ex_classifications e) \<longleftrightarrow> map_of (ex_classifications e) h = Some c" for c by simp
  moreover have "h \<in> set ts \<longleftrightarrow> (\<exists>c. (h, c) \<in> set (ex_classifications e) \<and> terminal c = Inr True)"
    unfolding ts using filterR_Inr [OF cs] by force
  ultimately show ?thesis using terminal_Inr total by metis
qed

section \<open>Evidence and reports\<close>

lemma gatherE:
  assumes "gather_evidence nfc sha gi profile e = Inr ev"
  shows "ev_explored ev = e" and "ev_goals ev = first_reached gc_goal_ids e" and "ev_endings ev = first_reached gc_ending_ids e"
    and "authored_ids (gi_goals gi) = Inr (ev_authored_goals ev)" and "authored_ids (gi_endings gi) = Inr (ev_authored_endings ev)"
    and "terminal_states e = Inr (ev_terminal ev)" and "ev_can_end ev = can_reach (reverse_graph e) (ev_terminal ev)"
    and "ev_can_succeed ev = can_reach (reverse_graph e) (success_states e)" and "ev_profile ev = profile"
  using assms by (auto simp: gather_evidence_def)

lemma finding_keys: "finding_key ` set (deduplicate_findings fs) = finding_key ` set fs"
proof -
  have "finding_key ` set (dict_values d') = finding_key ` set (dict_values d) \<union> finding_key ` set fs \<and>
      (\<forall>(k, f) \<in> set d'. finding_key f = k)"
    if "\<forall>(k, f) \<in> set d. finding_key f = k" and "d' = foldl (\<lambda>d f. set_default (finding_key f) f d) d fs" for d d'
    using that
  proof (induction fs arbitrary: d)
    case (Cons f fs)
    let ?d = "set_default (finding_key f) f d"
    have "?d = (if dict_mem (finding_key f) d then d else d @ [(finding_key f, f)])"
      by (simp add: set_default_def dict_mem_iff update_new)
    moreover have "finding_key f \<in> finding_key ` set (dict_values d)" if "dict_mem (finding_key f) d"
      using that Cons.prems(1) by (force simp: dict_mem_iff dict_values_def)
    ultimately have "finding_key ` set (dict_values ?d) = insert (finding_key f) (finding_key ` set (dict_values d))"
      and "\<forall>(k, f) \<in> set ?d. finding_key f = k"
      using Cons.prems(1) by (auto simp: dict_values_def)
    with Cons.IH [of ?d] Cons.prems(2) show ?case by auto
  qed simp
  from this [of "[]"] show ?thesis by (simp add: deduplicate_findings_def dict_values_def)
qed

lemma assign_witness_fields [simp]:
  "fi_reason_code (assign_witness ids f) = fi_reason_code f" "fi_subject_kind (assign_witness ids f) = fi_subject_kind f"
  "fi_subject_id (assign_witness ids f) = fi_subject_id f" "fi_state_hash (assign_witness ids f) = fi_state_hash f"
  "fi_message (assign_witness ids f) = fi_message f"
  by (simp_all add: assign_witness_def split: option.split)

lemma reportE:
  assumes "make_report nfc sha analyzer game_id h0 ev = Inr re"
  obtains ws bounded where
    "build_witnesses nfc sha (ev_explored ev) (nr_option_traces (ev_reach ev))
       (witness_targets ev (analysis_findings game_id ev)) = Inr (ws, bounded)"
    and "re_witnesses re = ws"
    and "re_findings re = sort_key finding_key (deduplicate_findings
       (map (assign_witness (witness_ids ws)) (analysis_findings game_id ev)))"
    and "set (evidence_checks h0 ev) \<subseteq> set (re_checks re)"
    and "re_status re = report_status (ev_explored ev) bounded (re_findings re) (re_checks re)"
proof -
  obtain result where built: "build_witnesses nfc sha (ev_explored ev) (nr_option_traces (ev_reach ev))
      (witness_targets ev (analysis_findings game_id ev)) = Inr result"
    using assms by (auto simp: make_report_def Let_def)
  obtain ws bounded where result: "result = (ws, bounded)" by (cases result)
  show thesis
    by (rule that [of ws bounded]) (use assms built result in \<open>auto simp: make_report_def Let_def\<close>)
qed

text \<open>Every finding of a report is one of the analysis, with a witness.\<close>

lemma reported_finding:
  assumes "make_report nfc sha analyzer game_id h0 ev = Inr re" and "f \<in> set (re_findings re)"
  obtains f0 where "f0 \<in> set (analysis_findings game_id ev)" and "fi_reason_code f = fi_reason_code f0"
    and "fi_subject_id f = fi_subject_id f0" and "fi_state_hash f = fi_state_hash f0"
proof -
  obtain ws where "re_findings re = sort_key finding_key (deduplicate_findings
      (map (assign_witness (witness_ids ws)) (analysis_findings game_id ev)))"
    by (rule reportE [OF assms(1)])
  then have "f \<in> assign_witness (witness_ids ws) ` set (analysis_findings game_id ev)"
    using assms(2) deduplicated by fastforce
  then obtain f0 where "f0 \<in> set (analysis_findings game_id ev)" "f = assign_witness (witness_ids ws) f0" by blast
  then show thesis using that [of f0] by simp
qed

lemma passed_report:
  assumes "make_report nfc sha analyzer game_id h0 ev = Inr re" and "re_status re = ''passed''"
  shows "ex_bound_reason (ev_explored ev) = None" and "analysis_findings game_id ev = []"
    and "c \<in> set (evidence_checks h0 ev) \<Longrightarrow> ck_status c \<noteq> ''failed''"
proof -
  obtain ws bounded where findings: "re_findings re = sort_key finding_key (deduplicate_findings
      (map (assign_witness (witness_ids ws)) (analysis_findings game_id ev)))"
    and checks: "set (evidence_checks h0 ev) \<subseteq> set (re_checks re)"
    and status: "re_status re = report_status (ev_explored ev) bounded (re_findings re) (re_checks re)"
    by (rule reportE [OF assms(1)])
  have none: "ex_bound_reason (ev_explored ev) = None" "re_findings re = []" "count_status ''failed'' (re_checks re) = 0"
    using assms(2) status by (auto simp: report_status_def split: if_splits)
  show "ex_bound_reason (ev_explored ev) = None" by (rule none)
  have "deduplicate_findings (map (assign_witness (witness_ids ws)) (analysis_findings game_id ev)) = []"
    using none(2) findings by (metis set_empty2 set_sort)
  with finding_keys [of "map (assign_witness (witness_ids ws)) (analysis_findings game_id ev)"]
  show "analysis_findings game_id ev = []" by simp
  show "ck_status c \<noteq> ''failed''" if "c \<in> set (evidence_checks h0 ev)"
    using none(3) checks that by (auto simp: count_status_def filter_empty_conv)
qed

section \<open>Dead ends\<close>

text \<open>The classification of a state, and whether a state that can be played can still reach an ending.\<close>

definition ended :: "interpreter \<Rightarrow> json dict \<Rightarrow> bool" where
  "ended gi st \<longleftrightarrow> (case classify gi st of Inr c \<Rightarrow> gc_ending_ids c \<noteq> [] | Inl _ \<Rightarrow> False)"

definition can_end :: "(string \<Rightarrow> string) \<Rightarrow> interpreter \<Rightarrow> json dict \<Rightarrow> bool" where
  "can_end sha gi st \<longleftrightarrow> (\<exists>k st'. plays sha gi st k st' \<and> ended gi st')"

lemma terminal_hash_iff:
  assumes "terminal_states e = Inr ts" and "classified_ok gi e" and "map_of (ex_classifications e) h = Some c"
    and "map_of (ex_states e) h = Some st"
  shows "h \<in> set ts \<longleftrightarrow> ended gi st"
proof -
  obtain st' where "map_of (ex_states e) h = Some st'" "classify gi st' = Inr c"
    by (rule classified_at [OF assms(2,3)])
  then show ?thesis using assms(3,4) by (simp add: terminal_states_iff [OF assms(1,2)] ended_def)
qed

lemma settled_classified:
  assumes "search_settled e" and "map_of (ex_states e) h = Some st"
  obtains c where "map_of (ex_classifications e) h = Some c"
proof -
  have "dict_mem h (ex_classifications e)"
    using assms by (force simp: search_settled_def dict_mem_keys dict_keys_def dest: map_of_SomeD)
  then show thesis by (rule dict_mem_Some [THEN exE]) (rule that)
qed

lemma can_end_iff:
  assumes "sound sha gi start h0 e" and "search_settled e" and "session_state gi start" and "collision_free sha gi start"
    and "terminal_states e = Inr ts" and "map_of (ex_states e) h = Some st"
  shows "h \<in> set (can_reach (reverse_graph e) ts) \<longleftrightarrow> can_end sha gi st"
proof -
  have ok: "graph_ok sha gi e" "classified_ok gi e" using assms(1) by (simp_all add: sound_def)
  show ?thesis
    unfolding climbs_exactly [OF ok(1)] can_end_def
  proof
    assume "\<exists>t \<in> set ts. (h, t) \<in> (edges_of (ex_graph e))\<^sup>*"
    then obtain t where t: "t \<in> set ts" "(h, t) \<in> (edges_of (ex_graph e))\<^sup>*" by blast
    obtain k st' where st': "plays sha gi st k st'" "map_of (ex_states e) t = Some st'"
      using path_plays [OF assms(1,3,4) t(2) assms(6)] by blast
    obtain c where "map_of (ex_classifications e) t = Some c" by (rule settled_classified [OF assms(2) st'(2)])
    with terminal_hash_iff [OF assms(5) ok(2) this st'(2)] t(1) st'(1)
    show "\<exists>k st'. plays sha gi st k st' \<and> ended gi st'" by blast
  next
    assume "\<exists>k st'. plays sha gi st k st' \<and> ended gi st'"
    then obtain k st' where st': "plays sha gi st k st'" "ended gi st'" by blast
    obtain t where t: "map_of (ex_states e) t = Some st'" "(h, t) \<in> (edges_of (ex_graph e))\<^sup>*"
      using play_is_path [OF assms(1-4,6) st'(1)] by blast
    obtain c where "map_of (ex_classifications e) t = Some c" by (rule settled_classified [OF assms(2) t(1)])
    with terminal_hash_iff [OF assms(5) ok(2) this t(1)] st'(2) t(2)
    show "\<exists>t \<in> set ts. (h, t) \<in> (edges_of (ex_graph e))\<^sup>*" by blast
  qed
qed

section \<open>Findings\<close>

text \<open>What the findings of an analysis claim; \<open>here P\<close>: a state that can be played has the named digest, and \<open>P\<close>.\<close>

definition here ::
  "(string \<Rightarrow> string) \<Rightarrow> interpreter \<Rightarrow> json dict \<Rightarrow> string \<Rightarrow> (json dict \<Rightarrow> classification \<Rightarrow> bool) \<Rightarrow> bool" where
  "here sha gi start h P \<longleftrightarrow>
     (\<exists>n st c. plays sha gi start n st \<and> canonical_state_hash sha st = Inr h \<and> classify gi st = Inr c \<and> P st c)"

definition nowhere :: "(string \<Rightarrow> string) \<Rightarrow> interpreter \<Rightarrow> json dict \<Rightarrow> (classification \<Rightarrow> bool) \<Rightarrow> bool" where
  "nowhere sha gi start P \<longleftrightarrow> (\<forall>n st c. plays sha gi start n st \<longrightarrow> classify gi st = Inr c \<longrightarrow> \<not> P c)"

definition unavailable :: "(string \<Rightarrow> string) \<Rightarrow> interpreter \<Rightarrow> json dict \<Rightarrow> string \<Rightarrow> bool" where
  "unavailable sha gi st action_id \<longleftrightarrow> (\<forall>r. legal_step sha gi st r \<longrightarrow> ca_action_id (tr_action r) \<noteq> action_id)"

definition confirmed :: "(string \<Rightarrow> string) \<Rightarrow> interpreter \<Rightarrow> json dict \<Rightarrow> string \<Rightarrow> string \<Rightarrow> bool" where
  "confirmed sha gi start reason i \<longleftrightarrow>
     (if reason = ''authored_goal_unreachable'' then nowhere sha gi start (\<lambda>c. i \<in> set (gc_goal_ids c))
      else if reason = ''authored_ending_unreachable'' then nowhere sha gi start (\<lambda>c. i \<in> set (gc_ending_ids c))
      else if reason = ''nonterminal_softlock''
      then here sha gi start i (\<lambda>st c. gc_ending_ids c = [] \<and> (\<forall>r. \<not> legal_step sha gi st r))
      else if reason = ''nonterminal_terminal_trap'' then here sha gi start i (\<lambda>st c. \<not> can_end sha gi st)
      else if reason = ''failure_recovery_empty_intersection''
      then here sha gi start i (\<lambda>st c. gc_failure_ids c \<noteq> [] \<and> gc_recovery_action_ids c = [])
      else if reason = ''failure_recovery_unavailable''
      then here sha gi start i (\<lambda>st c. gc_failure_ids c \<noteq> [] \<and>
        (\<exists>aid \<in> set (gc_recovery_action_ids c). unavailable sha gi st aid))
      else True)"

lemma hereI:
  assumes "sound sha gi start h0 e" and "map_of (ex_classifications e) h = Some c"
    and "\<And>st. map_of (ex_states e) h = Some st \<Longrightarrow> classify gi st = Inr c \<Longrightarrow> P st c"
  shows "here sha gi start h P"
proof -
  have ok: "states_ok sha gi start h0 e" "classified_ok gi e" using assms(1) by (simp_all add: sound_def)
  obtain st where st: "map_of (ex_states e) h = Some st" "classify gi st = Inr c" by (rule classified_at [OF ok(2) assms(2)])
  obtain n where "canonical_state_hash sha st = Inr h" "plays sha gi start n st" by (rule state_known [OF ok(1) st(1)])
  with assms(3) [OF st] st(2) show ?thesis unfolding here_def by blast
qed

lemma nowhere_missing:
  assumes "sound sha gi start h0 e" and "search_settled e" and "session_state gi start" and "collision_free sha gi start"
    and "\<not> dict_mem i (first_reached ids e)"
  shows "nowhere sha gi start (\<lambda>c. i \<in> set (ids c))"
  unfolding nowhere_def
proof (intro allI impI)
  fix n st c assume "plays sha gi start n st" and c: "classify gi st = Inr c"
  then obtain h where h: "map_of (ex_states e) h = Some st" using played_states_found [OF assms(1-4)] by blast
  obtain c' where c': "map_of (ex_classifications e) h = Some c'" by (rule settled_classified [OF assms(2) h])
  have "classified_ok gi e" using assms(1) by (simp add: sound_def)
  then have "c' = c" using classified_at [OF _ c'] h c by (metis option.inject sum.inject(2))
  moreover have "h \<in> set (dict_keys (ex_states e))" using h by (force simp: dict_keys_def dest: map_of_SomeD)
  ultimately show "i \<notin> set (ids c)" using assms(5) c' by (auto simp: reached_iff holds_at_def)
qed

lemma expanded_at:
  assumes "sound sha gi start h0 e" and "h \<in> set (ex_expanded e)" and "map_of (ex_states e) h = Some st"
  shows "set (legal_at e h) = {r. legal_step sha gi st r}"
proof -
  have "\<exists>st rs. map_of (ex_states e) h = Some st \<and> map_of (ex_legal e) h = Some rs \<and> complete_at sha gi e h st rs"
    using assms(1,2) by (simp add: sound_def expanded_ok_def)
  then show ?thesis using assms(3) by (auto simp: legal_at_def complete_at_def)
qed

lemma key_classified: "h \<in> set (dict_keys d) \<Longrightarrow> \<exists>c. map_of d h = Some c"
  by (metis dict_mem_Some dict_mem_keys)

lemma softlock_confirmed:
  assumes "sound sha gi start h0 (ev_explored ev)" and "terminal_states (ev_explored ev) = Inr (ev_terminal ev)"
    and "h \<in> set (softlocks ev)"
  shows "confirmed sha gi start ''nonterminal_softlock'' h"
proof -
  let ?e = "ev_explored ev"
  have h: "h \<in> set (dict_keys (ex_classifications ?e))" "h \<notin> set (ev_terminal ev)" "h \<in> set (ex_expanded ?e)" "legal_at ?e h = []"
    using assms(3) by (auto simp: softlocks_def Let_def)
  obtain c where c: "map_of (ex_classifications ?e) h = Some c" using key_classified [OF h(1)] by blast
  have ok: "classified_ok gi ?e" using assms(1) by (simp add: sound_def)
  have "here sha gi start h (\<lambda>st c. gc_ending_ids c = [] \<and> (\<forall>r. \<not> legal_step sha gi st r))"
  proof (rule hereI [OF assms(1) c])
    fix st assume st: "map_of (ex_states ?e) h = Some st" and "classify gi st = Inr c"
    then have "gc_ending_ids c = []"
      using h(2) terminal_hash_iff [OF assms(2) ok c st] by (simp add: ended_def)
    with expanded_at [OF assms(1) h(3) st] h(4) show "gc_ending_ids c = [] \<and> (\<forall>r. \<not> legal_step sha gi st r)" by auto
  qed
  then show ?thesis by (simp add: confirmed_def)
qed

lemma trap_confirmed:
  assumes "sound sha gi start h0 (ev_explored ev)" and "search_settled (ev_explored ev)" and "session_state gi start"
    and "collision_free sha gi start" and "terminal_states (ev_explored ev) = Inr (ev_terminal ev)"
    and "ev_can_end ev = can_reach (reverse_graph (ev_explored ev)) (ev_terminal ev)" and "h \<in> set (traps ev)"
  shows "confirmed sha gi start ''nonterminal_terminal_trap'' h"
proof -
  let ?e = "ev_explored ev"
  have h: "h \<in> set (dict_keys (ex_classifications ?e))" "h \<notin> set (ev_can_end ev)"
    using assms(7) by (auto simp: traps_def Let_def)
  obtain c where c: "map_of (ex_classifications ?e) h = Some c" using key_classified [OF h(1)] by blast
  have "here sha gi start h (\<lambda>st c. \<not> can_end sha gi st)"
    by (rule hereI [OF assms(1) c]) (use h(2) can_end_iff [OF assms(1-5)] assms(6) in auto)
  then show ?thesis by (simp add: confirmed_def)
qed

lemma recovery_confirmed:
  assumes "sound sha gi start h0 e" and "f \<in> set (recovery_findings e)"
  shows "confirmed sha gi start (fi_reason_code f) (fi_subject_id f)"
proof -
  obtain h c where hc: "(h, c) \<in> set (failure_states e)" and f: "f \<in> set (recovery_finding e (h, c))"
    using assms(2) by (auto simp: recovery_findings_def)
  then have c: "map_of (ex_classifications e) h = Some c" and fail: "gc_failure_ids c \<noteq> []"
    by (auto simp: failure_states_def split: option.splits if_splits)
  show ?thesis
  proof (cases "gc_recovery_action_ids c = []")
    case True
    have "here sha gi start h (\<lambda>st c. gc_failure_ids c \<noteq> [] \<and> gc_recovery_action_ids c = [])"
      by (rule hereI [OF assms(1) c]) (use fail True in simp)
    with f True show ?thesis by (simp add: recovery_finding_def state_finding_def make_finding_def confirmed_def)
  next
    case False
    with f have expanded: "h \<in> set (ex_expanded e)"
      and no: "\<not> set (gc_recovery_action_ids c) \<subseteq> (ca_action_id \<circ> tr_action) ` set (legal_at e h)"
      and f: "f = state_finding ''failure_recovery_unavailable'' h ''A declared common recovery action is not executable.''"
      by (auto simp: recovery_finding_def split: if_splits)
    have "here sha gi start h (\<lambda>st c. gc_failure_ids c \<noteq> [] \<and> (\<exists>aid \<in> set (gc_recovery_action_ids c). unavailable sha gi st aid))"
    proof (rule hereI [OF assms(1) c])
      fix st assume st: "map_of (ex_states e) h = Some st"
      obtain aid where "aid \<in> set (gc_recovery_action_ids c)" and "aid \<notin> (ca_action_id \<circ> tr_action) ` set (legal_at e h)"
        using no by blast
      moreover from this(2) have "unavailable sha gi st aid"
        by (auto simp: expanded_at [OF assms(1) expanded st] unavailable_def)
      ultimately show "gc_failure_ids c \<noteq> [] \<and> (\<exists>aid \<in> set (gc_recovery_action_ids c). unavailable sha gi st aid)"
        using fail by blast
    qed
    then show ?thesis by (simp add: f state_finding_def make_finding_def confirmed_def)
  qed
qed

section \<open>Witnesses\<close>

lemma add_witnesses_from:
  assumes "add_witnesses nfc sha e explicit targets ws total_steps = Inr (ws', bounded)" and "w \<in> set ws'"
  shows "w \<in> set ws \<or> (\<exists>h. (wi_kind w, wi_target_id w, h) \<in> set targets \<and>
    witness_steps nfc sha e explicit (wi_kind w, wi_target_id w, h) = Inr (wi_steps w))"
  using assms
proof (induction targets arbitrary: ws total_steps)
  case (Cons target targets)
  obtain kind i h where target: "target = (kind, i, h)" by (cases target)
  from Cons.prems(1) obtain steps where steps: "witness_steps nfc sha e explicit target = Inr steps" by auto
  show ?case
  proof (cases "128 \<le> int (length ws) \<or> 4096 < total_steps + int (length steps)")
    case True
    with Cons.prems steps show ?thesis by auto
  next
    case False
    let ?w = "\<lparr>wi_id = witness_name (length ws + 1), wi_kind = kind, wi_target_id = i, wi_steps = steps\<rparr>"
    have "add_witnesses nfc sha e explicit targets (ws @ [?w]) (total_steps + int (length steps)) = Inr (ws', bounded)"
      using Cons.prems(1) steps False target by auto
    from Cons.IH [OF this Cons.prems(2)] steps target show ?thesis by auto
  qed
qed auto

lemma distinct_first_reached: "distinct (dict_keys (first_reached ids e))"
proof -
  have default: "distinct (dict_keys d) \<Longrightarrow> distinct (dict_keys (set_default k v d))" for k :: string and v :: string and d
    by (simp add: set_default_def dict_keys_def distinct_update)
  have "distinct (dict_keys d) \<Longrightarrow> distinct (dict_keys (foldl (\<lambda>d i. set_default i h d) d is))" for h :: string and "is" :: "string list" and d
    by (induction "is" arbitrary: d) (simp_all add: default)
  then have step: "distinct (dict_keys d) \<Longrightarrow> distinct (dict_keys (first_at ids e d entry))" for d entry
    by (simp add: first_at_def split: option.split)
  have "distinct (dict_keys d) \<Longrightarrow> distinct (dict_keys (foldl (first_at ids e) d xs))" for d xs
    by (induction xs arbitrary: d) (simp_all add: step)
  then show ?thesis by (simp add: first_reached_def dict_keys_def)
qed

text \<open>What a witness shows: a play to a state where its target holds, and on a closed search no shorter one.\<close>

definition shows_target ::
  "(string \<Rightarrow> bool) \<Rightarrow> (string \<Rightarrow> string) \<Rightarrow> interpreter \<Rightarrow> json dict \<Rightarrow> bool \<Rightarrow>
     (classification \<Rightarrow> string list) \<Rightarrow> string \<Rightarrow> json dict list \<Rightarrow> bool" where
  "shows_target nfc sha gi start closed ids i steps \<longleftrightarrow>
     (\<exists>st c. traced nfc sha gi start steps st \<and> classify gi st = Inr c \<and> i \<in> set (ids c)) \<and>
     (closed \<longrightarrow> (\<forall>n st c. plays sha gi start n st \<longrightarrow> classify gi st = Inr c \<longrightarrow> i \<in> set (ids c) \<longrightarrow> length steps \<le> n))"

lemma first_witness:
  assumes "sound sha gi start h0 e" and "closed \<Longrightarrow> search_settled e" and "session_state gi start"
    and "closed \<Longrightarrow> collision_free sha gi start"
    and "(i, h) \<in> set (first_reached ids e)" and "trace nfc sha e h = Inr steps"
  shows "shows_target nfc sha gi start closed ids i steps"
proof -
  have ok: "states_ok sha gi start h0 e" "classified_ok gi e" using assms(1) by (simp_all add: sound_def)
  have first: "map_of (first_reached ids e) i = Some h"
    using assms(5) distinct_first_reached by (simp add: dict_keys_def)
  then obtain entry where "find (\<lambda>entry. holds_at ids e i (fst entry)) (ex_states e) = Some entry" and "h = fst entry"
    by (auto simp: first_reached_finds)
  then have "holds_at ids e i h" by (auto simp: find_Some_iff)
  then obtain st c where st: "map_of (ex_states e) h = Some st" "classify gi st = Inr c" "i \<in> set (ids c)"
    by (rule holds_atE [OF _ ok(2)])
  obtain depth: "map_of (ex_depths e) h = Some (int (length steps))" and "traced nfc sha gi start steps st"
    using trace_from_traced [OF ok(1) assms(6) [unfolded trace_def]] st(1) by auto
  moreover have "length steps \<le> n"
    if now: "closed" and play: "plays sha gi start n st'" and c': "classify gi st' = Inr c'" "i \<in> set (ids c')" for n st' c'
  proof -
    have closed: "search_settled e" "collision_free sha gi start" using assms(2,4) now by blast+
    obtain k m where k: "map_of (ex_states e) k = Some st'" "map_of (ex_depths e) k = Some m" "m \<le> int n"
      using played_states_found [OF assms(1) closed(1) assms(3) closed(2) play] by blast
    obtain c'' where c'': "map_of (ex_classifications e) k = Some c''" by (rule settled_classified [OF closed(1) k(1)])
    obtain s where "map_of (ex_states e) k = Some s" "classify gi s = Inr c''" by (rule classified_at [OF ok(2) c''])
    then have "c'' = c'" using k(1) c'(1) by simp
    then have "holds_at ids e i k" using c'' c'(2) by (simp add: holds_at_def)
    from first_is_least [OF ok(1) first depth this k(2)] k(3) show ?thesis by simp
  qed
  ultimately show ?thesis using st(2,3) unfolding shows_target_def by blast
qed

lemma target_kinds:
  assumes "(kind, i, h) \<in> set (witness_targets ev findings)"
  shows "kind = ''goal'' \<Longrightarrow> (i, h) \<in> set (ev_goals ev)" and "kind = ''ending'' \<Longrightarrow> (i, h) \<in> set (ev_endings ev)"
    and "kind = ''failure'' \<Longrightarrow> (i, h) \<in> set (first_reached gc_failure_ids (ev_explored ev))"
  using assms by (auto simp: witness_targets_def split: option.splits)

end
