(* ===== verification/Ledge.thy ===== *)
theory Ledge
  imports GameReport Gatehouse
begin

text \<open>
  Two concrete puzzles for the analyzer. In the first one can step onto a ledge or jump across; the
  ledge is a failure that only a restart recovers, the other side is the ending. In the second there
  is nothing to do.
\<close>

definition ledge_rule :: "string \<Rightarrow> string \<Rightarrow> string \<Rightarrow> json" where
  "ledge_rule rid aid eid = JObj
     [(''id'', JStr rid), (''action_id'', JStr aid), (''order'', JInt 0), (''condition_ids'', strs []),
      (''effect_ids'', strs [eid]), (''event_ids'', strs [''moved''])]"

definition ledge_at :: "string \<Rightarrow> int \<Rightarrow> json" where
  "ledge_at cid n = JObj
     [(''id'', JStr cid), (''action_id'', JNull), (''operator'', JStr ''compare''), (''comparison'', JStr ''equal''),
      (''left'', state_ref ''place''), (''right'', number_ref n)]"

definition ledge_schema :: json where
  "ledge_schema = JArr
    [JObj [(''id'', JStr ''place''), (''type'', JStr ''integer''), (''initial'', JInt 0), (''maximum'', JInt 2),
           (''minimum'', JInt 0), (''mutability'', JStr ''mutable''), (''persistence'', JStr ''saved'')]]"

definition ledge_actions :: json where
  "ledge_actions = JArr
    [JObj [(''id'', JStr ''jump''), (''rule_ids'', strs [''jump_rule'']),
           (''parameters'', JArr [JObj [(''id'', JStr ''to''), (''type'', JStr ''integer''),
                                       (''minimum'', JInt 1), (''maximum'', JInt 2)]])],
     JObj [(''id'', JStr ''restart''), (''rule_ids'', strs [''restart_rule'']), (''parameters'', JArr [])]]"

definition ledge_start :: "json dict" where
  "ledge_start = [(''place'', JInt 0)]"

definition ledge_effects :: json where
  "ledge_effects = JArr
    [gate_effect ''move'' ''jump'' ''set'' [(''state_id'', JStr ''place''), (''value'', param_ref ''jump'' ''to'')],
     gate_effect ''start_over'' ''restart'' ''reset'' [(''state_id'', JStr ''place'')]]"

definition ledge_rules :: json where
  "ledge_rules = JArr [ledge_rule ''jump_rule'' ''jump'' ''move'', ledge_rule ''restart_rule'' ''restart'' ''start_over'']"

definition ledge_failures :: json where
  "ledge_failures = JArr [JObj [(''id'', JStr ''stranded''), (''condition_ids'', strs [''on_ledge'']),
                                (''recovery_action_ids'', strs [''restart''])]]"

definition puzzle_conditions :: json where
  "puzzle_conditions = JArr [ledge_at ''on_ledge'' 1, ledge_at ''across'' 2]"

definition puzzle_goals :: json where
  "puzzle_goals = JArr [JObj [(''id'', JStr ''cross''), (''condition_ids'', strs [''across''])]]"

definition puzzle_endings :: json where
  "puzzle_endings = JArr [JObj [(''id'', JStr ''far_side''), (''kind'', JStr ''success''), (''condition_ids'', strs [''across''])]]"

definition puzzle_logic :: "json \<Rightarrow> json \<Rightarrow> json \<Rightarrow> json \<Rightarrow> json dict" where
  "puzzle_logic actions effects rules failures =
    [(''state_schema'', ledge_schema), (''initial_state'', JObj ledge_start), (''actions'', actions),
     (''conditions'', puzzle_conditions), (''effects'', effects), (''rules'', rules), (''goals'', puzzle_goals),
     (''failures'', failures), (''endings'', puzzle_endings), (''narrative_cursor'', JNull),
     (''narrative_transitions'', JArr []), (''execution_semantics'', execution_semantics)]"

definition puzzle_requirement :: "json dict" where
  "puzzle_requirement =
     [(''profile'', JStr ''abstract_puzzle''), (''analyzer_id'', JStr ''worldforge.abstract_puzzle_exhaustive''),
      (''analyzer_version'', JInt 1)]"

definition puzzle_pack :: "json \<Rightarrow> json \<Rightarrow> json \<Rightarrow> json \<Rightarrow> json dict" where
  "puzzle_pack actions effects rules failures =
     [(''game'', JObj [(''id'', JStr ''the_ledge'')]), (''modules'', JObj []),
      (''logic'', JObj (puzzle_logic actions effects rules failures)),
      (''analysis_requirements'', JObj puzzle_requirement)]"

text \<open>The interpreter that is built for such a pack.\<close>

definition puzzle :: "json \<Rightarrow> json \<Rightarrow> json \<Rightarrow> json \<Rightarrow> interpreter" where
  "puzzle actions effects rules failures =
     \<lparr>gi_gamepack = puzzle_pack actions effects rules failures, gi_logic = puzzle_logic actions effects rules failures,
      gi_schema = inr_of (index_records ledge_schema ''state_schema''),
      gi_actions = inr_of (index_records actions ''actions''),
      gi_conditions = inr_of (index_records puzzle_conditions ''conditions''),
      gi_effects = inr_of (index_records effects ''effects''), gi_rules = inr_of (index_records rules ''rules''),
      gi_goals = inr_of (records puzzle_goals ''goals''), gi_failures = inr_of (records failures ''failures''),
      gi_endings = inr_of (records puzzle_endings ''endings''), gi_transitions = [], gi_by_action = [], gi_limit = 4096,
      gi_candidates = inr_of (enumerate_actions 4096 (inr_of (index_records actions ''actions'')))\<rparr>"

lemma puzzle_made:
  assumes "\<not> isl (make_interpreter (puzzle_pack actions effects rules failures) None)"
  shows "make_interpreter (puzzle_pack actions effects rules failures) None = Inr (puzzle actions effects rules failures)"
proof -
  let ?pack = "puzzle_pack actions effects rules failures" and ?logic = "puzzle_logic actions effects rules failures"
  have [simp]: "obj_get ?pack ''logic'' = JObj ?logic"
    "int_of (obj_get analysis_limits ''parameter_combinations_per_action'') = 4096"
    "obj_get ?logic ''state_schema'' = ledge_schema" "obj_get ?logic ''actions'' = actions"
    "obj_get ?logic ''conditions'' = puzzle_conditions" "obj_get ?logic ''effects'' = effects"
    "obj_get ?logic ''rules'' = rules" "obj_get ?logic ''goals'' = puzzle_goals" "obj_get ?logic ''failures'' = failures"
    "obj_get ?logic ''endings'' = puzzle_endings" "obj_get ?logic ''narrative_transitions'' = JArr []"
    by (simp_all add: puzzle_pack_def puzzle_logic_def obj_get_def analysis_limits_def int_of_def)
  have [simp]: "records (JArr []) ctx = Inr []" for ctx by (simp add: records_def)
  obtain gi where "make_interpreter ?pack None = Inr gi" using assms by (auto simp: not_isl)
  then show ?thesis
    by (auto simp: make_interpreter_def owned_analysis_limits_def Let_def inr_of_def puzzle_def)
qed

section \<open>The ledge\<close>

definition ledge_pack :: "json dict" where
  "ledge_pack = puzzle_pack ledge_actions ledge_effects ledge_rules ledge_failures"

definition ledge :: interpreter where
  "ledge = puzzle ledge_actions ledge_effects ledge_rules ledge_failures"

lemma ledge_made: "make_interpreter ledge_pack None = Inr ledge"
  unfolding ledge_pack_def ledge_def by (rule puzzle_made) code_simp

lemma ledge_constructed: "constructed ledge"
  by (rule make_interpreter_constructed [OF ledge_made])

lemma ledge_shaped: "well_shaped ledge"
  by code_simp

lemma ledge_starts: "session_state ledge ledge_start"
  by code_simp

section \<open>Nothing to do\<close>

definition idle_pack :: "json dict" where
  "idle_pack = puzzle_pack (JArr []) (JArr []) (JArr []) (JArr [])"

definition idle :: interpreter where
  "idle = puzzle (JArr []) (JArr []) (JArr []) (JArr [])"

lemma idle_made: "make_interpreter idle_pack None = Inr idle"
  unfolding idle_pack_def idle_def by (rule puzzle_made) code_simp

lemma idle_constructed: "constructed idle"
  by (rule make_interpreter_constructed [OF idle_made])

lemma idle_shaped: "well_shaped idle"
  by code_simp

lemma idle_starts: "session_state idle ledge_start"
  by code_simp

section \<open>A digest\<close>

text \<open>A digest that tells texts of up to 64 characters apart: the lower half of every character.\<close>

fun nibble :: "char \<Rightarrow> char" where
  "nibble (Char b0 b1 b2 b3 b4 b5 b6 b7) =
     (if b3 then if b2 then if b1 then if b0 then CHR ''f'' else CHR ''e'' else if b0 then CHR ''d'' else CHR ''c''
                 else if b1 then if b0 then CHR ''b'' else CHR ''a'' else if b0 then CHR ''9'' else CHR ''8''
      else if b2 then if b1 then if b0 then CHR ''7'' else CHR ''6'' else if b0 then CHR ''5'' else CHR ''4''
                 else if b1 then if b0 then CHR ''3'' else CHR ''2'' else if b0 then CHR ''1'' else CHR ''0'')"

definition nibble_sha :: "string \<Rightarrow> string" where
  "nibble_sha t = map nibble (take 64 t) @ replicate (64 - length t) (CHR ''0'')"

definition all_nfc :: "string \<Rightarrow> bool" where
  "all_nfc s = True"

end
