(* ===== verification/LedgeFacts.thy ===== *)
theory LedgeFacts
  imports Ledge ExplorationExact
begin

text \<open>The hypotheses about the puzzle of \<^theory_text>\<open>Ledge\<close>, and the verdict on it, for the properties of the analyzer.\<close>

section \<open>The ledge\<close>

lemma plays_keys: "plays sha gi start n st \<Longrightarrow> map fst st = map fst start"
proof (induction rule: plays.induct)
  case (plays_step n st r)
  then obtain c params found rules where "committed sha gi st c params found rules r"
    unfolding legal_step_def using transition_cases rejectedE by blast
  then have "attempt gi (ca_action_id c) st params rules = Inr (Inr (tr_post_state r, tr_events r))"
    by (simp add: committed_def)
  from attempt_keys [OF this] plays_step.IH show ?case by simp
qed simp

lemma ledge_analysable: "analysable all_nfc ledge ledge_start"
proof -
  have "legacy_schema all_nfc ledge" and "list_all bounded_candidate (gi_candidates ledge)" by code_simp+
  then show ?thesis by (simp add: analysable_def ledge_constructed ledge_shaped ledge_starts)
qed

lemma ledge_clean: "clean_parameters (gi_actions ledge)"
  by code_simp

lemma ledge_started: "start_session ledge = Inr ledge_start"
proof -
  have "\<not> isl (gp_validate_state ledge ledge_start)" by code_simp
  moreover have "obj_get (gi_logic ledge) ''initial_state'' = JObj ledge_start" by code_simp
  ultimately show ?thesis by (auto simp: start_session_def gp_initial_state_def not_isl)
qed

lemma ledge_place:
  "gi_schema ledge = [(''place'', [(''id'', JStr ''place''), (''type'', JStr ''integer''), (''initial'', JInt 0),
     (''maximum'', JInt 2), (''minimum'', JInt 0), (''mutability'', JStr ''mutable''), (''persistence'', JStr ''saved'')])]"
  by code_simp

lemma ledge_states:
  assumes "plays sha ledge ledge_start n st"
  shows "st \<in> {[(''place'', JInt 0)], [(''place'', JInt 1)], [(''place'', JInt 2)]}"
proof -
  have "map fst st = [''place'']" using plays_keys [OF assms] by (simp add: ledge_start_def)
  then obtain v where st: "st = [(''place'', v)]" by (cases st) auto
  have "session_state ledge st" using plays_session_state [OF assms ledge_starts] .
  then have "in_schema ledge st" using classifyE(2) by (auto simp: session_state_def not_isl)
  then obtain i where "v = JInt i" "0 \<le> i" "i \<le> 2"
    by (auto simp: in_schema_def ledge_place st validate_state_value_def in_domain_def obj_get_def as_int_def
        split: json.splits)
  then have "i = 0 \<or> i = 1 \<or> i = 2" by arith
  with \<open>v = JInt i\<close> st show ?thesis by auto
qed

lemma ledge_collision_free: "collision_free nibble_sha ledge ledge_start"
proof -
  let ?h = "\<lambda>i. canonical_state_hash nibble_sha [(''place'', JInt i)]"
  have "?h 0 \<noteq> ?h 1" "?h 0 \<noteq> ?h 2" "?h 1 \<noteq> ?h 2" by code_simp+
  then show ?thesis
    unfolding collision_free_def using ledge_states [of nibble_sha] by (fastforce dest!: ledge_states)
qed

text \<open>The reports on both, evaluated from the interpreter on.\<close>

lemma puzzle_analysis:
  assumes "make_interpreter (puzzle_pack actions effects rules failures) None = Inr gi" and "start_session gi = Inr start"
  shows "analyze_gamepack nfc sha (puzzle_pack actions effects rules failures) =
    analyze_prepared nfc sha puzzle_requirement gi start"
proof -
  let ?pack = "puzzle_pack actions effects rules failures"
  have "prepare_analysis ?pack = Inr (gi, start)" using assms by (simp add: prepare_analysis_def start_session_def)
  moreover have "map_of ?pack ''analysis_requirements'' = Some (JObj puzzle_requirement)" by (simp add: puzzle_pack_def)
  ultimately show ?thesis
    by (simp add: analyze_gamepack_def puzzle_requirement_def asserted_obj_def dict_at_def analyzers_def id_text_def py_eq.simps)
qed

definition ledge_verdict :: "report \<Rightarrow> bool" where
  "ledge_verdict re \<longleftrightarrow>
     re_status re = ''passed'' \<and> me_frontier_closed (re_metrics re) \<and>
     map (\<lambda>w. (wi_kind w, wi_target_id w)) (re_witnesses re) =
       [(''ending'', ''far_side''), (''failure'', ''stranded''), (''goal'', ''cross'')]"

lemma ledge_report: "\<exists>re. analyze_gamepack all_nfc nibble_sha ledge_pack = Inr re \<and> ledge_verdict re"
proof -
  have "case analyze_prepared all_nfc nibble_sha puzzle_requirement ledge ledge_start of Inr re \<Rightarrow> ledge_verdict re | _ \<Rightarrow> False"
    by code_simp
  then show ?thesis
    unfolding ledge_pack_def puzzle_analysis [OF ledge_made [unfolded ledge_pack_def] ledge_started]
    by (auto split: sum.splits)
qed

section \<open>Nothing to do\<close>

lemma idle_started: "start_session idle = Inr ledge_start"
proof -
  have "\<not> isl (gp_validate_state idle ledge_start)" by code_simp
  moreover have "obj_get (gi_logic idle) ''initial_state'' = JObj ledge_start" by code_simp
  ultimately show ?thesis by (auto simp: start_session_def gp_initial_state_def not_isl)
qed

lemma idle_candidates: "gi_candidates idle = []"
  by code_simp

lemma idle_analysable: "analysable all_nfc idle ledge_start"
proof -
  have "legacy_schema all_nfc idle" by code_simp
  then show ?thesis by (simp add: analysable_def idle_constructed idle_shaped idle_starts idle_candidates)
qed

lemma idle_collision_free: "collision_free sha idle ledge_start"
proof -
  have "st = ledge_start" if "plays sha idle ledge_start n st" for n st
    using that by cases (auto simp: legal_step_def idle_candidates)
  then show ?thesis unfolding collision_free_def by blast
qed

definition idle_verdict :: "report \<Rightarrow> bool" where
  "idle_verdict re \<longleftrightarrow>
     map (\<lambda>f. (fi_reason_code f, fi_subject_id f)) (re_findings re) =
       [(''authored_ending_unreachable'', ''far_side''), (''authored_goal_unreachable'', ''cross''),
        (''nonterminal_softlock'', nibble_sha ''{\"place\":0}'')]"

lemma idle_report: "\<exists>re. analyze_gamepack all_nfc nibble_sha idle_pack = Inr re \<and> idle_verdict re"
proof -
  have "case analyze_prepared all_nfc nibble_sha puzzle_requirement idle ledge_start of Inr re \<Rightarrow> idle_verdict re | _ \<Rightarrow> False"
    by code_simp
  then show ?thesis
    unfolding idle_pack_def puzzle_analysis [OF idle_made [unfolded idle_pack_def] idle_started]
    by (auto split: sum.splits)
qed

end
