(* ===== verification/AnalysisTheorems.thy ===== *)
theory AnalysisTheorems
  imports VerdictFacts LedgeFacts
begin

text \<open>
  The properties of the game analyzer: its search is total, bounded and exact, what it finds is
  true, its witnesses are shortest plays, and a game that passes can always be finished. They are
  applied to the puzzle of \<^theory_text>\<open>Ledge\<close>.
\<close>

section \<open>From a report to its search\<close>

text \<open>A report with a verdict, a finding or a witness comes from a search.\<close>

lemma searched:
  assumes "analyze_gamepack nfc sha pack = Inr re" and "make_interpreter pack None = Inr gi"
    and "start_session gi = Inr start"
    and "re_status re = ''passed'' \<or> re_findings re \<noteq> [] \<or> re_witnesses re \<noteq> []"
  obtains encoded profile ev analyzer game_id where "canonical_state_bytes start = Inr encoded"
    and "analyze_from nfc sha gi profile start encoded = Inr ev"
    and "make_report nfc sha analyzer game_id (sha encoded) ev = Inr re"
proof -
  have "\<not> (re_status r = ''passed'' \<or> re_findings r \<noteq> [] \<or> re_witnesses r \<noteq> [])"
    if "unsupported_report q = Inr r \<or> preflight_bound_report q reason n = Inr r" for q r reason n
    using that by (auto simp: unsupported_report_def preflight_bound_report_def split: prod.splits)
  then have no: "unsupported_report q \<noteq> Inr re" "preflight_bound_report q reason n \<noteq> Inr re" for q reason n
    using assms(4) by blast+
  have "prepare_analysis pack = Inr (gi, start)"
    using assms(2,3) by (simp add: prepare_analysis_def start_session_def)
  then have "\<exists>q. analyze_prepared nfc sha q gi start = Inr re"
    using assms(1) by (auto simp: analyze_gamepack_def no split: if_splits) (rule exI)
  then obtain q where q: "analyze_prepared nfc sha q gi start = Inr re" by blast
  then obtain encoded where encoded: "canonical_state_bytes start = Inr encoded"
    by (auto simp: analyze_prepared_def)
  have "\<exists>profile ev analyzer game_id. analyze_from nfc sha gi profile start encoded = Inr ev \<and>
      make_report nfc sha analyzer game_id (sha encoded) ev = Inr re"
    using q unfolding analyze_prepared_def encoded rbind_Inr
    by (auto simp: no split: if_splits prod.splits) (intro exI conjI)
  then show thesis by (elim exE conjE) (rule that [OF encoded])
qed

lemma search_facts:
  assumes "analysable nfc gi start" and "canonical_state_bytes start = Inr encoded"
    and "analyze_from nfc sha gi profile start encoded = Inr ev"
  shows "sound sha gi start (sha encoded) (ev_explored ev)" and "within_bounds (ev_explored ev)"
    and "ex_bound_reason (ev_explored ev) = None \<Longrightarrow> frontier_closed (ev_explored ev)"
    and "frontier_closed (ev_explored ev) \<Longrightarrow> search_settled (ev_explored ev)"
    and "gather_evidence nfc sha gi profile (ev_explored ev) = Inr ev"
proof -
  obtain e where run: "explore_all nfc sha gi (start_exploration (sha encoded) start (int (length encoded))) = Inr e"
    and facts: "sound sha gi start (sha encoded) e" "within_bounds e" "frontier_closed e \<longleftrightarrow> ex_bound_reason e = None"
      "frontier_closed e \<Longrightarrow> search_settled e"
    by (rule explore_all_ok [OF assms(1,2), of sha]) (rule that, (assumption | blast)+)
  have gathered: "gather_evidence nfc sha gi profile e = Inr ev" using assms(3) run by (simp add: analyze_from_def)
  show "sound sha gi start (sha encoded) (ev_explored ev)" and "within_bounds (ev_explored ev)"
    and "ex_bound_reason (ev_explored ev) = None \<Longrightarrow> frontier_closed (ev_explored ev)"
    and "frontier_closed (ev_explored ev) \<Longrightarrow> search_settled (ev_explored ev)"
    and "gather_evidence nfc sha gi profile (ev_explored ev) = Inr ev"
    using facts gathered gatherE(1) [OF gathered] by auto
qed

lemma sorted_empty: "sort xs = [] \<longleftrightarrow> xs = []"
  by (metis set_empty set_sort)

text \<open>What holds of every search whose report passed.\<close>

lemma passed_search:
  assumes "analyze_gamepack nfc sha pack = Inr re" and "re_status re = ''passed''"
    and "make_interpreter pack None = Inr gi" and "start_session gi = Inr start" and "analysable nfc gi start"
  obtains ev h0 where "sound sha gi start h0 (ev_explored ev)" and "search_settled (ev_explored ev)"
    and "gather_evidence nfc sha gi (ev_profile ev) (ev_explored ev) = Inr ev"
    and "unreachable_findings ev = []" and "traps ev = []" and "proof_graph_closed (ev_explored ev)"
proof -
  obtain encoded profile ev analyzer game_id where encoded: "canonical_state_bytes start = Inr encoded"
    and ev: "analyze_from nfc sha gi profile start encoded = Inr ev"
    and report: "make_report nfc sha analyzer game_id (sha encoded) ev = Inr re"
    by (rule searched [OF assms(1,3,4) disjI1 [OF assms(2)]])
  note facts = search_facts [OF assms(5) encoded ev]
  have closed: "frontier_closed (ev_explored ev)" by (rule facts(3) [OF passed_report(1) [OF report assms(2)]])
  have none: "ex_integrity (ev_explored ev) = []" "unreachable_findings ev = []" "dead_end_findings ev = []"
    using passed_report(2) [OF report assms(2)] by (simp_all add: analysis_findings_def)
  have proof_closed: "proof_graph_closed (ev_explored ev)" using closed none(1) by (simp add: proof_graph_closed_def)
  have soft: "softlocks ev = []" using none(3) by (simp add: dead_end_findings_def sorted_empty)
  have "sort (filter (\<lambda>h. h \<notin> set (softlocks ev)) (remdups (traps ev))) = []"
    using none(3) by (simp only: dead_end_findings_def append_is_Nil_conv map_is_Nil_conv)
  then have "remdups (traps ev) = []" unfolding sorted_empty soft by simp
  then have "traps ev = []" by simp
  moreover have "ev_profile ev = profile" using gatherE(9) [OF facts(5)] .
  ultimately show thesis using that facts(1,5) facts(4) [OF closed] none(2) proof_closed by simp
qed

text \<open>Without traps, every explored state can reach an ending; what is not missing was reached.\<close>

lemma no_trap:
  assumes "sound sha gi start h0 (ev_explored ev)" and "search_settled (ev_explored ev)" and "session_state gi start"
    and "collision_free sha gi start" and "gather_evidence nfc sha gi profile (ev_explored ev) = Inr ev" and "traps ev = []"
    and "proof_graph_closed (ev_explored ev)" and "map_of (ex_states (ev_explored ev)) h = Some st"
  shows "can_end sha gi st"
proof -
  have ok: "classified_ok gi (ev_explored ev)" using assms(1) by (simp add: sound_def)
  note terminal = gatherE(6) [OF assms(5)] and ends = gatherE(7) [OF assms(5)]
  obtain c where c: "map_of (ex_classifications (ev_explored ev)) h = Some c"
    by (rule settled_classified [OF assms(2,8)])
  show ?thesis
  proof (cases "h \<in> set (ev_terminal ev)")
    case True
    then have "ended gi st" using terminal_hash_iff [OF terminal ok c assms(8)] by simp
    then show ?thesis unfolding can_end_def by (intro exI conjI) (rule plays_start)
  next
    case False
    have "h \<in> set (dict_keys (ex_classifications (ev_explored ev)))"
      using c by (force simp: dict_keys_def dest: map_of_SomeD)
    then have "h \<in> set (ev_can_end ev)"
      using assms(6,7) False by (auto simp: traps_def filter_empty_conv)
    then show ?thesis using can_end_iff [OF assms(1-4) terminal assms(8)] ends by simp
  qed
qed

text \<open>Findings and witnesses of a report, by the part of the analysis that makes them.\<close>

lemma finding_confirmed:
  assumes "sound sha gi start h0 (ev_explored ev)" and "within_bounds (ev_explored ev)"
    and "ex_bound_reason (ev_explored ev) = None \<Longrightarrow> frontier_closed (ev_explored ev)"
    and "frontier_closed (ev_explored ev) \<Longrightarrow> search_settled (ev_explored ev)"
    and "gather_evidence nfc sha gi profile (ev_explored ev) = Inr ev"
    and "session_state gi start" and "collision_free sha gi start" and "f \<in> set (analysis_findings game_id ev)"
  shows "confirmed sha gi start (fi_reason_code f) (fi_subject_id f)"
proof -
  note ev = gatherE [OF assms(5)]
  have search_settled: "search_settled (ev_explored ev)" if "proof_graph_closed (ev_explored ev)"
    using that assms(4) by (simp add: proof_graph_closed_def)
  consider "f \<in> set (ex_integrity (ev_explored ev))" | "f \<in> set (unreachable_findings ev)"
    | "f \<in> set (dead_end_findings ev)" | "f \<in> set (recovery_findings (ev_explored ev))"
    | "f \<in> set (narrative_findings game_id ev)" | "f \<in> set (restart_findings game_id ev)"
    using assms(8) by (auto simp: analysis_findings_def)
  then show ?thesis
  proof cases
    case 1
    then have "fi_reason_code f \<in> set integrity_reasons" using assms(2) by (simp add: within_bounds_def)
    then show ?thesis by (auto simp: integrity_reasons_def confirmed_def)
  next
    case 2
    then have closed: "proof_graph_closed (ev_explored ev)" by (auto simp: unreachable_findings_def split: if_splits)
    note nowhere = nowhere_missing [OF assms(1) search_settled [OF closed] assms(6,7)]
    from 2 closed show ?thesis
      by (auto simp: unreachable_findings_def missing_def make_finding_def confirmed_def ev(2,3) intro!: nowhere)
  next
    case 3
    then obtain h where "h \<in> set (softlocks ev) \<and> fi_reason_code f = ''nonterminal_softlock'' \<and> fi_subject_id f = h \<or>
        h \<in> set (traps ev) \<and> fi_reason_code f = ''nonterminal_terminal_trap'' \<and> fi_subject_id f = h"
      by (auto simp: dead_end_findings_def state_finding_def make_finding_def)
    moreover have "proof_graph_closed (ev_explored ev)" if "h \<in> set (traps ev)"
      using that by (auto simp: traps_def Let_def)
    ultimately show ?thesis
      using softlock_confirmed [OF assms(1) ev(6)] trap_confirmed [OF assms(1) search_settled assms(6,7) ev(6,7)] by auto
  next
    case 4
    then show ?thesis by (rule recovery_confirmed [OF assms(1)])
  qed (auto simp: narrative_findings_def restart_findings_def make_finding_def confirmed_def split: if_splits)
qed

lemma report_closed:
  "make_report nfc sha analyzer game_id h0 ev = Inr re \<Longrightarrow>
     me_frontier_closed (re_metrics re) = frontier_closed (ev_explored ev)"
  by (auto simp: make_report_def Let_def evidence_metrics_def)

lemma reported_witness:
  assumes "make_report nfc sha analyzer game_id h0 ev = Inr re" and "w \<in> set (re_witnesses re)"
  obtains h where "(wi_kind w, wi_target_id w, h) \<in> set (witness_targets ev (analysis_findings game_id ev))"
    and "wi_kind w \<noteq> ''narrative_option'' \<longrightarrow> trace nfc sha (ev_explored ev) h = Inr (wi_steps w)"
proof -
  obtain ws bounded where "build_witnesses nfc sha (ev_explored ev) (nr_option_traces (ev_reach ev))
      (witness_targets ev (analysis_findings game_id ev)) = Inr (ws, bounded)" and "re_witnesses re = ws"
    by (rule reportE [OF assms(1)])
  with add_witnesses_from [of nfc sha "ev_explored ev" "nr_option_traces (ev_reach ev)"] assms(2)
  obtain h where "(wi_kind w, wi_target_id w, h) \<in> set (sort (remdups (witness_targets ev (analysis_findings game_id ev))))"
    and "witness_steps nfc sha (ev_explored ev) (nr_option_traces (ev_reach ev)) (wi_kind w, wi_target_id w, h) = Inr (wi_steps w)"
    unfolding build_witnesses_def by fastforce
  moreover from this(2) have "wi_kind w \<noteq> ''narrative_option'' \<longrightarrow> trace nfc sha (ev_explored ev) h = Inr (wi_steps w)"
    by (intro impI) (simp add: witness_steps_def)
  ultimately show thesis using that [of h] by simp
qed

lemma missing_nothing: "missing authored reached = [] \<longleftrightarrow> (\<forall>i \<in> set authored. dict_mem i reached)"
  by (auto simp: missing_def sorted_empty filter_empty_conv)

lemma reached_by_session:
  assumes "sound sha gi start h0 e" and "list_all bounded_candidate (gi_candidates gi)"
    and "dict_mem i (first_reached ids e)"
  shows "\<exists>cs st c. foldR (session_step sha gi) start cs = Inr st \<and> classify gi st = Inr c \<and> i \<in> set (ids c)"
proof -
  have ok: "states_ok sha gi start h0 e" "classified_ok gi e" using assms(1) by (simp_all add: sound_def)
  obtain h where "holds_at ids e i h" using assms(3) by (auto simp: reached_iff)
  then obtain st c where st: "map_of (ex_states e) h = Some st" "classify gi st = Inr c" "i \<in> set (ids c)"
    by (rule holds_atE [OF _ ok(2)])
  obtain n where "plays sha gi start n st" by (rule state_known [OF ok(1) st(1)])
  with plays_session_run [OF assms(2)] st(2,3) show ?thesis by blast
qed

lemma ledge_closed:
  obtains encoded e where "canonical_state_bytes ledge_start = Inr encoded"
    and "explore_all all_nfc nibble_sha ledge (start_exploration (nibble_sha encoded) ledge_start (int (length encoded))) = Inr e"
    and "frontier_closed e"
proof -
  obtain re where re: "analyze_gamepack all_nfc nibble_sha ledge_pack = Inr re" "re_status re = ''passed''"
    using ledge_report by (auto simp: ledge_verdict_def)
  obtain encoded profile ev analyzer game_id where encoded: "canonical_state_bytes ledge_start = Inr encoded"
    and ev: "analyze_from all_nfc nibble_sha ledge profile ledge_start encoded = Inr ev"
    and report: "make_report all_nfc nibble_sha analyzer game_id (nibble_sha encoded) ev = Inr re"
    by (rule searched [OF re(1) ledge_made ledge_started disjI1 [OF re(2)]])
  note facts = search_facts [OF ledge_analysable encoded ev]
  have "frontier_closed (ev_explored ev)" by (rule facts(3) [OF passed_report(1) [OF report re(2)]])
  moreover obtain e where "explore_all all_nfc nibble_sha ledge
      (start_exploration (nibble_sha encoded) ledge_start (int (length encoded))) = Inr e"
    and "gather_evidence all_nfc nibble_sha ledge profile e = Inr ev" using ev by (auto simp: analyze_from_def)
  ultimately show thesis using that encoded gatherE(1) by blast
qed

section \<open>Properties\<close>

text \<open>C25. A game that passes the analysis can always be finished: whatever a session has done since the
  start, there are further actions that lead to an ending. (The pack is one the interpreter accepts,
  with clean parameters, and no two states that can be played have the same digest.)\<close>

theorem passed_games_can_be_finished:
  assumes "analyze_gamepack nfc sha pack = Inr re" and "re_status re = ''passed''"
    and "make_interpreter pack None = Inr gi" and "start_session gi = Inr start"
    and "analysable nfc gi start" and "clean_parameters (gi_actions gi)" and "collision_free sha gi start"
    and "foldR (session_step sha gi) start cs = Inr st"
  shows "\<exists>cs' st'. foldR (session_step sha gi) st cs' = Inr st' \<and> ended gi st'"
proof -
  obtain ev h0 where ev: "sound sha gi start h0 (ev_explored ev)" "search_settled (ev_explored ev)"
    and gathered: "gather_evidence nfc sha gi (ev_profile ev) (ev_explored ev) = Inr ev"
    and traps: "traps ev = []" and closed: "proof_graph_closed (ev_explored ev)"
    by (rule passed_search [OF assms(1-5)])
  have gi: "session_state gi start" "list_all bounded_candidate (gi_candidates gi)"
    using assms(5) by (simp_all add: analysable_def)
  obtain n where "plays sha gi start n st" using session_runs_play [OF assms(5,6,8)] by blast
  then obtain h where h: "map_of (ex_states (ev_explored ev)) h = Some st"
    using played_states_found [OF ev gi(1) assms(7)] by blast
  have "can_end sha gi st"
    by (rule no_trap [OF ev gi(1) assms(7) gathered traps closed h])
  then obtain k st' where "plays sha gi st k st'" and "ended gi st'" by (auto simp: can_end_def)
  with plays_session_run [OF gi(2)] show ?thesis by blast
qed

theorem passed_games_can_be_finished_witness:
  "\<exists>cs st. foldR (session_step nibble_sha ledge) ledge_start cs = Inr st \<and> ended ledge st"
proof -
  obtain re where re: "analyze_gamepack all_nfc nibble_sha ledge_pack = Inr re" "ledge_verdict re" using ledge_report by blast
  then have "re_status re = ''passed''" by (simp add: ledge_verdict_def)
  from passed_games_can_be_finished [OF re(1) this ledge_made ledge_started ledge_analysable ledge_clean
      ledge_collision_free, of "[]" ledge_start]
  show ?thesis by simp
qed

text \<open>C27. A game that passes keeps its promises: for every authored goal and for every authored ending there
  are actions that lead a session from the start to a state where it holds.\<close>

theorem passed_games_reach_everything:
  assumes "analyze_gamepack nfc sha pack = Inr re" and "re_status re = ''passed''"
    and "make_interpreter pack None = Inr gi" and "start_session gi = Inr start" and "analysable nfc gi start"
    and "authored_ids (gi_goals gi) = Inr goals" and "authored_ids (gi_endings gi) = Inr endings"
  shows "(\<forall>i \<in> set goals. \<exists>cs st c. foldR (session_step sha gi) start cs = Inr st \<and> classify gi st = Inr c \<and> i \<in> set (gc_goal_ids c)) \<and>
    (\<forall>i \<in> set endings. \<exists>cs st c. foldR (session_step sha gi) start cs = Inr st \<and> classify gi st = Inr c \<and> i \<in> set (gc_ending_ids c))"
proof -
  obtain ev h0 where ev: "sound sha gi start h0 (ev_explored ev)"
    and gathered: "gather_evidence nfc sha gi (ev_profile ev) (ev_explored ev) = Inr ev"
    and none: "unreachable_findings ev = []" and closed: "proof_graph_closed (ev_explored ev)"
    by (rule passed_search [OF assms(1-5)])
  have "missing goals (first_reached gc_goal_ids (ev_explored ev)) = []"
    and "missing endings (first_reached gc_ending_ids (ev_explored ev)) = []"
    using none closed gatherE(2-5) [OF gathered] assms(6,7) by (simp_all add: unreachable_findings_def)
  then show ?thesis
    using reached_by_session [OF ev] assms(5) by (auto simp: missing_nothing analysable_def)
qed

theorem passed_games_reach_everything_witness:
  "\<exists>cs st c. foldR (session_step nibble_sha ledge) ledge_start cs = Inr st \<and> classify ledge st = Inr c \<and>
     ''cross'' \<in> set (gc_goal_ids c)"
proof -
  obtain re where re: "analyze_gamepack all_nfc nibble_sha ledge_pack = Inr re" "ledge_verdict re" using ledge_report by blast
  then have "re_status re = ''passed''" by (simp add: ledge_verdict_def)
  moreover have "authored_ids (gi_goals ledge) = Inr [''cross'']" "authored_ids (gi_endings ledge) = Inr [''far_side'']"
    by code_simp+
  ultimately show ?thesis
    using passed_games_reach_everything [OF re(1) _ ledge_made ledge_started ledge_analysable] by simp
qed

text \<open>C26. The search is exact: when it stops without having reached a bound, the states it recorded are the
  states that can be played, each at the depth that is the least number of actions leading to it.\<close>

theorem closed_search_is_exact:
  assumes "analysable nfc gi start" and "collision_free sha gi start"
    and "canonical_state_bytes start = Inr encoded"
    and "explore_all nfc sha gi (start_exploration (sha encoded) start (int (length encoded))) = Inr e"
    and "frontier_closed e"
  shows "(\<exists>h. map_of (ex_states e) h = Some st \<and> map_of (ex_depths e) h = Some (int n)) \<longleftrightarrow> distance_to sha gi start st n"
proof -
  obtain e' where "explore_all nfc sha gi (start_exploration (sha encoded) start (int (length encoded))) = Inr e'"
    and "sound sha gi start (sha encoded) e'" and "frontier_closed e' \<Longrightarrow> search_settled e'"
    by (rule explore_all_ok [OF assms(1,3), of sha]) (rule that, (assumption | blast)+)
  then have "sound sha gi start (sha encoded) e" "search_settled e" using assms(4,5) by auto
  then show ?thesis using assms(1,2) by (intro explored_exactly) (simp_all add: analysable_def)
qed

theorem closed_search_is_exact_witness:
  "\<exists>e. frontier_closed e \<and> (\<forall>st n. (\<exists>h. map_of (ex_states e) h = Some st \<and> map_of (ex_depths e) h = Some (int n)) \<longleftrightarrow>
     distance_to nibble_sha ledge ledge_start st n)"
proof -
  obtain encoded e where encoded: "canonical_state_bytes ledge_start = Inr encoded"
    and e: "explore_all all_nfc nibble_sha ledge (start_exploration (nibble_sha encoded) ledge_start (int (length encoded))) = Inr e"
    and closed: "frontier_closed e" by (rule ledge_closed)
  from closed_search_is_exact [OF ledge_analysable ledge_collision_free encoded e closed] closed show ?thesis by blast
qed



text \<open>C28. What a report finds is true: an authored goal or ending reported as unreachable holds in no state
  that can be played; a reported softlock is a state that can be played, has no ending and no legal
  action; from a reported trap no ending can be played; and a reported failure of recovery is a state
  with active failures whose common recovery actions are none, or include one that is not available.\<close>

theorem findings_are_true:
  assumes "analyze_gamepack nfc sha pack = Inr re" and "make_interpreter pack None = Inr gi"
    and "start_session gi = Inr start" and "analysable nfc gi start" and "collision_free sha gi start"
    and "f \<in> set (re_findings re)"
  shows "confirmed sha gi start (fi_reason_code f) (fi_subject_id f)"
proof -
  have "re_findings re \<noteq> []" using assms(6) by auto
  then obtain encoded profile ev analyzer game_id where encoded: "canonical_state_bytes start = Inr encoded"
    and ev: "analyze_from nfc sha gi profile start encoded = Inr ev"
    and report: "make_report nfc sha analyzer game_id (sha encoded) ev = Inr re"
    by (elim searched [OF assms(1-3) disjI2 [OF disjI1]])
  have start: "session_state gi start" using assms(4) by (simp add: analysable_def)
  obtain f0 where "f0 \<in> set (analysis_findings game_id ev)" and "fi_reason_code f = fi_reason_code f0"
    and "fi_subject_id f = fi_subject_id f0"
    by (rule reported_finding [OF report assms(6)])
  with finding_confirmed [OF search_facts [OF assms(4) encoded ev] start assms(5)] show ?thesis by simp
qed

theorem findings_are_true_witness:
  "confirmed nibble_sha idle ledge_start ''nonterminal_softlock'' (nibble_sha ''{\"place\":0}'')"
proof -
  obtain re where re: "analyze_gamepack all_nfc nibble_sha idle_pack = Inr re" "idle_verdict re" using idle_report by blast
  then have "(''nonterminal_softlock'', nibble_sha ''{\"place\":0}'') \<in>
      (\<lambda>f. (fi_reason_code f, fi_subject_id f)) ` set (re_findings re)"
    unfolding idle_verdict_def set_map [symmetric] by simp
  then obtain f where f: "f \<in> set (re_findings re)" "fi_reason_code f = ''nonterminal_softlock''"
    "fi_subject_id f = nibble_sha ''{\"place\":0}''" by auto
  from findings_are_true [OF re(1) idle_made idle_started idle_analysable idle_collision_free f(1)] f(2,3)
  show ?thesis by simp
qed

text \<open>C29. The witnesses of goals, endings and failures are plays that show them, step by step as the trace
  steps say; and when the search was exhaustive no shorter sequence of actions leads there.\<close>

theorem witnesses_are_shortest_plays:
  assumes "analyze_gamepack nfc sha pack = Inr re" and "make_interpreter pack None = Inr gi"
    and "start_session gi = Inr start" and "analysable nfc gi start" and "collision_free sha gi start"
    and "w \<in> set (re_witnesses re)"
  shows "let closed = me_frontier_closed (re_metrics re); shown = shows_target nfc sha gi start closed in
    (wi_kind w = ''goal'' \<longrightarrow> shown gc_goal_ids (wi_target_id w) (wi_steps w)) \<and>
    (wi_kind w = ''ending'' \<longrightarrow> shown gc_ending_ids (wi_target_id w) (wi_steps w)) \<and>
    (wi_kind w = ''failure'' \<longrightarrow> shown gc_failure_ids (wi_target_id w) (wi_steps w))"
proof -
  have "re_witnesses re \<noteq> []" using assms(6) by auto
  then obtain encoded profile ev analyzer game_id where encoded: "canonical_state_bytes start = Inr encoded"
    and ev: "analyze_from nfc sha gi profile start encoded = Inr ev"
    and report: "make_report nfc sha analyzer game_id (sha encoded) ev = Inr re"
    by (elim searched [OF assms(1-3) disjI2 [OF disjI2]])
  have start: "session_state gi start" using assms(4) by (simp add: analysable_def)
  note facts = search_facts [OF assms(4) encoded ev]
  have closed: "me_frontier_closed (re_metrics re) = frontier_closed (ev_explored ev)" by (rule report_closed [OF report])
  obtain h where target: "(wi_kind w, wi_target_id w, h) \<in> set (witness_targets ev (analysis_findings game_id ev))"
    and steps: "wi_kind w \<noteq> ''narrative_option'' \<longrightarrow> trace nfc sha (ev_explored ev) h = Inr (wi_steps w)"
    by (rule reported_witness [OF report assms(6)])
  have shown: "shows_target nfc sha gi start (frontier_closed (ev_explored ev)) ids (wi_target_id w) (wi_steps w)"
    if "(wi_target_id w, h) \<in> set (first_reached ids (ev_explored ev))" and "wi_kind w \<noteq> ''narrative_option''" for ids
    by (rule first_witness [OF facts(1) facts(4) start assms(5) that(1)]) (use steps that(2) in simp_all)
  show ?thesis
    using target_kinds [OF target] gatherE(2,3) [OF facts(5)] shown
    by (simp add: Let_def closed)
qed

theorem witnesses_are_shortest_plays_witness:
  "\<exists>steps. shows_target all_nfc nibble_sha ledge ledge_start True gc_goal_ids ''cross'' steps"
proof -
  obtain re where re: "analyze_gamepack all_nfc nibble_sha ledge_pack = Inr re" "ledge_verdict re" using ledge_report by blast
  then have "(''goal'', ''cross'') \<in> (\<lambda>w. (wi_kind w, wi_target_id w)) ` set (re_witnesses re)"
    and closed: "me_frontier_closed (re_metrics re)"
    unfolding ledge_verdict_def set_map [symmetric] by simp_all
  then obtain w where w: "w \<in> set (re_witnesses re)" "wi_kind w = ''goal''" "wi_target_id w = ''cross''" by auto
  from witnesses_are_shortest_plays [OF re(1) ledge_made ledge_started ledge_analysable ledge_collision_free w(1)] w(2,3) closed
  show ?thesis by (auto simp: Let_def)
qed

text \<open>The compatibility policy never disagrees with the strict one: on a state with canonical IDs, whenever
  \<open>transition_strict\<close> gives a result, \<open>transition_legacy\<close> gives the same.\<close>

theorem legacy_agrees_with_strict:
  assumes "make_interpreter pack limits = Inr gi" and "legacy_schema nfc gi" and "distinct (dict_keys st)"
    and "transition_strict sha gi st c = Inr r"
  shows "transition_legacy nfc sha gi st c = Inr r"
  by (rule legacy_follows_strict [OF assms(2) make_interpreter_constructed [OF assms(1)] assms(3,4)])

theorem legacy_agrees_with_strict_witness:
  "\<exists>r. transition_legacy all_nfc no_sha gatehouse gate_initial take_key = Inr r \<and> tr_accepted r"
proof -
  have *: "case transition_strict no_sha gatehouse gate_initial take_key of Inr r \<Rightarrow> tr_accepted r | _ \<Rightarrow> False"
    by code_simp
  then obtain r where r: "transition_strict no_sha gatehouse gate_initial take_key = Inr r" "tr_accepted r"
    by (cases "transition_strict no_sha gatehouse gate_initial take_key") auto
  have "legacy_schema all_nfc gatehouse" "distinct (dict_keys gate_initial)" by code_simp+
  from legacy_agrees_with_strict [OF gatehouse_made this r(1)] r(2) show ?thesis by blast
qed

end
