(* ===== verification/Spec2Isabelle.thy ===== *)
theory Spec2Isabelle
  imports SaveFacts TimePasses Findings GamepackTheorems PersistenceTheorems GamepackContractTheorems AnalysisTheorems
begin

text \<open>
  A verification development for the two runtimes of \<^bold>\<open>World Forge\<close>, the world runtime
  (\<open>src/src/isoworld/\<close>) and the generic gamepack runtime (\<open>src/src/gamepack_runtime/\<close>),
  and for the analyzer of gamepacks (\<open>src/src/worldforge/game_analysis.py\<close>).

  \<^bold>\<open>The world runtime.\<close> A worldpack (\<open>content/models.py\<close>) is checked once by the loader
  (\<open>content/loader.py\<close>) and never changes. A \<open>WorldState\<close> (\<open>world/state.py\<close>) is an immutable
  value; \<open>reduce_world\<close> maps a state and a \<open>GameAction\<close> to the next state. A tick advances the
  clock, runs the living world when the minute changes (\<open>world/living_world.py\<close>: needs,
  constructions, production, delayed consequences, goals), plans and follows routes
  (\<open>world/navigation.py\<close>), and settles quests and scenes (\<open>world/narrative.py\<close>). The other
  actions move, interact, use abilities, build, produce, transfer and talk. \<open>Simulation\<close>
  (\<open>world/simulation.py\<close>) keeps a state and the log of actions; \<open>persistence.py\<close> writes states
  and logs as JSON documents and reads them back.

  \<^bold>\<open>The gamepack runtime.\<close> A gamepack is one JSON document. \<open>contracts.py\<close> takes bounded
  snapshots of every input and computes canonical texts and digests; \<open>GamepackInterpreter\<close>
  (\<open>semantics_v1.py\<close>) indexes the pack, enumerates its actions, evaluates conditions,
  classifies states (goals, endings, failures and their recovery) and applies an action as one
  atomic transition that commits or is refused with a reason; \<open>GameSession\<close> (\<open>session.py\<close>)
  keeps the current state. \<open>persistence.py\<close> binds saves and replays to one bundle of documents:
  a save keeps the states the pack declares saved, a replay the accepted actions of a recording
  session; both are sealed with hashes and checked in full on the way back.

  \<^bold>\<open>The analyzer.\<close> Before a game is packed, \<open>analyze_gamepack\<close> plays it: a breadth-first
  search from the initial state over all candidate actions, by the interpreter's
  \<open>transition_legacy\<close>, up to bounds on states, depth, evaluations and bytes. From the graph it
  found it reports unreachable goals and endings, states without a move (softlocks) or without a
  way to an ending (traps), failures that cannot be recovered from, and for a branching narrative
  the units and options never come by; every goal, ending, failure and finding gets a trace as
  its witness. The report is passed, failed, inconclusive or unsupported.

  \<^bold>\<open>The model.\<close>
  \<^item> Errors are values: \<^theory_text>\<open>Prelude\<close> has the exceptions of the code, the result type
    \<open>exn + 'a\<close> with its bind, loops over it, and dictionaries as association lists.
  \<^item> \<^theory_text>\<open>Content\<close> holds the dataclasses of a worldpack and their methods,
    \<^theory_text>\<open>Navigation\<close> the A* search over the locale \<open>min_heap\<close>, \<^theory_text>\<open>WorldState\<close> the state
    and its accessors with the locale \<open>clamped_store\<close>, interpreted on each kind of attribute.
  \<^item> \<^theory_text>\<open>Rules\<close> (conditions, effects), \<^theory_text>\<open>Consequences\<close>, \<^theory_text>\<open>Movement\<close> (clock,
    schedules, routes, direct actions), \<^theory_text>\<open>Economy\<close> (build, produce, transfer),
    \<^theory_text>\<open>LivingWorld\<close> (the minute pulse and the goal planner), \<^theory_text>\<open>Narrative\<close> (quests,
    scenes, dialogues) and \<^theory_text>\<open>Reducer\<close> (initial state, reducer, simulation, replay) are
    the operations, one definition per function or per loop body of the source.
  \<^item> \<^theory_text>\<open>PackContract\<close> is the contract the loader enforces, \<^theory_text>\<open>SaveValidation\<close> the
    validation of saves, \<^theory_text>\<open>Json\<close>, \<^theory_text>\<open>Decimal\<close>, \<^theory_text>\<open>ActionCodec\<close> and
    \<^theory_text>\<open>Persistence\<close> the documents. SHA-256 is a parameter (\<open>sha\<close>).
  \<^item> \<^theory_text>\<open>JsonSnapshot\<close> holds snapshots, canonical texts and digests of the gamepack
    runtime, \<^theory_text>\<open>Gamepack\<close> the interpreter up to the evaluation of conditions, and
    \<^theory_text>\<open>GamepackRun\<close> effects, classification, transitions, trace steps and sessions. They
    work on the JSON of the pack as the code does, so a record of an unexpected shape takes the
    branch it takes in the code. Unicode normalization is a parameter (\<open>nfc\<close>).
  \<^item> The contract of a pack's logic (\<open>_validate_logic\<close>, \<open>_validate_executable_logic\<close>) is
    \<^theory_text>\<open>GamepackContract\<close> (IDs, arrays, order, domains and operands),
    \<^theory_text>\<open>GamepackShapes\<close> (the fields of every record), \<^theory_text>\<open>ConditionGraph\<close> (the two
    loops over the graph of conditions), \<^theory_text>\<open>GamepackLogic\<close> (registries, actions,
    conditions) and \<^theory_text>\<open>GamepackMechanics\<close> (effects, rules, what each action reaches,
    endings, goals, failures, mechanics), check by check.
  \<^item> \<^theory_text>\<open>GameSaves\<close> (contexts, hashes, seals, saves) and \<^theory_text>\<open>GameReplays\<close> (replays,
    recorder, recording session) are the gamepack runtime's \<open>persistence.py\<close>.
  \<^item> \<^theory_text>\<open>LegacyTransition\<close> is \<open>transition_legacy\<close>; \<^theory_text>\<open>GameExploration\<close> the search of
    \<open>analyze_gamepack\<close>, its local variables the fields of the record \<open>exploration\<close>, one definition
    per loop body; \<^theory_text>\<open>GameVerdict\<close> what was reached, the walk back from the endings, recovery;
    \<^theory_text>\<open>GameReport\<close> the narrative contract, findings, checks, witnesses, metrics and status.

  \<^bold>\<open>The proofs.\<close> \<^theory_text>\<open>PackFacts\<close> turns the contract into facts about each table;
  \<^theory_text>\<open>WorldInvariant\<close> states the invariant \<open>world_ok\<close>; \<^theory_text>\<open>RulesSafety\<close>,
  \<^theory_text>\<open>ConsequencesSafety\<close>, \<^theory_text>\<open>MovementSafety\<close>, \<^theory_text>\<open>EconomySafety\<close>,
  \<^theory_text>\<open>GoalForest\<close>, \<^theory_text>\<open>LivingWorldSafety\<close>, \<^theory_text>\<open>PlannerSafety\<close> and
  \<^theory_text>\<open>NarrativeSafety\<close> show for every operation that it returns (no exception, enough
  fuel) and keeps the invariant; \<^theory_text>\<open>ReducerSafety\<close> puts them together for
  \<open>reduce_world\<close>, for the initial state, and, through the locale \<open>transition_system\<close>, for runs.
  \<^theory_text>\<open>TimePasses\<close> shows that only ticks move the clock and that due work gets done.
  \<^theory_text>\<open>PersistenceFacts\<close> shows that decoding undoes encoding, \<^theory_text>\<open>SaveFacts\<close> that the
  validation of saves decides the invariant, and what follows for loading and replaying.
  \<^theory_text>\<open>GamepackCandidates\<close> relates enumeration and validation of actions,
  \<^theory_text>\<open>GamepackSafety\<close> and \<^theory_text>\<open>GamepackSession\<close> show which errors can occur and that
  the states of a session stay classified, \<^theory_text>\<open>GamepackRuns\<close> interprets
  \<open>transition_system\<close> on sessions, and \<^theory_text>\<open>GamepackTheorems\<close> states the properties on
  the pack of \<^theory_text>\<open>Gatehouse\<close>. \<^theory_text>\<open>GamepackDomains\<close> reads the domains of the
  contract as sets of values and shows that operands evaluate into their domain,
  \<^theory_text>\<open>GamepackSoundness\<close> that the interpreter keeps to what the contract checked (conditions
  evaluate, effects stay in their domain, closures are exact), \<^theory_text>\<open>GamepackProgress\<close>
  that a transition is refused for a few reasons only, and
  \<^theory_text>\<open>GamepackContractTheorems\<close> states the properties of the contract.
  \<^theory_text>\<open>SnapshotExact\<close> says which values a snapshot accepts, \<^theory_text>\<open>PersistenceRuns\<close> what
  projections restore and which runs traces describe, \<^theory_text>\<open>PersistenceErrors\<close> which errors
  documents can cause, \<^theory_text>\<open>SealedDocuments\<close> when saving and recording succeed; their
  properties are in \<^theory_text>\<open>PersistenceTheorems\<close>.
  \<^theory_text>\<open>ExplorationSafety\<close> shows that the search returns, stays within its bounds and records
  only states that can be played (\<open>plays\<close>: the legal steps between two states),
  \<^theory_text>\<open>ExplorationExact\<close> that an exhaustive search records all of them at their distance, that
  traces are plays and the walk back is exact, \<^theory_text>\<open>VerdictFacts\<close> that findings and witnesses
  mean what they say; \<^theory_text>\<open>AnalysisTheorems\<close> states the properties, on the two puzzles of
  \<^theory_text>\<open>Ledge\<close>, evaluated in \<^theory_text>\<open>LedgeFacts\<close>.
  \<^theory_text>\<open>Village\<close> is the concrete worldpack on which theorems are applied, and
  \<^theory_text>\<open>Findings\<close> evaluates variants of it on behaviour that looks unintended.

  \<^bold>\<open>Assumptions.\<close> \<open>pack_ok\<close>: the loader's contract holds, tables are keyed by their IDs (the
  loader builds them so), and IDs do not make compound names ambiguous. \<open>known_actor\<close>: an action
  that names an actor names one of the pack. \<open>depth\<close>: Python's recursion limit, of which
  \<open>process_consequences\<close> uses at most one frame per consequence of the pack. \<open>well_shaped\<close>: the
  record shapes of a gamepack that its validation checks and a session relies on. \<open>accepted\<close>: the
  contract of the logic accepted the logic from which the interpreter was made. The properties of
  saving and recording assume that \<open>sha\<close> gives 64 lowercase hexadecimal digits, not that it is
  injective. \<open>mutable_cursors\<close>: the narrative cursor is not a constant state, and
  \<open>clean_parameters\<close>: parameters have distinct IDs and domains without repetition; the validation of
  a pack checks both. \<open>analysable\<close>: an interpreter of well-shaped records, with state IDs in normal form and
  candidates of bounded size, and an initial state that can be classified. \<open>collision_free\<close>: no two
  states that can be played have the same digest, as the analyzer takes digests for states.
  \<open>tables_in_order\<close>: key/value tuples are in key order, as the operations on states build them.

  \<^bold>\<open>Types.\<close> World states have strings for IDs. A saved state may hold any JSON value there; the
  model stops at one with \<^const>\<open>IllTyped\<close> and says nothing about such a document. The code
  accepts it in two places, the dimension of a relationship and the last message.

  \<^bold>\<open>Fuel.\<close> Loops whose termination is not structural have measures, except the goal planner,
  which runs forever on a cyclic goal table: it takes fuel, and \<^theory_text>\<open>GoalForest\<close> shows the fuel
  enough for every accepted pack. \<open>backtrack\<close> of the search takes the cost of the goal.
  \<open>trace_from\<close> takes the number of parents, which a chain of parents cannot exceed since the depth
  goes down along it. The search of the analyzer terminates by \<open>room\<close>, the states queued and still
  allowed; its walk back by the states not yet known.

  \<^bold>\<open>Not modelled.\<close> Of the gamepack runtime, the contracts of modules, presentation and localization, and the files of saves and
  replays (pretty-printed bytes, slot paths, generations); shared or cyclic Python containers, which a snapshot rejects.
  Of the analyzer, the sealing of the report (fixed prose, hash), its validator and its files. File and terminal I/O, rendering, the asset pipeline, the studio, agents
  and providers, process management and the native code; of the loader, the parsing of raw JSON
  into dataclasses and the locale tables.
\<close>

section \<open>The reducer\<close>

text \<open>C1. From the initial state of an accepted pack, any list of actions on known actors runs to
  the end: no action raises, every loop and recursion returns, and the final state satisfies the
  whole invariant (distinct actors on distinct open cells, stock within capacity, deadlines in the
  future, valid quests, dialogues, events).\<close>

theorem every_run_keeps_the_invariant:
  assumes "pack_ok pack" and "playable_actor_ids pack \<noteq> []"
    and "length (wp_consequences pack) < depth" and "list_all (known_actor pack) acts"
  shows "\<exists>st. replay_actions depth pack acts = Inr st \<and> world_ok pack st"
  using outcome_no_exnD [OF replay_ok [OF assms]] .

theorem every_run_keeps_the_invariant_witness:
  "\<exists>st. replay_actions 3 village
     [game_action_of ''tick'', (game_action_of ''move'')\<lparr>ga_actor_id := Some ''bo'', ga_dx := -1\<rparr>,
      game_action_of ''interact'', game_action_of ''tick''] = Inr st \<and> world_ok village st"
  by (rule every_run_keeps_the_invariant [OF village_ok]; code_simp)

text \<open>C2. One step: on a state that satisfies the invariant, \<open>reduce_world\<close> returns for every action
  whose actor is known, whatever its kind and its other arguments, and keeps the invariant.\<close>

theorem reduce_world_keeps_the_invariant:
  assumes "pack_ok pack" and "world_ok pack st" and "known_actor pack act"
    and "length (wp_consequences pack) < depth"
  shows "\<exists>st'. reduce_world depth st act pack = Inr st' \<and> world_ok pack st'"
  using outcome_no_exnD [OF reduce_ok [OF assms]] .

theorem reduce_world_keeps_the_invariant_witness:
  "\<exists>st'. reduce_world 2 (bare_initial_state village ''ana'') (game_action_of ''build'') village = Inr st' \<and>
     world_ok village st'"
proof (rule reduce_world_keeps_the_invariant [OF village_ok])
  show "world_ok village (bare_initial_state village ''ana'')"
    by (rule bare_initial_state_ok [OF village_ok]) code_simp
qed code_simp+

text \<open>An accepted pack with a playable actor has an initial state, and it satisfies the
  invariant.\<close>

theorem initial_state_is_valid:
  assumes "pack_ok pack" and "playable_actor_ids pack \<noteq> []" and "length (wp_consequences pack) < depth"
  shows "\<exists>st. initial_world_state depth pack = Inr st \<and> world_ok pack st"
  using outcome_no_exnD [OF initial_world_ok [OF assms]] .

theorem initial_state_is_valid_witness:
  "\<exists>st. initial_world_state 2 village = Inr st \<and> world_ok village st"
  by (rule initial_state_is_valid [OF village_ok]; code_simp)

lemma dispatch_log:
  "foldR (dispatch_step depth) sim acts = Inr sim' \<Longrightarrow>
     sim_action_log sim' = sim_action_log sim @ acts \<and> sim_pack sim' = sim_pack sim"
  by (induction acts arbitrary: sim) (fastforce simp: dispatch_step_def dispatch_def)+

text \<open>C4. The log of a simulation is faithful: after dispatching any list of actions to a new
  simulation, replaying its action log from the initial state gives exactly its current state, and
  the log is the list of actions.\<close>

theorem simulation_log_replays:
  assumes "pack_ok pack" and "playable_actor_ids pack \<noteq> []"
    and "length (wp_consequences pack) < depth" and "list_all (known_actor pack) acts"
  shows "\<exists>sim sim'. new_simulation depth pack None = Inr sim \<and>
    foldR (dispatch_step depth) sim acts = Inr sim' \<and>
    sim_action_log sim' = acts \<and> replay_actions depth pack (sim_action_log sim') = Inr (sim_state sim')"
proof -
  obtain sim where sim: "new_simulation depth pack None = Inr sim" "replayable depth sim \<and> sim_pack sim = pack"
    using outcome_no_exnD [OF new_simulation_replayable [OF assms(1-3)]] by blast
  obtain sim' where sim': "foldR (dispatch_step depth) sim acts = Inr sim'" "replayable depth sim' \<and> sim_pack sim' = pack"
    by (rule simulation.run_total [OF sim(2) assms(4)])
  have "sim_action_log sim = []" using sim(1) by (auto simp: new_simulation_def)
  then show ?thesis using sim(1) sim' dispatch_log [OF sim'(1)] by (auto simp: replayable_def)
qed

theorem simulation_log_replays_witness:
  "\<exists>sim sim'. new_simulation 2 village None = Inr sim \<and>
    foldR (dispatch_step 2) sim [game_action_of ''tick'', game_action_of ''interact''] = Inr sim' \<and>
    sim_action_log sim' = [game_action_of ''tick'', game_action_of ''interact''] \<and>
    replay_actions 2 village (sim_action_log sim') = Inr (sim_state sim')"
  by (rule simulation_log_replays [OF village_ok]; code_simp)

section \<open>Movement\<close>

text \<open>C5. A* is sound, optimal and complete: on well-formed maps \<open>find_path\<close> always returns; a
  non-empty answer is a route over open, unblocked, neighbouring cells from the start to the goal;
  and when any route shorter than 2^31 steps exists, the answer is a route that is no longer.\<close>

theorem find_path_is_shortest:
  assumes "maps_ok pack"
  shows "\<exists>p. find_path pack mid start goal blocked = Inr p \<and>
    (p \<noteq> [] \<longrightarrow> is_route pack mid blocked start goal p) \<and>
    (\<forall>r. start \<noteq> goal \<longrightarrow> is_route pack mid blocked start goal r \<longrightarrow> length r < cost_limit \<longrightarrow>
        p \<noteq> [] \<and> length p \<le> length r)"
  using assms by (rule find_path_spec)

theorem find_path_is_shortest_witness:
  "\<exists>p. find_path village ''dale'' (0, 1) (2, 1) {(1, 0)} = Inr p \<and> p \<noteq> [] \<and> length p \<le> 4"
proof -
  have r: "is_route village ''dale'' {(1, 0)} (0, 1) (2, 1) [(0, 2), (1, 2), (2, 2), (2, 1)]" by code_simp
  have "(4 :: nat) < cost_limit" by (simp add: cost_limit_def)
  then show ?thesis
    using find_path_is_shortest [OF pack_ok_maps [OF village_ok], of "''dale''" "(0, 1)" "(2, 1)" "{(1, 0)}"] r
    by (fastforce simp: numeral_eq_Suc)
qed

text \<open>C6. No tick makes two actors share a cell. Moving along routes succeeds on every state of
  the right shape, keeps the shape, leaves the actors on distinct cells, and changes an actor only
  as allowed: it stays, takes the first step of its route, or waits and gives up after three
  waits.\<close>

theorem routes_never_collide:
  assumes "pack_ok pack" and "world_typed pack st"
  shows "\<exists>st'. advance_routes st pack = Inr st' \<and> world_typed pack st' \<and>
    distinct (map actor_key (ws_actors st')) \<and> list_all2 follows (ws_actors st) (ws_actors st')"
proof -
  have cast: "cast_ok pack (ws_constructions st) (ws_actors st)" and sites: "sites_ok pack (ws_constructions st)"
    using assms(2) by (simp_all add: world_typed_def)
  obtain st' where st': "advance_routes st pack = Inr st'" "walkers pack st st'"
    using outcome_no_exnD [OF advance_routes_ok [OF assms(1) cast sites]] by blast
  have "list_all2 follows (ws_actors st) (ws_actors st')"
    using cast st'(1) by (intro advance_routes_follows) (simp_all add: cast_ok_def)
  moreover have "distinct (map actor_key (ws_actors st'))"
    using walkersE(1) [OF st'(2)] by (simp add: cast_ok_def)
  ultimately show ?thesis using st' walkers_typed [OF assms(2) st'(2)] by blast
qed

theorem routes_never_collide_witness:
  "\<exists>st'. advance_routes village_start village = Inr st' \<and> distinct (map actor_key (ws_actors st'))"
  using routes_never_collide [OF village_ok village_start_typed] by blast

text \<open>C7. The clock counts: a tick keeps the minute of day within 0..1439 and the sub-minute within
  the ticks of a minute, and the elapsed time, in ticks, grows by exactly one, across minute and day
  boundaries.\<close>

theorem tick_advances_the_clock:
  assumes "time_ok pack st"
  shows "time_ok pack (advance_clock st pack) \<and> ws_tick (advance_clock st pack) = ws_tick st + 1 \<and>
    absolute_minute (advance_clock st pack) * ticks_per_minute (wp_clock pack) + ws_minute_tick (advance_clock st pack) =
    absolute_minute st * ticks_per_minute (wp_clock pack) + ws_minute_tick st + 1"
proof -
  have "time_ok pack (advance_clock st pack)" "ws_tick (advance_clock st pack) = ws_tick st + 1"
    using assms by (auto simp: advance_clock_def Let_def time_ok_def)
  with clock_advances [OF assms] show ?thesis by (simp add: elapsed_def)
qed

theorem tick_advances_the_clock_witness:
  "time_ok village (advance_clock (village_start\<lparr>ws_minute_of_day := 1439, ws_minute_tick := 1\<rparr>) village)"
proof -
  have "time_ok village (village_start\<lparr>ws_minute_of_day := 1439, ws_minute_tick := 1\<rparr>)" by code_simp
  from tick_advances_the_clock [OF this] show ?thesis by simp
qed

section \<open>The living world\<close>

text \<open>C8. Consequences settle: \<open>process_consequences\<close> returns within one stack frame per
  consequence of the pack, keeps the cast and the stock valid, does not move the clock, and leaves
  nothing due.\<close>

theorem consequences_settle:
  assumes "pack_ok pack" and "csq_inv pack st" and "events_ok pack events"
    and "dict_mem source (wp_actors pack)" and "length (wp_consequences pack) < depth"
  shows "\<exists>st'. process_consequences depth st pack events source = Inr st' \<and> csq_inv pack st' \<and>
    absolute_minute st' = absolute_minute st \<and>
    (\<forall>p \<in> set (ws_pending_consequences st'). absolute_minute st < pc_due_at_minute p)"
proof -
  have "pending_ok pack (ws_pending_consequences st)" using assms(2) by (simp add: csq_inv_def)
  note few = process_consequences_enough_depth [OF this assms(5)]
  obtain st' where "process_consequences depth st pack events source = Inr st'" "processed_ok pack st st'"
    using outcome_no_exnD [OF process_consequences_ok [OF assms(1-4) few]] by blast
  then show ?thesis by (auto simp: processed_ok_def pending_timed_def csq_frame_def absolute_minute_def)
qed

theorem consequences_settle_witness:
  "\<exists>st'. process_consequences 2 (village_start\<lparr>ws_minute_of_day := 500,
       ws_pending_consequences := [\<lparr>pc_consequence_id = ''smoke'', pc_due_at_minute = 490,
         pc_source_actor_id = ''ana''\<rparr>]\<rparr>) village [] ''ana'' = Inr st' \<and> ws_flags st' = {''smoke''} \<and>
     csq_inv village st'"
proof -
  let ?st = "village_start\<lparr>ws_minute_of_day := 500, ws_pending_consequences :=
     [\<lparr>pc_consequence_id = ''smoke'', pc_due_at_minute = 490, pc_source_actor_id = ''ana''\<rparr>]\<rparr>"
  have "csq_inv village village_start"
    using village_start_typed by (simp add: csq_inv_def rules_ok_def world_typed_def)
  then have inv: "csq_inv village ?st" by (simp add: csq_inv_def rules_ok_def pending_ok_def village_def dict_mem_def)
  have ids: "dict_mem ''ana'' (wp_actors village)" "length (wp_consequences village) < 2" by code_simp+
  obtain st' where st': "process_consequences 2 ?st village [] ''ana'' = Inr st'" "csq_inv village st'"
    using consequences_settle [OF village_ok inv events_ok_Nil ids] by blast
  moreover have "case process_consequences 2 ?st village [] ''ana'' of Inr s \<Rightarrow> ws_flags s = {''smoke''} | Inl _ \<Rightarrow> False"
    by code_simp
  ultimately show ?thesis by simp
qed

text \<open>C9. The goal planner terminates: on an accepted pack the walk over an actor's goals returns,
  every candidate is a goal of the pack, and the chain from it to its root is finite.\<close>

theorem goal_walk_terminates:
  assumes "pack_ok pack" and "world_typed pack st" and "map_of (wp_actors pack) k = Some d"
  shows "\<exists>cs. goal_candidates st pack d events = Inr cs \<and>
    (\<forall>c \<in> set cs. snd c \<in> set (dict_values (wp_goals pack)) \<and>
       (\<exists>gs. goal_chain (snd c) pack = Inr gs))"
proof -
  obtain cs where cs: "goal_candidates st pack d events = Inr cs"
    "\<forall>c \<in> set cs. snd c \<in> set (dict_values (wp_goals pack))"
    using outcome_no_exnD [OF goal_candidates_total [OF assms]] by blast
  have keyed: "keyed_by gd_id (wp_goals pack)" using pack_ok_wf [OF assms(1)] by (simp add: pack_wf_def)
  have "\<exists>gs. goal_chain g pack = Inr gs" if "g \<in> set (dict_values (wp_goals pack))" for g
    using outcome_no_exnD [OF goal_chain_total [OF assms(1) keyed_by_mem [OF keyed that]]] by blast
  then show ?thesis using cs by blast
qed

theorem goal_walk_terminates_witness:
  "\<exists>cs. goal_candidates village_start village bo [] = Inr cs \<and> (\<forall>c \<in> set cs. \<exists>gs. goal_chain (snd c) village = Inr gs)"
proof -
  have "map_of (wp_actors village) ''bo'' = Some bo" by (simp add: village_def)
  then show ?thesis using goal_walk_terminates [OF village_ok village_start_typed] by blast
qed

text \<open>C10. A transfer creates and destroys nothing: up to the consequences it triggers, what all
  actors and stockpiles hold of each resource together is the same after a transfer, whether it is
  carried out or refused.\<close>

theorem transfer_conserves_resources:
  assumes "pack_ok pack" and "world_ok pack st" and "known_actor pack act"
  shows "\<exists>moved. held moved = held st \<and>
    (transfer_resource depth st act pack = Inr moved \<or>
     transfer_resource depth st act pack =
       process_consequences depth moved pack (ws_recent_events moved) (action_actor st act))"
  using assms by (rule transfer_conserves)

theorem transfer_conserves_resources_witness:
  "\<exists>moved. held moved = held village_start \<and> held village_start ''wood'' = 9 \<and>
     (let act = (game_action_of ''transfer_resource'')\<lparr>ga_stockpile_id := Some ''barn'',
        ga_resource_id := Some ''wood'', ga_amount := 2, ga_direction := Some ''deposit''\<rparr> in
      transfer_resource 2 village_start act village = Inr moved \<or>
      transfer_resource 2 village_start act village =
        process_consequences 2 moved village (ws_recent_events moved) (action_actor village_start act))"
proof -
  let ?act = "(game_action_of ''transfer_resource'')\<lparr>ga_stockpile_id := Some ''barn'',
        ga_resource_id := Some ''wood'', ga_amount := 2, ga_direction := Some ''deposit''\<rparr>"
  have "known_actor village ?act" "held village_start ''wood'' = 9" by code_simp+
  then show ?thesis using transfer_conserves_resources [OF village_ok village_start_ok, of ?act 2] by (simp add: Let_def)
qed

section \<open>Saves and replays\<close>

lemma village_start_encodable: "encodable village_start"
proof -
  have "list_all tuples_sorted (ws_actors village_start) \<and> list_all (\<lambda>s. kv_ok (ss_resources s)) (ws_stockpiles village_start)"
    by code_simp
  moreover have "ws_flags village_start = {}" "ws_completed_interactions village_start = {}"
    "ws_triggered_scenes village_start = {}" "ws_triggered_consequences village_start = {}"
    by (simp_all add: village_start_def bare_initial_state_def)
  ultimately show ?thesis by (simp add: encodable_def tables_in_order_def list_all_iff)
qed

lemma village_start_saves: "validate_state village_start village = Inr ()"
  by code_simp

text \<open>C11. \<open>_validate_state\<close> decides the invariant, except for the order of key/value tuples, which it
  never looks at: whatever the state, it is accepted and its tuples are in order if and only if it
  satisfies the invariant and is ready to be saved (no route over a blocking construction, no need
  beyond the actor's own).\<close>

theorem saves_accept_exactly_the_invariant:
  assumes "pack_ok pack"
  shows "validate_state st pack = Inr () \<and> tables_in_order st \<longleftrightarrow> world_ok pack st \<and> save_ready pack st"
  using validate_state_accepts [OF assms] world_ok_ordered(1) by blast

theorem saves_accept_exactly_the_invariant_witness:
  "world_ok village village_start \<and> save_ready village village_start"
  using saves_accept_exactly_the_invariant [OF village_ok, of village_start] village_start_encodable village_start_saves
  by (simp add: encodable_def)

text \<open>C12. Saving and loading gives back the same state, for any digest function.\<close>

theorem save_then_load_restores:
  assumes "encodable st" and "save_game sha st pack = Inr doc"
  shows "load_game sha doc pack = Inr st"
  using assms by (rule save_load)

theorem save_then_load_restores_witness:
  "\<exists>doc. save_game (\<lambda>t. t) village_start village = Inr doc \<and> load_game (\<lambda>t. t) doc village = Inr village_start"
proof -
  obtain doc where "save_game (\<lambda>t. t) village_start village = Inr doc"
    using village_start_saves by (simp add: save_game_def)
  then show ?thesis using save_then_load_restores [OF village_start_encodable] by blast
qed

text \<open>C13. Loading is safe up to the order of relationships. A state that \<open>load_game\<close> returns satisfies
  the invariant exactly if the document lists the relationships of every actor in order and without
  repetition, as \<open>save_game\<close> does and nothing checks; and then every run of known actions from
  it goes through and keeps the invariant. (IDs, dimensions and texts of the document are strings.)\<close>

theorem loaded_game_is_valid_and_runs:
  assumes "pack_ok pack" and "wf_json (JObj raw)" and "load_game sha raw pack = Inr st"
    and "length (wp_consequences pack) < depth" and "list_all (known_actor pack) acts"
  shows "(world_ok pack st \<longleftrightarrow> relationships_in_order st) \<and>
    (relationships_in_order st \<longrightarrow> (\<exists>st'. foldR (reduce_step depth pack) st acts = Inr st' \<and> world_ok pack st'))"
proof -
  obtain state_raw where raw: "map_of raw ''state'' = Some (JObj state_raw)" "state_from_dict state_raw pack = Inr st"
    by (rule load_game_parts [OF assms(3)])
  have "wf_json (JObj state_raw)" using assms(2) map_of_SomeD [OF raw(1)] by (fastforce simp: list_all_iff [of _ raw])
  then have st: "world_ok pack st \<longleftrightarrow> relationships_in_order st" by (rule state_from_dict_iff [OF assms(1) _ raw(2)])
  have "\<exists>st'. foldR (reduce_step depth pack) st acts = Inr st' \<and> world_ok pack st'" if "world_ok pack st"
  proof -
    have "running depth pack st" using that assms(1,4) by (simp add: running_def)
    from reducer.run_total [OF this assms(5)] show ?thesis by (auto simp: running_def)
  qed
  then show ?thesis using st by blast
qed

theorem loaded_game_is_valid_and_runs_witness:
  "\<exists>raw st st'. load_game (\<lambda>_. ''d'') raw village = Inr st \<and>
     foldR (reduce_step 2 village) st [game_action_of ''tick'', game_action_of ''tick''] = Inr st' \<and> world_ok village st'"
proof -
  have c: "case save_game (\<lambda>_. ''d'') village_start village of Inr doc \<Rightarrow>
      wf_json (JObj doc) \<and> (case load_game (\<lambda>_. ''d'') doc village of
        Inr st \<Rightarrow> list_all (\<lambda>a. kv_ok (as_relationships a)) (ws_actors st) | Inl _ \<Rightarrow> False) | Inl _ \<Rightarrow> False"
    by code_simp
  then obtain raw st where raw: "wf_json (JObj raw)" and st: "load_game (\<lambda>_. ''d'') raw village = Inr st"
    and rel: "relationships_in_order st"
    by (auto split: sum.splits simp: list_all_iff relationships_in_order_def)
  have "length (wp_consequences village) < 2" by code_simp
  moreover have "list_all (known_actor village) [game_action_of ''tick'', game_action_of ''tick'']" by code_simp
  ultimately show ?thesis using loaded_game_is_valid_and_runs [OF village_ok raw st] st rel by blast
qed

text \<open>C14. A written replay loads to the same actions and the same final state.\<close>

theorem replay_document_roundtrip:
  assumes "list_all (\<lambda>a. ga_kind a \<in> action_kinds) acts" and "length acts \<le> 1000000"
    and "replay_actions depth pack acts = Inr final"
  shows "load_replay depth sha (write_replay sha acts final pack) pack = Inr (acts, final)"
  using assms by (intro replay_roundtrip) (simp_all add: max_replay_actions_def)

theorem replay_document_roundtrip_witness:
  "\<exists>final. load_replay 2 (\<lambda>t. t) (write_replay (\<lambda>t. t) [game_action_of ''tick''] final village) village =
     Inr ([game_action_of ''tick''], final)"
proof -
  have "playable_actor_ids village \<noteq> []" "length (wp_consequences village) < 2"
    "list_all (known_actor village) [game_action_of ''tick'']" by code_simp+
  then obtain final where "replay_actions 2 village [game_action_of ''tick''] = Inr final"
    using outcome_no_exnD [OF replay_ok [OF village_ok, of 2 "[game_action_of ''tick'']"]] by blast
  moreover have "list_all (\<lambda>a. ga_kind a \<in> action_kinds) [game_action_of ''tick'']" by code_simp
  ultimately show ?thesis using replay_document_roundtrip [of "[game_action_of ''tick'']"] by fastforce
qed

text \<open>Actions survive the round trip through their dictionary, for every known kind and all
  fields.\<close>

theorem action_dictionary_roundtrip:
  assumes "ga_kind a \<in> action_kinds"
  shows "action_from_dict (action_to_dict a) = Inr a"
  using assms by (rule action_dict_roundtrip)

theorem action_dictionary_roundtrip_witness:
  "action_from_dict (action_to_dict ((game_action_of ''navigate'')\<lparr>ga_x := Some (-2)\<rparr>)) =
     Inr ((game_action_of ''navigate'')\<lparr>ga_x := Some (-2)\<rparr>)"
proof -
  have "ga_kind ((game_action_of ''navigate'')\<lparr>ga_x := Some (-2)\<rparr>) \<in> action_kinds" by code_simp
  then show ?thesis by (rule action_dictionary_roundtrip)
qed

text \<open>Digests do not depend on the order of a dictionary: two objects with the same entries have
  the same canonical text.\<close>

theorem canonical_text_ignores_order:
  assumes "mset kvs = mset kvs'" and "distinct (map fst kvs)"
  shows "json_text (JObj kvs) = json_text (JObj kvs')"
  using assms by (rule json_text_permuted)

theorem canonical_text_ignores_order_witness:
  "json_text (JObj [(''b'', JInt 1), (''a'', JNull)]) = json_text (JObj [(''a'', JNull), (''b'', JInt 1)])"
  by (rule canonical_text_ignores_order) simp_all

section \<open>Content\<close>

text \<open>The runtime handshake: a pack is compatible exactly when the version lies in the half-open
  interval of the pack, compared part by part, and every required feature is offered.\<close>

theorem compatible_exactly_in_range:
  assumes "check_runtime_compatibility req version features = Inr r"
  shows "rcr_compatible r \<longleftrightarrow>
    (\<exists>v lo hi. runtime_version_key version = Inr v \<and>
       runtime_version_key (rar_minimum (rr_runtime_api req)) = Inr lo \<and>
       runtime_version_key (rar_maximum_exclusive (rr_runtime_api req)) = Inr hi \<and>
       lo \<le> v \<and> v < hi) \<and> set (rr_required_features req) \<subseteq> set features"
  using assms by (rule check_runtime_compatibility_ok)

theorem compatible_exactly_in_range_witness:
  "\<exists>r. compatibility_with village ''1.2.0'' [] = Inr r \<and> rcr_compatible r"
proof -
  have "case compatibility_with village ''1.2.0'' [] of Inr _ \<Rightarrow> True | Inl _ \<Rightarrow> False" by code_simp
  then obtain r where r: "compatibility_with village ''1.2.0'' [] = Inr r" by (auto split: sum.splits)
  have keys: "runtime_version_key ''1.2.0'' = Inr (1, 2, 0)" "runtime_version_key ''1.0.0'' = Inr (1, 0, 0)"
    "runtime_version_key ''2.0.0'' = Inr (2, 0, 0)" by code_simp+
  show ?thesis
    using compatible_exactly_in_range [OF r [unfolded compatibility_with_def]] r keys by (simp add: village_def less_prod_def)
qed

text \<open>Attributes stay clamped: writing a relationship stores the value cut to -100..100 under
  that target and dimension and nowhere else.\<close>

theorem relationships_are_clamped:
  assumes "kv_ok (as_relationships a)" and "kv_values_in {-100..100} (as_relationships a)"
  shows "relationship (with_relationship a t d v) t' d' =
    (if t' = t \<and> d' = d then clamp (-100) 100 v else relationship a t' d')"
  using relationship_store.get_put [of a "(t, d)" v "(t', d')"] assms by simp

theorem relationships_are_clamped_witness:
  "relationship (with_relationship (initial_actor bo) ''ana'' ''trust'' 250) ''ana'' ''trust'' = 100"
proof -
  have "kv_ok (as_relationships (initial_actor bo))" "kv_values_in {-100..100} (as_relationships (initial_actor bo))"
    by (simp_all add: initial_actor_def bo_def flat_relationships_def kv_ok_def kv_values_in_def dict_keys_def)
  from relationships_are_clamped [OF this, of "''ana''" "''trust''" 250 "''ana''" "''trust''"]
  show ?thesis by (simp add: clamp_def)
qed

end
